(* ===== verification/Prelude.thy ===== *)
theory Prelude
  imports "HOL-Library.Word"
begin

unbundle bit_operations_syntax

text \<open>
  What every component shares: the machine integer types of the C code, the result type and the
  state monad in which the stateful C functions are written (\<open>err_t\<close> results, the
  \<open>goto cleanup\<close> discipline of \<^verbatim>\<open>shared/include/error.h\<close>, undefined behaviour and exhausted fuel as
  explicit outcomes), bounded and unbounded loops, and a weakest-precondition calculus for it.
\<close>

section \<open>Machine integers\<close>

type_synonym u8 = "8 word"
type_synonym u16 = "16 word"
type_synonym u32 = "32 word"
type_synonym u64 = "64 word"

lemma unat_ucast_up:
  assumes "LENGTH('a) \<le> LENGTH('b)"
  shows "unat (ucast (x :: 'a::len word) :: 'b::len word) = unat x"
proof -
  have "unat x < 2 ^ LENGTH('a)" by (rule unsigned_less)
  also have "\<dots> \<le> 2 ^ LENGTH('b)" using assms by simp
  finally show ?thesis by (simp add: unsigned_ucast_eq take_bit_nat_eq_self)
qed

named_theorems wp_simps "weakest preconditions of the statements of the embedding"
named_theorems layout_simps "offsets and sizes of the C structures"

section \<open>Results of C functions\<close>

text \<open>
  \<open>err_t\<close> of \<^verbatim>\<open>error.h\<close> is an enum of \<open>SUCCESS\<close> and \<open>ERR_INVALID\<close>. A function that returns
  \<open>SUCCESS\<close> is one that returns its out parameters; the failing values are the constructors here.
\<close>

datatype err_t = ERR_INVALID

text \<open>
  Besides returning and failing, a C function can run into undefined behaviour (an access outside
  of an object, a null dereference), and a loop whose exit depends on the hardware can keep
  running; the model gives such a loop fuel and says so when it is used up.
\<close>

datatype fault = Undefined_Behaviour | Out_Of_Fuel

datatype ('a, 's) outcome =
    Returns 'a 's
  | Throws err_t 's
  | Faults fault

type_synonym ('s, 'a) cfun = "'s \<Rightarrow> ('a, 's) outcome"

definition ret :: "'a \<Rightarrow> ('s, 'a) cfun" where
  "ret a = (\<lambda>s. Returns a s)"

definition throw :: "err_t \<Rightarrow> ('s, 'a) cfun" where
  "throw e = (\<lambda>s. Throws e s)"

definition faults :: "fault \<Rightarrow> ('s, 'a) cfun" where
  "faults f = (\<lambda>s. Faults f)"

definition bind :: "('s, 'a) cfun \<Rightarrow> ('a \<Rightarrow> ('s, 'b) cfun) \<Rightarrow> ('s, 'b) cfun" where
  "bind m f = (\<lambda>s. case m s of Returns a s' \<Rightarrow> f a s' | Throws e s' \<Rightarrow> Throws e s' | Faults x \<Rightarrow> Faults x)"

definition seq :: "('s, 'a) cfun \<Rightarrow> ('s, 'b) cfun \<Rightarrow> ('s, 'b) cfun" where
  "seq m n = bind m (\<lambda>_. n)"

text \<open>\<open>CHECK(expr)\<close>: go to \<open>cleanup\<close> with \<open>ERR_INVALID\<close> unless the expression holds.\<close>

definition CHECK :: "bool \<Rightarrow> ('s, unit) cfun" where
  "CHECK b = (if b then ret () else throw ERR_INVALID)"

text \<open>An access the C standard leaves undefined unless the condition holds.\<close>

definition defined_if :: "bool \<Rightarrow> ('s, unit) cfun" where
  "defined_if b = (if b then ret () else faults Undefined_Behaviour)"

definition gets :: "('s \<Rightarrow> 'a) \<Rightarrow> ('s, 'a) cfun" where
  "gets f = (\<lambda>s. Returns (f s) s)"

definition modify :: "('s \<Rightarrow> 's) \<Rightarrow> ('s, unit) cfun" where
  "modify f = (\<lambda>s. Returns () (f s))"

text \<open>A step that reads a result and changes the state (a call of a pure state-passing function).\<close>

definition stateful :: "('s \<Rightarrow> 'a \<times> 's) \<Rightarrow> ('s, 'a) cfun" where
  "stateful f = (\<lambda>s. case f s of (a, s') \<Rightarrow> Returns a s')"

text \<open>The code after the label \<open>cleanup\<close> that runs only when an error is being returned.\<close>

definition on_error :: "('s, 'a) cfun \<Rightarrow> ('s, unit) cfun \<Rightarrow> ('s, 'a) cfun" where
  "on_error m h = (\<lambda>s. case m s of
      Returns a s' \<Rightarrow> Returns a s'
    | Throws e s' \<Rightarrow> (case h s' of Returns _ s'' \<Rightarrow> Throws e s'' | Throws _ s'' \<Rightarrow> Throws e s'' | Faults x \<Rightarrow> Faults x)
    | Faults x \<Rightarrow> Faults x)"

text \<open>A call whose error code is not looked at by the caller.\<close>

definition ignore_error :: "('s, 'a) cfun \<Rightarrow> ('s, unit) cfun" where
  "ignore_error m = (\<lambda>s. case m s of
      Returns _ s' \<Rightarrow> Returns () s' | Throws _ s' \<Rightarrow> Returns () s' | Faults x \<Rightarrow> Faults x)"

section \<open>Loops\<close>

text \<open>\<open>for\<close> over a list of index values, and \<open>while\<close> with fuel.\<close>

primrec for_each :: "'x list \<Rightarrow> ('x \<Rightarrow> ('s, unit) cfun) \<Rightarrow> ('s, unit) cfun" where
  "for_each [] f = ret ()"
| "for_each (x # xs) f = seq (f x) (for_each xs f)"

primrec while_fuel :: "nat \<Rightarrow> ('s, bool) cfun \<Rightarrow> ('s, unit) cfun \<Rightarrow> ('s, unit) cfun" where
  "while_fuel 0 b m = faults Out_Of_Fuel"
| "while_fuel (Suc n) b m = bind b (\<lambda>go. if go then seq m (while_fuel n b m) else ret ())"

section \<open>Weakest preconditions\<close>

text \<open>
  \<open>wp m Q E s\<close>: run in \<open>s\<close>, the function \<open>m\<close> comes to an end without undefined behaviour and within its
  fuel, a return satisfies \<open>Q\<close> and an error return satisfies \<open>E\<close>. Total correctness.
\<close>

definition wp :: "('s, 'a) cfun \<Rightarrow> ('a \<Rightarrow> 's \<Rightarrow> bool) \<Rightarrow> ('s \<Rightarrow> bool) \<Rightarrow> 's \<Rightarrow> bool" where
  "wp m Q E s = (case m s of Returns a s' \<Rightarrow> Q a s' | Throws e s' \<Rightarrow> E s' | Faults f \<Rightarrow> False)"

lemma wp_ret [wp_simps]: "wp (ret a) Q E = Q a"
  by (simp add: fun_eq_iff wp_def ret_def)

lemma wp_throw [wp_simps]: "wp (throw e) Q E s = E s"
  by (simp add: wp_def throw_def)

lemma wp_faults [wp_simps]: "wp (faults f) Q E s = False"
  by (simp add: wp_def faults_def)

lemma wp_bind [wp_simps]: "wp (bind m f) Q E = wp m (\<lambda>a. wp (f a) Q E) E"
  by (simp add: fun_eq_iff wp_def bind_def split: outcome.splits)

lemma wp_seq [wp_simps]: "wp (seq m n) Q E = wp m (\<lambda>_. wp n Q E) E"
  by (simp add: seq_def wp_bind)

lemma wp_CHECK [wp_simps]: "wp (CHECK b) Q E s = (if b then Q () s else E s)"
  by (simp add: CHECK_def wp_ret wp_throw)

lemma wp_defined_if [wp_simps]: "wp (defined_if b) Q E s = (b \<and> Q () s)"
  by (simp add: defined_if_def wp_ret wp_faults)

lemma wp_gets [wp_simps]: "wp (gets f) Q E s = Q (f s) s"
  by (simp add: wp_def gets_def)

lemma wp_modify [wp_simps]: "wp (modify f) Q E s = Q () (f s)"
  by (simp add: wp_def modify_def)

lemma wp_stateful [wp_simps]: "wp (stateful f) Q E s = Q (fst (f s)) (snd (f s))"
  by (simp add: wp_def stateful_def split: prod.splits)

lemma wp_on_error [wp_simps]: "wp (on_error m h) Q E s = wp m Q (wp h (\<lambda>_. E) E) s"
  by (simp add: wp_def on_error_def split: outcome.splits)

lemma wp_ignore_error [wp_simps]: "wp (ignore_error m) Q E s = wp m (\<lambda>_. Q ()) (Q ()) s"
  by (simp add: wp_def ignore_error_def split: outcome.splits)

lemma wp_if [wp_simps]: "wp (if b then m else n) Q E s = (if b then wp m Q E s else wp n Q E s)"
  by simp

lemma wp_for_each_Nil [wp_simps]: "wp (for_each [] f) Q E s = Q () s"
  by (simp add: wp_ret)

lemma wp_for_each_Cons [wp_simps]:
  "wp (for_each (x # xs) f) Q E s = wp (f x) (\<lambda>_. wp (for_each xs f) Q E) E s"
  by (simp add: wp_seq)

lemma wp_mono:
  assumes "wp m Q E s" and "\<And>a t. Q a t \<Longrightarrow> Q' a t" and "\<And>t. E t \<Longrightarrow> E' t"
  shows "wp m Q' E' s"
  using assms by (auto simp: wp_def split: outcome.splits)

lemma wp_returns: "wp m Q E s \<Longrightarrow> m s = Returns a t \<Longrightarrow> Q a t"
  by (simp add: wp_def)

lemma wp_throws: "wp m Q E s \<Longrightarrow> m s = Throws e t \<Longrightarrow> E t"
  by (simp add: wp_def)

lemma wp_returns_iff: "wp m Q (\<lambda>_. False) s \<longleftrightarrow> (\<exists>a t. m s = Returns a t \<and> Q a t)"
  by (auto simp: wp_def split: outcome.splits)

lemma wp_conjI: "wp m Q E s \<Longrightarrow> wp m Q' E' s \<Longrightarrow> wp m (\<lambda>a t. Q a t \<and> Q' a t) (\<lambda>t. E t \<and> E' t) s"
  by (simp add: wp_def split: outcome.splits)

text \<open>The invariant rule of a \<open>for\<close> loop; the invariant speaks about the values still to come.\<close>

lemma wp_for_each_inv:
  assumes start: "I xs s"
    and step: "\<And>x ys t. I (x # ys) t \<Longrightarrow> x \<in> set xs \<Longrightarrow> wp (f x) (\<lambda>_. I ys) E t"
    and stop: "\<And>t. I [] t \<Longrightarrow> Q () t"
  shows "wp (for_each xs f) Q E s"
proof -
  have "set zs \<subseteq> set xs \<Longrightarrow> I zs t \<Longrightarrow> wp (for_each zs f) Q E t" for zs t
  proof (induction zs arbitrary: t)
    case Nil
    then show ?case by (simp add: wp_ret stop)
  next
    case (Cons z zs)
    then have "wp (f z) (\<lambda>_. I zs) E t" by (intro step) auto
    with Cons show ?case by (auto simp: wp_seq elim!: wp_mono)
  qed
  then show ?thesis using start by simp
qed

text \<open>
  The rule of a fuelled \<open>while\<close>: an invariant, and a measure that is below the fuel and falls in every
  round. It shows that the loop stops.
\<close>

lemma wp_while_fuel:
  assumes "I s" and "\<mu> s < n"
    and "\<And>t. I t \<Longrightarrow> wp b (\<lambda>go t'. if go then wp m (\<lambda>_ u. I u \<and> \<mu> u < \<mu> t) E t' else Q () t') E t"
  shows "wp (while_fuel n b m) Q E s"
  using assms(1,2)
proof (induction n arbitrary: s)
  case 0
  then show ?case by simp
next
  case (Suc n)
  have "wp b (\<lambda>go t'. if go then wp m (\<lambda>_ u. I u \<and> \<mu> u < \<mu> s) E t' else Q () t') E s"
    using Suc.prems by (intro assms(3))
  then show ?case
    unfolding while_fuel.simps wp_bind
  proof (rule wp_mono, goal_cases)
    case (1 go t')
    then show ?case
      using Suc by (auto simp: wp_seq wp_ret split: if_splits elim!: wp_mono)
  qed
qed

end
