(* ===== verification/FreeList.thy ===== *)
theory FreeList
  imports Prelude
begin

text \<open>
  Free lists threaded through the free elements themselves. The block allocators of
  \<^verbatim>\<open>core/alloc.c\<close> and the descriptor table of \<^verbatim>\<open>core/drivers/virtio/virtio_queue.c\<close> both keep one: a
  head, a link per element and a terminator. \<open>chain\<close> says what list such a structure holds, and the
  locale \<open>element_pool\<close> is the contract both provide, with what their clients derive from it.
\<close>

section \<open>Chains\<close>

primrec chain :: "'p \<Rightarrow> ('p \<Rightarrow> 'p) \<Rightarrow> 'p \<Rightarrow> 'p list \<Rightarrow> bool" where
  "chain e nx p [] \<longleftrightarrow> p = e"
| "chain e nx p (x # xs) \<longleftrightarrow> p = x \<and> x \<noteq> e \<and> chain e nx (nx x) xs"

lemma chain_end [simp]: "chain e nx e xs \<longleftrightarrow> xs = []"
  by (cases xs) auto

lemma chain_not_end: "p \<noteq> e \<Longrightarrow> chain e nx p xs \<longleftrightarrow> (\<exists>ys. xs = p # ys \<and> chain e nx (nx p) ys)"
  by (cases xs) auto

lemma chain_unique: "chain e nx p xs \<Longrightarrow> chain e nx p ys \<Longrightarrow> xs = ys"
  by (induction xs arbitrary: p ys) (case_tac ys; auto)+

lemma chain_cong: "(\<And>x. x \<in> set xs \<Longrightarrow> nx x = nx' x) \<Longrightarrow> chain e nx p xs = chain e nx' p xs"
  by (induction xs arbitrary: p) auto

lemma chain_upd_outside [simp]: "y \<notin> set xs \<Longrightarrow> chain e (nx(y := v)) p xs = chain e nx p xs"
  by (rule chain_cong) auto

lemma chain_end_notin: "chain e nx p xs \<Longrightarrow> e \<notin> set xs"
  by (induction xs arbitrary: p) auto

lemma chain_append: "chain e nx p (xs @ ys) \<Longrightarrow> \<exists>q. chain e nx q ys"
  by (induction xs arbitrary: p) auto

text \<open>Two positions with the same element would have the same rest, so a chain never repeats.\<close>

lemma chain_distinct: "chain e nx p xs \<Longrightarrow> distinct xs"
proof (induction xs arbitrary: p)
  case Nil
  then show ?case by simp
next
  case (Cons x xs)
  have "x \<notin> set xs"
  proof
    assume "x \<in> set xs"
    then obtain ys zs where xs: "xs = ys @ x # zs" by (meson split_list)
    with Cons.prems have "chain e nx (nx x) (ys @ x # zs)" by simp
    moreover from this have "chain e nx x (x # zs)" by (metis chain_append chain.simps(2))
    then have "chain e nx (nx x) zs" by simp
    ultimately have "ys @ x # zs = zs" by (rule chain_unique)
    then have "length (ys @ x # zs) = length zs" by simp
    then show False by simp
  qed
  with Cons show ?case by auto
qed

section \<open>The contract of a pool\<close>

text \<open>
  \<open>take s\<close> hands an element out (or \<open>None\<close>), \<open>put x s\<close> gives one back, \<open>holds s xs\<close> says that the
  free elements are \<open>xs\<close>, in the order in which they will be handed out, and \<open>owns s x\<close> that \<open>x\<close> is
  an element of this pool.
\<close>

locale element_pool =
  fixes take_one :: "'s \<Rightarrow> 'x option \<times> 's"
    and put_back :: "'x \<Rightarrow> 's \<Rightarrow> 's"
    and holds :: "'s \<Rightarrow> 'x list \<Rightarrow> bool"
    and owns :: "'s \<Rightarrow> 'x \<Rightarrow> bool"
  assumes take_empty: "holds s [] \<Longrightarrow> take_one s = (None, s)"
    and take_first: "holds s (x # xs) \<Longrightarrow> \<exists>s'. take_one s = (Some x, s') \<and> holds s' xs \<and> owns s' = owns s"
    and put_first: "holds s xs \<Longrightarrow> owns s x \<Longrightarrow> x \<notin> set xs \<Longrightarrow> holds (put_back x s) (x # xs) \<and> owns (put_back x s) = owns s"
    and holds_distinct: "holds s xs \<Longrightarrow> distinct xs"
    and holds_owned: "holds s xs \<Longrightarrow> x \<in> set xs \<Longrightarrow> owns s x"
begin

lemma take_returns_owned:
  assumes "holds s xs" and "take_one s = (Some x, s')"
  shows "owns s x \<and> (\<exists>ys. xs = x # ys \<and> holds s' ys)"
proof (cases xs)
  case Nil
  with assms take_empty show ?thesis by auto
next
  case (Cons y ys)
  with assms take_first [of s y ys] holds_owned [of s xs y] show ?thesis by auto
qed

lemma take_fails_iff_empty: "holds s xs \<Longrightarrow> fst (take_one s) = None \<longleftrightarrow> xs = []"
  using take_empty take_first by (cases xs) fastforce+

text \<open>Giving the element back at once restores the free list, and the element is the next one out.\<close>

lemma take_put_restores:
  assumes "holds s xs" and "take_one s = (Some x, s')"
  shows "holds (put_back x s') xs"
proof -
  obtain ys where xs: "xs = x # ys" and ys: "holds s' ys" and "owns s x"
    using take_returns_owned [OF assms] by blast
  moreover have "owns s' x"
    using take_first [of s x ys] assms xs \<open>owns s x\<close> by auto
  moreover have "x \<notin> set ys"
    using holds_distinct [OF assms(1)] xs by simp
  ultimately show ?thesis using put_first by blast
qed

lemma put_take_same:
  assumes "holds s xs" and "owns s x" and "x \<notin> set xs"
  shows "\<exists>s'. take_one (put_back x s) = (Some x, s') \<and> holds s' xs"
  using put_first [OF assms] take_first by blast

text \<open>Three elements taken in a row, as a request of the disk driver does, and given back.\<close>

lemma take_three:
  assumes "holds s (x # y # z # xs)"
  shows "\<exists>s1 s2 s3. take_one s = (Some x, s1) \<and> take_one s1 = (Some y, s2) \<and> take_one s2 = (Some z, s3) \<and>
     holds s3 xs \<and> owns s3 = owns s \<and> distinct [x, y, z] \<and> {x, y, z} \<inter> set xs = {}"
proof -
  obtain s1 where 1: "take_one s = (Some x, s1)" "holds s1 (y # z # xs)" "owns s1 = owns s"
    using take_first assms by blast
  obtain s2 where 2: "take_one s1 = (Some y, s2)" "holds s2 (z # xs)" "owns s2 = owns s1"
    using take_first 1(2) by blast
  obtain s3 where 3: "take_one s2 = (Some z, s3)" "holds s3 xs" "owns s3 = owns s2"
    using take_first 2(2) by blast
  from 1 2 3 holds_distinct [OF assms] show ?thesis by auto
qed

lemma put_three:
  assumes "holds s xs" and "owns s x" "owns s y" "owns s z"
    and "distinct [x, y, z]" and "{x, y, z} \<inter> set xs = {}"
  shows "holds (put_back z (put_back y (put_back x s))) (z # y # x # xs)"
proof -
  have 1: "holds (put_back x s) (x # xs)" "owns (put_back x s) = owns s"
    using put_first [of s xs x] assms by auto
  have 2: "holds (put_back y (put_back x s)) (y # x # xs)" "owns (put_back y (put_back x s)) = owns s"
    using put_first [of "put_back x s" "x # xs" y] 1 assms by auto
  then show ?thesis
    using put_first [of "put_back y (put_back x s)" "y # x # xs" z] assms by auto
qed

end

end
