(* ===== verification/Memory.thy ===== *)
theory Memory
  imports Prelude
begin

text \<open>
  The byte-addressed physical memory and the little-endian loads and stores the C code performs on it
  through pointers. Core runs with an identity mapping (see \<open>Pm\<close>), so one address space is
  enough. Address arithmetic is that of \<open>uintptr_t\<close>, modulo \<open>2 ^ 64\<close>. The routines of
  \<^verbatim>\<open>shared/include/mem.h\<close> and \<^verbatim>\<open>shared/include/mem_area.h\<close> and the macros of \<^verbatim>\<open>shared/include/utils.h\<close>
  are here too.
\<close>

section \<open>Little-endian encoding\<close>

definition le_bytes :: "nat \<Rightarrow> 'a::len word \<Rightarrow> u8 list" where
  "le_bytes n w = map (\<lambda>i. ucast (drop_bit (8 * i) w)) [0..<n]"

primrec of_le :: "u8 list \<Rightarrow> 'a::len word" where
  "of_le [] = 0"
| "of_le (b # bs) = (ucast b OR push_bit 8 (of_le bs))"

lemma length_le_bytes [simp]: "length (le_bytes n w) = n"
  by (simp add: le_bytes_def)

lemma le_bytes_Suc: "le_bytes (Suc n) w = ucast w # le_bytes n (drop_bit 8 w)"
  by (simp add: le_bytes_def upt_conv_Cons map_Suc_upt [symmetric] add.commute del: upt_Suc)

lemma le_bytes_0 [simp]: "le_bytes 0 w = []"
  by (simp add: le_bytes_def)

lemma bit_of_le_bytes:
  "bit (of_le (le_bytes n w) :: 'a::len word) i \<longleftrightarrow> i < 8 * n \<and> bit (w :: 'a word) i"
proof (induction n arbitrary: w i)
  case 0
  then show ?case by simp
next
  case (Suc n)
  show ?case
    by (cases "i < 8")
      (auto simp: le_bytes_Suc bit_or_iff bit_push_bit_iff bit_ucast_iff Suc bit_drop_bit_eq dest: bit_imp_le_length)
qed

text \<open>The bits of an encoded number are the bits of its bytes.\<close>

lemma bit_of_le:
  "bit (of_le bs :: 'a::len word) i \<longleftrightarrow> i < LENGTH('a) \<and> i div 8 < length bs \<and> bit (bs ! (i div 8)) (i mod 8)"
proof (induction bs arbitrary: i)
  case Nil
  then show ?case by simp
next
  case (Cons b bs)
  show ?case
  proof (cases "i < 8")
    case True
    then show ?thesis by (auto simp: bit_or_iff bit_push_bit_iff bit_ucast_iff dest: bit_imp_le_length)
  next
    case False
    then have "i div 8 = Suc ((i - 8) div 8)" "(i - 8) mod 8 = i mod 8"
      by (simp_all add: le_div_geq le_mod_geq)
    moreover have "\<not> bit b i" using False bit_imp_le_length [of b i] by auto
    ultimately show ?thesis
      using False by (auto simp: bit_or_iff bit_push_bit_iff bit_ucast_iff Cons.IH dest: bit_imp_le_length)
  qed
qed

lemma ucast_of_le: "LENGTH('b) \<le> LENGTH('a) \<Longrightarrow> ucast (of_le bs :: 'a::len word) = (of_le bs :: 'b::len word)"
  by (rule bit_word_eqI) (auto simp: bit_ucast_iff bit_of_le dest: order.strict_trans2)

lemma of_le_le_bytes: "LENGTH('a::len) \<le> 8 * n \<Longrightarrow> of_le (le_bytes n (w :: 'a word)) = w"
  by (rule bit_word_eqI) (simp add: bit_of_le_bytes)

lemma of_le_bytes_4 [simp]: "of_le (le_bytes 4 (w :: u32)) = w"
  and of_le_bytes_8 [simp]: "of_le (le_bytes 8 (v :: u64)) = v"
  and of_le_bytes_2 [simp]: "of_le (le_bytes 2 (x :: u16)) = x"
  by (simp_all add: of_le_le_bytes)

section \<open>Byte ranges and block access\<close>

lemma unat_of_nat_small: "n < 2 ^ 64 \<Longrightarrow> unat (of_nat n :: u64) = n"
  by (simp add: unat_of_nat)

type_synonym memory = "u64 \<Rightarrow> u8"

text \<open>The bytes \<open>a, a + 1, \<dots>, a + n - 1\<close>.\<close>

definition region :: "u64 \<Rightarrow> nat \<Rightarrow> u64 set" where
  "region a n = {x. unat (x - a) < n}"

definition mem_read :: "memory \<Rightarrow> u64 \<Rightarrow> nat \<Rightarrow> u8 list" where
  "mem_read m a n = map (\<lambda>i. m (a + of_nat i)) [0..<n]"

definition mem_write :: "memory \<Rightarrow> u64 \<Rightarrow> u8 list \<Rightarrow> memory" where
  "mem_write m a bs = (\<lambda>x. if unat (x - a) < length bs then bs ! unat (x - a) else m x)"

lemma length_mem_read [simp]: "length (mem_read m a n) = n"
  by (simp add: mem_read_def)

lemma nth_mem_read [simp]: "i < n \<Longrightarrow> mem_read m a n ! i = m (a + of_nat i)"
  by (simp add: mem_read_def)

lemma mem_read_0 [simp]: "mem_read m a 0 = []"
  by (simp add: mem_read_def)

lemma mem_write_Nil [simp]: "mem_write m a [] = m"
  by (simp add: mem_write_def)

lemma region_0 [simp]: "region a 0 = {}"
  by (simp add: region_def)

lemma mem_region_iff: "x \<in> region a n \<longleftrightarrow> unat (x - a) < n"
  by (simp add: region_def)

lemma region_offset: "i < n \<Longrightarrow> n \<le> 2 ^ 64 \<Longrightarrow> a + of_nat i \<in> region a n"
  by (simp add: region_def unat_of_nat take_bit_nat_eq_self)

lemma region_cases: "x \<in> region a n \<Longrightarrow> \<exists>i<n. x = a + of_nat i"
  by (rule exI [of _ "unat (x - a)"]) (simp add: region_def)

lemma region_mono: "n \<le> k \<Longrightarrow> region a n \<subseteq> region a k"
  by (auto simp: region_def)

lemma region_eq_image: "n \<le> 2 ^ 64 \<Longrightarrow> region a n = (\<lambda>i. a + of_nat i) ` {..<n}"
  using region_cases region_offset by blast

lemma mem_write_outside: "x \<notin> region a (length bs) \<Longrightarrow> mem_write m a bs x = m x"
  by (simp add: mem_write_def region_def)

lemma mem_write_inside:
  "i < length bs \<Longrightarrow> length bs \<le> 2 ^ 64 \<Longrightarrow> mem_write m a bs (a + of_nat i) = bs ! i"
  by (simp add: mem_write_def unat_of_nat take_bit_nat_eq_self)

lemma mem_read_write_same: "n = length bs \<Longrightarrow> n \<le> 2 ^ 64 \<Longrightarrow> mem_read (mem_write m a bs) a n = bs"
  by (rule nth_equalityI) (auto simp: mem_write_inside)

lemma mem_read_cong:
  "(\<And>x. x \<in> region a n \<Longrightarrow> m x = m' x) \<Longrightarrow> n \<le> 2 ^ 64 \<Longrightarrow> mem_read m a n = mem_read m' a n"
  by (rule nth_equalityI) (simp_all add: region_offset)

lemma mem_read_write_disjoint:
  "region a n \<inter> region b (length bs) = {} \<Longrightarrow> n \<le> 2 ^ 64 \<Longrightarrow>
   mem_read (mem_write m b bs) a n = mem_read m a n"
  by (rule mem_read_cong) (blast intro: mem_write_outside)+

lemma mem_write_read_id: "n \<le> 2 ^ 64 \<Longrightarrow> mem_write m a (mem_read m a n) = m"
  by (auto simp: mem_write_def fun_eq_iff)

lemma mem_write_write_same:
  "length bs = length cs \<Longrightarrow> mem_write (mem_write m a bs) a cs = mem_write m a cs"
  by (auto simp: mem_write_def fun_eq_iff)

section \<open>Typed loads and stores\<close>

definition load8 :: "memory \<Rightarrow> u64 \<Rightarrow> u8" where
  "load8 m a = m a"

definition load16 :: "memory \<Rightarrow> u64 \<Rightarrow> u16" where
  "load16 m a = of_le (mem_read m a 2)"

definition load32 :: "memory \<Rightarrow> u64 \<Rightarrow> u32" where
  "load32 m a = of_le (mem_read m a 4)"

definition load64 :: "memory \<Rightarrow> u64 \<Rightarrow> u64" where
  "load64 m a = of_le (mem_read m a 8)"

definition store8 :: "u64 \<Rightarrow> u8 \<Rightarrow> memory \<Rightarrow> memory" where
  "store8 a v m = m(a := v)"

definition store16 :: "u64 \<Rightarrow> u16 \<Rightarrow> memory \<Rightarrow> memory" where
  "store16 a v m = mem_write m a (le_bytes 2 v)"

definition store32 :: "u64 \<Rightarrow> u32 \<Rightarrow> memory \<Rightarrow> memory" where
  "store32 a v m = mem_write m a (le_bytes 4 v)"

definition store64 :: "u64 \<Rightarrow> u64 \<Rightarrow> memory \<Rightarrow> memory" where
  "store64 a v m = mem_write m a (le_bytes 8 v)"

text \<open>Two accesses of \<open>n\<close> and \<open>k\<close> bytes that have no byte in common.\<close>

definition apart :: "u64 \<Rightarrow> nat \<Rightarrow> u64 \<Rightarrow> nat \<Rightarrow> bool" where
  "apart a n b k \<longleftrightarrow> region a n \<inter> region b k = {}"

lemma load32_store32 [simp]: "load32 (store32 a v m) a = v"
  by (simp add: load32_def store32_def mem_read_write_same)

lemma load64_store64 [simp]: "load64 (store64 a v m) a = v"
  by (simp add: load64_def store64_def mem_read_write_same)

lemma load16_store16 [simp]: "load16 (store16 a v m) a = v"
  by (simp add: load16_def store16_def mem_read_write_same)

lemma load_store_apart:
  "apart a 4 b 4 \<Longrightarrow> load32 (store32 b v m) a = load32 m a"
  "apart a 4 b 8 \<Longrightarrow> load32 (store64 b w m) a = load32 m a"
  "apart a 8 b 4 \<Longrightarrow> load64 (store32 b v m) a = load64 m a"
  "apart a 8 b 8 \<Longrightarrow> load64 (store64 b w m) a = load64 m a"
  by (simp_all add: load32_def load64_def store32_def store64_def apart_def mem_read_write_disjoint)

lemma apart_sym: "apart a n b k = apart b k a n"
  by (auto simp: apart_def)

lemma store32_frame: "x \<notin> region a 4 \<Longrightarrow> store32 a v m x = m x"
  by (simp add: store32_def mem_write_outside)

lemma store64_frame: "x \<notin> region a 8 \<Longrightarrow> store64 a w m x = m x"
  by (simp add: store64_def mem_write_outside)

lemma load32_cong: "(\<And>x. x \<in> region a 4 \<Longrightarrow> m x = m' x) \<Longrightarrow> load32 m a = load32 m' a"
  unfolding load32_def by (subst mem_read_cong) auto

lemma load64_cong: "(\<And>x. x \<in> region a 8 \<Longrightarrow> m x = m' x) \<Longrightarrow> load64 m a = load64 m' a"
  unfolding load64_def by (subst mem_read_cong) auto

end
