(* ===== verification/MemUtils.thy ===== *)
theory MemUtils
  imports Memory
begin

text \<open>
  \<^verbatim>\<open>shared/include/mem.h\<close> (the freestanding \<open>memcpy\<close>, \<open>memset\<close>, \<open>memcmp\<close>, \<open>strlen\<close>, \<open>strcmp\<close> and
  \<open>wstrcmp\<close>), \<^verbatim>\<open>shared/include/mem_area.h\<close> and the macros of \<^verbatim>\<open>shared/include/utils.h\<close>. A string is the
  view of the characters from its pointer on, a function of the index.
\<close>

section \<open>Block routines\<close>

definition memcpy :: "u64 \<Rightarrow> u64 \<Rightarrow> u64 \<Rightarrow> memory \<Rightarrow> memory" where
  "memcpy dst src n m = fold (\<lambda>i m. m(dst + of_nat i := m (src + of_nat i))) [0..<unat n] m"

definition memset :: "u64 \<Rightarrow> u8 \<Rightarrow> u64 \<Rightarrow> memory \<Rightarrow> memory" where
  "memset buf c n m = fold (\<lambda>i m. m(buf + of_nat i := c)) [0..<unat n] m"

primrec memcmp_from :: "nat \<Rightarrow> (nat \<Rightarrow> u8) \<Rightarrow> (nat \<Rightarrow> u8) \<Rightarrow> nat \<Rightarrow> int" where
  "memcmp_from 0 p q i = 0"
| "memcmp_from (Suc n) p q i = (if p i \<noteq> q i then uint (p i) - uint (q i) else memcmp_from n p q (Suc i))"

definition memcmp :: "(nat \<Rightarrow> u8) \<Rightarrow> (nat \<Rightarrow> u8) \<Rightarrow> u64 \<Rightarrow> int" where
  "memcmp p q n = memcmp_from (unat n) p q 0"

lemma mem_write_snoc:
  assumes "length bs < 2 ^ 64"
  shows "mem_write m a (bs @ [b]) = (mem_write m a bs)(a + of_nat (length bs) := b)"
proof
  fix x
  have "x = a + of_nat (length bs) \<longleftrightarrow> x - a = of_nat (length bs)"
    by (metis add_diff_cancel_left' add.commute diff_add_cancel)
  also have "\<dots> \<longleftrightarrow> unat (x - a) = length bs"
    using assms by (auto simp: word_unat_eq_iff unat_of_nat)
  finally have "x = a + of_nat (length bs) \<longleftrightarrow> unat (x - a) = length bs" .
  then show "mem_write m a (bs @ [b]) x = ((mem_write m a bs)(a + of_nat (length bs) := b)) x"
    by (auto simp: mem_write_def nth_append less_Suc_eq)
qed

text \<open>Copying upwards byte by byte is a block copy when source and destination are disjoint.\<close>

lemma memcpy_upto:
  assumes "k \<le> n" and "n < 2 ^ 64" and "region dst n \<inter> region src n = {}"
  shows "fold (\<lambda>i m. m(dst + of_nat i := m (src + of_nat i))) [0..<k] m = mem_write m dst (mem_read m src k)"
  using assms(1)
proof (induction k)
  case 0
  then show ?case by simp
next
  case (Suc k)
  have src: "src + of_nat k \<in> region src n"
    using Suc.prems assms(2) by (simp add: region_offset)
  have "src + of_nat k \<notin> region dst k"
    using src assms(3) Suc.prems region_mono [of k n dst] by auto
  then have "mem_write m dst (mem_read m src k) (src + of_nat k) = m (src + of_nat k)"
    by (simp add: mem_write_outside)
  moreover have "mem_read m src (Suc k) = mem_read m src k @ [m (src + of_nat k)]"
    by (simp add: mem_read_def)
  moreover have "fold (\<lambda>i m. m(dst + of_nat i := m (src + of_nat i))) [0..<k] m = mem_write m dst (mem_read m src k)"
    by (rule Suc.IH) (use Suc.prems in simp)
  ultimately show ?case
    using Suc.prems assms(2) by (simp add: mem_write_snoc del: fun_upd_apply)
qed

lemma memcpy_block:
  "region dst (unat n) \<inter> region src (unat n) = {} \<Longrightarrow>
   memcpy dst src n m = mem_write m dst (mem_read m src (unat n))"
  unfolding memcpy_def by (rule memcpy_upto [of _ "unat n"]) (use unsigned_less [of n, where ?'a = nat] in auto)

lemma memset_upto:
  "k < 2 ^ 64 \<Longrightarrow> fold (\<lambda>i m. m(buf + of_nat i := c)) [0..<k] m = mem_write m buf (replicate k c)"
  by (induction k) (simp_all add: mem_write_snoc replicate_append_same [symmetric])

lemma memset_block: "memset buf c n m = mem_write m buf (replicate (unat n) c)"
  unfolding memset_def by (rule memset_upto) (use unsigned_less [of n, where ?'a = nat] in auto)

lemma memcmp_from_eq_0_iff: "memcmp_from n p q i = 0 \<longleftrightarrow> (\<forall>k<n. p (i + k) = q (i + k))"
  by (induction n arbitrary: i) (auto simp: All_less_Suc2 word_uint_eq_iff)

lemma memcmp_eq_0_iff: "memcmp p q n = 0 \<longleftrightarrow> (\<forall>k<unat n. p k = q k)"
  by (simp add: memcmp_def memcmp_from_eq_0_iff)

section \<open>Strings\<close>

text \<open>
  The loops over a string have no bound; the fuel stands for the number of rounds allowed, and a
  string without terminator uses it up. \<open>char\<close> is signed on the target, a \<open>wchar_t\<close> of the hooks is
  16 bits wide and unsigned (\<open>-fshort-wchar\<close>).
\<close>

type_synonym 'c cstring = "nat \<Rightarrow> 'c"

primrec strlen_from :: "nat \<Rightarrow> u8 cstring \<Rightarrow> nat \<Rightarrow> nat option" where
  "strlen_from 0 s len = None"
| "strlen_from (Suc n) s len = (if s len \<noteq> 0 then strlen_from n s (Suc len) else Some len)"

definition strlen :: "nat \<Rightarrow> u8 cstring \<Rightarrow> nat option" where
  "strlen fuel s = strlen_from fuel s 0"

primrec str_stop :: "nat \<Rightarrow> ('a::len word) cstring \<Rightarrow> 'a word cstring \<Rightarrow> nat \<Rightarrow> nat option" where
  "str_stop 0 s1 s2 i = None"
| "str_stop (Suc n) s1 s2 i =
     (if s1 i \<noteq> 0 \<and> s2 i \<noteq> 0
      then if s1 i \<noteq> s2 i then Some i else str_stop n s1 s2 (Suc i)
      else Some i)"

definition strcmp :: "nat \<Rightarrow> u8 cstring \<Rightarrow> u8 cstring \<Rightarrow> int option" where
  "strcmp fuel s1 s2 = map_option (\<lambda>i. sint (s1 i) - sint (s2 i)) (str_stop fuel s1 s2 0)"

definition wstrcmp :: "nat \<Rightarrow> u16 cstring \<Rightarrow> u16 cstring \<Rightarrow> int option" where
  "wstrcmp fuel s1 s2 = map_option (\<lambda>i. uint (s1 i) - uint (s2 i)) (str_stop fuel s1 s2 0)"

text \<open>\<open>cstr xs\<close> is the view of a string literal with characters \<open>xs\<close>; past the terminator it repeats it.\<close>

definition cstr :: "'a::zero list \<Rightarrow> 'a cstring" where
  "cstr xs = (\<lambda>i. if i < length xs then xs ! i else 0)"

definition terminated_at :: "('c::zero) cstring \<Rightarrow> nat \<Rightarrow> bool" where
  "terminated_at s n \<longleftrightarrow> s n = 0 \<and> (\<forall>i<n. s i \<noteq> 0)"

lemma terminated_cstr: "0 \<notin> set xs \<Longrightarrow> terminated_at (cstr xs) (length xs)"
  by (auto simp: terminated_at_def cstr_def) (metis nth_mem)

lemma strlen_from_enough:
  "terminated_at s n \<Longrightarrow> len \<le> n \<Longrightarrow> n - len < fuel \<Longrightarrow> strlen_from fuel s len = Some n"
proof (induction fuel arbitrary: len)
  case 0
  then show ?case by simp
next
  case (Suc fuel)
  show ?case
  proof (cases "len = n")
    case True
    with Suc.prems show ?thesis by (simp add: terminated_at_def)
  next
    case False
    with Suc.prems have "s len \<noteq> 0" by (simp add: terminated_at_def)
    with False Suc show ?thesis by simp
  qed
qed

lemma strlen_terminated: "terminated_at s n \<Longrightarrow> n < fuel \<Longrightarrow> strlen fuel s = Some n"
  by (simp add: strlen_def strlen_from_enough)

text \<open>The comparison loop stops at the first difference or at the terminator, whichever comes first.\<close>

lemma str_stop_Some:
  assumes "terminated_at s1 n" and "i \<le> n" and "n - i < fuel" and "\<forall>k<i. s1 k = s2 k"
  shows "\<exists>j\<le>n. str_stop fuel s1 s2 i = Some j \<and> (\<forall>k<j. s1 k = s2 k) \<and> (s1 j = s2 j \<longrightarrow> j = n)"
  using assms(2-4)
proof (induction fuel arbitrary: i)
  case 0
  then show ?case by simp
next
  case (Suc fuel)
  show ?case
  proof (cases "i < n \<and> s1 i = s2 i")
    case True
    with assms(1) have "s1 i \<noteq> 0" "s2 i \<noteq> 0" by (auto simp: terminated_at_def)
    with True Suc show ?thesis by (auto simp: less_Suc_eq)
  next
    case False
    with assms(1) Suc.prems show ?thesis
      by (auto simp: terminated_at_def le_less)
  qed
qed

text \<open>Equal strings: the same characters up to and including the terminator.\<close>

definition same_string :: "('c::zero) cstring \<Rightarrow> 'c cstring \<Rightarrow> nat \<Rightarrow> bool" where
  "same_string s1 s2 n \<longleftrightarrow> (\<forall>i\<le>n. s1 i = s2 i)"

lemma wstrcmp_correct:
  assumes "terminated_at s1 n" and "n < fuel"
  shows "\<exists>r. wstrcmp fuel s1 s2 = Some r \<and> (r = 0 \<longleftrightarrow> same_string s1 s2 n)"
proof -
  obtain j where j: "j \<le> n" "str_stop fuel s1 s2 0 = Some j" "\<forall>k<j. s1 k = s2 k" "s1 j = s2 j \<longrightarrow> j = n"
    using str_stop_Some [OF assms(1), of 0 fuel s2] assms(2) by auto
  then have "uint (s1 j) - uint (s2 j) = 0 \<longleftrightarrow> same_string s1 s2 n"
    by (auto simp: same_string_def word_uint_eq_iff le_less)
  with j(2) show ?thesis by (simp add: wstrcmp_def)
qed

lemma strcmp_correct:
  assumes "terminated_at s1 n" and "n < fuel"
  shows "\<exists>r. strcmp fuel s1 s2 = Some r \<and> (r = 0 \<longleftrightarrow> same_string s1 s2 n)"
proof -
  obtain j where j: "j \<le> n" "str_stop fuel s1 s2 0 = Some j" "\<forall>k<j. s1 k = s2 k" "s1 j = s2 j \<longrightarrow> j = n"
    using str_stop_Some [OF assms(1), of 0 fuel s2] assms(2) by auto
  then have "sint (s1 j) - sint (s2 j) = 0 \<longleftrightarrow> same_string s1 s2 n"
    by (auto simp: same_string_def le_less dest: signed_word_eqI)
  with j(2) show ?thesis by (simp add: strcmp_def)
qed

section \<open>Memory areas\<close>

record mem_area =
  area_start :: u64
  area_size :: u64

definition is_mem_area_contained_in_range :: "mem_area \<Rightarrow> u64 \<Rightarrow> u64 \<Rightarrow> bool" where
  "is_mem_area_contained_in_range area st en \<longleftrightarrow> st \<le> area_start area \<and> area_start area + area_size area \<le> en"

definition area_region :: "mem_area \<Rightarrow> u64 set" where
  "area_region a = region (area_start a) (unat (area_size a))"

text \<open>The area does not run over the end of the address space.\<close>

definition area_fits :: "mem_area \<Rightarrow> bool" where
  "area_fits a \<longleftrightarrow> unat (area_start a) + unat (area_size a) < 2 ^ 64"

lemma mem_region_interval:
  assumes "unat a + n < 2 ^ 64"
  shows "x \<in> region a n \<longleftrightarrow> a \<le> x \<and> unat x < unat a + n"
proof
  assume "x \<in> region a n"
  then obtain i where "i < n" "x = a + of_nat i" by (metis region_cases)
  with assms show "a \<le> x \<and> unat x < unat a + n"
    by (simp add: word_le_nat_alt unat_word_ariths unat_of_nat take_bit_nat_eq_self)
next
  assume "a \<le> x \<and> unat x < unat a + n"
  then show "x \<in> region a n"
    by (simp add: region_def unat_sub word_le_nat_alt less_diff_conv2)
qed

lemma unat_offset: "unat (base :: u64) + k < 2 ^ 64 \<Longrightarrow> unat (base + of_nat k) = unat base + k"
  by (simp add: unat_word_ariths unat_of_nat take_bit_nat_eq_self)

lemma region_disjointI:
  assumes "unat a + n \<le> unat b" and "unat b + k < 2 ^ 64"
  shows "region a n \<inter> region b k = {}" and "region b k \<inter> region a n = {}"
proof -
  have "\<not> (unat x < unat a + n \<and> b \<le> x)" for x
    using assms(1) by (auto simp: word_le_nat_alt)
  moreover have "unat a + n < 2 ^ 64" using assms by simp
  ultimately show "region a n \<inter> region b k = {}" "region b k \<inter> region a n = {}"
    using assms(2) by (auto simp: mem_region_interval)
qed

lemma contained_in_range_iff:
  assumes "area_fits a"
  shows "is_mem_area_contained_in_range a st en \<longleftrightarrow> st \<le> area_start a \<and> unat (area_start a) + unat (area_size a) \<le> unat en"
  using assms
  by (simp add: is_mem_area_contained_in_range_def area_fits_def word_le_nat_alt unat_word_ariths)

lemma contained_in_range_region:
  assumes "area_fits a" and "is_mem_area_contained_in_range a st en" and "x \<in> area_region a"
  shows "st \<le> x \<and> x < en"
  using assms
  by (auto simp: contained_in_range_iff area_region_def area_fits_def mem_region_interval word_le_nat_alt word_less_nat_alt)

section \<open>Macros\<close>

definition ALIGN_UP :: "u64 \<Rightarrow> u64 \<Rightarrow> u64" where
  "ALIGN_UP x align_to = (x + (align_to - 1)) AND NOT (align_to - 1)"

definition MIN_u64 :: "u64 \<Rightarrow> u64 \<Rightarrow> u64" where
  "MIN_u64 a b = (if a < b then a else b)"

lemma and_not_mask_unat: "unat (x AND NOT (mask k) :: u64) = unat x - unat x mod 2 ^ k"
proof -
  have "x = (x AND NOT (mask k)) + take_bit k x"
    by (rule bit_word_eqI, subst disjunctive_add)
      (auto simp: bit_simps)
  then have "x AND NOT (mask k) = x - take_bit k x"
    by (simp add: algebra_simps)
  moreover have "take_bit k x \<le> x"
    by (simp add: word_le_nat_alt unsigned_take_bit_eq)
  ultimately show ?thesis
    by (simp add: unat_sub unsigned_take_bit_eq flip: take_bit_eq_mod)
qed

lemma ALIGN_UP_unat:
  assumes "k < 64" and "unat x + 2 ^ k \<le> 2 ^ 64"
  shows "unat (ALIGN_UP x (2 ^ k)) = (unat x + (2 ^ k - 1)) div 2 ^ k * 2 ^ k"
proof -
  have m: "(2 ^ k - 1 :: u64) = mask k" by (simp add: mask_eq_exp_minus_1)
  have mk: "unat (mask k :: u64) = 2 ^ k - 1"
  proof -
    have "int (unat (mask k :: u64)) = mask k"
      using assms(1) by (simp add: uint_mask_eq min_def)
    also have "\<dots> = int (2 ^ k - 1)"
      by (simp add: mask_eq_exp_minus_1 of_nat_diff)
    finally show ?thesis by linarith
  qed
  have "0 < (2 :: nat) ^ k" by simp
  with assms(2) have "unat x + (2 ^ k - 1) < 2 ^ 64" by linarith
  with mk have "unat (x + mask k) = unat x + (2 ^ k - 1)"
    by (simp add: unat_word_ariths)
  then show ?thesis
    by (simp add: ALIGN_UP_def m and_not_mask_unat minus_mod_eq_div_mult)
qed

lemma ALIGN_UP_page:
  assumes "unat x \<le> 2 ^ 64 - 4096"
  shows "unat (ALIGN_UP x 4096) = (unat x + 4095) div 4096 * 4096"
  using ALIGN_UP_unat [of 12 x] assms by simp

end
