(* ===== verification/Alloc.thy ===== *)
theory Alloc
  imports FreeList MemUtils
begin

text \<open>
  The block allocators of \<^verbatim>\<open>core/alloc.c\<close>: five pools of blocks of fixed size, each with a buffer and a
  list of free blocks linked through the blocks' first eight bytes. The links are kept in a typed heap
  \<open>next_of\<close> (the \<open>struct free_block\<close> at an address); that blocks handed out never overlap free ones is
  what makes this split sound, and it is proved here. The addresses of the buffers are chosen by the
  linker and are fields of the allocators.
\<close>

section \<open>State\<close>

record allocator =
  block_size :: u64
  buf :: u64
  buf_size :: u64
  al_head :: u64

record heap =
  allocators :: "allocator list"
  next_of :: "u64 \<Rightarrow> u64"

text \<open>The five allocators of \<open>DEFINE_ALLOCATOR\<close>, in the order of \<open>g_allocators\<close>.\<close>

definition DEFINE_ALLOCATOR :: "u64 \<Rightarrow> u64 \<Rightarrow> u64 \<Rightarrow> allocator" where
  "DEFINE_ALLOCATOR bs bsize b = \<lparr>block_size = bs, buf = b, buf_size = bsize, al_head = 0\<rparr>"

definition g_allocators :: "u64 \<Rightarrow> u64 \<Rightarrow> u64 \<Rightarrow> u64 \<Rightarrow> u64 \<Rightarrow> allocator list" where
  "g_allocators b32 b64 b128 b256 b8192 =
     [DEFINE_ALLOCATOR 32 (32 * 4096) b32, DEFINE_ALLOCATOR 64 (64 * 1024) b64,
      DEFINE_ALLOCATOR 128 (128 * 1024) b128, DEFINE_ALLOCATOR 256 (256 * 1024) b256,
      DEFINE_ALLOCATOR 8192 (8192 * 32) b8192]"

section \<open>Operations\<close>

definition find_allocator_for_allocation :: "heap \<Rightarrow> u64 \<Rightarrow> nat option" where
  "find_allocator_for_allocation h p =
     find (\<lambda>i. buf (allocators h ! i) \<le> p \<and> buf (allocators h ! i) + buf_size (allocators h ! i) \<ge> p)
       [0..<length (allocators h)]"

definition find_allocator_for_size :: "heap \<Rightarrow> u64 \<Rightarrow> nat option" where
  "find_allocator_for_size h n = find (\<lambda>i. block_size (allocators h ! i) \<ge> n) [0..<length (allocators h)]"

text \<open>
  The inner loop of \<open>core_init_allocators\<close>: from \<open>addr\<close> up to \<open>lim\<close>, push every block. The loop
  condition is a comparison of addresses, so the recursion has fuel.
\<close>

primrec init_blocks :: "nat \<Rightarrow> u64 \<Rightarrow> u64 \<Rightarrow> u64 \<Rightarrow> u64 \<Rightarrow> (u64 \<Rightarrow> u64) \<Rightarrow> (u64 \<times> (u64 \<Rightarrow> u64)) option" where
  "init_blocks 0 lim bs addr fst_blk nx = None"
| "init_blocks (Suc n) lim bs addr fst_blk nx =
     (if addr < lim then init_blocks n lim bs (addr + bs) addr (nx(addr := fst_blk)) else Some (fst_blk, nx))"

primrec init_allocators_from :: "nat \<Rightarrow> nat list \<Rightarrow> heap \<Rightarrow> heap option" where
  "init_allocators_from fuel [] h = Some h"
| "init_allocators_from fuel (i # is) h =
     (let a = allocators h ! i
      in case init_blocks fuel (buf a + buf_size a) (block_size a) (buf a) 0 (next_of h) of
           None \<Rightarrow> None
         | Some (fst_blk, nx) \<Rightarrow> init_allocators_from fuel is
             (h\<lparr>allocators := (allocators h)[i := a\<lparr>al_head := fst_blk\<rparr>], next_of := nx\<rparr>))"

definition core_init_allocators :: "nat \<Rightarrow> heap \<Rightarrow> heap option" where
  "core_init_allocators fuel h = init_allocators_from fuel [0..<length (allocators h)] h"

definition core_malloc :: "u64 \<Rightarrow> heap \<Rightarrow> u64 \<times> heap" where
  "core_malloc n h =
     (case find_allocator_for_size h n of
        None \<Rightarrow> (0, h)
      | Some i \<Rightarrow>
          (let a = allocators h ! i
           in if al_head a = 0 then (0, h)
              else (al_head a, h\<lparr>allocators := (allocators h)[i := a\<lparr>al_head := next_of h (al_head a)\<rparr>]\<rparr>)))"

definition core_calloc :: "u64 \<Rightarrow> u64 \<Rightarrow> heap \<times> memory \<Rightarrow> u64 \<times> heap \<times> memory" where
  "core_calloc count n hm =
     (let total_size = count * n; (p, h) = core_malloc total_size (fst hm)
      in if p = 0 then (0, h, snd hm) else (p, h, memset p 0 total_size (snd hm)))"

definition core_free :: "u64 \<Rightarrow> heap \<Rightarrow> heap" where
  "core_free p h =
     (case find_allocator_for_allocation h p of
        None \<Rightarrow> h
      | Some i \<Rightarrow>
          (let a = allocators h ! i
           in h\<lparr>next_of := (next_of h)(p := al_head a), allocators := (allocators h)[i := a\<lparr>al_head := p\<rparr>]\<rparr>))"

section \<open>Geometry\<close>

definition n_blocks :: "allocator \<Rightarrow> nat" where
  "n_blocks a = unat (buf_size a) div unat (block_size a)"

definition block_at :: "allocator \<Rightarrow> nat \<Rightarrow> u64" where
  "block_at a k = buf a + of_nat k * block_size a"

definition blocks :: "allocator \<Rightarrow> u64 set" where
  "blocks a = block_at a ` {..<n_blocks a}"

text \<open>
  What the linker guarantees for a buffer: it is an object of the address space (its one-past-the-end
  address does not wrap), not at address 0; and what \<open>DEFINE_ALLOCATOR\<close> guarantees: a block holds the
  header of a free block and the buffer is made of whole blocks.
\<close>

definition geometry :: "allocator \<Rightarrow> bool" where
  "geometry a \<longleftrightarrow> 8 \<le> unat (block_size a) \<and> unat (block_size a) dvd unat (buf_size a) \<and>
     0 < unat (buf a) \<and> 0 < unat (buf_size a) \<and> unat (buf a) + unat (buf_size a) < 2 ^ 64"

definition same_geometry :: "allocator \<Rightarrow> allocator \<Rightarrow> bool" where
  "same_geometry a b \<longleftrightarrow> block_size a = block_size b \<and> buf a = buf b \<and> buf_size a = buf_size b"

lemma block_at_unat:
  assumes "geometry a" and "k \<le> n_blocks a"
  shows "unat (block_at a k) = unat (buf a) + k * unat (block_size a)"
proof -
  have "k * unat (block_size a) \<le> n_blocks a * unat (block_size a)"
    using assms(2) by simp
  also have "\<dots> = unat (buf_size a)"
    using assms(1) by (simp add: n_blocks_def geometry_def)
  finally have le: "k * unat (block_size a) \<le> unat (buf_size a)" .
  have "of_nat k * block_size a = of_nat (k * unat (block_size a))"
    by simp
  then have "unat (of_nat k * block_size a) = k * unat (block_size a)"
    using le assms(1) unat_of_nat_small [of "k * unat (block_size a)"] by (simp add: geometry_def del: of_nat_mult)
  with le assms(1) show ?thesis
    by (simp add: block_at_def geometry_def unat_word_ariths(1))
qed

lemma block_region_in_buffer:
  assumes "geometry a" and "k < n_blocks a"
  shows "unat (block_at a k) + unat (block_size a) \<le> unat (buf a) + unat (buf_size a)"
proof -
  have "Suc k * unat (block_size a) \<le> n_blocks a * unat (block_size a)"
    using assms(2) by (intro mult_le_mono1) simp
  also have "\<dots> = unat (buf_size a)"
    using assms(1) by (simp add: n_blocks_def geometry_def)
  finally show ?thesis
    using assms block_at_unat [of a k] by simp
qed

lemma block_at_inj:
  assumes "geometry a" and "k < n_blocks a" "l < n_blocks a"
  shows "block_at a k = block_at a l \<longleftrightarrow> k = l"
proof
  assume "block_at a k = block_at a l"
  then have "k * unat (block_size a) = l * unat (block_size a)"
    using assms block_at_unat [of a k] block_at_unat [of a l] by auto
  moreover have "0 < unat (block_size a)"
    using assms(1) by (simp add: geometry_def)
  ultimately show "k = l" by simp
qed simp

lemma blocks_in_buffer:
  assumes "geometry a" and "p \<in> blocks a"
  shows "p \<noteq> 0" "buf a \<le> p" "unat p + unat (block_size a) \<le> unat (buf a) + unat (buf_size a)"
proof -
  obtain k where k: "k < n_blocks a" "p = block_at a k"
    using assms(2) by (auto simp: blocks_def)
  with assms(1) have u: "unat p = unat (buf a) + k * unat (block_size a)"
    by (simp add: block_at_unat)
  with assms(1) show "p \<noteq> 0" by (auto simp: geometry_def)
  from u show "buf a \<le> p" by (simp add: word_le_nat_alt)
  from k assms(1) show "unat p + unat (block_size a) \<le> unat (buf a) + unat (buf_size a)"
    using block_region_in_buffer by simp
qed

lemma blocks_disjoint:
  assumes "geometry a" and "p \<in> blocks a" "q \<in> blocks a" "p \<noteq> q"
  shows "region p (unat (block_size a)) \<inter> region q (unat (block_size a)) = {}"
proof -
  obtain k l where kl: "k < n_blocks a" "p = block_at a k" "l < n_blocks a" "q = block_at a l"
    using assms by (auto simp: blocks_def)
  with assms(4) have "k \<noteq> l" by auto
  then have "Suc k * unat (block_size a) \<le> l * unat (block_size a) \<or> Suc l * unat (block_size a) \<le> k * unat (block_size a)"
    by (metis Suc_leI linorder_neqE_nat mult_le_mono1)
  then have "unat p + unat (block_size a) \<le> unat q \<or> unat q + unat (block_size a) \<le> unat p"
    using kl assms(1) by (auto simp: block_at_unat)
  moreover have "unat p + unat (block_size a) < 2 ^ 64" "unat q + unat (block_size a) < 2 ^ 64"
    using blocks_in_buffer(3) [OF assms(1)] assms(1-3) by (fastforce simp: geometry_def)+
  ultimately show ?thesis
    using region_disjointI by metis
qed

lemma block_region_subset_buffer:
  assumes "geometry a" and "p \<in> blocks a"
  shows "region p (unat (block_size a)) \<subseteq> region (buf a) (unat (buf_size a))"
proof -
  note b = blocks_in_buffer [OF assms]
  have "unat (buf a) + unat (buf_size a) < 2 ^ 64"
    using assms(1) by (simp add: geometry_def)
  with b show ?thesis
    by (auto simp: mem_region_interval word_le_nat_alt)
qed

lemma geometry_cong:
  assumes "same_geometry a b"
  shows "geometry a = geometry b" and "blocks a = blocks b"
proof -
  have "block_at a = block_at b" and "n_blocks a = n_blocks b"
    using assms by (auto simp: same_geometry_def block_at_def n_blocks_def)
  with assms show "geometry a = geometry b" "blocks a = blocks b"
    by (auto simp: same_geometry_def geometry_def blocks_def)
qed

section \<open>One pool\<close>

text \<open>
  \<open>core_malloc\<close> and \<open>core_free\<close> pick an allocator and then pop or push a block. The two halves below
  are that second step on allocator \<open>i\<close>, and they provide the contract of a pool.
\<close>

definition pool_take :: "nat \<Rightarrow> heap \<Rightarrow> u64 option \<times> heap" where
  "pool_take i h =
     (let a = allocators h ! i
      in if al_head a = 0 then (None, h)
         else (Some (al_head a), h\<lparr>allocators := (allocators h)[i := a\<lparr>al_head := next_of h (al_head a)\<rparr>]\<rparr>))"

definition pool_put :: "nat \<Rightarrow> u64 \<Rightarrow> heap \<Rightarrow> heap" where
  "pool_put i p h =
     (let a = allocators h ! i
      in h\<lparr>next_of := (next_of h)(p := al_head a), allocators := (allocators h)[i := a\<lparr>al_head := p\<rparr>]\<rparr>)"

definition pool_holds :: "nat \<Rightarrow> heap \<Rightarrow> u64 list \<Rightarrow> bool" where
  "pool_holds i h xs \<longleftrightarrow> i < length (allocators h) \<and> geometry (allocators h ! i) \<and>
     chain 0 (next_of h) (al_head (allocators h ! i)) xs \<and> set xs \<subseteq> blocks (allocators h ! i)"

definition pool_owns :: "nat \<Rightarrow> heap \<Rightarrow> u64 \<Rightarrow> bool" where
  "pool_owns i h p \<longleftrightarrow> p \<in> blocks (allocators h ! i)"

lemma blocks_head_upd [simp]: "blocks (a\<lparr>al_head := p\<rparr>) = blocks a"
  and geometry_head_upd [simp]: "geometry (a\<lparr>al_head := p\<rparr>) = geometry a"
  by (simp_all add: geometry_cong [of "a\<lparr>al_head := p\<rparr>" a] same_geometry_def)

lemma chain_first: "chain e nx p (x # xs) \<Longrightarrow> p = x \<and> x \<noteq> e"
  by simp

lemma pool_take_first:
  assumes "pool_holds i h (x # xs)"
  shows "\<exists>h'. pool_take i h = (Some x, h') \<and> pool_holds i h' xs \<and> pool_owns i h' = pool_owns i h"
  using assms
  by (auto simp: pool_holds_def pool_take_def pool_owns_def Let_def fun_eq_iff)

lemma pool_put_first:
  assumes "pool_holds i h xs" and "pool_owns i h x" and "x \<notin> set xs"
  shows "pool_holds i (pool_put i x h) (x # xs) \<and> pool_owns i (pool_put i x h) = pool_owns i h"
  using assms blocks_in_buffer(1) [of "allocators h ! i" x]
  by (auto simp: pool_holds_def pool_put_def pool_owns_def Let_def fun_eq_iff)

interpretation block_pool: element_pool "pool_take i" "pool_put i" "pool_holds i" "pool_owns i" for i
proof (unfold_locales, goal_cases)
  case (1 s) then show ?case by (simp add: pool_holds_def pool_take_def Let_def)
next
  case (2 s x xs) then show ?case by (rule pool_take_first)
next
  case (3 s xs x) then show ?case by (rule pool_put_first)
next
  case (4 s xs) then show ?case by (auto simp: pool_holds_def intro: chain_distinct)
next
  case (5 s xs x) then show ?case by (auto simp: pool_holds_def pool_owns_def)
qed

section \<open>All pools together\<close>

text \<open>The buffers of different allocators do not overlap.\<close>

definition buffers_disjoint :: "heap \<Rightarrow> bool" where
  "buffers_disjoint h \<longleftrightarrow> (\<forall>i<length (allocators h). \<forall>j<length (allocators h). i \<noteq> j \<longrightarrow>
     region (buf (allocators h ! i)) (unat (buf_size (allocators h ! i))) \<inter>
     region (buf (allocators h ! j)) (unat (buf_size (allocators h ! j))) = {})"

text \<open>
  \<open>heap_holds h fl\<close>: \<open>fl ! i\<close> is the free list of allocator \<open>i\<close>. This is the invariant of the allocator
  state.
\<close>

definition heap_holds :: "heap \<Rightarrow> u64 list list \<Rightarrow> bool" where
  "heap_holds h fl \<longleftrightarrow> length fl = length (allocators h) \<and> buffers_disjoint h \<and>
     (\<forall>i<length (allocators h). pool_holds i h (fl ! i))"

lemma block_in_region: "geometry a \<Longrightarrow> p \<in> blocks a \<Longrightarrow> p \<in> region (buf a) (unat (buf_size a))"
  using block_region_subset_buffer [of a p] region_offset [of 0 "unat (block_size a)" p]
    unsigned_less [of "block_size a", where ?'a = nat]
  by (auto simp: geometry_def)

lemma blocks_of_pools_disjoint:
  assumes "heap_holds h fl" and "i < length (allocators h)" "j < length (allocators h)" "i \<noteq> j"
  shows "blocks (allocators h ! i) \<inter> blocks (allocators h ! j) = {}"
proof -
  let ?r = "\<lambda>k. region (buf (allocators h ! k)) (unat (buf_size (allocators h ! k)))"
  have "?r i \<inter> ?r j = {}"
    using assms unfolding heap_holds_def buffers_disjoint_def by blast
  moreover have "geometry (allocators h ! i)" "geometry (allocators h ! j)"
    using assms by (simp_all add: heap_holds_def pool_holds_def)
  ultimately show ?thesis using block_in_region by blast
qed

lemma pool_take_other:
  assumes "pool_take i h = (r, h')" and "i \<noteq> j" and "pool_holds j h xs"
  shows "pool_holds j h' xs"
  using assms by (auto simp: pool_take_def pool_holds_def Let_def split: if_splits)

lemma pool_put_other:
  assumes "i \<noteq> j" and "pool_holds j h xs" and "x \<notin> set xs"
  shows "pool_holds j (pool_put i x h) xs"
  using assms by (auto simp: pool_put_def pool_holds_def Let_def)

lemma nth_head_upd:
  "buf (as[i := (as ! i)\<lparr>al_head := p\<rparr>] ! j) = buf (as ! j)"
  "buf_size (as[i := (as ! i)\<lparr>al_head := p\<rparr>] ! j) = buf_size (as ! j)"
  "block_size (as[i := (as ! i)\<lparr>al_head := p\<rparr>] ! j) = block_size (as ! j)"
  by (cases "i = j"; cases "i < length as"; simp add: list_update_beyond)+

lemma pool_take_buffers:
  "pool_take i h = (r, h') \<Longrightarrow> buffers_disjoint h' = buffers_disjoint h \<and> length (allocators h') = length (allocators h)"
  by (cases "al_head (allocators h ! i) = 0")
    (simp add: pool_take_def, clarsimp simp: pool_take_def Let_def buffers_disjoint_def nth_head_upd)

lemma pool_put_buffers:
  "buffers_disjoint (pool_put i x h) = buffers_disjoint h \<and> length (allocators (pool_put i x h)) = length (allocators h)"
  by (simp add: pool_put_def buffers_disjoint_def Let_def nth_head_upd)

lemma heap_holds_take:
  assumes h: "heap_holds h fl" and i: "i < length (allocators h)" and fl: "fl ! i = x # xs"
  shows "\<exists>h'. pool_take i h = (Some x, h') \<and> heap_holds h' (fl[i := xs])"
proof -
  have "pool_holds i h (x # xs)" using assms by (auto simp: heap_holds_def)
  then obtain h' where h': "pool_take i h = (Some x, h')" "pool_holds i h' xs"
    using block_pool.take_first by blast
  have "pool_holds j h' (fl[i := xs] ! j)" if "j < length (allocators h')" for j
    using that h h' i pool_take_other [OF h'(1), of j] pool_take_buffers [OF h'(1)]
    by (cases "j = i") (auto simp: heap_holds_def)
  with h h' pool_take_buffers [OF h'(1)] show ?thesis
    by (auto simp: heap_holds_def)
qed

lemma heap_holds_put:
  assumes h: "heap_holds h fl" and i: "i < length (allocators h)"
    and x: "x \<in> blocks (allocators h ! i)" "x \<notin> set (fl ! i)"
  shows "heap_holds (pool_put i x h) (fl[i := x # fl ! i])"
proof -
  have "pool_holds j (pool_put i x h) (fl[i := x # fl ! i] ! j)" if j: "j < length (allocators h)" for j
  proof (cases "j = i")
    case True
    then show ?thesis
      using h i x block_pool.put_first [of i h "fl ! i" x] by (auto simp: heap_holds_def pool_owns_def)
  next
    case False
    then have "x \<notin> set (fl ! j)"
      using h i j x blocks_of_pools_disjoint [OF h i j] by (auto simp: heap_holds_def pool_holds_def)
    with False h j show ?thesis by (simp add: heap_holds_def pool_put_other)
  qed
  with h show ?thesis by (simp add: heap_holds_def pool_put_buffers)
qed

section \<open>Choice of the allocator\<close>

lemma find_upt_Some:
  "find P [0..<n] = Some i \<longleftrightarrow> i < n \<and> P i \<and> (\<forall>j<i. \<not> P j)"
  by (auto simp: find_Some_iff)

lemma find_upt_None: "find P [0..<n] = None \<longleftrightarrow> (\<forall>i<n. \<not> P i)"
  by (auto simp: find_None_iff)

lemma find_for_size_Some:
  "find_allocator_for_size h n = Some i \<longleftrightarrow>
     i < length (allocators h) \<and> n \<le> block_size (allocators h ! i) \<and> (\<forall>j<i. block_size (allocators h ! j) < n)"
  by (auto simp: find_allocator_for_size_def find_upt_Some not_le)

lemma find_for_size_None:
  "find_allocator_for_size h n = None \<longleftrightarrow> (\<forall>i<length (allocators h). block_size (allocators h ! i) < n)"
  by (auto simp: find_allocator_for_size_def find_upt_None not_le)

text \<open>
  No buffer begins exactly where the buffer of an earlier allocator ends. (\<open>find_allocator_for_allocation\<close>
  includes the one-past-the-end address, see \<open>core_free_adjacent\<close>.)
\<close>

definition buffers_apart :: "heap \<Rightarrow> bool" where
  "buffers_apart h \<longleftrightarrow> (\<forall>i<length (allocators h). \<forall>j<i.
     unat (buf (allocators h ! j)) + unat (buf_size (allocators h ! j)) \<noteq> unat (buf (allocators h ! i)))"

lemma in_closed_range:
  assumes "geometry a"
  shows "buf a \<le> p \<and> buf a + buf_size a \<ge> p \<longleftrightarrow> unat (buf a) \<le> unat p \<and> unat p \<le> unat (buf a) + unat (buf_size a)"
  using assms by (simp add: geometry_def word_le_nat_alt unat_word_ariths)

lemma intervals_touch:
  fixes b c n k p :: nat
  assumes "{b..<b + n} \<inter> {c..<c + k} = {}" and "0 < n" and "p \<in> {c..<c + k}" and "b \<le> p" "p \<le> b + n"
  shows "c = b + n"
proof -
  have "p \<notin> {b..<b + n}" using assms(1,3) by blast
  with assms(4,5) have p: "p = b + n" by auto
  have "b + n - 1 \<in> {b..<b + n}" using assms(2) by auto
  with assms(1) have "b + n - 1 \<notin> {c..<c + k}" by blast
  with p assms(2,3) show ?thesis by auto
qed

lemma region_inter_nat:
  assumes "unat a + n < 2 ^ 64" and "unat b + k < 2 ^ 64" and "region a n \<inter> region b k = {}"
  shows "{unat a..<unat a + n} \<inter> {unat b..<unat b + k} = {}"
proof -
  have "y \<notin> {unat a..<unat a + n} \<inter> {unat b..<unat b + k}" for y
  proof
    assume y: "y \<in> {unat a..<unat a + n} \<inter> {unat b..<unat b + k}"
    with assms(1) have "unat (of_nat y :: u64) = y" by (intro unat_of_nat_small) simp
    with y assms(1,2) have "of_nat y \<in> region a n \<inter> region b k"
      by (simp add: mem_region_interval word_le_nat_alt)
    with assms(3) show False by simp
  qed
  then show ?thesis by blast
qed

lemma find_for_allocation_block:
  assumes h: "heap_holds h fl" and apart: "buffers_apart h"
    and i: "i < length (allocators h)" and p: "p \<in> blocks (allocators h ! i)"
  shows "find_allocator_for_allocation h p = Some i"
proof -
  have g: "geometry (allocators h ! k)" if "k < length (allocators h)" for k
    using h that by (simp add: heap_holds_def pool_holds_def)
  let ?b = "\<lambda>k. unat (buf (allocators h ! k))" and ?n = "\<lambda>k. unat (buf_size (allocators h ! k))"
  have pi: "unat p \<in> {?b i..<?b i + ?n i}"
    using blocks_in_buffer [OF g [OF i] p] g [OF i] by (auto simp: word_le_nat_alt geometry_def)
  have "\<not> (buf (allocators h ! j) \<le> p \<and> buf (allocators h ! j) + buf_size (allocators h ! j) \<ge> p)" if "j < i" for j
  proof
    assume "buf (allocators h ! j) \<le> p \<and> buf (allocators h ! j) + buf_size (allocators h ! j) \<ge> p"
    then have pj: "?b j \<le> unat p" "unat p \<le> ?b j + ?n j"
      using in_closed_range g that i by (meson less_trans)+
    have "{?b j..<?b j + ?n j} \<inter> {?b i..<?b i + ?n i} = {}"
      using h g [of i] g [of j] that i
      by (intro region_inter_nat) (auto simp: heap_holds_def buffers_disjoint_def geometry_def)
    moreover have "0 < ?n j" using g [of j] that i by (simp add: geometry_def)
    ultimately have "?b i = ?b j + ?n j"
      using pi pj by (rule intervals_touch)
    moreover have "?b j + ?n j \<noteq> ?b i"
      using apart i that by (simp add: buffers_apart_def)
    ultimately show False by simp
  qed
  moreover have "buf (allocators h ! i) \<le> p \<and> buf (allocators h ! i) + buf_size (allocators h ! i) \<ge> p"
    using pi in_closed_range [OF g [OF i]] by simp
  ultimately show ?thesis
    using i by (auto simp: find_allocator_for_allocation_def find_upt_Some)
qed

section \<open>Specification of malloc and free\<close>

lemma core_malloc_pool:
  "core_malloc n h = (case find_allocator_for_size h n of None \<Rightarrow> (0, h)
     | Some i \<Rightarrow> (case pool_take i h of (None, h') \<Rightarrow> (0, h') | (Some p, h') \<Rightarrow> (p, h')))"
  by (simp add: core_malloc_def pool_take_def Let_def split: option.splits)

lemma core_free_pool:
  "core_free p h = (case find_allocator_for_allocation h p of None \<Rightarrow> h | Some i \<Rightarrow> pool_put i p h)"
  by (simp add: core_free_def pool_put_def Let_def split: option.splits)

lemma core_malloc_cases:
  assumes h: "heap_holds h fl" and m: "core_malloc n h = (p, h')" and "p \<noteq> 0"
  obtains i xs where "find_allocator_for_size h n = Some i" "i < length (allocators h)" "fl ! i = p # xs"
    "pool_take i h = (Some p, h')" "heap_holds h' (fl[i := xs])" "p \<in> blocks (allocators h ! i)"
proof -
  obtain i where i: "find_allocator_for_size h n = Some i"
    using m \<open>p \<noteq> 0\<close> by (cases "find_allocator_for_size h n") (auto simp: core_malloc_pool)
  then have len: "i < length (allocators h)" by (simp add: find_for_size_Some)
  then have ph: "pool_holds i h (fl ! i)" using h by (simp add: heap_holds_def)
  have t: "pool_take i h = (Some p, h')"
    using m i \<open>p \<noteq> 0\<close> by (auto simp: core_malloc_pool split: prod.splits option.splits)
  then obtain xs where xs: "fl ! i = p # xs" and own: "pool_owns i h p"
    using block_pool.take_returns_owned [OF ph] by blast
  have "heap_holds h' (fl[i := xs])"
    using heap_holds_take [OF h len xs] t by auto
  with i len t xs own show thesis by (intro that) (auto simp: pool_owns_def)
qed

text \<open>A free block of any pool.\<close>

definition free_blocks :: "heap \<Rightarrow> u64 list list \<Rightarrow> u64 set" where
  "free_blocks h fl = (\<Union>i<length (allocators h). \<Union>q \<in> set (fl ! i). region q (unat (block_size (allocators h ! i))))"

lemma block_apart_from_free:
  assumes h: "heap_holds h fl" and i: "i < length (allocators h)" and p: "p \<in> blocks (allocators h ! i)"
    and "p \<notin> set (fl ! i)"
  shows "region p (unat (block_size (allocators h ! i))) \<inter> free_blocks h fl = {}"
proof -
  have g: "geometry (allocators h ! k)" "set (fl ! k) \<subseteq> blocks (allocators h ! k)" if "k < length (allocators h)" for k
    using h that by (auto simp: heap_holds_def pool_holds_def)
  have "region p (unat (block_size (allocators h ! i))) \<inter> region q (unat (block_size (allocators h ! j))) = {}"
    if j: "j < length (allocators h)" and q: "q \<in> set (fl ! j)" for j q
  proof (cases "i = j")
    case True
    with q g i assms(4) have "q \<in> blocks (allocators h ! i)" "p \<noteq> q" by auto
    with True p g(1) [OF i] show ?thesis using blocks_disjoint [of "allocators h ! i" p q] by simp
  next
    case False
    then have "region (buf (allocators h ! i)) (unat (buf_size (allocators h ! i))) \<inter>
        region (buf (allocators h ! j)) (unat (buf_size (allocators h ! j))) = {}"
      using h i j by (simp add: heap_holds_def buffers_disjoint_def)
    with block_region_subset_buffer [OF g(1) [OF i] p] block_region_subset_buffer [OF g(1) [OF j], of q] g(2) [OF j] q
    show ?thesis by blast
  qed
  then show ?thesis by (auto simp: free_blocks_def)
qed

lemma region_prefix_disjoint: "n \<le> k \<Longrightarrow> region p k \<inter> A = {} \<Longrightarrow> region p n \<inter> A = {}"
  using region_mono by blast

text \<open>What \<open>core_malloc\<close> hands out: the first block of the smallest class that fits, apart from every free block.\<close>

lemma core_malloc_block:
  assumes h: "heap_holds h fl" and m: "core_malloc n h = (p, h')" and "p \<noteq> 0"
  shows "\<exists>i xs. find_allocator_for_size h n = Some i \<and> fl ! i = p # xs \<and> p \<in> blocks (allocators h ! i) \<and>
    heap_holds h' (fl[i := xs]) \<and> region p (unat n) \<inter> free_blocks h' (fl[i := xs]) = {}"
proof -
  obtain i xs where i: "find_allocator_for_size h n = Some i" "i < length (allocators h)" "fl ! i = p # xs"
    "pool_take i h = (Some p, h')" "heap_holds h' (fl[i := xs])" "p \<in> blocks (allocators h ! i)"
    using core_malloc_cases [OF assms] .
  have len: "length (allocators h') = length (allocators h)" "length fl = length (allocators h)"
    using pool_take_buffers [OF i(4)] h by (auto simp: heap_holds_def)
  have ai: "blocks (allocators h' ! i) = blocks (allocators h ! i)" "block_size (allocators h' ! i) = block_size (allocators h ! i)"
    using i(2,4) by (auto simp: pool_take_def Let_def split: if_splits)
  have "pool_holds i h (fl ! i)"
    using h i(2) by (simp add: heap_holds_def)
  then have "distinct (p # xs)"
    unfolding i(3) by (rule block_pool.holds_distinct)
  then have "p \<notin> set (fl[i := xs] ! i)"
    using i(2) len by simp
  then have "region p (unat (block_size (allocators h' ! i))) \<inter> free_blocks h' (fl[i := xs]) = {}"
    using block_apart_from_free [OF i(5), of i p] i(2,6) ai len by simp
  moreover have "unat n \<le> unat (block_size (allocators h' ! i))"
    using i(1) ai by (simp add: find_for_size_Some word_le_nat_alt)
  ultimately show ?thesis
    using i region_prefix_disjoint by blast
qed

lemma core_malloc_NULL:
  assumes h: "heap_holds h fl" and m: "core_malloc n h = (0, h')"
  shows "h' = h \<and> (\<forall>i. find_allocator_for_size h n = Some i \<longrightarrow> fl ! i = [])"
proof (cases "find_allocator_for_size h n")
  case None
  with m show ?thesis by (simp add: core_malloc_def)
next
  case (Some i)
  then have ph: "pool_holds i h (fl ! i)"
    using h by (simp add: heap_holds_def find_for_size_Some)
  show ?thesis
  proof (cases "fl ! i")
    case Nil
    with ph Some m show ?thesis
      using block_pool.take_empty [of i h] by (auto simp: core_malloc_pool)
  next
    case (Cons x xs)
    with ph obtain h2 where "pool_take i h = (Some x, h2)"
      using block_pool.take_first by metis
    moreover have "x \<noteq> 0"
      using ph Cons by (auto simp: pool_holds_def dest: chain_first)
    ultimately show ?thesis using m Some by (simp add: core_malloc_pool)
  qed
qed

lemma pool_take_put_id:
  assumes "pool_take i h = (Some p, h')" and "i < length (allocators h)"
  shows "pool_put i p h' = h"
  using assms by (auto simp: pool_take_def pool_put_def Let_def split: if_splits)

lemma find_for_allocation_cong:
  "pool_take i h = (r, h') \<Longrightarrow> find_allocator_for_allocation h' p = find_allocator_for_allocation h p"
  by (auto simp: find_allocator_for_allocation_def pool_take_def Let_def nth_head_upd split: if_splits)

section \<open>Initialisation\<close>

lemma init_blocks_chain:
  assumes g: "geometry a" and "k \<le> n_blocks a" and "n_blocks a - k < fuel"
    and "chain 0 nx p xs" and "set xs \<subseteq> block_at a ` {..<k}"
  shows "\<exists>p' nx'. init_blocks fuel (buf a + buf_size a) (block_size a) (block_at a k) p nx = Some (p', nx') \<and>
     chain 0 nx' p' (rev (map (block_at a) [k..<n_blocks a]) @ xs) \<and> (\<forall>y. y \<notin> blocks a \<longrightarrow> nx' y = nx y)"
  using assms(2-)
proof (induction fuel arbitrary: k p nx xs)
  case 0
  then show ?case by simp
next
  case (Suc fuel)
  have lim: "unat (buf a + buf_size a) = unat (buf a) + n_blocks a * unat (block_size a)"
    using g by (simp add: geometry_def unat_word_ariths n_blocks_def)
  have at: "unat (block_at a k) = unat (buf a) + k * unat (block_size a)"
    using block_at_unat [OF g] Suc.prems by simp
  have bs: "0 < unat (block_size a)" using g by (simp add: geometry_def)
  show ?case
  proof (cases "k < n_blocks a")
    case True
    then have "k * unat (block_size a) < n_blocks a * unat (block_size a)"
      using bs by simp
    then have go: "block_at a k < buf a + buf_size a"
      using lim at by (simp add: word_less_nat_alt)
    have step: "block_at a k + block_size a = block_at a (Suc k)"
      by (simp add: block_at_def algebra_simps)
    have mine: "block_at a k \<in> blocks a" using True by (simp add: blocks_def)
    have fresh: "block_at a k \<notin> set xs"
    proof
      assume "block_at a k \<in> set xs"
      then obtain l where "l < k" "block_at a k = block_at a l"
        using Suc.prems(4) by blast
      then show False
        using block_at_inj [OF g True, of l] True by simp
    qed
    have "\<exists>p' nx'. init_blocks fuel (buf a + buf_size a) (block_size a) (block_at a (Suc k)) (block_at a k) (nx(block_at a k := p)) =
        Some (p', nx') \<and> chain 0 nx' p' (rev (map (block_at a) [Suc k..<n_blocks a]) @ block_at a k # xs) \<and>
        (\<forall>y. y \<notin> blocks a \<longrightarrow> nx' y = (nx(block_at a k := p)) y)"
    proof (rule Suc.IH)
      show "Suc k \<le> n_blocks a" using True by simp
      show "n_blocks a - Suc k < fuel" using True Suc.prems(2) by linarith
      show "chain 0 (nx(block_at a k := p)) (block_at a k) (block_at a k # xs)"
        using Suc.prems(3) fresh blocks_in_buffer(1) [OF g mine] by simp
      show "set (block_at a k # xs) \<subseteq> block_at a ` {..<Suc k}"
        using Suc.prems(4) by (simp add: lessThan_Suc) blast
    qed
    moreover have "init_blocks (Suc fuel) (buf a + buf_size a) (block_size a) (block_at a k) p nx =
        init_blocks fuel (buf a + buf_size a) (block_size a) (block_at a (Suc k)) (block_at a k) (nx(block_at a k := p))"
      using go step by simp
    moreover have "rev (map (block_at a) [k..<n_blocks a]) @ xs = rev (map (block_at a) [Suc k..<n_blocks a]) @ block_at a k # xs"
      using True by (simp add: upt_conv_Cons)
    moreover have "(nx(block_at a k := p)) y = nx y" if "y \<notin> blocks a" for y
      using that mine by auto
    ultimately show ?thesis by metis
  next
    case False
    with Suc.prems have "k = n_blocks a" by simp
    with lim at have "\<not> block_at a k < buf a + buf_size a"
      by (simp add: word_less_nat_alt)
    with \<open>k = n_blocks a\<close> Suc.prems show ?thesis by auto
  qed
qed

text \<open>The free list an allocator starts with: all its blocks, the last one first.\<close>

definition all_blocks :: "allocator \<Rightarrow> u64 list" where
  "all_blocks a = rev (map (block_at a) [0..<n_blocks a])"

lemma set_all_blocks: "set (all_blocks a) = blocks a"
  by (simp add: all_blocks_def blocks_def atLeast0LessThan)

lemma all_blocks_cong: "same_geometry a b \<Longrightarrow> all_blocks a = all_blocks b"
  by (simp add: same_geometry_def all_blocks_def n_blocks_def block_at_def)

lemma init_blocks_all:
  assumes "geometry a" and "n_blocks a < fuel"
  shows "\<exists>p nx'. init_blocks fuel (buf a + buf_size a) (block_size a) (buf a) 0 nx = Some (p, nx') \<and>
     chain 0 nx' p (all_blocks a) \<and> (\<forall>y. y \<notin> blocks a \<longrightarrow> nx' y = nx y)"
  using init_blocks_chain [OF assms(1), of 0 fuel nx 0 "[]"] assms(2)
  by (simp add: all_blocks_def block_at_def)

text \<open>The outer loop: the pools done so far keep their lists because the buffers are disjoint.\<close>

definition init_ready :: "nat \<Rightarrow> heap \<Rightarrow> bool" where
  "init_ready fuel h \<longleftrightarrow> buffers_disjoint h \<and> (\<forall>a \<in> set (allocators h). geometry a \<and> n_blocks a < fuel)"

lemma init_allocators_from_holds:
  assumes "init_ready fuel h" and "k \<le> length (allocators h)"
    and "\<forall>i<k. pool_holds i h (all_blocks (allocators h ! i))"
  shows "\<exists>h'. init_allocators_from fuel [k..<length (allocators h)] h = Some h' \<and> init_ready fuel h' \<and>
     length (allocators h') = length (allocators h) \<and>
     (\<forall>i<length (allocators h). same_geometry (allocators h' ! i) (allocators h ! i) \<and> pool_holds i h' (all_blocks (allocators h' ! i)))"
  using assms
proof (induction "length (allocators h) - k" arbitrary: h k)
  case 0
  then show ?case by (auto simp: same_geometry_def)
next
  case (Suc n)
  then have k: "k < length (allocators h)" by simp
  let ?a = "allocators h ! k"
  have g: "geometry ?a" "n_blocks ?a < fuel"
    using Suc.prems(1) k by (auto simp: init_ready_def)
  obtain p nx where init: "init_blocks fuel (buf ?a + buf_size ?a) (block_size ?a) (buf ?a) 0 (next_of h) = Some (p, nx)"
      "chain 0 nx p (all_blocks ?a)" "\<forall>y. y \<notin> blocks ?a \<longrightarrow> nx y = next_of h y"
    using init_blocks_all [OF g] by blast
  define h1 where "h1 = h\<lparr>allocators := (allocators h)[k := ?a\<lparr>al_head := p\<rparr>], next_of := nx\<rparr>"
  have len: "length (allocators h1) = length (allocators h)" by (simp add: h1_def)
  have same: "same_geometry (allocators h1 ! i) (allocators h ! i)" for i
    by (simp add: h1_def same_geometry_def nth_head_upd)
  have dis: "buffers_disjoint h1"
    using Suc.prems(1) by (simp add: h1_def init_ready_def buffers_disjoint_def nth_head_upd)
  have ready: "init_ready fuel h1"
  proof -
    have "geometry (allocators h1 ! i) \<and> n_blocks (allocators h1 ! i) < fuel" if "i < length (allocators h)" for i
    proof -
      have "allocators h ! i \<in> set (allocators h)" using that by simp
      with Suc.prems(1) have "geometry (allocators h ! i)" "n_blocks (allocators h ! i) < fuel"
        by (auto simp only: init_ready_def)
      with same [of i] geometry_cong(1) [OF same [of i]] show ?thesis
        by (simp add: same_geometry_def n_blocks_def)
    qed
    with dis len show ?thesis by (simp add: init_ready_def all_set_conv_all_nth)
  qed
  have held: "pool_holds i h1 (all_blocks (allocators h1 ! i))" if "i < Suc k" for i
  proof (cases "i = k")
    case True
    with init k g show ?thesis
      by (simp add: pool_holds_def h1_def set_all_blocks all_blocks_cong [of "?a\<lparr>al_head := p\<rparr>" ?a] same_geometry_def)
  next
    case False
    with that have ik: "i < k" by simp
    with Suc.prems(3) k have ph: "pool_holds i h (all_blocks (allocators h ! i))" by simp
    have "blocks (allocators h ! i) \<inter> blocks ?a = {}"
    proof -
      have "region (buf (allocators h ! i)) (unat (buf_size (allocators h ! i))) \<inter> region (buf ?a) (unat (buf_size ?a)) = {}"
        using Suc.prems(1) ik k by (auto simp: init_ready_def buffers_disjoint_def)
      then show ?thesis
        using block_in_region g(1) ph by (fastforce simp: pool_holds_def)
    qed
    then have "chain 0 nx q (all_blocks (allocators h ! i)) = chain 0 (next_of h) q (all_blocks (allocators h ! i))" for q
      using init(3) by (intro chain_cong) (auto simp: set_all_blocks)
    with ph ik k show ?thesis by (simp add: pool_holds_def h1_def)
  qed
  have "n = length (allocators h1) - Suc k" using Suc.hyps(2) len by simp
  then obtain h' where h': "init_allocators_from fuel [Suc k..<length (allocators h1)] h1 = Some h'" "init_ready fuel h'"
      "length (allocators h') = length (allocators h1)"
      "\<forall>i<length (allocators h1). same_geometry (allocators h' ! i) (allocators h1 ! i) \<and> pool_holds i h' (all_blocks (allocators h' ! i))"
    using Suc.hyps(1) [of h1 "Suc k"] ready held k len by auto
  have "init_allocators_from fuel [k..<length (allocators h)] h = Some h'"
    using h'(1) init(1) k len by (simp add: upt_conv_Cons h1_def Let_def)
  with h' len same show ?case by (auto simp: same_geometry_def)
qed

section \<open>Properties\<close>

lemma heap_holds_free:
  assumes h: "heap_holds h fl" and apart: "buffers_apart h"
    and i: "i < length (allocators h)" and p: "p \<in> blocks (allocators h ! i)" "p \<notin> set (fl ! i)"
  shows "heap_holds (core_free p h) (fl[i := p # fl ! i])"
  using heap_holds_put [OF h i p] find_for_allocation_block [OF h apart i p(1)]
  by (simp add: core_free_pool)

lemma buffers_apart_take:
  "pool_take i h = (r, h') \<Longrightarrow> buffers_apart h' = buffers_apart h"
  by (auto simp: pool_take_def Let_def buffers_apart_def nth_head_upd split: if_splits)

lemma malloc_free_id:
  assumes h: "heap_holds h fl" and apart: "buffers_apart h" and m: "core_malloc n h = (p, h')" and "p \<noteq> 0"
  shows "core_free p h' = h"
proof -
  obtain i xs where i: "i < length (allocators h)" "pool_take i h = (Some p, h')" "p \<in> blocks (allocators h ! i)"
    using core_malloc_cases [OF h m \<open>p \<noteq> 0\<close>] by metis
  have "find_allocator_for_allocation h' p = Some i"
    using find_for_allocation_cong [OF i(2)] find_for_allocation_block [OF h apart i(1,3)] by simp
  with pool_take_put_id [OF i(2,1)] show ?thesis by (simp add: core_free_pool)
qed

lemma g_allocators_length [simp]: "length (g_allocators a b c d e) = 5"
  by (simp add: g_allocators_def)

lemma g_allocators_ready:
  assumes "\<forall>a \<in> set (g_allocators b32 b64 b128 b256 b8192). buf a \<noteq> 0 \<and> unat (buf a) + unat (buf_size a) < 2 ^ 64"
    and "buffers_disjoint \<lparr>allocators = g_allocators b32 b64 b128 b256 b8192, next_of = nx\<rparr>"
  shows "init_ready 4097 \<lparr>allocators = g_allocators b32 b64 b128 b256 b8192, next_of = nx\<rparr>"
  using assms by (simp add: init_ready_def g_allocators_def DEFINE_ALLOCATOR_def geometry_def n_blocks_def
      unat_gt_0)

text \<open>A concrete placement of the five buffers, with a gap between each two, and the heap it starts with.\<close>

definition example_heap :: heap where
  "example_heap = \<lparr>allocators = g_allocators 0x200000 0x300000 0x400000 0x500000 0x600000, next_of = (\<lambda>_. 0)\<rparr>"

lemma example_heap_disjoint: "buffers_disjoint example_heap"
  unfolding buffers_disjoint_def example_heap_def
  by (simp add: All_less_Suc g_allocators_def DEFINE_ALLOCATOR_def region_disjointI)

lemma example_heap_apart: "buffers_apart example_heap"
  unfolding buffers_apart_def example_heap_def
  by (simp add: All_less_Suc g_allocators_def DEFINE_ALLOCATOR_def)

lemma geometry_of_example:
  "\<forall>a \<in> set (allocators example_heap). buf a \<noteq> 0 \<and> unat (buf a) + unat (buf_size a) < 2 ^ 64"
  by (simp add: example_heap_def g_allocators_def DEFINE_ALLOCATOR_def)

text \<open>A small heap: one pool of two blocks of 64 bytes, both free.\<close>

definition small_heap :: heap where
  "small_heap = \<lparr>allocators = [\<lparr>block_size = 64, buf = 0x1000, buf_size = 128, al_head = 0x1040\<rparr>],
                 next_of = (\<lambda>_. 0)(0x1040 := 0x1000)\<rparr>"

lemma small_heap_blocks:
  "blocks \<lparr>block_size = 64, buf = 0x1000, buf_size = 128, al_head = p\<rparr> = {0x1000, 0x1040}"
  by (simp add: blocks_def n_blocks_def block_at_def lessThan_nat_numeral lessThan_Suc insert_commute)

lemma small_heap_holds: "heap_holds small_heap [[0x1040, 0x1000]]"
  by (simp add: heap_holds_def buffers_disjoint_def small_heap_def pool_holds_def small_heap_blocks geometry_def)

lemma small_heap_apart: "buffers_apart small_heap"
  by (simp add: small_heap_def buffers_apart_def)

text \<open>C18: \<open>core_init_allocators\<close> ends within 4097 rounds per pool, whatever the linker's placement of the five
  buffers (apart from each other, below the top of the address space), and puts every block of every
  pool on that pool's free list, once.\<close>

theorem core_init_allocators_spec:
  assumes "\<forall>a \<in> set (g_allocators b32 b64 b128 b256 b8192). buf a \<noteq> 0 \<and> unat (buf a) + unat (buf_size a) < 2 ^ 64"
    and "buffers_disjoint \<lparr>allocators = g_allocators b32 b64 b128 b256 b8192, next_of = nx\<rparr>"
  shows "\<exists>h. core_init_allocators 4097 \<lparr>allocators = g_allocators b32 b64 b128 b256 b8192, next_of = nx\<rparr> = Some h \<and>
    heap_holds h (map all_blocks (g_allocators b32 b64 b128 b256 b8192)) \<and>
    map (\<lambda>a. (block_size a, buf a, buf_size a)) (allocators h) =
      map (\<lambda>a. (block_size a, buf a, buf_size a)) (g_allocators b32 b64 b128 b256 b8192)"
proof -
  let ?h = "\<lparr>allocators = g_allocators b32 b64 b128 b256 b8192, next_of = nx\<rparr>"
  obtain h where h: "init_allocators_from 4097 [0..<length (allocators ?h)] ?h = Some h" "init_ready 4097 h"
      "length (allocators h) = length (allocators ?h)"
      "\<forall>i<length (allocators ?h). same_geometry (allocators h ! i) (allocators ?h ! i) \<and> pool_holds i h (all_blocks (allocators h ! i))"
    using init_allocators_from_holds [OF g_allocators_ready [OF assms], of 0] by auto
  have "all_blocks (allocators h ! i) = all_blocks (allocators ?h ! i)" if "i < 5" for i
    using h(4) that all_blocks_cong by simp
  with h have "heap_holds h (map all_blocks (g_allocators b32 b64 b128 b256 b8192))"
    by (simp add: heap_holds_def init_ready_def)
  with h show ?thesis
    by (auto simp: core_init_allocators_def same_geometry_def list_eq_iff_nth_eq)
qed

theorem core_init_allocators_spec_witness:
  "\<exists>h. core_init_allocators 4097 example_heap = Some h \<and>
    heap_holds h (map all_blocks (g_allocators 0x200000 0x300000 0x400000 0x500000 0x600000))"
  using core_init_allocators_spec [of "0x200000" "0x300000" "0x400000" "0x500000" "0x600000" "\<lambda>_. 0"]
    geometry_of_example example_heap_disjoint unfolding example_heap_def by auto

text \<open>C16: \<open>core_malloc\<close> returns \<open>NULL\<close> and changes nothing exactly when no pool fits or the smallest pool that
  fits has no free block; otherwise it returns the first free block of the first pool in ascending
  order of block size whose blocks are large enough, takes just that block off its free list, and the
  bytes handed out overlap no block that is still free.\<close>

theorem core_malloc_spec:
  assumes "heap_holds h fl"
  shows "case core_malloc n h of (p, h') \<Rightarrow>
    if p = 0 then h' = h \<and> (\<forall>i. find_allocator_for_size h n = Some i \<longrightarrow> fl ! i = [])
    else \<exists>i xs. i < length (allocators h) \<and> n \<le> block_size (allocators h ! i) \<and> (\<forall>j<i. block_size (allocators h ! j) < n) \<and>
      fl ! i = p # xs \<and> p \<in> blocks (allocators h ! i) \<and> heap_holds h' (fl[i := xs]) \<and>
      region p (unat n) \<inter> free_blocks h' (fl[i := xs]) = {}"
proof (cases "core_malloc n h")
  case (Pair p h')
  show ?thesis
  proof (cases "p = 0")
    case True
    with Pair core_malloc_NULL [OF assms, of n h'] show ?thesis by simp
  next
    case False
    from core_malloc_block [OF assms Pair False] Pair False show ?thesis
      by (fastforce simp: find_for_size_Some)
  qed
qed

theorem core_malloc_spec_witness:
  "heap_holds small_heap [[0x1040, 0x1000]] \<and> fst (core_malloc 40 small_heap) = 0x1040 \<and>
   region 0x1040 40 \<inter> free_blocks (snd (core_malloc 40 small_heap)) [[0x1000]] = {}"
proof -
  have "core_malloc 40 small_heap = (0x1040, small_heap\<lparr>allocators := [\<lparr>block_size = 64, buf = 0x1000, buf_size = 128, al_head = 0x1000\<rparr>]\<rparr>)"
    by (simp add: core_malloc_def find_allocator_for_size_def small_heap_def)
  with core_malloc_spec [OF small_heap_holds, of 40] small_heap_holds show ?thesis
    by (auto simp: small_heap_def)
qed

text \<open>C17: When no buffer begins where an earlier pool's buffer ends, freeing what \<open>core_malloc\<close> returned
  restores the state of the allocators, and freeing any block that is not free puts it back at the
  front of its own pool's free list.\<close>

theorem core_free_restores:
  assumes "heap_holds h fl" and "buffers_apart h"
  shows "(\<forall>n p h'. core_malloc n h = (p, h') \<and> p \<noteq> 0 \<longrightarrow> core_free p h' = h) \<and>
    (\<forall>i q. i < length (allocators h) \<and> q \<in> blocks (allocators h ! i) \<and> q \<notin> set (fl ! i) \<longrightarrow>
      heap_holds (core_free q h) (fl[i := q # fl ! i]))"
  using malloc_free_id [OF assms] heap_holds_free [OF assms] by blast

theorem core_free_restores_witness:
  "core_free 0x1040 (snd (core_malloc 40 small_heap)) = small_heap"
proof -
  have "fst (core_malloc 40 small_heap) = 0x1040"
    by (simp add: core_malloc_def find_allocator_for_size_def small_heap_def)
  then show ?thesis
    using core_free_restores [OF small_heap_holds small_heap_apart, THEN conjunct1, rule_format,
        of 40 "0x1040" "snd (core_malloc 40 small_heap)"]
    by (simp add: prod_eq_iff)
qed

text \<open>C31: A finding. \<open>find_allocator_for_allocation\<close> compares with \<open>>=\<close> against the end of a buffer, so when the
  linker places a buffer directly after the buffer of an earlier pool, the first block of the later
  pool is taken for a block of an earlier one, and \<open>core_free\<close> gives it to the wrong pool.\<close>

theorem core_free_adjacent:
  assumes "i < length (allocators h)" and "j < i" and "geometry (allocators h ! j)"
    and "buf (allocators h ! i) = buf (allocators h ! j) + buf_size (allocators h ! j)"
  shows "\<exists>k\<le>j. find_allocator_for_allocation h (buf (allocators h ! i)) = Some k \<and>
    al_head (allocators (core_free (buf (allocators h ! i)) h) ! k) = buf (allocators h ! i) \<and>
    allocators (core_free (buf (allocators h ! i)) h) ! i = allocators h ! i"
proof -
  define P where "P k \<longleftrightarrow> buf (allocators h ! k) \<le> buf (allocators h ! i) \<and>
    buf (allocators h ! k) + buf_size (allocators h ! k) \<ge> buf (allocators h ! i)" for k
  have j: "P j"
    unfolding P_def using assms(3,4) in_closed_range [OF assms(3), of "buf (allocators h ! i)"]
    by (simp add: geometry_def unat_word_ariths)
  define k where "k = (LEAST k. P k)"
  have k: "P k" "k \<le> j" "\<forall>l<k. \<not> P l"
    unfolding k_def using j by (auto intro: LeastI Least_le dest: not_less_Least)
  then have "find_allocator_for_allocation h (buf (allocators h ! i)) = Some k"
    using assms(1,2) by (simp add: find_allocator_for_allocation_def find_upt_Some P_def)
  with k(2) assms(1,2) show ?thesis by (auto simp: core_free_def Let_def)
qed

theorem core_free_adjacent_witness:
  "find_allocator_for_allocation \<lparr>allocators = g_allocators 0x200000 0x220000 0x400000 0x500000 0x600000, next_of = \<lambda>_. 0\<rparr>
     0x220000 = Some 0"
  using core_free_adjacent [of 1 "\<lparr>allocators = g_allocators 0x200000 0x220000 0x400000 0x500000 0x600000, next_of = \<lambda>_. 0\<rparr>" 0]
  by (simp add: g_allocators_def DEFINE_ALLOCATOR_def geometry_def)

text \<open>\<open>core_calloc\<close> returns a block whose \<open>count * n\<close> bytes are zero and leaves every other byte of
  memory as it is; with a product that does not fit in 64 bits the bytes are fewer than asked for.\<close>

theorem core_calloc_spec:
  "case core_calloc count n (h, m) of (p, h', m') \<Rightarrow>
     (p, h') = core_malloc (count * n) h \<and>
     (if p = 0 then m' = m
      else mem_read m' p (unat (count * n)) = replicate (unat (count * n)) 0 \<and>
           (\<forall>a. a \<notin> region p (unat (count * n)) \<longrightarrow> m' a = m a))"
proof -
  have "unat (count * n) \<le> 2 ^ 64"
    using unsigned_less [of "count * n", where ?'a = nat] by simp
  then show ?thesis
    by (auto simp: core_calloc_def memset_block mem_read_write_same mem_write_outside Let_def split: prod.splits)
qed

theorem core_calloc_spec_witness:
  "fst (core_calloc 2 8 (small_heap, \<lambda>_. 1)) = 0x1040 \<and>
   mem_read (snd (snd (core_calloc 2 8 (small_heap, \<lambda>_. 1)))) 0x1040 16 = replicate 16 0"
proof -
  have "fst (core_calloc 2 8 (small_heap, \<lambda>_. 1)) = 0x1040"
    by (simp add: core_calloc_def core_malloc_def find_allocator_for_size_def small_heap_def)
  then show ?thesis
    using core_calloc_spec [of 2 8 small_heap "\<lambda>_. 1"] by (auto simp: split_def)
qed

end
