(* ===== verification/CoreHeader.thy ===== *)
theory CoreHeader
  imports MemUtils
begin

text \<open>
  The header of core's image (\<^verbatim>\<open>shared/include/core/header.h\<close>): the variable \<open>g_core_header\<close> which the
  UEFI application fills, the \<open>SetVariable\<close> hook updates and core reads; and the constants of
  \<^verbatim>\<open>shared/include/core/consts.h\<close>. An \<open>enum core_action\<close> comes from the operating system as four
  arbitrary bytes, so its values are words.
\<close>

section \<open>Constants\<close>

definition CORE_HEADER_MAGIC :: u32 where "CORE_HEADER_MAGIC = 0x12345678"
definition CORE_DISK_DUMP_MAGIC :: u32 where "CORE_DISK_DUMP_MAGIC = 0xabcdef12"
definition CORE_PHYS_ADDR :: u64 where "CORE_PHYS_ADDR = 0x41000000"
definition CORE_MAIN_PHYS_ADDR :: u64 where "CORE_MAIN_PHYS_ADDR = 0x41001000"
definition CORE_MAX_PHYS_MEM_SIZE :: u64 where "CORE_MAX_PHYS_MEM_SIZE = 0x3000000"
definition CORE_RM_PHYS_ADDR :: u64 where "CORE_RM_PHYS_ADDR = 0x1000"
definition CORE_MAX_RM_PHYS_MEM_SIZE :: u64 where "CORE_MAX_RM_PHYS_MEM_SIZE = 0x1000"
definition CORE_PM_PHYS_ADDR :: u64 where "CORE_PM_PHYS_ADDR = 0x40000000"
definition CORE_MAX_PM_PHYS_MEM_SIZE :: u64 where "CORE_MAX_PM_PHYS_MEM_SIZE = 0x1000000"
definition CORE_WAKEUP_PHYS_ADDR :: u64 where "CORE_WAKEUP_PHYS_ADDR = CORE_RM_PHYS_ADDR"

lemmas consts_defs =
  CORE_HEADER_MAGIC_def CORE_DISK_DUMP_MAGIC_def CORE_PHYS_ADDR_def CORE_MAIN_PHYS_ADDR_def
  CORE_MAX_PHYS_MEM_SIZE_def CORE_RM_PHYS_ADDR_def CORE_MAX_RM_PHYS_MEM_SIZE_def
  CORE_PM_PHYS_ADDR_def CORE_MAX_PM_PHYS_MEM_SIZE_def CORE_WAKEUP_PHYS_ADDR_def

type_synonym core_action = u32

definition CORE_ACTION_NOOP :: core_action where "CORE_ACTION_NOOP = 0"
definition CORE_ACTION_STORE :: core_action where "CORE_ACTION_STORE = 1"
definition CORE_ACTION_SWITCH :: core_action where "CORE_ACTION_SWITCH = 2"
definition CORE_ACTION_MAX :: core_action where "CORE_ACTION_MAX = 3"

lemmas core_action_defs =
  CORE_ACTION_NOOP_def CORE_ACTION_STORE_def CORE_ACTION_SWITCH_def CORE_ACTION_MAX_def

definition MAX_RAM_AREAS :: nat where "MAX_RAM_AREAS = 64"

section \<open>The header\<close>

record disk_pci =
  disk_bus :: u8
  disk_device :: u8
  disk_function :: u8
  disk_bars :: "u32 list"

record core_header =
  hdr_magic :: u32
  hdr_action :: core_action
  hdr_facs :: u64
  hdr_rsdp :: u64
  hdr_disk_pci :: disk_pci
  ram_areas_size :: u32
  ram_areas :: "mem_area list"

text \<open>The two arrays of the structure have a fixed length.\<close>

definition core_header_typed :: "core_header \<Rightarrow> bool" where
  "core_header_typed h \<longleftrightarrow> length (ram_areas h) = MAX_RAM_AREAS \<and> length (disk_bars (hdr_disk_pci h)) = 6"

text \<open>\<open>sizeof (struct core_header)\<close> on the 64-bit target.\<close>

definition sizeof_core_header :: u64 where
  "sizeof_core_header = 1080"

definition is_core_header_magic_valid :: "u32 \<Rightarrow> bool" where
  "is_core_header_magic_valid magic \<longleftrightarrow> magic = CORE_HEADER_MAGIC"

definition is_core_header_action_valid :: "core_action \<Rightarrow> bool" where
  "is_core_header_action_valid action \<longleftrightarrow> action < CORE_ACTION_MAX"

definition is_core_header_facs_valid :: "u64 \<Rightarrow> bool" where
  "is_core_header_facs_valid facs \<longleftrightarrow> facs \<noteq> 0"

definition is_core_header_rsdp_valid :: "u64 \<Rightarrow> bool" where
  "is_core_header_rsdp_valid rsdp \<longleftrightarrow> rsdp \<noteq> 0"

definition is_core_header_ram_areas_valid :: "mem_area list \<Rightarrow> u32 \<Rightarrow> bool" where
  "is_core_header_ram_areas_valid areas n =
     (if unat n > MAX_RAM_AREAS then False
      else list_all (\<lambda>i. area_size (areas ! i) \<noteq> 0) [0..<unat n])"

definition is_core_header_valid :: "core_header \<Rightarrow> bool" where
  "is_core_header_valid h \<longleftrightarrow>
     is_core_header_magic_valid (hdr_magic h) \<and> is_core_header_action_valid (hdr_action h) \<and>
     is_core_header_facs_valid (hdr_facs h) \<and> is_core_header_rsdp_valid (hdr_rsdp h) \<and>
     is_core_header_ram_areas_valid (ram_areas h) (ram_areas_size h)"

text \<open>The areas that count.\<close>

definition used_areas :: "core_header \<Rightarrow> mem_area list" where
  "used_areas h = take (unat (ram_areas_size h)) (ram_areas h)"

lemma action_valid_iff:
  "is_core_header_action_valid a \<longleftrightarrow> a \<in> {CORE_ACTION_NOOP, CORE_ACTION_STORE, CORE_ACTION_SWITCH}"
proof -
  have "a < 3 \<longleftrightarrow> unat a < 3" by (simp add: word_less_nat_alt)
  also have "\<dots> \<longleftrightarrow> unat a = 0 \<or> unat a = 1 \<or> unat a = 2" by auto
  also have "\<dots> \<longleftrightarrow> a = 0 \<or> a = 1 \<or> a = 2" by (auto simp: word_unat_eq_iff)
  finally show ?thesis by (simp add: is_core_header_action_valid_def core_action_defs)
qed

lemma ram_areas_valid_iff:
  assumes "length areas = MAX_RAM_AREAS"
  shows "is_core_header_ram_areas_valid areas n \<longleftrightarrow>
    unat n \<le> MAX_RAM_AREAS \<and> (\<forall>a \<in> set (take (unat n) areas). area_size a \<noteq> 0)"
  using assms by (auto simp: is_core_header_ram_areas_valid_def list_all_iff all_set_conv_all_nth not_less)

lemma core_header_valid_used_areas:
  "core_header_typed h \<Longrightarrow> is_core_header_valid h \<Longrightarrow>
   length (used_areas h) = unat (ram_areas_size h) \<and> (\<forall>a \<in> set (used_areas h). area_size a \<noteq> 0)"
  by (auto simp: is_core_header_valid_def core_header_typed_def ram_areas_valid_iff used_areas_def)

end
