(* ===== verification/Hw.thy ===== *)
theory Hw
  imports Prelude
begin

text \<open>
  The hardware as the C code reaches it, \<^verbatim>\<open>shared/include/io.h\<close>: port and memory-mapped accesses of 8, 16
  and 32 bits. What answers them is not part of the repository, so it is a parameter: a record of four
  functions on a device state of any type. The \<open>_mb\<close> variants differ by a compiler barrier only, which
  orders accesses that the model already runs in program order; so does the \<open>mfence\<close> of \<open>mb()\<close>.
\<close>

record 'd hw =
  port_in :: "nat \<Rightarrow> u16 \<Rightarrow> 'd \<Rightarrow> u32 \<times> 'd"
  port_out :: "nat \<Rightarrow> u16 \<Rightarrow> u32 \<Rightarrow> 'd \<Rightarrow> 'd"
  mmio_in :: "nat \<Rightarrow> u64 \<Rightarrow> 'd \<Rightarrow> u32 \<times> 'd"
  mmio_out :: "nat \<Rightarrow> u64 \<Rightarrow> u32 \<Rightarrow> 'd \<Rightarrow> 'd"

definition in8 :: "'d hw \<Rightarrow> u16 \<Rightarrow> ('d, u8) cfun" where
  "in8 hw port = stateful (\<lambda>d. apfst ucast (port_in hw 1 port d))"

definition in16 :: "'d hw \<Rightarrow> u16 \<Rightarrow> ('d, u16) cfun" where
  "in16 hw port = stateful (\<lambda>d. apfst ucast (port_in hw 2 port d))"

definition in32 :: "'d hw \<Rightarrow> u16 \<Rightarrow> ('d, u32) cfun" where
  "in32 hw port = stateful (port_in hw 4 port)"

definition out8 :: "'d hw \<Rightarrow> u16 \<Rightarrow> u8 \<Rightarrow> ('d, unit) cfun" where
  "out8 hw port v = modify (port_out hw 1 port (ucast v))"

definition out16 :: "'d hw \<Rightarrow> u16 \<Rightarrow> u16 \<Rightarrow> ('d, unit) cfun" where
  "out16 hw port v = modify (port_out hw 2 port (ucast v))"

definition out32 :: "'d hw \<Rightarrow> u16 \<Rightarrow> u32 \<Rightarrow> ('d, unit) cfun" where
  "out32 hw port v = modify (port_out hw 4 port v)"

definition read8 :: "'d hw \<Rightarrow> u64 \<Rightarrow> ('d, u8) cfun" where
  "read8 hw addr = stateful (\<lambda>d. apfst ucast (mmio_in hw 1 addr d))"

definition read16 :: "'d hw \<Rightarrow> u64 \<Rightarrow> ('d, u16) cfun" where
  "read16 hw addr = stateful (\<lambda>d. apfst ucast (mmio_in hw 2 addr d))"

definition read32 :: "'d hw \<Rightarrow> u64 \<Rightarrow> ('d, u32) cfun" where
  "read32 hw addr = stateful (mmio_in hw 4 addr)"

definition write8 :: "'d hw \<Rightarrow> u64 \<Rightarrow> u8 \<Rightarrow> ('d, unit) cfun" where
  "write8 hw addr v = modify (mmio_out hw 1 addr (ucast v))"

definition write16 :: "'d hw \<Rightarrow> u64 \<Rightarrow> u16 \<Rightarrow> ('d, unit) cfun" where
  "write16 hw addr v = modify (mmio_out hw 2 addr (ucast v))"

definition write32 :: "'d hw \<Rightarrow> u64 \<Rightarrow> u32 \<Rightarrow> ('d, unit) cfun" where
  "write32 hw addr v = modify (mmio_out hw 4 addr v)"

definition read_mb8 :: "'d hw \<Rightarrow> u64 \<Rightarrow> ('d, u8) cfun" where
  "read_mb8 hw addr = read8 hw addr"

definition read_mb16 :: "'d hw \<Rightarrow> u64 \<Rightarrow> ('d, u16) cfun" where
  "read_mb16 hw addr = read16 hw addr"

definition read_mb32 :: "'d hw \<Rightarrow> u64 \<Rightarrow> ('d, u32) cfun" where
  "read_mb32 hw addr = read32 hw addr"

definition write_mb8 :: "'d hw \<Rightarrow> u64 \<Rightarrow> u8 \<Rightarrow> ('d, unit) cfun" where
  "write_mb8 hw addr v = write8 hw addr v"

definition write_mb16 :: "'d hw \<Rightarrow> u64 \<Rightarrow> u16 \<Rightarrow> ('d, unit) cfun" where
  "write_mb16 hw addr v = write16 hw addr v"

definition write_mb32 :: "'d hw \<Rightarrow> u64 \<Rightarrow> u32 \<Rightarrow> ('d, unit) cfun" where
  "write_mb32 hw addr v = write32 hw addr v"

definition mb :: "('d, unit) cfun" where
  "mb = ret ()"

lemmas mb_defs = read_mb8_def read_mb16_def read_mb32_def write_mb8_def write_mb16_def write_mb32_def

lemmas io_defs = in8_def in16_def in32_def out8_def out16_def out32_def read8_def read16_def read32_def
  write8_def write16_def write32_def mb_defs

lemma wp_in [wp_simps]:
  "wp (in8 hw p) Q E d = Q (ucast (fst (port_in hw 1 p d))) (snd (port_in hw 1 p d))"
  "wp (in16 hw p) Q' E d = Q' (ucast (fst (port_in hw 2 p d))) (snd (port_in hw 2 p d))"
  "wp (in32 hw p) Q'' E d = Q'' (fst (port_in hw 4 p d)) (snd (port_in hw 4 p d))"
  by (simp_all add: io_defs wp_simps)

lemma wp_out [wp_simps]:
  "wp (out8 hw p b) Q E d = Q () (port_out hw 1 p (ucast b) d)"
  "wp (out16 hw p w) Q E d = Q () (port_out hw 2 p (ucast w) d)"
  "wp (out32 hw p v) Q E d = Q () (port_out hw 4 p v d)"
  by (simp_all add: io_defs wp_simps)

lemma wp_read [wp_simps]:
  "wp (read8 hw a) Q E d = Q (ucast (fst (mmio_in hw 1 a d))) (snd (mmio_in hw 1 a d))"
  "wp (read16 hw a) Q' E d = Q' (ucast (fst (mmio_in hw 2 a d))) (snd (mmio_in hw 2 a d))"
  "wp (read32 hw a) Q'' E d = Q'' (fst (mmio_in hw 4 a d)) (snd (mmio_in hw 4 a d))"
  "wp (read_mb32 hw a) Q'' E d = Q'' (fst (mmio_in hw 4 a d)) (snd (mmio_in hw 4 a d))"
  by (simp_all add: io_defs wp_simps)

lemma wp_write [wp_simps]:
  "wp (write8 hw a b) Q E d = Q () (mmio_out hw 1 a (ucast b) d)"
  "wp (write_mb8 hw a b) Q E d = Q () (mmio_out hw 1 a (ucast b) d)"
  "wp (write16 hw a w) Q E d = Q () (mmio_out hw 2 a (ucast w) d)"
  "wp (write_mb16 hw a w) Q E d = Q () (mmio_out hw 2 a (ucast w) d)"
  "wp (write32 hw a v) Q E d = Q () (mmio_out hw 4 a v d)"
  "wp (write_mb32 hw a v) Q E d = Q () (mmio_out hw 4 a v d)"
  by (simp_all add: io_defs wp_simps)

section \<open>Running a part of the code on a part of the state\<close>

text \<open>
  The drivers run on a larger state that has the device state as a component; \<open>zoom\<close> lifts a function of
  the component, given how to read and to replace it.
\<close>

definition zoom :: "('s \<Rightarrow> 'd) \<Rightarrow> ('d \<Rightarrow> 's \<Rightarrow> 's) \<Rightarrow> ('d, 'a) cfun \<Rightarrow> ('s, 'a) cfun" where
  "zoom get put m = (\<lambda>s. case m (get s) of
      Returns a d \<Rightarrow> Returns a (put d s) | Throws e d \<Rightarrow> Throws e (put d s) | Faults f \<Rightarrow> Faults f)"

lemma wp_zoom [wp_simps]: "wp (zoom get put m) Q E s = wp m (\<lambda>a d. Q a (put d s)) (\<lambda>d. E (put d s)) (get s)"
  by (simp add: wp_def zoom_def split: outcome.splits)

end
