(* ===== verification/Pci.thy ===== *)
theory Pci
  imports Hw Memory
begin

text \<open>
  PCI configuration space, \<^verbatim>\<open>shared/src/pci\<close>: the port accesses of configuration mechanism 1, the lookup
  of a device by enumeration, the decoding of base address registers and the iteration over the
  capability list. An out parameter of a failing function is not read by its callers and is not kept.
\<close>

section \<open>Configuration space accesses\<close>

record pci_dev_addr =
  pa_bus :: u8
  pa_device :: u8
  pa_function :: u8

definition PCI_VENDOR_ID :: u32 where "PCI_VENDOR_ID = 0x00"
definition PCI_DEVICE_ID :: u32 where "PCI_DEVICE_ID = 0x02"
definition PCI_COMMAND :: u32 where "PCI_COMMAND = 0x04"
definition PCI_STATUS :: u32 where "PCI_STATUS = 0x06"
definition PCI_HEADER_TYPE :: u32 where "PCI_HEADER_TYPE = 0x0e"
definition PCI_BASE_ADDRESS_0 :: u32 where "PCI_BASE_ADDRESS_0 = 0x10"
definition PCI_CAPABILITY_LIST :: u32 where "PCI_CAPABILITY_LIST = 0x34"
definition PCI_CAPABILITY_PTR_OFFSET :: u32 where "PCI_CAPABILITY_PTR_OFFSET = 1"
definition PCI_HEADER_TYPE_MASK :: u8 where "PCI_HEADER_TYPE_MASK = 0x7f"
definition PCI_HEADER_TYPE_NORMAL :: u8 where "PCI_HEADER_TYPE_NORMAL = 0"
definition PCI_HEADER_TYPE_BRIDGE :: u8 where "PCI_HEADER_TYPE_BRIDGE = 1"
definition PCI_HEADER_TYPE_CARDBUS :: u8 where "PCI_HEADER_TYPE_CARDBUS = 2"
definition PCI_STATUS_CAP_LIST :: u16 where "PCI_STATUS_CAP_LIST = 0x10"
definition PCI_VENDOR_ID_INVALID :: u16 where "PCI_VENDOR_ID_INVALID = 0xffff"
definition PCI_BASE_ADDRESS_NUM :: nat where "PCI_BASE_ADDRESS_NUM = 6"
definition PCI_BASE_ADDRESS_INVALID :: u32 where "PCI_BASE_ADDRESS_INVALID = 0xffffffff"
definition PCI_BASE_ADDRESS_SPACE :: u32 where "PCI_BASE_ADDRESS_SPACE = 1"
definition PCI_BASE_ADDRESS_SPACE_IO :: u32 where "PCI_BASE_ADDRESS_SPACE_IO = 1"
definition PCI_BASE_ADDRESS_SPACE_MEMORY :: u32 where "PCI_BASE_ADDRESS_SPACE_MEMORY = 0"
definition PCI_BASE_ADDRESS_MEM_TYPE_MASK :: u32 where "PCI_BASE_ADDRESS_MEM_TYPE_MASK = 6"
definition PCI_BASE_ADDRESS_MEM_TYPE_64 :: u32 where "PCI_BASE_ADDRESS_MEM_TYPE_64 = 4"
definition PCI_BASE_ADDRESS_MEM_MASK :: u64 where "PCI_BASE_ADDRESS_MEM_MASK = NOT 0x0f"
definition PCI_BASE_ADDRESS_IO_MASK :: u64 where "PCI_BASE_ADDRESS_IO_MASK = NOT 0x03"
definition PCI_COMMAND_MEMORY :: u16 where "PCI_COMMAND_MEMORY = 2"
definition PCI_MAX_BUS :: nat where "PCI_MAX_BUS = 256"
definition PCI_MAX_DEVICE :: nat where "PCI_MAX_DEVICE = 32"
definition PCI_MAX_FUNCTION :: nat where "PCI_MAX_FUNCTION = 8"

lemmas pci_consts =
  PCI_VENDOR_ID_def PCI_DEVICE_ID_def PCI_COMMAND_def PCI_STATUS_def PCI_HEADER_TYPE_def
  PCI_BASE_ADDRESS_0_def PCI_CAPABILITY_LIST_def PCI_CAPABILITY_PTR_OFFSET_def PCI_HEADER_TYPE_MASK_def
  PCI_HEADER_TYPE_NORMAL_def PCI_HEADER_TYPE_BRIDGE_def PCI_HEADER_TYPE_CARDBUS_def PCI_STATUS_CAP_LIST_def
  PCI_VENDOR_ID_INVALID_def PCI_BASE_ADDRESS_NUM_def PCI_BASE_ADDRESS_INVALID_def PCI_BASE_ADDRESS_SPACE_def
  PCI_BASE_ADDRESS_SPACE_IO_def PCI_BASE_ADDRESS_SPACE_MEMORY_def PCI_BASE_ADDRESS_MEM_TYPE_MASK_def
  PCI_BASE_ADDRESS_MEM_TYPE_64_def PCI_BASE_ADDRESS_MEM_MASK_def PCI_BASE_ADDRESS_IO_MASK_def
  PCI_COMMAND_MEMORY_def PCI_MAX_BUS_def PCI_MAX_DEVICE_def PCI_MAX_FUNCTION_def

definition PCI_CONF_ADDR :: "pci_dev_addr \<Rightarrow> u32 \<Rightarrow> u32" where
  "PCI_CONF_ADDR a off = 0x80000000 OR push_bit 16 (ucast (pa_bus a)) OR push_bit 11 (ucast (pa_device a)) OR
     push_bit 8 (ucast (pa_function a)) OR off"

definition pci_read_8 :: "'d hw \<Rightarrow> pci_dev_addr \<Rightarrow> u32 \<Rightarrow> ('d, u8) cfun" where
  "pci_read_8 hw a off = seq (out32 hw 0xCF8 (PCI_CONF_ADDR a off)) (in8 hw 0xCFC)"

definition pci_read_16 :: "'d hw \<Rightarrow> pci_dev_addr \<Rightarrow> u32 \<Rightarrow> ('d, u16) cfun" where
  "pci_read_16 hw a off = seq (out32 hw 0xCF8 (PCI_CONF_ADDR a off)) (in16 hw 0xCFC)"

definition pci_read_32 :: "'d hw \<Rightarrow> pci_dev_addr \<Rightarrow> u32 \<Rightarrow> ('d, u32) cfun" where
  "pci_read_32 hw a off = seq (out32 hw 0xCF8 (PCI_CONF_ADDR a off)) (in32 hw 0xCFC)"

definition pci_write_8 :: "'d hw \<Rightarrow> pci_dev_addr \<Rightarrow> u32 \<Rightarrow> u8 \<Rightarrow> ('d, unit) cfun" where
  "pci_write_8 hw a off v = seq (out32 hw 0xCF8 (PCI_CONF_ADDR a off)) (out8 hw 0xCFC v)"

definition pci_write_16 :: "'d hw \<Rightarrow> pci_dev_addr \<Rightarrow> u32 \<Rightarrow> u16 \<Rightarrow> ('d, unit) cfun" where
  "pci_write_16 hw a off v = seq (out32 hw 0xCF8 (PCI_CONF_ADDR a off)) (out16 hw 0xCFC v)"

definition pci_write_32 :: "'d hw \<Rightarrow> pci_dev_addr \<Rightarrow> u32 \<Rightarrow> u32 \<Rightarrow> ('d, unit) cfun" where
  "pci_write_32 hw a off v = seq (out32 hw 0xCF8 (PCI_CONF_ADDR a off)) (out32 hw 0xCFC v)"

section \<open>Devices\<close>

record pci_dev =
  pd_addr :: pci_dev_addr
  vendor_id :: u16
  device_id :: u16
  header_type :: u8

record pci_dev_id =
  id_vendor :: u16
  id_device :: u16

datatype pci_bar_type = PCI_BAR_IO | PCI_BAR_MEMORY

record pci_bar =
  bar_addr :: u64
  bar_type :: pci_bar_type

definition init_pci_dev :: "'d hw \<Rightarrow> pci_dev_addr \<Rightarrow> ('d, pci_dev) cfun" where
  "init_pci_dev hw a =
     bind (pci_read_16 hw a PCI_VENDOR_ID) (\<lambda>v.
     bind (pci_read_16 hw a PCI_DEVICE_ID) (\<lambda>i.
     bind (pci_read_8 hw a PCI_HEADER_TYPE) (\<lambda>t0.
       let t = t0 AND PCI_HEADER_TYPE_MASK in
       seq (CHECK (t = PCI_HEADER_TYPE_NORMAL \<or> t = PCI_HEADER_TYPE_BRIDGE \<or> t = PCI_HEADER_TYPE_CARDBUS))
         (ret \<lparr>pd_addr = a, vendor_id = v, device_id = i, header_type = t\<rparr>))))"

text \<open>
  The three loops of \<open>lookup_pci_dev\<close>: \<open>None\<close> is a loop that came to its end (or to its \<open>break\<close>) without
  a match.
\<close>

primrec lookup_functions :: "'d hw \<Rightarrow> pci_dev_id \<Rightarrow> nat \<Rightarrow> nat \<Rightarrow> nat list \<Rightarrow> ('d, pci_dev option) cfun" where
  "lookup_functions hw i bus device [] = ret None"
| "lookup_functions hw i bus device (f # fs) =
     (let a = \<lparr>pa_bus = of_nat bus, pa_device = of_nat device, pa_function = of_nat f\<rparr> in
      bind (pci_read_16 hw a PCI_VENDOR_ID) (\<lambda>v.
        if v = PCI_VENDOR_ID_INVALID then ret None
        else bind (pci_read_16 hw a PCI_DEVICE_ID) (\<lambda>d.
          if id_vendor i = v \<and> id_device i = d then bind (init_pci_dev hw a) (\<lambda>p. ret (Some p))
          else lookup_functions hw i bus device fs)))"

primrec lookup_devices :: "'d hw \<Rightarrow> pci_dev_id \<Rightarrow> nat \<Rightarrow> nat list \<Rightarrow> ('d, pci_dev option) cfun" where
  "lookup_devices hw i bus [] = ret None"
| "lookup_devices hw i bus (device # ds) =
     bind (lookup_functions hw i bus device [0..<PCI_MAX_FUNCTION]) (\<lambda>r.
       case r of Some p \<Rightarrow> ret (Some p) | None \<Rightarrow> lookup_devices hw i bus ds)"

primrec lookup_buses :: "'d hw \<Rightarrow> pci_dev_id \<Rightarrow> nat list \<Rightarrow> ('d, pci_dev option) cfun" where
  "lookup_buses hw i [] = ret None"
| "lookup_buses hw i (bus # bs) =
     bind (lookup_devices hw i bus [0..<PCI_MAX_DEVICE]) (\<lambda>r.
       case r of Some p \<Rightarrow> ret (Some p) | None \<Rightarrow> lookup_buses hw i bs)"

definition lookup_pci_dev :: "'d hw \<Rightarrow> pci_dev_id \<Rightarrow> ('d, pci_dev) cfun" where
  "lookup_pci_dev hw i =
     bind (lookup_buses hw i [0..<PCI_MAX_BUS]) (\<lambda>r.
       case r of Some p \<Rightarrow> ret p | None \<Rightarrow> throw ERR_INVALID)"

definition pci_get_bar :: "'d hw \<Rightarrow> pci_dev \<Rightarrow> u8 \<Rightarrow> ('d, pci_bar) cfun" where
  "pci_get_bar hw p bar_num =
     seq (CHECK (unat bar_num < PCI_BASE_ADDRESS_NUM))
     (bind (pci_read_32 hw (pd_addr p) (PCI_BASE_ADDRESS_0 + ucast bar_num * 4)) (\<lambda>bar.
      seq (CHECK (bar \<noteq> PCI_BASE_ADDRESS_INVALID))
      (bind (if bar AND PCI_BASE_ADDRESS_SPACE = PCI_BASE_ADDRESS_SPACE_IO
             then ret \<lparr>bar_addr = ucast bar AND PCI_BASE_ADDRESS_IO_MASK, bar_type = PCI_BAR_IO\<rparr>
             else if bar AND PCI_BASE_ADDRESS_SPACE = PCI_BASE_ADDRESS_SPACE_MEMORY
             then ret \<lparr>bar_addr = ucast bar AND PCI_BASE_ADDRESS_MEM_MASK, bar_type = PCI_BAR_MEMORY\<rparr>
             else throw ERR_INVALID) (\<lambda>out.
       if bar_type out = PCI_BAR_MEMORY \<and> bar AND PCI_BASE_ADDRESS_MEM_TYPE_MASK = PCI_BASE_ADDRESS_MEM_TYPE_64
       then seq (CHECK (unat bar_num + 1 < PCI_BASE_ADDRESS_NUM))
         (bind (pci_read_32 hw (pd_addr p) (PCI_BASE_ADDRESS_0 + (ucast bar_num + 1) * 4)) (\<lambda>bar_next.
          ret (out\<lparr>bar_addr := bar_addr out + push_bit 32 (ucast bar_next)\<rparr>)))
       else ret out))))"

section \<open>Capabilities\<close>

definition is_cap_valid :: "'d hw \<Rightarrow> pci_dev \<Rightarrow> u8 \<Rightarrow> ('d, bool) cfun" where
  "is_cap_valid hw p cap_off =
     (if cap_off < 0x40 then ret False
      else bind (pci_read_8 hw (pd_addr p) (ucast cap_off)) (\<lambda>cap_id. ret (cap_id \<noteq> 0xff)))"

definition pci_cap_iter_init :: "'d hw \<Rightarrow> pci_dev \<Rightarrow> ('d, u8) cfun" where
  "pci_cap_iter_init hw p =
     bind (pci_read_8 hw (pd_addr p) PCI_CAPABILITY_LIST) (\<lambda>first_cap_off.
     bind (is_cap_valid hw p first_cap_off) (\<lambda>ok. ret (if ok then first_cap_off else 0)))"

definition pci_cap_iter_next :: "'d hw \<Rightarrow> pci_dev \<Rightarrow> u8 \<Rightarrow> ('d, u8) cfun" where
  "pci_cap_iter_next hw p off =
     bind (pci_read_8 hw (pd_addr p) (ucast off + PCI_CAPABILITY_PTR_OFFSET)) (\<lambda>next_cap_off.
     bind (is_cap_valid hw p next_cap_off) (\<lambda>ok. ret (if ok then next_cap_off else 0)))"

text \<open>
  \<open>ITERATE_PCI_CAPABILITIES\<close> with a body that can \<open>continue\<close> (return) or leave with an error. The body
  runs on the state of its function, of which the device state is the component \<open>get\<close> with update \<open>put\<close>.
  The list comes from the device and may be a cycle, so the loop has fuel.
\<close>

primrec iterate_caps ::
  "nat \<Rightarrow> ('s \<Rightarrow> 'd) \<Rightarrow> ('d \<Rightarrow> 's \<Rightarrow> 's) \<Rightarrow> 'd hw \<Rightarrow> pci_dev \<Rightarrow> (u8 \<Rightarrow> ('s, unit) cfun) \<Rightarrow> u8 \<Rightarrow> ('s, unit) cfun" where
  "iterate_caps 0 get put hw p body off = faults Out_Of_Fuel"
| "iterate_caps (Suc n) get put hw p body off =
     (if off = 0 then ret ()
      else seq (body off) (bind (zoom get put (pci_cap_iter_next hw p off)) (iterate_caps n get put hw p body)))"

definition ITERATE_PCI_CAPABILITIES ::
  "nat \<Rightarrow> ('s \<Rightarrow> 'd) \<Rightarrow> ('d \<Rightarrow> 's \<Rightarrow> 's) \<Rightarrow> 'd hw \<Rightarrow> pci_dev \<Rightarrow> (u8 \<Rightarrow> ('s, unit) cfun) \<Rightarrow> ('s, unit) cfun" where
  "ITERATE_PCI_CAPABILITIES fuel get put hw p body =
     bind (zoom get put (pci_cap_iter_init hw p)) (iterate_caps fuel get put hw p body)"

section \<open>Configuration mechanism 1\<close>

text \<open>
  The PCI host bridge is hardware, so what it does is a hypothesis on the parameter: a doubleword written
  to port CF8 with bit 31 set selects a bus (bits 23 to 16), a device (15 to 11), a function (10 to 8)
  and a register (7 to 0), and a read of port CFC gives the bytes of that function's configuration space
  from there on. \<open>cfg d\<close> is the configuration space in device state \<open>d\<close>; reading does not change it.
\<close>

type_synonym config_space = "pci_dev_addr \<Rightarrow> nat \<Rightarrow> u8"

definition selected :: "u32 \<Rightarrow> pci_dev_addr" where
  "selected v = \<lparr>pa_bus = ucast (drop_bit 16 v), pa_device = ucast (take_bit 5 (drop_bit 11 v)),
                 pa_function = ucast (take_bit 3 (drop_bit 8 v))\<rparr>"

definition config_bytes :: "config_space \<Rightarrow> pci_dev_addr \<Rightarrow> nat \<Rightarrow> nat \<Rightarrow> u32" where
  "config_bytes c a r w = of_le (map (\<lambda>k. c a (r + k)) [0..<w])"

definition config_mechanism :: "'d hw \<Rightarrow> ('d \<Rightarrow> config_space) \<Rightarrow> bool" where
  "config_mechanism hw cfg \<longleftrightarrow> (\<forall>d v w. bit v 31 \<longrightarrow> w \<in> {1, 2, 4} \<longrightarrow>
     (case port_in hw w 0xCFC (port_out hw 4 0xCF8 v d) of (r, d') \<Rightarrow>
        r = config_bytes (cfg d) (selected v) (unat (take_bit 8 v)) w \<and> cfg d' = cfg d))"

definition valid_address :: "pci_dev_addr \<Rightarrow> bool" where
  "valid_address a \<longleftrightarrow> pa_device a < 32 \<and> pa_function a < 8"

lemma unat_power_two: "k < LENGTH('a) \<Longrightarrow> unat (2 ^ k :: 'a::len word) = 2 ^ k"
proof -
  assume "k < LENGTH('a)"
  then have "(2::nat) ^ k < 2 ^ LENGTH('a)" by simp
  then have "unat (of_nat (2 ^ k) :: 'a word) = 2 ^ k" by (simp only: unat_of_nat mod_less)
  then show ?thesis by simp
qed

lemma bit_of_small: "x < 2 ^ k \<Longrightarrow> k \<le> n \<Longrightarrow> \<not> bit (x :: 'a::len word) n"
proof
  assume a: "x < 2 ^ k" "k \<le> n" "bit x n"
  show False
  proof (cases "k < LENGTH('a)")
    case True
    then have "take_bit k x = x"
    proof -
      have "unat x < 2 ^ k"
        using a(1) True unat_power_two [OF True] by (simp only: word_less_nat_alt)
      then show ?thesis
        by (simp add: word_unat_eq_iff unsigned_take_bit_eq take_bit_nat_eq_self)
    qed
    then show False using a(2,3) by (metis bit_take_bit_iff not_less)
  next
    case False
    with a(2,3) show False using bit_imp_le_length le_trans by fastforce
  qed
qed

lemma conf_addr_selects:
  assumes "valid_address a" and "off < 256"
  shows "bit (PCI_CONF_ADDR a off) 31" "selected (PCI_CONF_ADDR a off) = a" "take_bit 8 (PCI_CONF_ADDR a off) = off"
proof -
  have small: "\<not> bit (pa_device a) n" if "5 \<le> n" for n
    using bit_of_small [of "pa_device a" 5 n] assms(1) that by (simp add: valid_address_def)
  have small': "\<not> bit (pa_function a) n" if "3 \<le> n" for n
    using bit_of_small [of "pa_function a" 3 n] assms(1) that by (simp add: valid_address_def)
  have small'': "\<not> bit off n" if "8 \<le> n" for n
    using bit_of_small [of off 8 n] assms(2) that by simp
  have top_bit: "bit (0x80000000 :: int) n \<longleftrightarrow> n = 31" for n
  proof -
    have "(0x80000000 :: int) = 2 ^ 31" by simp
    then show ?thesis by (simp only: bit_exp_iff) auto
  qed
  have conf: "bit (PCI_CONF_ADDR a off) n \<longleftrightarrow> n < 32 \<and> (n = 31 \<or> 16 \<le> n \<and> bit (pa_bus a) (n - 16) \<or>
      11 \<le> n \<and> bit (pa_device a) (n - 11) \<or> 8 \<le> n \<and> bit (pa_function a) (n - 8) \<or> bit off n)" for n
    by (auto simp: PCI_CONF_ADDR_def bit_simps top_bit dest: bit_imp_le_length)
  note small_bits = small small' small''
  have high: "\<not> bit (pa_bus a) n" if "8 \<le> n" for n
    using that bit_imp_le_length [of "pa_bus a" n] by auto
  show "bit (PCI_CONF_ADDR a off) 31"
    by (simp add: conf)
  show "take_bit 8 (PCI_CONF_ADDR a off) = off"
    using small_bits(3) by (intro bit_word_eqI) (auto simp: bit_take_bit_iff conf small_bits(1,2) not_le [symmetric])
  have "ucast (drop_bit 16 (PCI_CONF_ADDR a off)) = pa_bus a"
    by (rule bit_word_eqI) (auto simp: bit_ucast_iff bit_drop_bit_eq conf small_bits)
  moreover have "ucast (take_bit 5 (drop_bit 11 (PCI_CONF_ADDR a off))) = pa_device a"
    using small_bits(1) by (intro bit_word_eqI) (auto simp: bit_ucast_iff bit_drop_bit_eq bit_take_bit_iff conf small_bits(2,3) not_le [symmetric])
  moreover have "ucast (take_bit 3 (drop_bit 8 (PCI_CONF_ADDR a off))) = pa_function a"
    using small_bits(2) by (intro bit_word_eqI) (auto simp: bit_ucast_iff bit_drop_bit_eq bit_take_bit_iff conf small_bits(1,3) not_le [symmetric])
  ultimately show "selected (PCI_CONF_ADDR a off) = a"
    by (simp add: selected_def)
qed

lemma config_read:
  assumes "config_mechanism hw cfg" and "valid_address a" and "off < 256" and "w \<in> {1, 2, 4}"
  shows "fst (port_in hw w 0xCFC (port_out hw 4 0xCF8 (PCI_CONF_ADDR a off) d)) = config_bytes (cfg d) a (unat off) w"
    and "cfg (snd (port_in hw w 0xCFC (port_out hw 4 0xCF8 (PCI_CONF_ADDR a off) d))) = cfg d"
proof -
  have "bit (PCI_CONF_ADDR a off) 31 \<longrightarrow> w \<in> {1, 2, 4} \<longrightarrow>
     (case port_in hw w 0xCFC (port_out hw 4 0xCF8 (PCI_CONF_ADDR a off) d) of (r, d') \<Rightarrow>
        r = config_bytes (cfg d) (selected (PCI_CONF_ADDR a off)) (unat (take_bit 8 (PCI_CONF_ADDR a off))) w \<and> cfg d' = cfg d)"
    by (rule assms(1) [unfolded config_mechanism_def, THEN spec, THEN spec, THEN spec])
  moreover obtain r d' where "port_in hw w 0xCFC (port_out hw 4 0xCF8 (PCI_CONF_ADDR a off) d) = (r, d')"
    by (rule prod.exhaust)
  ultimately show "fst (port_in hw w 0xCFC (port_out hw 4 0xCF8 (PCI_CONF_ADDR a off) d)) = config_bytes (cfg d) a (unat off) w"
    and "cfg (snd (port_in hw w 0xCFC (port_out hw 4 0xCF8 (PCI_CONF_ADDR a off) d))) = cfg d"
    using conf_addr_selects [OF assms(2,3)] assms(4) by auto
qed

text \<open>What the three read functions return, in terms of the configuration space.\<close>

definition cfg8 :: "config_space \<Rightarrow> pci_dev_addr \<Rightarrow> u32 \<Rightarrow> u8" where
  "cfg8 c a off = c a (unat off)"

definition cfg16 :: "config_space \<Rightarrow> pci_dev_addr \<Rightarrow> u32 \<Rightarrow> u16" where
  "cfg16 c a off = of_le [c a (unat off), c a (unat off + 1)]"

definition cfg32 :: "config_space \<Rightarrow> pci_dev_addr \<Rightarrow> u32 \<Rightarrow> u32" where
  "cfg32 c a off = of_le [c a (unat off), c a (unat off + 1), c a (unat off + 2), c a (unat off + 3)]"

lemma config_bytes_cfg:
  "ucast (config_bytes c a (unat off) 1) = cfg8 c a off"
  "ucast (config_bytes c a (unat off) 2) = cfg16 c a off"
  "config_bytes c a (unat off) 4 = cfg32 c a off"
  by (simp_all add: config_bytes_def cfg8_def cfg16_def cfg32_def upt_rec numeral_eq_Suc ucast_of_le del: of_le.simps)
    simp

lemma wp_pci_read:
  assumes "config_mechanism hw cfg" and "valid_address a" and "off < 256"
  shows "(\<And>d'. cfg d' = cfg d \<Longrightarrow> Q8 (cfg8 (cfg d) a off) d') \<Longrightarrow> wp (pci_read_8 hw a off) Q8 E d"
    and "(\<And>d'. cfg d' = cfg d \<Longrightarrow> Q16 (cfg16 (cfg d) a off) d') \<Longrightarrow> wp (pci_read_16 hw a off) Q16 E d"
    and "(\<And>d'. cfg d' = cfg d \<Longrightarrow> Q32 (cfg32 (cfg d) a off) d') \<Longrightarrow> wp (pci_read_32 hw a off) Q32 E d"
  using config_read [OF assms, of 1 d] config_read [OF assms, of 2 d] config_read [OF assms, of 4 d]
  by (simp_all add: pci_read_8_def pci_read_16_def pci_read_32_def wp_simps config_bytes_cfg config_bytes_cfg(1) [unfolded One_nat_def])

section \<open>Base address registers\<close>

text \<open>The value a base address register holds, as the PCI specification decodes it.\<close>

definition bar_register :: "config_space \<Rightarrow> pci_dev_addr \<Rightarrow> nat \<Rightarrow> u32" where
  "bar_register c a i = cfg32 c a (of_nat (16 + 4 * i))"

definition decoded_bar :: "config_space \<Rightarrow> pci_dev_addr \<Rightarrow> nat \<Rightarrow> pci_bar" where
  "decoded_bar c a i =
     (let b = bar_register c a i in
      if bit b 0 then \<lparr>bar_addr = ucast b AND NOT 3, bar_type = PCI_BAR_IO\<rparr>
      else if b AND 6 = 4
      then \<lparr>bar_addr = (ucast b AND NOT 15) + push_bit 32 (ucast (bar_register c a (Suc i))), bar_type = PCI_BAR_MEMORY\<rparr>
      else \<lparr>bar_addr = ucast b AND NOT 15, bar_type = PCI_BAR_MEMORY\<rparr>)"

text \<open>When there is a decoding: a register with an address in it, and a second half for a 64-bit address.\<close>

definition bar_present :: "config_space \<Rightarrow> pci_dev_addr \<Rightarrow> nat \<Rightarrow> bool" where
  "bar_present c a i \<longleftrightarrow> i < 6 \<and> bar_register c a i \<noteq> 0xffffffff \<and>
     (\<not> bit (bar_register c a i) 0 \<and> bar_register c a i AND 6 = 4 \<longrightarrow> Suc i < 6)"

lemma and_one_bit: "(b AND 1 = 1) = bit (b :: u32) 0" "(b AND 1 = 0) = (\<not> bit (b :: u32) 0)"
  by (simp_all add: and_one_eq bit_0 odd_iff_mod_2_eq_one even_iff_mod_2_eq_zero)

lemma wp_pci_get_bar:
  assumes m: "config_mechanism hw cfg" and a: "valid_address (pd_addr p)"
    and Q: "\<And>d'. bar_present (cfg d) (pd_addr p) (unat bar_num) \<Longrightarrow> cfg d' = cfg d \<Longrightarrow>
      Q (decoded_bar (cfg d) (pd_addr p) (unat bar_num)) d'"
    and E: "\<And>d'. \<not> bar_present (cfg d) (pd_addr p) (unat bar_num) \<Longrightarrow> cfg d' = cfg d \<Longrightarrow> E d'"
  shows "wp (pci_get_bar hw p bar_num) Q E d"
proof (cases "unat bar_num < 6")
  case False
  then show ?thesis
    using E [of d] by (simp add: pci_get_bar_def wp_simps pci_consts bar_present_def)
next
  case True
  have off: "PCI_BASE_ADDRESS_0 + ucast bar_num * 4 = (of_nat (16 + 4 * unat bar_num) :: u32)"
    "PCI_BASE_ADDRESS_0 + (ucast bar_num + 1) * 4 = (of_nat (16 + 4 * Suc (unat bar_num)) :: u32)"
    by (simp_all add: pci_consts algebra_simps)
  have lt: "(of_nat (16 + 4 * n) :: u32) < 256" if "n < 7" for n
    using that by (simp add: word_less_nat_alt unat_of_nat del: of_nat_add of_nat_mult)
  show ?thesis
    unfolding pci_get_bar_def off
    apply (simp only: wp_simps PCI_BASE_ADDRESS_NUM_def True if_True)
    apply (rule wp_pci_read(3) [OF m a lt])
    subgoal using True by simp
    subgoal premises c1 for d1
    proof -
      define B where "B = cfg32 (cfg d) (pd_addr p) (of_nat (16 + 4 * unat bar_num))"
      have b: "bar_register (cfg d) (pd_addr p) (unat bar_num) = B"
        by (simp add: bar_register_def B_def)
      have space: "B AND 1 = (if bit B 0 then 1 else 0)"
        using and_one_bit [of B] by simp
      have dec: "decoded_bar (cfg d) (pd_addr p) (unat bar_num) = (if bit B 0 then \<lparr>bar_addr = ucast B AND NOT 3, bar_type = PCI_BAR_IO\<rparr>
        else if B AND 6 = 4 then \<lparr>bar_addr = (ucast B AND NOT 15) + push_bit 32 (ucast (bar_register (cfg d) (pd_addr p) (Suc (unat bar_num)))), bar_type = PCI_BAR_MEMORY\<rparr>
        else \<lparr>bar_addr = ucast B AND NOT 15, bar_type = PCI_BAR_MEMORY\<rparr>)"
        by (simp only: decoded_bar_def Let_def b)
      have nxt: "wp (pci_read_32 hw (pd_addr p) (of_nat (16 + 4 * Suc (unat bar_num)))) R E d1"
        if "Suc (unat bar_num) < 6"
          "\<And>d'. cfg d' = cfg d \<Longrightarrow> R (bar_register (cfg d) (pd_addr p) (Suc (unat bar_num))) d'" for R
        using that by (intro wp_pci_read(3) [OF m a lt]) (auto simp: c1 bar_register_def)
      have present: "bar_present (cfg d) (pd_addr p) (unat bar_num) \<longleftrightarrow>
          B \<noteq> 0xffffffff \<and> (\<not> bit B 0 \<and> B AND 6 = 4 \<longrightarrow> Suc (unat bar_num) < 6)"
        using True by (simp only: bar_present_def b simp_thms)
      note Q' = Q [OF _ c1, unfolded present dec] and E' = E [OF _ c1, unfolded present]
      consider "B = 0xffffffff" | "B \<noteq> 0xffffffff" "bit B 0" | "B \<noteq> 0xffffffff" "\<not> bit B 0" "B AND 6 = 4"
        | "B \<noteq> 0xffffffff" "\<not> bit B 0" "B AND 6 \<noteq> 4" by blast
      then show ?thesis
      proof cases
        case 1
        with E' show ?thesis unfolding B_def [symmetric] by (simp add: wp_simps pci_consts)
      next
        case 2
        with Q' show ?thesis unfolding B_def [symmetric] by (simp add: wp_simps pci_consts space)
      next
        case 3
        show ?thesis
        proof (cases "Suc (unat bar_num) < 6")
          case True
          with 3 Q [unfolded present dec] show ?thesis
            unfolding B_def [symmetric] by (simp add: wp_simps pci_consts space nxt [simplified])
        next
          case False
          with 3 E' show ?thesis
            unfolding B_def [symmetric] by (simp add: wp_simps pci_consts space)
        qed
      next
        case 4
        with Q' show ?thesis unfolding B_def [symmetric] by (simp add: wp_simps pci_consts space)
      qed
    qed
    done
qed

section \<open>Enumeration\<close>

text \<open>
  The functions that \<open>lookup_pci_dev\<close> looks at: function \<open>f\<close> of a device is looked at when it and every
  function before it answers, since the loop leaves a device at its first absent function.
\<close>

definition pci_function :: "nat \<Rightarrow> nat \<Rightarrow> nat \<Rightarrow> pci_dev_addr" where
  "pci_function b d f = \<lparr>pa_bus = of_nat b, pa_device = of_nat d, pa_function = of_nat f\<rparr>"

definition answers :: "config_space \<Rightarrow> pci_dev_addr \<Rightarrow> bool" where
  "answers c a \<longleftrightarrow> cfg16 c a PCI_VENDOR_ID \<noteq> PCI_VENDOR_ID_INVALID"

definition is_dev :: "config_space \<Rightarrow> pci_dev_id \<Rightarrow> pci_dev_addr \<Rightarrow> bool" where
  "is_dev c i a \<longleftrightarrow> cfg16 c a PCI_VENDOR_ID = id_vendor i \<and> cfg16 c a PCI_DEVICE_ID = id_device i"

definition seen_functions :: "config_space \<Rightarrow> nat \<Rightarrow> nat \<Rightarrow> pci_dev_addr list" where
  "seen_functions c b d = takeWhile (answers c) (map (pci_function b d) [0..<8])"

definition seen_devices :: "config_space \<Rightarrow> nat \<Rightarrow> pci_dev_addr list" where
  "seen_devices c b = concat (map (seen_functions c b) [0..<32])"

definition enumeration :: "config_space \<Rightarrow> pci_dev_addr list" where
  "enumeration c = concat (map (seen_devices c) [0..<256])"

definition known_header :: "config_space \<Rightarrow> pci_dev_addr \<Rightarrow> bool" where
  "known_header c a \<longleftrightarrow> cfg8 c a PCI_HEADER_TYPE AND 0x7f \<in> {0, 1, 2}"

definition dev_at :: "config_space \<Rightarrow> pci_dev_addr \<Rightarrow> pci_dev" where
  "dev_at c a = \<lparr>pd_addr = a, vendor_id = cfg16 c a PCI_VENDOR_ID, device_id = cfg16 c a PCI_DEVICE_ID,
     header_type = cfg8 c a PCI_HEADER_TYPE AND 0x7f\<rparr>"

lemma wp_init_pci_dev:
  assumes m: "config_mechanism hw cfg" and a: "valid_address a"
    and Q: "\<And>d'. known_header (cfg d) a \<Longrightarrow> cfg d' = cfg d \<Longrightarrow> Q (dev_at (cfg d) a) d'"
    and E: "\<And>d'. \<not> known_header (cfg d) a \<Longrightarrow> cfg d' = cfg d \<Longrightarrow> E d'"
  shows "wp (init_pci_dev hw a) Q E d"
proof -
  have small: "PCI_VENDOR_ID < 256" "PCI_DEVICE_ID < 256" "PCI_HEADER_TYPE < 256"
    by (simp_all add: pci_consts)
  show ?thesis
    unfolding init_pci_dev_def
    apply (simp only: wp_bind Let_def wp_seq wp_ret)
    apply (rule wp_pci_read(2) [OF m a small(1)], rule wp_pci_read(2) [OF m a small(2)], rule wp_pci_read(1) [OF m a small(3)])
    using Q E
    by (auto simp: wp_simps known_header_def dev_at_def PCI_HEADER_TYPE_MASK_def
        PCI_HEADER_TYPE_NORMAL_def PCI_HEADER_TYPE_BRIDGE_def PCI_HEADER_TYPE_CARDBUS_def)
qed

text \<open>The outcome of a scan of a list of functions: the first match, initialised, or nothing.\<close>

definition scan_result ::
  "config_space \<Rightarrow> pci_dev_id \<Rightarrow> pci_dev_addr list \<Rightarrow> (pci_dev option \<Rightarrow> bool) \<Rightarrow> bool \<Rightarrow> bool" where
  "scan_result c i as Q E = (case find (is_dev c i) as of None \<Rightarrow> Q None
     | Some a \<Rightarrow> if known_header c a then Q (Some (dev_at c a)) else E)"

lemma find_append: "find P (xs @ ys) = (case find P xs of None \<Rightarrow> find P ys | Some x \<Rightarrow> Some x)"
  by (induction xs) auto

lemma scan_result_append:
  "scan_result c i (xs @ ys) Q E = scan_result c i xs (\<lambda>r. case r of Some p \<Rightarrow> Q (Some p) | None \<Rightarrow> scan_result c i ys Q E) E"
  by (simp add: scan_result_def find_append split: option.splits)

lemma scan_result_mono:
  "scan_result c i as Q E \<Longrightarrow> (\<And>r. Q r \<Longrightarrow> Q' r) \<Longrightarrow> (E \<Longrightarrow> E') \<Longrightarrow> scan_result c i as Q' E'"
  by (auto simp: scan_result_def split: option.splits if_splits)

lemma valid_pci_function: "d < 32 \<Longrightarrow> f < 8 \<Longrightarrow> valid_address (pci_function b d f)"
  by (simp add: valid_address_def pci_function_def word_less_nat_alt unat_of_nat)

lemma wp_lookup_functions:
  assumes m: "config_mechanism hw cfg" and "device < 32" and "\<forall>f \<in> set fs. f < 8" and "cfg d = c"
    and "scan_result c i (takeWhile (answers c) (map (pci_function bus device) fs)) (\<lambda>r. \<forall>d'. cfg d' = c \<longrightarrow> Q r d') (\<forall>d'. cfg d' = c \<longrightarrow> E d')"
  shows "wp (lookup_functions hw i bus device fs) Q E d"
  using assms(3-)
proof (induction fs arbitrary: d)
  case Nil
  then show ?case by (simp add: wp_simps scan_result_def)
next
  case (Cons f fs)
  let ?a = "pci_function bus device f"
  have v: "valid_address ?a" using Cons.prems assms(2) by (simp add: valid_pci_function)
  have small: "PCI_VENDOR_ID < 256" "PCI_DEVICE_ID < 256"
    by (simp_all add: pci_consts)
  show ?case
    unfolding lookup_functions.simps Let_def pci_function_def [symmetric]
    apply (simp only: wp_bind)
    apply (rule wp_pci_read(2) [OF m v small(1)])
    subgoal premises c1 for d1
    proof (cases "answers c ?a")
      case False
      with Cons.prems c1 show ?thesis
        by (simp add: answers_def wp_simps scan_result_def)
    next
      case True
      note ans = this
      show ?thesis
      proof (cases "is_dev c i ?a")
        case True
        with ans Cons.prems c1 show ?thesis
          by (auto simp: answers_def is_dev_def wp_simps scan_result_def split: if_splits
              intro!: wp_pci_read(2) [OF m v small(2)] wp_init_pci_dev [OF m v])
      next
        case False
        with ans Cons.prems c1 show ?thesis
          by (auto simp: answers_def is_dev_def wp_simps scan_result_def
              intro!: wp_pci_read(2) [OF m v small(2)] Cons.IH)
      qed
    qed
    done
qed

lemma wp_lookup_devices:
  assumes m: "config_mechanism hw cfg" and "\<forall>x \<in> set ds. x < 32" and "cfg d = c"
    and "scan_result c i (concat (map (seen_functions c bus) ds)) (\<lambda>r. \<forall>d'. cfg d' = c \<longrightarrow> Q r d') (\<forall>d'. cfg d' = c \<longrightarrow> E d')"
  shows "wp (lookup_devices hw i bus ds) Q E d"
  using assms(2-)
proof (induction ds arbitrary: d)
  case Nil
  then show ?case by (simp add: wp_simps scan_result_def)
next
  case (Cons x ds)
  show ?case
    unfolding lookup_devices.simps wp_bind
    apply (rule wp_lookup_functions [OF m, where c = c])
    subgoal using Cons.prems by simp
    subgoal by (simp add: PCI_MAX_FUNCTION_def)
    subgoal using Cons.prems by simp
    subgoal premises step
    proof -
      have "scan_result c i (seen_functions c bus x) (\<lambda>r. case r of Some p \<Rightarrow> \<forall>d'. cfg d' = c \<longrightarrow> Q (Some p) d'
          | None \<Rightarrow> scan_result c i (concat (map (seen_functions c bus) ds)) (\<lambda>r. \<forall>d'. cfg d' = c \<longrightarrow> Q r d') (\<forall>d'. cfg d' = c \<longrightarrow> E d'))
          (\<forall>d'. cfg d' = c \<longrightarrow> E d')"
        using Cons.prems(3) by (simp add: scan_result_append)
      then show ?thesis
        unfolding PCI_MAX_FUNCTION_def seen_functions_def [symmetric]
        by (rule scan_result_mono) (use Cons.IH Cons.prems in \<open>auto simp: wp_simps split: option.splits\<close>)
    qed
    done
qed

lemma wp_lookup_buses:
  assumes m: "config_mechanism hw cfg" and "cfg d = c"
    and "scan_result c i (concat (map (seen_devices c) bs)) (\<lambda>r. \<forall>d'. cfg d' = c \<longrightarrow> Q r d') (\<forall>d'. cfg d' = c \<longrightarrow> E d')"
  shows "wp (lookup_buses hw i bs) Q E d"
  using assms(2-)
proof (induction bs arbitrary: d)
  case Nil
  then show ?case by (simp add: wp_simps scan_result_def)
next
  case (Cons b bs)
  show ?case
    unfolding lookup_buses.simps wp_bind
    apply (rule wp_lookup_devices [OF m, where c = c])
    subgoal by (simp add: PCI_MAX_DEVICE_def)
    subgoal using Cons.prems by simp
    subgoal premises step
    proof -
      have "scan_result c i (seen_devices c b) (\<lambda>r. case r of Some p \<Rightarrow> \<forall>d'. cfg d' = c \<longrightarrow> Q (Some p) d'
          | None \<Rightarrow> scan_result c i (concat (map (seen_devices c) bs)) (\<lambda>r. \<forall>d'. cfg d' = c \<longrightarrow> Q r d') (\<forall>d'. cfg d' = c \<longrightarrow> E d'))
          (\<forall>d'. cfg d' = c \<longrightarrow> E d')"
        using Cons.prems(2) by (simp add: scan_result_append)
      then show ?thesis
        unfolding PCI_MAX_DEVICE_def seen_devices_def [symmetric]
        by (rule scan_result_mono) (use Cons.IH Cons.prems in \<open>auto simp: wp_simps split: option.splits\<close>)
    qed
    done
qed

section \<open>Walking the capability list\<close>

definition cap_ok :: "config_space \<Rightarrow> pci_dev_addr \<Rightarrow> u8 \<Rightarrow> bool" where
  "cap_ok c a off \<longleftrightarrow> 0x40 \<le> off \<and> cfg8 c a (ucast off) \<noteq> 0xff"

text \<open>
  \<open>cap_list c a off xs\<close>: \<open>xs\<close> are the offsets met from \<open>off\<close> on, each the next pointer of the one before,
  up to the first that is not a capability. (The last byte of the space has no room for a pointer.)
\<close>

primrec cap_list :: "config_space \<Rightarrow> pci_dev_addr \<Rightarrow> u8 \<Rightarrow> u8 list \<Rightarrow> bool" where
  "cap_list c a off [] = (\<not> cap_ok c a off)"
| "cap_list c a off (x # xs) = (x = off \<and> off \<noteq> 0xff \<and> cap_ok c a off \<and> cap_list c a (cfg8 c a (ucast off + 1)) xs)"

lemma cap_list_unique: "cap_list c a off xs \<Longrightarrow> cap_list c a off ys \<Longrightarrow> xs = ys"
proof (induction xs arbitrary: off ys)
  case Nil
  then show ?case by (cases ys) auto
next
  case (Cons x xs)
  then show ?case by (cases ys) auto
qed

lemma cap_list_suffix: "cap_list c a off (us @ x # vs) \<Longrightarrow> cap_list c a x (x # vs)"
  by (induction us arbitrary: off) auto

lemma cap_list_distinct: "cap_list c a off xs \<Longrightarrow> distinct xs"
proof (rule ccontr)
  assume l: "cap_list c a off xs" and "\<not> distinct xs"
  then obtain us x vs ws where "xs = us @ [x] @ vs @ [x] @ ws"
    using not_distinct_decomp by metis
  with l have "cap_list c a x (x # vs @ x # ws)" "cap_list c a x (x # ws)"
    using cap_list_suffix [of c a off us x] cap_list_suffix [of c a off "us @ x # vs" x] by auto
  then have "x # vs @ x # ws = x # ws" by (rule cap_list_unique)
  then have "length (vs @ x # ws) = length ws" by simp
  then show False by simp
qed

lemma cap_list_bounds: "cap_list c a off xs \<Longrightarrow> set xs \<subseteq> {0x40..0xfe}"
proof (induction xs arbitrary: off)
  case (Cons x xs)
  then have x: "0x40 \<le> x" "x \<noteq> 0xff" by (auto simp: cap_ok_def)
  have "unat x \<noteq> 255" using x(2) by (auto simp: word_unat_eq_iff)
  moreover have "unat x < 256" using unsigned_less [of x, where ?'a = nat] by simp
  ultimately have "x \<le> 0xfe" by (simp add: word_le_nat_alt)
  with x Cons show ?case by auto
qed simp

lemma cap_list_length:
  assumes "cap_list c a off xs"
  shows "length xs < 192"
proof -
  have "unat ` set xs \<subseteq> {64..254}"
    using cap_list_bounds [OF assms] by (auto simp: word_le_nat_alt)
  then have "card (unat ` set xs) \<le> card {64..(254::nat)}"
    by (intro card_mono) auto
  moreover have "card (unat ` set xs) = length xs"
    using cap_list_distinct [OF assms] by (simp add: card_image inj_on_def word_unat_eq_iff distinct_card)
  ultimately show ?thesis by simp
qed

lemma wp_is_cap_valid:
  assumes m: "config_mechanism hw cfg" and a: "valid_address (pd_addr p)"
    and "\<And>d'. cfg d' = cfg d \<Longrightarrow> Q (cap_ok (cfg d) (pd_addr p) off) d'"
  shows "wp (is_cap_valid hw p off) Q E d"
proof -
  have "(ucast off :: u32) < 256"
    using unsigned_less [of off, where ?'a = nat] by (simp add: word_less_nat_alt unat_ucast_up)
  with assms(3) show ?thesis
    by (auto simp: is_cap_valid_def wp_simps cap_ok_def not_le [symmetric] intro!: wp_pci_read(1) [OF m a])
qed

lemma wp_cap_pointer:
  assumes m: "config_mechanism hw cfg" and a: "valid_address (pd_addr p)" and "r < 256"
    and Q: "\<And>d'. cfg d' = cfg d \<Longrightarrow> Q (if cap_ok (cfg d) (pd_addr p) (cfg8 (cfg d) (pd_addr p) r)
                    then cfg8 (cfg d) (pd_addr p) r else 0) d'"
  shows "wp (bind (pci_read_8 hw (pd_addr p) r) (\<lambda>o1. bind (is_cap_valid hw p o1) (\<lambda>ok. ret (if ok then o1 else 0)))) Q E d"
proof -
  have "cap_ok (cfg d) (pd_addr p) (cfg8 (cfg d) (pd_addr p) r) \<Longrightarrow> cfg d' = cfg d \<Longrightarrow> Q (cfg8 (cfg d) (pd_addr p) r) d'"
    "\<not> cap_ok (cfg d) (pd_addr p) (cfg8 (cfg d) (pd_addr p) r) \<Longrightarrow> cfg d' = cfg d \<Longrightarrow> Q 0 d'" for d'
    using Q [of d'] by simp_all
  then show ?thesis
    by (auto simp: wp_simps intro!: wp_pci_read(1) [OF m a \<open>r < 256\<close>] wp_is_cap_valid [OF m a])
qed

lemma ucast_offset: "off \<noteq> 0xff \<Longrightarrow> (ucast (off :: u8) + 1 :: u32) < 256"
proof -
  assume "off \<noteq> 0xff"
  then have "unat off \<noteq> 255" by (auto simp: word_unat_eq_iff)
  moreover have "unat off < 256" using unsigned_less [of off, where ?'a = nat] by simp
  ultimately have "unat (ucast off + 1 :: u32) = Suc (unat off)"
    by (simp add: unat_word_ariths unat_ucast_up)
  with \<open>unat off < 256\<close> \<open>unat off \<noteq> 255\<close> show ?thesis by (simp add: word_less_nat_alt)
qed

lemma wp_pci_cap_iter_next:
  assumes "config_mechanism hw cfg" and "valid_address (pd_addr p)" and "off \<noteq> 0xff"
    and "\<And>d'. cfg d' = cfg d \<Longrightarrow> Q (if cap_ok (cfg d) (pd_addr p) (cfg8 (cfg d) (pd_addr p) (ucast off + 1))
                    then cfg8 (cfg d) (pd_addr p) (ucast off + 1) else 0) d'"
  shows "wp (pci_cap_iter_next hw p off) Q E d"
  unfolding pci_cap_iter_next_def PCI_CAPABILITY_PTR_OFFSET_def
  by (rule wp_cap_pointer [OF assms(1,2) ucast_offset [OF assms(3)]]) (rule assms(4))

lemma wp_pci_cap_iter_init:
  assumes "config_mechanism hw cfg" and "valid_address (pd_addr p)"
    and "\<And>d'. cfg d' = cfg d \<Longrightarrow> Q (if cap_ok (cfg d) (pd_addr p) (cfg8 (cfg d) (pd_addr p) PCI_CAPABILITY_LIST)
                    then cfg8 (cfg d) (pd_addr p) PCI_CAPABILITY_LIST else 0) d'"
  shows "wp (pci_cap_iter_init hw p) Q E d"
proof -
  have "PCI_CAPABILITY_LIST < 256" by (simp add: PCI_CAPABILITY_LIST_def)
  then show ?thesis
    unfolding pci_cap_iter_init_def by (rule wp_cap_pointer [OF assms(1,2)]) (rule assms(3))
qed

text \<open>
  The rule of the loop, with an invariant over the offsets to come. The invariant must not depend on the
  part of the device state that a configuration read can change.
\<close>

lemma wp_iterate_caps:
  assumes m: "config_mechanism hw cfg" and a: "valid_address (pd_addr p)"
    and lens: "\<And>d s. get (put d s) = d"
    and stable: "\<And>ys s d. I ys s \<Longrightarrow> cfg d = c \<Longrightarrow> I ys (put d s)"
    and step: "\<And>x ys s. cfg (get s) = c \<Longrightarrow> I (x # ys) s \<Longrightarrow> wp (body x) (\<lambda>_ s'. cfg (get s') = c \<and> I ys s') E s"
    and stop: "\<And>s. cfg (get s) = c \<Longrightarrow> I [] s \<Longrightarrow> Q () s"
    and start: "cap_list c (pd_addr p) off0 xs" "off = (if xs = [] then 0 else off0)" "length xs < fuel" "cfg (get s) = c" "I xs s"
  shows "wp (iterate_caps fuel get put hw p body off) Q E s"
  using start
proof (induction fuel arbitrary: xs off0 off s)
  case 0
  then show ?case by simp
next
  case (Suc fuel)
  show ?case
  proof (cases xs)
    case Nil
    with Suc.prems stop show ?thesis by (simp add: wp_simps)
  next
    case (Cons x ys)
    with Suc.prems have x: "x = off" "off \<noteq> 0xff" "cap_ok c (pd_addr p) off" "cap_list c (pd_addr p) (cfg8 c (pd_addr p) (ucast off + 1)) ys"
      by auto
    have "off \<noteq> 0" using x(3) by (auto simp: cap_ok_def)
    have after: "wp (iterate_caps fuel get put hw p body (if cap_ok c (pd_addr p) (cfg8 c (pd_addr p) (ucast off + 1)) then cfg8 c (pd_addr p) (ucast off + 1) else 0))
        Q E s2" if "cfg (get s2) = c" "I ys s2" for s2
    proof (rule Suc.IH [OF x(4)])
      show "(if cap_ok c (pd_addr p) (cfg8 c (pd_addr p) (ucast off + 1)) then cfg8 c (pd_addr p) (ucast off + 1) else 0) =
        (if ys = [] then 0 else cfg8 c (pd_addr p) (ucast off + 1))"
        using x(4) by (cases ys) auto
    qed (use that Suc.prems Cons in auto)
    have rest: "wp (bind (zoom get put (pci_cap_iter_next hw p off)) (iterate_caps fuel get put hw p body)) Q E s1"
      if "cfg (get s1) = c" "I ys s1" for s1
      unfolding wp_bind wp_zoom
    proof (rule wp_pci_cap_iter_next [OF m a x(2)])
      fix d' assume "cfg d' = cfg (get s1)"
      with that(1) have c': "cfg d' = c" by simp
      show "wp (iterate_caps fuel get put hw p body (if cap_ok (cfg (get s1)) (pd_addr p) (cfg8 (cfg (get s1)) (pd_addr p) (ucast off + 1))
          then cfg8 (cfg (get s1)) (pd_addr p) (ucast off + 1) else 0)) Q E (put d' s1)"
        unfolding that(1) by (rule after) (use c' that(2) in \<open>simp_all add: lens stable\<close>)
    qed
    have "wp (body off) (\<lambda>_ s'. cfg (get s') = c \<and> I ys s') E s"
    proof (rule step)
      show "cfg (get s) = c" by (rule Suc.prems(4))
      show "I (off # ys) s" using Suc.prems(5) unfolding Cons x(1) .
    qed
    then have "wp (body off) (\<lambda>_. wp (bind (zoom get put (pci_cap_iter_next hw p off)) (iterate_caps fuel get put hw p body)) Q E) E s"
    proof (rule wp_mono, goal_cases)
      case (1 u s1)
      then show ?case by (intro rest) simp_all
    qed
    with \<open>off \<noteq> 0\<close> show ?thesis by (simp add: wp_bind wp_seq)
  qed
qed

lemma wp_ITERATE_PCI_CAPABILITIES:
  assumes m: "config_mechanism hw cfg" and a: "valid_address (pd_addr p)"
    and xs: "cap_list c (pd_addr p) (cfg8 c (pd_addr p) PCI_CAPABILITY_LIST) xs" and fuel: "192 \<le> fuel"
    and s: "cfg (get s) = c" "I xs s"
    and lens: "\<And>d s. get (put d s) = d"
    and stable: "\<And>ys s d. I ys s \<Longrightarrow> cfg d = c \<Longrightarrow> I ys (put d s)"
    and step: "\<And>x ys s. cfg (get s) = c \<Longrightarrow> I (x # ys) s \<Longrightarrow> wp (body x) (\<lambda>_ s'. cfg (get s') = c \<and> I ys s') E s"
    and stop: "\<And>s. cfg (get s) = c \<Longrightarrow> I [] s \<Longrightarrow> Q () s"
  shows "wp (ITERATE_PCI_CAPABILITIES fuel get put hw p body) Q E s"
proof -
  let ?off0 = "cfg8 c (pd_addr p) PCI_CAPABILITY_LIST"
  have first: "wp (iterate_caps fuel get put hw p body (if cap_ok c (pd_addr p) ?off0 then ?off0 else 0)) Q E (put d1 s)" if "cfg d1 = c" for d1
  proof (rule wp_iterate_caps [where I = I and cfg = cfg and c = c and xs = xs and ?off0.0 = ?off0])
    show "(if cap_ok c (pd_addr p) ?off0 then ?off0 else 0) = (if xs = [] then 0 else ?off0)"
      using xs by (cases xs) auto
    show "length xs < fuel" using cap_list_length [OF xs] fuel by simp
    show "cfg (get (put d1 s)) = c" "I xs (put d1 s)" using that s(2) by (simp_all add: lens stable)
  qed (fact m a lens stable step stop xs)+
  show ?thesis
    unfolding ITERATE_PCI_CAPABILITIES_def wp_bind wp_zoom
    by (intro wp_pci_cap_iter_init [OF m a]) (simp only: s(1), rule first)
qed

section \<open>Properties\<close>

text \<open>A host bridge to apply them to: a configuration space and the register behind port CF8.\<close>

definition bridge :: "(config_space \<times> u32) hw" where
  "bridge = \<lparr>port_in = (\<lambda>w port (c, v). (config_bytes c (selected v) (unat (take_bit 8 v)) w, (c, v))),
             port_out = (\<lambda>w port v (c, r). if w = 4 \<and> port = 0xCF8 then (c, v) else (c, r)),
             mmio_in = (\<lambda>w a s. (0, s)), mmio_out = (\<lambda>w a v s. s)\<rparr>"

lemma bridge_mechanism: "config_mechanism bridge fst"
  by (auto simp: config_mechanism_def bridge_def)

text \<open>A machine with one function, 00:00.0, a virtio block device with two capabilities and a 64-bit bar.\<close>

definition one_disk :: config_space where
  "one_disk a r = (if a = pci_function 0 0 0 then
     (if r = 0 then 0xf4 else if r = 1 then 0x1a else if r = 2 then 0x01 else if r = 3 then 0x10
      else if r = 0x10 then 0x0c else if r = 0x11 then 0x40 else if r = 0x14 then 0x01
      else if r = 0x34 then 0x50 else if r = 0x50 then 0x09 else if r = 0x51 then 0x60
      else if r = 0x60 then 0x09 else 0) else 0xff)"

text \<open>\<open>pci_get_bar\<close> returns the type and the address that a base address register encodes, joining the
  two halves of a 64-bit address, exactly when the register number is below 6, the register is
  implemented and a 64-bit address has its second half; otherwise it fails. Neither changes the
  configuration space.\<close>

theorem pci_get_bar_decodes:
  assumes "config_mechanism hw cfg" and "valid_address (pd_addr p)"
  shows "case pci_get_bar hw p n d of
      Returns b d' \<Rightarrow> bar_present (cfg d) (pd_addr p) (unat n) \<and> b = decoded_bar (cfg d) (pd_addr p) (unat n) \<and> cfg d' = cfg d
    | Throws e d' \<Rightarrow> \<not> bar_present (cfg d) (pd_addr p) (unat n) \<and> cfg d' = cfg d
    | Faults f \<Rightarrow> False"
  using wp_pci_get_bar [OF assms, of d n
      "\<lambda>b d'. bar_present (cfg d) (pd_addr p) (unat n) \<and> b = decoded_bar (cfg d) (pd_addr p) (unat n) \<and> cfg d' = cfg d"
      "\<lambda>d'. \<not> bar_present (cfg d) (pd_addr p) (unat n) \<and> cfg d' = cfg d"]
  by (simp add: wp_def)

theorem pci_get_bar_decodes_witness:
  "\<exists>d'. pci_get_bar bridge (dev_at one_disk (pci_function 0 0 0)) 0 (one_disk, 0) =
     Returns \<lparr>bar_addr = 0x100004000, bar_type = PCI_BAR_MEMORY\<rparr> d'"
proof -
  have r: "bar_register one_disk (pci_function 0 0 0) 0 = 0x400c" "bar_register one_disk (pci_function 0 0 0) (Suc 0) = 1"
    by (simp_all add: bar_register_def cfg32_def one_disk_def)
  then have "bar_present one_disk (pci_function 0 0 0) 0"
    "decoded_bar one_disk (pci_function 0 0 0) 0 = \<lparr>bar_addr = 0x100004000, bar_type = PCI_BAR_MEMORY\<rparr>"
    by (simp_all add: bar_present_def decoded_bar_def bit_0)
  then show ?thesis
    using pci_get_bar_decodes [OF bridge_mechanism, where p = "dev_at one_disk (pci_function 0 0 0)" and n = 0 and d = "(one_disk, 0)"]
    by (auto simp: dev_at_def valid_pci_function split: outcome.splits)
qed

text \<open>\<open>lookup_pci_dev\<close> finds the first function with the requested identifiers in the order bus, device,
  function, among those it looks at: a device is left at its first function that does not answer. It
  fails when there is none or when its header type is not known, and always comes to an end.\<close>

theorem lookup_pci_dev_first:
  assumes "config_mechanism hw cfg"
  shows "case lookup_pci_dev hw i d of
      Returns p d' \<Rightarrow> cfg d' = cfg d \<and> (\<exists>a. find (is_dev (cfg d) i) (enumeration (cfg d)) = Some a \<and>
        known_header (cfg d) a \<and> p = dev_at (cfg d) a)
    | Throws e d' \<Rightarrow> cfg d' = cfg d \<and> (\<forall>a. find (is_dev (cfg d) i) (enumeration (cfg d)) = Some a \<longrightarrow> \<not> known_header (cfg d) a)
    | Faults f \<Rightarrow> False"
proof -
  let ?Q = "\<lambda>p d'. cfg d' = cfg d \<and> (\<exists>a. find (is_dev (cfg d) i) (enumeration (cfg d)) = Some a \<and>
        known_header (cfg d) a \<and> p = dev_at (cfg d) a)"
  let ?E = "\<lambda>d'. cfg d' = cfg d \<and> (\<forall>a. find (is_dev (cfg d) i) (enumeration (cfg d)) = Some a \<longrightarrow> \<not> known_header (cfg d) a)"
  have "wp (lookup_pci_dev hw i) ?Q ?E d"
    unfolding lookup_pci_dev_def wp_bind
    by (rule wp_lookup_buses [OF assms refl])
      (simp add: PCI_MAX_BUS_def scan_result_def wp_simps flip: enumeration_def split: option.splits)
  then show ?thesis by (simp add: wp_def)
qed

lemma one_disk_first: "\<exists>rest. enumeration one_disk = pci_function 0 0 0 # rest"
proof -
  have "answers one_disk (pci_function 0 0 0)"
    by (simp add: answers_def cfg16_def one_disk_def pci_consts)
  then have "\<exists>r. seen_functions one_disk 0 0 = pci_function 0 0 0 # r"
    by (simp add: seen_functions_def upt_conv_Cons)
  then have "\<exists>r. seen_devices one_disk 0 = pci_function 0 0 0 # r"
    unfolding seen_devices_def by (subst upt_conv_Cons) auto
  then show ?thesis
    unfolding enumeration_def by (subst upt_conv_Cons) auto
qed

theorem lookup_pci_dev_first_witness:
  "\<exists>d'. lookup_pci_dev bridge \<lparr>id_vendor = 0x1af4, id_device = 0x1001\<rparr> (one_disk, 0) =
     Returns (dev_at one_disk (pci_function 0 0 0)) d'"
proof -
  obtain rest where "enumeration one_disk = pci_function 0 0 0 # rest" using one_disk_first by blast
  moreover have "is_dev one_disk \<lparr>id_vendor = 0x1af4, id_device = 0x1001\<rparr> (pci_function 0 0 0)"
    "known_header one_disk (pci_function 0 0 0)"
    by (simp_all add: is_dev_def known_header_def cfg16_def cfg8_def one_disk_def pci_consts)
  ultimately show ?thesis
    using lookup_pci_dev_first [OF bridge_mechanism, where i = "\<lparr>id_vendor = 0x1af4, id_device = 0x1001\<rparr>" and d = "(one_disk, 0)"]
    by (auto split: outcome.splits)
qed

text \<open>On a device whose capability list ends, \<open>ITERATE_PCI_CAPABILITIES\<close> runs its body on every capability
  of the list, in order and once, and comes to an end within 192 rounds.\<close>

theorem capabilities_visited:
  assumes "config_mechanism hw cfg" and "valid_address (pd_addr p)"
    and "cap_list (cfg d) (pd_addr p) (cfg8 (cfg d) (pd_addr p) PCI_CAPABILITY_LIST) xs"
  shows "\<exists>d'. ITERATE_PCI_CAPABILITIES 192 fst (\<lambda>d s. (d, snd s)) hw p (\<lambda>off. modify (\<lambda>(d, seen). (d, seen @ [off]))) (d, []) =
    Returns () (d', xs) \<and> cfg d' = cfg d"
proof -
  have "wp (ITERATE_PCI_CAPABILITIES 192 fst (\<lambda>d s. (d, snd s)) hw p (\<lambda>off. modify (\<lambda>(d, seen). (d, seen @ [off]))))
      (\<lambda>_ s. snd s = xs \<and> cfg (fst s) = cfg d) (\<lambda>_. False) (d, [])"
    by (rule wp_ITERATE_PCI_CAPABILITIES [OF assms, where I = "\<lambda>ys s. snd s @ ys = xs"]) (auto simp: wp_simps)
  then show ?thesis by (auto simp: wp_returns_iff)
qed

theorem capabilities_visited_witness:
  "\<exists>d'. ITERATE_PCI_CAPABILITIES 192 fst (\<lambda>d s. (d, snd s)) bridge (dev_at one_disk (pci_function 0 0 0))
     (\<lambda>off. modify (\<lambda>(d, seen). (d, seen @ [off]))) ((one_disk, 0), []) = Returns () (d', [0x50, 0x60])"
  using capabilities_visited [OF bridge_mechanism, of "dev_at one_disk (pci_function 0 0 0)" "(one_disk, 0)" "[0x50, 0x60]"]
  by (simp add: dev_at_def valid_pci_function cap_ok_def cfg8_def PCI_CAPABILITY_LIST_def) (auto simp: one_disk_def)

end
