(* ===== verification/Machine.thy ===== *)
theory Machine
  imports Alloc CoreHeader Pci
begin

text \<open>
  The state core runs on: its header, physical memory, the allocators, the virtio block device's driver
  structure, the three arrays of its split virtqueue, and the state of the hardware. The arrays are
  shared with the device; they are typed lists here instead of bytes, and an access outside of them is
  undefined behaviour. \<open>waking_out\<close> is the variable \<open>kernel_waking_vector\<close> of \<open>core_main\<close>, to which the dump
  functions get a pointer. What is not code of the repository (the hardware, the addresses the linker and
  the stack give) is the record \<open>platform\<close>, a parameter.
\<close>

section \<open>The driver's structures\<close>

record virtio_queue =
  q_num :: u16
  q_size :: u16
  seen_used :: u16
  notify_off :: u64
  free_head :: u16
  q_desc :: u64
  q_avail :: u64
  q_used :: u64

record virtio_blk_dev =
  blk_pci_dev :: pci_dev
  common_cfg :: u64
  queue :: virtio_queue
  notify_cap_off :: u64
  notify_multiplier :: u32
  status :: u8
  features :: u64

record virtq_desc =
  vd_addr :: u64
  vd_len :: u32
  vd_flags :: u16
  vd_next :: u16

record virtq_used_elem =
  used_id :: u32
  used_len :: u32

text \<open>\<open>struct virtq_avail\<close> and \<open>struct virtq_used\<close> with the table of descriptors, where the device sees them.\<close>

record virtqueue =
  vq_desc :: "virtq_desc list"
  avail_flags :: u16
  avail_idx :: u16
  avail_ring :: "u16 list"
  used_flags :: u16
  used_idx :: u16
  used_ring :: "virtq_used_elem list"

record 'd machine =
  g_core_header :: core_header
  mem :: memory
  heap :: heap
  blk :: virtio_blk_dev
  vq :: virtqueue
  waking_out :: u32
  dev :: 'd

text \<open>
  \<open>device_step\<close> is what the device does on its own to memory, to the virtqueue and to itself between two
  looks of the driver at the used ring. \<open>wait_fuel\<close> bounds the number of looks and \<open>cap_fuel\<close> the length
  of a capability list; \<open>dump_header_at\<close> and \<open>switch_buf_at\<close> are where the variables \<open>header\<close> and
  \<open>switch_buf\<close> of \<^verbatim>\<open>core/dump.c\<close> are.
\<close>

record 'd platform =
  hardware :: "'d hw"
  device_step :: "memory \<times> virtqueue \<times> 'd \<Rightarrow> memory \<times> virtqueue \<times> 'd"
  wait_fuel :: nat
  cap_fuel :: nat
  dump_header_at :: u64
  switch_buf_at :: u64

section \<open>Statements on parts of the state\<close>

definition on_dev :: "('d, 'a) cfun \<Rightarrow> ('d machine, 'a) cfun" where
  "on_dev = zoom dev (\<lambda>d s. s\<lparr>dev := d\<rparr>)"

definition upd_queue :: "(virtio_queue \<Rightarrow> virtio_queue) \<Rightarrow> 'd machine \<Rightarrow> 'd machine" where
  "upd_queue f s = s\<lparr>blk := (blk s)\<lparr>queue := f (queue (blk s))\<rparr>\<rparr>"

definition upd_vq :: "(virtqueue \<Rightarrow> virtqueue) \<Rightarrow> 'd machine \<Rightarrow> 'd machine" where
  "upd_vq f s = s\<lparr>vq := f (vq s)\<rparr>"

definition calloc :: "u64 \<Rightarrow> u64 \<Rightarrow> ('d machine, u64) cfun" where
  "calloc count n = stateful (\<lambda>s. case core_calloc count n (heap s, mem s) of (p, h, m) \<Rightarrow> (p, s\<lparr>heap := h, mem := m\<rparr>))"

definition free_at :: "u64 \<Rightarrow> ('d machine, unit) cfun" where
  "free_at p = modify (\<lambda>s. s\<lparr>heap := core_free p (heap s)\<rparr>)"

definition read_desc :: "u16 \<Rightarrow> ('d machine, virtq_desc) cfun" where
  "read_desc i = bind (gets (vq_desc \<circ> vq)) (\<lambda>ds. seq (defined_if (unat i < length ds)) (ret (ds ! unat i)))"

definition upd_desc :: "u16 \<Rightarrow> (virtq_desc \<Rightarrow> virtq_desc) \<Rightarrow> ('d machine, unit) cfun" where
  "upd_desc i f = bind (read_desc i) (\<lambda>d. modify (upd_vq (\<lambda>v. v\<lparr>vq_desc := (vq_desc v)[unat i := f d]\<rparr>)))"

lemma wp_on_dev [wp_simps]: "wp (on_dev m) Q E s = wp m (\<lambda>a d. Q a (s\<lparr>dev := d\<rparr>)) (\<lambda>d. E (s\<lparr>dev := d\<rparr>)) (dev s)"
  by (simp add: on_dev_def wp_simps)

lemma wp_calloc [wp_simps]:
  "wp (calloc count n) Q E s = (case core_calloc count n (heap s, mem s) of (p, h, m) \<Rightarrow> Q p (s\<lparr>heap := h, mem := m\<rparr>))"
  by (simp add: calloc_def wp_simps split: prod.splits)

lemma wp_free_at [wp_simps]: "wp (free_at p) Q E s = Q () (s\<lparr>heap := core_free p (heap s)\<rparr>)"
  by (simp add: free_at_def wp_simps)

lemma wp_read_desc [wp_simps]:
  "wp (read_desc i) Q E s = (unat i < length (vq_desc (vq s)) \<and> Q (vq_desc (vq s) ! unat i) s)"
  by (simp add: read_desc_def wp_simps)

lemma wp_upd_desc [wp_simps]:
  "wp (upd_desc i f) Q E s = (unat i < length (vq_desc (vq s)) \<and>
     Q () (upd_vq (\<lambda>v. v\<lparr>vq_desc := (vq_desc v)[unat i := f (vq_desc v ! unat i)]\<rparr>) s))"
  by (simp add: upd_desc_def wp_simps upd_vq_def)

lemma upd_queue_simps [simp]:
  "queue (blk (upd_queue f s)) = f (queue (blk s))" "vq (upd_queue f s) = vq s" "heap (upd_queue f s) = heap s"
  "mem (upd_queue f s) = mem s" "waking_out (upd_queue f s) = waking_out s" "dev (upd_queue f s) = dev s" "g_core_header (upd_queue f s) = g_core_header s"
  "blk_pci_dev (blk (upd_queue f s)) = blk_pci_dev (blk s)" "common_cfg (blk (upd_queue f s)) = common_cfg (blk s)"
  "notify_cap_off (blk (upd_queue f s)) = notify_cap_off (blk s)" "notify_multiplier (blk (upd_queue f s)) = notify_multiplier (blk s)"
  "status (blk (upd_queue f s)) = status (blk s)" "features (blk (upd_queue f s)) = features (blk s)"
  by (simp_all add: upd_queue_def)

lemma upd_vq_simps [simp]:
  "vq (upd_vq f s) = f (vq s)" "blk (upd_vq f s) = blk s" "heap (upd_vq f s) = heap s"
  "mem (upd_vq f s) = mem s" "waking_out (upd_vq f s) = waking_out s" "dev (upd_vq f s) = dev s" "g_core_header (upd_vq f s) = g_core_header s"
  by (simp_all add: upd_vq_def)

end
