(* ===== verification/VirtQueue.thy ===== *)
theory VirtQueue
  imports Machine
begin

text \<open>
  The split virtqueue of the virtio block device, \<^verbatim>\<open>core/drivers/virtio/virtio_queue.c\<close>: its set-up, the list
  of free descriptors linked through their \<open>next\<close> fields, and the used ring.
\<close>

definition VIRTIO_INVALID_FREE_HEAD :: u16 where "VIRTIO_INVALID_FREE_HEAD = 0xffff"
definition VIRTIO_INVALID_DESC :: u16 where "VIRTIO_INVALID_DESC = 0xffff"
definition VIRTIO_INVALID_QUEUE_SIZE :: u16 where "VIRTIO_INVALID_QUEUE_SIZE = 0xffff"
definition VIRTQ_DESC_F_NEXT :: u16 where "VIRTQ_DESC_F_NEXT = 1"
definition VIRTQ_DESC_F_WRITE :: u16 where "VIRTQ_DESC_F_WRITE = 2"
definition VIRTQ_AVAIL_F_NO_INTERRUPT :: u16 where "VIRTQ_AVAIL_F_NO_INTERRUPT = 1"

text \<open>The fields of \<open>struct virtio_pci_common_cfg\<close>, as offsets.\<close>

definition cfg_device_feature_select :: u64 where "cfg_device_feature_select = 0"
definition cfg_device_feature :: u64 where "cfg_device_feature = 4"
definition cfg_driver_feature_select :: u64 where "cfg_driver_feature_select = 8"
definition cfg_driver_feature :: u64 where "cfg_driver_feature = 12"
definition cfg_device_status :: u64 where "cfg_device_status = 20"
definition cfg_queue_select :: u64 where "cfg_queue_select = 22"
definition cfg_queue_size :: u64 where "cfg_queue_size = 24"
definition cfg_queue_enable :: u64 where "cfg_queue_enable = 28"
definition cfg_queue_notify_off :: u64 where "cfg_queue_notify_off = 30"
definition cfg_queue_desc :: u64 where "cfg_queue_desc = 32"
definition cfg_queue_driver :: u64 where "cfg_queue_driver = 40"
definition cfg_queue_device :: u64 where "cfg_queue_device = 48"

lemmas common_cfg_layout [layout_simps] =
  cfg_device_feature_select_def cfg_device_feature_def cfg_driver_feature_select_def cfg_driver_feature_def
  cfg_device_status_def cfg_queue_select_def cfg_queue_size_def cfg_queue_enable_def cfg_queue_notify_off_def
  cfg_queue_desc_def cfg_queue_driver_def cfg_queue_device_def

section \<open>Set-up\<close>

definition configure_queue_ptrs :: "'d platform \<Rightarrow> u64 \<Rightarrow> virtio_queue \<Rightarrow> ('d machine, unit) cfun" where
  "configure_queue_ptrs P cfg q =
     seq (on_dev (write_mb16 (hardware P) (cfg + cfg_queue_select) (q_num q)))
    (seq (on_dev (write32 (hardware P) (cfg + cfg_queue_desc) (ucast (q_desc q))))
    (seq (on_dev (write32 (hardware P) (cfg + cfg_queue_desc + 4) (ucast (drop_bit 32 (q_desc q)))))
    (seq (on_dev (write32 (hardware P) (cfg + cfg_queue_driver) (ucast (q_avail q))))
    (seq (on_dev (write32 (hardware P) (cfg + cfg_queue_driver + 4) (ucast (drop_bit 32 (q_avail q)))))
    (seq (on_dev (write32 (hardware P) (cfg + cfg_queue_device) (ucast (q_used q))))
         (on_dev (write32 (hardware P) (cfg + cfg_queue_device + 4) (ucast (drop_bit 32 (q_used q))))))))))"

definition init_queue_notify_off :: "'d platform \<Rightarrow> ('d machine, unit) cfun" where
  "init_queue_notify_off P =
     bind (gets blk) (\<lambda>b.
     seq (CHECK (notify_cap_off b \<noteq> 0))
     (bind (on_dev (read16 (hardware P) (common_cfg b + cfg_queue_notify_off))) (\<lambda>off.
      modify (upd_queue (\<lambda>q. q\<lparr>notify_off := notify_cap_off b + ucast ((ucast off :: u32) * notify_multiplier b)\<rparr>)))))"

text \<open>
  The three allocations. A block that has been allocated and zeroed is from then on the typed array of
  \<open>virtqueue\<close>.
\<close>

definition alloc_virtqueue :: "u16 \<Rightarrow> ('d machine, unit) cfun" where
  "alloc_virtqueue n =
     seq (bind (calloc 16 (ucast n)) (\<lambda>p. modify (upd_queue (\<lambda>q. q\<lparr>q_desc := p\<rparr>) \<circ>
         upd_vq (\<lambda>v. if p = 0 then v else v\<lparr>vq_desc := replicate (unat n) \<lparr>vd_addr = 0, vd_len = 0, vd_flags = 0, vd_next = 0\<rparr>\<rparr>))))
    (seq (bind (gets (q_desc \<circ> queue \<circ> blk)) (\<lambda>p. CHECK (p \<noteq> 0)))
    (seq (bind (calloc (4 + 2 * ucast n) 1) (\<lambda>p. modify (upd_queue (\<lambda>q. q\<lparr>q_avail := p\<rparr>) \<circ>
         upd_vq (\<lambda>v. if p = 0 then v else v\<lparr>avail_flags := 0, avail_idx := 0, avail_ring := replicate (unat n) 0\<rparr>))))
    (seq (bind (gets (q_avail \<circ> queue \<circ> blk)) (\<lambda>p. CHECK (p \<noteq> 0)))
    (seq (bind (calloc (4 + 8 * ucast n) 1) (\<lambda>p. modify (upd_queue (\<lambda>q. q\<lparr>q_used := p\<rparr>) \<circ>
         upd_vq (\<lambda>v. if p = 0 then v
                     else v\<lparr>used_flags := 0, used_idx := 0, used_ring := replicate (unat n) \<lparr>used_id = 0, used_len = 0\<rparr>\<rparr>))))
         (bind (gets (q_used \<circ> queue \<circ> blk)) (\<lambda>p. CHECK (p \<noteq> 0)))))))"

text \<open>
  The second half of \<open>init_virtio_blk_queue\<close>, after the allocations: the flag, the device's pointers, the
  loop that links every descriptor to the next, and the queue's enabling.
\<close>

definition fill_virtqueue :: "'d platform \<Rightarrow> u64 \<Rightarrow> u16 \<Rightarrow> ('d machine, unit) cfun" where
  "fill_virtqueue P cfg n =
     seq (modify (upd_vq (\<lambda>v. v\<lparr>avail_flags := avail_flags v OR VIRTQ_AVAIL_F_NO_INTERRUPT\<rparr>)))
    (seq (bind (gets (queue \<circ> blk)) (\<lambda>q. configure_queue_ptrs P cfg q))
    (seq (for_each [0..<unat n] (\<lambda>i. upd_desc (of_nat i) (\<lambda>d. d\<lparr>vd_next := of_nat i + 1\<rparr>)))
    (seq (upd_desc (n - 1) (\<lambda>d. d\<lparr>vd_next := VIRTIO_INVALID_FREE_HEAD\<rparr>))
    (seq (modify (upd_queue (\<lambda>q. q\<lparr>free_head := 0\<rparr>)))
    (seq (modify (upd_queue (\<lambda>q. q\<lparr>seen_used := 0\<rparr>)))
    (seq (init_queue_notify_off P)
         (on_dev (write_mb16 (hardware P) (cfg + cfg_queue_enable) 1))))))))"

definition init_virtio_blk_queue :: "'d platform \<Rightarrow> ('d machine, unit) cfun" where
  "init_virtio_blk_queue P = on_error
     (bind (gets blk) (\<lambda>b.
      seq (on_dev (write_mb16 (hardware P) (common_cfg b + cfg_queue_select) (q_num (queue b))))
      (bind (on_dev (read16 (hardware P) (common_cfg b + cfg_queue_size))) (\<lambda>n.
       seq (CHECK (n \<noteq> VIRTIO_INVALID_QUEUE_SIZE \<and> n > 0))
      (seq (modify (upd_queue (\<lambda>q. q\<lparr>q_size := n\<rparr>)))
      (seq (alloc_virtqueue n)
           (fill_virtqueue P (common_cfg b) n)))))))
     (seq (bind (gets (queue \<circ> blk)) (\<lambda>q. free_at (q_desc q)))
     (seq (bind (gets (queue \<circ> blk)) (\<lambda>q. free_at (q_avail q)))
          (bind (gets (queue \<circ> blk)) (\<lambda>q. free_at (q_used q)))))"

section \<open>Descriptors\<close>

definition alloc_queue_desc :: "('d machine, u16) cfun" where
  "alloc_queue_desc =
     bind (gets (free_head \<circ> queue \<circ> blk)) (\<lambda>head.
     seq (CHECK (head \<noteq> VIRTIO_INVALID_FREE_HEAD))
     (bind (read_desc head) (\<lambda>d.
      seq (modify (upd_queue (\<lambda>q. q\<lparr>free_head := vd_next d\<rparr>)))
          (ret head))))"

definition free_queue_desc :: "u16 \<Rightarrow> ('d machine, unit) cfun" where
  "free_queue_desc desc =
     bind (gets (queue \<circ> blk)) (\<lambda>q.
       if desc = VIRTIO_INVALID_DESC \<or> desc \<ge> q_size q then ret ()
       else seq (upd_desc desc (\<lambda>d. d\<lparr>vd_next := free_head q\<rparr>))
            (modify (upd_queue (\<lambda>q. q\<lparr>free_head := desc\<rparr>))))"

definition is_unseen_used_virtio_queue :: "('d machine, bool) cfun" where
  "is_unseen_used_virtio_queue = gets (\<lambda>s. seen_used (queue (blk s)) \<noteq> used_idx (vq s))"

definition pop_used_virtio_queue :: "('d machine, u16 \<times> u32) cfun" where
  "pop_used_virtio_queue =
     bind is_unseen_used_virtio_queue (\<lambda>unseen.
     seq (CHECK unseen)
     (bind (gets (queue \<circ> blk)) (\<lambda>q. bind (gets (used_ring \<circ> vq)) (\<lambda>ring.
      seq (defined_if (q_size q \<noteq> 0 \<and> unat (seen_used q mod q_size q) < length ring))
      (let e = ring ! unat (seen_used q mod q_size q) in
       seq (modify (upd_queue (\<lambda>q. q\<lparr>seen_used := seen_used q + 1\<rparr>)))
           (ret (ucast (used_id e), used_len e)))))))"

section \<open>The list of free descriptors\<close>

text \<open>A queue that has been set up: the three arrays have as many entries as the queue has descriptors.\<close>

definition queue_wf :: "'d machine \<Rightarrow> bool" where
  "queue_wf s \<longleftrightarrow> (let n = q_size (queue (blk s)) in
     0 < n \<and> n \<noteq> VIRTIO_INVALID_QUEUE_SIZE \<and> length (vq_desc (vq s)) = unat n \<and>
     length (avail_ring (vq s)) = unat n \<and> length (used_ring (vq s)) = unat n)"

definition next_desc :: "virtq_desc list \<Rightarrow> u16 \<Rightarrow> u16" where
  "next_desc ds i = vd_next (ds ! unat i)"

definition desc_holds :: "'d machine \<Rightarrow> u16 list \<Rightarrow> bool" where
  "desc_holds s xs \<longleftrightarrow> queue_wf s \<and> chain VIRTIO_INVALID_FREE_HEAD (next_desc (vq_desc (vq s))) (free_head (queue (blk s))) xs \<and>
     (\<forall>x \<in> set xs. unat x < length (vq_desc (vq s)))"

definition desc_owns :: "'d machine \<Rightarrow> u16 \<Rightarrow> bool" where
  "desc_owns s x \<longleftrightarrow> unat x < length (vq_desc (vq s))"

definition desc_take :: "'d machine \<Rightarrow> u16 option \<times> 'd machine" where
  "desc_take s = (case alloc_queue_desc s of Returns x s' \<Rightarrow> (Some x, s') | Throws e s' \<Rightarrow> (None, s') | Faults f \<Rightarrow> (None, s))"

definition desc_put :: "u16 \<Rightarrow> 'd machine \<Rightarrow> 'd machine" where
  "desc_put x s = (case free_queue_desc x s of Returns u s' \<Rightarrow> s' | Throws e s' \<Rightarrow> s' | Faults f \<Rightarrow> s)"

lemma queue_wf_bounds:
  assumes "queue_wf s" and "unat x < length (vq_desc (vq s))"
  shows "x \<noteq> VIRTIO_INVALID_DESC" "\<not> x \<ge> q_size (queue (blk s))"
proof -
  have n: "length (vq_desc (vq s)) = unat (q_size (queue (blk s)))"
    using assms(1) by (simp add: queue_wf_def Let_def)
  with assms(2) show "\<not> x \<ge> q_size (queue (blk s))" by (simp add: word_le_nat_alt)
  have "unat (q_size (queue (blk s))) < 65536"
    using unsigned_less [of "q_size (queue (blk s))", where ?'a = nat] by simp
  with n assms(2) show "x \<noteq> VIRTIO_INVALID_DESC" by (auto simp: VIRTIO_INVALID_DESC_def)
qed

lemma alloc_queue_desc_first:
  assumes "desc_holds s (x # xs)"
  shows "alloc_queue_desc s = Returns x (upd_queue (\<lambda>q. q\<lparr>free_head := next_desc (vq_desc (vq s)) x\<rparr>) s)"
proof -
  have "wp alloc_queue_desc (\<lambda>r t. r = x \<and> t = upd_queue (\<lambda>q. q\<lparr>free_head := next_desc (vq_desc (vq s)) x\<rparr>) s) (\<lambda>_. False) s"
    using assms by (auto simp: alloc_queue_desc_def wp_simps desc_holds_def next_desc_def)
  then show ?thesis by (auto simp: wp_returns_iff)
qed

lemma alloc_queue_desc_empty:
  assumes "desc_holds s []"
  shows "alloc_queue_desc s = Throws ERR_INVALID s"
  using assms
  by (simp add: alloc_queue_desc_def desc_holds_def bind_def seq_def gets_def CHECK_def throw_def)

lemma free_queue_desc_owned:
  assumes "queue_wf s" and "unat x < length (vq_desc (vq s))"
  shows "free_queue_desc x s = Returns () (upd_queue (\<lambda>q. q\<lparr>free_head := x\<rparr>)
    (upd_vq (\<lambda>v. v\<lparr>vq_desc := (vq_desc v)[unat x := (vq_desc v ! unat x)\<lparr>vd_next := free_head (queue (blk s))\<rparr>]\<rparr>) s))"
proof -
  have "wp (free_queue_desc x) (\<lambda>_ t. t = upd_queue (\<lambda>q. q\<lparr>free_head := x\<rparr>)
    (upd_vq (\<lambda>v. v\<lparr>vq_desc := (vq_desc v)[unat x := (vq_desc v ! unat x)\<lparr>vd_next := free_head (queue (blk s))\<rparr>]\<rparr>) s)) (\<lambda>_. False) s"
    using assms queue_wf_bounds [OF assms] by (simp add: free_queue_desc_def wp_simps)
  then show ?thesis by (auto simp: wp_returns_iff)
qed

lemma queue_wf_upd [simp]:
  "queue_wf (upd_queue (\<lambda>q. q\<lparr>free_head := x\<rparr>) s) = queue_wf s"
  "length (vq_desc (f (vq s))) = length (vq_desc (vq s)) \<Longrightarrow> avail_ring (f (vq s)) = avail_ring (vq s) \<Longrightarrow>
   used_ring (f (vq s)) = used_ring (vq s) \<Longrightarrow> queue_wf (upd_vq f s) = queue_wf s"
  by (simp_all add: queue_wf_def Let_def)

lemma chain_next_desc_upd:
  assumes "x \<notin> set xs" and "unat x < length ds"
  shows "chain e (next_desc (ds[unat x := d])) p xs = chain e (next_desc ds) p xs"
  using assms by (intro chain_cong) (auto simp: next_desc_def nth_list_update word_unat_eq_iff [symmetric])

interpretation desc_pool: element_pool desc_take desc_put desc_holds desc_owns
proof (unfold_locales, goal_cases)
  case (1 s)
  then show ?case by (simp add: desc_take_def alloc_queue_desc_empty)
next
  case (2 s x xs)
  then show ?case
    by (auto simp: desc_take_def alloc_queue_desc_first desc_holds_def desc_owns_def fun_eq_iff)
next
  case (3 s xs x)
  then have w: "queue_wf s" "unat x < length (vq_desc (vq s))"
    by (auto simp: desc_holds_def desc_owns_def)
  have "x \<noteq> VIRTIO_INVALID_FREE_HEAD"
    using queue_wf_bounds(1) [OF w] by (simp add: VIRTIO_INVALID_FREE_HEAD_def VIRTIO_INVALID_DESC_def)
  with 3 w show ?case
    by (auto simp: desc_put_def free_queue_desc_owned desc_holds_def desc_owns_def fun_eq_iff
        chain_next_desc_upd next_desc_def [of "(vq_desc (vq s))[unat x := d]" x for d])
next
  case (4 s xs)
  then show ?case by (auto simp: desc_holds_def intro: chain_distinct)
next
  case (5 s xs x)
  then show ?case by (simp add: desc_holds_def desc_owns_def)
qed

section \<open>What the set-up builds\<close>

text \<open>The table of descriptors after the loop has linked its first \<open>k\<close> entries.\<close>

definition linked :: "nat \<Rightarrow> virtq_desc list \<Rightarrow> virtq_desc list" where
  "linked k ds = map (\<lambda>i. (ds ! i)\<lparr>vd_next := of_nat i + 1\<rparr>) [0..<k] @ drop k ds"

lemma length_linked [simp]: "k \<le> length ds \<Longrightarrow> length (linked k ds) = length ds"
  by (simp add: linked_def)

lemma linked_Suc:
  "k < length ds \<Longrightarrow> (linked k ds)[k := (linked k ds ! k)\<lparr>vd_next := of_nat k + 1\<rparr>] = linked (Suc k) ds"
  by (simp add: linked_def nth_append list_update_append flip: Cons_nth_drop_Suc)

lemma wp_link_loop:
  assumes n: "length (vq_desc (vq s)) = unat (n :: u16)"
    and Q: "Q () (upd_vq (\<lambda>v. v\<lparr>vq_desc := linked (unat n) (vq_desc v)\<rparr>) s)"
  shows "wp (for_each [0..<unat n] (\<lambda>i. upd_desc (of_nat i) (\<lambda>d. d\<lparr>vd_next := of_nat i + 1\<rparr>))) Q E s"
proof (rule wp_for_each_inv [where I = "\<lambda>ys t. \<exists>k\<le>unat n. ys = [k..<unat n] \<and> t = upd_vq (\<lambda>v. v\<lparr>vq_desc := linked k (vq_desc v)\<rparr>) s"])
  show "\<exists>k\<le>unat n. [0..<unat n] = [k..<unat n] \<and> s = upd_vq (\<lambda>v. v\<lparr>vq_desc := linked k (vq_desc v)\<rparr>) s"
    by (rule exI [of _ 0]) (simp add: linked_def upd_vq_def)
next
  fix x ys t
  assume "\<exists>k\<le>unat n. x # ys = [k..<unat n] \<and> t = upd_vq (\<lambda>v. v\<lparr>vq_desc := linked k (vq_desc v)\<rparr>) s"
  then obtain k where k': "x # ys = [k..<unat n]" and t: "t = upd_vq (\<lambda>v. v\<lparr>vq_desc := linked k (vq_desc v)\<rparr>) s"
    by (elim exE conjE)
  from k' have k: "k < unat n" "x = k" "ys = [Suc k..<unat n]"
    by (cases "k < unat n"; simp add: upt_conv_Cons)+
  have "unat (of_nat k :: u16) = k"
    using k(1) unsigned_less [of n, where ?'a = nat] by (simp add: unat_of_nat)
  moreover have "(linked k (vq_desc (vq s)))[k := (linked k (vq_desc (vq s)) ! k)\<lparr>vd_next := of_nat k + 1\<rparr>] = linked (Suc k) (vq_desc (vq s))"
    by (rule linked_Suc) (simp add: n k(1))
  ultimately have "wp (upd_desc (of_nat k) (\<lambda>d. d\<lparr>vd_next := of_nat k + 1\<rparr>))
      (\<lambda>_ t. ys = [Suc k..<unat n] \<and> t = upd_vq (\<lambda>v. v\<lparr>vq_desc := linked (Suc k) (vq_desc v)\<rparr>) s) E t"
    using k t n by (simp add: wp_simps upd_vq_def)
  then show "wp (upd_desc (of_nat x) (\<lambda>d. d\<lparr>vd_next := of_nat x + 1\<rparr>))
      (\<lambda>_ t. \<exists>k\<le>unat n. ys = [k..<unat n] \<and> t = upd_vq (\<lambda>v. v\<lparr>vq_desc := linked k (vq_desc v)\<rparr>) s) E t"
    unfolding k(2) by (rule wp_mono) (use k(1) in \<open>auto intro: exI [of _ "Suc k"]\<close>)
next
  fix t
  assume "\<exists>k\<le>unat n. [] = [k..<unat n] \<and> t = upd_vq (\<lambda>v. v\<lparr>vq_desc := linked k (vq_desc v)\<rparr>) s"
  then obtain k where k: "k \<le> unat n" "[] = [k..<unat n]" and t: "t = upd_vq (\<lambda>v. v\<lparr>vq_desc := linked k (vq_desc v)\<rparr>) s"
    by (elim exE conjE)
  from k have "k = unat n" by (cases "k < unat n") (simp_all add: upt_conv_Cons)
  with Q t show "Q () t" by simp
qed

text \<open>The linked table, its last entry terminated, holds all descriptors in ascending order.\<close>

lemma chain_linked:
  assumes n: "length ds = unat n" "0 < n" "n \<noteq> VIRTIO_INVALID_QUEUE_SIZE" and "k < unat n"
  defines "ts \<equiv> (linked (unat n) ds)[unat (n - 1) := (linked (unat n) ds ! unat (n - 1))\<lparr>vd_next := VIRTIO_INVALID_FREE_HEAD\<rparr>]"
  shows "chain VIRTIO_INVALID_FREE_HEAD (next_desc ts) (of_nat k) (map of_nat [k..<unat n])"
  using assms(4)
proof (induction "unat n - k" arbitrary: k)
  case 0
  then show ?case by simp
next
  case (Suc m)
  have n16: "unat n < 65535" "0 < unat n" "unat (n - 1) = unat n - 1"
  proof -
    have "unat n < 65536" "unat n \<noteq> unat (0xffff :: u16)"
      using unsigned_less [of n, where ?'a = nat] n(3) by (auto simp: VIRTIO_INVALID_QUEUE_SIZE_def word_unat_eq_iff)
    then show "unat n < 65535" by simp
    show "0 < unat n" using n(2) by (simp add: word_less_nat_alt)
    then show "unat (n - 1) = unat n - 1" by (simp add: unat_minus_one unat_gt_0)
  qed
  have k: "unat (of_nat k :: u16) = k" using Suc.prems n16(1) by (simp add: unat_of_nat)
  have lk: "linked (unat n) ds ! i = (ds ! i)\<lparr>vd_next := of_nat i + 1\<rparr>" if "i < unat n" for i
    using that n(1) by (simp add: linked_def nth_append)
  have e: "of_nat k \<noteq> VIRTIO_INVALID_FREE_HEAD"
    using k Suc.prems n16(1) by (auto simp: VIRTIO_INVALID_FREE_HEAD_def)
  show ?case
  proof (cases "Suc k < unat n")
    case True
    then have "next_desc ts (of_nat k) = of_nat (Suc k)"
      using k lk n(1) n16 by (simp add: next_desc_def ts_def nth_list_update add.commute)
    moreover have "chain VIRTIO_INVALID_FREE_HEAD (next_desc ts) (of_nat (Suc k)) (map of_nat [Suc k..<unat n])"
      by (rule Suc.hyps(1)) (use Suc.hyps(2) True in auto)
    moreover have "[k..<unat n] = k # [Suc k..<unat n]" using True by (simp add: upt_conv_Cons)
    ultimately show ?thesis using e by (simp only: list.map chain.simps simp_thms)
  next
    case False
    with Suc.prems have "k = unat n - 1" "[k..<unat n] = [k]" by (simp_all add: upt_conv_Cons)
    moreover from this have "next_desc ts (of_nat k) = VIRTIO_INVALID_FREE_HEAD"
      using k n(1) n16 by (simp add: next_desc_def ts_def)
    ultimately show ?thesis using e by simp
  qed
qed

text \<open>The three allocations keep the rest of the state, and on success the arrays have \<open>n\<close> entries.\<close>

lemma wp_alloc_virtqueue:
  assumes "\<And>t. length (vq_desc (vq t)) = unat n \<Longrightarrow> length (avail_ring (vq t)) = unat n \<Longrightarrow> length (used_ring (vq t)) = unat n \<Longrightarrow>
      avail_idx (vq t) = 0 \<Longrightarrow> used_idx (vq t) = 0 \<Longrightarrow> dev t = dev s \<Longrightarrow> q_size (queue (blk t)) = q_size (queue (blk s)) \<Longrightarrow>
      q_num (queue (blk t)) = q_num (queue (blk s)) \<Longrightarrow> q_desc (queue (blk t)) \<noteq> 0 \<Longrightarrow> q_avail (queue (blk t)) \<noteq> 0 \<Longrightarrow>
      q_used (queue (blk t)) \<noteq> 0 \<Longrightarrow> common_cfg (blk t) = common_cfg (blk s) \<Longrightarrow> notify_cap_off (blk t) = notify_cap_off (blk s) \<Longrightarrow>
      notify_multiplier (blk t) = notify_multiplier (blk s) \<Longrightarrow> Q () t"
    and "\<And>t. E t"
  shows "wp (alloc_virtqueue n) Q E s"
  by (auto simp: alloc_virtqueue_def wp_simps assms split: prod.splits)

lemma linked_holds:
  assumes "0 < n" "n \<noteq> VIRTIO_INVALID_QUEUE_SIZE" "length (vq_desc (vq t)) = unat n" "length (avail_ring (vq t)) = unat n"
      "length (used_ring (vq t)) = unat n" "q_size (queue (blk t)) = n" "free_head (queue (blk t)) = 0"
      "vq_desc (vq t) = (linked (unat n) ds)[unat (n - 1) := (linked (unat n) ds ! unat (n - 1))\<lparr>vd_next := VIRTIO_INVALID_FREE_HEAD\<rparr>]"
      "length ds = unat n"
  shows "desc_holds t (map of_nat [0..<unat n])"
proof -
  have "unat (of_nat i :: u16) < unat n" if "i < unat n" for i
    using that unsigned_less [of n, where ?'a = nat] by (simp add: unat_of_nat)
  moreover have "0 < unat n" using assms(1) by (simp add: word_less_nat_alt)
  ultimately show ?thesis
    using assms chain_linked [OF assms(9,1,2), of 0]
    by (simp add: desc_holds_def queue_wf_def Let_def)
qed

lemma wp_fill_virtqueue:
  assumes n: "0 < n" "n \<noteq> VIRTIO_INVALID_QUEUE_SIZE" and "length (vq_desc (vq s)) = unat n"
    and "length (avail_ring (vq s)) = unat n" and "length (used_ring (vq s)) = unat n" and "q_size (queue (blk s)) = n"
    and "avail_idx (vq s) = 0" and "used_idx (vq s) = 0"
    and Q: "\<And>t. desc_holds t (map of_nat [0..<unat n]) \<Longrightarrow> q_size (queue (blk t)) = n \<Longrightarrow> avail_idx (vq t) = 0 \<Longrightarrow> used_idx (vq t) = 0 \<Longrightarrow>
      seen_used (queue (blk t)) = 0 \<Longrightarrow> Q () t"
    and E: "\<And>t. E t"
  shows "wp (fill_virtqueue P cfg n) Q E s"
proof -
  have last: "unat (n - 1) < unat n" using n(1) by (simp add: unat_minus_one word_less_nat_alt unat_gt_0)
  show ?thesis
    unfolding fill_virtqueue_def configure_queue_ptrs_def init_queue_notify_off_def wp_seq wp_bind wp_modify wp_gets wp_on_dev wp_write
    apply (rule wp_link_loop)
    subgoal using assms by simp
    subgoal using assms(3) last
      by (auto simp: wp_simps E assms(4-) intro!: Q linked_holds [OF n, where ds = "vq_desc (vq s)"])
    done
qed

lemma wp_init_virtio_blk_queue:
  assumes "\<And>t. desc_holds t (map of_nat [0..<unat (q_size (queue (blk t)))]) \<Longrightarrow> avail_idx (vq t) = 0 \<Longrightarrow> used_idx (vq t) = 0 \<Longrightarrow>
      seen_used (queue (blk t)) = 0 \<Longrightarrow> Q () t"
    and "\<And>t. E t"
  shows "wp (init_virtio_blk_queue P) Q E s"
  unfolding init_virtio_blk_queue_def
  by (auto simp: wp_simps assms(2) intro!: wp_alloc_virtqueue wp_fill_virtqueue assms(1))

section \<open>Properties\<close>

text \<open>C30: On any hardware, \<open>init_virtio_blk_queue\<close> comes to an end without leaving its arrays; when it succeeds,
  every descriptor of the queue is on the free list, once and in ascending order, and both rings are
  empty.\<close>

theorem init_virtio_blk_queue_free_list:
  "case init_virtio_blk_queue P s of
     Returns u t \<Rightarrow> desc_holds t (map of_nat [0..<unat (q_size (queue (blk t)))]) \<and>
       avail_idx (vq t) = 0 \<and> used_idx (vq t) = 0 \<and> seen_used (queue (blk t)) = 0
   | Throws e t \<Rightarrow> True
   | Faults f \<Rightarrow> False"
  using wp_init_virtio_blk_queue [of "\<lambda>_ t. desc_holds t (map of_nat [0..<unat (q_size (queue (blk t)))]) \<and>
       avail_idx (vq t) = 0 \<and> used_idx (vq t) = 0 \<and> seen_used (queue (blk t)) = 0" "\<lambda>_. True" P s]
  by (simp add: wp_def)

text \<open>On a queue whose free list is \<open>xs\<close>, \<open>alloc_queue_desc\<close> hands out the first descriptor of \<open>xs\<close>, or
  fails without a change when there is none; giving a descriptor that is not free back makes it the
  first one, and giving the allocated one back restores the list.\<close>

theorem queue_descriptors:
  assumes "desc_holds s xs"
  shows "(case xs of [] \<Rightarrow> alloc_queue_desc s = Throws ERR_INVALID s
      | y # ys \<Rightarrow> \<exists>t. alloc_queue_desc s = Returns y t \<and> desc_holds t ys \<and> (\<exists>u. free_queue_desc y t = Returns () u \<and> desc_holds u xs)) \<and>
    (\<forall>x. unat x < unat (q_size (queue (blk s))) \<and> x \<notin> set xs \<longrightarrow> (\<exists>t. free_queue_desc x s = Returns () t \<and> desc_holds t (x # xs)))"
proof (intro conjI allI impI)
  have len: "length (vq_desc (vq s)) = unat (q_size (queue (blk s)))" and wf: "queue_wf s"
    using assms by (auto simp: desc_holds_def queue_wf_def Let_def)
  show "\<exists>t. free_queue_desc x s = Returns () t \<and> desc_holds t (x # xs)"
    if "unat x < unat (q_size (queue (blk s))) \<and> x \<notin> set xs" for x
    using that desc_pool.put_first [OF assms, of x] free_queue_desc_owned [OF wf, of x] len
    by (simp add: desc_owns_def desc_put_def)
  show "case xs of [] \<Rightarrow> alloc_queue_desc s = Throws ERR_INVALID s
      | y # ys \<Rightarrow> \<exists>t. alloc_queue_desc s = Returns y t \<and> desc_holds t ys \<and> (\<exists>u. free_queue_desc y t = Returns () u \<and> desc_holds u xs)"
  proof (cases xs)
    case Nil
    with assms alloc_queue_desc_empty show ?thesis by simp
  next
    case (Cons y ys)
    then obtain t where t: "alloc_queue_desc s = Returns y t" "desc_holds t ys"
      using assms desc_pool.take_first [of s y ys] alloc_queue_desc_first [of s y ys] by (auto simp: desc_take_def)
    then have "desc_holds (desc_put y t) xs"
      using desc_pool.take_put_restores [OF assms, of y t] by (simp add: desc_take_def)
    moreover have "unat y < length (vq_desc (vq t))"
      using assms Cons t(1) alloc_queue_desc_first [of s y ys] by (auto simp: desc_holds_def)
    then have "\<exists>u. free_queue_desc y t = Returns () u"
      using t(2) free_queue_desc_owned [of t y] by (auto simp: desc_holds_def)
    ultimately show ?thesis
      using t Cons by (auto simp: desc_put_def)
  qed
qed

text \<open>A queue of four descriptors, all of them free, on a machine with one pool of blocks.\<close>

definition example_queue :: virtio_queue where
  "example_queue = \<lparr>q_num = 0, q_size = 4, seen_used = 0, notify_off = 0x9000, free_head = 0, q_desc = 0x2000, q_avail = 0x3000, q_used = 0x4000\<rparr>"

definition example_vq :: virtqueue where
  "example_vq = \<lparr>vq_desc = map (\<lambda>i. \<lparr>vd_addr = 0, vd_len = 0, vd_flags = 0, vd_next = i\<rparr>) [1, 2, 3, 0xffff],
     avail_flags = 1, avail_idx = 0, avail_ring = [0, 0, 0, 0],
     used_flags = 0, used_idx = 0, used_ring = replicate 4 \<lparr>used_id = 0, used_len = 0\<rparr>\<rparr>"

definition example_pci_dev :: pci_dev where
  "example_pci_dev = \<lparr>pd_addr = pci_function 0 3 0, vendor_id = 0x1af4, device_id = 0x1001, header_type = 0\<rparr>"

definition example_header :: core_header where
  "example_header = \<lparr>hdr_magic = 0x12345678, hdr_action = 1, hdr_facs = 0x8000, hdr_rsdp = 0x7000,
     hdr_disk_pci = \<lparr>disk_bus = 0, disk_device = 3, disk_function = 0, disk_bars = replicate 6 0\<rparr>,
     ram_areas_size = 2, ram_areas = \<lparr>area_start = 0x100000, area_size = 0x1000\<rparr> # \<lparr>area_start = 0x200000, area_size = 0x800\<rparr> #
       replicate 62 \<lparr>area_start = 0, area_size = 0\<rparr>\<rparr>"

definition example_machine :: "'d \<Rightarrow> 'd machine" where
  "example_machine d = \<lparr>g_core_header = example_header, mem = (\<lambda>a. if a = 0x8028 then 0x10 else ucast a), heap = small_heap,
     blk = \<lparr>blk_pci_dev = example_pci_dev, common_cfg = 0xa000, queue = example_queue, notify_cap_off = 0x9000,
            notify_multiplier = 0, status = 15, features = 0\<rparr>,
     vq = example_vq, waking_out = 0, dev = d\<rparr>"

lemma example_desc_holds: "desc_holds (example_machine d) [0, 1, 2, 3]"
  by (simp add: desc_holds_def queue_wf_def example_machine_def example_queue_def example_vq_def next_desc_def
      VIRTIO_INVALID_FREE_HEAD_def VIRTIO_INVALID_QUEUE_SIZE_def)

theorem queue_descriptors_witness:
  "\<exists>t. alloc_queue_desc (example_machine ()) = Returns 0 t \<and> desc_holds t [1, 2, 3] \<and>
     (\<exists>u. free_queue_desc 0 t = Returns () u \<and> desc_holds u [0, 1, 2, 3])"
  using queue_descriptors [OF example_desc_holds, THEN conjunct1] by simp

text \<open>C32: A finding. When the device offers no usable queue size, \<open>init_virtio_blk_queue\<close> fails before it has
  set the queue's pointers, and its error path frees whatever those three fields held.\<close>

theorem init_virtio_blk_queue_frees_unset:
  assumes "fst (mmio_in (hardware P) 2 (common_cfg (blk s) + cfg_queue_size)
      (mmio_out (hardware P) 2 (common_cfg (blk s) + cfg_queue_select) (ucast (q_num (queue (blk s)))) (dev s))) = 0"
  shows "\<exists>t. init_virtio_blk_queue P s = Throws ERR_INVALID t \<and>
    heap t = core_free (q_used (queue (blk s))) (core_free (q_avail (queue (blk s))) (core_free (q_desc (queue (blk s))) (heap s)))"
proof -
  have "wp (init_virtio_blk_queue P) (\<lambda>_ _. False) (\<lambda>t. heap t =
      core_free (q_used (queue (blk s))) (core_free (q_avail (queue (blk s))) (core_free (q_desc (queue (blk s))) (heap s)))) s"
    unfolding init_virtio_blk_queue_def using assms by (simp add: wp_simps)
  then show ?thesis
    by (cases "init_virtio_blk_queue P s") (auto simp: wp_def intro: err_t.exhaust)
qed

definition example_platform :: "'d hw \<Rightarrow> (memory \<times> virtqueue \<times> 'd \<Rightarrow> memory \<times> virtqueue \<times> 'd) \<Rightarrow> 'd platform" where
  "example_platform hw step = \<lparr>hardware = hw, device_step = step, wait_fuel = 8, cap_fuel = 192,
     dump_header_at = 0x20000, switch_buf_at = 0x1000000\<rparr>"

theorem init_virtio_blk_queue_frees_unset_witness:
  "\<exists>t. init_virtio_blk_queue (example_platform bridge id) (example_machine (one_disk, 0)) = Throws ERR_INVALID t \<and>
    heap t = core_free 0x4000 (core_free 0x3000 (core_free 0x2000 small_heap))"
  using init_virtio_blk_queue_frees_unset [of "example_platform bridge id" "example_machine (one_disk, 0)"]
  by (simp add: example_platform_def bridge_def example_machine_def example_queue_def)

end
