(* ===== verification/VirtBlk.thy ===== *)
theory VirtBlk
  imports VirtQueue
begin

text \<open>
  The virtio block driver, \<^verbatim>\<open>core/drivers/virtio/virtio_blk.c\<close>: initialisation of the device and the
  requests that read and write sectors.
\<close>

section \<open>Constants\<close>

definition VIRTIO_BLK_REQUESTED_FEATURES :: u64 where "VIRTIO_BLK_REQUESTED_FEATURES = 0"
definition VIRTIO_BLK_VENDOR_ID :: u16 where "VIRTIO_BLK_VENDOR_ID = 0x1AF4"
definition VIRTIO_BLK_DEVICE_ID :: u16 where "VIRTIO_BLK_DEVICE_ID = 0x1001"
definition VIRTIO_PCI_CAP_COMMON_CFG :: u8 where "VIRTIO_PCI_CAP_COMMON_CFG = 1"
definition VIRTIO_PCI_CAP_NOTIFY_CFG :: u8 where "VIRTIO_PCI_CAP_NOTIFY_CFG = 2"
definition VIRTIO_PCI_CAP_VENDOR :: u8 where "VIRTIO_PCI_CAP_VENDOR = 9"
definition valid_cfg_types :: "u8 list" where "valid_cfg_types = [1, 2, 3, 4, 5, 8, 9]"
definition VIRTIO_STATUS_RESET :: u8 where "VIRTIO_STATUS_RESET = 0"
definition VIRTIO_STATUS_ACKNOWLEDGE :: u8 where "VIRTIO_STATUS_ACKNOWLEDGE = 1"
definition VIRTIO_STATUS_DRIVER :: u8 where "VIRTIO_STATUS_DRIVER = 2"
definition VIRTIO_STATUS_DRIVER_OK :: u8 where "VIRTIO_STATUS_DRIVER_OK = 4"
definition VIRTIO_STATUS_FEATURES_OK :: u8 where "VIRTIO_STATUS_FEATURES_OK = 8"
definition VIRTIO_STATUS_FAILED :: u16 where "VIRTIO_STATUS_FAILED = 128"
definition VIRTIO_BLK_T_IN :: u32 where "VIRTIO_BLK_T_IN = 0"
definition VIRTIO_BLK_T_OUT :: u32 where "VIRTIO_BLK_T_OUT = 1"
definition VIRTIO_BLK_S_OK :: u8 where "VIRTIO_BLK_S_OK = 0"
definition VIRTIO_BLK_SECTOR_SIZE :: u64 where "VIRTIO_BLK_SECTOR_SIZE = 512"
definition VIRTIO_BLK_REQ_HEADER_SIZE :: u64 where "VIRTIO_BLK_REQ_HEADER_SIZE = 16"
definition VIRTIO_BLK_REQ_FOOTER_SIZE :: u64 where "VIRTIO_BLK_REQ_FOOTER_SIZE = 1"
definition sizeof_virtio_blk_req :: u64 where "sizeof_virtio_blk_req = 17"

lemmas virtio_consts =
  VIRTIO_BLK_REQUESTED_FEATURES_def VIRTIO_BLK_VENDOR_ID_def VIRTIO_BLK_DEVICE_ID_def VIRTIO_PCI_CAP_COMMON_CFG_def
  VIRTIO_PCI_CAP_NOTIFY_CFG_def VIRTIO_PCI_CAP_VENDOR_def valid_cfg_types_def VIRTIO_STATUS_RESET_def
  VIRTIO_STATUS_ACKNOWLEDGE_def VIRTIO_STATUS_DRIVER_def VIRTIO_STATUS_DRIVER_OK_def VIRTIO_STATUS_FEATURES_OK_def
  VIRTIO_STATUS_FAILED_def VIRTIO_BLK_T_IN_def VIRTIO_BLK_T_OUT_def VIRTIO_BLK_S_OK_def VIRTIO_BLK_SECTOR_SIZE_def
  VIRTIO_BLK_REQ_HEADER_SIZE_def VIRTIO_BLK_REQ_FOOTER_SIZE_def sizeof_virtio_blk_req_def
  VIRTQ_DESC_F_NEXT_def VIRTQ_DESC_F_WRITE_def VIRTIO_INVALID_DESC_def

text \<open>Fields of \<open>struct virtio_pci_cap\<close> and \<open>struct virtio_pci_notify_cap\<close>, as offsets.\<close>

definition cap_cap_vndr :: u32 where "cap_cap_vndr = 0"
definition cap_cfg_type :: u32 where "cap_cfg_type = 3"
definition cap_bar :: u32 where "cap_bar = 4"
definition cap_offset :: u32 where "cap_offset = 8"
definition cap_notify_off_multiplier :: u32 where "cap_notify_off_multiplier = 16"

lemmas virtio_cap_layout [layout_simps] =
  cap_cap_vndr_def cap_cfg_type_def cap_bar_def cap_offset_def cap_notify_off_multiplier_def

definition upd_blk :: "(virtio_blk_dev \<Rightarrow> virtio_blk_dev) \<Rightarrow> 'd machine \<Rightarrow> 'd machine" where
  "upd_blk f s = s\<lparr>blk := f (blk s)\<rparr>"

lemma upd_blk_simps [simp]:
  "blk (upd_blk f s) = f (blk s)" "vq (upd_blk f s) = vq s" "heap (upd_blk f s) = heap s"
  "mem (upd_blk f s) = mem s" "waking_out (upd_blk f s) = waking_out s" "dev (upd_blk f s) = dev s" "g_core_header (upd_blk f s) = g_core_header s"
  by (simp_all add: upd_blk_def)

section \<open>Initialisation\<close>

text \<open>The body of the loop of \<open>parse_virtio_blk_caps\<close>, on the capability at \<open>off\<close>.\<close>

definition parse_virtio_blk_cap :: "'d platform \<Rightarrow> u8 \<Rightarrow> ('d machine, unit) cfun" where
  "parse_virtio_blk_cap P off =
     bind (gets (blk_pci_dev \<circ> blk)) (\<lambda>p. let a = pd_addr p; hw = hardware P in
     bind (on_dev (pci_read_8 hw a (ucast off + cap_cap_vndr))) (\<lambda>vndr.
     if vndr \<noteq> VIRTIO_PCI_CAP_VENDOR then ret ()
     else bind (on_dev (pci_read_8 hw a (ucast off + cap_cfg_type))) (\<lambda>cfg_type.
       seq (CHECK (cfg_type \<in> set valid_cfg_types))
      (bind (on_dev (pci_read_8 hw a (ucast off + cap_bar))) (\<lambda>bar_num.
       bind (on_dev (pci_get_bar hw p bar_num)) (\<lambda>bar.
       if cfg_type = VIRTIO_PCI_CAP_COMMON_CFG then
         seq (CHECK (bar_type bar = PCI_BAR_MEMORY))
             (modify (upd_blk (\<lambda>b. b\<lparr>common_cfg := bar_addr bar\<rparr>)))
       else if cfg_type = VIRTIO_PCI_CAP_NOTIFY_CFG then
         seq (CHECK (bar_type bar = PCI_BAR_MEMORY))
        (bind (on_dev (pci_read_32 hw a (ucast off + cap_offset))) (\<lambda>offset.
         seq (modify (upd_blk (\<lambda>b. b\<lparr>notify_cap_off := bar_addr bar + ucast offset\<rparr>)))
        (bind (on_dev (pci_read_32 hw a (ucast off + cap_notify_off_multiplier))) (\<lambda>multiplier.
         modify (upd_blk (\<lambda>b. b\<lparr>notify_multiplier := multiplier\<rparr>))))))
       else ret ()))))))"

definition parse_virtio_blk_caps :: "'d platform \<Rightarrow> ('d machine, unit) cfun" where
  "parse_virtio_blk_caps P =
     bind (gets (blk_pci_dev \<circ> blk)) (\<lambda>p.
     bind (on_dev (pci_read_16 (hardware P) (pd_addr p) PCI_STATUS)) (\<lambda>st.
     seq (CHECK (st AND PCI_STATUS_CAP_LIST \<noteq> 0))
         (ITERATE_PCI_CAPABILITIES (cap_fuel P) dev (\<lambda>d s. s\<lparr>dev := d\<rparr>) (hardware P) p (parse_virtio_blk_cap P))))"

definition init_virtio_status :: "'d platform \<Rightarrow> ('d machine, unit) cfun" where
  "init_virtio_status P =
     bind (gets (common_cfg \<circ> blk)) (\<lambda>cfg.
       let w = (\<lambda>st. on_dev (write_mb8 (hardware P) (cfg + cfg_device_status) st));
           st0 = VIRTIO_STATUS_RESET; st1 = st0 OR VIRTIO_STATUS_ACKNOWLEDGE; st2 = st1 OR VIRTIO_STATUS_DRIVER
       in seq (w st0) (seq (w st1) (seq (w st2) (modify (upd_blk (\<lambda>b. b\<lparr>status := st2\<rparr>))))))"

definition negotiate_virtio_features :: "'d platform \<Rightarrow> ('d machine, unit) cfun" where
  "negotiate_virtio_features P =
     bind (gets (common_cfg \<circ> blk)) (\<lambda>cfg. let hw = hardware P; requested = VIRTIO_BLK_REQUESTED_FEATURES in
     seq (on_dev (write_mb32 hw (cfg + cfg_device_feature_select) 0))
     (bind (on_dev (read_mb32 hw (cfg + cfg_device_feature))) (\<lambda>lo.
     seq (on_dev (write_mb32 hw (cfg + cfg_device_feature_select) 1))
     (bind (on_dev (read_mb32 hw (cfg + cfg_device_feature))) (\<lambda>hi.
      let available = ucast lo OR push_bit 32 (ucast hi) in
     seq (CHECK (requested AND available = requested))
     (seq (on_dev (write_mb32 hw (cfg + cfg_driver_feature_select) 0))
     (seq (on_dev (write_mb32 hw (cfg + cfg_driver_feature) (ucast (requested AND 0xffffffff))))
     (seq (on_dev (write_mb32 hw (cfg + cfg_driver_feature_select) 1))
     (seq (on_dev (write_mb32 hw (cfg + cfg_driver_feature) (ucast (drop_bit 32 requested))))
     (seq (modify (upd_blk (\<lambda>b. b\<lparr>status := status b OR VIRTIO_STATUS_FEATURES_OK\<rparr>)))
     (seq (bind (gets (status \<circ> blk)) (\<lambda>st. on_dev (write_mb8 hw (cfg + cfg_device_status) st)))
     (bind (on_dev (read8 hw (cfg + cfg_device_status))) (\<lambda>st.
      seq (CHECK (st AND VIRTIO_STATUS_FEATURES_OK \<noteq> 0))
          (modify (upd_blk (\<lambda>b. b\<lparr>features := requested\<rparr>))))))))))))))))"

text \<open>The restoring of the six base address registers from the header the UEFI application filled in.\<close>

definition restore_bars :: "'d platform \<Rightarrow> pci_dev_addr \<Rightarrow> ('d machine, unit) cfun" where
  "restore_bars P a =
     for_each [0..<PCI_BASE_ADDRESS_NUM] (\<lambda>i.
       bind (gets (disk_bars \<circ> hdr_disk_pci \<circ> g_core_header)) (\<lambda>bars.
       on_dev (pci_write_32 (hardware P) a (PCI_BASE_ADDRESS_0 + 4 * of_nat i) (bars ! i))))"

definition init_virtio_blk_dev :: "'d platform \<Rightarrow> ('d machine, unit) cfun" where
  "init_virtio_blk_dev P = on_error
    (bind (gets (hdr_disk_pci \<circ> g_core_header)) (\<lambda>disk.
       let hw = hardware P; a = \<lparr>pa_bus = disk_bus disk, pa_device = disk_device disk, pa_function = disk_function disk\<rparr> in
     seq (modify (upd_blk (\<lambda>b. b\<lparr>blk_pci_dev := (blk_pci_dev b)\<lparr>pd_addr := a\<rparr>\<rparr>)))
    (seq (bind (on_dev (init_pci_dev hw a)) (\<lambda>p. modify (upd_blk (\<lambda>b. b\<lparr>blk_pci_dev := p\<rparr>))))
    (bind (gets (blk_pci_dev \<circ> blk)) (\<lambda>p.
     seq (CHECK (vendor_id p = VIRTIO_BLK_VENDOR_ID \<and> device_id p = VIRTIO_BLK_DEVICE_ID))
    (seq (restore_bars P a)
    (seq (CHECK (header_type p = PCI_HEADER_TYPE_NORMAL))
    (seq (parse_virtio_blk_caps P)
    (seq (bind (gets blk) (\<lambda>b. CHECK (common_cfg b \<noteq> 0 \<and> notify_cap_off b \<noteq> 0)))
    (seq (bind (on_dev (pci_read_16 hw a PCI_COMMAND)) (\<lambda>command.
          on_dev (pci_write_16 hw a PCI_COMMAND (command OR PCI_COMMAND_MEMORY))))
    (seq (init_virtio_status P)
    (seq (negotiate_virtio_features P)
    (seq (modify (upd_queue (\<lambda>q. q\<lparr>q_num := 0\<rparr>)))
    (seq (init_virtio_blk_queue P)
    (seq (modify (upd_blk (\<lambda>b. b\<lparr>status := status b OR VIRTIO_STATUS_DRIVER_OK\<rparr>)))
         (bind (gets blk) (\<lambda>b. on_dev (write_mb8 hw (common_cfg b + cfg_device_status) (status b)))))))))))))))))))
    (bind (gets (common_cfg \<circ> blk)) (\<lambda>cfg.
       if cfg \<noteq> 0 then on_dev (write16 (hardware P) (cfg + cfg_device_status) VIRTIO_STATUS_FAILED) else ret ()))"

section \<open>Requests\<close>

text \<open>What follows \<open>cleanup\<close> in \<open>request_virtio_blk\<close> when an error is returned.\<close>

definition abandon_request :: "u16 \<Rightarrow> u16 \<Rightarrow> u16 \<Rightarrow> u64 \<Rightarrow> ('d machine, unit) cfun" where
  "abandon_request desc1 desc2 desc3 header =
     seq (free_queue_desc desc1) (seq (free_queue_desc desc2) (seq (free_queue_desc desc3) (free_at header)))"

definition fill_request_header :: "u32 \<Rightarrow> u64 \<Rightarrow> u64 \<Rightarrow> ('d machine, unit) cfun" where
  "fill_request_header request_type sector header =
     modify (\<lambda>s. s\<lparr>mem := (store64 (header + 8) sector (store32 header request_type (mem s)))(header + 16 := 0)\<rparr>)"

definition fill_request_descs :: "u32 \<Rightarrow> u64 \<Rightarrow> u64 \<Rightarrow> u64 \<Rightarrow> u16 \<Rightarrow> u16 \<Rightarrow> u16 \<Rightarrow> ('d machine, unit) cfun" where
  "fill_request_descs request_type header data n desc1 desc2 desc3 =
     seq (upd_desc desc1 (\<lambda>d. \<lparr>vd_addr = header, vd_len = ucast VIRTIO_BLK_REQ_HEADER_SIZE,
                               vd_flags = VIRTQ_DESC_F_NEXT, vd_next = desc2\<rparr>))
    (seq (upd_desc desc2 (\<lambda>d. \<lparr>vd_addr = data, vd_len = ucast n, vd_flags = VIRTQ_DESC_F_NEXT, vd_next = desc3\<rparr>))
    (seq (if request_type = VIRTIO_BLK_T_IN
          then upd_desc desc2 (\<lambda>d. d\<lparr>vd_flags := vd_flags d OR VIRTQ_DESC_F_WRITE\<rparr>) else ret ())
         (upd_desc desc3 (\<lambda>d. \<lparr>vd_addr = header + VIRTIO_BLK_REQ_HEADER_SIZE, vd_len = ucast VIRTIO_BLK_REQ_FOOTER_SIZE,
                               vd_flags = VIRTQ_DESC_F_WRITE, vd_next = vd_next d\<rparr>))))"

definition publish_request :: "'d platform \<Rightarrow> u16 \<Rightarrow> ('d machine, unit) cfun" where
  "publish_request P desc1 =
     bind (gets (queue \<circ> blk)) (\<lambda>q. bind (gets vq) (\<lambda>v.
     seq (defined_if (q_size q \<noteq> 0 \<and> unat (avail_idx v mod q_size q) < length (avail_ring v)))
    (seq (modify (upd_vq (\<lambda>v. v\<lparr>avail_ring := (avail_ring v)[unat (avail_idx v mod q_size q) := desc1]\<rparr>)))
    (seq (modify (upd_vq (\<lambda>w. w\<lparr>avail_idx := avail_idx v + 1\<rparr>)))
         (on_dev (write_mb16 (hardware P) (notify_off q) (q_num q)))))))"

definition request_virtio_blk :: "'d platform \<Rightarrow> u32 \<Rightarrow> u64 \<Rightarrow> u64 \<Rightarrow> u64 \<Rightarrow> ('d machine, unit) cfun" where
  "request_virtio_blk P request_type sector data n = (let none = VIRTIO_INVALID_DESC in
     seq (on_error (CHECK (n mod VIRTIO_BLK_SECTOR_SIZE = 0)) (abandon_request none none none 0))
    (bind (calloc sizeof_virtio_blk_req 1) (\<lambda>header.
     seq (on_error (CHECK (header \<noteq> 0)) (abandon_request none none none header))
    (seq (fill_request_header request_type sector header)
    (bind (on_error alloc_queue_desc (abandon_request none none none header)) (\<lambda>desc1.
     bind (on_error alloc_queue_desc (abandon_request desc1 none none header)) (\<lambda>desc2.
     bind (on_error alloc_queue_desc (abandon_request desc1 desc2 none header)) (\<lambda>desc3.
     seq (fill_request_descs request_type header data n desc1 desc2 desc3)
         (publish_request P desc1)))))))))"

definition read_virtio_blk :: "'d platform \<Rightarrow> u64 \<Rightarrow> u64 \<Rightarrow> u64 \<Rightarrow> ('d machine, unit) cfun" where
  "read_virtio_blk P sector data n = request_virtio_blk P VIRTIO_BLK_T_IN sector data n"

definition write_virtio_blk :: "'d platform \<Rightarrow> u64 \<Rightarrow> u64 \<Rightarrow> u64 \<Rightarrow> ('d machine, unit) cfun" where
  "write_virtio_blk P sector data n = request_virtio_blk P VIRTIO_BLK_T_OUT sector data n"

definition validate_used_response :: "u16 \<Rightarrow> u32 \<Rightarrow> ('d machine, unit) cfun" where
  "validate_used_response desc1 len =
     bind (read_desc desc1) (\<lambda>d1.
     seq (CHECK (vd_flags d1 AND VIRTQ_DESC_F_NEXT \<noteq> 0))
    (bind (read_desc (vd_next d1)) (\<lambda>d2.
     seq (CHECK (vd_flags d2 AND VIRTQ_DESC_F_NEXT \<noteq> 0))
    (bind (read_desc (vd_next d2)) (\<lambda>d3.
     seq (CHECK (vd_flags d3 AND VIRTQ_DESC_F_WRITE \<noteq> 0))
    (seq (bind (gets mem) (\<lambda>m. CHECK (m (vd_addr d3) = VIRTIO_BLK_S_OK)))
    (let len1 = len - vd_len d3;
         len2 = (if vd_flags d2 AND VIRTQ_DESC_F_WRITE \<noteq> 0 then len1 - vd_len d2 else len1)
     in CHECK (len2 = 0))))))))"

text \<open>What follows \<open>cleanup\<close> in \<open>free_request\<close>; it runs on success too.\<close>

definition release_request :: "u16 \<Rightarrow> u16 \<Rightarrow> u16 \<Rightarrow> ('d machine, unit) cfun" where
  "release_request desc1 desc2 desc3 =
     seq (free_queue_desc desc1) (seq (free_queue_desc desc2) (seq (free_queue_desc desc3)
       (bind (read_desc desc1) (\<lambda>d. free_at (vd_addr d)))))"

definition free_request :: "u16 \<Rightarrow> ('d machine, unit) cfun" where
  "free_request desc1 = (let none = VIRTIO_INVALID_DESC in
     bind (read_desc desc1) (\<lambda>d1.
     if vd_flags d1 AND VIRTQ_DESC_F_NEXT = 0 then seq (release_request desc1 none none) (throw ERR_INVALID)
     else bind (read_desc (vd_next d1)) (\<lambda>d2.
       if vd_flags d2 AND VIRTQ_DESC_F_NEXT = 0 then seq (release_request desc1 (vd_next d1) none) (throw ERR_INVALID)
       else bind (read_desc (vd_next d2)) (\<lambda>d3.
         seq (release_request desc1 (vd_next d1) (vd_next d2)) (CHECK (vd_flags d3 AND VIRTQ_DESC_F_WRITE \<noteq> 0))))))"

text \<open>The loop that waits for the used ring to move; in every round the device gets to run.\<close>

definition wait_response :: "'d platform \<Rightarrow> ('d machine, unit) cfun" where
  "wait_response P = while_fuel (wait_fuel P)
     (bind is_unseen_used_virtio_queue (\<lambda>unseen. ret (\<not> unseen)))
     (modify (\<lambda>s. case device_step P (mem s, vq s, dev s) of (m, v, d) \<Rightarrow> s\<lparr>mem := m, vq := v, dev := d\<rparr>))"

definition consume_response_virtio_blk :: "'d platform \<Rightarrow> ('d machine, unit) cfun" where
  "consume_response_virtio_blk P =
     seq (wait_response P)
    (bind pop_used_virtio_queue (\<lambda>(desc, len).
       let finish = (if desc \<noteq> VIRTIO_INVALID_DESC then ignore_error (free_request desc) else ret ())
       in seq (on_error (validate_used_response desc len) finish) finish))"

end
