(* ===== verification/Dump.thy ===== *)
theory Dump
  imports VirtBlk
begin

text \<open>
  Dumps of the RAM on the disk, \<^verbatim>\<open>core/dump.c\<close>: a header in the first sectors and the memory areas after
  it. The variable \<open>header\<close> of each function lives in memory at \<open>dump_header_at\<close>, since the device
  reads and writes it there; its fields are loads and stores at their offsets.
\<close>

section \<open>The header\<close>

definition sizeof_dump_header :: u64 where "sizeof_dump_header = 2048"
definition DUMP_HEADER_SECTORS_SIZE :: u64 where "DUMP_HEADER_SECTORS_SIZE = sizeof_dump_header div VIRTIO_BLK_SECTOR_SIZE"

text \<open>\<open>struct dump_header\<close> and its array of \<open>struct disk_mem_area\<close>, as addresses of fields.\<close>

definition dh_magic :: "'d platform \<Rightarrow> u64" where "dh_magic P = dump_header_at P"
definition dh_waking_vector :: "'d platform \<Rightarrow> u64" where "dh_waking_vector P = dump_header_at P + 4"
definition dh_areas_size :: "'d platform \<Rightarrow> u64" where "dh_areas_size P = dump_header_at P + 8"
definition dh_area_start :: "'d platform \<Rightarrow> nat \<Rightarrow> u64" where "dh_area_start P i = dump_header_at P + 16 + 24 * of_nat i"
definition dh_area_size :: "'d platform \<Rightarrow> nat \<Rightarrow> u64" where "dh_area_size P i = dump_header_at P + 16 + 24 * of_nat i + 8"
definition dh_area_sector :: "'d platform \<Rightarrow> nat \<Rightarrow> u64" where "dh_area_sector P i = dump_header_at P + 16 + 24 * of_nat i + 16"

lemmas dump_header_layout [layout_simps] =
  dh_magic_def dh_waking_vector_def dh_areas_size_def dh_area_start_def dh_area_size_def dh_area_sector_def

definition set_mem :: "(memory \<Rightarrow> memory) \<Rightarrow> ('d machine, unit) cfun" where
  "set_mem f = modify (\<lambda>s. s\<lparr>mem := f (mem s)\<rparr>)"

lemma wp_set_mem [wp_simps]: "wp (set_mem f) Q E s = Q () (s\<lparr>mem := f (mem s)\<rparr>)"
  by (simp add: set_mem_def wp_simps)

text \<open>
  A loop over the areas of the header in memory: the bound is read again in every round, and there is no
  area behind the last of the array.
\<close>

primrec for_areas :: "nat \<Rightarrow> 'd platform \<Rightarrow> (nat \<Rightarrow> ('d machine, unit) cfun) \<Rightarrow> nat \<Rightarrow> ('d machine, unit) cfun" where
  "for_areas 0 P body i = faults Out_Of_Fuel"
| "for_areas (Suc n) P body i =
     bind (gets (\<lambda>s. load32 (mem s) (dh_areas_size P))) (\<lambda>areas_size.
       if i < unat areas_size
       then seq (defined_if (i < MAX_RAM_AREAS)) (seq (body i) (for_areas n P body (Suc i)))
       else ret ())"

definition read_dump_header :: "'d platform \<Rightarrow> ('d machine, unit) cfun" where
  "read_dump_header P =
     seq (read_virtio_blk P 0 (dump_header_at P) sizeof_dump_header) (consume_response_virtio_blk P)"

definition write_dump_header :: "'d platform \<Rightarrow> ('d machine, unit) cfun" where
  "write_dump_header P =
     seq (write_virtio_blk P 0 (dump_header_at P) sizeof_dump_header) (consume_response_virtio_blk P)"

text \<open>\<open>find_original_waking_vector\<close> of \<^verbatim>\<open>core/acpi.c\<close>: the vector the hooked \<open>_PTS\<close> saved in the FACS.\<close>

definition facs_rsvd1 :: u64 where "facs_rsvd1 = 40"

definition find_original_waking_vector :: "('d machine, u32) cfun" where
  "find_original_waking_vector =
     bind (gets (\<lambda>s. load32 (mem s) (hdr_facs (g_core_header s) + facs_rsvd1))) (\<lambda>waking_vector.
     seq (CHECK (waking_vector \<noteq> 0)) (ret waking_vector))"

primrec fill_dump_areas :: "'d platform \<Rightarrow> nat list \<Rightarrow> u64 \<Rightarrow> ('d machine, unit) cfun" where
  "fill_dump_areas P [] next_sector = ret ()"
| "fill_dump_areas P (i # is) next_sector =
     bind (gets (ram_areas \<circ> g_core_header)) (\<lambda>areas.
     seq (defined_if (i < length areas))
    (let area = areas ! i in
     seq (CHECK (area_size area > 0))
    (seq (CHECK (area_size area mod VIRTIO_BLK_SECTOR_SIZE = 0))
    (seq (set_mem (store64 (dh_area_start P i) (area_start area)))
    (seq (set_mem (store64 (dh_area_size P i) (area_size area)))
    (seq (set_mem (store32 (dh_area_sector P i) (ucast next_sector)))
         (fill_dump_areas P is (next_sector + area_size area div VIRTIO_BLK_SECTOR_SIZE))))))))"

definition fill_dump_header :: "'d platform \<Rightarrow> ('d machine, unit) cfun" where
  "fill_dump_header P =
     seq (set_mem (store32 (dh_magic P) CORE_DISK_DUMP_MAGIC))
    (bind find_original_waking_vector (\<lambda>waking_vector.
     seq (set_mem (store32 (dh_waking_vector P) waking_vector))
    (bind (gets (ram_areas_size \<circ> g_core_header)) (\<lambda>n.
     seq (CHECK (unat n \<le> MAX_RAM_AREAS))
    (seq (set_mem (store32 (dh_areas_size P) n))
         (fill_dump_areas P [0..<unat n] DUMP_HEADER_SECTORS_SIZE))))))"

text \<open>
  The two loops of \<open>is_dump_header_valid\<close>, each leaving with \<open>false\<close> at the first area that does not do.
  They read an area of the header before its number has been compared with the size of the array.
\<close>

primrec all_areas_positive :: "'d platform \<Rightarrow> nat list \<Rightarrow> ('d machine, bool) cfun" where
  "all_areas_positive P [] = ret True"
| "all_areas_positive P (i # is) =
     seq (defined_if (i < MAX_RAM_AREAS))
    (bind (gets (\<lambda>s. load64 (mem s) (dh_area_size P i))) (\<lambda>n.
     if n = 0 then ret False else all_areas_positive P is))"

primrec all_areas_match :: "'d platform \<Rightarrow> nat list \<Rightarrow> ('d machine, bool) cfun" where
  "all_areas_match P [] = ret True"
| "all_areas_match P (i # is) =
     bind (gets (ram_areas \<circ> g_core_header)) (\<lambda>areas.
     seq (defined_if (i < MAX_RAM_AREAS \<and> i < length areas))
    (bind (gets mem) (\<lambda>m.
     if area_start (areas ! i) \<noteq> load64 m (dh_area_start P i) \<or> area_size (areas ! i) \<noteq> load64 m (dh_area_size P i)
     then ret False else all_areas_match P is)))"

definition is_dump_header_valid :: "'d platform \<Rightarrow> ('d machine, bool) cfun" where
  "is_dump_header_valid P =
     bind (gets mem) (\<lambda>m. let n = load32 m (dh_areas_size P) in
     if load32 m (dh_magic P) \<noteq> CORE_DISK_DUMP_MAGIC then ret False
     else if load32 m (dh_waking_vector P) = 0 then ret False
     else if n = 0 then ret False
     else bind (all_areas_positive P [0..<unat n]) (\<lambda>positive.
       if \<not> positive then ret False
       else bind (gets (ram_areas_size \<circ> g_core_header)) (\<lambda>k.
         if n \<noteq> k then ret False else all_areas_match P [0..<unat n])))"

section \<open>Storing and loading\<close>

definition store_area :: "'d platform \<Rightarrow> nat \<Rightarrow> ('d machine, unit) cfun" where
  "store_area P i =
     bind (gets mem) (\<lambda>m.
     seq (write_virtio_blk P (ucast (load32 m (dh_area_sector P i))) (load64 m (dh_area_start P i)) (load64 m (dh_area_size P i)))
         (consume_response_virtio_blk P))"

definition disk_store_dump :: "'d platform \<Rightarrow> ('d machine, unit) cfun" where
  "disk_store_dump P =
     seq (fill_dump_header P)
    (seq (for_areas (Suc MAX_RAM_AREAS) P (store_area P) 0)
         (write_dump_header P))"

definition does_disk_contain_dump :: "'d platform \<Rightarrow> ('d machine, bool) cfun" where
  "does_disk_contain_dump P = seq (read_dump_header P) (is_dump_header_valid P)"

definition load_area :: "'d platform \<Rightarrow> nat \<Rightarrow> ('d machine, unit) cfun" where
  "load_area P i =
     bind (gets mem) (\<lambda>m.
     seq (read_virtio_blk P (ucast (load32 m (dh_area_sector P i))) (load64 m (dh_area_start P i)) (load64 m (dh_area_size P i)))
         (consume_response_virtio_blk P))"

definition set_waking_out :: "u32 \<Rightarrow> ('d machine, unit) cfun" where
  "set_waking_out w = modify (\<lambda>s. s\<lparr>waking_out := w\<rparr>)"

definition disk_load_dump :: "'d platform \<Rightarrow> ('d machine, unit) cfun" where
  "disk_load_dump P =
     seq (read_dump_header P)
    (seq (bind (is_dump_header_valid P) CHECK)
    (seq (for_areas (Suc MAX_RAM_AREAS) P (load_area P) 0)
         (bind (gets (\<lambda>s. load32 (mem s) (dh_waking_vector P))) set_waking_out)))"

section \<open>Switching\<close>

definition SWITCH_BUF_SIZE :: u64 where "SWITCH_BUF_SIZE = 8 * 1024 * 1024"

text \<open>The loop of \<open>switch_memory_area\<close>, one round per part that fits the switch buffer.\<close>

primrec switch_chunks :: "nat \<Rightarrow> 'd platform \<Rightarrow> u64 \<Rightarrow> u64 \<Rightarrow> u64 \<Rightarrow> ('d machine, unit) cfun" where
  "switch_chunks 0 P addr en sector = faults Out_Of_Fuel"
| "switch_chunks (Suc n) P addr en sector =
     (if addr < en then
        let read_size = MIN_u64 SWITCH_BUF_SIZE (en - addr) in
        seq (CHECK (read_size mod VIRTIO_BLK_SECTOR_SIZE = 0))
       (seq (read_virtio_blk P sector (switch_buf_at P) read_size)
       (seq (consume_response_virtio_blk P)
       (seq (write_virtio_blk P sector addr read_size)
       (seq (consume_response_virtio_blk P)
       (seq (set_mem (memcpy addr (switch_buf_at P) read_size))
            (switch_chunks n P (addr + SWITCH_BUF_SIZE) en (sector + read_size div VIRTIO_BLK_SECTOR_SIZE)))))))
      else ret ())"

definition switch_rounds :: "u64 \<Rightarrow> nat" where
  "switch_rounds n = Suc (Suc (unat n div unat SWITCH_BUF_SIZE))"

definition switch_memory_area :: "'d platform \<Rightarrow> nat \<Rightarrow> ('d machine, unit) cfun" where
  "switch_memory_area P i =
     bind (gets mem) (\<lambda>m. let start = load64 m (dh_area_start P i); n = load64 m (dh_area_size P i) in
     switch_chunks (switch_rounds n) P start (start + n) (ucast (load32 m (dh_area_sector P i))))"

definition disk_switch_dump :: "'d platform \<Rightarrow> ('d machine, unit) cfun" where
  "disk_switch_dump P =
     seq (read_dump_header P)
    (seq (bind (is_dump_header_valid P) CHECK)
    (seq (for_areas (Suc MAX_RAM_AREAS) P (switch_memory_area P) 0)
    (seq (bind (gets (\<lambda>s. load32 (mem s) (dh_waking_vector P))) set_waking_out)
    (seq (bind find_original_waking_vector (\<lambda>w. set_mem (store32 (dh_waking_vector P) w)))
         (write_dump_header P)))))"

end
