(* ===== verification/CoreMain.thy ===== *)
theory CoreMain
  imports Dump
begin

text \<open>
  Core's entry point, \<^verbatim>\<open>core/core.c\<close>, and its use of uACPI, \<^verbatim>\<open>core/acpi.c\<close>. The uACPI library is not part
  of the repository: its functions are the record \<open>uacpi\<close>, a parameter. They may change anything but
  \<open>kernel_waking_vector\<close>, a local variable of \<open>core_main\<close> they have no pointer to.
\<close>

type_synonym uacpi_status = u32

record 'd uacpi =
  uacpi_state_reset :: "'d machine \<Rightarrow> 'd machine"
  uacpi_initialize :: "u64 \<Rightarrow> 'd machine \<Rightarrow> uacpi_status \<times> 'd machine"
  uacpi_namespace_load :: "'d machine \<Rightarrow> uacpi_status \<times> 'd machine"
  uacpi_namespace_initialize :: "'d machine \<Rightarrow> uacpi_status \<times> 'd machine"
  uacpi_finalize_gpe_initialization :: "'d machine \<Rightarrow> uacpi_status \<times> 'd machine"
  uacpi_prepare_for_sleep_state :: "'d machine \<Rightarrow> 'd machine"
  uacpi_set_waking_vector :: "u64 \<Rightarrow> u64 \<Rightarrow> 'd machine \<Rightarrow> 'd machine"
  uacpi_enter_sleep_state :: "'d machine \<Rightarrow> 'd machine"

text \<open>\<open>uacpi_likely_success\<close>: the status is \<open>UACPI_STATUS_OK\<close>.\<close>

definition uacpi_likely_success :: "uacpi_status \<Rightarrow> bool" where
  "uacpi_likely_success ret_status \<longleftrightarrow> ret_status = 0"

definition acpi_setup :: "'d uacpi \<Rightarrow> ('d machine, unit) cfun" where
  "acpi_setup U =
     seq (bind (stateful (uacpi_initialize U 0)) (\<lambda>r. CHECK (uacpi_likely_success r)))
    (seq (bind (stateful (uacpi_namespace_load U)) (\<lambda>r. CHECK (uacpi_likely_success r)))
    (seq (bind (stateful (uacpi_namespace_initialize U)) (\<lambda>r. CHECK (uacpi_likely_success r)))
         (bind (stateful (uacpi_finalize_gpe_initialization U)) (\<lambda>r. CHECK (uacpi_likely_success r)))))"

definition acpi_destroy :: "'d uacpi \<Rightarrow> ('d machine, unit) cfun" where
  "acpi_destroy U = modify (uacpi_state_reset U)"

definition acpi_return_kernel :: "'d uacpi \<Rightarrow> u32 \<Rightarrow> ('d machine, unit) cfun" where
  "acpi_return_kernel U waking_vector =
     seq (modify (uacpi_prepare_for_sleep_state U))
    (seq (if waking_vector \<noteq> 0 then modify (uacpi_set_waking_vector U (ucast waking_vector) 0) else ret ())
         (modify (uacpi_enter_sleep_state U)))"

definition init_allocators :: "('d machine, unit) cfun" where
  "init_allocators = bind (gets heap) (\<lambda>h. case core_init_allocators 4097 h of
     None \<Rightarrow> faults Out_Of_Fuel | Some h' \<Rightarrow> modify (\<lambda>s. s\<lparr>heap := h'\<rparr>))"

text \<open>The part of \<open>core_main\<close> between the initialisation of the allocators and the label \<open>cleanup\<close>.\<close>

definition core_action_body :: "'d platform \<Rightarrow> ('d machine, unit) cfun" where
  "core_action_body P =
     seq (bind (gets g_core_header) (\<lambda>h. CHECK (is_core_header_valid h)))
    (seq (bind find_original_waking_vector set_waking_out)
    (seq (init_virtio_blk_dev P)
    (bind (gets (hdr_action \<circ> g_core_header)) (\<lambda>action.
     if action = CORE_ACTION_STORE then disk_store_dump P
     else if action = CORE_ACTION_SWITCH then
       seq (bind (does_disk_contain_dump P) CHECK) (disk_switch_dump P)
     else throw ERR_INVALID))))"

text \<open>
  The variable's initialisation is written after \<open>acpi_destroy\<close>, and its value is taken before \<open>acpi_setup\<close>:
  uACPI cannot change it.
\<close>

definition core_main :: "'d platform \<Rightarrow> 'd uacpi \<Rightarrow> ('d machine, unit) cfun" where
  "core_main P U =
     seq (acpi_destroy U)
    (seq (set_waking_out 0)
    (seq init_allocators
    (seq (ignore_error (core_action_body P))
    (bind (gets waking_out) (\<lambda>kernel_waking_vector.
     seq (ignore_error (acpi_setup U))
         (acpi_return_kernel U kernel_waking_vector))))))"

end
