(* ===== verification/Frames.thy ===== *)
theory Frames
  imports Hw
begin

text \<open>
  Partial correctness and invariants of functions: what holds of a function's final state if it comes to an end
  without undefined behaviour. \<open>maintains I m\<close> is the form most used: \<open>I\<close> is kept whether \<open>m\<close> returns or fails. The
  collection \<open>maintains_intros\<close> follows the structure of a function.
\<close>

named_theorems maintains_intros "functions that keep an invariant, by their structure"

definition wlp :: "('s, 'a) cfun \<Rightarrow> ('a \<Rightarrow> 's \<Rightarrow> bool) \<Rightarrow> ('s \<Rightarrow> bool) \<Rightarrow> 's \<Rightarrow> bool" where
  "wlp m Q E s = (case m s of Returns a s' \<Rightarrow> Q a s' | Throws e s' \<Rightarrow> E s' | Faults f \<Rightarrow> True)"

named_theorems wlp_simps "weakest liberal preconditions of the statements of the embedding"

lemma wlp_ret [wlp_simps]: "wlp (ret a) Q E = Q a"
  by (simp add: fun_eq_iff wlp_def ret_def)

lemma wlp_throw [wlp_simps]: "wlp (throw e) Q E s = E s"
  by (simp add: wlp_def throw_def)

lemma wlp_faults [wlp_simps]: "wlp (faults f) Q E s"
  by (simp add: wlp_def faults_def)

lemma wlp_bind [wlp_simps]: "wlp (bind m f) Q E = wlp m (\<lambda>a. wlp (f a) Q E) E"
  by (simp add: fun_eq_iff wlp_def bind_def split: outcome.splits)

lemma wlp_seq [wlp_simps]: "wlp (seq m n) Q E = wlp m (\<lambda>_. wlp n Q E) E"
  by (simp add: seq_def wlp_bind)

lemma wlp_CHECK [wlp_simps]: "wlp (CHECK b) Q E s = (if b then Q () s else E s)"
  by (simp add: CHECK_def wlp_ret wlp_throw)

lemma wlp_defined_if [wlp_simps]: "wlp (defined_if b) Q E s = (b \<longrightarrow> Q () s)"
  by (simp add: defined_if_def wlp_ret wlp_faults)

lemma wlp_gets [wlp_simps]: "wlp (gets f) Q E s = Q (f s) s"
  by (simp add: wlp_def gets_def)

lemma wlp_modify [wlp_simps]: "wlp (modify f) Q E s = Q () (f s)"
  by (simp add: wlp_def modify_def)

lemma wlp_stateful [wlp_simps]: "wlp (stateful f) Q E s = Q (fst (f s)) (snd (f s))"
  by (simp add: wlp_def stateful_def split: prod.splits)

lemma wlp_on_error [wlp_simps]: "wlp (on_error m h) Q E s = wlp m Q (wlp h (\<lambda>_. E) E) s"
  by (simp add: wlp_def on_error_def split: outcome.splits)

lemma wlp_ignore_error [wlp_simps]: "wlp (ignore_error m) Q E s = wlp m (\<lambda>_. Q ()) (Q ()) s"
  by (simp add: wlp_def ignore_error_def split: outcome.splits)

lemma wlp_zoom [wlp_simps]: "wlp (zoom get put m) Q E s = wlp m (\<lambda>a d. Q a (put d s)) (\<lambda>d. E (put d s)) (get s)"
  by (simp add: wlp_def zoom_def split: outcome.splits)

lemma wlp_mono:
  assumes "wlp m Q E s" and "\<And>a t. Q a t \<Longrightarrow> Q' a t" and "\<And>t. E t \<Longrightarrow> E' t"
  shows "wlp m Q' E' s"
  using assms by (auto simp: wlp_def split: outcome.splits)

lemma wlp_seqI: "wlp m (\<lambda>_. R) E' s \<Longrightarrow> (\<And>t. R t \<Longrightarrow> wlp n Q E t) \<Longrightarrow> (\<And>t. E' t \<Longrightarrow> E t) \<Longrightarrow> wlp (seq m n) Q E s"
  unfolding wlp_seq by (erule wlp_mono)

lemma wlp_True: "(\<And>a t. Q a t) \<Longrightarrow> (\<And>t. E t) \<Longrightarrow> wlp m Q E s"
  by (simp add: wlp_def split: outcome.splits)

lemma wp_wlp: "wp m Q E s \<Longrightarrow> wlp m Q E s"
  by (simp add: wp_def wlp_def split: outcome.splits)

lemma wlp_returns: "wlp m Q E s \<Longrightarrow> m s = Returns a t \<Longrightarrow> Q a t"
  by (simp add: wlp_def)

section \<open>Invariants\<close>

definition maintains :: "('s \<Rightarrow> bool) \<Rightarrow> ('s, 'a) cfun \<Rightarrow> bool" where
  "maintains I m \<longleftrightarrow> (\<forall>s. I s \<longrightarrow> wlp m (\<lambda>_. I) I s)"

lemma maintainsI: "(\<And>s. I s \<Longrightarrow> wlp m (\<lambda>_. I) I s) \<Longrightarrow> maintains I m"
  by (simp add: maintains_def)

lemma maintains_wlp: "maintains I m \<Longrightarrow> I s \<Longrightarrow> (\<And>a t. I t \<Longrightarrow> Q a t) \<Longrightarrow> (\<And>t. I t \<Longrightarrow> E t) \<Longrightarrow> wlp m Q E s"
  by (auto simp: maintains_def elim!: wlp_mono)

lemma maintains_basic [maintains_intros]:
  "maintains I (ret a)" "maintains I (throw e)" "maintains I (faults f)" "maintains I (CHECK b)" "maintains I (defined_if b)"
  "maintains I (gets g)"
  by (simp_all add: maintains_def wlp_simps)

lemma maintains_bind [maintains_intros]: "maintains I m \<Longrightarrow> (\<And>a. maintains I (f a)) \<Longrightarrow> maintains I (bind m f)"
  by (auto simp: maintains_def wlp_simps elim!: wlp_mono)

lemma maintains_seq [maintains_intros]: "maintains I m \<Longrightarrow> maintains I n \<Longrightarrow> maintains I (seq m n)"
  by (auto simp: maintains_def wlp_simps elim!: wlp_mono)

lemma maintains_if [maintains_intros]: "(b \<Longrightarrow> maintains I m) \<Longrightarrow> (\<not> b \<Longrightarrow> maintains I n) \<Longrightarrow> maintains I (if b then m else n)"
  by simp

lemma maintains_modify [maintains_intros]: "(\<And>s. I s \<Longrightarrow> I (f s)) \<Longrightarrow> maintains I (modify f)"
  by (simp add: maintains_def wlp_simps)

lemma maintains_stateful: "(\<And>s. I s \<Longrightarrow> I (snd (f s))) \<Longrightarrow> maintains I (stateful f)"
  by (simp add: maintains_def wlp_simps)

lemma maintains_on_error [maintains_intros]: "maintains I m \<Longrightarrow> maintains I h \<Longrightarrow> maintains I (on_error m h)"
  by (auto simp: maintains_def wlp_simps elim!: wlp_mono)

lemma maintains_ignore_error [maintains_intros]: "maintains I m \<Longrightarrow> maintains I (ignore_error m)"
  by (auto simp: maintains_def wlp_simps elim!: wlp_mono)

lemma maintains_zoom: "(\<And>s d. I s \<Longrightarrow> I (put d s)) \<Longrightarrow> maintains I (zoom get put m)"
  by (auto simp: maintains_def wlp_simps intro!: wlp_True)

lemma maintains_for_each [maintains_intros]: "(\<And>x. maintains I (f x)) \<Longrightarrow> maintains I (for_each xs f)"
  by (induction xs) (auto intro: maintains_basic maintains_seq)

lemma maintains_while [maintains_intros]: "maintains I b \<Longrightarrow> maintains I m \<Longrightarrow> maintains I (while_fuel n b m)"
  by (induction n) (auto intro!: maintains_intros)

lemma maintains_case_prod [maintains_intros]: "(\<And>a b. maintains I (f a b)) \<Longrightarrow> maintains I (case p of (a, b) \<Rightarrow> f a b)"
  by (simp split: prod.splits)

lemma maintains_case_option [maintains_intros]:
  "maintains I n \<Longrightarrow> (\<And>a. maintains I (f a)) \<Longrightarrow> maintains I (case p of None \<Rightarrow> n | Some a \<Rightarrow> f a)"
  by (simp split: option.splits)

end
