(* ===== verification/CoreProps.thy ===== *)
theory CoreProps
  imports CoreMain Frames
begin

text \<open>
  What \<open>core_main\<close> does for any disk and device, without a promise that their waits end (\<open>CoreResume\<close> has what it does with a device
  that keeps its specification): no function of the driver and of the dumps but the last step of a switch touches
  \<open>kernel_waking_vector\<close>, none touches core's header, and every path ends in the return to a kernel.
\<close>

section \<open>The header and the waking vector are kept\<close>

definition keeps_vector :: "core_header \<Rightarrow> u32 \<Rightarrow> 'd machine \<Rightarrow> bool" where
  "keeps_vector h w s \<longleftrightarrow> g_core_header s = h \<and> waking_out s = w"

lemma keeps_vector_upd [simp]:
  "keeps_vector h w (s\<lparr>dev := d\<rparr>) = keeps_vector h w s" "keeps_vector h w (s\<lparr>mem := m\<rparr>) = keeps_vector h w s"
  "keeps_vector h w (s\<lparr>heap := hp\<rparr>) = keeps_vector h w s" "keeps_vector h w (s\<lparr>vq := v\<rparr>) = keeps_vector h w s"
  "keeps_vector h w (upd_queue f s) = keeps_vector h w s" "keeps_vector h w (upd_vq g s) = keeps_vector h w s"
  "keeps_vector h w (upd_blk k s) = keeps_vector h w s"
  by (simp_all add: keeps_vector_def)

lemma keeps_on_dev [maintains_intros]: "maintains (keeps_vector h w) (on_dev m)"
  unfolding on_dev_def by (rule maintains_zoom) simp

lemma keeps_calloc [maintains_intros]: "maintains (keeps_vector h w) (calloc c n)"
  unfolding calloc_def by (rule maintains_stateful) (simp split: prod.splits)

lemma keeps_free_at [maintains_intros]: "maintains (keeps_vector h w) (free_at p)"
  unfolding free_at_def by (rule maintains_modify) simp

lemma keeps_desc [maintains_intros]: "maintains (keeps_vector h w) (read_desc i)" "maintains (keeps_vector h w) (upd_desc i f)"
  unfolding read_desc_def upd_desc_def by (intro maintains_intros; simp)+

lemma keeps_set_mem [maintains_intros]: "maintains (keeps_vector h w) (set_mem f)"
  unfolding set_mem_def by (rule maintains_modify) simp

lemma keeps_queue [maintains_intros]:
  "maintains (keeps_vector h w) (configure_queue_ptrs P cfg q)" "maintains (keeps_vector h w) (init_queue_notify_off P)"
  "maintains (keeps_vector h w) (alloc_virtqueue n)"
  "maintains (keeps_vector h w) alloc_queue_desc" "maintains (keeps_vector h w) (free_queue_desc d)"
  "maintains (keeps_vector h w) is_unseen_used_virtio_queue"
  unfolding Let_def configure_queue_ptrs_def init_queue_notify_off_def alloc_virtqueue_def alloc_queue_desc_def
    free_queue_desc_def is_unseen_used_virtio_queue_def
  by (intro maintains_intros; simp)+

lemma keeps_pop [maintains_intros]: "maintains (keeps_vector h w) pop_used_virtio_queue"
  unfolding Let_def pop_used_virtio_queue_def by (intro maintains_intros; simp)

lemma keeps_fill_virtqueue [maintains_intros]: "maintains (keeps_vector h w) (fill_virtqueue P cfg n)"
  unfolding Let_def fill_virtqueue_def by (intro maintains_intros; simp)

lemma keeps_init_virtio_blk_queue [maintains_intros]: "maintains (keeps_vector h w) (init_virtio_blk_queue P)"
  unfolding Let_def init_virtio_blk_queue_def by (intro maintains_intros; simp)

lemma keeps_caps [maintains_intros]:
  "maintains (keeps_vector h w) (ITERATE_PCI_CAPABILITIES n dev (\<lambda>d s. s\<lparr>dev := d\<rparr>) hw p (parse_virtio_blk_cap P))"
proof -
  have "maintains (keeps_vector h w) (parse_virtio_blk_cap P off)" for off
    unfolding parse_virtio_blk_cap_def Let_def by (intro maintains_intros; simp)
  moreover have "maintains (keeps_vector h w) (zoom dev (\<lambda>d s. s\<lparr>dev := d\<rparr>) m)" for m :: "('d, 'b) cfun"
    by (rule maintains_zoom) simp
  ultimately have "maintains (keeps_vector h w) (iterate_caps n dev (\<lambda>d s. s\<lparr>dev := d\<rparr>) hw p (parse_virtio_blk_cap P) off)" for off
    by (induction n arbitrary: off) (auto intro!: maintains_intros)
  then show ?thesis
    unfolding ITERATE_PCI_CAPABILITIES_def by (intro maintains_intros maintains_zoom) simp_all
qed

lemma keeps_init_dev [maintains_intros]: "maintains (keeps_vector h w) (init_virtio_blk_dev P)"
  unfolding Let_def init_virtio_blk_dev_def parse_virtio_blk_caps_def init_virtio_status_def negotiate_virtio_features_def restore_bars_def
  by (intro maintains_intros; simp)

lemma keeps_request [maintains_intros]: "maintains (keeps_vector h w) (request_virtio_blk P t sec data n)"
  unfolding Let_def request_virtio_blk_def abandon_request_def fill_request_header_def fill_request_descs_def publish_request_def
  by (intro maintains_intros; simp)

lemma keeps_consume [maintains_intros]: "maintains (keeps_vector h w) (consume_response_virtio_blk P)"
  unfolding Let_def consume_response_virtio_blk_def wait_response_def validate_used_response_def free_request_def release_request_def
  by (intro maintains_intros; simp split: prod.splits)

lemma keeps_transfer [maintains_intros]:
  "maintains (keeps_vector h w) (read_virtio_blk P sec data n)" "maintains (keeps_vector h w) (write_virtio_blk P sec data n)"
  unfolding read_virtio_blk_def write_virtio_blk_def by (intro maintains_intros)+

lemma keeps_for_areas [maintains_intros]:
  "(\<And>i. maintains (keeps_vector h w) (body i)) \<Longrightarrow> maintains (keeps_vector h w) (for_areas n P body i)"
  by (induction n arbitrary: i) (auto intro!: maintains_intros)

lemma keeps_header_io [maintains_intros]:
  "maintains (keeps_vector h w) (read_dump_header P)" "maintains (keeps_vector h w) (write_dump_header P)"
  "maintains (keeps_vector h w) (store_area P i)" "maintains (keeps_vector h w) (load_area P i)"
  "maintains (keeps_vector h w) find_original_waking_vector"
  unfolding read_dump_header_def write_dump_header_def store_area_def load_area_def find_original_waking_vector_def
  by (intro maintains_intros)+

lemma keeps_valid [maintains_intros]: "maintains (keeps_vector h w) (is_dump_header_valid P)"
proof -
  have "maintains (keeps_vector h w) (all_areas_positive P is)" "maintains (keeps_vector h w) (all_areas_match P is)" for "is"
    by (induction "is") (auto intro!: maintains_intros)
  then show ?thesis unfolding is_dump_header_valid_def Let_def by (intro maintains_intros)
qed

lemma keeps_store [maintains_intros]: "maintains (keeps_vector h w) (disk_store_dump P)"
proof -
  have "maintains (keeps_vector h w) (fill_dump_areas P is sec)" for "is" sec
    by (induction "is" arbitrary: sec) (auto simp: Let_def intro!: maintains_intros)
  then show ?thesis unfolding disk_store_dump_def fill_dump_header_def by (intro maintains_intros)
qed

lemma keeps_contains [maintains_intros]: "maintains (keeps_vector h w) (does_disk_contain_dump P)"
  unfolding does_disk_contain_dump_def by (intro maintains_intros)

section \<open>The way back to a kernel\<close>

definition resumed :: "'d uacpi \<Rightarrow> u32 \<Rightarrow> 'd machine \<Rightarrow> bool" where
  "resumed U w t \<longleftrightarrow> (\<exists>u. t = uacpi_enter_sleep_state U ((if w \<noteq> 0 then uacpi_set_waking_vector U (ucast w) 0 else id)
     (uacpi_prepare_for_sleep_state U u)))"

text \<open>The vector in the FACS that the header of core points to.\<close>

definition saved_vector :: "'d machine \<Rightarrow> u32" where
  "saved_vector s = load32 (mem s) (hdr_facs (g_core_header s) + facs_rsvd1)"

text \<open>
  What \<open>core_main\<close> may do with a saved vector: none if the header is not valid or no vector was saved; if no switch was
  asked for, the saved one.
\<close>

definition returns_to :: "core_header \<Rightarrow> u32 \<Rightarrow> u32 \<Rightarrow> bool" where
  "returns_to h saved w \<longleftrightarrow> (if \<not> is_core_header_valid h \<or> saved = 0 then w = 0
     else hdr_action h = CORE_ACTION_SWITCH \<or> w = saved)"

lemma core_action_body_vector:
  assumes "waking_out s = 0" and "g_core_header s = h"
  defines "Q \<equiv> \<lambda>t. returns_to h (saved_vector s) (waking_out t)"
  shows "wlp (core_action_body P) (\<lambda>_. Q) Q s"
proof -
  have "wlp (bind (gets (hdr_action \<circ> g_core_header)) (\<lambda>action.
     if action = CORE_ACTION_STORE then disk_store_dump P
     else if action = CORE_ACTION_SWITCH then seq (bind (does_disk_contain_dump P) CHECK) (disk_switch_dump P)
     else throw ERR_INVALID)) (\<lambda>_. Q) Q t"
    if "keeps_vector h (saved_vector s) t" "is_core_header_valid h" "saved_vector s \<noteq> 0" for t
  proof (cases "hdr_action h = CORE_ACTION_SWITCH")
    case True
    with that show ?thesis by (intro wlp_True) (auto simp: Q_def returns_to_def)
  next
    case False
    have "wlp (disk_store_dump P) (\<lambda>_. Q) Q t"
      by (rule maintains_wlp [OF keeps_store that(1)]) (use that in \<open>auto simp: Q_def keeps_vector_def returns_to_def\<close>)
    with that False show ?thesis
      by (auto simp: wlp_simps keeps_vector_def [of h] Q_def returns_to_def)
  qed
  then have "wlp (seq (init_virtio_blk_dev P) (bind (gets (hdr_action \<circ> g_core_header)) (\<lambda>action.
     if action = CORE_ACTION_STORE then disk_store_dump P
     else if action = CORE_ACTION_SWITCH then seq (bind (does_disk_contain_dump P) CHECK) (disk_switch_dump P)
     else throw ERR_INVALID))) (\<lambda>_. Q) Q t"
    if "keeps_vector h (saved_vector s) t" "is_core_header_valid h" "saved_vector s \<noteq> 0" for t
    unfolding wlp_seq using that
    by (intro maintains_wlp [OF keeps_init_dev that(1)]) (auto simp: Q_def keeps_vector_def returns_to_def)
  then show ?thesis
    using assms(1,2)
    by (simp add: core_action_body_def wlp_seq wlp_bind find_original_waking_vector_def wlp_gets wlp_CHECK wlp_ret set_waking_out_def
        wlp_modify saved_vector_def Q_def keeps_vector_def returns_to_def)
qed

lemma core_main_body_vector:
  assumes "waking_out t = 0" and "g_core_header t = h" and "mem t = mem s0" and "g_core_header s0 = h"
  shows "wlp (ignore_error (core_action_body P)) (\<lambda>_ t. returns_to h (saved_vector s0) (waking_out t)) (\<lambda>_. False) t"
proof -
  have "saved_vector t = saved_vector s0" using assms by (simp add: saved_vector_def)
  with core_action_body_vector [OF assms(1,2), of P] show ?thesis by (simp add: wlp_ignore_error)
qed

lemma core_main_finish:
  assumes "R w"
  shows "wlp (seq (ignore_error (acpi_setup U)) (acpi_return_kernel U w)) (\<lambda>_ t. \<exists>w. resumed U w t \<and> R w) (\<lambda>_. False) t"
proof -
  have ret: "wlp (acpi_return_kernel U w) (\<lambda>_ t. \<exists>w. resumed U w t \<and> R w) (\<lambda>_. False) u" for u
  proof (rule wlp_mono)
    show "wlp (acpi_return_kernel U w) (\<lambda>_. resumed U w) (\<lambda>_. False) u"
      by (cases "w = 0") (auto simp: acpi_return_kernel_def wlp_simps resumed_def)
  qed (use assms in auto)
  then show ?thesis unfolding wlp_seq wlp_ignore_error by (intro wlp_True ret)
qed

text \<open>Whatever the disk and its device do, \<open>core_main\<close> never ends with an error: if its wait for the device comes to an end, it ends
  in the return to a kernel; when it was not asked to switch, that is the kernel that went to sleep, also when the store fails; without
  a valid header or a saved vector no vector is set.\<close>

theorem core_main_never_fails:
  "let s0 = uacpi_state_reset U s; h = g_core_header s0 in
   case core_main P U s of
     Returns _ t \<Rightarrow> (\<exists>w. resumed U w t \<and> returns_to h (saved_vector s0) w)
   | Throws _ _ \<Rightarrow> False
   | Faults _ \<Rightarrow> True"
proof -
  define s0 where "s0 = uacpi_state_reset U s"
  define h where "h = g_core_header s0"
  have rest: "wlp (seq (ignore_error (core_action_body P)) (bind (gets waking_out) (\<lambda>w. seq (ignore_error (acpi_setup U)) (acpi_return_kernel U w))))
      (\<lambda>_ t. \<exists>w. resumed U w t \<and> returns_to h (saved_vector s0) w) (\<lambda>_. False) t"
    if "waking_out t = 0" "g_core_header t = h" "mem t = mem s0" for t
    unfolding wlp_seq [of "ignore_error (core_action_body _)"] wlp_bind wlp_gets
    by (rule wlp_mono [OF core_main_body_vector [OF that h_def [symmetric]]]) (auto intro: core_main_finish)
  have "wlp (core_main P U) (\<lambda>_ t. \<exists>w. resumed U w t \<and> returns_to h (saved_vector s0) w) (\<lambda>_. False) s"
    unfolding core_main_def acpi_destroy_def set_waking_out_def init_allocators_def
    unfolding wlp_seq [of "modify _"] wlp_seq [of "bind _ _"] wlp_bind [of "gets heap"] wlp_modify wlp_gets s0_def [symmetric]
    by (auto split: option.split simp: wlp_faults wlp_modify h_def intro!: rest [unfolded h_def])
  then show ?thesis by (simp add: wlp_def Let_def h_def s0_def split: outcome.splits)
qed

end
