(* ===== verification/BlockSpec.thy ===== *)
theory BlockSpec
  imports MemUtils
begin

text \<open>
  The contract between the block device's driver and the code that stores and loads dumps: reading and
  writing a range of sectors as one operation that waits for its response. The driver's model provides
  it in \<open>BlockIO\<close>; the lemmas of \<open>Dump\<close> rest on what is derived here.
\<close>

section \<open>The disk\<close>

text \<open>The content of a disk is a byte per index; a sector has 512 of them.\<close>

definition disk_bytes :: "(nat \<Rightarrow> u8) \<Rightarrow> u64 \<Rightarrow> nat \<Rightarrow> u8 list" where
  "disk_bytes dsk sector n = map (\<lambda>k. dsk (512 * unat sector + k)) [0..<n]"

definition disk_put :: "u64 \<Rightarrow> u8 list \<Rightarrow> (nat \<Rightarrow> u8) \<Rightarrow> nat \<Rightarrow> u8" where
  "disk_put sector bs dsk = (\<lambda>i. if 512 * unat sector \<le> i \<and> i < 512 * unat sector + length bs
     then bs ! (i - 512 * unat sector) else dsk i)"

lemma length_disk_bytes [simp]: "length (disk_bytes dsk sector n) = n"
  by (simp add: disk_bytes_def)

lemma disk_bytes_put_same: "n = length bs \<Longrightarrow> disk_bytes (disk_put sector bs dsk) sector n = bs"
  by (rule nth_equalityI) (simp_all add: disk_bytes_def disk_put_def)

lemma disk_bytes_put_other:
  assumes "512 * unat s + n \<le> 512 * unat t \<or> 512 * unat t + length bs \<le> 512 * unat s"
  shows "disk_bytes (disk_put t bs dsk) s n = disk_bytes dsk s n"
  using assms by (intro nth_equalityI) (auto simp: disk_bytes_def disk_put_def)

lemma disk_put_bytes_id: "disk_put sector (disk_bytes dsk sector n) dsk = dsk"
  by (auto simp: disk_put_def disk_bytes_def fun_eq_iff)

section \<open>The contract\<close>

text \<open>
  \<open>view s\<close> is the memory that the clients of the driver see, \<open>dsk s\<close> the disk and \<open>rest s\<close> the part of the
  state the operations leave alone, which decides the driver's private memory \<open>priv\<close>. \<open>cp\<close> copies memory.
\<close>

locale block_io =
  fixes rd :: "u64 \<Rightarrow> u64 \<Rightarrow> u64 \<Rightarrow> ('s, unit) cfun"
    and wr :: "u64 \<Rightarrow> u64 \<Rightarrow> u64 \<Rightarrow> ('s, unit) cfun"
    and cp :: "u64 \<Rightarrow> u64 \<Rightarrow> u64 \<Rightarrow> ('s, unit) cfun"
    and idle :: "'s \<Rightarrow> bool"
    and view :: "'s \<Rightarrow> memory"
    and dsk :: "'s \<Rightarrow> nat \<Rightarrow> u8"
    and rest :: "'s \<Rightarrow> 'k"
    and priv :: "'k \<Rightarrow> u64 set"
    and cap :: nat
  assumes rd_law: "\<And>s sector data n Q E. idle s \<Longrightarrow> 0 < unat n \<Longrightarrow> unat n < 2 ^ 32 \<Longrightarrow> n mod 512 = 0 \<Longrightarrow>
      region data (unat n) \<inter> priv (rest s) = {} \<Longrightarrow> 512 * unat sector + unat n \<le> cap \<Longrightarrow>
      (\<And>t. idle t \<Longrightarrow> view t = mem_write (view s) data (disk_bytes (dsk s) sector (unat n)) \<Longrightarrow> dsk t = dsk s \<Longrightarrow>
         rest t = rest s \<Longrightarrow> Q () t) \<Longrightarrow> wp (rd sector data n) Q E s"
    and wr_law: "\<And>s sector data n Q E. idle s \<Longrightarrow> 0 < unat n \<Longrightarrow> unat n < 2 ^ 32 \<Longrightarrow> n mod 512 = 0 \<Longrightarrow>
      region data (unat n) \<inter> priv (rest s) = {} \<Longrightarrow> 512 * unat sector + unat n \<le> cap \<Longrightarrow>
      (\<And>t. idle t \<Longrightarrow> view t = view s \<Longrightarrow> dsk t = disk_put sector (mem_read (view s) data (unat n)) (dsk s) \<Longrightarrow>
         rest t = rest s \<Longrightarrow> Q () t) \<Longrightarrow> wp (wr sector data n) Q E s"
    and cp_law: "\<And>s a b n Q E. idle s \<Longrightarrow> region a (unat n) \<inter> region b (unat n) = {} \<Longrightarrow>
      (region a (unat n) \<union> region b (unat n)) \<inter> priv (rest s) = {} \<Longrightarrow>
      (\<And>t. idle t \<Longrightarrow> view t = mem_write (view s) a (mem_read (view s) b (unat n)) \<Longrightarrow> dsk t = dsk s \<Longrightarrow>
         rest t = rest s \<Longrightarrow> Q () t) \<Longrightarrow> wp (cp a b n) Q E s"
begin

text \<open>What has been written is read back, wherever to.\<close>

lemma write_read:
  assumes "idle s" "0 < unat n" "unat n < 2 ^ 32" "n mod 512 = 0" "512 * unat sector + unat n \<le> cap"
    and "region a (unat n) \<inter> priv (rest s) = {}" "region b (unat n) \<inter> priv (rest s) = {}"
    and "\<And>t. idle t \<Longrightarrow> view t = mem_write (view s) b (mem_read (view s) a (unat n)) \<Longrightarrow> rest t = rest s \<Longrightarrow> Q () t"
  shows "wp (seq (wr sector a n) (rd sector b n)) Q E s"
  unfolding wp_seq
proof (rule wr_law [OF assms(1-4,6,5)])
  fix t assume t: "idle t" "view t = view s" "dsk t = disk_put sector (mem_read (view s) a (unat n)) (dsk s)" "rest t = rest s"
  show "wp (rd sector b n) Q E t"
    by (rule rd_law [OF t(1) assms(2-4) _ assms(5)]) (use t assms(7) in \<open>auto simp: disk_bytes_put_same intro!: assms(8)\<close>)
qed

text \<open>
  The exchange of a range of memory with a range of the disk by way of a buffer: the steps of a round of
  \<open>switch_memory_area\<close>.
\<close>

lemma exchange:
  assumes s: "idle s" and n: "0 < unat n" "unat n < 2 ^ 32" "n mod 512 = 0" and "512 * unat sector + unat n \<le> cap"
    and p: "region addr (unat n) \<inter> priv (rest s) = {}" "region tmp (unat n) \<inter> priv (rest s) = {}"
    and d: "region addr (unat n) \<inter> region tmp (unat n) = {}"
    and Q: "\<And>t. idle t \<Longrightarrow> rest t = rest s \<Longrightarrow>
      view t = mem_write (mem_write (view s) tmp (disk_bytes (dsk s) sector (unat n))) addr (disk_bytes (dsk s) sector (unat n)) \<Longrightarrow>
      dsk t = disk_put sector (mem_read (view s) addr (unat n)) (dsk s) \<Longrightarrow> Q () t"
  shows "wp (seq (rd sector tmp n) (seq (wr sector addr n) (cp addr tmp n))) Q E s"
proof -
  have big: "unat n \<le> 2 ^ 64" using n(2) by simp
  have a: "mem_read (mem_write m tmp (disk_bytes (dsk s) sector (unat n))) addr (unat n) = mem_read m addr (unat n)" for m
    using d big by (simp add: mem_read_write_disjoint)
  have b: "mem_read (mem_write m tmp (disk_bytes (dsk s) sector (unat n))) tmp (unat n) = disk_bytes (dsk s) sector (unat n)" for m
    using big by (simp add: mem_read_write_same)
  show ?thesis
    unfolding wp_seq
  proof (rule rd_law [OF s n p(2) assms(5)])
    fix t assume t: "idle t" "view t = mem_write (view s) tmp (disk_bytes (dsk s) sector (unat n))" "dsk t = dsk s" "rest t = rest s"
    show "wp (wr sector addr n) (\<lambda>_. wp (cp addr tmp n) Q E) E t"
    proof (rule wr_law [OF t(1) n _ assms(5)])
      show "region addr (unat n) \<inter> priv (rest t) = {}" using p(1) t(4) by simp
      fix u assume u: "idle u" "view u = view t" "dsk u = disk_put sector (mem_read (view t) addr (unat n)) (dsk t)" "rest u = rest t"
      show "wp (cp addr tmp n) Q E u"
        by (rule cp_law [OF u(1) d]) (use p t u a b in \<open>auto intro!: Q\<close>)
    qed
  qed
qed

end

end
