(* ===== verification/BlockIO.thy ===== *)
theory BlockIO
  imports VirtBlk BlockSpec
begin

text \<open>
  What a request to the block device does from the caller's side: one that is sent and whose response is
  consumed reads or writes a range of the disk, leaves the free descriptors and the allocators as they
  were, and touches no other memory. The device is hardware; that it follows the virtio specification
  is the hypothesis \<open>serves\<close>.
\<close>

section \<open>Sending a request\<close>

definition request_descs :: "u32 \<Rightarrow> u64 \<Rightarrow> u64 \<Rightarrow> u64 \<Rightarrow> u16 \<Rightarrow> u16 \<Rightarrow> u16 \<Rightarrow> virtq_desc list \<Rightarrow> virtq_desc list" where
  "request_descs ty hdr data n x y z ds = ds
     [unat x := \<lparr>vd_addr = hdr, vd_len = 16, vd_flags = 1, vd_next = y\<rparr>,
      unat y := \<lparr>vd_addr = data, vd_len = ucast n, vd_flags = (if ty = VIRTIO_BLK_T_IN then 3 else 1), vd_next = z\<rparr>,
      unat z := \<lparr>vd_addr = hdr + 16, vd_len = 1, vd_flags = 2, vd_next = vd_next (ds ! unat z)\<rparr>]"

definition request_mem :: "u32 \<Rightarrow> u64 \<Rightarrow> u64 \<Rightarrow> memory \<Rightarrow> memory" where
  "request_mem ty sector hdr m = (store64 (hdr + 8) sector (store32 hdr ty m))(hdr + 16 := 0)"

definition request_vq :: "u32 \<Rightarrow> u64 \<Rightarrow> u64 \<Rightarrow> u64 \<Rightarrow> u16 \<Rightarrow> u16 \<Rightarrow> u16 \<Rightarrow> u16 \<Rightarrow> virtqueue \<Rightarrow> virtqueue" where
  "request_vq ty hdr data n x y z k v = v\<lparr>vq_desc := request_descs ty hdr data n x y z (vq_desc v),
     avail_ring := (avail_ring v)[unat (avail_idx v mod k) := x], avail_idx := avail_idx v + 1\<rparr>"

lemma upd_twice [simp]:
  "upd_queue f (upd_queue g s) = upd_queue (f \<circ> g) s" "upd_vq f' (upd_vq g' s) = upd_vq (f' \<circ> g') s"
  by (simp_all add: upd_queue_def upd_vq_def)

lemma desc_distinct3:
  assumes "desc_holds s (x # y # z # rest)"
  shows "unat x \<noteq> unat y" "unat x \<noteq> unat z" "unat y \<noteq> unat z"
    "unat x < length (vq_desc (vq s))" "unat y < length (vq_desc (vq s))" "unat z < length (vq_desc (vq s))"
    "free_head (queue (blk s)) = x" "next_desc (vq_desc (vq s)) x = y" "next_desc (vq_desc (vq s)) y = z"
    "x \<noteq> VIRTIO_INVALID_FREE_HEAD" "y \<noteq> VIRTIO_INVALID_FREE_HEAD" "z \<noteq> VIRTIO_INVALID_FREE_HEAD"
proof -
  have "distinct (x # y # z # rest)" by (rule desc_pool.holds_distinct [OF assms])
  then show "unat x \<noteq> unat y" "unat x \<noteq> unat z" "unat y \<noteq> unat z" by (auto simp: word_unat_eq_iff)
qed (use assms in \<open>auto simp: desc_holds_def\<close>)

lemma queue_wf_mod:
  assumes "queue_wf s"
  shows "q_size (queue (blk s)) \<noteq> 0" "unat (i mod q_size (queue (blk s))) < unat (q_size (queue (blk s)))"
proof -
  show n: "q_size (queue (blk s)) \<noteq> 0" using assms by (auto simp: queue_wf_def Let_def)
  then have "0 < unat (q_size (queue (blk s)))" by (simp add: unat_gt_0)
  then show "unat (i mod q_size (queue (blk s))) < unat (q_size (queue (blk s)))" by (simp add: unat_mod)
qed

lemma wp_request_virtio_blk:
  assumes d: "desc_holds s (x # y # z # rest)" and c: "core_calloc 17 1 (heap s, mem s) = (p, h', m')" "p \<noteq> 0"
    and n: "n mod 512 = 0"
    and Q: "Q () (s\<lparr>heap := h', mem := request_mem ty sector p m',
        blk := (blk s)\<lparr>queue := (queue (blk s))\<lparr>free_head := next_desc (vq_desc (vq s)) z\<rparr>\<rparr>,
        vq := request_vq ty p data n x y z (q_size (queue (blk s))) (vq s),
        dev := mmio_out (hardware P) 2 (notify_off (queue (blk s))) (ucast (q_num (queue (blk s)))) (dev s)\<rparr>)"
  shows "wp (request_virtio_blk P ty sector data n) Q E s"
proof -
  note dd = desc_distinct3 [OF d]
  have w: "queue_wf s" "length (avail_ring (vq s)) = unat (q_size (queue (blk s)))"
    using d by (auto simp: desc_holds_def queue_wf_def Let_def)
  note md = queue_wf_mod [OF w(1)]
  note dx = dd(4-12) [unfolded next_desc_def VIRTIO_INVALID_FREE_HEAD_def]
  have fin: "wp (publish_request P x) Q E (upd_vq (\<lambda>v. v\<lparr>vq_desc := request_descs ty p data n x y z (vq_desc (vq s))\<rparr>)
      (upd_queue (\<lambda>q. q\<lparr>free_head := next_desc (vq_desc (vq s)) z\<rparr>) (s\<lparr>heap := h', mem := request_mem ty sector p m'\<rparr>)))"
    using Q md w by (simp add: publish_request_def wp_simps upd_vq_def upd_queue_def request_vq_def o_def)
  have descs: "wp (fill_request_descs ty p data n x y z) R E t = R () (upd_vq (\<lambda>v. v\<lparr>vq_desc := request_descs ty p data n x y z (vq_desc v)\<rparr>) t)"
    if "length (vq_desc (vq t)) = length (vq_desc (vq s))" for R and t :: "'a machine"
    using that dd by (simp add: fill_request_descs_def wp_simps virtio_consts request_descs_def upd_vq_def list_update_swap)
  show ?thesis
    unfolding request_virtio_blk_def
    using fin n c dx
    by (simp add: wp_simps fill_request_header_def alloc_queue_desc_def descs VIRTIO_BLK_SECTOR_SIZE_def
        sizeof_virtio_blk_req_def VIRTIO_INVALID_FREE_HEAD_def VIRTIO_INVALID_DESC_def)
      (simp add: upd_vq_def upd_queue_def o_def request_mem_def next_desc_def)
qed

section \<open>Waiting for the device\<close>

definition shared :: "'d machine \<Rightarrow> memory \<times> virtqueue \<times> 'd" where
  "shared s = (mem s, vq s, dev s)"

definition set_shared :: "memory \<times> virtqueue \<times> 'd \<Rightarrow> 'd machine \<Rightarrow> 'd machine" where
  "set_shared t s = (case t of (m, v, d) \<Rightarrow> s\<lparr>mem := m, vq := v, dev := d\<rparr>)"

definition used_of :: "memory \<times> virtqueue \<times> 'd \<Rightarrow> u16" where
  "used_of t = used_idx (fst (snd t))"

lemma set_shared_simps [simp]:
  "shared (set_shared t s) = t" "set_shared t (set_shared u s) = set_shared t s" "set_shared (shared s) s = s"
  "queue (blk (set_shared t s)) = queue (blk s)" "used_idx (vq (set_shared t s)) = used_of t"
  by (simp_all add: shared_def set_shared_def used_of_def split: prod.splits)

text \<open>The loop ends in the first state of the device's run in which the used index has moved.\<close>

lemma while_response:
  assumes "k < fuel" and "\<forall>j<k. used_of ((device_step P ^^ j) (shared s)) = seen_used (queue (blk s))"
    and "used_of ((device_step P ^^ k) (shared s)) \<noteq> seen_used (queue (blk s))"
    and Q: "Q () (set_shared ((device_step P ^^ k) (shared s)) s)"
  shows "wp (while_fuel fuel (bind is_unseen_used_virtio_queue (\<lambda>unseen. ret (\<not> unseen)))
     (modify (\<lambda>s. case device_step P (mem s, vq s, dev s) of (m, v, d) \<Rightarrow> s\<lparr>mem := m, vq := v, dev := d\<rparr>))) Q E s"
proof -
  have step: "(\<lambda>s. case device_step P (mem s, vq s, dev s) of (m, v, d) \<Rightarrow> s\<lparr>mem := m, vq := v, dev := d\<rparr>) =
      (\<lambda>s. set_shared (device_step P (shared s)) s)"
    by (simp add: fun_eq_iff set_shared_def shared_def)
  show ?thesis
    unfolding step using assms
  proof (induction k arbitrary: s fuel)
    case 0
    then obtain n where "fuel = Suc n" by (cases fuel) auto
    with 0 show ?case
      by (simp add: wp_simps is_unseen_used_virtio_queue_def used_of_def shared_def set_shared_def)
  next
    case (Suc k)
    then obtain n where n: "fuel = Suc n" "k < n" by (cases fuel) auto
    have "used_idx (vq s) = seen_used (queue (blk s))"
      using Suc.prems(2) by (auto simp: used_of_def shared_def dest: spec [of _ 0])
    moreover have "wp (while_fuel n (bind is_unseen_used_virtio_queue (\<lambda>unseen. ret (\<not> unseen)))
        (modify (\<lambda>s. set_shared (device_step P (shared s)) s))) Q E (set_shared (device_step P (shared s)) s)"
      using Suc.prems n
      by (intro Suc.IH) (auto simp: funpow_swap1 simp flip: funpow.simps(2) [THEN fun_cong, unfolded o_apply]
          dest: spec [of _ "Suc j" for j])
    ultimately show ?case
      by (simp add: n wp_simps is_unseen_used_virtio_queue_def)
  qed
qed

section \<open>Consuming the response\<close>

definition released_descs :: "u16 \<Rightarrow> u16 \<Rightarrow> u16 \<Rightarrow> u16 \<Rightarrow> virtq_desc list \<Rightarrow> virtq_desc list" where
  "released_descs x y z head ts = ts
     [unat x := (ts ! unat x)\<lparr>vd_next := head\<rparr>, unat y := (ts ! unat y)\<lparr>vd_next := x\<rparr>, unat z := (ts ! unat z)\<lparr>vd_next := y\<rparr>]"

text \<open>The chain of three descriptors of a request, as the driver laid it out.\<close>

definition is_request :: "u32 \<Rightarrow> u64 \<Rightarrow> u64 \<Rightarrow> u64 \<Rightarrow> u16 \<Rightarrow> u16 \<Rightarrow> u16 \<Rightarrow> virtq_desc list \<Rightarrow> bool" where
  "is_request ty hdr data n x y z ts \<longleftrightarrow>
     unat x < length ts \<and> unat y < length ts \<and> unat z < length ts \<and> distinct [x, y, z] \<and>
     ts ! unat x = \<lparr>vd_addr = hdr, vd_len = 16, vd_flags = 1, vd_next = y\<rparr> \<and>
     ts ! unat y = \<lparr>vd_addr = data, vd_len = ucast n, vd_flags = (if ty = VIRTIO_BLK_T_IN then 3 else 1), vd_next = z\<rparr> \<and>
     vd_addr (ts ! unat z) = hdr + 16 \<and> vd_len (ts ! unat z) = 1 \<and> vd_flags (ts ! unat z) = 2"

lemma is_request_descs:
  assumes "unat x < length ds" "unat y < length ds" "unat z < length ds" "distinct [x, y, z]"
  shows "is_request ty hdr data n x y z (request_descs ty hdr data n x y z ds)"
  using assms by (simp add: is_request_def request_descs_def word_unat_eq_iff)

lemma length_released [simp]: "length (released_descs x y z head ts) = length ts"
  and length_request_descs [simp]: "length (request_descs ty hdr data n x y z ts) = length ts"
  by (simp_all add: released_descs_def request_descs_def)

definition written_len :: "u32 \<Rightarrow> u64 \<Rightarrow> u32" where
  "written_len ty n = (if ty = VIRTIO_BLK_T_IN then ucast n + 1 else 1)"

lemma wp_release:
  assumes w: "queue_wf t" and r: "is_request ty hdr data n x y z (vq_desc (vq t))"
    and Q: "Q () (t\<lparr>vq := (vq t)\<lparr>vq_desc := released_descs x y z (free_head (queue (blk t))) (vq_desc (vq t))\<rparr>,
       blk := (blk t)\<lparr>queue := (queue (blk t))\<lparr>free_head := z\<rparr>\<rparr>, heap := core_free hdr (heap t)\<rparr>)"
  shows "wp (release_request x y z) Q E t"
proof -
  have d: "unat x \<noteq> unat y" "unat x \<noteq> unat z" "unat y \<noteq> unat z"
    "unat x < length (vq_desc (vq t))" "unat y < length (vq_desc (vq t))" "unat z < length (vq_desc (vq t))"
    using r by (auto simp: is_request_def word_unat_eq_iff)
  note b = queue_wf_bounds [OF w d(4)] queue_wf_bounds [OF w d(5)] queue_wf_bounds [OF w d(6)]
  have a: "vd_addr (vq_desc (vq t) ! unat x) = hdr" using r by (simp add: is_request_def)
  show ?thesis
    unfolding release_request_def
    using Q d b a by (simp add: wp_simps free_queue_desc_def upd_queue_def upd_vq_def released_descs_def o_def)
qed

lemma wp_consume_response:
  assumes k: "k < wait_fuel P" "\<forall>j<k. used_of ((device_step P ^^ j) (shared s)) = seen_used (queue (blk s))"
    and t: "t = set_shared ((device_step P ^^ k) (shared s)) s"
    and moved: "used_idx (vq t) \<noteq> seen_used (queue (blk s))"
    and w: "queue_wf t" and r: "is_request ty hdr data n x y z (vq_desc (vq t))"
    and e: "used_ring (vq t) ! unat (seen_used (queue (blk s)) mod q_size (queue (blk s))) = \<lparr>used_id = ucast x, used_len = written_len ty n\<rparr>"
    and ok: "mem t (hdr + 16) = 0"
    and Q: "Q () (t\<lparr>vq := (vq t)\<lparr>vq_desc := released_descs x y z (free_head (queue (blk t))) (vq_desc (vq t))\<rparr>,
       blk := (blk t)\<lparr>queue := (queue (blk t))\<lparr>seen_used := seen_used (queue (blk t)) + 1, free_head := z\<rparr>\<rparr>,
       heap := core_free hdr (heap t)\<rparr>)"
  shows "wp (consume_response_virtio_blk P) Q E s"
proof -
  have q: "queue (blk t) = queue (blk s)" by (simp add: t)
  have ring: "length (used_ring (vq t)) = unat (q_size (queue (blk t)))"
    using w by (simp add: queue_wf_def Let_def)
  define t1 where "t1 = upd_queue (\<lambda>q. q\<lparr>seen_used := seen_used q + 1\<rparr>) t"
  have w1: "queue_wf t1" using w by (simp add: t1_def queue_wf_def Let_def)
  have r1: "is_request ty hdr data n x y z (vq_desc (vq t1))" using r by (simp add: t1_def)
  have x: "x \<noteq> VIRTIO_INVALID_DESC"
    using queue_wf_bounds(1) [OF w, of x] r by (simp add: is_request_def)
  have valid: "wp (validate_used_response x (written_len ty n)) R E' t1 = R () t1" for R E'
    using r ok unfolding t1_def
    by (auto simp: validate_used_response_def wp_simps is_request_def virtio_consts written_len_def)
  have fin: "wp (free_request x) (\<lambda>_. Q ()) (Q ()) t1"
    using r1 Q unfolding free_request_def
    by (auto simp: wp_simps is_request_def virtio_consts t1_def upd_queue_def
        intro!: wp_release [OF w1 r1, unfolded t1_def upd_queue_def])
  have cast: "ucast (ucast x :: u32) = x"
    by (rule bit_word_eqI) (auto simp: bit_simps)
  have "wp pop_used_virtio_queue (\<lambda>(desc, len). wp (seq (on_error (validate_used_response desc len)
        (if desc \<noteq> VIRTIO_INVALID_DESC then ignore_error (free_request desc) else ret ()))
        (if desc \<noteq> VIRTIO_INVALID_DESC then ignore_error (free_request desc) else ret ())) Q E) E t"
    using moved e q queue_wf_mod [OF w] ring valid fin x cast
    by (simp add: pop_used_virtio_queue_def is_unseen_used_virtio_queue_def wp_simps t1_def)
  then have "wp (bind pop_used_virtio_queue (\<lambda>(desc, len).
       let finish = (if desc \<noteq> VIRTIO_INVALID_DESC then ignore_error (free_request desc) else ret ())
       in seq (on_error (validate_used_response desc len) finish) finish)) Q E t"
    by (simp add: wp_bind Let_def split_def)
  then show ?thesis
    unfolding consume_response_virtio_blk_def wait_response_def wp_seq [of "while_fuel f b m" for f b m]
    using moved by (intro while_response [OF k]) (simp_all add: t)
qed

section \<open>The device's contract\<close>

text \<open>\<open>disk d\<close> is the content of the disk in device state \<open>d\<close>.\<close>

definition answer_mem :: "u32 \<Rightarrow> u64 \<Rightarrow> u64 \<Rightarrow> u64 \<Rightarrow> (nat \<Rightarrow> u8) \<Rightarrow> memory \<Rightarrow> memory" where
  "answer_mem ty sector data n dsk m =
     (if ty = VIRTIO_BLK_T_IN then mem_write m data (disk_bytes dsk sector (unat n)) else m)"

definition answer_disk :: "u32 \<Rightarrow> u64 \<Rightarrow> u64 \<Rightarrow> u64 \<Rightarrow> memory \<Rightarrow> (nat \<Rightarrow> u8) \<Rightarrow> nat \<Rightarrow> u8" where
  "answer_disk ty sector data n m dsk =
     (if ty = VIRTIO_BLK_T_IN then dsk else disk_put sector (mem_read m data (unat n)) dsk)"

text \<open>A request the driver has published and the device has not used yet, in a ring of \<open>k\<close> entries.\<close>

definition pending :: "u32 \<Rightarrow> u64 \<Rightarrow> u64 \<Rightarrow> u64 \<Rightarrow> u64 \<Rightarrow> u16 \<Rightarrow> u16 \<Rightarrow> u16 \<Rightarrow> u16 \<Rightarrow> memory \<Rightarrow> virtqueue \<Rightarrow> bool" where
  "pending ty sector data n hdr x y z k m v \<longleftrightarrow>
     is_request ty hdr data n x y z (vq_desc v) \<and> k \<noteq> 0 \<and> length (vq_desc v) = unat k \<and>
     length (avail_ring v) = unat k \<and> length (used_ring v) = unat k \<and>
     avail_idx v = used_idx v + 1 \<and> avail_ring v ! unat (used_idx v mod k) = x \<and>
     load32 m hdr = ty \<and> load64 m (hdr + 8) = sector \<and>
     ty \<in> {VIRTIO_BLK_T_IN, VIRTIO_BLK_T_OUT} \<and> 0 < unat n \<and> unat n < 2 ^ 32 \<and> n mod 512 = 0 \<and>
     hdr + 16 \<notin> region data (unat n)"

text \<open>
  What the virtio specification promises of a block device with \<open>cap\<close> bytes that has been initialised
  (\<open>live d a num\<close>: its queue \<open>num\<close> is enabled and notified at \<open>a\<close>): notified of a request within its
  capacity, it carries the request out within \<open>wait_fuel\<close> of its steps, writes the status and puts the
  chain with the length it has written into the used ring, and changes nothing else.
\<close>

definition serves :: "'d platform \<Rightarrow> ('d \<Rightarrow> nat \<Rightarrow> u8) \<Rightarrow> nat \<Rightarrow> ('d \<Rightarrow> u64 \<Rightarrow> u32 \<Rightarrow> bool) \<Rightarrow> bool" where
  "serves P disk cap live \<longleftrightarrow> (\<forall>ty sector data n hdr x y z k m v d a num.
     pending ty sector data n hdr x y z k m v \<longrightarrow> live d a num \<longrightarrow> 512 * unat sector + unat n \<le> cap \<longrightarrow>
     (\<exists>j<wait_fuel P. \<exists>d'.
        (\<forall>i<j. used_of ((device_step P ^^ i) (m, v, mmio_out (hardware P) 2 a num d)) = used_idx v) \<and>
        (device_step P ^^ j) (m, v, mmio_out (hardware P) 2 a num d) =
          ((answer_mem ty sector data n (disk d) m)(hdr + 16 := 0),
           v\<lparr>used_idx := used_idx v + 1,
             used_ring := (used_ring v)[unat (used_idx v mod k) := \<lparr>used_id = ucast x, used_len = written_len ty n\<rparr>]\<rparr>, d') \<and>
        disk d' = answer_disk ty sector data n m (disk d) \<and> live d' a num))"

section \<open>One request from start to end\<close>

definition heap_bytes :: "heap \<Rightarrow> u64 set" where
  "heap_bytes h = (\<Union>a \<in> set (allocators h). region (buf a) (unat (buf_size a)))"

text \<open>Memory outside the allocators' buffers, which is what callers of the driver see.\<close>

definition vis :: "'d machine \<Rightarrow> memory" where
  "vis s = (\<lambda>a. if a \<in> heap_bytes (heap s) then 0 else mem s a)"

text \<open>The driver and the device are idle and a request can be made.\<close>

definition ready :: "('d \<Rightarrow> u64 \<Rightarrow> u32 \<Rightarrow> bool) \<Rightarrow> 'd machine \<Rightarrow> bool" where
  "ready live s \<longleftrightarrow> (\<exists>x y z rest. desc_holds s (x # y # z # rest)) \<and>
     (\<exists>fl. heap_holds (heap s) fl \<and> buffers_apart (heap s) \<and>
        (\<exists>i b bs. find_allocator_for_size (heap s) 17 = Some i \<and> fl ! i = b # bs)) \<and>
     avail_idx (vq s) = used_idx (vq s) \<and> seen_used (queue (blk s)) = used_idx (vq s) \<and>
     live (dev s) (notify_off (queue (blk s))) (ucast (q_num (queue (blk s))))"

lemma ready_calloc:
  assumes "ready live s"
  obtains p h' where "core_calloc 17 1 (heap s, mem s) = (p, h', memset p 0 17 (mem s))" "p \<noteq> 0"
    "core_free p h' = heap s" "region p 17 \<subseteq> heap_bytes (heap s)" "unat p + 17 < 2 ^ 64"
proof -
  obtain fl i b bs where fl: "heap_holds (heap s) fl" "buffers_apart (heap s)"
    "find_allocator_for_size (heap s) 17 = Some i" "fl ! i = b # bs"
    using assms by (auto simp: ready_def)
  obtain p h' where m: "core_malloc 17 (heap s) = (p, h')" by (rule prod.exhaust)
  have "p \<noteq> 0" using core_malloc_NULL [OF fl(1)] m fl(3,4) by auto
  have i: "i < length (allocators (heap s))" "17 \<le> block_size (allocators (heap s) ! i)"
    using fl(3) by (auto simp: find_for_size_Some)
  then have g: "geometry (allocators (heap s) ! i)" using fl(1) by (simp add: heap_holds_def pool_holds_def)
  have p: "p \<in> blocks (allocators (heap s) ! i)"
    using core_malloc_block [OF fl(1) m \<open>p \<noteq> 0\<close>] fl(3) by auto
  have n: "17 \<le> unat (block_size (allocators (heap s) ! i))" using i(2) by (simp add: word_le_nat_alt)
  have "region p 17 \<subseteq> region (buf (allocators (heap s) ! i)) (unat (buf_size (allocators (heap s) ! i)))"
    using block_region_subset_buffer [OF g p] region_mono [OF n] by blast
  then have "region p 17 \<subseteq> heap_bytes (heap s)" using nth_mem [OF i(1)] by (auto simp: heap_bytes_def)
  moreover have "unat p + 17 < 2 ^ 64"
    using blocks_in_buffer(3) [OF g p] g n by (simp add: geometry_def)
  ultimately show thesis
    using that [of p h'] m \<open>p \<noteq> 0\<close> malloc_free_id [OF fl(1,2) m \<open>p \<noteq> 0\<close>] by (simp add: core_calloc_def)
qed

text \<open>The request header lies inside the block, and its fields read back.\<close>

lemma request_mem_outside:
  assumes "unat p + 17 < 2 ^ 64" and "a \<notin> region p 17"
  shows "request_mem ty sector p m a = m a"
proof -
  have 8: "unat (p + 8) = unat p + 8" and 16: "unat (p + 16) = unat p + 16"
    using assms(1) by (simp_all add: unat_word_ariths)
  have "a \<notin> region p 4" "a \<notin> region (p + 8) 8" "a \<noteq> p + 16"
    using assms 8 16 by (auto simp: mem_region_interval word_le_nat_alt)
  then show ?thesis by (simp add: request_mem_def store32_def store64_def mem_write_outside)
qed

lemma request_mem_fields:
  assumes "unat p + 17 < 2 ^ 64"
  shows "load32 (request_mem ty sector p m) p = ty" "load64 (request_mem ty sector p m) (p + 8) = sector"
proof -
  have 8: "unat (p + 8) = unat p + 8" and 16: "unat (p + 16) = unat p + 16"
    using assms by (simp_all add: unat_word_ariths)
  have "p + 16 \<notin> region p 4" "p + 16 \<notin> region (p + 8) 8" "region p 4 \<inter> region (p + 8) 8 = {}"
    using assms 8 16 region_disjointI(1) [of p 4 "p + 8" 8] by (auto simp: mem_region_interval)
  then show "load32 (request_mem ty sector p m) p = ty" "load64 (request_mem ty sector p m) (p + 8) = sector"
    unfolding request_mem_def load32_def load64_def store32_def store64_def
    by (subst mem_read_cong [where m' = "mem_write (mem_write m p (le_bytes 4 ty)) (p + 8) (le_bytes 8 sector)"];
        auto simp: mem_read_write_disjoint mem_read_write_same)+
qed

text \<open>After the response has been consumed, the three descriptors are back at the front of the list.\<close>

lemma released_holds:
  assumes d: "desc_holds s (x # y # z # rest)"
    and t: "vq_desc (vq t) = released_descs x y z (next_desc (vq_desc (vq s)) z) (request_descs ty hdr data n x y z (vq_desc (vq s)))"
    and "queue_wf t" and "free_head (queue (blk t)) = z"
  shows "desc_holds t (z # y # x # rest)"
proof -
  note dd = desc_distinct3 [OF d]
  have "distinct (x # y # z # rest)" by (rule desc_pool.holds_distinct [OF d])
  then have rest: "unat x \<noteq> unat w" "unat y \<noteq> unat w" "unat z \<noteq> unat w" if "w \<in> set rest" for w
    using that by (auto simp: word_unat_eq_iff [symmetric])
  have c: "chain VIRTIO_INVALID_FREE_HEAD (next_desc (vq_desc (vq s))) (next_desc (vq_desc (vq s)) z) rest"
    using d by (simp add: desc_holds_def)
  have "chain VIRTIO_INVALID_FREE_HEAD (next_desc (vq_desc (vq t))) (next_desc (vq_desc (vq s)) z) rest"
    using c rest by (subst chain_cong [where nx' = "next_desc (vq_desc (vq s))"])
      (simp_all add: t next_desc_def released_descs_def request_descs_def)
  moreover have "next_desc (vq_desc (vq t)) z = y" "next_desc (vq_desc (vq t)) y = x"
    "next_desc (vq_desc (vq t)) x = next_desc (vq_desc (vq s)) z"
    using dd(1-6) by (simp_all add: t next_desc_def released_descs_def request_descs_def)
  moreover have "\<forall>w \<in> set (x # y # z # rest). unat w < length (vq_desc (vq t))"
    using d by (auto simp: desc_holds_def t)
  ultimately show ?thesis
    using assms(3,4) dd(10-12) by (simp add: desc_holds_def)
qed

lemma wp_block_request:
  assumes dev: "serves P disk cap live" and rdy: "ready live s"
    and ty: "ty \<in> {VIRTIO_BLK_T_IN, VIRTIO_BLK_T_OUT}" and n: "0 < unat n" "unat n < 2 ^ 32" "n mod 512 = 0"
    and data: "region data (unat n) \<inter> heap_bytes (heap s) = {}" and cap: "512 * unat sector + unat n \<le> cap"
    and Q: "\<And>t. ready live t \<Longrightarrow> vis t = answer_mem ty sector data n (disk (dev s)) (vis s) \<Longrightarrow>
      disk (dev t) = answer_disk ty sector data n (vis s) (disk (dev s)) \<Longrightarrow> heap t = heap s \<Longrightarrow>
      g_core_header t = g_core_header s \<Longrightarrow> waking_out t = waking_out s \<Longrightarrow> Q () t"
  shows "wp (seq (request_virtio_blk P ty sector data n) (consume_response_virtio_blk P)) Q E s"
proof -
  obtain x y z rest where d: "desc_holds s (x # y # z # rest)" using rdy by (auto simp: ready_def)
  note dd = desc_distinct3 [OF d]
  have wf: "queue_wf s" using d by (simp add: desc_holds_def)
  let ?k = "q_size (queue (blk s))"
  have len: "length (vq_desc (vq s)) = unat ?k" "length (avail_ring (vq s)) = unat ?k" "length (used_ring (vq s)) = unat ?k" "?k \<noteq> 0"
    using wf queue_wf_mod(1) by (auto simp: queue_wf_def Let_def)
  have idx: "avail_idx (vq s) = used_idx (vq s)" "seen_used (queue (blk s)) = used_idx (vq s)"
    and lv: "live (dev s) (notify_off (queue (blk s))) (ucast (q_num (queue (blk s))))"
    using rdy by (simp_all add: ready_def)
  obtain p h' where c: "core_calloc 17 1 (heap s, mem s) = (p, h', memset p 0 17 (mem s))" "p \<noteq> 0"
    and hp: "core_free p h' = heap s" "region p 17 \<subseteq> heap_bytes (heap s)" "unat p + 17 < 2 ^ 64"
    using ready_calloc [OF rdy] .
  define m1 where "m1 = request_mem ty sector p (memset p 0 17 (mem s))"
  define v1 where "v1 = request_vq ty p data n x y z ?k (vq s)"
  define d1 where "d1 = mmio_out (hardware P) 2 (notify_off (queue (blk s))) (ucast (q_num (queue (blk s)))) (dev s)"
  define s1 where "s1 = s\<lparr>heap := h', mem := m1, blk := (blk s)\<lparr>queue := (queue (blk s))\<lparr>free_head := next_desc (vq_desc (vq s)) z\<rparr>\<rparr>,
    vq := v1, dev := d1\<rparr>"
  have st: "p + 16 \<in> region p 17" using region_offset [of 16 17 p] by simp
  have m1: "m1 a = mem s a" if "a \<notin> region p 17" for a
    using that by (simp add: m1_def request_mem_outside [OF hp(3)] memset_block mem_write_outside)
  have vis1: "(if a \<in> heap_bytes (heap s) then 0 else m1 a) = vis s a" for a
    using m1 [of a] hp(2) by (auto simp: vis_def)
  have rd: "mem_read m1 data (unat n) = mem_read (vis s) data (unat n)"
  proof (rule mem_read_cong)
    fix a assume "a \<in> region data (unat n)"
    then have "a \<notin> heap_bytes (heap s)" using data by blast
    then show "m1 a = vis s a" using vis1 [of a] by simp
  qed (use n(2) in simp)
  have req: "is_request ty p data n x y z (vq_desc v1)"
    unfolding v1_def using dd by (simp add: request_vq_def is_request_descs word_unat_eq_iff)
  have pend: "pending ty sector data n p x y z ?k m1 v1"
    unfolding pending_def using req len ty n idx queue_wf_mod(2) [OF wf, of "used_idx (vq s)"] data st hp(2)
    by (auto simp: v1_def request_vq_def m1_def request_mem_fields [OF hp(3)])
  obtain j d' where j: "j < wait_fuel P"
    "\<forall>i<j. used_of ((device_step P ^^ i) (shared s1)) = seen_used (queue (blk s1))"
    and run: "(device_step P ^^ j) (shared s1) = ((answer_mem ty sector data n (disk (dev s)) m1)(p + 16 := 0),
       v1\<lparr>used_idx := used_idx v1 + 1,
         used_ring := (used_ring v1)[unat (used_idx v1 mod ?k) := \<lparr>used_id = ucast x, used_len = written_len ty n\<rparr>]\<rparr>, d')"
    and d': "disk d' = answer_disk ty sector data n m1 (disk (dev s))" "live d' (notify_off (queue (blk s))) (ucast (q_num (queue (blk s))))"
    using dev [unfolded serves_def, rule_format, OF pend lv cap] idx
    by (auto simp: s1_def shared_def d1_def v1_def request_vq_def)
  define t where "t = set_shared ((device_step P ^^ j) (shared s1)) s1"
  have t: "mem t = (answer_mem ty sector data n (disk (dev s)) m1)(p + 16 := 0)" "dev t = d'" "heap t = h'"
    "vq t = v1\<lparr>used_idx := used_idx v1 + 1,
         used_ring := (used_ring v1)[unat (used_idx v1 mod ?k) := \<lparr>used_id = ucast x, used_len = written_len ty n\<rparr>]\<rparr>"
    "queue (blk t) = (queue (blk s))\<lparr>free_head := next_desc (vq_desc (vq s)) z\<rparr>"
    "g_core_header t = g_core_header s" "waking_out t = waking_out s"
    unfolding t_def run by (simp_all add: set_shared_def s1_def)
  have vt: "vq_desc (vq t) = request_descs ty p data n x y z (vq_desc (vq s))" "used_idx (vq t) = used_idx (vq s) + 1"
    "avail_idx (vq t) = avail_idx (vq s) + 1"
    by (simp_all add: t v1_def request_vq_def)
  have wt: "queue_wf t"
    using wf by (simp add: queue_wf_def Let_def t v1_def request_vq_def)
  define u where "u = t\<lparr>vq := (vq t)\<lparr>vq_desc := released_descs x y z (free_head (queue (blk t))) (vq_desc (vq t))\<rparr>,
       blk := (blk t)\<lparr>queue := (queue (blk t))\<lparr>seen_used := seen_used (queue (blk t)) + 1, free_head := z\<rparr>\<rparr>,
       heap := core_free p (heap t)\<rparr>"
  have u: "heap u = heap s" "mem u = mem t" "dev u = d'" "g_core_header u = g_core_header s" "waking_out u = waking_out s"
    by (simp_all add: u_def t hp(1))
  have "desc_holds u (z # y # x # rest)"
    by (rule released_holds [OF d, where ty = ty and hdr = p and data = data and n = n])
      (use wt in \<open>simp_all add: u_def vt t queue_wf_def Let_def v1_def request_vq_def\<close>)
  moreover have "avail_idx (vq u) = used_idx (vq u)" "seen_used (queue (blk u)) = used_idx (vq u)"
    "live (dev u) (notify_off (queue (blk u))) (ucast (q_num (queue (blk u))))"
    using idx d'(2) vt by (simp_all add: u_def t)
  ultimately have rdy': "ready live u"
    using rdy u(1) unfolding ready_def by metis
  have pin: "p + 16 \<in> heap_bytes (heap s)" using st hp(2) by blast
  have "vis u a = answer_mem ty sector data n (disk (dev s)) (vis s) a" for a
  proof (cases "a \<in> heap_bytes (heap s)")
    case True
    then have "a \<notin> region data (unat n)" using data by blast
    then show ?thesis
      using True by (simp add: vis_def u answer_mem_def mem_write_outside disk_bytes_def)
  next
    case False
    then have "a \<noteq> p + 16" "a \<notin> region p 17" using pin hp(2) by auto
    then have "m1 a = mem s a" by (simp add: m1)
    with False \<open>a \<noteq> p + 16\<close> show ?thesis
      by (simp add: vis_def u t answer_mem_def mem_write_def)
  qed
  then have v': "vis u = answer_mem ty sector data n (disk (dev s)) (vis s)" by (rule ext)
  have dk: "disk (dev u) = answer_disk ty sector data n (vis s) (disk (dev s))"
    by (simp add: u d'(1) answer_disk_def rd)
  have "wp (consume_response_virtio_blk P) Q E s1"
  proof (rule wp_consume_response [OF j t_def])
    show "used_idx (vq t) \<noteq> seen_used (queue (blk s1))" using idx vt by (simp add: s1_def)
    show "queue_wf t" by (rule wt)
    show "is_request ty p data n x y z (vq_desc (vq t))" using req by (simp add: t v1_def)
    show "used_ring (vq t) ! unat (seen_used (queue (blk s1)) mod q_size (queue (blk s1))) = \<lparr>used_id = ucast x, used_len = written_len ty n\<rparr>"
      using idx queue_wf_mod(2) [OF wf, of "used_idx (vq s)"] len by (simp add: t s1_def v1_def request_vq_def)
    show "mem t (p + 16) = 0" by (simp add: t)
    show "Q () (t\<lparr>vq := (vq t)\<lparr>vq_desc := released_descs x y z (free_head (queue (blk t))) (vq_desc (vq t))\<rparr>,
       blk := (blk t)\<lparr>queue := (queue (blk t))\<lparr>seen_used := seen_used (queue (blk t)) + 1, free_head := z\<rparr>\<rparr>,
       heap := core_free p (heap t)\<rparr>)"
      unfolding u_def [symmetric] by (rule Q [OF rdy' v' dk u(1,4,5)])
  qed
  then show ?thesis
    unfolding wp_seq by (intro wp_request_virtio_blk [OF d c n(3)]) (simp add: s1_def m1_def v1_def d1_def)
qed

section \<open>The driver provides the contract of \<open>block_io\<close>\<close>

definition blk_read :: "'d platform \<Rightarrow> u64 \<Rightarrow> u64 \<Rightarrow> u64 \<Rightarrow> ('d machine, unit) cfun" where
  "blk_read P sector data n = seq (read_virtio_blk P sector data n) (consume_response_virtio_blk P)"

definition blk_write :: "'d platform \<Rightarrow> u64 \<Rightarrow> u64 \<Rightarrow> u64 \<Rightarrow> ('d machine, unit) cfun" where
  "blk_write P sector data n = seq (write_virtio_blk P sector data n) (consume_response_virtio_blk P)"

definition mem_copy :: "u64 \<Rightarrow> u64 \<Rightarrow> u64 \<Rightarrow> ('d machine, unit) cfun" where
  "mem_copy a b n = modify (\<lambda>s. s\<lparr>mem := memcpy a b n (mem s)\<rparr>)"

text \<open>The part of the state that block operations leave alone.\<close>

definition kept :: "'d machine \<Rightarrow> heap \<times> core_header \<times> u32" where
  "kept s = (heap s, g_core_header s, waking_out s)"

definition idle_with :: "'d platform \<Rightarrow> ('d \<Rightarrow> nat \<Rightarrow> u8) \<Rightarrow> nat \<Rightarrow> ('d \<Rightarrow> u64 \<Rightarrow> u32 \<Rightarrow> bool) \<Rightarrow> 'd machine \<Rightarrow> bool" where
  "idle_with P disk cap live s \<longleftrightarrow> serves P disk cap live \<and> ready live s"

lemma ready_mem [simp]: "ready live (s\<lparr>mem := m\<rparr>) = ready live s"
  by (simp add: ready_def desc_holds_def queue_wf_def)

lemma vis_outside: "a \<notin> heap_bytes (heap s) \<Longrightarrow> vis s a = mem s a"
  by (simp add: vis_def)

lemma vis_mem_write:
  assumes "region a (length bs) \<inter> heap_bytes (heap s) = {}"
  shows "vis (s\<lparr>mem := mem_write (mem s) a bs\<rparr>) = mem_write (vis s) a bs"
proof
  fix x
  show "vis (s\<lparr>mem := mem_write (mem s) a bs\<rparr>) x = mem_write (vis s) a bs x"
  proof (cases "x \<in> region a (length bs)")
    case True
    then have "x \<notin> heap_bytes (heap s)" using assms by blast
    then show ?thesis by (simp add: vis_def mem_write_def)
  next
    case False
    then show ?thesis by (simp add: vis_def mem_write_outside)
  qed
qed

lemma vis_mem_read:
  assumes "region a n \<inter> heap_bytes (heap s) = {}" and "n \<le> 2 ^ 64"
  shows "mem_read (vis s) a n = mem_read (mem s) a n"
  using assms by (intro mem_read_cong) (auto simp: vis_def)

interpretation virtio: block_io "blk_read P" "blk_write P" mem_copy "idle_with P disk cap live" vis "\<lambda>s. disk (dev s)"
    kept "\<lambda>k. heap_bytes (fst k)" cap for P disk cap live
proof (unfold_locales, goal_cases)
  case (1 s sector data n Q E)
  then show ?case
    unfolding blk_read_def read_virtio_blk_def
    by (intro wp_block_request [where disk = disk and cap = cap and live = live])
      (auto simp: idle_with_def kept_def answer_mem_def answer_disk_def)
next
  case (2 s sector data n Q E)
  then show ?case
    unfolding blk_write_def write_virtio_blk_def
    by (intro wp_block_request [where disk = disk and cap = cap and live = live])
      (auto simp: idle_with_def kept_def answer_mem_def answer_disk_def VIRTIO_BLK_T_IN_def VIRTIO_BLK_T_OUT_def)
next
  case (3 s a b n Q E)
  have n: "unat n \<le> 2 ^ 64" using unsigned_less [of n, where ?'a = nat] by simp
  have r: "region a (unat n) \<inter> heap_bytes (heap s) = {}" "region b (unat n) \<inter> heap_bytes (heap s) = {}"
    using 3(3) by (auto simp: kept_def)
  have "vis (s\<lparr>mem := memcpy a b n (mem s)\<rparr>) = mem_write (vis s) a (mem_read (vis s) b (unat n))"
    using 3(2) r n by (simp add: memcpy_block vis_mem_write vis_mem_read)
  with 3 show ?case
    by (auto simp: mem_copy_def wp_simps idle_with_def kept_def)
qed

section \<open>A device\<close>

text \<open>
  A virtio block device without a queue of its own: each step answers one request that is in the ring,
  at once and in full. It shows that the contract can be met.
\<close>

definition disk_step :: "memory \<times> virtqueue \<times> (nat \<Rightarrow> u8) \<Rightarrow> memory \<times> virtqueue \<times> (nat \<Rightarrow> u8)" where
  "disk_step = (\<lambda>(m, v, d).
     if used_idx v = avail_idx v then (m, v, d)
     else let slot = unat (used_idx v) mod length (avail_ring v); x = avail_ring v ! slot;
              d1 = vq_desc v ! unat x; d2 = vq_desc v ! unat (vd_next d1); d3 = vq_desc v ! unat (vd_next d2);
              ty = load32 m (vd_addr d1); sector = load64 m (vd_addr d1 + 8); n = unat (vd_len d2)
          in ((if ty = 0 then mem_write m (vd_addr d2) (disk_bytes d sector n) else m)(vd_addr d3 := 0),
              v\<lparr>used_idx := used_idx v + 1,
                used_ring := (used_ring v)[slot := \<lparr>used_id = ucast x, used_len = (if ty = 0 then vd_len d2 + 1 else 1)\<rparr>]\<rparr>,
              if ty = 0 then d else disk_put sector (mem_read m (vd_addr d2) n) d))"

definition disk_hw :: "(nat \<Rightarrow> u8) hw" where
  "disk_hw = \<lparr>port_in = (\<lambda>w p d. (0, d)), port_out = (\<lambda>w p v d. d), mmio_in = (\<lambda>w a d. (0, d)), mmio_out = (\<lambda>w a v d. d)\<rparr>"

definition disk_platform :: "(nat \<Rightarrow> u8) platform" where
  "disk_platform = example_platform disk_hw disk_step"

lemma disk_step_answers:
  assumes "pending ty sector data n hdr x y z k m v"
  shows "disk_step (m, v, d) = ((answer_mem ty sector data n d m)(hdr + 16 := 0),
     v\<lparr>used_idx := used_idx v + 1,
       used_ring := (used_ring v)[unat (used_idx v mod k) := \<lparr>used_id = ucast x, used_len = written_len ty n\<rparr>]\<rparr>,
     answer_disk ty sector data n m d)"
proof -
  have "unat (ucast n :: u32) = unat n"
    using assms by (simp add: pending_def unsigned_ucast_eq take_bit_nat_eq_self)
  moreover have "unat (used_idx v) mod length (avail_ring v) = unat (used_idx v mod k)"
    using assms by (simp add: pending_def unat_mod)
  ultimately show ?thesis
    using assms by (auto simp: disk_step_def pending_def is_request_def Let_def answer_mem_def answer_disk_def
        written_len_def VIRTIO_BLK_T_IN_def VIRTIO_BLK_T_OUT_def)
qed

lemma disk_serves: "serves disk_platform id cap (\<lambda>d a num. True)"
  unfolding serves_def
proof (intro allI impI)
  fix ty sector data n hdr x y z k m v and d :: "nat \<Rightarrow> u8" and a num
  assume "pending ty sector data n hdr x y z k m v"
  from disk_step_answers [OF this]
  show "\<exists>j<wait_fuel disk_platform. \<exists>d'.
        (\<forall>i<j. used_of ((device_step disk_platform ^^ i) (m, v, mmio_out (hardware disk_platform) 2 a num d)) = used_idx v) \<and>
        (device_step disk_platform ^^ j) (m, v, mmio_out (hardware disk_platform) 2 a num d) =
          ((answer_mem ty sector data n (id d) m)(hdr + 16 := 0),
           v\<lparr>used_idx := used_idx v + 1,
             used_ring := (used_ring v)[unat (used_idx v mod k) := \<lparr>used_id = ucast x, used_len = written_len ty n\<rparr>]\<rparr>, d') \<and>
        id d' = answer_disk ty sector data n m (id d) \<and> True"
    by (intro exI [of _ "1 :: nat"]) (simp add: disk_platform_def example_platform_def disk_hw_def used_of_def)
qed

lemma example_ready: "ready (\<lambda>d a num. True) (example_machine d)"
proof -
  have "find_allocator_for_size small_heap 17 = Some 0"
    by (simp add: find_allocator_for_size_def small_heap_def)
  moreover have "[[0x1040, 0x1000]] ! 0 = (0x1040 :: u64) # [0x1000]" by simp
  ultimately have "\<exists>fl. heap_holds small_heap fl \<and> buffers_apart small_heap \<and>
        (\<exists>i b bs. find_allocator_for_size small_heap 17 = Some i \<and> fl ! i = b # bs)"
    using small_heap_holds small_heap_apart by blast
  moreover have "\<exists>x y z rest. desc_holds (example_machine d) (x # y # z # rest)"
    by (intro exI) (rule example_desc_holds)
  ultimately show ?thesis
    unfolding ready_def by (simp add: example_machine_def example_queue_def example_vq_def)
qed

lemma example_idle: "idle_with disk_platform id cap (\<lambda>d a num. True) (example_machine d)"
  by (simp add: idle_with_def disk_serves example_ready)

lemma example_dev: "dev (example_machine d) = d"
  by (simp add: example_machine_def)

lemma example_heap_bytes: "heap_bytes (heap (example_machine d)) = region 0x1000 128"
  by (simp add: heap_bytes_def example_machine_def small_heap_def)

section \<open>Properties\<close>

text \<open>C9: A read of the driver, sent and its response consumed, fills exactly the caller's buffer with the
  sectors' bytes; a write puts the buffer's bytes into the sectors. Each returns success, changes no
  other memory outside of the allocators' buffers and nothing else on the disk, returns the three
  descriptors and the request block, and leaves the driver ready for the next request.\<close>

theorem virtio_blk_transfer:
  assumes "serves P disk cap live" and "ready live s" and "0 < unat n" "unat n < 2 ^ 32" "n mod 512 = 0"
    and "region data (unat n) \<inter> heap_bytes (heap s) = {}" and "512 * unat sector + unat n \<le> cap"
  shows "(\<exists>t. seq (read_virtio_blk P sector data n) (consume_response_virtio_blk P) s = Returns () t \<and> ready live t \<and>
      vis t = mem_write (vis s) data (disk_bytes (disk (dev s)) sector (unat n)) \<and> disk (dev t) = disk (dev s) \<and> heap t = heap s) \<and>
    (\<exists>t. seq (write_virtio_blk P sector data n) (consume_response_virtio_blk P) s = Returns () t \<and> ready live t \<and>
      vis t = vis s \<and> disk (dev t) = disk_put sector (mem_read (vis s) data (unat n)) (disk (dev s)) \<and> heap t = heap s)"
proof -
  have i: "idle_with P disk cap live s" using assms(1,2) by (simp add: idle_with_def)
  have d: "region data (unat n) \<inter> heap_bytes (fst (kept s)) = {}" using assms(6) by (simp add: kept_def)
  have "wp (blk_read P sector data n) (\<lambda>_ t. ready live t \<and>
      vis t = mem_write (vis s) data (disk_bytes (disk (dev s)) sector (unat n)) \<and> disk (dev t) = disk (dev s) \<and> heap t = heap s) (\<lambda>_. False) s"
    by (rule virtio.rd_law [OF i assms(3-5) d assms(7)]) (simp add: idle_with_def kept_def)
  then have r: "\<exists>t. seq (read_virtio_blk P sector data n) (consume_response_virtio_blk P) s = Returns () t \<and> ready live t \<and>
      vis t = mem_write (vis s) data (disk_bytes (disk (dev s)) sector (unat n)) \<and> disk (dev t) = disk (dev s) \<and> heap t = heap s"
    by (simp add: wp_returns_iff blk_read_def)
  have "wp (blk_write P sector data n) (\<lambda>_ t. ready live t \<and>
      vis t = vis s \<and> disk (dev t) = disk_put sector (mem_read (vis s) data (unat n)) (disk (dev s)) \<and> heap t = heap s) (\<lambda>_. False) s"
    by (rule virtio.wr_law [OF i assms(3-5) d assms(7)]) (simp add: idle_with_def kept_def)
  then have w: "\<exists>t. seq (write_virtio_blk P sector data n) (consume_response_virtio_blk P) s = Returns () t \<and> ready live t \<and>
      vis t = vis s \<and> disk (dev t) = disk_put sector (mem_read (vis s) data (unat n)) (disk (dev s)) \<and> heap t = heap s"
    by (simp add: wp_returns_iff blk_write_def)
  from r w show ?thesis ..
qed

theorem virtio_blk_transfer_witness:
  "\<exists>t. seq (write_virtio_blk disk_platform 4 0x100000 0x1000) (consume_response_virtio_blk disk_platform) (example_machine (\<lambda>_ :: nat. 0 :: u8)) =
     Returns () t \<and> dev t = disk_put 4 (mem_read (vis (example_machine (\<lambda>_ :: nat. 0 :: u8))) 0x100000 0x1000) (\<lambda>_. 0)"
proof -
  have "region 0x100000 4096 \<inter> region 0x1000 128 = {}" by (rule region_disjointI(2)) simp_all
  then show ?thesis
    using virtio_blk_transfer [OF disk_serves [of 6144] example_ready [of "\<lambda>_. 0"], of "0x1000" "0x100000" 4]
    by (auto simp: example_heap_bytes example_dev)
qed

text \<open>C14: What has been written to the disk is what a later read of the same sectors brings back, into any
  buffer outside of the allocators' memory.\<close>

theorem virtio_blk_roundtrip:
  assumes "serves P disk cap live" and "ready live s" and "0 < unat n" "unat n < 2 ^ 32" "n mod 512 = 0"
    and "512 * unat sector + unat n \<le> cap"
    and "region a (unat n) \<inter> heap_bytes (heap s) = {}" and "region b (unat n) \<inter> heap_bytes (heap s) = {}"
  shows "\<exists>t. seq (seq (write_virtio_blk P sector a n) (consume_response_virtio_blk P))
      (seq (read_virtio_blk P sector b n) (consume_response_virtio_blk P)) s = Returns () t \<and>
    vis t = mem_write (vis s) b (mem_read (vis s) a (unat n)) \<and> ready live t"
proof -
  have "wp (seq (blk_write P sector a n) (blk_read P sector b n))
      (\<lambda>_ t. vis t = mem_write (vis s) b (mem_read (vis s) a (unat n)) \<and> ready live t) (\<lambda>_. False) s"
    by (rule virtio.write_read [where live = live and disk = disk and cap = cap])
      (use assms in \<open>simp_all add: idle_with_def kept_def\<close>)
  then show ?thesis by (simp add: wp_returns_iff blk_read_def blk_write_def)
qed

theorem virtio_blk_roundtrip_witness:
  "\<exists>t. seq (seq (write_virtio_blk disk_platform 4 0x100000 0x1000) (consume_response_virtio_blk disk_platform))
      (seq (read_virtio_blk disk_platform 4 0x200000 0x1000) (consume_response_virtio_blk disk_platform)) (example_machine (\<lambda>_ :: nat. 0 :: u8)) = Returns () t \<and>
    vis t = mem_write (vis (example_machine (\<lambda>_ :: nat. 0 :: u8))) 0x200000 (mem_read (vis (example_machine (\<lambda>_ :: nat. 0 :: u8))) 0x100000 0x1000)"
proof -
  have "region 0x100000 4096 \<inter> region 0x1000 128 = {}" "region 0x200000 4096 \<inter> region 0x1000 128 = {}"
    by (rule region_disjointI(2); simp)+
  then show ?thesis
    using virtio_blk_roundtrip [OF disk_serves [of 6144] example_ready [of "\<lambda>_. 0"], of "0x1000" 4 "0x100000" "0x200000"]
    by (auto simp: example_heap_bytes)
qed

end
