(* ===== verification/DumpSpec.thy ===== *)
theory DumpSpec
  imports Dump BlockIO
begin

text \<open>
  What storing, loading and switching a dump do to the memory and the disk. The lemmas rest on the
  contract of the block device (\<open>virtio\<close>) and on an abstract reading of the dump header: the waking
  vector and the list of areas that a header at some address of some memory says; the disk is such a
  memory too.
\<close>

section \<open>Fields at offsets\<close>

lemma region_inside: "k + n \<le> l \<Longrightarrow> l \<le> 2 ^ 64 \<Longrightarrow> region (H + of_nat k) n \<subseteq> region H l"
proof
  fix x
  assume k: "k + n \<le> l" "l \<le> 2 ^ 64" and "x \<in> region (H + of_nat k) n"
  then obtain i where i: "i < n" "x = H + of_nat k + of_nat i" by (metis region_cases)
  then have "x = H + of_nat (k + i)" by simp
  moreover have "H + of_nat (k + i) \<in> region H l" by (rule region_offset) (use i k in auto)
  ultimately show "x \<in> region H l" by simp
qed

lemma region_offsets_disjoint:
  assumes "j + n \<le> k" and "k + l \<le> 2 ^ 64"
  shows "region (H + of_nat j) n \<inter> region (H + of_nat k) l = {}" "region (H + of_nat k) l \<inter> region (H + of_nat j) n = {}"
proof -
  have "H + of_nat j + of_nat i \<noteq> H + of_nat k + of_nat i'" if "i < n" "i' < l" for i i'
  proof
    assume "H + of_nat j + of_nat i = H + of_nat k + of_nat i'"
    then have "(of_nat (j + i) :: u64) = of_nat (k + i')" by (simp add: add.assoc)
    then have "unat (of_nat (j + i) :: u64) = unat (of_nat (k + i') :: u64)" by simp
    then show False using that assms by (simp only: unat_of_nat_small)
  qed
  then show "region (H + of_nat j) n \<inter> region (H + of_nat k) l = {}"
    by (metis disjoint_iff region_cases)
  then show "region (H + of_nat k) l \<inter> region (H + of_nat j) n = {}" by blast
qed

lemma load_shift:
  assumes "\<forall>k<l. m (H + of_nat k) = m' (H' + of_nat k)"
  shows "j + 4 \<le> l \<Longrightarrow> load32 m (H + of_nat j) = load32 m' (H' + of_nat j)"
    and "j + 8 \<le> l \<Longrightarrow> load64 m (H + of_nat j) = load64 m' (H' + of_nat j)"
proof -
  have "m (H + of_nat j + of_nat i) = m' (H' + of_nat j + of_nat i)" if "j + i < l" for i
    using assms that by (simp add: add.assoc flip: of_nat_add)
  then show "j + 4 \<le> l \<Longrightarrow> load32 m (H + of_nat j) = load32 m' (H' + of_nat j)"
    and "j + 8 \<le> l \<Longrightarrow> load64 m (H + of_nat j) = load64 m' (H' + of_nat j)"
    unfolding load32_def load64_def mem_read_def
    by (intro arg_cong [where f = of_le] map_cong; simp)+
qed

section \<open>What a header says\<close>

record disk_mem_area =
  da_start :: u64
  da_size :: u64
  da_sector :: u32

definition area_says :: "u64 \<Rightarrow> memory \<Rightarrow> nat \<Rightarrow> disk_mem_area \<Rightarrow> bool" where
  "area_says H m i d \<longleftrightarrow> load64 m (H + of_nat (16 + 24 * i)) = da_start d \<and> load64 m (H + of_nat (24 + 24 * i)) = da_size d \<and>
     load32 m (H + of_nat (32 + 24 * i)) = da_sector d"

definition header_says :: "u64 \<Rightarrow> memory \<Rightarrow> u32 \<Rightarrow> disk_mem_area list \<Rightarrow> bool" where
  "header_says H m w ds \<longleftrightarrow> length ds \<le> MAX_RAM_AREAS \<and> load32 m (H + of_nat 0) = CORE_DISK_DUMP_MAGIC \<and> load32 m (H + of_nat 4) = w \<and>
     load32 m (H + of_nat 8) = of_nat (length ds) \<and> (\<forall>i<length ds. area_says H m i (ds ! i))"

lemma field_addresses:
  "dh_magic P = dump_header_at P + of_nat 0" "dh_waking_vector P = dump_header_at P + of_nat 4"
  "dh_areas_size P = dump_header_at P + of_nat 8" "dh_area_start P i = dump_header_at P + of_nat (16 + 24 * i)"
  "dh_area_size P i = dump_header_at P + of_nat (24 + 24 * i)" "dh_area_sector P i = dump_header_at P + of_nat (32 + 24 * i)"
  by (simp_all add: layout_simps algebra_simps)

lemma area_says_shift:
  assumes "\<forall>k<2048. m (H + of_nat k) = m' (H' + of_nat k)" and "i < MAX_RAM_AREAS"
  shows "area_says H m i d = area_says H' m' i d"
proof -
  have "32 + 24 * i + 4 \<le> 2048" "16 + 24 * i + 8 \<le> 2048" "24 + 24 * i + 8 \<le> 2048"
    using assms(2) by (simp_all add: MAX_RAM_AREAS_def)
  with load_shift [OF assms(1)] show ?thesis unfolding area_says_def by metis
qed

lemma header_says_shift:
  assumes "\<forall>k<2048. m (H + of_nat k) = m' (H' + of_nat k)"
  shows "header_says H m w ds = header_says H' m' w ds"
proof -
  have "load32 m (H + of_nat j) = load32 m' (H' + of_nat j)" if "j \<in> {0, 4, 8}" for j
    using that load_shift(1) [OF assms, of j] by auto
  moreover have "length ds \<le> MAX_RAM_AREAS \<Longrightarrow> (\<forall>i<length ds. area_says H m i (ds ! i)) = (\<forall>i<length ds. area_says H' m' i (ds ! i))"
    using area_says_shift [OF assms] by (meson less_le_trans)
  ultimately show ?thesis
    unfolding header_says_def by (metis insertCI)
qed

definition header_region :: "'d platform \<Rightarrow> u64 set" where
  "header_region P = region (dump_header_at P) 2048"

lemma header_says_cong:
  assumes "\<forall>a \<in> header_region P. m a = m' a"
  shows "header_says (dump_header_at P) m w ds = header_says (dump_header_at P) m' w ds"
  using assms by (intro header_says_shift) (auto simp: header_region_def region_offset)

text \<open>The disk as a memory: its first bytes are the header.\<close>

definition disk_mem :: "(nat \<Rightarrow> u8) \<Rightarrow> memory" where
  "disk_mem dsk a = dsk (unat a)"

lemma header_read_from_disk:
  "header_says H (mem_write m H (disk_bytes dsk 0 2048)) w ds = header_says 0 (disk_mem dsk) w ds"
proof (rule header_says_shift, intro allI impI)
  fix k :: nat assume k: "k < 2048"
  then have "disk_mem dsk (0 + of_nat k) = dsk k" by (simp add: disk_mem_def unat_of_nat_small)
  with k show "mem_write m H (disk_bytes dsk 0 2048) (H + of_nat k) = disk_mem dsk (0 + of_nat k)"
    by (simp add: mem_write_inside disk_bytes_def)
qed

lemma header_written_to_disk:
  "header_says 0 (disk_mem (disk_put 0 (mem_read m H 2048) dsk)) w ds = header_says H m w ds"
proof (rule header_says_shift, intro allI impI)
  fix k :: nat assume k: "k < 2048"
  then show "disk_mem (disk_put 0 (mem_read m H 2048) dsk) (0 + of_nat k) = m (H + of_nat k)"
    by (simp add: disk_mem_def unat_of_nat_small disk_put_def)
qed

text \<open>The layout of the areas behind the header.\<close>

primrec layout :: "u64 \<Rightarrow> mem_area list \<Rightarrow> disk_mem_area list" where
  "layout next_sector [] = []"
| "layout next_sector (a # as) =
     \<lparr>da_start = area_start a, da_size = area_size a, da_sector = ucast next_sector\<rparr> # layout (next_sector + area_size a div 512) as"

lemma length_layout [simp]: "length (layout n as) = length as"
  by (induction as arbitrary: n) auto

section \<open>Filling the header in\<close>

definition put_area :: "u64 \<Rightarrow> nat \<Rightarrow> disk_mem_area \<Rightarrow> memory \<Rightarrow> memory" where
  "put_area H i d m = store32 (H + of_nat (32 + 24 * i)) (da_sector d)
     (store64 (H + of_nat (24 + 24 * i)) (da_size d) (store64 (H + of_nat (16 + 24 * i)) (da_start d) m))"

lemma offsets_apart:
  "j + n \<le> k \<or> k + l \<le> j \<Longrightarrow> j + n \<le> 2 ^ 64 \<Longrightarrow> k + l \<le> 2 ^ 64 \<Longrightarrow> apart (H + of_nat j) n (H + of_nat k) l"
  using region_offsets_disjoint [of j n k l H] region_offsets_disjoint [of k l j n H]
  by (auto simp: apart_def)

lemma load_put_area:
  assumes "i < MAX_RAM_AREAS"
  shows "k + 4 \<le> 16 \<Longrightarrow> load32 (put_area H i d m) (H + of_nat k) = load32 m (H + of_nat k)"
proof -
  assume k: "k + 4 \<le> 16"
  have i: "i < 64" using assms by (simp add: MAX_RAM_AREAS_def)
  have "apart (H + of_nat k) 4 (H + of_nat (32 + 24 * i)) 4" "apart (H + of_nat k) 4 (H + of_nat (24 + 24 * i)) 8"
    "apart (H + of_nat k) 4 (H + of_nat (16 + 24 * i)) 8"
    by (rule offsets_apart; use k i in simp)+
  then show "load32 (put_area H i d m) (H + of_nat k) = load32 m (H + of_nat k)"
    by (simp only: put_area_def load_store_apart)
qed

lemma area_says_put:
  assumes "i < MAX_RAM_AREAS" and "j < MAX_RAM_AREAS"
  shows "i \<noteq> j \<Longrightarrow> area_says H (put_area H i d m) j d' = area_says H m j d'"
    and "area_says H (put_area H i d m) i d"
proof -
  have ij: "i < 64" "j < 64" using assms by (simp_all add: MAX_RAM_AREAS_def)
  show "i \<noteq> j \<Longrightarrow> area_says H (put_area H i d m) j d' = area_says H m j d'"
  proof -
    assume "i \<noteq> j"
    then have "i < j \<or> j < i" by auto
    then have off: "24 * i + 24 \<le> 24 * j \<or> 24 * j + 24 \<le> 24 * i" by auto
    have "apart (H + of_nat (16 + 24 * j)) 8 (H + of_nat (32 + 24 * i)) 4" "apart (H + of_nat (16 + 24 * j)) 8 (H + of_nat (24 + 24 * i)) 8"
      "apart (H + of_nat (16 + 24 * j)) 8 (H + of_nat (16 + 24 * i)) 8" "apart (H + of_nat (24 + 24 * j)) 8 (H + of_nat (32 + 24 * i)) 4"
      "apart (H + of_nat (24 + 24 * j)) 8 (H + of_nat (24 + 24 * i)) 8" "apart (H + of_nat (24 + 24 * j)) 8 (H + of_nat (16 + 24 * i)) 8"
      "apart (H + of_nat (32 + 24 * j)) 4 (H + of_nat (32 + 24 * i)) 4" "apart (H + of_nat (32 + 24 * j)) 4 (H + of_nat (24 + 24 * i)) 8"
      "apart (H + of_nat (32 + 24 * j)) 4 (H + of_nat (16 + 24 * i)) 8"
      using off ij by (intro offsets_apart; auto)+
    then show ?thesis
      by (simp only: area_says_def put_area_def load_store_apart)
  qed
  have "apart (H + of_nat (16 + 24 * i)) 8 (H + of_nat (32 + 24 * i)) 4" "apart (H + of_nat (16 + 24 * i)) 8 (H + of_nat (24 + 24 * i)) 8"
    "apart (H + of_nat (24 + 24 * i)) 8 (H + of_nat (32 + 24 * i)) 4"
    by (rule offsets_apart; use ij in simp)+
  then show "area_says H (put_area H i d m) i d"
    by (simp only: area_says_def put_area_def load_store_apart load64_store64 load32_store32 simp_thms)
qed

lemma put_area_frame:
  assumes "i < MAX_RAM_AREAS" and "a \<notin> region H 2048"
  shows "put_area H i d m a = m a"
proof -
  have i: "i < 64" using assms by (simp add: MAX_RAM_AREAS_def)
  have "region (H + of_nat (32 + 24 * i)) 4 \<subseteq> region H 2048" "region (H + of_nat (24 + 24 * i)) 8 \<subseteq> region H 2048"
    "region (H + of_nat (16 + 24 * i)) 8 \<subseteq> region H 2048"
    by (rule region_inside; use i in simp)+
  with assms(2) show ?thesis
    unfolding put_area_def by (subst store32_frame, blast)+ (subst store64_frame, blast, subst store64_frame, blast, simp)
qed

lemma wp_fill_dump_areas:
  assumes "\<forall>k<n. area_size (ram_areas (g_core_header s) ! k) > 0 \<and> area_size (ram_areas (g_core_header s) ! k) mod 512 = 0"
    and "n \<le> MAX_RAM_AREAS" and "n \<le> length (ram_areas (g_core_header s))" and "i \<le> n"
    and Q: "\<And>m'. \<forall>a. a \<notin> header_region P \<longrightarrow> m' a = mem s a \<Longrightarrow>
      \<forall>k. k + 4 \<le> 16 \<longrightarrow> load32 m' (dump_header_at P + of_nat k) = load32 (mem s) (dump_header_at P + of_nat k) \<Longrightarrow>
      \<forall>k<i. \<forall>d. area_says (dump_header_at P) m' k d = area_says (dump_header_at P) (mem s) k d \<Longrightarrow>
      \<forall>k<n - i. area_says (dump_header_at P) m' (i + k) (layout next_sector (map ((!) (ram_areas (g_core_header s))) [i..<n]) ! k) \<Longrightarrow>
      Q () (s\<lparr>mem := m'\<rparr>)"
  shows "wp (fill_dump_areas P [i..<n] next_sector) Q E s"
  using assms
proof (induction "n - i" arbitrary: i s next_sector)
  case 0
  from "0.prems"(5) [of "mem s"] "0.hyps" "0.prems"(4) show ?case by (simp add: wp_simps)
next
  case (Suc k)
  let ?A = "ram_areas (g_core_header s) ! i" and ?H = "dump_header_at P"
  have i: "i < n" "i < MAX_RAM_AREAS" using Suc.hyps(2) Suc.prems(2) by auto
  define d where "d = \<lparr>da_start = area_start ?A, da_size = area_size ?A, da_sector = ucast next_sector\<rparr>"
  define t where "t = s\<lparr>mem := put_area ?H i d (mem s)\<rparr>"
  have up: "[i..<n] = i # [Suc i..<n]" using i by (simp add: upt_conv_Cons)
  have "wp (fill_dump_areas P [Suc i..<n] (next_sector + area_size ?A div 512)) Q E t"
  proof (rule Suc.hyps(1))
    show "k = n - Suc i" using Suc.hyps(2) by simp
    fix m' assume a: "\<forall>a. a \<notin> header_region P \<longrightarrow> m' a = mem t a"
      "\<forall>k. k + 4 \<le> 16 \<longrightarrow> load32 m' (?H + of_nat k) = load32 (mem t) (?H + of_nat k)"
      "\<forall>k<Suc i. \<forall>d. area_says ?H m' k d = area_says ?H (mem t) k d"
      "\<forall>k<n - Suc i. area_says ?H m' (Suc i + k)
         (layout (next_sector + area_size ?A div 512) (map ((!) (ram_areas (g_core_header t))) [Suc i..<n]) ! k)"
    have "Q () (s\<lparr>mem := m'\<rparr>)"
    proof (rule Suc.prems(5))
      show "\<forall>a. a \<notin> header_region P \<longrightarrow> m' a = mem s a"
        using a(1) put_area_frame [OF i(2)] by (simp add: t_def header_region_def)
      show "\<forall>k. k + 4 \<le> 16 \<longrightarrow> load32 m' (?H + of_nat k) = load32 (mem s) (?H + of_nat k)"
        using a(2) load_put_area [OF i(2)] by (simp add: t_def)
      show "\<forall>k<i. \<forall>d. area_says ?H m' k d = area_says ?H (mem s) k d"
        using a(3) area_says_put(1) [OF i(2)] i by (simp add: t_def)
      show "\<forall>k<n - i. area_says ?H m' (i + k) (layout next_sector (map ((!) (ram_areas (g_core_header s))) [i..<n]) ! k)"
      proof (intro allI impI)
        fix k assume k: "k < n - i"
        show "area_says ?H m' (i + k) (layout next_sector (map ((!) (ram_areas (g_core_header s))) [i..<n]) ! k)"
        proof (cases k)
          case 0
          have "area_says ?H m' i d" using a(3) area_says_put(2) [OF i(2) i(2)] by (simp add: t_def)
          with 0 show ?thesis by (simp add: up d_def)
        next
          case (Suc l)
          with a(4) k show ?thesis by (simp add: up t_def)
        qed
      qed
    qed
    then show "Q () (t\<lparr>mem := m'\<rparr>)" by (simp add: t_def)
  qed (use Suc.prems i in \<open>simp_all add: t_def\<close>)
  then show ?case
    using Suc.prems(1,3) i unfolding up
    by (simp add: wp_simps t_def put_area_def d_def VIRTIO_BLK_SECTOR_SIZE_def field_addresses Let_def del: of_nat_add of_nat_mult)
qed

section \<open>The sectors of the areas\<close>

definition sectors_of :: "mem_area list \<Rightarrow> nat" where
  "sectors_of as = sum_list (map (\<lambda>a. unat (area_size a) div 512) as)"

definition sector_bytes :: "disk_mem_area \<Rightarrow> nat \<times> nat" where
  "sector_bytes d = (512 * unat (da_sector d), 512 * unat (da_sector d) + unat (da_size d))"

text \<open>The areas lie one after the other, behind the sectors before them.\<close>

definition in_order :: "disk_mem_area list \<Rightarrow> bool" where
  "in_order ds = sorted_wrt (\<lambda>d e. snd (sector_bytes d) \<le> fst (sector_bytes e)) ds"

lemma layout_sectors:
  assumes "unat n + sectors_of as \<le> N" and "N < 2 ^ 32" and "\<forall>a \<in> set as. unat (area_size a) mod 512 = 0"
  shows "in_order (layout n as) \<and> (\<forall>d \<in> set (layout n as). 512 * unat n \<le> fst (sector_bytes d) \<and> snd (sector_bytes d) \<le> 512 * N)"
  using assms
proof (induction as arbitrary: n)
  case Nil
  then show ?case by (simp add: in_order_def)
next
  case (Cons a as)
  let ?n = "n + area_size a div 512"
  have k: "unat (area_size a div 512) = unat (area_size a) div 512" by (simp add: unat_div)
  have s: "unat ?n = unat n + unat (area_size a) div 512"
    using Cons.prems k by (subst unat_add_lem [THEN iffD1]) (simp_all add: sectors_of_def)
  have e: "unat (area_size a) = 512 * (unat (area_size a) div 512)"
    using Cons.prems(3) by (simp add: mod_eq_0_iff_dvd)
  have c: "unat (ucast n :: u32) = unat n"
    using Cons.prems by (simp add: unsigned_ucast_eq take_bit_nat_eq_self)
  have IH: "in_order (layout ?n as)"
    "\<forall>d \<in> set (layout ?n as). 512 * unat ?n \<le> fst (sector_bytes d) \<and> snd (sector_bytes d) \<le> 512 * N"
    using Cons.IH [of ?n] Cons.prems s by (simp_all add: sectors_of_def)
  have "512 * unat n + unat (area_size a) = 512 * unat ?n" using s e by linarith
  moreover have "unat ?n \<le> N" using s Cons.prems(1) by (simp add: sectors_of_def)
  ultimately show ?case
    using IH s by (auto simp: in_order_def sector_bytes_def c)
qed

lemma layout_areas:
  "(\<exists>d \<in> set (layout n as). P (da_start d) (da_size d)) \<longleftrightarrow> (\<exists>a \<in> set as. P (area_start a) (area_size a))"
  "(\<forall>d \<in> set (layout n as). P (da_start d) (da_size d)) \<longleftrightarrow> (\<forall>a \<in> set as. P (area_start a) (area_size a))"
  by (induction as arbitrary: n) auto

lemma nth_layout:
  "i < length as \<Longrightarrow> da_start (layout n as ! i) = area_start (as ! i) \<and> da_size (layout n as ! i) = area_size (as ! i)"
  by (induction as arbitrary: n i) (auto simp: nth_Cons split: nat.splits)

section \<open>Sequences of transfers\<close>

text \<open>The disk after the areas of a memory have been written, and the memory after they have been read.\<close>

definition da_bytes :: "memory \<Rightarrow> disk_mem_area \<Rightarrow> u8 list" where
  "da_bytes m d = mem_read m (da_start d) (unat (da_size d))"

definition da_disk :: "(nat \<Rightarrow> u8) \<Rightarrow> disk_mem_area \<Rightarrow> u8 list" where
  "da_disk dsk d = disk_bytes dsk (ucast (da_sector d)) (unat (da_size d))"

definition da_region :: "disk_mem_area \<Rightarrow> u64 set" where
  "da_region d = region (da_start d) (unat (da_size d))"

definition put_da :: "memory \<Rightarrow> disk_mem_area \<Rightarrow> (nat \<Rightarrow> u8) \<Rightarrow> nat \<Rightarrow> u8" where
  "put_da m d dsk = disk_put (ucast (da_sector d)) (da_bytes m d) dsk"

lemma length_da [simp]: "length (da_bytes m d) = unat (da_size d)" "length (da_disk dsk d) = unat (da_size d)"
  by (simp_all add: da_bytes_def da_disk_def)

lemma unat_sector [simp]: "unat (ucast (w :: u32) :: u64) = unat w"
  by (simp add: unat_ucast_up)

lemma da_disk_put_same: "da_disk (put_da m d dsk) d = da_bytes m d"
  by (simp add: da_disk_def put_da_def disk_bytes_put_same da_bytes_def)

lemma da_disk_put_other:
  "snd (sector_bytes d) \<le> fst (sector_bytes e) \<or> snd (sector_bytes e) \<le> fst (sector_bytes d) \<Longrightarrow>
   da_disk (put_da m e dsk) d = da_disk dsk d"
  unfolding da_disk_def put_da_def by (rule disk_bytes_put_other) (auto simp: sector_bytes_def)

lemma put_da_outside:
  "i < fst (sector_bytes d) \<or> snd (sector_bytes d) \<le> i \<Longrightarrow> put_da m d dsk i = dsk i"
  by (auto simp: put_da_def disk_put_def sector_bytes_def)

lemma in_order_nth: "in_order ds \<Longrightarrow> i < j \<Longrightarrow> j < length ds \<Longrightarrow> snd (sector_bytes (ds ! i)) \<le> fst (sector_bytes (ds ! j))"
  unfolding in_order_def by (drule (2) sorted_wrt_nth_less)

section \<open>The environment of a dump\<close>

text \<open>
  What the UEFI application and the linker set up: a header with at most \<open>MAX_RAM_AREAS\<close> areas of whole
  sectors, a disk of \<open>cap\<close> bytes that has room for them, and the areas, the FACS, the allocators' buffers
  and the variable \<open>header\<close> in separate memory.
\<close>

definition facs_region :: "core_header \<Rightarrow> u64 set" where
  "facs_region h = region (hdr_facs h + facs_rsvd1) 4"

definition facs_vector :: "core_header \<Rightarrow> memory \<Rightarrow> u32" where
  "facs_vector h m = load32 m (hdr_facs h + facs_rsvd1)"

definition areas_ok :: "core_header \<Rightarrow> bool" where
  "areas_ok h \<longleftrightarrow> core_header_typed h \<and> 0 < unat (ram_areas_size h) \<and> unat (ram_areas_size h) \<le> MAX_RAM_AREAS \<and>
     (\<forall>a \<in> set (used_areas h). 0 < unat (area_size a) \<and> unat (area_size a) < 2 ^ 32 \<and> unat (area_size a) mod 512 = 0) \<and>
     4 + sectors_of (used_areas h) < 2 ^ 32"

definition dump_env :: "'d platform \<Rightarrow> nat \<Rightarrow> 'd machine \<Rightarrow> bool" where
  "dump_env P cap s \<longleftrightarrow> areas_ok (g_core_header s) \<and> 512 * (4 + sectors_of (used_areas (g_core_header s))) \<le> cap \<and>
     header_region P \<inter> heap_bytes (heap s) = {} \<and>
     facs_region (g_core_header s) \<inter> (header_region P \<union> heap_bytes (heap s)) = {} \<and>
     (\<forall>a \<in> set (used_areas (g_core_header s)). area_region a \<inter> (header_region P \<union> heap_bytes (heap s)) = {})"

text \<open>What the header of the dump of this system has: the areas of core's header, one after the other.\<close>

definition dump_areas :: "core_header \<Rightarrow> disk_mem_area list" where
  "dump_areas h = layout DUMP_HEADER_SECTORS_SIZE (used_areas h)"

lemma header_sectors [simp]: "DUMP_HEADER_SECTORS_SIZE = 4"
  by (simp add: DUMP_HEADER_SECTORS_SIZE_def sizeof_dump_header_def VIRTIO_BLK_SECTOR_SIZE_def)

lemma length_dump_areas: "areas_ok h \<Longrightarrow> length (dump_areas h) = unat (ram_areas_size h)"
  by (simp add: dump_areas_def used_areas_def areas_ok_def core_header_typed_def)

lemma used_areas_map: "areas_ok h \<Longrightarrow> used_areas h = map ((!) (ram_areas h)) [0..<unat (ram_areas_size h)]"
  by (intro nth_equalityI) (simp_all add: used_areas_def areas_ok_def core_header_typed_def)

lemma nth_used_areas:
  "areas_ok h \<Longrightarrow> i < unat (ram_areas_size h) \<Longrightarrow> ram_areas h ! i = used_areas h ! i \<and> used_areas h ! i \<in> set (used_areas h)"
  by (auto simp: used_areas_def areas_ok_def core_header_typed_def in_set_conv_nth)

lemma dump_areas_sectors:
  assumes "areas_ok h"
  shows "in_order (dump_areas h)"
    and "d \<in> set (dump_areas h) \<Longrightarrow> 2048 \<le> fst (sector_bytes d) \<and> snd (sector_bytes d) \<le> 512 * (4 + sectors_of (used_areas h))"
  using assms layout_sectors [of 4 "used_areas h" "4 + sectors_of (used_areas h)"] by (auto simp: dump_areas_def areas_ok_def)

lemma mod_512: "unat (n :: u64) mod 512 = 0 \<longleftrightarrow> n mod 512 = 0"
  by (simp add: word_unat_eq_iff unat_mod)

lemma dump_areas_each:
  assumes "areas_ok h" and "d \<in> set (dump_areas h)"
  shows "0 < unat (da_size d)" "unat (da_size d) < 2 ^ 32" "da_size d mod 512 = 0"
  using assms layout_areas(2) [where P = "\<lambda>a n. 0 < unat n \<and> unat n < 2 ^ 32 \<and> unat n mod 512 = 0" and n = 4 and as = "used_areas h"]
  by (auto simp: areas_ok_def dump_areas_def mod_512)

text \<open>Outside of the allocators' memory, the memory clients see is the memory.\<close>

lemma vis_facs:
  assumes "dump_env P cap s"
  shows "facs_vector (g_core_header s) (vis s) = facs_vector (g_core_header s) (mem s)"
  unfolding facs_vector_def load32_def
  by (subst vis_mem_read) (use assms in \<open>auto simp: dump_env_def facs_region_def\<close>)

lemma vis_header_says:
  "dump_env P cap s \<Longrightarrow> header_says (dump_header_at P) (vis s) w ds = header_says (dump_header_at P) (mem s) w ds"
  by (rule header_says_cong) (auto simp: dump_env_def vis_def)

lemma dump_env_kept:
  "kept t = kept s \<Longrightarrow> dump_env P cap t = dump_env P cap s"
  by (simp add: kept_def dump_env_def)

section \<open>Building and checking the header\<close>

lemma wp_find_vector [wp_simps]:
  "wp find_original_waking_vector Q E s =
    (let w = facs_vector (g_core_header s) (mem s) in if w \<noteq> 0 then Q w s else E s)"
  by (simp add: find_original_waking_vector_def wp_simps facs_vector_def Let_def)

lemma wp_fill_dump_header:
  assumes env: "dump_env P cap s" and w: "w = facs_vector (g_core_header s) (mem s)" "w \<noteq> 0"
    and Q: "\<And>m'. \<forall>a. a \<notin> header_region P \<longrightarrow> m' a = mem s a \<Longrightarrow>
      header_says (dump_header_at P) m' w (dump_areas (g_core_header s)) \<Longrightarrow> Q () (s\<lparr>mem := m'\<rparr>)"
  shows "wp (fill_dump_header P) Q E s"
proof -
  let ?H = "dump_header_at P" and ?h = "g_core_header s"
  let ?n = "ram_areas_size ?h"
  have ok: "areas_ok ?h" using env by (simp add: dump_env_def)
  define m1 where "m1 = store32 (?H + of_nat 0) CORE_DISK_DUMP_MAGIC (mem s)"
  define m2 where "m2 = store32 (?H + of_nat 8) ?n (store32 (?H + of_nat 4) w m1)"
  have sub: "region (?H + of_nat k) 4 \<subseteq> header_region P" if "k + 4 \<le> 2048" for k
    unfolding header_region_def by (rule region_inside) (use that in auto)
  have m1: "m1 a = mem s a" if "a \<notin> header_region P" for a
    unfolding m1_def by (rule store32_frame) (use sub [of 0] that in auto)
  have m2: "m2 a = mem s a" if "a \<notin> header_region P" for a
  proof -
    have "a \<notin> region (?H + of_nat 8) 4" "a \<notin> region (?H + of_nat 4) 4" using sub [of 8] sub [of 4] that by auto
    then show ?thesis using m1 [OF that] by (simp add: m2_def store32_frame)
  qed
  have "facs_vector ?h m1 = w"
    unfolding w facs_vector_def load32_def
    by (subst mem_read_cong [where m' = "mem s"]) (use env m1 in \<open>auto simp: dump_env_def facs_region_def\<close>)
  moreover have "wp (fill_dump_areas P [0..<unat ?n] 4) Q E (s\<lparr>mem := m2\<rparr>)"
  proof (rule wp_fill_dump_areas)
    show "\<forall>k<unat ?n. area_size (ram_areas (g_core_header (s\<lparr>mem := m2\<rparr>)) ! k) > 0 \<and> area_size (ram_areas (g_core_header (s\<lparr>mem := m2\<rparr>)) ! k) mod 512 = 0"
      using ok nth_used_areas [OF ok] by (auto simp: areas_ok_def mod_512 word_gt_0 unat_gt_0)
    fix m' assume m': "\<forall>a. a \<notin> header_region P \<longrightarrow> m' a = mem (s\<lparr>mem := m2\<rparr>) a"
      "\<forall>k. k + 4 \<le> 16 \<longrightarrow> load32 m' (?H + of_nat k) = load32 (mem (s\<lparr>mem := m2\<rparr>)) (?H + of_nat k)"
      "\<forall>k<unat ?n - 0. area_says ?H m' (0 + k) (layout 4 (map ((!) (ram_areas (g_core_header (s\<lparr>mem := m2\<rparr>)))) [0..<unat ?n]) ! k)"
    have "apart (?H + of_nat 0) 4 (?H + of_nat 8) 4" "apart (?H + of_nat 0) 4 (?H + of_nat 4) 4"
      "apart (?H + of_nat 4) 4 (?H + of_nat 8) 4"
      by (rule offsets_apart; simp)+
    then have f: "load32 m2 (?H + of_nat 0) = CORE_DISK_DUMP_MAGIC" "load32 m2 (?H + of_nat 4) = w" "load32 m2 (?H + of_nat 8) = ?n"
      by (simp_all only: m2_def m1_def load_store_apart load32_store32)
    have g: "load32 m' (?H + of_nat 0) = CORE_DISK_DUMP_MAGIC" "load32 m' (?H + of_nat 4) = w" "load32 m' (?H + of_nat 8) = ?n"
      using m'(2) [rule_format, of 0] m'(2) [rule_format, of 4] m'(2) [rule_format, of 8] f by simp_all
    have "header_says ?H m' w (dump_areas ?h)"
    proof -
      have "unat ?n \<le> MAX_RAM_AREAS" using ok by (simp add: areas_ok_def)
      moreover have "\<forall>k<unat ?n. area_says ?H m' k (dump_areas ?h ! k)"
        using m'(3) by (simp add: dump_areas_def used_areas_map [OF ok])
      ultimately show ?thesis
        unfolding header_says_def g length_dump_areas [OF ok] by simp
    qed
    moreover have "\<forall>a. a \<notin> header_region P \<longrightarrow> m' a = mem s a" using m'(1) m2 by simp
    ultimately have "Q () (s\<lparr>mem := m'\<rparr>)" by (intro Q)
    then show "Q () (s\<lparr>mem := m2, mem := m'\<rparr>)" by simp
  qed (use ok in \<open>simp_all add: areas_ok_def core_header_typed_def\<close>)
  ultimately show ?thesis
    using w(2) ok unfolding fill_dump_header_def m2_def m1_def
    by (simp add: wp_simps field_addresses areas_ok_def Let_def)
qed

end
