(* ===== verification/DumpProps.thy ===== *)
theory DumpProps
  imports DumpSpec
begin

text \<open>
  Storing, loading and switching a dump: the checks on a header read from the disk, the loops over the
  areas, and the theorems on the operations of \<^verbatim>\<open>core/dump.c\<close>.
\<close>

section \<open>The check of a header\<close>

text \<open>What \<open>is_dump_header_valid\<close> accepts, over the header as it is in memory.\<close>

definition area_matches :: "'d platform \<Rightarrow> memory \<Rightarrow> core_header \<Rightarrow> nat \<Rightarrow> bool" where
  "area_matches P m h i \<longleftrightarrow> load64 m (dh_area_start P i) = area_start (ram_areas h ! i) \<and>
     load64 m (dh_area_size P i) = area_size (ram_areas h ! i)"

definition acceptable :: "'d platform \<Rightarrow> memory \<Rightarrow> core_header \<Rightarrow> bool" where
  "acceptable P m h \<longleftrightarrow> load32 m (dh_magic P) = CORE_DISK_DUMP_MAGIC \<and> load32 m (dh_waking_vector P) \<noteq> 0 \<and>
     load32 m (dh_areas_size P) \<noteq> 0 \<and> load32 m (dh_areas_size P) = ram_areas_size h \<and>
     (\<forall>i<unat (ram_areas_size h). load64 m (dh_area_size P i) \<noteq> 0 \<and> area_matches P m h i)"

lemma all_areas_positive_eq:
  "\<forall>i \<in> set is. i < MAX_RAM_AREAS \<Longrightarrow>
   all_areas_positive P is s = Returns (\<forall>i \<in> set is. load64 (mem s) (dh_area_size P i) \<noteq> 0) s"
  by (induction "is") (simp_all add: seq_def bind_def defined_if_def ret_def gets_def)

lemma all_areas_match_eq:
  "\<forall>i \<in> set is. i < MAX_RAM_AREAS \<Longrightarrow> core_header_typed (g_core_header s) \<Longrightarrow>
   all_areas_match P is s = Returns (\<forall>i \<in> set is. area_matches P (mem s) (g_core_header s) i) s"
  by (induction "is") (auto simp add: seq_def bind_def defined_if_def ret_def gets_def core_header_typed_def area_matches_def)

text \<open>
  The headers that the check reads over the end of: magic and vector pass, there are more areas than the
  array has, and no empty one among those of the array.
\<close>

definition header_overruns :: "'d platform \<Rightarrow> memory \<Rightarrow> bool" where
  "header_overruns P m \<longleftrightarrow> load32 m (dh_magic P) = CORE_DISK_DUMP_MAGIC \<and> load32 m (dh_waking_vector P) \<noteq> 0 \<and>
     MAX_RAM_AREAS < unat (load32 m (dh_areas_size P)) \<and> (\<forall>i<MAX_RAM_AREAS. load64 m (dh_area_size P i) \<noteq> 0)"

lemma all_areas_positive_stop:
  "\<exists>i \<in> set xs. load64 (mem s) (dh_area_size P i) = 0 \<Longrightarrow> \<forall>i \<in> set xs. i < MAX_RAM_AREAS \<Longrightarrow>
   all_areas_positive P (xs @ ys) s = Returns False s"
  by (induction xs) (auto simp: seq_def bind_def defined_if_def ret_def gets_def)

lemma is_dump_header_valid_eq:
  assumes typed: "core_header_typed (g_core_header s)" and k: "unat (ram_areas_size (g_core_header s)) \<le> MAX_RAM_AREAS"
    and no: "\<not> header_overruns P (mem s)"
  shows "is_dump_header_valid P s = Returns (acceptable P (mem s) (g_core_header s)) s"
proof (cases "unat (load32 (mem s) (dh_areas_size P)) \<le> MAX_RAM_AREAS")
  case n: True
  let ?n = "load32 (mem s) (dh_areas_size P)"
  have a: "all_areas_positive P [0..<unat ?n] s = Returns (\<forall>i<unat ?n. load64 (mem s) (dh_area_size P i) \<noteq> 0) s"
    by (subst all_areas_positive_eq) (use n in auto)
  have b: "all_areas_match P [0..<unat ?n] s = Returns (\<forall>i<unat ?n. area_matches P (mem s) (g_core_header s) i) s"
    by (subst all_areas_match_eq) (use n typed in auto)
  show ?thesis
    unfolding is_dump_header_valid_def
    using b by (auto simp: bind_def gets_def ret_def Let_def a acceptable_def)
next
  case False
  let ?n = "unat (load32 (mem s) (dh_areas_size P))"
  have rejected: "\<not> acceptable P (mem s) (g_core_header s)" using False k by (auto simp: acceptable_def)
  have "all_areas_positive P [0..<?n] s = Returns False s"
    if "load32 (mem s) (dh_magic P) = CORE_DISK_DUMP_MAGIC" "load32 (mem s) (dh_waking_vector P) \<noteq> 0"
  proof -
    have "\<exists>i \<in> set [0..<MAX_RAM_AREAS]. load64 (mem s) (dh_area_size P i) = 0"
      using no that False by (auto simp: header_overruns_def)
    moreover have "[0..<?n] = [0..<MAX_RAM_AREAS] @ [MAX_RAM_AREAS..<?n]"
      using False upt_add_eq_append [of 0 MAX_RAM_AREAS "?n - MAX_RAM_AREAS"] by simp
    ultimately show ?thesis using all_areas_positive_stop [of "[0..<MAX_RAM_AREAS]" s P] by simp
  qed
  with rejected show ?thesis
    unfolding is_dump_header_valid_def by (auto simp: bind_def gets_def ret_def Let_def)
qed

text \<open>A header that says the areas of the system is accepted.\<close>

lemma nth_dump_areas:
  "areas_ok h \<Longrightarrow> i < unat (ram_areas_size h) \<Longrightarrow>
   da_start (dump_areas h ! i) = area_start (ram_areas h ! i) \<and> da_size (dump_areas h ! i) = area_size (ram_areas h ! i)"
  using nth_layout [of i "used_areas h" 4] nth_used_areas [of h i] length_dump_areas [of h]
  by (simp add: dump_areas_def)

lemma says_fields:
  assumes "header_says (dump_header_at P) m w (dump_areas h)" and ok: "areas_ok h"
  shows "load32 m (dh_magic P) = CORE_DISK_DUMP_MAGIC \<and> load32 m (dh_waking_vector P) = w \<and> load32 m (dh_areas_size P) = ram_areas_size h"
    and "i < unat (ram_areas_size h) \<Longrightarrow> load64 m (dh_area_start P i) = da_start (dump_areas h ! i) \<and>
      load64 m (dh_area_size P i) = da_size (dump_areas h ! i) \<and> load32 m (dh_area_sector P i) = da_sector (dump_areas h ! i)"
  using assms(1) unfolding header_says_def length_dump_areas [OF ok] field_addresses area_says_def by simp_all

lemma says_acceptable:
  assumes ok: "areas_ok h" and says: "header_says (dump_header_at P) m w (dump_areas h)" and "w \<noteq> 0"
  shows "acceptable P m h"
proof -
  have "ram_areas_size h \<noteq> 0" using ok by (auto simp: areas_ok_def)
  moreover have "load64 m (dh_area_size P i) \<noteq> 0 \<and> area_matches P m h i" if i: "i < unat (ram_areas_size h)" for i
  proof -
    have "da_size (dump_areas h ! i) \<noteq> 0"
      using dump_areas_each(1) [OF ok, of "dump_areas h ! i"] i length_dump_areas [OF ok] by fastforce
    then show ?thesis using says_fields(2) [OF says ok i] nth_dump_areas [OF ok i] by (simp add: area_matches_def)
  qed
  ultimately show ?thesis using says_fields(1) [OF says ok] \<open>w \<noteq> 0\<close> by (simp add: acceptable_def)
qed

section \<open>The loop over the areas\<close>

lemma wp_for_areas:
  assumes "I i s" and "i \<le> n" and "n - i < k" and n: "n \<le> MAX_RAM_AREAS"
    and bound: "\<And>j t. I j t \<Longrightarrow> unat (load32 (mem t) (dh_areas_size P)) = n"
    and step: "\<And>j t. I j t \<Longrightarrow> j < n \<Longrightarrow> wp (body j) (\<lambda>_. I (Suc j)) E t"
    and stop: "\<And>t. I n t \<Longrightarrow> Q () t"
  shows "wp (for_areas k P body i) Q E s"
  using assms(1-3)
proof (induction k arbitrary: i s)
  case 0
  then show ?case by simp
next
  case (Suc k)
  show ?case
  proof (cases "i < n")
    case True
    from step [OF Suc.prems(1) True] have "wp (body i) (\<lambda>_. wp (for_areas k P body (Suc i)) Q E) E s"
      by (rule wp_mono) (use Suc True in auto)
    with True n bound [OF Suc.prems(1)] show ?thesis by (simp add: wp_simps)
  next
    case False
    then show ?thesis using Suc.prems bound [OF Suc.prems(1)] stop by (auto simp: wp_simps)
  qed
qed

section \<open>Single transfers\<close>

lemma header_heap: "dump_env P cap s \<Longrightarrow> region (dump_header_at P) 2048 \<inter> heap_bytes (fst (kept s)) = {}"
  by (simp add: dump_env_def header_region_def kept_def)

lemma header_capacity: "dump_env P cap s \<Longrightarrow> 2048 \<le> cap"
  by (simp add: dump_env_def)

lemma wp_read_dump_header:
  assumes "idle_with P disk cap live s" and env: "dump_env P cap s"
    and "\<And>t. idle_with P disk cap live t \<Longrightarrow> vis t = mem_write (vis s) (dump_header_at P) (disk_bytes (disk (dev s)) 0 2048) \<Longrightarrow>
      disk (dev t) = disk (dev s) \<Longrightarrow> kept t = kept s \<Longrightarrow> Q () t"
  shows "wp (read_dump_header P) Q E s"
proof -
  have "wp (blk_read P 0 (dump_header_at P) 2048) Q E s"
    by (rule virtio.rd_law [OF assms(1)]) (use header_heap [OF env] header_capacity [OF env] assms(3) in simp_all)
  then show ?thesis by (simp add: read_dump_header_def blk_read_def sizeof_dump_header_def)
qed

lemma wp_write_dump_header:
  assumes "idle_with P disk cap live s" and env: "dump_env P cap s"
    and "\<And>t. idle_with P disk cap live t \<Longrightarrow> vis t = vis s \<Longrightarrow>
      disk (dev t) = disk_put 0 (mem_read (vis s) (dump_header_at P) 2048) (disk (dev s)) \<Longrightarrow> kept t = kept s \<Longrightarrow> Q () t"
  shows "wp (write_dump_header P) Q E s"
proof -
  have "wp (blk_write P 0 (dump_header_at P) 2048) Q E s"
    by (rule virtio.wr_law [OF assms(1)]) (use header_heap [OF env] header_capacity [OF env] assms(3) in simp_all)
  then show ?thesis by (simp add: write_dump_header_def blk_write_def sizeof_dump_header_def)
qed

text \<open>What the header in memory says about the area \<open>j\<close>, and what that area allows.\<close>

lemma area_facts:
  assumes env: "dump_env P cap s" and says: "header_says (dump_header_at P) (vis s) w (dump_areas (g_core_header s))"
    and j: "j < unat (ram_areas_size (g_core_header s))" and d: "d = dump_areas (g_core_header s) ! j"
  shows "load64 (mem s) (dh_area_start P j) = da_start d" "load64 (mem s) (dh_area_size P j) = da_size d"
    "load32 (mem s) (dh_area_sector P j) = da_sector d"
    "0 < unat (da_size d)" "unat (da_size d) < 2 ^ 32" "da_size d mod 512 = 0" "d \<in> set (dump_areas (g_core_header s))"
    "da_region d \<inter> heap_bytes (fst (kept s)) = {}" "da_region d \<inter> header_region P = {}" "snd (sector_bytes d) \<le> cap"
proof -
  have ok: "areas_ok (g_core_header s)" using env by (simp add: dump_env_def)
  show dm: "d \<in> set (dump_areas (g_core_header s))" using j d length_dump_areas [OF ok] by simp
  show "load64 (mem s) (dh_area_start P j) = da_start d" "load64 (mem s) (dh_area_size P j) = da_size d"
    "load32 (mem s) (dh_area_sector P j) = da_sector d"
    using says_fields(2) [OF _ ok j, of P "mem s" w] says j d unfolding vis_header_says [OF env] by auto
  show "0 < unat (da_size d)" "unat (da_size d) < 2 ^ 32" "da_size d mod 512 = 0"
    using dump_areas_each [OF ok dm] .
  have "used_areas (g_core_header s) ! j \<in> set (used_areas (g_core_header s))"
    "da_region d = area_region (used_areas (g_core_header s) ! j)"
    using nth_dump_areas [OF ok j] nth_used_areas [OF ok j] d by (auto simp: da_region_def area_region_def)
  then show "da_region d \<inter> heap_bytes (fst (kept s)) = {}" "da_region d \<inter> header_region P = {}"
    using env by (auto simp: dump_env_def kept_def)
  show "snd (sector_bytes d) \<le> cap"
    using dump_areas_sectors(2) [OF ok dm] env by (simp add: dump_env_def)
qed

lemma wp_store_area:
  assumes idle: "idle_with P disk cap live s" and env: "dump_env P cap s"
    and says: "header_says (dump_header_at P) (vis s) w (dump_areas (g_core_header s))"
    and j: "j < unat (ram_areas_size (g_core_header s))"
    and Q: "\<And>t. idle_with P disk cap live t \<Longrightarrow> vis t = vis s \<Longrightarrow>
      disk (dev t) = put_da (vis s) (dump_areas (g_core_header s) ! j) (disk (dev s)) \<Longrightarrow> kept t = kept s \<Longrightarrow> Q () t"
  shows "wp (store_area P j) Q E s"
proof -
  define d where "d = dump_areas (g_core_header s) ! j"
  note f = area_facts [OF env says j d_def]
  have "wp (blk_write P (ucast (da_sector d)) (da_start d) (da_size d)) Q E s"
  proof (rule virtio.wr_law [OF idle f(4-6)])
    show "region (da_start d) (unat (da_size d)) \<inter> heap_bytes (fst (kept s)) = {}" using f(8) by (simp add: da_region_def)
    show "512 * unat (ucast (da_sector d) :: u64) + unat (da_size d) \<le> cap" using f(10) by (simp add: sector_bytes_def)
  qed (use Q in \<open>simp add: put_da_def da_bytes_def d_def\<close>)
  then show ?thesis by (simp add: store_area_def wp_simps f(1-3) blk_write_def)
qed

lemma wp_load_area:
  assumes idle: "idle_with P disk cap live s" and env: "dump_env P cap s"
    and says: "header_says (dump_header_at P) (vis s) w (dump_areas (g_core_header s))"
    and j: "j < unat (ram_areas_size (g_core_header s))" and d: "d = dump_areas (g_core_header s) ! j"
    and Q: "\<And>t. idle_with P disk cap live t \<Longrightarrow> vis t = mem_write (vis s) (da_start d) (da_disk (disk (dev s)) d) \<Longrightarrow>
      disk (dev t) = disk (dev s) \<Longrightarrow> kept t = kept s \<Longrightarrow> Q () t"
  shows "wp (load_area P j) Q E s"
proof -
  note f = area_facts [OF env says j d]
  have "wp (blk_read P (ucast (da_sector d)) (da_start d) (da_size d)) Q E s"
  proof (rule virtio.rd_law [OF idle f(4-6)])
    show "region (da_start d) (unat (da_size d)) \<inter> heap_bytes (fst (kept s)) = {}" using f(8) by (simp add: da_region_def)
    show "512 * unat (ucast (da_sector d) :: u64) + unat (da_size d) \<le> cap" using f(10) by (simp add: sector_bytes_def)
  qed (use Q in \<open>simp add: da_disk_def\<close>)
  then show ?thesis by (simp add: load_area_def wp_simps f(1-3) blk_read_def)
qed

section \<open>A dump on the disk\<close>

text \<open>
  The disk holds the dump of a system with core header \<open>h\<close>, waking vector \<open>w\<close> and memory \<open>m\<close>: this is the
  abstract state that store, load and switch are about.
\<close>

definition dump_on_disk :: "(nat \<Rightarrow> u8) \<Rightarrow> u32 \<Rightarrow> core_header \<Rightarrow> memory \<Rightarrow> bool" where
  "dump_on_disk dsk w h m \<longleftrightarrow> w \<noteq> 0 \<and> header_says 0 (disk_mem dsk) w (dump_areas h) \<and>
     (\<forall>d \<in> set (dump_areas h). da_disk dsk d = da_bytes m d)"

text \<open>Two memories that agree on the areas of RAM are dumped alike.\<close>

definition ram :: "core_header \<Rightarrow> u64 set" where
  "ram h = (\<Union>d \<in> set (dump_areas h). da_region d)"

lemma da_bytes_cong:
  "(\<And>a. a \<in> da_region d \<Longrightarrow> m a = m' a) \<Longrightarrow> unat (da_size d) < 2 ^ 32 \<Longrightarrow> da_bytes m d = da_bytes m' d"
  unfolding da_bytes_def da_region_def by (rule mem_read_cong) auto

lemma dump_on_disk_cong:
  assumes "areas_ok h" and "\<forall>a \<in> ram h. m a = m' a"
  shows "dump_on_disk dsk w h m \<longleftrightarrow> dump_on_disk dsk w h m'"
proof -
  have "da_bytes m d = da_bytes m' d" if "d \<in> set (dump_areas h)" for d
    by (rule da_bytes_cong) (use assms that dump_areas_each [OF assms(1) that] in \<open>auto simp: ram_def\<close>)
  then show ?thesis by (simp add: dump_on_disk_def)
qed

text \<open>Writing the header into its sectors does not touch the areas.\<close>

lemma da_disk_header:
  assumes "areas_ok h" and "d \<in> set (dump_areas h)" and "length bs = 2048"
  shows "da_disk (disk_put 0 bs dsk) d = da_disk dsk d"
  unfolding da_disk_def
  by (rule disk_bytes_put_other) (use dump_areas_sectors(2) [OF assms(1,2)] assms(3) in \<open>simp add: sector_bytes_def\<close>)

lemma other_area:
  assumes "areas_ok h" and "i < unat (ram_areas_size h)" and "j < unat (ram_areas_size h)" and "i \<noteq> j"
  shows "da_disk (put_da m (dump_areas h ! j) dsk) (dump_areas h ! i) = da_disk dsk (dump_areas h ! i)"
proof (rule da_disk_put_other)
  show "snd (sector_bytes (dump_areas h ! i)) \<le> fst (sector_bytes (dump_areas h ! j)) \<or>
     snd (sector_bytes (dump_areas h ! j)) \<le> fst (sector_bytes (dump_areas h ! i))"
    using assms in_order_nth [OF dump_areas_sectors(1) [OF assms(1)]] length_dump_areas [OF assms(1)]
    by (metis nat_neq_iff)
qed

lemma env_kept:
  assumes "kept t = kept s"
  shows "g_core_header t = g_core_header s" "dump_env P cap t = dump_env P cap s" "heap t = heap s" "waking_out t = waking_out s"
  using assms dump_env_kept [OF assms] by (simp_all add: kept_def)

lemma areas_bound:
  assumes "dump_env P cap s" and "header_says (dump_header_at P) (vis s) w (dump_areas (g_core_header s))"
  shows "unat (load32 (mem s) (dh_areas_size P)) = unat (ram_areas_size (g_core_header s))"
    and "load32 (mem s) (dh_waking_vector P) = w"
    and "unat (ram_areas_size (g_core_header s)) \<le> MAX_RAM_AREAS"
  using says_fields(1) [of P "mem s" w] assms vis_header_says [OF assms(1), of w]
  by (auto simp: dump_env_def areas_ok_def)

lemma in_dump_areas:
  "areas_ok h \<Longrightarrow> d \<in> set (dump_areas h) \<Longrightarrow> \<exists>i<unat (ram_areas_size h). d = dump_areas h ! i"
  by (metis in_set_conv_nth length_dump_areas)

lemma ram_nth: "areas_ok h \<Longrightarrow> ram h = (\<Union>i<unat (ram_areas_size h). da_region (dump_areas h ! i))"
  by (auto simp: ram_def set_conv_nth length_dump_areas)

lemma ram_header: "dump_env P cap s \<Longrightarrow> a \<in> ram (g_core_header s) \<Longrightarrow> a \<notin> header_region P \<and> a \<notin> heap_bytes (heap s)"
proof -
  assume env: "dump_env P cap s" and a: "a \<in> ram (g_core_header s)"
  have "\<forall>d \<in> set (dump_areas (g_core_header s)). region (da_start d) (unat (da_size d)) \<inter> (header_region P \<union> heap_bytes (heap s)) = {}"
    unfolding dump_areas_def
    by (subst layout_areas(2) [where P = "\<lambda>a n. region a (unat n) \<inter> (header_region P \<union> heap_bytes (heap s)) = {}"])
      (use env in \<open>auto simp: dump_env_def area_region_def\<close>)
  with a show ?thesis by (auto simp: ram_def da_region_def)
qed

lemma header_frame:
  assumes "dump_env P cap s" and "\<forall>a. a \<notin> header_region P \<longrightarrow> m a = vis s a" and "d \<in> set (dump_areas (g_core_header s))"
  shows "da_bytes m d = da_bytes (vis s) d"
proof (rule da_bytes_cong)
  show "unat (da_size d) < 2 ^ 32" by (rule dump_areas_each(2) [OF _ assms(3)]) (use assms(1) in \<open>simp add: dump_env_def\<close>)
  show "m a = vis s a" if "a \<in> da_region d" for a
    using assms ram_header [OF assms(1), of a] that by (auto simp: ram_def)
qed

section \<open>Storing\<close>

lemma wp_store_areas:
  assumes idle: "idle_with P disk cap live s" and env: "dump_env P cap s"
    and says: "header_says (dump_header_at P) (vis s) w (dump_areas (g_core_header s))"
    and Q: "\<And>t. idle_with P disk cap live t \<Longrightarrow> kept t = kept s \<Longrightarrow> vis t = vis s \<Longrightarrow>
      \<forall>d \<in> set (dump_areas (g_core_header s)). da_disk (disk (dev t)) d = da_bytes (vis s) d \<Longrightarrow> Q () t"
  shows "wp (for_areas (Suc MAX_RAM_AREAS) P (store_area P) 0) Q E s"
proof -
  let ?ds = "dump_areas (g_core_header s)" and ?n = "unat (ram_areas_size (g_core_header s))"
  have ok: "areas_ok (g_core_header s)" using env by (simp add: dump_env_def)
  define I where "I j t \<longleftrightarrow> idle_with P disk cap live t \<and> kept t = kept s \<and> vis t = vis s \<and>
    (\<forall>i<j. da_disk (disk (dev t)) (?ds ! i) = da_bytes (vis s) (?ds ! i))" for j t
  have I: "idle_with P disk cap live t" "kept t = kept s" "vis t = vis s" "g_core_header t = g_core_header s" "dump_env P cap t"
    "header_says (dump_header_at P) (vis t) w (dump_areas (g_core_header t))" if "I j t" for j t
    using that env says env_kept [of t s] by (auto simp: I_def)
  show ?thesis
  proof (rule wp_for_areas [where I = I and n = ?n])
    show "I 0 s" using idle by (simp add: I_def)
    show "unat (load32 (mem t) (dh_areas_size P)) = ?n" if "I j t" for j t
      using areas_bound(1) [OF I(5,6) [OF that]] I(4) [OF that] by simp
    show "wp (store_area P j) (\<lambda>_. I (Suc j)) E t" if t: "I j t" "j < ?n" for j t
    proof (rule wp_store_area [OF I(1,5,6) [OF t(1)]])
      show "j < unat (ram_areas_size (g_core_header t))" using I(4) [OF t(1)] t(2) by simp
      fix u assume u: "idle_with P disk cap live u" "vis u = vis t"
        "disk (dev u) = put_da (vis t) (dump_areas (g_core_header t) ! j) (disk (dev t))" "kept u = kept t"
      have "da_disk (disk (dev u)) (?ds ! i) = da_bytes (vis s) (?ds ! i)" if "i < Suc j" for i
        unfolding u(3) I(3,4) [OF t(1)]
        using other_area [OF ok, of i j] that t by (cases "i = j") (simp_all add: da_disk_put_same I_def)
      then show "I (Suc j) u" using u t(1) by (simp add: I_def)
    qed
    show "Q () t" if t: "I ?n t" for t
      using in_dump_areas [OF ok] t by (intro Q I [OF t] ballI) (auto simp: I_def)
  qed (use areas_bound(3) [OF env says] in simp_all)
qed

text \<open>The header that is written behind the areas makes them a dump.\<close>

lemma dump_written:
  assumes "areas_ok h" and says: "header_says H m w (dump_areas h)" and "w \<noteq> 0"
    and "\<forall>d \<in> set (dump_areas h). da_disk dsk d = da_bytes m' d"
  shows "dump_on_disk (disk_put 0 (mem_read m H 2048) dsk) w h m'"
  using assms da_disk_header [OF assms(1), of _ "mem_read m H 2048" dsk]
  by (simp add: dump_on_disk_def header_written_to_disk)

lemma wp_store:
  assumes idle: "idle_with P disk cap live s" and env: "dump_env P cap s"
    and w: "w = facs_vector (g_core_header s) (mem s)" "w \<noteq> 0"
    and Q: "\<And>t. idle_with P disk cap live t \<Longrightarrow> kept t = kept s \<Longrightarrow>
      dump_on_disk (disk (dev t)) w (g_core_header s) (vis s) \<Longrightarrow>
      \<forall>a. a \<notin> header_region P \<longrightarrow> vis t a = vis s a \<Longrightarrow> Q () t"
  shows "wp (disk_store_dump P) Q E s"
  unfolding disk_store_dump_def wp_seq [of "fill_dump_header P"]
proof (rule wp_fill_dump_header [OF env w])
  fix m' assume m': "\<forall>a. a \<notin> header_region P \<longrightarrow> m' a = mem s a" "header_says (dump_header_at P) m' w (dump_areas (g_core_header s))"
  let ?t = "s\<lparr>mem := m'\<rparr>"
  have ok: "areas_ok (g_core_header s)" using env by (simp add: dump_env_def)
  have k: "kept ?t = kept s" by (simp add: kept_def)
  have env': "dump_env P cap ?t" using env env_kept(2) [OF k] by blast
  have says: "header_says (dump_header_at P) (vis ?t) w (dump_areas (g_core_header ?t))"
    using m'(2) vis_header_says [OF env', of w] by simp
  have v: "\<forall>a. a \<notin> header_region P \<longrightarrow> vis ?t a = vis s a" using m'(1) by (simp add: vis_def)
  show "wp (seq (for_areas (Suc MAX_RAM_AREAS) P (store_area P) 0) (write_dump_header P)) Q E ?t"
    unfolding wp_seq
  proof (rule wp_store_areas [OF _ env' says])
    show "idle_with P disk cap live ?t" using idle by (simp add: idle_with_def)
    fix t assume t: "idle_with P disk cap live t" "kept t = kept ?t" "vis t = vis ?t"
      "\<forall>d \<in> set (dump_areas (g_core_header ?t)). da_disk (disk (dev t)) d = da_bytes (vis ?t) d"
    show "wp (write_dump_header P) Q E t"
    proof (rule wp_write_dump_header [OF t(1)])
      show "dump_env P cap t" using env' env_kept(2) [OF t(2)] by blast
      fix u assume u: "idle_with P disk cap live u" "vis u = vis t"
        "disk (dev u) = disk_put 0 (mem_read (vis t) (dump_header_at P) 2048) (disk (dev t))" "kept u = kept t"
      have "dump_on_disk (disk (dev u)) w (g_core_header s) (vis s)"
        unfolding u(3) by (rule dump_written [OF ok _ w(2)]) (use says t v header_frame [OF env v] in simp_all)
      with u t k v show "Q () u" by (intro Q) simp_all
    qed
  qed
qed

section \<open>Loading\<close>

lemma mem_write_from: "n \<le> 2 ^ 64 \<Longrightarrow> mem_write v a (mem_read m a n) x = (if x \<in> region a n then m x else v x)"
  by (auto simp: mem_write_def region_def)

lemma wp_checked_header:
  assumes idle: "idle_with P disk cap live s" and env: "dump_env P cap s"
    and w: "w \<noteq> 0" "header_says 0 (disk_mem (disk (dev s))) w (dump_areas (g_core_header s))"
    and Q: "\<And>t. idle_with P disk cap live t \<Longrightarrow> kept t = kept s \<Longrightarrow> disk (dev t) = disk (dev s) \<Longrightarrow>
      header_says (dump_header_at P) (vis t) w (dump_areas (g_core_header s)) \<Longrightarrow>
      \<forall>a. a \<notin> header_region P \<longrightarrow> vis t a = vis s a \<Longrightarrow> Q () t"
  shows "wp (seq (read_dump_header P) (bind (is_dump_header_valid P) CHECK)) Q E s"
  unfolding wp_seq
proof (rule wp_read_dump_header [OF idle env])
  fix t assume t: "idle_with P disk cap live t" "vis t = mem_write (vis s) (dump_header_at P) (disk_bytes (disk (dev s)) 0 2048)"
    "disk (dev t) = disk (dev s)" "kept t = kept s"
  note k = env_kept [OF t(4)]
  have says: "header_says (dump_header_at P) (vis t) w (dump_areas (g_core_header t))"
    unfolding t(2) header_read_from_disk k(1) by (rule w(2))
  have env': "dump_env P cap t" using env k(2) by blast
  then have ok: "areas_ok (g_core_header t)" by (simp add: dump_env_def)
  have "acceptable P (mem t) (g_core_header t)"
    using says_acceptable [OF ok _ w(1)] says vis_header_says [OF env'] by blast
  moreover have "is_dump_header_valid P t = Returns (acceptable P (mem t) (g_core_header t)) t"
    by (rule is_dump_header_valid_eq) (use ok areas_bound [OF env' says] in \<open>simp_all add: areas_ok_def header_overruns_def\<close>)
  moreover have "Q () t"
    by (rule Q) (use t says k in \<open>simp_all add: mem_write_outside header_region_def\<close>)
  ultimately show "wp (bind (is_dump_header_valid P) CHECK) Q E t"
    by (simp add: wp_def bind_def CHECK_def ret_def)
qed

lemma wp_load_areas:
  assumes idle: "idle_with P disk cap live s" and env: "dump_env P cap s"
    and says: "header_says (dump_header_at P) (vis s) w (dump_areas (g_core_header s))"
    and dump: "\<forall>d \<in> set (dump_areas (g_core_header s)). da_disk (disk (dev s)) d = da_bytes m d"
    and Q: "\<And>t. idle_with P disk cap live t \<Longrightarrow> kept t = kept s \<Longrightarrow> disk (dev t) = disk (dev s) \<Longrightarrow>
      header_says (dump_header_at P) (vis t) w (dump_areas (g_core_header s)) \<Longrightarrow>
      \<forall>a. vis t a = (if a \<in> ram (g_core_header s) then m a else vis s a) \<Longrightarrow> Q () t"
  shows "wp (for_areas (Suc MAX_RAM_AREAS) P (load_area P) 0) Q E s"
proof -
  let ?ds = "dump_areas (g_core_header s)" and ?n = "unat (ram_areas_size (g_core_header s))"
  have ok: "areas_ok (g_core_header s)" using env by (simp add: dump_env_def)
  define I where "I j t \<longleftrightarrow> idle_with P disk cap live t \<and> kept t = kept s \<and> disk (dev t) = disk (dev s) \<and>
    header_says (dump_header_at P) (vis t) w ?ds \<and>
    (\<forall>a. vis t a = (if a \<in> (\<Union>i<j. da_region (?ds ! i)) then m a else vis s a))" for j t
  have I: "idle_with P disk cap live t" "kept t = kept s" "disk (dev t) = disk (dev s)" "g_core_header t = g_core_header s" "dump_env P cap t"
    "header_says (dump_header_at P) (vis t) w (dump_areas (g_core_header t))" if "I j t" for j t
    using that env env_kept [of t s] by (auto simp: I_def)
  show ?thesis
  proof (rule wp_for_areas [where I = I and n = ?n])
    show "I 0 s" using idle says by (simp add: I_def)
    show "unat (load32 (mem t) (dh_areas_size P)) = ?n" if "I j t" for j t
      using areas_bound(1) [OF I(5,6) [OF that]] I(4) [OF that] by simp
    show "wp (load_area P j) (\<lambda>_. I (Suc j)) E t" if t: "I j t" "j < ?n" for j t
    proof (rule wp_load_area [OF I(1,5,6) [OF t(1)] _ refl])
      show j: "j < unat (ram_areas_size (g_core_header t))" using I(4) [OF t(1)] t(2) by simp
      let ?d = "dump_areas (g_core_header t) ! j"
      note f = area_facts [OF I(5,6) [OF t(1)] j refl]
      fix u assume u: "idle_with P disk cap live u" "vis u = mem_write (vis t) (da_start ?d) (da_disk (disk (dev t)) ?d)"
        "disk (dev u) = disk (dev t)" "kept u = kept t"
      have "da_disk (disk (dev t)) ?d = da_bytes m ?d" using dump f(7) I(3,4) [OF t(1)] by simp
      then have v: "vis u a = (if a \<in> da_region ?d then m a else vis t a)" for a
        unfolding u(2) da_region_def using f(5) by (simp add: da_bytes_def mem_write_from)
      have "header_says (dump_header_at P) (vis u) w ?ds = header_says (dump_header_at P) (vis t) w ?ds"
        by (rule header_says_cong) (use v f(9) in auto)
      with u t(1) v I(4) [OF t(1)] show "I (Suc j) u" by (simp add: I_def lessThan_Suc)
    qed
    show "Q () t" if t: "I ?n t" for t
    proof (rule Q)
      show "\<forall>a. vis t a = (if a \<in> ram (g_core_header s) then m a else vis s a)" using t by (simp add: I_def ram_nth [OF ok])
    qed (use t in \<open>simp_all add: I_def\<close>)
  qed (use areas_bound(3) [OF env says] in simp_all)
qed

lemma wp_load:
  assumes idle: "idle_with P disk cap live s" and env: "dump_env P cap s"
    and dump: "dump_on_disk (disk (dev s)) w (g_core_header s) m"
    and Q: "\<And>t. idle_with P disk cap live t \<Longrightarrow> kept t = (heap s, g_core_header s, w) \<Longrightarrow> disk (dev t) = disk (dev s) \<Longrightarrow>
      \<forall>a \<in> ram (g_core_header s). vis t a = m a \<Longrightarrow>
      \<forall>a. a \<notin> ram (g_core_header s) \<union> header_region P \<longrightarrow> vis t a = vis s a \<Longrightarrow> Q () t"
  shows "wp (disk_load_dump P) Q E s"
proof -
  let ?h = "g_core_header s"
  have "wp (seq (read_dump_header P) (bind (is_dump_header_valid P) CHECK))
     (\<lambda>_. wp (seq (for_areas (Suc MAX_RAM_AREAS) P (load_area P) 0)
       (bind (gets (\<lambda>s. load32 (mem s) (dh_waking_vector P))) set_waking_out)) Q E) E s"
  proof (rule wp_checked_header [OF idle env])
    show "w \<noteq> 0" "header_says 0 (disk_mem (disk (dev s))) w (dump_areas ?h)" using dump by (simp_all add: dump_on_disk_def)
    fix t assume t: "idle_with P disk cap live t" "kept t = kept s" "disk (dev t) = disk (dev s)"
      "header_says (dump_header_at P) (vis t) w (dump_areas ?h)" "\<forall>a. a \<notin> header_region P \<longrightarrow> vis t a = vis s a"
    note k = env_kept [OF t(2)]
    have env': "dump_env P cap t" using env k(2) by blast
    show "wp (seq (for_areas (Suc MAX_RAM_AREAS) P (load_area P) 0)
       (bind (gets (\<lambda>s. load32 (mem s) (dh_waking_vector P))) set_waking_out)) Q E t"
      unfolding wp_seq
    proof (rule wp_load_areas [OF t(1) env'])
      show "header_says (dump_header_at P) (vis t) w (dump_areas (g_core_header t))" using t(4) k(1) by simp
      show "\<forall>d \<in> set (dump_areas (g_core_header t)). da_disk (disk (dev t)) d = da_bytes m d"
        using dump t(3) k(1) by (simp add: dump_on_disk_def)
      fix u assume u: "idle_with P disk cap live u" "kept u = kept t" "disk (dev u) = disk (dev t)"
        "header_says (dump_header_at P) (vis u) w (dump_areas (g_core_header t))"
        "\<forall>a. vis u a = (if a \<in> ram (g_core_header t) then m a else vis t a)"
      note k' = env_kept [OF u(2)]
      have "load32 (mem u) (dh_waking_vector P) = w"
        by (rule areas_bound(2)) (use env' u(4) k'(1,2) in simp_all)
      moreover have "Q () (u\<lparr>waking_out := w\<rparr>)"
      proof (rule Q)
        show "idle_with P disk cap live (u\<lparr>waking_out := w\<rparr>)"
          using u(1) by (simp add: idle_with_def ready_def desc_holds_def queue_wf_def)
        have "vis (u\<lparr>waking_out := w\<rparr>) = vis u" by (simp add: vis_def fun_eq_iff)
        with u(5) t(5) k(1) show "\<forall>a \<in> ram ?h. vis (u\<lparr>waking_out := w\<rparr>) a = m a"
          "\<forall>a. a \<notin> ram ?h \<union> header_region P \<longrightarrow> vis (u\<lparr>waking_out := w\<rparr>) a = vis s a"
          by simp_all
      qed (use u(3) t(3) k k' in \<open>simp_all add: kept_def\<close>)
      ultimately show "wp (bind (gets (\<lambda>s. load32 (mem s) (dh_waking_vector P))) set_waking_out) Q E u"
        by (simp add: wp_simps set_waking_out_def)
    qed
  qed
  then show ?thesis by (simp add: disk_load_dump_def wp_seq)
qed

section \<open>A disk without a dump of this system\<close>

lemma acceptable_cong:
  assumes "\<forall>a \<in> header_region P. m a = m' a" and "unat (ram_areas_size h) \<le> MAX_RAM_AREAS"
  shows "acceptable P m h = acceptable P m' h"
    and "header_overruns P m = header_overruns P m'"
proof -
  have m: "\<forall>k<2048. m (dump_header_at P + of_nat k) = m' (dump_header_at P + of_nat k)"
    using assms(1) by (auto simp: header_region_def region_offset)
  have f: "load32 m (dh_magic P) = load32 m' (dh_magic P)" "load32 m (dh_waking_vector P) = load32 m' (dh_waking_vector P)"
    "load32 m (dh_areas_size P) = load32 m' (dh_areas_size P)"
    unfolding field_addresses by (rule load_shift(1) [OF m]; simp)+
  have g: "load64 m (dh_area_start P i) = load64 m' (dh_area_start P i) \<and> load64 m (dh_area_size P i) = load64 m' (dh_area_size P i)"
    if "i < MAX_RAM_AREAS" for i
  proof -
    have "i < 64" using that by (simp add: MAX_RAM_AREAS_def)
    then show ?thesis
      using load_shift(2) [OF m, of "16 + 24 * i"] load_shift(2) [OF m, of "24 + 24 * i"] unfolding field_addresses by linarith
  qed
  show "acceptable P m h = acceptable P m' h" using f g assms(2) by (auto simp: acceptable_def area_matches_def)
  show "header_overruns P m = header_overruns P m'" using f g by (auto simp: header_overruns_def)
qed

text \<open>The header of the disk, as a memory with the variable \<open>header\<close> filled from it.\<close>

definition header_of_disk :: "'d platform \<Rightarrow> (nat \<Rightarrow> u8) \<Rightarrow> memory" where
  "header_of_disk P dsk = mem_write (\<lambda>_. 0) (dump_header_at P) (disk_bytes dsk 0 2048)"

definition has_dump :: "'d platform \<Rightarrow> (nat \<Rightarrow> u8) \<Rightarrow> core_header \<Rightarrow> bool" where
  "has_dump P dsk h \<longleftrightarrow> acceptable P (header_of_disk P dsk) h"

lemma wp_read_and_check:
  assumes idle: "idle_with P disk cap live s" and env: "dump_env P cap s"
    and n: "\<not> header_overruns P (header_of_disk P (disk (dev s)))"
    and Q: "\<And>t. idle_with P disk cap live t \<Longrightarrow> kept t = kept s \<Longrightarrow> disk (dev t) = disk (dev s) \<Longrightarrow>
      \<forall>a. a \<notin> header_region P \<longrightarrow> vis t a = vis s a \<Longrightarrow> Q (has_dump P (disk (dev s)) (g_core_header s)) t"
  shows "wp (seq (read_dump_header P) (is_dump_header_valid P)) Q E s"
  unfolding wp_seq
proof (rule wp_read_dump_header [OF idle env])
  fix t assume t: "idle_with P disk cap live t" "vis t = mem_write (vis s) (dump_header_at P) (disk_bytes (disk (dev s)) 0 2048)"
    "disk (dev t) = disk (dev s)" "kept t = kept s"
  note k = env_kept [OF t(4)]
  have env': "dump_env P cap t" using env k(2) by blast
  have "\<forall>a \<in> header_region P. vis t a = mem t a" using env' by (auto simp: dump_env_def vis_def)
  then have m: "\<forall>a \<in> header_region P. mem t a = header_of_disk P (disk (dev s)) a"
    using t(2) by (auto simp: header_of_disk_def header_region_def mem_write_def region_def)
  have ok: "core_header_typed (g_core_header t)" "unat (ram_areas_size (g_core_header t)) \<le> MAX_RAM_AREAS"
    using env' by (simp_all add: dump_env_def areas_ok_def)
  have "is_dump_header_valid P t = Returns (acceptable P (mem t) (g_core_header t)) t"
    by (rule is_dump_header_valid_eq [OF ok]) (use n acceptable_cong(2) [OF m ok(2)] in simp)
  moreover have "Q (has_dump P (disk (dev s)) (g_core_header s)) t"
    by (rule Q) (use t in \<open>simp_all add: mem_write_outside header_region_def\<close>)
  ultimately show "wp (is_dump_header_valid P) Q E t"
    using acceptable_cong(1) [OF m ok(2)] k(1) by (simp add: wp_def has_dump_def)
qed

text \<open>Then neither the load nor the switch goes past the check.\<close>

lemma wp_rejected:
  assumes "idle_with P disk cap live s" and "dump_env P cap s"
    and "\<not> header_overruns P (header_of_disk P (disk (dev s)))"
    and "\<not> has_dump P (disk (dev s)) (g_core_header s)"
    and E: "\<And>t. idle_with P disk cap live t \<Longrightarrow> kept t = kept s \<Longrightarrow> disk (dev t) = disk (dev s) \<Longrightarrow>
      \<forall>a. a \<notin> header_region P \<longrightarrow> vis t a = vis s a \<Longrightarrow> E t"
  shows "wp (disk_load_dump P) Q E s" and "wp (disk_switch_dump P) Q E s"
proof -
  have r: "wp (seq (read_dump_header P) (seq (bind (is_dump_header_valid P) CHECK) rest)) Q E s" for rest
  proof -
    have "wp (seq (read_dump_header P) (is_dump_header_valid P)) (\<lambda>b. wp (seq (CHECK b) rest) Q E) E s"
      by (rule wp_read_and_check [OF assms(1-3)]) (use assms(4) E in \<open>simp add: wp_simps\<close>)
    then show ?thesis by (simp only: wp_seq wp_bind)
  qed
  show "wp (disk_load_dump P) Q E s" "wp (disk_switch_dump P) Q E s"
    unfolding disk_load_dump_def disk_switch_dump_def by (rule r)+
qed

end
