(* ===== verification/DumpSwitch.thy ===== *)
theory DumpSwitch
  imports DumpProps
begin

text \<open>
  The switch: each area of RAM is exchanged with its sectors by way of the switch buffer, part by part.
  At the end are the properties of storing, loading and switching, and their witnesses on a small disk.
\<close>

section \<open>Ranges in two parts\<close>

lemma mem_read_append: "mem_read m a (n + k) = mem_read m a n @ mem_read m (a + of_nat n) k"
  by (rule nth_equalityI) (auto simp: nth_append of_nat_diff)

lemma disk_bytes_append:
  assumes "unat t = unat s + n div 512" and "n mod 512 = 0"
  shows "disk_bytes dsk s (n + k) = disk_bytes dsk s n @ disk_bytes dsk t k"
proof -
  have "512 * unat t = 512 * unat s + n" using assms by (simp add: mod_eq_0_iff_dvd)
  then show ?thesis by (intro nth_equalityI) (auto simp: disk_bytes_def nth_append)
qed

lemma disk_put_append:
  "unat t = unat s + length bs div 512 \<Longrightarrow> length bs mod 512 = 0 \<Longrightarrow>
   disk_put t cs (disk_put s bs dsk) = disk_put s (bs @ cs) dsk"
proof -
  assume t: "unat t = unat s + length bs div 512" "length bs mod 512 = 0"
  then have "512 * unat t = 512 * unat s + length bs" by (simp add: mod_eq_0_iff_dvd)
  then show ?thesis by (auto simp: disk_put_def fun_eq_iff nth_append)
qed

lemma mem_write_append:
  assumes "length bs + length cs \<le> 2 ^ 64"
  shows "mem_write (mem_write m a bs) (a + of_nat (length bs)) cs = mem_write m a (bs @ cs)"
proof
  fix x
  show "mem_write (mem_write m a bs) (a + of_nat (length bs)) cs x = mem_write m a (bs @ cs) x"
  proof (cases "cs = []")
    case False
    let ?n = "length bs"
    have n: "?n < 2 ^ 64" using assms False by (cases cs) auto
    have split: "unat (x - (a + of_nat ?n)) = (if ?n \<le> unat (x - a) then unat (x - a) - ?n else 2 ^ 64 + unat (x - a) - ?n)"
      unfolding diff_diff_add [symmetric] using n
      by (subst unat_sub_if') (auto simp: unat_of_nat_small word_le_nat_alt)
    have "unat (x - a) < 2 ^ 64" using unsigned_less [of "x - a", where ?'a = nat] by simp
    with split assms show ?thesis by (auto simp: mem_write_def nth_append)
  qed simp
qed

lemma empty_transfers [simp]: "disk_put sector [] dsk = dsk" "disk_bytes dsk sector 0 = []"
  by (auto simp: disk_put_def disk_bytes_def fun_eq_iff)

section \<open>One area\<close>

definition switch_buf_region :: "'d platform \<Rightarrow> u64 set" where
  "switch_buf_region P = region (switch_buf_at P) (unat SWITCH_BUF_SIZE)"

lemma switch_buf_size: "unat SWITCH_BUF_SIZE = 8388608"
  by (simp add: SWITCH_BUF_SIZE_def)

text \<open>
  The abstract step: \<open>n\<close> bytes of the memory \<open>v\<close> at \<open>a\<close> have changed places with those of the disk at
  \<open>sector\<close>; what is in \<open>B\<close>, the buffer, is not said.
\<close>

definition exchanged :: "u64 set \<Rightarrow> u64 \<Rightarrow> u64 \<Rightarrow> nat \<Rightarrow> memory \<times> (nat \<Rightarrow> u8) \<Rightarrow> memory \<times> (nat \<Rightarrow> u8) \<Rightarrow> bool" where
  "exchanged B a sector n = (\<lambda>(v, d) (v', d'). d' = disk_put sector (mem_read v a n) d \<and>
     (\<forall>x. x \<notin> B \<longrightarrow> v' x = mem_write v a (disk_bytes d sector n) x))"

lemma mem_write_at: "v x = v' x \<Longrightarrow> mem_write v a bs x = mem_write v' a bs x"
  by (simp add: mem_write_def)

lemma exchanged_nothing: "exchanged B a sector 0 vd vd"
  by (auto simp: exchanged_def)

lemma exchanged_append:
  assumes 1: "exchanged B a sector n (v, d) (v1, d1)" and 2: "exchanged B (a + of_nat n) sector' k (v1, d1) (v2, d2)"
    and sector': "unat sector' = unat sector + n div 512" "n mod 512 = 0"
    and k: "n + k \<le> 2 ^ 63" and B: "region (a + of_nat n) k \<inter> B = {}"
  shows "exchanged B a sector (n + k) (v, d) (v2, d2)"
proof -
  have dis: "region (a + of_nat n) k \<inter> region a n = {}"
    using region_offsets_disjoint(2) [of 0 n n k a] k by simp
  have "mem_read v1 (a + of_nat n) k = mem_read v (a + of_nat n) k"
  proof (rule mem_read_cong)
    fix x assume "x \<in> region (a + of_nat n) k"
    then have "x \<notin> B" "x \<notin> region a n" using B dis by auto
    with 1 show "v1 x = v x" by (simp add: exchanged_def mem_write_outside)
  qed (use k in simp)
  then have "d2 = disk_put sector (mem_read v a (n + k)) d"
    using 1 2 sector' by (simp add: exchanged_def mem_read_append disk_put_append)
  moreover have "disk_bytes d1 sector' k = disk_bytes d sector' k"
  proof -
    have "512 * unat sector' = 512 * unat sector + n" using sector' by (simp add: mod_eq_0_iff_dvd)
    then show ?thesis using 1 by (simp add: exchanged_def disk_bytes_put_other)
  qed
  moreover have "v2 x = mem_write v a (disk_bytes d sector (n + k)) x" if "x \<notin> B" for x
  proof -
    have "v2 x = mem_write v1 (a + of_nat n) (disk_bytes d1 sector' k) x" using 2 that by (simp add: exchanged_def)
    also have "\<dots> = mem_write (mem_write v a (disk_bytes d sector n)) (a + of_nat n) (disk_bytes d1 sector' k) x"
      by (rule mem_write_at) (use 1 that in \<open>simp add: exchanged_def\<close>)
    also have "\<dots> = mem_write v a (disk_bytes d sector n @ disk_bytes d1 sector' k) x"
      using mem_write_append [of "disk_bytes d sector n" "disk_bytes d1 sector' k" v a] k by simp
    finally show ?thesis using \<open>disk_bytes d1 sector' k = _\<close> disk_bytes_append [OF sector'] by simp
  qed
  ultimately show ?thesis by (simp add: exchanged_def)
qed

text \<open>A round of \<open>switch_memory_area\<close>.\<close>

lemma wp_switch_round:
  assumes idle: "idle_with P disk cap live s" and less: "addr < en" and r: "r = MIN_u64 SWITCH_BUF_SIZE (en - addr)"
    and "unat (en - addr) mod 512 = 0" "512 * unat sector + unat r \<le> cap"
    and p: "region addr (unat r) \<inter> (heap_bytes (fst (kept s)) \<union> switch_buf_region P) = {}"
      "switch_buf_region P \<inter> heap_bytes (fst (kept s)) = {}"
    and Q: "\<And>t. idle_with P disk cap live t \<Longrightarrow> kept t = kept s \<Longrightarrow>
      exchanged (switch_buf_region P) addr sector (unat r) (vis s, disk (dev s)) (vis t, disk (dev t)) \<Longrightarrow>
      wp (switch_chunks n P (addr + SWITCH_BUF_SIZE) en (sector + r div 512)) Q E t"
  shows "wp (switch_chunks (Suc n) P addr en sector) Q E s"
proof -
  have r': "unat r = min 8388608 (unat (en - addr))"
    by (auto simp: r MIN_u64_def word_less_nat_alt switch_buf_size)
  have "0 < unat (en - addr)" using less by (simp add: unat_sub word_less_nat_alt word_le_nat_alt)
  then have rr: "0 < unat r" "unat r < 2 ^ 32" "unat r mod 512 = 0" using r' assms(4) by (auto simp: min_def)
  then have rm: "r mod 512 = 0" by (simp add: mod_512)
  have small: "region (switch_buf_at P) (unat r) \<subseteq> switch_buf_region P"
    unfolding switch_buf_region_def by (rule region_mono) (simp add: r' switch_buf_size)
  have "wp (seq (blk_read P sector (switch_buf_at P) r) (seq (blk_write P sector addr r) (mem_copy addr (switch_buf_at P) r)))
     (\<lambda>_. wp (switch_chunks n P (addr + SWITCH_BUF_SIZE) en (sector + r div 512)) Q E) E s"
  proof (rule virtio.exchange [OF idle rr(1,2) rm assms(5)])
    fix t assume t: "idle_with P disk cap live t" "kept t = kept s"
      "vis t = mem_write (mem_write (vis s) (switch_buf_at P) (disk_bytes (disk (dev s)) sector (unat r))) addr (disk_bytes (disk (dev s)) sector (unat r))"
      "disk (dev t) = disk_put sector (mem_read (vis s) addr (unat r)) (disk (dev s))"
    have "mem_write (vis s) (switch_buf_at P) (disk_bytes (disk (dev s)) sector (unat r)) x = vis s x" if "x \<notin> switch_buf_region P" for x
      by (rule mem_write_outside) (use that small in auto)
    then have "exchanged (switch_buf_region P) addr sector (unat r) (vis s, disk (dev s)) (vis t, disk (dev t))"
      unfolding exchanged_def using t(3,4) by (simp add: mem_write_def)
    with t show "wp (switch_chunks n P (addr + SWITCH_BUF_SIZE) en (sector + r div 512)) Q E t" by (intro Q)
  qed (use p small in auto)
  then show ?thesis
    using less rm by (simp add: wp_simps r [symmetric] Let_def blk_read_def blk_write_def mem_copy_def set_mem_def VIRTIO_BLK_SECTOR_SIZE_def)
qed

lemma wp_switch_chunks:
  assumes "idle_with P disk cap live s" and "k = unat en - unat addr" "unat addr \<le> unat en" "unat en + 8388608 \<le> 2 ^ 64"
    and "k mod 512 = 0" "k \<le> n * 8388608" "k < 2 ^ 32" "512 * unat sector + k \<le> cap" "unat sector + k div 512 < 2 ^ 40"
    and "region addr k \<inter> (heap_bytes (fst (kept s)) \<union> switch_buf_region P) = {}"
    and "switch_buf_region P \<inter> heap_bytes (fst (kept s)) = {}"
    and "\<And>t. idle_with P disk cap live t \<Longrightarrow> kept t = kept s \<Longrightarrow>
      exchanged (switch_buf_region P) addr sector k (vis s, disk (dev s)) (vis t, disk (dev t)) \<Longrightarrow> Q () t"
  shows "wp (switch_chunks (Suc n) P addr en sector) Q E s"
  using assms
proof (induction n arbitrary: addr k sector s)
  case 0
  then have "\<not> addr < en" by (simp add: word_less_nat_alt)
  moreover have "Q () s" by (rule "0.prems"(12)) (use "0.prems" in \<open>simp_all add: exchanged_nothing\<close>)
  ultimately show ?case by (simp add: wp_simps)
next
  case (Suc n)
  show ?case
  proof (cases "addr < en")
    case False
    then have "k = 0" using Suc.prems(2) by (simp add: word_less_nat_alt)
    then have "Q () s" by (intro Suc.prems(12)) (use Suc.prems in \<open>simp_all add: exchanged_nothing\<close>)
    with False show ?thesis by (simp add: wp_simps)
  next
    case True
    define r where "r = MIN_u64 SWITCH_BUF_SIZE (en - addr)"
    have sub: "unat (en - addr) = k" using Suc.prems(2) True by (simp add: unat_sub word_less_nat_alt word_le_nat_alt)
    have r: "unat r = min 8388608 k"
      using sub by (auto simp: r_def MIN_u64_def word_less_nat_alt switch_buf_size)
    show ?thesis
    proof (rule wp_switch_round [OF Suc.prems(1) True r_def])
      show "unat (en - addr) mod 512 = 0" "512 * unat sector + unat r \<le> cap"
        "switch_buf_region P \<inter> heap_bytes (fst (kept s)) = {}"
        using sub r Suc.prems(5,8,11) by simp_all
      show "region addr (unat r) \<inter> (heap_bytes (fst (kept s)) \<union> switch_buf_region P) = {}"
        using Suc.prems(10) region_mono [of "unat r" k addr] r by auto
      fix t assume t: "idle_with P disk cap live t" "kept t = kept s"
        "exchanged (switch_buf_region P) addr sector (unat r) (vis s, disk (dev s)) (vis t, disk (dev t))"
      have addr': "unat (addr + SWITCH_BUF_SIZE) = unat addr + 8388608"
        using Suc.prems(4) True by (subst unat_add_lem [THEN iffD1]) (simp_all add: switch_buf_size word_less_nat_alt)
      show "wp (switch_chunks (Suc n) P (addr + SWITCH_BUF_SIZE) en (sector + r div 512)) Q E t"
      proof (cases "k \<le> 8388608")
        case True
        then have "\<not> addr + SWITCH_BUF_SIZE < en" using addr' Suc.prems(2) by (simp add: word_less_nat_alt)
        moreover have "Q () t" by (rule Suc.prems(12)) (use t r True in simp_all)
        ultimately show ?thesis by (simp add: wp_simps)
      next
        case False
        then have r8: "unat r = 8388608" "r div 512 = 16384" "SWITCH_BUF_SIZE = of_nat 8388608"
          using r by (simp_all add: word_unat_eq_iff unat_div SWITCH_BUF_SIZE_def)
        have sector': "unat (sector + r div 512) = unat sector + 16384"
          unfolding r8(2) using Suc.prems(9) by (subst unat_add_lem [THEN iffD1]) simp_all
        have in8: "region (addr + SWITCH_BUF_SIZE) (k - 8388608) \<subseteq> region addr k"
          unfolding r8(3) by (rule region_inside) (use False Suc.prems(7) in simp_all)
        have kn: "k \<le> 8388608 + n * 8388608" using Suc.prems(6) by simp
        have "(16384 * 512 + (k - 8388608)) div 512 = 16384 + (k - 8388608) div 512" by (rule div_mult_self3) simp
        then have kd: "k div 512 = 16384 + (k - 8388608) div 512" using False by simp
        show ?thesis
        proof (rule Suc.IH [OF t(1)])
          show "k - 8388608 = unat en - unat (addr + SWITCH_BUF_SIZE)" "unat (addr + SWITCH_BUF_SIZE) \<le> unat en"
            "512 * unat (sector + r div 512) + (k - 8388608) \<le> cap" "unat (sector + r div 512) + (k - 8388608) div 512 < 2 ^ 40"
            "k - 8388608 \<le> n * 8388608" "k - 8388608 < 2 ^ 32" "unat en + 8388608 \<le> 2 ^ 64"
            using addr' sector' Suc.prems(2-4,7-9) kn kd False by linarith+
          show "(k - 8388608) mod 512 = 0" using Suc.prems(5) kd False by (simp add: mod_eq_0_iff_dvd dvd_diff_nat)
          show "region (addr + SWITCH_BUF_SIZE) (k - 8388608) \<inter> (heap_bytes (fst (kept t)) \<union> switch_buf_region P) = {}"
            "switch_buf_region P \<inter> heap_bytes (fst (kept t)) = {}"
            using Suc.prems(10,11) in8 t(2) by auto
          fix u assume u: "idle_with P disk cap live u" "kept u = kept t"
            "exchanged (switch_buf_region P) (addr + SWITCH_BUF_SIZE) (sector + r div 512) (k - 8388608) (vis t, disk (dev t)) (vis u, disk (dev u))"
          have "exchanged (switch_buf_region P) addr sector (8388608 + (k - 8388608)) (vis s, disk (dev s)) (vis u, disk (dev u))"
            by (rule exchanged_append [OF _ u(3) [unfolded r8(3)]])
              (use t(3) r8 sector' Suc.prems(7,10) in8 False in \<open>auto simp: r8(3)\<close>)
          then show "Q () u" using u(1,2) t(2) False by (intro Suc.prems(12)) simp_all
        qed
      qed
    qed
  qed
qed

text \<open>
  What the switch needs besides: the buffer and the FACS are apart from everything else, no two areas of
  RAM overlap, and no area is so high that adding the size of the buffer to its end wraps around.
\<close>

definition switch_env :: "'d platform \<Rightarrow> 'd machine \<Rightarrow> bool" where
  "switch_env P s \<longleftrightarrow> (let h = g_core_header s; ds = dump_areas h; n = unat (ram_areas_size h) in
     switch_buf_region P \<inter> (heap_bytes (heap s) \<union> header_region P \<union> ram h \<union> facs_region h) = {} \<and>
     facs_region h \<inter> ram h = {} \<and>
     (\<forall>i<n. \<forall>j<n. i \<noteq> j \<longrightarrow> da_region (ds ! i) \<inter> da_region (ds ! j) = {}) \<and>
     (\<forall>d \<in> set ds. unat (da_start d) + unat (da_size d) + 8388608 \<le> 2 ^ 64))"

lemma switch_env_kept: "kept t = kept s \<Longrightarrow> switch_env P t = switch_env P s"
  by (simp add: kept_def switch_env_def)

lemma wp_switch_area:
  assumes idle: "idle_with P disk cap live s" and env: "dump_env P cap s" and sw: "switch_env P s"
    and says: "header_says (dump_header_at P) (vis s) w (dump_areas (g_core_header s))"
    and j: "j < unat (ram_areas_size (g_core_header s))" and d: "d = dump_areas (g_core_header s) ! j"
    and Q: "\<And>t. idle_with P disk cap live t \<Longrightarrow> kept t = kept s \<Longrightarrow> disk (dev t) = put_da (vis s) d (disk (dev s)) \<Longrightarrow>
      \<forall>x. x \<notin> switch_buf_region P \<longrightarrow> vis t x = mem_write (vis s) (da_start d) (da_disk (disk (dev s)) d) x \<Longrightarrow> Q () t"
  shows "wp (switch_memory_area P j) Q E s"
proof -
  note f = area_facts [OF env says j d]
  have hi: "unat (da_start d) + unat (da_size d) + 8388608 \<le> 2 ^ 64"
    using sw f(7) by (simp add: switch_env_def Let_def)
  then have en: "unat (da_start d + da_size d) = unat (da_start d) + unat (da_size d)"
    by (subst unat_add_lem [THEN iffD1]) simp_all
  have fuel: "unat (da_size d) \<le> Suc (unat (da_size d) div 8388608) * 8388608"
    using dividend_less_times_div [of 8388608 "unat (da_size d)"] by simp
  have sec: "unat (da_sector d) < 2 ^ 32" using unsigned_less [of "da_sector d", where ?'a = nat] by simp
  have "wp (switch_chunks (Suc (Suc (unat (da_size d) div 8388608))) P (da_start d) (da_start d + da_size d) (ucast (da_sector d))) Q E s"
  proof (rule wp_switch_chunks [OF idle, where k = "unat (da_size d)"])
    show "unat (da_size d) = unat (da_start d + da_size d) - unat (da_start d)" "unat (da_start d) \<le> unat (da_start d + da_size d)"
      "unat (da_start d + da_size d) + 8388608 \<le> 2 ^ 64" "unat (da_size d) mod 512 = 0" "unat (da_size d) < 2 ^ 32"
      "512 * unat (ucast (da_sector d) :: u64) + unat (da_size d) \<le> cap"
      "unat (ucast (da_sector d) :: u64) + unat (da_size d) div 512 < 2 ^ 40"
      using en hi f(5,6,10) sec by (simp_all add: mod_512 sector_bytes_def)
    show "region (da_start d) (unat (da_size d)) \<inter> (heap_bytes (fst (kept s)) \<union> switch_buf_region P) = {}"
      "switch_buf_region P \<inter> heap_bytes (fst (kept s)) = {}"
      using f(7,8) sw by (auto simp: switch_env_def Let_def ram_def da_region_def kept_def)
  qed (use fuel Q in \<open>simp_all add: exchanged_def put_da_def da_bytes_def da_disk_def\<close>)
  then show ?thesis
    by (simp add: switch_memory_area_def wp_simps Let_def f(1-3) switch_rounds_def switch_buf_size del: switch_chunks.simps)
qed

section \<open>All areas\<close>

text \<open>After the first \<open>j\<close> areas: those are exchanged, the others are as they were.\<close>

definition switched :: "'d platform \<Rightarrow> ('d \<Rightarrow> nat \<Rightarrow> u8) \<Rightarrow> memory \<Rightarrow> 'd machine \<Rightarrow> nat \<Rightarrow> 'd machine \<Rightarrow> bool" where
  "switched P disk m s j t \<longleftrightarrow> (let h = g_core_header s; ds = dump_areas h; n = unat (ram_areas_size h) in
     (\<forall>i<n. da_disk (disk (dev t)) (ds ! i) = (if i < j then da_bytes (vis s) (ds ! i) else da_bytes m (ds ! i))) \<and>
     (\<forall>x. x \<notin> switch_buf_region P \<longrightarrow> vis t x = (if x \<in> (\<Union>i<j. da_region (ds ! i)) then m x else vis s x)))"

lemma switched_start:
  "areas_ok (g_core_header s) \<Longrightarrow> \<forall>d \<in> set (dump_areas (g_core_header s)). da_disk (disk (dev s)) d = da_bytes m d \<Longrightarrow> switched P disk m s 0 s"
  by (simp add: switched_def length_dump_areas Let_def)

lemma switched_step:
  assumes env: "dump_env P cap s" and sw: "switch_env P s" and s: "switched P disk m s j t" and j: "j < unat (ram_areas_size (g_core_header s))"
    and d: "d = dump_areas (g_core_header s) ! j" and kept: "kept u = kept s"
    and u: "disk (dev u) = put_da (vis t) d (disk (dev t))"
      "\<forall>x. x \<notin> switch_buf_region P \<longrightarrow> vis u x = mem_write (vis t) (da_start d) (da_disk (disk (dev t)) d) x"
  shows "switched P disk m s (Suc j) u"
proof -
  let ?h = "g_core_header s" and ?ds = "dump_areas (g_core_header s)" and ?n = "unat (ram_areas_size (g_core_header s))"
  have ok: "areas_ok ?h" using env by (simp add: dump_env_def)
  have dm: "d \<in> set ?ds" using j d length_dump_areas [OF ok] by simp
  note size = dump_areas_each(2) [OF ok dm]
  have dd: "da_disk (disk (dev t)) d = da_bytes m d" using s j d by (simp add: switched_def Let_def)
  have "da_bytes (vis t) d = da_bytes (vis s) d"
  proof (rule da_bytes_cong [OF _ size])
    fix x assume x: "x \<in> da_region d"
    then have "x \<notin> switch_buf_region P" using sw dm by (auto simp: switch_env_def Let_def ram_def)
    moreover have "x \<notin> da_region (?ds ! i)" if "i < j" for i
    proof -
      have "da_region (?ds ! i) \<inter> da_region (?ds ! j) = {}" using sw j that by (simp add: switch_env_def Let_def)
      with x d show ?thesis by auto
    qed
    ultimately show "vis t x = vis s x" using s by (auto simp: switched_def Let_def)
  qed
  then have "da_disk (disk (dev u)) (?ds ! i) = (if i < Suc j then da_bytes (vis s) (?ds ! i) else da_bytes m (?ds ! i))" if i: "i < ?n" for i
  proof (cases "i = j")
    case True
    then show ?thesis using u(1) d \<open>da_bytes (vis t) d = _\<close> by (simp add: da_disk_put_same)
  next
    case False
    then have "da_disk (disk (dev u)) (?ds ! i) = da_disk (disk (dev t)) (?ds ! i)"
      unfolding u(1) d by (rule other_area [OF ok i j])
    with False i s show ?thesis by (auto simp: switched_def Let_def)
  qed
  moreover have "vis u x = (if x \<in> (\<Union>i<Suc j. da_region (?ds ! i)) then m x else vis s x)" if x: "x \<notin> switch_buf_region P" for x
  proof -
    have "vis u x = (if x \<in> da_region d then m x else vis t x)"
      using u(2) x size by (simp add: dd da_bytes_def mem_write_from da_region_def)
    with s x d show ?thesis by (simp add: switched_def Let_def lessThan_Suc)
  qed
  ultimately show ?thesis by (simp add: switched_def Let_def)
qed

lemma wp_switch_areas:
  assumes idle: "idle_with P disk cap live s" and env: "dump_env P cap s" and sw: "switch_env P s"
    and says: "header_says (dump_header_at P) (vis s) w (dump_areas (g_core_header s))"
    and dump: "\<forall>d \<in> set (dump_areas (g_core_header s)). da_disk (disk (dev s)) d = da_bytes m d"
    and Q: "\<And>t. idle_with P disk cap live t \<Longrightarrow> kept t = kept s \<Longrightarrow> switched P disk m s (unat (ram_areas_size (g_core_header s))) t \<Longrightarrow>
      header_says (dump_header_at P) (vis t) w (dump_areas (g_core_header s)) \<Longrightarrow> Q () t"
  shows "wp (for_areas (Suc MAX_RAM_AREAS) P (switch_memory_area P) 0) Q E s"
proof -
  let ?h = "g_core_header s" and ?n = "unat (ram_areas_size (g_core_header s))"
  have ok: "areas_ok ?h" using env by (simp add: dump_env_def)
  define I where "I j t \<longleftrightarrow> idle_with P disk cap live t \<and> kept t = kept s \<and> j \<le> ?n \<and> switched P disk m s j t" for j t
  have I: "idle_with P disk cap live t" "kept t = kept s" "g_core_header t = ?h" "dump_env P cap t" "switch_env P t"
    if "I j t" for j t
    using that env sw env_kept [of t s] switch_env_kept [of t s] by (auto simp: I_def)
  have hs: "header_says (dump_header_at P) (vis t) w (dump_areas (g_core_header t))" if t: "I j t" for j t
  proof -
    have "vis t a = vis s a" if a: "a \<in> header_region P" for a
    proof -
      have "a \<notin> ram ?h" using ram_header [OF env, of a] a by blast
      then have "a \<notin> (\<Union>i<j. da_region (dump_areas ?h ! i))" using ram_nth [OF ok] t by (force simp: I_def)
      moreover have "a \<notin> switch_buf_region P" using a sw by (auto simp: switch_env_def Let_def)
      ultimately show ?thesis using t by (simp add: I_def switched_def Let_def)
    qed
    then show ?thesis using says header_says_cong [of P "vis t" "vis s" w] I(3) [OF t] by metis
  qed
  show ?thesis
  proof (rule wp_for_areas [where I = I and n = ?n])
    show "I 0 s" using idle switched_start [OF ok, of disk m P] dump by (simp add: I_def)
    show "unat (load32 (mem t) (dh_areas_size P)) = ?n" if "I j t" for j t
      using areas_bound(1) [OF I(4) [OF that] hs [OF that]] I(3) [OF that] by simp
    show "wp (switch_memory_area P j) (\<lambda>_. I (Suc j)) E t" if t: "I j t" "j < ?n" for j t
    proof (rule wp_switch_area [OF I(1,4,5) [OF t(1)] hs [OF t(1)] _ refl])
      show "j < unat (ram_areas_size (g_core_header t))" using t I(3) [OF t(1)] by simp
      fix u assume "idle_with P disk cap live u" "kept u = kept t"
        "disk (dev u) = put_da (vis t) (dump_areas (g_core_header t) ! j) (disk (dev t))"
        "\<forall>x. x \<notin> switch_buf_region P \<longrightarrow> vis u x = mem_write (vis t) (da_start (dump_areas (g_core_header t) ! j)) (da_disk (disk (dev t)) (dump_areas (g_core_header t) ! j)) x"
      with t I(2,3) [OF t(1)] switched_step [OF env sw, of disk m j t "dump_areas ?h ! j" u]
      show "I (Suc j) u" by (simp add: I_def)
    qed
    show "Q () t" if t: "I ?n t" for t
      using t hs [OF t] I(3) [OF t] by (intro Q) (simp_all add: I_def)
  qed (use areas_bound(3) [OF env says] in simp_all)
qed

section \<open>The new header\<close>

lemma header_says_new_vector:
  assumes "header_says H m w ds"
  shows "header_says H (store32 (H + of_nat 4) v m) v ds"
proof -
  have "load32 (store32 (H + of_nat 4) v m) (H + of_nat k) = load32 m (H + of_nat k)" if "k \<in> {0, 8}" for k
    by (rule load_store_apart(1), rule offsets_apart) (use that in auto)
  then have f: "load32 (store32 (H + of_nat 4) v m) (H + of_nat 0) = load32 m (H + of_nat 0)"
    "load32 (store32 (H + of_nat 4) v m) (H + of_nat 8) = load32 m (H + of_nat 8)" by blast+
  have g: "area_says H (store32 (H + of_nat 4) v m) i d = area_says H m i d" if "i < length ds" for i d
  proof -
    have "i < 64" using that assms by (simp add: header_says_def MAX_RAM_AREAS_def)
    then have "apart (H + of_nat (16 + 24 * i)) 8 (H + of_nat 4) 4" "apart (H + of_nat (24 + 24 * i)) 8 (H + of_nat 4) 4"
      "apart (H + of_nat (32 + 24 * i)) 4 (H + of_nat 4) 4"
      by (auto intro!: offsets_apart simp del: of_nat_add of_nat_mult of_nat_numeral)
    then show ?thesis by (simp only: area_says_def load_store_apart)
  qed
  show ?thesis using assms g unfolding header_says_def f load32_store32 by simp
qed

lemma wp_new_header:
  assumes idle: "idle_with P disk cap live s" and env: "dump_env P cap s"
    and says: "header_says (dump_header_at P) (vis s) w (dump_areas (g_core_header s))"
    and v: "v = facs_vector (g_core_header s) (mem s)" "v \<noteq> 0"
    and areas: "\<forall>d \<in> set (dump_areas (g_core_header s)). da_disk (disk (dev s)) d = da_bytes m d"
    and Q: "\<And>t. idle_with P disk cap live t \<Longrightarrow> kept t = kept s \<Longrightarrow> dump_on_disk (disk (dev t)) v (g_core_header s) m \<Longrightarrow>
      \<forall>a. a \<notin> header_region P \<longrightarrow> vis t a = vis s a \<Longrightarrow> Q () t"
  shows "wp (seq (bind find_original_waking_vector (\<lambda>w. set_mem (store32 (dh_waking_vector P) w))) (write_dump_header P)) Q E s"
proof -
  define t where "t = s\<lparr>mem := store32 (dh_waking_vector P) v (mem s)\<rparr>"
  have ok: "areas_ok (g_core_header s)" using env by (simp add: dump_env_def)
  have t: "idle_with P disk cap live t" "kept t = kept s" "g_core_header t = g_core_header s" "dev t = dev s"
    using idle by (simp_all add: t_def idle_with_def kept_def)
  have env': "dump_env P cap t" using env env_kept(2) [OF t(2)] by blast
  have says': "header_says (dump_header_at P) (vis t) v (dump_areas (g_core_header s))"
    using header_says_new_vector [of _ "mem s" w _ v] says vis_header_says [OF env, of w] vis_header_says [OF env', of v] t(3)
    by (simp add: t_def dh_waking_vector_def)
  have "region (dh_waking_vector P) 4 \<subseteq> header_region P"
    unfolding field_addresses header_region_def by (rule region_inside) simp_all
  then have "a \<notin> header_region P \<Longrightarrow> store32 (dh_waking_vector P) v (mem s) a = mem s a" for a
    by (intro store32_frame) blast
  then have frame: "\<forall>a. a \<notin> header_region P \<longrightarrow> vis t a = vis s a" by (simp add: t_def vis_def)
  have "wp (write_dump_header P) Q E t"
  proof (rule wp_write_dump_header [OF t(1) env'])
    fix u assume u: "idle_with P disk cap live u" "vis u = vis t"
      "disk (dev u) = disk_put 0 (mem_read (vis t) (dump_header_at P) 2048) (disk (dev t))" "kept u = kept t"
    have "dump_on_disk (disk (dev u)) v (g_core_header s) m"
      unfolding u(3) by (rule dump_written [OF ok says' v(2)]) (use areas t(4) in simp)
    with u t(2) frame show "Q () u" by (intro Q) simp_all
  qed
  then show ?thesis using v by (simp add: wp_simps t_def Let_def)
qed

text \<open>The end of the switch: the vector of the loaded system goes out and that of the stored one into the header.\<close>

lemma wp_vector_out:
  assumes idle: "idle_with P disk cap live s" and env: "dump_env P cap s"
    and says: "header_says (dump_header_at P) (vis s) w (dump_areas (g_core_header s))"
    and v: "v = facs_vector (g_core_header s) (mem s)" "v \<noteq> 0"
    and areas: "\<forall>d \<in> set (dump_areas (g_core_header s)). da_disk (disk (dev s)) d = da_bytes m d"
    and Q: "\<And>t. idle_with P disk cap live t \<Longrightarrow> kept t = (heap s, g_core_header s, w) \<Longrightarrow>
      dump_on_disk (disk (dev t)) v (g_core_header s) m \<Longrightarrow> \<forall>a. a \<notin> header_region P \<longrightarrow> vis t a = vis s a \<Longrightarrow> Q () t"
  shows "wp (seq (bind (gets (\<lambda>s. load32 (mem s) (dh_waking_vector P))) set_waking_out)
    (seq (bind find_original_waking_vector (\<lambda>w. set_mem (store32 (dh_waking_vector P) w))) (write_dump_header P))) Q E s"
proof -
  define x where "x = s\<lparr>waking_out := w\<rparr>"
  have x: "idle_with P disk cap live x" "vis x = vis s" "mem x = mem s" "dev x = dev s" "g_core_header x = g_core_header s"
    "kept x = (heap s, g_core_header s, w)" "dump_env P cap x"
    using idle env by (simp_all add: x_def idle_with_def ready_def desc_holds_def queue_wf_def vis_def fun_eq_iff kept_def dump_env_def)
  have "wp (seq (bind find_original_waking_vector (\<lambda>w. set_mem (store32 (dh_waking_vector P) w))) (write_dump_header P)) Q E x"
    by (rule wp_new_header [OF x(1,7), where w = w and v = v and m = m]) (use says v areas x Q in simp_all)
  moreover have "load32 (mem s) (dh_waking_vector P) = w" by (rule areas_bound(2) [OF env says])
  ultimately show ?thesis by (simp add: wp_simps set_waking_out_def x_def)
qed

lemma facs_cong: "\<forall>a \<in> facs_region h. m a = m' a \<Longrightarrow> facs_vector h m = facs_vector h m'"
  unfolding facs_vector_def load32_def by (subst mem_read_cong [where m' = m']) (auto simp: facs_region_def)

lemma switched_end:
  assumes env: "dump_env P cap s" and sw: "switch_env P s" and s: "switched P disk m s (unat (ram_areas_size (g_core_header s))) t"
    and kept: "kept t = kept s"
  shows "\<forall>d \<in> set (dump_areas (g_core_header s)). da_disk (disk (dev t)) d = da_bytes (vis s) d"
    "\<forall>a \<in> ram (g_core_header s). vis t a = m a"
    "\<forall>a. a \<notin> ram (g_core_header s) \<union> switch_buf_region P \<longrightarrow> vis t a = vis s a"
    "facs_vector (g_core_header s) (mem t) = facs_vector (g_core_header s) (mem s)"
proof -
  have ok: "areas_ok (g_core_header s)" using env by (simp add: dump_env_def)
  have env': "dump_env P cap t" using env env_kept(2) [OF kept] by blast
  show "\<forall>d \<in> set (dump_areas (g_core_header s)). da_disk (disk (dev t)) d = da_bytes (vis s) d"
    using in_dump_areas [OF ok] s by (fastforce simp: switched_def Let_def)
  have "a \<notin> switch_buf_region P" if "a \<in> ram (g_core_header s)" for a
    using sw that by (auto simp: switch_env_def Let_def)
  then show "\<forall>a \<in> ram (g_core_header s). vis t a = m a"
    using s by (simp add: switched_def Let_def ram_nth [OF ok])
  show f: "\<forall>a. a \<notin> ram (g_core_header s) \<union> switch_buf_region P \<longrightarrow> vis t a = vis s a"
    using s by (simp add: switched_def Let_def ram_nth [OF ok])
  have "facs_vector (g_core_header s) (vis t) = facs_vector (g_core_header s) (vis s)"
    by (rule facs_cong) (use f sw in \<open>auto simp: switch_env_def Let_def\<close>)
  then show "facs_vector (g_core_header s) (mem t) = facs_vector (g_core_header s) (mem s)"
    using vis_facs [OF env] vis_facs [OF env'] env_kept(1) [OF kept] by simp
qed

lemma wp_switch:
  assumes idle: "idle_with P disk cap live s" and env: "dump_env P cap s" and sw: "switch_env P s"
    and dump: "dump_on_disk (disk (dev s)) w (g_core_header s) m"
    and v: "v = facs_vector (g_core_header s) (mem s)" "v \<noteq> 0"
    and Q: "\<And>t. idle_with P disk cap live t \<Longrightarrow> kept t = (heap s, g_core_header s, w) \<Longrightarrow>
      dump_on_disk (disk (dev t)) v (g_core_header s) (vis s) \<Longrightarrow> \<forall>a \<in> ram (g_core_header s). vis t a = m a \<Longrightarrow>
      \<forall>a. a \<notin> ram (g_core_header s) \<union> header_region P \<union> switch_buf_region P \<longrightarrow> vis t a = vis s a \<Longrightarrow> Q () t"
  shows "wp (disk_switch_dump P) Q E s"
proof -
  let ?h = "g_core_header s" and ?n = "unat (ram_areas_size (g_core_header s))"
  let ?out = "bind (gets (\<lambda>s. load32 (mem s) (dh_waking_vector P))) set_waking_out"
  let ?new = "seq (bind find_original_waking_vector (\<lambda>w. set_mem (store32 (dh_waking_vector P) w))) (write_dump_header P)"
  have ok: "areas_ok ?h" using env by (simp add: dump_env_def)
  have "wp (seq (read_dump_header P) (bind (is_dump_header_valid P) CHECK))
     (\<lambda>_. wp (seq (for_areas (Suc MAX_RAM_AREAS) P (switch_memory_area P) 0) (seq ?out ?new)) Q E) E s"
  proof (rule wp_checked_header [OF idle env])
    show "w \<noteq> 0" "header_says 0 (disk_mem (disk (dev s))) w (dump_areas ?h)" using dump by (simp_all add: dump_on_disk_def)
    fix t assume t: "idle_with P disk cap live t" "kept t = kept s" "disk (dev t) = disk (dev s)"
      "header_says (dump_header_at P) (vis t) w (dump_areas ?h)" "\<forall>a. a \<notin> header_region P \<longrightarrow> vis t a = vis s a"
    note k = env_kept [OF t(2)]
    have env1: "dump_env P cap t" and sw1: "switch_env P t" using env k(2) sw switch_env_kept [OF t(2)] by blast+
    have dump1: "\<forall>d \<in> set (dump_areas (g_core_header t)). da_disk (disk (dev t)) d = da_bytes m d"
      using dump t(3) k(1) by (simp add: dump_on_disk_def)
    show "wp (seq (for_areas (Suc MAX_RAM_AREAS) P (switch_memory_area P) 0) (seq ?out ?new)) Q E t"
      unfolding wp_seq [of "for_areas _ _ _ _"]
    proof (rule wp_switch_areas [OF t(1) env1 sw1 t(4) [folded k(1)] dump1])
      fix u assume u: "idle_with P disk cap live u" "kept u = kept t" "switched P disk m t (unat (ram_areas_size (g_core_header t))) u"
        "header_says (dump_header_at P) (vis u) w (dump_areas (g_core_header t))"
      note k' = env_kept [OF u(2)] and e = switched_end [OF env1 sw1 u(3,2)]
      have "facs_vector ?h (vis t) = facs_vector ?h (vis s)"
        by (rule facs_cong) (use t(5) env in \<open>auto simp: dump_env_def\<close>)
      then have fx: "v = facs_vector (g_core_header u) (mem u)"
        using e(4) v(1) k'(1) k(1) vis_facs [OF env] vis_facs [OF env1] by simp
      show "wp (seq ?out ?new) Q E u"
      proof (rule wp_vector_out [OF u(1) _ _ fx v(2)])
        show "dump_env P cap u" using env1 k'(2) by blast
        show "header_says (dump_header_at P) (vis u) w (dump_areas (g_core_header u))" using u(4) k' by simp
        show "\<forall>d \<in> set (dump_areas (g_core_header u)). da_disk (disk (dev u)) d = da_bytes (vis s) d"
          using e(1) header_frame [OF env t(5)] k'(1) k(1) by simp
        fix y assume y: "idle_with P disk cap live y" "kept y = (heap u, g_core_header u, w)"
          "dump_on_disk (disk (dev y)) v (g_core_header u) (vis s)" "\<forall>a. a \<notin> header_region P \<longrightarrow> vis y a = vis u a"
        show "Q () y"
          by (rule Q [OF y(1)]) (use y e t(5) k k' ram_header [OF env] in auto)
      qed
    qed
  qed
  then show ?thesis by (simp only: disk_switch_dump_def wp_seq)
qed

section \<open>A small system\<close>

lemma example_used_areas:
  "used_areas example_header = [\<lparr>area_start = 0x100000, area_size = 0x1000\<rparr>, \<lparr>area_start = 0x200000, area_size = 0x800\<rparr>]"
proof -
  have "unat (ram_areas_size example_header) = 2" by (simp add: example_header_def)
  then show ?thesis unfolding used_areas_def by (simp add: example_header_def take_Cons')
qed

lemma example_dump_areas:
  "dump_areas example_header = [\<lparr>da_start = 0x100000, da_size = 0x1000, da_sector = 4\<rparr>, \<lparr>da_start = 0x200000, da_size = 0x800, da_sector = 12\<rparr>]"
  by (simp add: dump_areas_def example_used_areas)

lemma example_areas_ok: "areas_ok example_header"
  by (simp add: areas_ok_def example_used_areas sectors_of_def) (simp add: example_header_def core_header_typed_def MAX_RAM_AREAS_def)

lemma example_ram: "ram example_header = region 0x100000 0x1000 \<union> region 0x200000 0x800"
  by (simp add: ram_def example_dump_areas da_region_def)

lemma example_facs: "facs_vector example_header (mem (example_machine d)) = 0x2b2a2910"
  by (simp add: facs_vector_def load32_def mem_read_def example_machine_def example_header_def facs_rsvd1_def upt_rec)

lemma example_core: "g_core_header (example_machine d) = example_header"
  by (simp add: example_machine_def)

lemma example_vector: "facs_vector (g_core_header (example_machine d)) (mem (example_machine d)) \<noteq> 0"
  unfolding example_core example_facs by simp

lemma example_regions:
  "facs_region example_header = region 0x8028 4" "header_region disk_platform = region 0x20000 2048"
  "switch_buf_region disk_platform = region 0x1000000 8388608"
  by (simp_all add: facs_region_def example_header_def facs_rsvd1_def header_region_def disk_platform_def example_platform_def
      switch_buf_region_def switch_buf_size)

lemma example_dump_env: "dump_env disk_platform 8192 (example_machine d)"
proof -
  have "region 0x20000 2048 \<inter> region 0x1000 128 = {}" "region 0x8028 4 \<inter> region 0x1000 128 = {}"
    by (rule region_disjointI(2); simp)+
  moreover have "region 0x8028 4 \<inter> region 0x20000 2048 = {}" by (rule region_disjointI(1)) simp_all
  moreover have "region 0x100000 0x1000 \<inter> region 0x20000 2048 = {}" "region 0x100000 0x1000 \<inter> region 0x1000 128 = {}"
    "region 0x200000 0x800 \<inter> region 0x20000 2048 = {}" "region 0x200000 0x800 \<inter> region 0x1000 128 = {}"
    by (rule region_disjointI(2); simp)+
  ultimately show ?thesis
    unfolding dump_env_def example_core
    by (simp add: example_areas_ok example_used_areas example_regions example_heap_bytes sectors_of_def area_region_def
        Int_Un_distrib)
qed

lemma example_switch_env: "switch_env disk_platform (example_machine d)"
proof -
  have "region 0x1000000 8388608 \<inter> region 0x1000 128 = {}" "region 0x1000000 8388608 \<inter> region 0x20000 2048 = {}"
    "region 0x1000000 8388608 \<inter> region 0x100000 0x1000 = {}" "region 0x1000000 8388608 \<inter> region 0x200000 0x800 = {}"
    "region 0x1000000 8388608 \<inter> region 0x8028 4 = {}"
    by (rule region_disjointI(2); simp)+
  moreover have "region 0x8028 4 \<inter> region 0x100000 0x1000 = {}" "region 0x8028 4 \<inter> region 0x200000 0x800 = {}"
    "region 0x100000 0x1000 \<inter> region 0x200000 0x800 = {}"
    by (rule region_disjointI(1); simp)+
  moreover have "unat (ram_areas_size example_header) = 2" by (simp add: example_header_def)
  ultimately show ?thesis
    unfolding switch_env_def example_core
    by (auto simp: Let_def example_ram example_regions example_heap_bytes example_dump_areas da_region_def
        less_2_cases_iff Int_Un_distrib Int_commute)
qed

section \<open>Properties\<close>




text \<open>C1: The switch refines an exchange of two systems: with the dump of a system (waking vector \<open>w\<close>, RAM \<open>m\<close>) on the
  disk, it puts that system's bytes into RAM and its vector out, and leaves the dump of the system that
  was running, with its own vector, on the disk. Outside of RAM only the header variable and the switch
  buffer change. Switching is therefore its own inverse.\<close>

theorem disk_switch_dump_exchanges:
  assumes "serves P disk cap live" and "ready live s" and "dump_env P cap s" and "switch_env P s"
    and "facs_vector (g_core_header s) (mem s) \<noteq> 0" and "dump_on_disk (disk (dev s)) w (g_core_header s) m"
  shows "\<exists>t. disk_switch_dump P s = Returns () t \<and> ready live t \<and> waking_out t = w \<and>
    dump_on_disk (disk (dev t)) (facs_vector (g_core_header s) (mem s)) (g_core_header s) (vis s) \<and>
    (\<forall>a \<in> ram (g_core_header s). vis t a = m a) \<and>
    (\<forall>a. a \<notin> ram (g_core_header s) \<union> header_region P \<union> switch_buf_region P \<longrightarrow> vis t a = vis s a)"
proof -
  have "wp (disk_switch_dump P) (\<lambda>_ t. ready live t \<and> waking_out t = w \<and>
    dump_on_disk (disk (dev t)) (facs_vector (g_core_header s) (mem s)) (g_core_header s) (vis s) \<and>
    (\<forall>a \<in> ram (g_core_header s). vis t a = m a) \<and>
    (\<forall>a. a \<notin> ram (g_core_header s) \<union> header_region P \<union> switch_buf_region P \<longrightarrow> vis t a = vis s a)) (\<lambda>_. False) s"
    by (rule wp_switch [where disk = disk and live = live, OF _ assms(3,4,6) refl assms(5)])
      (use assms(1,2) in \<open>simp_all add: idle_with_def kept_def\<close>)
  then show ?thesis by (simp add: wp_returns_iff)
qed

text \<open>A disk with the dump of the small system, all of its RAM zero.\<close>

lemma example_dump_exists: "\<exists>d. dump_on_disk d 0x2b2a2910 example_header (vis (example_machine (\<lambda>_ :: nat. 0 :: u8)))"
proof -
  let ?s = "example_machine (\<lambda>_ :: nat. 0 :: u8)"
  have i: "idle_with disk_platform id 8192 (\<lambda>d a num. True) ?s" by (rule example_idle)
  have "wp (disk_store_dump disk_platform) (\<lambda>_ t. dump_on_disk (id (dev t)) (facs_vector (g_core_header ?s) (mem ?s)) example_header (vis ?s)) (\<lambda>_. False) ?s"
    by (rule wp_store [OF i example_dump_env refl]) (use example_vector in \<open>simp_all add: example_core\<close>)
  then show ?thesis by (auto simp: wp_returns_iff example_core example_facs)
qed


theorem disk_switch_dump_exchanges_witness:
  "\<exists>d t. dump_on_disk d 0x2b2a2910 example_header (vis (example_machine (\<lambda>_ :: nat. 0 :: u8))) \<and>
     disk_switch_dump disk_platform ((example_machine d)\<lparr>mem := \<lambda>_. 7\<rparr>) = Returns () t \<and> waking_out t = 0x2b2a2910 \<and>
     dump_on_disk (dev t) 0x7070707 example_header (vis ((example_machine d)\<lparr>mem := \<lambda>_. 7\<rparr>))"
proof -
  obtain d where d: "dump_on_disk d 0x2b2a2910 example_header (vis (example_machine (\<lambda>_ :: nat. 0 :: u8)))"
    using example_dump_exists by blast
  let ?u = "(example_machine d)\<lparr>mem := \<lambda>_. 7\<rparr>"
  have k: "kept ?u = kept (example_machine d)" by (simp add: kept_def)
  have f: "facs_vector example_header (\<lambda>_. 7) = 0x7070707" by (simp add: facs_vector_def load32_def mem_read_def upt_rec)
  show ?thesis
    using disk_switch_dump_exchanges [OF disk_serves, where s = ?u and cap = 8192 and w = "0x2b2a2910" and
        m = "vis (example_machine (\<lambda>_ :: nat. 0 :: u8))"] d
      example_ready [of d] example_dump_env [of d] dump_env_kept [OF k, of disk_platform 8192] example_switch_env [of d] switch_env_kept [OF k, of disk_platform]
    by (auto simp: example_core f example_dev)
qed

text \<open>C6: With a disk whose header is not one of this system (bad magic, no waking vector, no areas, other areas, an
  empty area), the question for a dump is answered with no, and load and switch fail with an error before
  they change anything: RAM, the disk, the allocators and the waking vector are as before. Only the disks
  are left out whose header the check reads over the end of (\<open>header_overruns\<close>: right magic, a vector, more
  than \<open>MAX_RAM_AREAS\<close> areas and no empty one among the first of them), for which the theorem on
  \<open>dump_header_overread\<close> shows that the code has undefined behaviour.\<close>

theorem foreign_dump_rejected:
  assumes "serves P disk cap live" and "ready live s" and "dump_env P cap s"
    and "\<not> header_overruns P (header_of_disk P (disk (dev s)))"
    and "\<not> has_dump P (disk (dev s)) (g_core_header s)"
  shows "wp (does_disk_contain_dump P) (\<lambda>b t. \<not> b \<and> disk (dev t) = disk (dev s)) (\<lambda>_. False) s \<and>
    wp (disk_load_dump P) (\<lambda>_ _. False) (\<lambda>t. disk (dev t) = disk (dev s) \<and> kept t = kept s \<and>
      (\<forall>a. a \<notin> header_region P \<longrightarrow> vis t a = vis s a)) s \<and>
    wp (disk_switch_dump P) (\<lambda>_ _. False) (\<lambda>t. disk (dev t) = disk (dev s) \<and> kept t = kept s \<and>
      (\<forall>a. a \<notin> header_region P \<longrightarrow> vis t a = vis s a)) s"
proof (intro conjI)
  have i: "idle_with P disk cap live s" using assms(1,2) by (simp add: idle_with_def)
  show "wp (does_disk_contain_dump P) (\<lambda>b t. \<not> b \<and> disk (dev t) = disk (dev s)) (\<lambda>_. False) s"
    unfolding does_disk_contain_dump_def by (rule wp_read_and_check [OF i assms(3,4)]) (use assms(5) in simp)
  show "wp (disk_load_dump P) (\<lambda>_ _. False) (\<lambda>t. disk (dev t) = disk (dev s) \<and> kept t = kept s \<and>
      (\<forall>a. a \<notin> header_region P \<longrightarrow> vis t a = vis s a)) s"
    by (rule wp_rejected(1) [OF i assms(3-5)]) simp
  show "wp (disk_switch_dump P) (\<lambda>_ _. False) (\<lambda>t. disk (dev t) = disk (dev s) \<and> kept t = kept s \<and>
      (\<forall>a. a \<notin> header_region P \<longrightarrow> vis t a = vis s a)) s"
    by (rule wp_rejected(2) [OF i assms(3-5)]) simp
qed

lemma example_no_dump:
  "header_of_disk disk_platform (\<lambda>_. 0) = (\<lambda>_. 0)"
  by (auto simp: header_of_disk_def mem_write_def disk_bytes_def fun_eq_iff)

theorem foreign_dump_rejected_witness:
  "\<exists>t. disk_switch_dump disk_platform (example_machine (\<lambda>_ :: nat. 0 :: u8)) = Throws ERR_INVALID t \<and> dev t = (\<lambda>_. 0)"
proof -
  let ?s = "example_machine (\<lambda>_ :: nat. 0 :: u8)"
  have z: "load32 (\<lambda>_. 0) a = 0" for a by (simp add: load32_def mem_read_def upt_rec)
  have n: "\<not> has_dump disk_platform (id (dev ?s)) (g_core_header ?s)"
    by (simp add: has_dump_def example_dev example_no_dump acceptable_def z)
  have "wp (disk_switch_dump disk_platform) (\<lambda>_ _. False) (\<lambda>t. id (dev t) = id (dev ?s) \<and> kept t = kept ?s \<and>
      (\<forall>a. a \<notin> header_region disk_platform \<longrightarrow> vis t a = vis ?s a)) ?s"
    using foreign_dump_rejected [OF disk_serves example_ready example_dump_env _ n]
    by (simp add: example_dev example_no_dump z header_overruns_def CORE_DISK_DUMP_MAGIC_def)
  then show ?thesis
    by (cases "disk_switch_dump disk_platform ?s") (auto simp: wp_def example_dev intro: err_t.exhaust)
qed

lemma all_areas_positive_over:
  "\<forall>i \<in> set xs. i < MAX_RAM_AREAS \<and> load64 (mem s) (dh_area_size P i) \<noteq> 0 \<Longrightarrow> MAX_RAM_AREAS \<le> i \<Longrightarrow>
   all_areas_positive P (xs @ i # ys) s = Faults Undefined_Behaviour"
  by (induction xs) (simp_all add: seq_def bind_def defined_if_def ret_def gets_def faults_def)

text \<open>C33: A finding. The number of areas in a header from the disk is compared with the number of areas of the
  system only after a loop over that many areas: with more than 64 of them, and no empty one among the
  first 64, the check reads behind the end of the header's array.\<close>

theorem dump_header_overread:
  assumes "load32 (mem s) (dh_magic P) = CORE_DISK_DUMP_MAGIC" and "load32 (mem s) (dh_waking_vector P) \<noteq> 0"
    and "MAX_RAM_AREAS < unat (load32 (mem s) (dh_areas_size P))"
    and "\<forall>i<MAX_RAM_AREAS. load64 (mem s) (dh_area_size P i) \<noteq> 0"
  shows "is_dump_header_valid P s = Faults Undefined_Behaviour"
proof -
  let ?n = "unat (load32 (mem s) (dh_areas_size P))"
  have "[0..<?n] = [0..<MAX_RAM_AREAS] @ MAX_RAM_AREAS # [Suc MAX_RAM_AREAS..<?n]"
    using assms(3) by (metis append_Cons append_Nil less_imp_le_nat upt_add_eq_append upt_conv_Cons zero_le le_add_diff_inverse)
  then have "all_areas_positive P [0..<?n] s = Faults Undefined_Behaviour"
    using all_areas_positive_over [of "[0..<MAX_RAM_AREAS]" s P MAX_RAM_AREAS] assms(4) by simp
  moreover have "load32 (mem s) (dh_areas_size P) \<noteq> 0" using assms(3) by auto
  ultimately show ?thesis using assms(1,2) by (simp add: is_dump_header_valid_def bind_def gets_def Let_def)
qed

theorem dump_header_overread_witness:
  "is_dump_header_valid disk_platform ((example_machine (\<lambda>_ :: nat. 0 :: u8))\<lparr>mem := store32 0x20000 0xabcdef12 (\<lambda>_. 7)\<rparr>) =
     Faults Undefined_Behaviour"
proof (rule dump_header_overread)
  let ?m = "store32 0x20000 0xabcdef12 (\<lambda>_. 7) :: memory"
  have a: "dump_header_at disk_platform = 0x20000" by (simp add: disk_platform_def example_platform_def)
  have l: "load32 ?m (0x20000 + of_nat k) = 0x7070707" if "k \<in> {4, 8}" for k
  proof -
    have "load32 ?m (0x20000 + of_nat k) = load32 (\<lambda>_. 7) (0x20000 + of_nat k)"
      by (rule load_store_apart(1), use offsets_apart [of k 4 0 4 "0x20000"] that in auto)
    then show ?thesis by (simp add: load32_def mem_read_def upt_rec)
  qed
  show "load32 (mem ((example_machine (\<lambda>_ :: nat. 0 :: u8))\<lparr>mem := ?m\<rparr>)) (dh_magic disk_platform) = CORE_DISK_DUMP_MAGIC"
    by (simp add: dh_magic_def a CORE_DISK_DUMP_MAGIC_def)
  show "load32 (mem ((example_machine (\<lambda>_ :: nat. 0 :: u8))\<lparr>mem := ?m\<rparr>)) (dh_waking_vector disk_platform) \<noteq> 0"
    using l [of 4] by (simp add: dh_waking_vector_def a)
  show "MAX_RAM_AREAS < unat (load32 (mem ((example_machine (\<lambda>_ :: nat. 0 :: u8))\<lparr>mem := ?m\<rparr>)) (dh_areas_size disk_platform))"
    using l [of 8] by (simp add: dh_areas_size_def a MAX_RAM_AREAS_def)
  show "\<forall>i<MAX_RAM_AREAS. load64 (mem ((example_machine (\<lambda>_ :: nat. 0 :: u8))\<lparr>mem := ?m\<rparr>)) (dh_area_size disk_platform i) \<noteq> 0"
  proof (intro allI impI)
    fix i assume "i < MAX_RAM_AREAS"
    then have i: "i < 64" by (simp add: MAX_RAM_AREAS_def)
    have "load64 ?m (0x20000 + of_nat (24 + 24 * i)) = load64 (\<lambda>_. 7) (0x20000 + of_nat (24 + 24 * i))"
      by (rule load_store_apart(3), use offsets_apart [of "24 + 24 * i" 8 0 4 "0x20000"] i in auto)
    also have "\<dots> \<noteq> 0" by (simp add: load64_def mem_read_def upt_rec)
    finally show "load64 (mem ((example_machine (\<lambda>_ :: nat. 0 :: u8))\<lparr>mem := ?m\<rparr>)) (dh_area_size disk_platform i) \<noteq> 0"
      unfolding field_addresses a by simp
  qed
qed

end
