(* ===== verification/DriverStart.thy ===== *)
theory DriverStart
  imports BlockIO Frames
begin

text \<open>
  The start of the driver comes to an end: \<open>init_virtio_blk_dev\<close> on a device whose list of capabilities ends, from allocators with
  enough free blocks, returns or fails without undefined behaviour. Neither changes the disk or the memory clients see, and after a return
  every descriptor is free and the rings are empty.
\<close>

section \<open>Functions that end, and keep an invariant\<close>

named_theorems ends_intros "functions that end without undefined behaviour and keep an invariant, by their structure"

definition ends_in :: "('s \<Rightarrow> bool) \<Rightarrow> ('s, 'a) cfun \<Rightarrow> bool" where
  "ends_in I m \<longleftrightarrow> (\<forall>s. I s \<longrightarrow> wp m (\<lambda>_. I) I s)"

lemma ends_wp: "ends_in I m \<Longrightarrow> I s \<Longrightarrow> (\<And>a t. I t \<Longrightarrow> Q a t) \<Longrightarrow> (\<And>t. I t \<Longrightarrow> E t) \<Longrightarrow> wp m Q E s"
  by (auto simp: ends_in_def elim!: wp_mono)

lemma ends_basic [ends_intros]: "ends_in I (ret a)" "ends_in I (throw e)" "ends_in I (CHECK b)" "ends_in I (gets g)"
  by (simp_all add: ends_in_def wp_simps)

lemma ends_bind [ends_intros]: "ends_in I m \<Longrightarrow> (\<And>a. ends_in I (f a)) \<Longrightarrow> ends_in I (bind m f)"
  by (auto simp: ends_in_def wp_simps elim!: wp_mono)

lemma ends_seq [ends_intros]: "ends_in I m \<Longrightarrow> ends_in I n \<Longrightarrow> ends_in I (seq m n)"
  by (auto simp: ends_in_def wp_simps elim!: wp_mono)

lemma ends_if [ends_intros]: "(b \<Longrightarrow> ends_in I m) \<Longrightarrow> (\<not> b \<Longrightarrow> ends_in I n) \<Longrightarrow> ends_in I (if b then m else n)"
  by simp

lemma ends_modify [ends_intros]: "(\<And>s. I s \<Longrightarrow> I (f s)) \<Longrightarrow> ends_in I (modify f)"
  by (simp add: ends_in_def wp_simps)

lemma ends_stateful: "(\<And>s. I s \<Longrightarrow> I (snd (f s))) \<Longrightarrow> ends_in I (stateful f)"
  by (simp add: ends_in_def wp_simps)

lemma ends_for_each [ends_intros]: "(\<And>x. ends_in I (f x)) \<Longrightarrow> ends_in I (for_each xs f)"
  by (induction xs) (auto intro: ends_basic ends_seq)

text \<open>An invariant of the whole state that looks at the device through \<open>J\<close> only.\<close>

definition sees_device :: "('d \<Rightarrow> bool) \<Rightarrow> ('d machine \<Rightarrow> bool) \<Rightarrow> bool" where
  "sees_device J I \<longleftrightarrow> (\<forall>s. I s \<longrightarrow> J (dev s)) \<and> (\<forall>s d. I s \<longrightarrow> J d \<longrightarrow> I (s\<lparr>dev := d\<rparr>))"

lemma ends_on_dev: "sees_device J I \<Longrightarrow> ends_in J m \<Longrightarrow> ends_in I (on_dev m)"
  by (auto simp: ends_in_def sees_device_def wp_on_dev elim!: wp_mono)

lemma maintains_on_dev: "sees_device J I \<Longrightarrow> ends_in J m \<Longrightarrow> maintains I (on_dev m)"
  using ends_on_dev [of J I m] by (auto simp: ends_in_def maintains_def intro: wp_wlp)

section \<open>Accesses to the device\<close>

text \<open>No access of the driver to ports or registers changes what \<open>f\<close> sees of the device.\<close>

definition quiet :: "'d hw \<Rightarrow> ('d \<Rightarrow> 'x) \<Rightarrow> bool" where
  "quiet hw f \<longleftrightarrow> (\<forall>w p v d. f (port_out hw w p v d) = f d \<and> f (snd (port_in hw w p d)) = f d) \<and>
     (\<forall>w a v d. f (mmio_out hw w a v d) = f d \<and> f (snd (mmio_in hw w a d)) = f d)"

lemma ends_accesses:
  assumes "quiet hw f"
  shows "ends_in (\<lambda>d. f d = x) (in8 hw p)" "ends_in (\<lambda>d. f d = x) (in16 hw p)" "ends_in (\<lambda>d. f d = x) (in32 hw p)"
    "ends_in (\<lambda>d. f d = x) (out8 hw p b)" "ends_in (\<lambda>d. f d = x) (out16 hw p c)" "ends_in (\<lambda>d. f d = x) (out32 hw p v)"
    "ends_in (\<lambda>d. f d = x) (read8 hw a)" "ends_in (\<lambda>d. f d = x) (read16 hw a)" "ends_in (\<lambda>d. f d = x) (read_mb32 hw a)"
    "ends_in (\<lambda>d. f d = x) (write_mb8 hw a b)" "ends_in (\<lambda>d. f d = x) (write16 hw a c)" "ends_in (\<lambda>d. f d = x) (write_mb16 hw a c)"
    "ends_in (\<lambda>d. f d = x) (write32 hw a v)" "ends_in (\<lambda>d. f d = x) (write_mb32 hw a v)"
  using assms by (simp_all add: ends_in_def wp_simps quiet_def)

lemma ends_pci:
  assumes "quiet hw f"
  shows "ends_in (\<lambda>d. f d = x) (pci_read_8 hw a off)" "ends_in (\<lambda>d. f d = x) (pci_read_16 hw a off)"
    "ends_in (\<lambda>d. f d = x) (pci_read_32 hw a off)" "ends_in (\<lambda>d. f d = x) (pci_write_16 hw a off c)"
    "ends_in (\<lambda>d. f d = x) (pci_write_32 hw a off v)"
  unfolding pci_read_8_def pci_read_16_def pci_read_32_def pci_write_16_def pci_write_32_def
  by (intro ends_intros ends_accesses assms)+

lemma ends_get_bar:
  assumes "\<And>a off. ends_in J (pci_read_32 hw a off)"
  shows "ends_in J (pci_get_bar hw p n)"
  unfolding pci_get_bar_def Let_def by (auto intro!: ends_intros assms)

text \<open>Reading the configuration space keeps it, at any offset.\<close>

lemma conf_addr_enabled: "bit (PCI_CONF_ADDR a off) 31"
proof -
  have "bit (0x80000000 :: u32) 31" by (simp add: bit_iff_odd)
  then show ?thesis by (simp add: PCI_CONF_ADDR_def bit_or_iff)
qed

lemma config_kept:
  assumes "config_mechanism hw cfg" and "w \<in> {1, 2, 4}"
  shows "cfg (snd (port_in hw w 0xCFC (port_out hw 4 0xCF8 (PCI_CONF_ADDR a off) d))) = cfg d"
proof -
  have "bit (PCI_CONF_ADDR a off) 31 \<longrightarrow> w \<in> {1, 2, 4} \<longrightarrow>
     (case port_in hw w 0xCFC (port_out hw 4 0xCF8 (PCI_CONF_ADDR a off) d) of (r, d') \<Rightarrow>
        r = config_bytes (cfg d) (selected (PCI_CONF_ADDR a off)) (unat (take_bit 8 (PCI_CONF_ADDR a off))) w \<and> cfg d' = cfg d)"
    by (rule assms(1) [unfolded config_mechanism_def, THEN spec, THEN spec, THEN spec])
  with assms(2) show ?thesis by (auto simp: conf_addr_enabled split: prod.splits)
qed

lemma ends_config_reads:
  assumes "config_mechanism hw cfg"
  shows "ends_in (\<lambda>d. cfg d = c) (pci_read_8 hw a off)" "ends_in (\<lambda>d. cfg d = c) (pci_read_16 hw a off)"
    "ends_in (\<lambda>d. cfg d = c) (pci_read_32 hw a off)"
  using config_kept [OF assms, of 1] config_kept [OF assms, of 2] config_kept [OF assms, of 4]
  by (simp_all add: ends_in_def pci_read_8_def pci_read_16_def pci_read_32_def wp_simps)

section \<open>Allocations\<close>

text \<open>\<open>k\<close> blocks are left in the pools of each of the sizes \<open>N\<close>; \<open>spare\<close> is about the pool of the request headers.\<close>

definition roomy :: "u64 set \<Rightarrow> nat \<Rightarrow> heap \<Rightarrow> bool" where
  "roomy N k h \<longleftrightarrow> (\<exists>fl. heap_holds h fl \<and> buffers_apart h \<and> (\<forall>n \<in> N. \<exists>i. find_allocator_for_size h n = Some i \<and> k \<le> length (fl ! i)))"

abbreviation spare :: "nat \<Rightarrow> heap \<Rightarrow> bool" where
  "spare \<equiv> roomy {17}"

lemma roomy_mono: "roomy N k h \<Longrightarrow> N' \<subseteq> N \<Longrightarrow> k' \<le> k \<Longrightarrow> roomy N' k' h"
  unfolding roomy_def by (meson order_trans subsetD)

lemma heap_bytes_cong:
  "map (\<lambda>a. (buf a, buf_size a)) (allocators h') = map (\<lambda>a. (buf a, buf_size a)) (allocators h) \<Longrightarrow> heap_bytes h' = heap_bytes h"
proof -
  assume same: "map (\<lambda>a. (buf a, buf_size a)) (allocators h') = map (\<lambda>a. (buf a, buf_size a)) (allocators h)"
  have "heap_bytes k = (\<Union>(b, n) \<in> set (map (\<lambda>a. (buf a, buf_size a)) (allocators k)). region b (unat n))" for k
    by (simp add: heap_bytes_def)
  then show ?thesis by (simp only: same)
qed

lemma map_head_upd:
  "map (\<lambda>a. (buf a, buf_size a)) (as[i := (as ! i)\<lparr>al_head := p\<rparr>]) = map (\<lambda>a. (buf a, buf_size a)) as"
  by (cases "i < length as") (simp_all add: map_update list_update_same_conv list_update_beyond)

lemma heap_bytes_free [simp]: "heap_bytes (core_free p h) = heap_bytes h"
  by (rule heap_bytes_cong) (simp add: core_free_def map_head_upd Let_def split: option.splits)

lemma heap_bytes_malloc: "core_malloc n h = (p, h') \<Longrightarrow> heap_bytes h' = heap_bytes h"
  by (rule heap_bytes_cong) (auto simp: core_malloc_def map_head_upd Let_def split: option.splits if_splits)

lemma pool_take_size: "pool_take i h = (r, h') \<Longrightarrow> find_allocator_for_size h' n = find_allocator_for_size h n"
  by (auto simp: find_allocator_for_size_def pool_take_def Let_def nth_head_upd split: if_splits)

lemma malloc_roomy:
  assumes "roomy N (Suc k) h" and m: "core_malloc n h = (p, h')"
  shows "roomy N k h'" and "p \<noteq> 0 \<Longrightarrow> region p (unat n) \<subseteq> heap_bytes h" and "n \<in> N \<Longrightarrow> p \<noteq> 0"
proof -
  obtain fl where fl: "heap_holds h fl" "buffers_apart h"
    and room: "\<And>n. n \<in> N \<Longrightarrow> \<exists>i. find_allocator_for_size h n = Some i \<and> Suc k \<le> length (fl ! i)"
    using assms(1) by (auto simp: roomy_def)
  show "p \<noteq> 0" if "n \<in> N" using room [OF that] core_malloc_NULL [OF fl(1)] m by auto
  show "roomy N k h'"
  proof (cases "p = 0")
    case True
    then have "h' = h" using core_malloc_NULL [OF fl(1)] m by auto
    with fl show ?thesis unfolding roomy_def by (intro exI [of _ fl]) (auto dest!: room)
  next
    case False
    from fl(1) m False obtain j xs where j: "fl ! j = p # xs" "pool_take j h = (Some p, h')" "heap_holds h' (fl[j := xs])"
      by (rule core_malloc_cases)
    have "k \<le> length (fl[j := xs] ! i)" if "find_allocator_for_size h n' = Some i" "Suc k \<le> length (fl ! i)" for n' i
    proof (cases "i = j")
      case True
      then have "i < length fl" using fl(1) that(1) by (simp add: heap_holds_def find_for_size_Some)
      with True that(2) j(1) show ?thesis by simp
    qed (use that(2) in simp)
    then show ?thesis
      using j(3) fl(2) pool_take_size [OF j(2)] buffers_apart_take [OF j(2)] unfolding roomy_def
      by (intro exI [of _ "fl[j := xs]"]) (auto dest!: room)
  qed
  show "region p (unat n) \<subseteq> heap_bytes h" if "p \<noteq> 0"
  proof -
    from fl(1) m that obtain j xs where j: "find_allocator_for_size h n = Some j" "j < length (allocators h)" "p \<in> blocks (allocators h ! j)"
      by (rule core_malloc_cases)
    then have g: "geometry (allocators h ! j)" and "unat n \<le> unat (block_size (allocators h ! j))"
      using fl(1) by (simp_all add: heap_holds_def pool_holds_def find_for_size_Some word_le_nat_alt)
    then have "region p (unat n) \<subseteq> region (buf (allocators h ! j)) (unat (buf_size (allocators h ! j)))"
      using block_region_subset_buffer [OF g j(3)] region_mono by blast
    then show ?thesis using nth_mem [OF j(2)] by (auto simp: heap_bytes_def)
  qed
qed

section \<open>What clients see stays\<close>

text \<open>The disk, the memory outside of the allocators' buffers, where these are, core's header and the vector.\<close>

definition outside :: "('d \<Rightarrow> 'x) \<Rightarrow> 'd machine \<Rightarrow> 'x \<times> memory \<times> u64 set \<times> core_header \<times> u32" where
  "outside f s = (f (dev s), vis s, heap_bytes (heap s), g_core_header s, waking_out s)"

lemma outside_upd [simp]:
  "outside f (upd_queue g s) = outside f s" "outside f (upd_vq g' s) = outside f s" "outside f (upd_blk k s) = outside f s"
  "f d = f (dev s) \<Longrightarrow> outside f (s\<lparr>dev := d\<rparr>) = outside f s"
  "outside f (s\<lparr>heap := core_free p (heap s)\<rparr>) = outside f s"
  by (simp_all add: outside_def vis_def cong: if_cong)

lemma calloc_outside:
  assumes "roomy N (Suc k) (heap s)" and c: "core_calloc c n (heap s, mem s) = (p, h', m')"
  shows "roomy N k h'" and "outside f (s\<lparr>heap := h', mem := m'\<rparr>) = outside f s"
proof -
  have m: "core_malloc (c * n) (heap s) = (p, h')" using c by (auto simp: core_calloc_def Let_def split: prod.splits if_splits)
  show "roomy N k h'" by (rule malloc_roomy(1) [OF assms(1) m])
  have "m' x = mem s x" if "x \<notin> heap_bytes (heap s)" for x
  proof (cases "p = 0")
    case False
    with malloc_roomy(2) [OF assms(1) m] that have "x \<notin> region p (unat (c * n))" by blast
    with c m False show ?thesis by (auto simp: core_calloc_def Let_def memset_block mem_write_outside split: prod.splits if_splits)
  qed (use c m in \<open>auto simp: core_calloc_def Let_def split: prod.splits if_splits\<close>)
  then show "outside f (s\<lparr>heap := h', mem := m'\<rparr>) = outside f s"
    by (auto simp: outside_def vis_def heap_bytes_malloc [OF m])
qed

lemma wlp_calloc_outside:
  assumes "outside f s = x" "spare (Suc k) (heap s)" and "\<And>p t. outside f t = x \<Longrightarrow> spare k (heap t) \<Longrightarrow> Q p t"
  shows "wlp (calloc c n) Q E s"
proof -
  obtain p h' m' where c: "core_calloc c n (heap s, mem s) = (p, h', m')" by (rule prod_cases3)
  show ?thesis
    using assms(3) [of "s\<lparr>heap := h', mem := m'\<rparr>" p] calloc_outside(1) [OF assms(2) c] calloc_outside(2) [OF assms(2) c, where f = f] assms(1) c
    by (simp add: calloc_def wlp_simps)
qed

text \<open>The form of the functions of the set-up: with \<open>k\<close> blocks to spare, no access of theirs changes what is outside.\<close>

definition holding :: "('d \<Rightarrow> 'x) \<Rightarrow> 'x \<times> memory \<times> u64 set \<times> core_header \<times> u32 \<Rightarrow> nat \<Rightarrow> 'd machine \<Rightarrow> bool" where
  "holding f x k s \<longleftrightarrow> outside f s = x \<and> spare k (heap s)"

lemma holding_upd [simp]:
  "holding f x k (upd_queue g s) = holding f x k s" "holding f x k (upd_vq g' s) = holding f x k s"
  "holding f x k (upd_blk b s) = holding f x k s"
  by (simp_all add: holding_def)

lemma sees_holding: "sees_device (\<lambda>d. f d = fst x) (holding f x k)" and sees_outside: "sees_device (\<lambda>d. f d = fst x) (\<lambda>s. outside f s = x)"
  by (auto simp: sees_device_def holding_def outside_def vis_def)

lemma wlp_alloc_virtqueue:
  assumes "holding f x 4 s"
  shows "wlp (alloc_virtqueue n) (\<lambda>_. holding f x (Suc 0)) (\<lambda>t. outside f t = x) s"
proof -
  have step: "wlp (calloc c n) Q E s" if "holding f x k' s" "k' = Suc k" "\<And>p t. holding f x k t \<Longrightarrow> Q p t" for c n Q E k k' and s :: "'a machine"
    by (rule wlp_calloc_outside [where f = f and x = x and k = k]) (use that in \<open>simp_all add: holding_def\<close>)
  have h: "outside f t = x" if "holding f x k t" for k and t :: "'a machine" using that by (simp add: holding_def)
  show ?thesis
    unfolding alloc_virtqueue_def wlp_seq wlp_bind
    by (rule step [OF assms, of 3], simp, simp only: wlp_modify wlp_gets wlp_CHECK, simp add: h, intro impI)
      (rule step [of 3 _ 2], simp, simp, simp only: wlp_modify wlp_gets wlp_CHECK, simp add: h, intro impI,
       rule step [of 2 _ 1], simp, simp, simp only: wlp_modify wlp_gets wlp_CHECK, simp add: h)
qed

section \<open>The frame of the start\<close>

lemma outside_on_dev:
  assumes "quiet hw f"
  shows "maintains (\<lambda>s. outside f s = x) (on_dev (read8 hw a))" "maintains (\<lambda>s. outside f s = x) (on_dev (read16 hw a))"
    "maintains (\<lambda>s. outside f s = x) (on_dev (read_mb32 hw a))" "maintains (\<lambda>s. outside f s = x) (on_dev (write_mb8 hw a b))"
    "maintains (\<lambda>s. outside f s = x) (on_dev (write16 hw a c))" "maintains (\<lambda>s. outside f s = x) (on_dev (write_mb16 hw a c))"
    "maintains (\<lambda>s. outside f s = x) (on_dev (write32 hw a v))" "maintains (\<lambda>s. outside f s = x) (on_dev (write_mb32 hw a v))"
    "maintains (\<lambda>s. outside f s = x) (on_dev (pci_read_8 hw p off))" "maintains (\<lambda>s. outside f s = x) (on_dev (pci_read_16 hw p off))"
    "maintains (\<lambda>s. outside f s = x) (on_dev (pci_read_32 hw p off))" "maintains (\<lambda>s. outside f s = x) (on_dev (pci_write_16 hw p off c))"
    "maintains (\<lambda>s. outside f s = x) (on_dev (pci_write_32 hw p off v))" "maintains (\<lambda>s. outside f s = x) (on_dev (pci_get_bar hw q n))"
    "maintains (\<lambda>s. outside f s = x) (on_dev (init_pci_dev hw p))" "maintains (\<lambda>s. outside f s = x) (on_dev (pci_cap_iter_init hw q))"
    "maintains (\<lambda>s. outside f s = x) (on_dev (pci_cap_iter_next hw q k))"
  unfolding init_pci_dev_def pci_cap_iter_init_def pci_cap_iter_next_def is_cap_valid_def Let_def
  by (rule maintains_on_dev [OF sees_outside]; auto intro!: ends_intros ends_accesses ends_pci ends_get_bar assms)+

lemma outside_memory:
  "maintains (\<lambda>s. outside f s = x) (free_at p)" "maintains (\<lambda>s. outside f s = x) (upd_desc i g)"
  unfolding free_at_def upd_desc_def read_desc_def by (intro maintains_intros; simp)+

lemma outside_fill:
  assumes "quiet (hardware P) f"
  shows "maintains (\<lambda>s. outside f s = x) (fill_virtqueue P cfg n)"
  unfolding fill_virtqueue_def configure_queue_ptrs_def init_queue_notify_off_def Let_def
  by (intro maintains_intros outside_on_dev outside_memory assms; simp)

text \<open>No function of the set-up but the three allocations changes the allocators.\<close>

lemma heap_on_dev: "maintains (\<lambda>s. heap s = h) (on_dev m)"
  unfolding on_dev_def by (rule maintains_zoom) simp

lemma heap_fill: "maintains (\<lambda>s. heap s = h) (fill_virtqueue P cfg n)"
  unfolding fill_virtqueue_def configure_queue_ptrs_def init_queue_notify_off_def Let_def upd_desc_def read_desc_def
  by (intro maintains_intros heap_on_dev; simp)

lemma wlp_conj: "wlp m Q E s \<Longrightarrow> wlp m Q' E' s \<Longrightarrow> wlp m (\<lambda>a t. Q a t \<and> Q' a t) (\<lambda>t. E t \<and> E' t) s"
  and wp_conj: "wp m Q E s \<Longrightarrow> wlp m Q' E' s \<Longrightarrow> wp m (\<lambda>a t. Q a t \<and> Q' a t) (\<lambda>t. E t \<and> E' t) s"
  by (simp_all add: wlp_def wp_def split: outcome.splits)

lemma maintains_conj: "maintains I m \<Longrightarrow> maintains J m \<Longrightarrow> I s \<Longrightarrow> J s \<Longrightarrow> wlp m (\<lambda>_ t. I t \<and> J t) (\<lambda>t. I t \<and> J t) s"
  by (simp add: maintains_def wlp_conj)

lemma wlp_init_virtio_blk_queue:
  assumes q: "quiet (hardware P) f" and s: "holding f x 4 s"
  shows "wlp (init_virtio_blk_queue P) (\<lambda>_. holding f x (Suc 0)) (\<lambda>t. outside f t = x) s"
proof -
  have dev: "maintains (holding f x k) (on_dev m)" if "\<And>x. maintains (\<lambda>s. outside f s = x) (on_dev m)" for k m
  proof (rule maintainsI)
    fix t assume t: "holding f x k t"
    show "wlp (on_dev m) (\<lambda>_. holding f x k) (holding f x k) t"
      by (rule wlp_mono [OF wlp_conj [OF that [of "outside f t", unfolded maintains_def, rule_format, OF refl]
        heap_on_dev [of "heap t", unfolded maintains_def, rule_format, OF refl]]]) (use t in \<open>simp_all add: holding_def\<close>)
  qed
  have frees: "maintains (\<lambda>s. outside f s = x) (seq (bind (gets (queue \<circ> blk)) (\<lambda>q. free_at (q_desc q)))
     (seq (bind (gets (queue \<circ> blk)) (\<lambda>q. free_at (q_avail q))) (bind (gets (queue \<circ> blk)) (\<lambda>q. free_at (q_used q)))))"
    by (intro maintains_intros outside_memory)
  have fill: "wlp (fill_virtqueue P cfg n) (\<lambda>_. holding f x (Suc 0)) (\<lambda>t. outside f t = x) t" if "holding f x (Suc 0) t" for cfg n t
    using wlp_conj [OF outside_fill [OF q, of x cfg n, unfolded maintains_def, rule_format]
        heap_fill [of "heap t", unfolded maintains_def, rule_format, OF refl]] that
    by (auto simp: holding_def elim!: wlp_mono)
  have h: "outside f t = x" if "holding f x k t" for k t using that by (simp add: holding_def)
  have body: "wlp (seq (alloc_virtqueue n) (fill_virtqueue P cfg n)) (\<lambda>_. holding f x (Suc 0)) (\<lambda>t. outside f t = x) t" if "holding f x 4 t" for cfg n t
    by (rule wlp_seqI [OF wlp_alloc_virtqueue [OF that] fill])
  have "wlp (bind (gets blk) (\<lambda>b.
      seq (on_dev (write_mb16 (hardware P) (common_cfg b + cfg_queue_select) (q_num (queue b))))
      (bind (on_dev (read16 (hardware P) (common_cfg b + cfg_queue_size))) (\<lambda>n.
       seq (CHECK (n \<noteq> VIRTIO_INVALID_QUEUE_SIZE \<and> n > 0))
      (seq (modify (upd_queue (\<lambda>q. q\<lparr>q_size := n\<rparr>)))
      (seq (alloc_virtqueue n)
           (fill_virtqueue P (common_cfg b) n))))))) (\<lambda>_. holding f x (Suc 0)) (\<lambda>t. outside f t = x) s"
    unfolding wlp_bind [of "gets _"] wlp_gets wlp_seq [of "on_dev _"] wlp_bind [of "on_dev _"]
    by (intro maintains_wlp [OF dev [OF outside_on_dev(6) [OF q]] s] maintains_wlp [OF dev [OF outside_on_dev(2) [OF q]]])
      (auto simp: wlp_seq [of "CHECK _"] wlp_CHECK wlp_seq [of "modify _"] wlp_modify h intro: body)
  then show ?thesis
    unfolding init_virtio_blk_queue_def wlp_on_error
    by (rule wlp_mono) (use frees in \<open>auto simp: maintains_def\<close>)
qed

lemma holding_on_dev:
  assumes "\<And>x. maintains (\<lambda>s. outside f s = x) (on_dev m)"
  shows "maintains (holding f x k) (on_dev m)"
proof (rule maintainsI)
  fix t assume t: "holding f x k t"
  show "wlp (on_dev m) (\<lambda>_. holding f x k) (holding f x k) t"
    by (rule wlp_mono [OF wlp_conj [OF assms [of "outside f t", unfolded maintains_def, rule_format, OF refl]
      heap_on_dev [of "heap t", unfolded maintains_def, rule_format, OF refl]]]) (use t in \<open>simp_all add: holding_def\<close>)
qed

lemmas holding_access = holding_on_dev [OF outside_on_dev(1)] holding_on_dev [OF outside_on_dev(2)]
  holding_on_dev [OF outside_on_dev(3)] holding_on_dev [OF outside_on_dev(4)] holding_on_dev [OF outside_on_dev(5)]
  holding_on_dev [OF outside_on_dev(6)] holding_on_dev [OF outside_on_dev(7)] holding_on_dev [OF outside_on_dev(8)]
  holding_on_dev [OF outside_on_dev(9)] holding_on_dev [OF outside_on_dev(10)] holding_on_dev [OF outside_on_dev(11)]
  holding_on_dev [OF outside_on_dev(12)] holding_on_dev [OF outside_on_dev(13)] holding_on_dev [OF outside_on_dev(14)]
  holding_on_dev [OF outside_on_dev(15)] holding_on_dev [OF outside_on_dev(16)] holding_on_dev [OF outside_on_dev(17)]

lemma holding_caps:
  assumes "quiet (hardware P) f"
  shows "maintains (holding f x k) (parse_virtio_blk_caps P)"
proof -
  have body: "maintains (holding f x k) (parse_virtio_blk_cap P off)" for off
    unfolding parse_virtio_blk_cap_def Let_def by (intro maintains_intros holding_access assms; simp)
  have "maintains (holding f x k) (iterate_caps n dev (\<lambda>d s. s\<lparr>dev := d\<rparr>) (hardware P) p (parse_virtio_blk_cap P) off)" for n p off
    by (induction n arbitrary: off) (auto intro!: maintains_intros body holding_access [unfolded on_dev_def] assms)
  then show ?thesis
    unfolding parse_virtio_blk_caps_def ITERATE_PCI_CAPABILITIES_def
    by (intro maintains_intros holding_access holding_access [unfolded on_dev_def] assms)
qed

text \<open>What stays when the driver starts: all that clients see. After a success a block is left for the requests' headers.\<close>

lemma wlp_init_virtio_blk_dev:
  assumes q: "quiet (hardware P) f" and s: "holding f x 4 s"
  shows "wlp (init_virtio_blk_dev P) (\<lambda>_. holding f x (Suc 0)) (\<lambda>t. outside f t = x) s"
proof -
  note i = maintains_intros holding_access [OF q] holding_caps [OF q]
  have o: "outside f t = x" if "holding f x k t" for k t using that by (simp add: holding_def)
  have err: "wlp (bind (gets (common_cfg \<circ> blk)) (\<lambda>cfg.
       if cfg \<noteq> 0 then on_dev (write16 (hardware P) (cfg + cfg_device_status) VIRTIO_STATUS_FAILED) else ret ()))
       (\<lambda>_ t. outside f t = x) (\<lambda>t. outside f t = x) t" if "outside f t = x" for t
    by (rule maintains_wlp [where I = "\<lambda>t. outside f t = x", OF _ that]) (auto intro!: maintains_intros outside_on_dev q)
  have last: "maintains (holding f x (Suc 0)) (seq (modify (upd_blk (\<lambda>b. b\<lparr>status := status b OR VIRTIO_STATUS_DRIVER_OK\<rparr>)))
         (bind (gets blk) (\<lambda>b. on_dev (write_mb8 (hardware P) (common_cfg b + cfg_device_status) (status b)))))"
    by (intro i; simp)
  have early: "wlp (seq m n) (\<lambda>_. holding f x (Suc 0)) (\<lambda>t. outside f t = x) t"
    if "maintains (holding f x 4) m" "holding f x 4 t" "\<And>t. holding f x 4 t \<Longrightarrow> wlp n (\<lambda>_. holding f x (Suc 0)) (\<lambda>t. outside f t = x) t"
    for m :: "('a machine, unit) cfun" and n :: "('a machine, unit) cfun" and t
    unfolding wlp_seq by (rule maintains_wlp [OF that(1,2)]) (auto intro: that(3) o)
  have queue: "wlp (seq (init_virtio_blk_queue P) (seq (modify (upd_blk (\<lambda>b. b\<lparr>status := status b OR VIRTIO_STATUS_DRIVER_OK\<rparr>)))
         (bind (gets blk) (\<lambda>b. on_dev (write_mb8 (hardware P) (common_cfg b + cfg_device_status) (status b))))))
       (\<lambda>_. holding f x (Suc 0)) (\<lambda>t. outside f t = x) t" if "holding f x 4 t" for t
    by (rule wlp_seqI [OF wlp_init_virtio_blk_queue [OF q that]]) (auto intro: maintains_wlp [OF last] o)
  have look: "wlp (bind (gets g) n) Q E t" if "wlp (n (g t)) Q E t" for g and n :: "'z \<Rightarrow> ('a machine, unit) cfun" and Q E t
    using that by (simp add: wlp_bind wlp_gets)
  show ?thesis
    unfolding init_virtio_blk_dev_def wlp_on_error Let_def
  proof (rule wlp_mono [where Q = "\<lambda>_. holding f x (Suc 0)" and E = "\<lambda>t. outside f t = x"], goal_cases)
    case 1
    show ?case
      by (intro look early s queue; (unfold restore_bars_def init_virtio_status_def negotiate_virtio_features_def Let_def)?;
          (intro i; simp)?; assumption?)
  qed (assumption, erule err)
qed

section \<open>The start comes to an end\<close>

lemma quiet_nothing: "quiet hw (\<lambda>_. ())"
  by (simp add: quiet_def)

text \<open>The code never changes the device's address while it starts the driver.\<close>

definition at_address :: "pci_dev_addr \<Rightarrow> 'd machine \<Rightarrow> bool" where
  "at_address a s \<longleftrightarrow> pd_addr (blk_pci_dev (blk s)) = a"

lemma at_address_upd [simp]:
  "at_address a (upd_queue g s) = at_address a s" "at_address a (upd_vq g' s) = at_address a s"
  "at_address a (s\<lparr>dev := d\<rparr>) = at_address a s" "at_address a (s\<lparr>heap := h\<rparr>) = at_address a s"
  "at_address a (upd_blk (\<lambda>b. b\<lparr>common_cfg := c\<rparr>) s) = at_address a s" "at_address a (upd_blk (\<lambda>b. b\<lparr>notify_cap_off := n\<rparr>) s) = at_address a s"
  "at_address a (upd_blk (\<lambda>b. b\<lparr>notify_multiplier := m\<rparr>) s) = at_address a s" "at_address a (upd_blk (\<lambda>b. b\<lparr>status := g1 b\<rparr>) s) = at_address a s"
  "at_address a (upd_blk (\<lambda>b. b\<lparr>features := v\<rparr>) s) = at_address a s"
  by (simp_all add: at_address_def)

lemma sees_nothing: "sees_device (\<lambda>d. (\<lambda>_. ()) d = ()) (at_address a)"
  by (simp add: sees_device_def)

lemma ends_device:
  "ends_in (at_address a) (on_dev (read8 hw b))" "ends_in (at_address a) (on_dev (read16 hw b))"
  "ends_in (at_address a) (on_dev (read_mb32 hw b))" "ends_in (at_address a) (on_dev (write_mb8 hw b v8))"
  "ends_in (at_address a) (on_dev (write_mb32 hw b v))" "ends_in (at_address a) (on_dev (pci_read_16 hw p off))"
  "ends_in (at_address a) (on_dev (pci_write_16 hw p off c))" "ends_in (at_address a) (on_dev (pci_write_32 hw p off v))"
  by (rule ends_on_dev [OF sees_nothing]; intro ends_accesses ends_pci quiet_nothing)+

lemma ends_status:
  "ends_in (at_address a) (init_virtio_status P)" "ends_in (at_address a) (negotiate_virtio_features P)"
  "ends_in (at_address a) (restore_bars P p)"
  unfolding init_virtio_status_def negotiate_virtio_features_def restore_bars_def Let_def
  by (intro ends_intros ends_device; simp)+

text \<open>The walk through the capabilities ends when their list does.\<close>

lemma ends_parse_cap:
  assumes "config_mechanism (hardware P) cfg"
  shows "ends_in (\<lambda>s. at_address a s \<and> cfg (dev s) = c) (parse_virtio_blk_cap P off)"
proof -
  have d: "sees_device (\<lambda>d. cfg d = c) (\<lambda>s. at_address a s \<and> cfg (dev s) = c)" by (auto simp: sees_device_def)
  note e = ends_config_reads [OF assms]
  show ?thesis
    unfolding parse_virtio_blk_cap_def Let_def
    by (intro ends_intros ends_on_dev [OF d] e ends_get_bar; simp)
qed

lemma ends_caps:
  assumes c: "config_mechanism (hardware P) cfg" and a: "valid_address a" and fuel: "192 \<le> cap_fuel P"
    and l: "\<And>d. \<exists>xs. cap_list (cfg d) a (cfg8 (cfg d) a PCI_CAPABILITY_LIST) xs"
  shows "ends_in (at_address a) (parse_virtio_blk_caps P)"
proof -
  have walk: "wp (ITERATE_PCI_CAPABILITIES (cap_fuel P) dev (\<lambda>d s. s\<lparr>dev := d\<rparr>) (hardware P) p (parse_virtio_blk_cap P)) (\<lambda>_. at_address a) (at_address a) s"
    if s: "at_address a s" and p: "pd_addr p = a" for p s
  proof -
    obtain xs where xs: "cap_list (cfg (dev s)) (pd_addr p) (cfg8 (cfg (dev s)) (pd_addr p) PCI_CAPABILITY_LIST) xs" using l p by blast
    show ?thesis
    proof (rule wp_ITERATE_PCI_CAPABILITIES [OF c _ xs fuel, where I = "\<lambda>_. at_address a"])
      fix x ys t assume "cfg (dev t) = cfg (dev s)" "at_address a t"
      then show "wp (parse_virtio_blk_cap P x) (\<lambda>_ t. cfg (dev t) = cfg (dev s) \<and> at_address a t) (at_address a) t"
        using ends_parse_cap [OF c, of a "cfg (dev s)" x] by (auto simp: ends_in_def elim!: wp_mono)
    qed (use a s p in simp_all)
  qed
  show ?thesis
    unfolding ends_in_def
  proof (intro allI impI)
    fix s :: "'a machine" assume s: "at_address a s"
    then have "pd_addr (blk_pci_dev (blk s)) = a" by (simp add: at_address_def)
    note w = walk [OF _ this]
    show "wp (parse_virtio_blk_caps P) (\<lambda>_. at_address a) (at_address a) s"
      unfolding parse_virtio_blk_caps_def wp_bind [of "gets _"] wp_gets wp_bind [of "on_dev _"]
      by (rule ends_wp [OF ends_device(6) s]) (auto simp: wp_seq wp_CHECK intro: w)
  qed
qed

lemma wp_init_pci_dev_address: "(\<And>d' v i t. Q \<lparr>pd_addr = a, vendor_id = v, device_id = i, header_type = t\<rparr> d') \<Longrightarrow> (\<And>d'. E d') \<Longrightarrow>
    wp (init_pci_dev hw a) Q E d"
  by (simp add: init_pci_dev_def pci_read_8_def pci_read_16_def wp_simps Let_def)

lemma wp_init_virtio_blk_dev:
  fixes P :: "'d platform"
  assumes c: "config_mechanism (hardware P) cfg" and "valid_address a" and "192 \<le> cap_fuel P"
    and "\<And>d. \<exists>xs. cap_list (cfg d) a (cfg8 (cfg d) a PCI_CAPABILITY_LIST) xs"
    and a: "a = \<lparr>pa_bus = disk_bus (hdr_disk_pci (g_core_header s)), pa_device = disk_device (hdr_disk_pci (g_core_header s)),
      pa_function = disk_function (hdr_disk_pci (g_core_header s))\<rparr>"
  defines "Q \<equiv> \<lambda>t :: 'd machine. desc_holds t (map of_nat [0..<unat (q_size (queue (blk t)))]) \<and> avail_idx (vq t) = 0 \<and> used_idx (vq t) = 0 \<and>
    seen_used (queue (blk t)) = 0"
  shows "wp (init_virtio_blk_dev P) (\<lambda>_. Q) (\<lambda>_. True) s"
proof -
  note i = ends_intros ends_device ends_status ends_caps [OF c assms(2-4)]
  have any: "wp m (\<lambda>_ _. True) (\<lambda>_. True) t" if "ends_in (at_address a) m" "at_address a t" for m :: "('d machine, unit) cfun" and t
    using ends_wp [OF that] by simp
  have step: "wp (seq m n) (\<lambda>_. Q) (\<lambda>_. True) t"
    if "ends_in (at_address a) m" "at_address a t" "\<And>t. at_address a t \<Longrightarrow> wp n (\<lambda>_. Q) (\<lambda>_. True) t"
    for m n :: "('d machine, unit) cfun" and t
    unfolding wp_seq by (rule ends_wp [OF that(1,2)]) (auto intro: that(3))
  have look: "wp (bind (gets g) n) R E t" if "wp (n (g t)) R E t" for g and n :: "'z \<Rightarrow> ('d machine, unit) cfun" and R E t
    using that by (simp add: wp_bind wp_gets)
  have queue: "wp (seq (init_virtio_blk_queue P) (seq (modify (upd_blk (\<lambda>b. b\<lparr>status := status b OR VIRTIO_STATUS_DRIVER_OK\<rparr>)))
         (bind (gets blk) (\<lambda>b. on_dev (write_mb8 (hardware P) (common_cfg b + cfg_device_status) (status b))))))
       (\<lambda>_. Q) (\<lambda>_. True) t" for t
    unfolding wp_seq [of "init_virtio_blk_queue _"]
    by (rule wp_init_virtio_blk_queue) (simp_all add: wp_simps Q_def desc_holds_def queue_wf_def)
  have handler: "wp (bind (gets (common_cfg \<circ> blk)) (\<lambda>cfg.
       if cfg \<noteq> 0 then on_dev (write16 (hardware P) (cfg + cfg_device_status) VIRTIO_STATUS_FAILED) else ret ()))
       (\<lambda>_ _. True) (\<lambda>_. True) t" for t
    by (simp add: wp_simps)
  have first: "wp (seq (bind (on_dev (init_pci_dev (hardware P) a)) (\<lambda>p. modify (upd_blk (\<lambda>b. b\<lparr>blk_pci_dev := p\<rparr>)))) n) (\<lambda>_. Q) (\<lambda>_. True) t"
    if "\<And>t. at_address a t \<Longrightarrow> wp n (\<lambda>_. Q) (\<lambda>_. True) t" for n :: "('d machine, unit) cfun" and t
    unfolding wp_seq wp_bind wp_on_dev
    by (rule wp_init_pci_dev_address) (use that in \<open>simp_all add: wp_modify at_address_def\<close>)
  have start: "wp (seq (modify k) n) (\<lambda>_. Q) (\<lambda>_. True) t" if "wp n (\<lambda>_. Q) (\<lambda>_. True) (k t)" for k n and t :: "'d machine"
    using that by (simp add: wp_seq wp_modify)
  show ?thesis
    unfolding init_virtio_blk_dev_def wp_on_error Let_def
  proof (rule wp_mono [where Q = "\<lambda>_. Q" and E = "\<lambda>_. True"], goal_cases)
    case 1
    show ?case
      by (rule look, unfold o_apply a [symmetric], rule start, rule first, intro look step queue; (intro i; simp)?; assumption?)
  qed (assumption, rule handler)
qed

text \<open>Both together: the driver starts or fails, and clients see the same memory and disk after it.\<close>

lemma driver_starts:
  fixes P :: "'d platform"
  assumes "quiet (hardware P) disk" and "config_mechanism (hardware P) cfg" and "valid_address a" and "192 \<le> cap_fuel P"
    and "\<And>d. \<exists>xs. cap_list (cfg d) a (cfg8 (cfg d) a PCI_CAPABILITY_LIST) xs"
    and "a = \<lparr>pa_bus = disk_bus (hdr_disk_pci (g_core_header s)), pa_device = disk_device (hdr_disk_pci (g_core_header s)),
      pa_function = disk_function (hdr_disk_pci (g_core_header s))\<rparr>"
    and "spare 4 (heap s)"
    and Q: "\<And>t. init_virtio_blk_dev P s = Returns () t \<Longrightarrow> outside disk t = outside disk s \<Longrightarrow> spare 1 (heap t) \<Longrightarrow>
      desc_holds t (map of_nat [0..<unat (q_size (queue (blk t)))]) \<Longrightarrow> avail_idx (vq t) = 0 \<Longrightarrow> used_idx (vq t) = 0 \<Longrightarrow>
      seen_used (queue (blk t)) = 0 \<Longrightarrow> Q () t"
    and E: "\<And>e t. init_virtio_blk_dev P s = Throws e t \<Longrightarrow> outside disk t = outside disk s \<Longrightarrow> E t"
  shows "wp (init_virtio_blk_dev P) Q E s"
proof -
  have "holding disk (outside disk s) 4 s" using assms(7) by (simp add: holding_def)
  from wp_conj [OF wp_init_virtio_blk_dev [OF assms(2-6)] wlp_init_virtio_blk_dev [OF assms(1) this]]
  show ?thesis
    by (cases "init_virtio_blk_dev P s") (auto simp: wp_def holding_def intro: Q E)
qed

end
