(* ===== verification/DiskDevice.thy ===== *)
theory DiskDevice
  imports DriverStart
begin

text \<open>
  A device to apply the properties of \<open>core_main\<close> to: a virtio block device at 00:03.0, with its configuration space, its registers and
  a queue of four descriptors, on which the driver starts. Its state is the disk and the register behind port CF8.
\<close>

definition device_config :: config_space where
  "device_config a r = (if a = pci_function 0 3 0 then
     (if r = 0 then 0xf4 else if r = 1 then 0x1a else if r = 2 then 0x01 else if r = 3 then 0x10
      else if r = 6 then 0x10 else if r = 0x11 then 0xa0 else if r = 0x34 then 0x40
      else if r = 0x40 then 9 else if r = 0x41 then 0x60 else if r = 0x43 then 1
      else if r = 0x60 then 9 else if r = 0x63 then 2 else if r = 0x69 then 0x10 else 0) else 0xff)"

definition device_hw :: "((nat \<Rightarrow> u8) \<times> u32) hw" where
  "device_hw = \<lparr>port_in = (\<lambda>w port (d, v). (config_bytes device_config (selected v) (unat (take_bit 8 v)) w, (d, v))),
     port_out = (\<lambda>w port v (d, r). if w = 4 \<and> port = 0xCF8 then (d, v) else (d, r)),
     mmio_in = (\<lambda>w a s. (if a = 0xa018 then 4 else if a = 0xa014 then 15 else 0, s)), mmio_out = (\<lambda>w a v s. s)\<rparr>"

definition device_platform :: "((nat \<Rightarrow> u8) \<times> u32) platform" where
  "device_platform = example_platform device_hw (\<lambda>(m, v, (d, r)). case disk_step (m, v, d) of (m', v', d') \<Rightarrow> (m', v', (d', r)))"

lemma device_mechanism: "config_mechanism device_hw (\<lambda>_. device_config)"
  by (auto simp: config_mechanism_def device_hw_def)

lemma device_quiet: "quiet device_hw fst"
  by (auto simp: quiet_def device_hw_def)

lemma device_address: "valid_address (pci_function 0 3 0)"
  by (simp add: valid_pci_function)

lemma device_capabilities: "cap_list device_config (pci_function 0 3 0) (cfg8 device_config (pci_function 0 3 0) PCI_CAPABILITY_LIST) [0x40, 0x60]"
  by (simp add: cap_ok_def cfg8_def PCI_CAPABILITY_LIST_def device_config_def)

lemma device_serves: "serves device_platform fst cap (\<lambda>d a num. True)"
  unfolding serves_def
proof (intro allI impI)
  fix ty sector data n hdr x y z k m v and d :: "(nat \<Rightarrow> u8) \<times> u32" and a num
  assume "pending ty sector data n hdr x y z k m v"
  from disk_step_answers [OF this]
  show "\<exists>j<wait_fuel device_platform. \<exists>d'.
        (\<forall>i<j. used_of ((device_step device_platform ^^ i) (m, v, mmio_out (hardware device_platform) 2 a num d)) = used_idx v) \<and>
        (device_step device_platform ^^ j) (m, v, mmio_out (hardware device_platform) 2 a num d) =
          ((answer_mem ty sector data n (fst d) m)(hdr + 16 := 0),
           v\<lparr>used_idx := used_idx v + 1,
             used_ring := (used_ring v)[unat (used_idx v mod k) := \<lparr>used_id = ucast x, used_len = written_len ty n\<rparr>]\<rparr>, d') \<and>
        fst d' = answer_disk ty sector data n m (fst d) \<and> True"
    by (intro exI [of _ "1 :: nat"]) (simp add: device_platform_def example_platform_def device_hw_def used_of_def split: prod.splits)
qed

section \<open>The driver starts\<close>

text \<open>The walk finds the two structures behind the first base address register.\<close>

lemma device_bar: "bar_present device_config (pci_function 0 3 0) 0"
  "decoded_bar device_config (pci_function 0 3 0) 0 = \<lparr>bar_addr = 0xa000, bar_type = PCI_BAR_MEMORY\<rparr>"
  by (simp_all add: bar_present_def decoded_bar_def bar_register_def cfg32_def device_config_def)

lemma device_caps:
  assumes "pd_addr (blk_pci_dev (blk s)) = pci_function 0 3 0"
    and Q: "\<And>t. common_cfg (blk t) = 0xa000 \<Longrightarrow> notify_cap_off (blk t) = 0xb000 \<Longrightarrow> heap t = heap s \<Longrightarrow> g_core_header t = g_core_header s \<Longrightarrow> Q () t"
  shows "wp (parse_virtio_blk_caps device_platform) Q E s"
proof -
  let ?a = "pci_function 0 3 0"
  have hw: "hardware device_platform = device_hw" by (simp add: device_platform_def example_platform_def)
  note rd = wp_pci_read [OF device_mechanism device_address]
  have bar: "wp (pci_get_bar device_hw p 0) R F d" if "pd_addr p = ?a" "\<And>d. R \<lparr>bar_addr = 0xa000, bar_type = PCI_BAR_MEMORY\<rparr> d" for p R F d
    by (rule wp_pci_get_bar [OF device_mechanism]) (use that device_bar device_address in auto)
  define I where "I ys t \<longleftrightarrow> pd_addr (blk_pci_dev (blk t)) = ?a \<and> heap t = heap s \<and> g_core_header t = g_core_header s \<and>
    (ys = [0x40, 0x60] \<or> ys = [0x60] \<and> common_cfg (blk t) = 0xa000 \<or> ys = [] \<and> common_cfg (blk t) = 0xa000 \<and> notify_cap_off (blk t) = 0xb000)"
    for ys :: "u8 list" and t :: "((nat \<Rightarrow> u8) \<times> u32) machine"
  have body: "wp (parse_virtio_blk_cap device_platform x) (\<lambda>_. I ys) E t" if "I (x # ys) t" for x ys t
  proof -
    from that have p: "pd_addr (blk_pci_dev (blk t)) = ?a" and k: "heap t = heap s" "g_core_header t = g_core_header s"
      and x: "x = 0x40 \<and> ys = [0x60] \<or> x = 0x60 \<and> ys = [] \<and> common_cfg (blk t) = 0xa000" by (auto simp: I_def)
    from x show ?thesis
    proof (elim disjE conjE)
      assume "x = 0x40" "ys = [0x60]"
      then show ?thesis
        using p k by (auto simp: parse_virtio_blk_cap_def wp_simps hw layout_simps Let_def cfg8_def device_config_def virtio_consts I_def intro!: rd bar)
    next
      assume "x = 0x60" "ys = []" "common_cfg (blk t) = 0xa000"
      then show ?thesis
        using p k by (auto simp: parse_virtio_blk_cap_def wp_simps hw layout_simps Let_def cfg8_def cfg32_def device_config_def virtio_consts I_def intro!: rd bar)
    qed
  qed
  have "wp (ITERATE_PCI_CAPABILITIES (cap_fuel device_platform) dev (\<lambda>d s. s\<lparr>dev := d\<rparr>) device_hw p (parse_virtio_blk_cap device_platform)) Q E t"
    if "pd_addr p = ?a" "I [0x40, 0x60] t" for p t
  proof (rule wp_ITERATE_PCI_CAPABILITIES [OF device_mechanism, where I = I and xs = "[0x40, 0x60]" and c = device_config])
    show "wp (parse_virtio_blk_cap device_platform x) (\<lambda>_ u. device_config = device_config \<and> I ys u) E u" if "I (x # ys) u" for x ys u
      using body [OF that] by simp
    show "Q () u" if "I [] u" for u by (rule Q) (use that in \<open>simp_all add: I_def\<close>)
    show "192 \<le> cap_fuel device_platform" by (simp add: device_platform_def example_platform_def)
    show "I ys (u\<lparr>dev := d\<rparr>)" if "I ys u" for ys u d using that by (simp add: I_def)
    show "cap_list device_config (pd_addr p) (cfg8 device_config (pd_addr p) PCI_CAPABILITY_LIST) [0x40, 0x60]"
      unfolding that(1) by (rule device_capabilities)
  qed (use that device_address in simp_all)
  moreover have "I [0x40, 0x60] (s\<lparr>dev := d\<rparr>)" for d using assms(1) by (simp add: I_def)
  moreover have "cfg16 device_config ?a PCI_STATUS AND PCI_STATUS_CAP_LIST \<noteq> 0"
    by (simp add: cfg16_def device_config_def pci_consts)
  ultimately show ?thesis
    unfolding parse_virtio_blk_caps_def hw using assms(1)
    by (auto simp: wp_simps PCI_STATUS_def intro!: rd)
qed

text \<open>With free blocks for the three arrays no allocation fails.\<close>

lemma wlp_calloc_some:
  assumes "roomy N (Suc k) (heap s)" and "c * n \<in> N" and Q: "\<And>p t. p \<noteq> 0 \<Longrightarrow> roomy N k (heap t) \<Longrightarrow> Q p t"
  shows "wlp (calloc c n) Q E s"
proof -
  obtain p h' m' where c: "core_calloc c n (heap s, mem s) = (p, h', m')" by (rule prod_cases3)
  then have m: "core_malloc (c * n) (heap s) = (p, h')" by (auto simp: core_calloc_def Let_def split: prod.splits if_splits)
  then have "Q p (s\<lparr>heap := h', mem := m'\<rparr>)"
    using malloc_roomy(1,3) [OF assms(1) m] assms(2) by (intro Q) simp_all
  with c show ?thesis by (simp add: calloc_def wlp_simps)
qed

definition queue_room :: "heap \<Rightarrow> bool" where
  "queue_room h \<longleftrightarrow> roomy {64, 12, 36} 3 h"

lemma device_alloc:
  assumes "queue_room (heap s)"
  shows "wlp (alloc_virtqueue 4) (\<lambda>_ _. True) (\<lambda>_. False) s"
proof -
  have r: "roomy {64, 12, 36} (Suc (Suc (Suc 0))) (heap s)" using assms by (simp add: queue_room_def numeral_3_eq_3)
  show ?thesis
    unfolding alloc_virtqueue_def wlp_seq wlp_bind
    by (rule wlp_calloc_some [OF r]; simp add: wlp_simps; rule wlp_calloc_some [where N = "{64, 12, 36}"]; (simp add: wlp_simps)?;
        rule wlp_calloc_some [where N = "{64, 12, 36}" and k = 0]; simp add: wlp_simps)
qed

lemma device_fill:
  assumes "length (vq_desc (vq s)) = 4" and "notify_cap_off (blk s) \<noteq> 0" and "q_size (queue (blk s)) = 4"
  shows "wp (fill_virtqueue P cfg 4) (\<lambda>_ t. q_size (queue (blk t)) = 4) (\<lambda>_. False) s"
  unfolding fill_virtqueue_def configure_queue_ptrs_def init_queue_notify_off_def wp_seq wp_bind wp_modify wp_gets wp_on_dev wp_write
  by (rule wp_link_loop) (use assms in \<open>simp_all add: wp_simps\<close>)

lemma device_queue:
  assumes "common_cfg (blk s) = 0xa000" "notify_cap_off (blk s) \<noteq> 0" and "queue_room (heap s)"
  shows "wp (init_virtio_blk_queue device_platform) (\<lambda>_ t. q_size (queue (blk t)) = 4) (\<lambda>_. False) s"
proof -
  have "wp (seq (alloc_virtqueue 4) (fill_virtqueue device_platform 0xa000 4)) (\<lambda>_ t. q_size (queue (blk t)) = 4) (\<lambda>_. False) t"
    if "notify_cap_off (blk t) \<noteq> 0" "queue_room (heap t)" "q_size (queue (blk t)) = 4" for t
  proof -
    have "wp (alloc_virtqueue 4) (\<lambda>_ u. length (vq_desc (vq u)) = 4 \<and> notify_cap_off (blk u) \<noteq> 0 \<and> q_size (queue (blk u)) = 4) (\<lambda>_. True) t"
      by (rule wp_alloc_virtqueue) (use that in simp_all)
    from wp_conj [OF this device_alloc [OF that(2)]] show ?thesis
      unfolding wp_seq by (rule wp_mono) (auto intro: device_fill)
  qed
  note start = this
  show ?thesis
    unfolding init_virtio_blk_queue_def wp_on_error
    by (rule wp_mono [where Q = "\<lambda>_ t. q_size (queue (blk t)) = 4" and E = "\<lambda>_. False"])
      (use assms in \<open>auto simp: wp_bind wp_gets wp_seq [of "on_dev _"] wp_on_dev wp_read wp_write wp_seq [of "CHECK _"] wp_CHECK wp_seq [of "modify _"] wp_modify
        device_platform_def example_platform_def device_hw_def layout_simps VIRTIO_INVALID_QUEUE_SIZE_def
        intro!: start [unfolded device_platform_def example_platform_def device_hw_def]\<close>)
qed

definition found :: "heap \<Rightarrow> 'd machine \<Rightarrow> bool" where
  "found h t \<longleftrightarrow> common_cfg (blk t) = 0xa000 \<and> notify_cap_off (blk t) = 0xb000 \<and> heap t = h"

lemma device_status:
  assumes "found h t"
  shows "wp (init_virtio_status device_platform) (\<lambda>_. found h) E t" "wp (negotiate_virtio_features device_platform) (\<lambda>_. found h) E t"
    "wp (bind (on_dev (pci_read_16 hw a PCI_COMMAND)) (\<lambda>command. on_dev (pci_write_16 hw a PCI_COMMAND (command OR PCI_COMMAND_MEMORY)))) (\<lambda>_. found h) E t"
  using assms
  by (simp_all add: found_def init_virtio_status_def negotiate_virtio_features_def wp_simps Let_def device_platform_def example_platform_def
      device_hw_def layout_simps virtio_consts pci_read_16_def pci_write_16_def)

lemma device_bars:
  assumes "\<And>d. Q () (t\<lparr>dev := d\<rparr>)"
  shows "wp (restore_bars P a) Q E t"
  using assms by (simp add: restore_bars_def wp_simps pci_write_32_def PCI_BASE_ADDRESS_NUM_def upt_conv_Cons)

lemma device_starts:
  assumes a: "\<lparr>pa_bus = disk_bus (hdr_disk_pci (g_core_header s)), pa_device = disk_device (hdr_disk_pci (g_core_header s)),
      pa_function = disk_function (hdr_disk_pci (g_core_header s))\<rparr> = pci_function 0 3 0" and room: "queue_room (heap s)"
  shows "wp (init_virtio_blk_dev device_platform) (\<lambda>_ t. q_size (queue (blk t)) = 4) (\<lambda>_. False) s"
proof -
  let ?a = "pci_function 0 3 0" and ?Q = "\<lambda>_ t. q_size (queue (blk t)) = 4" and ?E = "\<lambda>_. False"
  have hw: "hardware device_platform = device_hw" by (simp add: device_platform_def example_platform_def)
  have p: "dev_at device_config ?a = \<lparr>pd_addr = ?a, vendor_id = VIRTIO_BLK_VENDOR_ID, device_id = VIRTIO_BLK_DEVICE_ID, header_type = PCI_HEADER_TYPE_NORMAL\<rparr>"
    "known_header device_config ?a"
    by (simp_all add: dev_at_def known_header_def cfg16_def cfg8_def device_config_def pci_consts virtio_consts)
  have queue: "wp (seq (init_virtio_blk_queue device_platform) (seq (modify (upd_blk (\<lambda>b. b\<lparr>status := status b OR VIRTIO_STATUS_DRIVER_OK\<rparr>)))
      (bind (gets blk) (\<lambda>b. on_dev (write_mb8 device_hw (common_cfg b + cfg_device_status) (status b)))))) ?Q ?E t"
    if "found (heap s) t" for t
    unfolding wp_seq [of "init_virtio_blk_queue _"]
    by (rule wp_mono [OF device_queue]) (use that room in \<open>simp_all add: found_def wp_simps\<close>)
  have step: "wp (seq m n) ?Q ?E t" if "wp m (\<lambda>_. found (heap s)) ?E t" "\<And>t. found (heap s) t \<Longrightarrow> wp n ?Q ?E t"
    for m n :: "(((nat \<Rightarrow> u8) \<times> u32) machine, unit) cfun" and t
    unfolding wp_seq by (rule wp_mono [OF that(1)]) (auto intro: that(2))
  show ?thesis
    unfolding init_virtio_blk_dev_def wp_on_error Let_def hw wp_bind [of "gets (hdr_disk_pci \<circ> g_core_header)"] wp_gets o_apply a
  proof (rule wp_mono [where Q = ?Q and E = ?E], goal_cases)
    case 1
    have modifies: "wp (modify (upd_queue (\<lambda>q. q\<lparr>q_num := 0\<rparr>))) (\<lambda>_. found (heap s)) ?E t"
      "wp (bind (gets blk) (\<lambda>b. CHECK (common_cfg b \<noteq> 0 \<and> notify_cap_off b \<noteq> 0))) (\<lambda>_. found (heap s)) ?E t" if "found (heap s) t" for t
      using that by (simp_all add: wp_simps found_def)
    have rest: "wp (seq (parse_virtio_blk_caps device_platform) n) ?Q ?E t"
      if "pd_addr (blk_pci_dev (blk t)) = ?a" "heap t = heap s" "\<And>t. found (heap s) t \<Longrightarrow> wp n ?Q ?E t"
      for t and n :: "(((nat \<Rightarrow> u8) \<times> u32) machine, unit) cfun"
      unfolding wp_seq by (rule device_caps [OF that(1)], rule that(3), simp add: found_def that(2))
    show ?case
      unfolding wp_seq [of "modify _"] wp_modify wp_seq [of "bind (on_dev _) _"] wp_bind [of "on_dev _"] wp_on_dev
    proof (rule wp_init_pci_dev [OF device_mechanism device_address], goal_cases)
      case (1 d)
      show ?case
        unfolding wp_modify wp_bind [of "gets _"] wp_gets o_apply p(1)
        by (simp add: wp_seq [of "CHECK _"] wp_CHECK wp_seq [of "restore_bars _ _"])
          (rule device_bars, simp only: wp_CHECK if_True, rule rest, simp, simp, intro step queue modifies device_status; assumption)
    qed (use p(2) in simp)
  qed auto
qed

end
