(* ===== verification/UefiState.thy ===== *)
theory UefiState
  imports Pci CoreHeader
begin

text \<open>
  The state of the UEFI application (\<^verbatim>\<open>uefi/\<close>) and of the hooks it leaves in memory. The firmware is not
  code of the repository: its services are the record \<open>firmware\<close>, a parameter, of functions on a firmware
  state of any type; they see nothing of the application but their arguments. Other parameters are what the
  build makes (the images of core and of the hooks, the AML of the \<open>_PTS\<close> hook). ACPI tables and images
  are bytes of the memory; core's header and the headers of the hooks are objects of their own.
\<close>

section \<open>The firmware\<close>

type_synonym efi_status = u64

definition EFI_SUCCESS :: efi_status where "EFI_SUCCESS = 0"
definition EFI_LOAD_ERROR :: efi_status where "EFI_LOAD_ERROR = 0x8000000000000001"
definition EFI_BUFFER_TOO_SMALL :: efi_status where "EFI_BUFFER_TOO_SMALL = 0x8000000000000005"
definition EFIERR :: "u64 \<Rightarrow> efi_status" where "EFIERR a = (0x8000000000000000 OR a)"
definition EFI_PAGE_SIZE :: u64 where "EFI_PAGE_SIZE = 4096"

text \<open>\<open>EFI_MEMORY_TYPE\<close> and \<open>EFI_ALLOCATE_TYPE\<close> of the UEFI specification, sections 7.2.\<close>

definition EfiReservedMemoryType :: u32 where "EfiReservedMemoryType = 0"
definition EfiLoaderCode :: u32 where "EfiLoaderCode = 1"
definition EfiLoaderData :: u32 where "EfiLoaderData = 2"
definition EfiBootServicesCode :: u32 where "EfiBootServicesCode = 3"
definition EfiBootServicesData :: u32 where "EfiBootServicesData = 4"
definition EfiRuntimeServicesCode :: u32 where "EfiRuntimeServicesCode = 5"
definition EfiRuntimeServicesData :: u32 where "EfiRuntimeServicesData = 6"
definition EfiConventionalMemory :: u32 where "EfiConventionalMemory = 7"
definition EfiACPIReclaimMemory :: u32 where "EfiACPIReclaimMemory = 9"
definition EfiPersistentMemory :: u32 where "EfiPersistentMemory = 14"
definition AllocateAnyPages :: u32 where "AllocateAnyPages = 0"
definition AllocateMaxAddress :: u32 where "AllocateMaxAddress = 1"
definition AllocateAddress :: u32 where "AllocateAddress = 2"
definition EFI_MEMORY_RUNTIME :: u64 where "EFI_MEMORY_RUNTIME = 0x8000000000000000"

lemmas memory_type_defs = EfiReservedMemoryType_def EfiLoaderCode_def EfiLoaderData_def EfiBootServicesCode_def
  EfiBootServicesData_def EfiRuntimeServicesCode_def EfiRuntimeServicesData_def EfiConventionalMemory_def
  EfiACPIReclaimMemory_def EfiPersistentMemory_def

record efi_memory_descriptor =
  desc_type :: u32
  physical_start :: u64
  virtual_start :: u64
  number_of_pages :: u64
  attribute :: u64

text \<open>
  The outcome of the firmware's \<open>GetMemoryMap\<close>: the status, the size and the descriptor size it reports, and
  the descriptors, each taken to be at its place in the buffer.
\<close>

record memory_map =
  map_status :: efi_status
  map_size :: u64
  map_desc_size :: u64
  map_descs :: "efi_memory_descriptor list"

record configuration_table =
  vendor_guid :: "u8 list"
  vendor_table :: u64

text \<open>
  The services the hooks and the application call through pointers the code stores take the address that is
  called as their first argument.
\<close>

record 'u firmware =
  AllocatePages :: "u32 \<Rightarrow> u32 \<Rightarrow> u64 \<Rightarrow> u64 \<Rightarrow> 'u \<Rightarrow> (efi_status \<times> u64) \<times> 'u"
  FreePages :: "u64 \<Rightarrow> u64 \<Rightarrow> 'u \<Rightarrow> efi_status \<times> 'u"
  AllocatePool :: "u64 \<Rightarrow> 'u \<Rightarrow> u64 \<times> 'u"
  FreePool :: "u64 \<Rightarrow> 'u \<Rightarrow> 'u"
  GetMemoryMap :: "u64 \<Rightarrow> u64 \<Rightarrow> u64 \<Rightarrow> 'u \<Rightarrow> memory_map \<times> 'u"
  SetVariable :: "u64 \<Rightarrow> (nat \<Rightarrow> u16) \<Rightarrow> u8 list \<Rightarrow> u32 \<Rightarrow> u8 list \<Rightarrow> 'u \<Rightarrow> efi_status \<times> 'u"
  InstallConfigurationTable :: "u64 \<Rightarrow> u8 list \<Rightarrow> u64 \<Rightarrow> 'u \<Rightarrow> 'u"
  CreateEventEx :: "u64 \<Rightarrow> u8 list \<Rightarrow> 'u \<Rightarrow> (efi_status \<times> u64) \<times> 'u"
  CloseEvent :: "u64 \<Rightarrow> 'u \<Rightarrow> 'u"
  ConvertPointer :: "u64 \<Rightarrow> u64 \<Rightarrow> 'u \<Rightarrow> (efi_status \<times> u64) \<times> 'u"
  SetCrc :: "'u \<Rightarrow> 'u"
  configuration_tables :: "configuration_table list option"
  pci_hw :: "'u hw"
  core_bin :: "u8 list"
  rm_bin :: "u8 list"
  pm_bin :: "u8 list"
  set_variable_bin :: "u8 list"
  get_memory_map_bin :: "u8 list"
  virtual_address_map_event_bin :: "u8 list"

section \<open>The headers of the hooks\<close>

text \<open>\<^verbatim>\<open>uefi/services/headers.h\<close>; a function pointer is the address of the function.\<close>

record set_variable_hook_header =
  original_set_variable :: u64
  waking_vector_addr :: u64
  original_waking_vector_addr :: u64
  sv_core_header :: u64

record get_memory_map_hook_header =
  original_get_memory_map :: u64
  install_configuration_table :: u64
  runtime_areas :: "mem_area list"

text \<open>
  A pointer to fix is the address of a field of the header of the \<open>SetVariable\<close> hook. It is kept with the
  address, which is relocated in turn.
\<close>

datatype hook_field = Original_Set_Variable | Waking_Vector_Addr | Original_Waking_Vector_Addr | Core_Header_Field

record virtual_address_map_event_header =
  convert_pointer :: u64
  ptrs_to_fix :: "(hook_field \<times> u64) option list"

text \<open>\<open>struct loaded_hook\<close> of \<^verbatim>\<open>uefi/services/hooks_loader.h\<close>.\<close>

record loaded_hook =
  is_loaded :: bool
  hook_hdr :: u64
  hook_entry :: u64

section \<open>The state\<close>

record 'u uefi =
  umem :: memory
  core_hdr :: core_header
  g_core_header_ptr :: u64
  g_rsdp :: u64
  g_rxsdt :: u64
  g_fadt :: u64
  g_facs :: u64
  g_dsdt :: u64
  g_is_dsdt_patched :: bool
  pts_facs :: "u8 list"
  bs_GetMemoryMap :: u64
  bs_InstallConfigurationTable :: u64
  rt_SetVariable :: u64
  rt_ConvertPointer :: u64
  loaded_set_variable :: loaded_hook
  loaded_get_memory_map :: loaded_hook
  loaded_virtual_address_map_event :: loaded_hook
  g_original_set_variable :: u64
  g_original_get_memory_map :: u64
  virtual_address_map_event_obj :: u64
  sv_header :: set_variable_hook_header
  gmm_header :: get_memory_map_hook_header
  vame_header :: virtual_address_map_event_header
  vmap :: "u64 \<Rightarrow> u64"
  fw :: 'u

text \<open>Statements: a call of the firmware, and a change of the memory.\<close>

definition call_fw :: "('u \<Rightarrow> 'r \<times> 'u) \<Rightarrow> ('u uefi, 'r) cfun" where
  "call_fw f = stateful (\<lambda>s. case f (fw s) of (r, u) \<Rightarrow> (r, s\<lparr>fw := u\<rparr>))"

definition set_umem :: "(memory \<Rightarrow> memory) \<Rightarrow> ('u uefi, unit) cfun" where
  "set_umem f = modify (\<lambda>s. s\<lparr>umem := f (umem s)\<rparr>)"

definition on_fw :: "('u, 'a) cfun \<Rightarrow> ('u uefi, 'a) cfun" where
  "on_fw = zoom fw (\<lambda>u s. s\<lparr>fw := u\<rparr>)"

text \<open>Whether a call succeeded, as its caller asks, and the number of an error.\<close>

definition succeeds :: "('s, 'a) cfun \<Rightarrow> ('s, bool) cfun" where
  "succeeds m = (\<lambda>s. case m s of Returns _ t \<Rightarrow> Returns True t | Throws _ t \<Rightarrow> Returns False t | Faults f \<Rightarrow> Faults f)"

primrec err_code :: "err_t \<Rightarrow> u64" where "err_code ERR_INVALID = 1"

lemma wp_succeeds [wp_simps]: "wp (succeeds m) Q E s = wp m (\<lambda>_. Q True) (Q False) s"
  by (simp add: wp_def succeeds_def split: outcome.splits)

lemma wp_call_fw [wp_simps]: "wp (call_fw f) Q E s = Q (fst (f (fw s))) (s\<lparr>fw := snd (f (fw s))\<rparr>)"
  by (simp add: call_fw_def wp_simps split: prod.splits)

lemma wp_set_umem [wp_simps]: "wp (set_umem f) Q E s = Q () (s\<lparr>umem := f (umem s)\<rparr>)"
  by (simp add: set_umem_def wp_simps)

lemma wp_on_fw [wp_simps]: "wp (on_fw m) Q E s = wp m (\<lambda>a u. Q a (s\<lparr>fw := u\<rparr>)) (\<lambda>u. E (s\<lparr>fw := u\<rparr>)) (fw s)"
  by (simp add: on_fw_def wp_simps)

end
