(* ===== verification/AcpiTables.thy ===== *)
theory AcpiTables
  imports UefiState
begin

text \<open>
  ACPI tables as the application finds and changes them: \<^verbatim>\<open>uefi/acpi/tables.h\<close> and \<^verbatim>\<open>uefi/acpi/tables.c\<close>, which
  follow the pointers from the RSDP to the FADT, FACS and DSDT, and \<^verbatim>\<open>uefi/acpi/patch/patch_utils.c\<close>, the
  checksum. Tables are bytes of the memory, their fields loads at the offsets of the packed structures.
\<close>

section \<open>Layout of the structures\<close>

text \<open>
  A packed structure is the list of its fields with their sizes in bytes. \<open>acpi_facs\<close> is not packed, but each
  of its fields is aligned at the place it would have in a packed structure. A flexible array has size 0.
\<close>

type_synonym layout = "(string \<times> nat) list"

definition sizeof :: "layout \<Rightarrow> nat" where "sizeof l = sum_list (map snd l)"

primrec offset_of :: "layout \<Rightarrow> string \<Rightarrow> nat" where
  "offset_of [] f = 0"
| "offset_of (x # l) f = (if fst x = f then 0 else snd x + offset_of l f)"

definition acpi_rsdp :: layout where
    "acpi_rsdp = [(''signature'', 8), (''checksum'', 1), (''oemid'', 6), (''revision'', 1), (''rsdt_addr'', 4),
    (''length'', 4), (''xsdt_addr'', 8), (''extended_checksum'', 1), (''rsvd'', 3)]"

definition acpi_table_header :: layout where
    "acpi_table_header = [(''signature'', 4), (''length'', 4), (''revision'', 1), (''checksum'', 1), (''oemid'', 6),
    (''oem_table_id'', 8), (''oem_revision'', 4), (''creator_id'', 4), (''creator_revision'', 4)]"

definition acpi_rxsdt :: layout where
    "acpi_rxsdt = [(''hdr'', sizeof acpi_table_header), (''ptr_bytes'', 0)]"

definition acpi_gas :: layout where
    "acpi_gas = [(''address_space_id'', 1), (''register_bit_width'', 1), (''register_bit_offset'', 1),
    (''access_size'', 1), (''address'', 8)]"

definition acpi_fadt :: layout where
    "acpi_fadt = [(''hdr'', sizeof acpi_table_header), (''firmware_ctrl'', 4), (''dsdt'', 4), (''int_model'', 1),
    (''preferred_pm_profile'', 1), (''sci_int'', 2), (''smi_cmd'', 4), (''acpi_enable'', 1), (''acpi_disable'', 1),
    (''s4bios_req'', 1), (''pstate_cnt'', 1), (''pm1a_evt_blk'', 4), (''pm1b_evt_blk'', 4), (''pm1a_cnt_blk'', 4),
    (''pm1b_cnt_blk'', 4), (''pm2_cnt_blk'', 4), (''pm_tmr_blk'', 4), (''gpe0_blk'', 4), (''gpe1_blk'', 4),
    (''pm1_evt_len'', 1), (''pm1_cnt_len'', 1), (''pm2_cnt_len'', 1), (''pm_tmr_len'', 1), (''gpe0_blk_len'', 1),
    (''gpe1_blk_len'', 1), (''gpe1_base'', 1), (''cst_cnt'', 1), (''p_lvl2_lat'', 2), (''p_lvl3_lat'', 2),
    (''flush_size'', 2), (''flush_stride'', 2), (''duty_offset'', 1), (''duty_width'', 1), (''day_alrm'', 1),
    (''mon_alrm'', 1), (''century'', 1), (''iapc_boot_arch'', 2), (''rsvd'', 1), (''flags'', 4), (''reset_reg'',
    sizeof acpi_gas), (''reset_value'', 1), (''arm_boot_arch'', 2), (''fadt_minor_verison'', 1), (''x_firmware_ctrl'',
    8), (''x_dsdt'', 8), (''x_pm1a_evt_blk'', sizeof acpi_gas), (''x_pm1b_evt_blk'', sizeof acpi_gas),
    (''x_pm1a_cnt_blk'', sizeof acpi_gas), (''x_pm1b_cnt_blk'', sizeof acpi_gas), (''x_pm2_cnt_blk'', sizeof
    acpi_gas), (''x_pm_tmr_blk'', sizeof acpi_gas), (''x_gpe0_blk'', sizeof acpi_gas), (''x_gpe1_blk'', sizeof
    acpi_gas), (''sleep_control_reg'', sizeof acpi_gas), (''sleep_status_reg'', sizeof acpi_gas),
    (''hypervisor_vendor_identity'', 8)]"

definition acpi_facs :: layout where
    "acpi_facs = [(''signature'', 4), (''length'', 4), (''hardware_signature'', 4), (''firmware_waking_vector'', 4),
    (''global_lock'', 4), (''flags'', 4), (''x_firmware_waking_vector'', 8), (''version'', 1), (''rsvd0'', 3),
    (''ospm_flags'', 4), (''rsvd1'', 24)]"

definition acpi_dsdt :: layout where
    "acpi_dsdt = [(''hdr'', sizeof acpi_table_header), (''definition_block'', 0)]"

text \<open>The fields the code uses.\<close>

definition rsdp_revision :: u64 where "rsdp_revision = of_nat (offset_of acpi_rsdp ''revision'')"
definition rsdp_rsdt_addr :: u64 where "rsdp_rsdt_addr = of_nat (offset_of acpi_rsdp ''rsdt_addr'')"
definition rsdp_xsdt_addr :: u64 where "rsdp_xsdt_addr = of_nat (offset_of acpi_rsdp ''xsdt_addr'')"
definition hdr_signature :: u64 where "hdr_signature = of_nat (offset_of acpi_table_header ''signature'')"
definition hdr_length :: u64 where "hdr_length = of_nat (offset_of acpi_table_header ''length'')"
definition hdr_checksum :: u64 where "hdr_checksum = of_nat (offset_of acpi_table_header ''checksum'')"
definition fadt_firmware_ctrl :: u64 where "fadt_firmware_ctrl = of_nat (offset_of acpi_fadt ''firmware_ctrl'')"
definition fadt_dsdt :: u64 where "fadt_dsdt = of_nat (offset_of acpi_fadt ''dsdt'')"
definition fadt_x_firmware_ctrl :: u64 where "fadt_x_firmware_ctrl = of_nat (offset_of acpi_fadt ''x_firmware_ctrl'')"
definition fadt_x_dsdt :: u64 where "fadt_x_dsdt = of_nat (offset_of acpi_fadt ''x_dsdt'')"
definition facs_firmware_waking_vector :: u64 where "facs_firmware_waking_vector = of_nat (offset_of acpi_facs ''firmware_waking_vector'')"
definition facs_rsvd1_field :: u64 where "facs_rsvd1_field = of_nat (offset_of acpi_facs ''rsvd1'')"
definition rxsdt_ptr_bytes :: u64 where "rxsdt_ptr_bytes = of_nat (offset_of acpi_rxsdt ''ptr_bytes'')"
definition definition_block :: u64 where "definition_block = of_nat (offset_of acpi_dsdt ''definition_block'')"
definition sizeof_acpi_table_header :: u64 where "sizeof_acpi_table_header = of_nat (sizeof acpi_table_header)"

lemma acpi_layout [layout_simps]:
  "rsdp_revision = 15"
  "rsdp_rsdt_addr = 16"
  "rsdp_xsdt_addr = 24"
  "hdr_signature = 0"
  "hdr_length = 4"
  "hdr_checksum = 9"
  "fadt_firmware_ctrl = 36"
  "fadt_dsdt = 40"
  "fadt_x_firmware_ctrl = 132"
  "fadt_x_dsdt = 140"
  "facs_firmware_waking_vector = 12"
  "facs_rsvd1_field = 40"
  "rxsdt_ptr_bytes = 36"
  "definition_block = 36"
  "sizeof_acpi_table_header = 36"
  by (simp_all add: rsdp_revision_def rsdp_rsdt_addr_def rsdp_xsdt_addr_def hdr_signature_def hdr_length_def hdr_checksum_def fadt_firmware_ctrl_def fadt_dsdt_def fadt_x_firmware_ctrl_def fadt_x_dsdt_def facs_firmware_waking_vector_def facs_rsvd1_field_def rxsdt_ptr_bytes_def definition_block_def
    sizeof_acpi_table_header_def sizeof_def acpi_rsdp_def acpi_table_header_def acpi_rxsdt_def acpi_gas_def acpi_fadt_def acpi_facs_def acpi_dsdt_def)

text \<open>\<open>DSDT_AML_SIZE\<close>, computed in the 64 bits of \<open>sizeof\<close>.\<close>

definition DSDT_AML_SIZE :: "memory \<Rightarrow> u64 \<Rightarrow> u64" where
  "DSDT_AML_SIZE m dsdt = ucast (load32 m (dsdt + hdr_length)) - sizeof_acpi_table_header"

section \<open>Finding the tables\<close>

definition ACPI_20_TABLE_GUID :: "u8 list" where
  "ACPI_20_TABLE_GUID = [0x71, 0xe8, 0x68, 0x88, 0xf1, 0xe4, 0xd3, 0x11, 0xbc, 0x22, 0x00, 0x80, 0xc7, 0x3c, 0x88, 0x81]"

primrec scan_configuration_tables :: "configuration_table list \<Rightarrow> ('u uefi, unit) cfun" where
  "scan_configuration_tables [] = ret ()"
| "scan_configuration_tables (t # ts) =
     (if vendor_guid t = ACPI_20_TABLE_GUID
      then bind (gets g_rsdp) (\<lambda>rsdp. seq (CHECK (rsdp = 0))
        (seq (modify (\<lambda>s. s\<lparr>g_rsdp := vendor_table t\<rparr>)) (scan_configuration_tables ts)))
      else scan_configuration_tables ts)"

definition find_rsdp :: "'u firmware \<Rightarrow> ('u uefi, unit) cfun" where
  "find_rsdp F = (case configuration_tables F of
      None \<Rightarrow> throw ERR_INVALID
    | Some ts \<Rightarrow> seq (scan_configuration_tables ts) (bind (gets g_rsdp) (\<lambda>rsdp. CHECK (rsdp \<noteq> 0))))"

definition find_rxsdt :: "u64 \<Rightarrow> ('u uefi, unit) cfun" where
  "find_rxsdt rsdp =
     bind (gets umem) (\<lambda>m.
     seq (if load8 m (rsdp + rsdp_revision) > 1 \<and> load64 m (rsdp + rsdp_xsdt_addr) \<noteq> 0
          then modify (\<lambda>s. s\<lparr>g_rxsdt := load64 m (rsdp + rsdp_xsdt_addr)\<rparr>)
          else modify (\<lambda>s. s\<lparr>g_rxsdt := ucast (load32 m (rsdp + rsdp_rsdt_addr))\<rparr>))
         (bind (gets g_rxsdt) (\<lambda>p. CHECK (p \<noteq> 0))))"

definition bytes_at :: "memory \<Rightarrow> u64 \<Rightarrow> nat \<Rightarrow> u8" where
  "bytes_at m a i = m (a + of_nat i)"

abbreviation ascii :: "u8 list \<Rightarrow> u8 cstring" where "ascii \<equiv> cstr"

definition signature_XSDT :: "u8 list" where "signature_XSDT = [0x58, 0x53, 0x44, 0x54]"
definition signature_FACP :: "u8 list" where "signature_FACP = [0x46, 0x41, 0x43, 0x50]"

definition is_xsdt :: "memory \<Rightarrow> u64 \<Rightarrow> bool" where
  "is_xsdt m rxsdt \<longleftrightarrow> memcmp (bytes_at m (rxsdt + hdr_signature)) (ascii signature_XSDT) 4 = 0"

text \<open>The entry at offset \<open>i\<close>, copied into 64 bits.\<close>

definition entry_addr :: "memory \<Rightarrow> u64 \<Rightarrow> u64 \<Rightarrow> u64 \<Rightarrow> u64" where
  "entry_addr m rxsdt entry_size i =
     (let a = rxsdt + rxsdt_ptr_bytes + i in if entry_size = 8 then load64 m a else ucast (load32 m a))"

text \<open>
  The loop of \<open>scan_rxsdt\<close>. A length below that of the header makes the number of bytes wrap around; the
  loop then reads on for as long as it has fuel.
\<close>

primrec scan_entries :: "nat \<Rightarrow> u64 \<Rightarrow> u64 \<Rightarrow> u64 \<Rightarrow> u64 \<Rightarrow> ('u uefi, unit) cfun" where
  "scan_entries 0 rxsdt entry_size entries_bytes i = faults Out_Of_Fuel"
| "scan_entries (Suc n) rxsdt entry_size entries_bytes i =
     (if i + entry_size \<le> entries_bytes then
        bind (gets umem) (\<lambda>m.
        let entry = entry_addr m rxsdt entry_size i in
        seq (CHECK (entry \<noteq> 0))
       (seq (if memcmp (bytes_at m (entry + hdr_signature)) (ascii signature_FACP) 4 = 0
             then bind (gets g_fadt) (\<lambda>fadt. seq (CHECK (fadt = 0)) (modify (\<lambda>s. s\<lparr>g_fadt := entry\<rparr>)))
             else ret ())
            (scan_entries n rxsdt entry_size entries_bytes (i + entry_size))))
      else ret ())"

definition scan_rxsdt :: "u64 \<Rightarrow> ('u uefi, unit) cfun" where
  "scan_rxsdt rxsdt =
     bind (gets umem) (\<lambda>m.
     let entry_size = (if is_xsdt m rxsdt then 8 else 4);
         entries_bytes = ucast (load32 m (rxsdt + hdr_length)) - sizeof_acpi_table_header
     in scan_entries (Suc (unat entries_bytes div unat entry_size)) rxsdt entry_size entries_bytes 0)"

definition find_facs :: "u64 \<Rightarrow> ('u uefi, unit) cfun" where
  "find_facs fadt =
     bind (gets umem) (\<lambda>m.
     if load64 m (fadt + fadt_x_firmware_ctrl) \<noteq> 0
     then modify (\<lambda>s. s\<lparr>g_facs := load64 m (fadt + fadt_x_firmware_ctrl)\<rparr>)
     else modify (\<lambda>s. s\<lparr>g_facs := ucast (load32 m (fadt + fadt_firmware_ctrl))\<rparr>))"

definition find_dsdt :: "u64 \<Rightarrow> ('u uefi, unit) cfun" where
  "find_dsdt fadt =
     bind (gets umem) (\<lambda>m.
     if load64 m (fadt + fadt_x_dsdt) \<noteq> 0
     then modify (\<lambda>s. s\<lparr>g_dsdt := load64 m (fadt + fadt_x_dsdt)\<rparr>)
     else modify (\<lambda>s. s\<lparr>g_dsdt := ucast (load32 m (fadt + fadt_dsdt))\<rparr>))"

definition find_acpi_tables :: "'u firmware \<Rightarrow> ('u uefi, unit) cfun" where
  "find_acpi_tables F =
     seq (find_rsdp F)
    (seq (bind (gets g_rsdp) find_rxsdt)
    (seq (bind (gets g_rxsdt) scan_rxsdt)
    (seq (bind (gets g_fadt) (\<lambda>fadt. CHECK (fadt \<noteq> 0)))
    (seq (bind (gets g_fadt) find_facs)
         (bind (gets g_fadt) find_dsdt)))))"

section \<open>The checksum\<close>

text \<open>The loop reads the length from the table in every round; no round writes to the table.\<close>

primrec sum_bytes :: "nat \<Rightarrow> memory \<Rightarrow> u64 \<Rightarrow> u8" where
  "sum_bytes 0 m table = 0"
| "sum_bytes (Suc n) m table = sum_bytes n m table + m (table + of_nat n)"

definition fix_table_checksum :: "u64 \<Rightarrow> memory \<Rightarrow> memory" where
  "fix_table_checksum table m =
     (let m1 = store8 (table + hdr_checksum) 0 m;
          checksum = sum_bytes (unat (load32 m1 (table + hdr_length))) m1 table
      in store8 (table + hdr_checksum) (- checksum) m1)"

section \<open>What the checksum makes of a table\<close>

lemma sum_bytes_update:
  assumes "k < n" and "n \<le> 2 ^ 64"
  shows "sum_bytes n (m(table + of_nat k := v)) table = sum_bytes n m table - m (table + of_nat k) + v"
proof -
  have other: "table + of_nat i \<noteq> table + of_nat k" if "i \<noteq> k" "i < n" for i
  proof
    assume "table + of_nat i = table + of_nat k"
    then have "unat (of_nat i :: u64) = unat (of_nat k :: u64)" by simp
    then show False using that assms by (simp add: unat_of_nat_small)
  qed
  have below: "sum_bytes j (m(table + of_nat k := v)) table = sum_bytes j m table" if "j \<le> k" for j
    using that other assms by (induction j) auto
  have "j \<le> n \<Longrightarrow> k < j \<Longrightarrow> sum_bytes j (m(table + of_nat k := v)) table = sum_bytes j m table - m (table + of_nat k) + v" for j
  proof (induction j)
    case (Suc j)
    show ?case
    proof (cases "j = k")
      case True
      then show ?thesis using below [of k] by (simp add: fun_upd_def)
    next
      case False
      with Suc show ?thesis using other [of j] by simp
    qed
  qed simp
  then show ?thesis using assms by simp
qed

text \<open>The length of a table is not one of the bytes a checksum changes.\<close>

lemma load32_fun_upd: "x \<notin> region a 4 \<Longrightarrow> load32 (m(x := v)) a = load32 m a"
  unfolding load32_def by (subst mem_read_cong [where m' = m]) auto

lemma length_not_checksum: "load32 (m(table + hdr_checksum := v)) (table + hdr_length) = load32 m (table + hdr_length)"
proof (rule load32_fun_upd)
  have "table + hdr_checksum - (table + hdr_length) = 5" by (simp add: layout_simps)
  then have "unat (table + hdr_checksum - (table + hdr_length)) = 5" by simp
  then show "table + hdr_checksum \<notin> region (table + hdr_length) 4" by (simp add: mem_region_iff)
qed

lemma fix_table_checksum_sum:
  assumes "9 < unat (load32 m (table + hdr_length))"
  shows "sum_bytes (unat (load32 m (table + hdr_length))) (fix_table_checksum table m) table = 0"
proof -
  let ?n = "unat (load32 m (table + hdr_length))"
  define m1 where "m1 = m(table + hdr_checksum := 0)"
  have n: "?n \<le> 2 ^ 64" using unsigned_less [of "load32 m (table + hdr_length)", where ?'a = nat] by simp
  have c: "table + hdr_checksum = table + of_nat 9" by (simp add: layout_simps)
  have "fix_table_checksum table m = m1(table + of_nat 9 := - sum_bytes ?n m1 table)"
    by (simp add: fix_table_checksum_def Let_def store8_def m1_def length_not_checksum) (simp add: c)
  moreover have "m1 (table + of_nat 9) = 0" by (simp add: m1_def c)
  ultimately show ?thesis using sum_bytes_update [OF assms n, of m1 table] by simp
qed

lemma fix_table_checksum_frame: "a \<noteq> table + hdr_checksum \<Longrightarrow> fix_table_checksum table m a = m a"
  by (simp add: fix_table_checksum_def Let_def store8_def)

lemma fix_table_checksum_length: "load32 (fix_table_checksum table m) (table + hdr_length) = load32 m (table + hdr_length)"
  by (simp add: fix_table_checksum_def Let_def store8_def length_not_checksum)

section \<open>What the scan finds\<close>

definition table_entry :: "memory \<Rightarrow> u64 \<Rightarrow> u64 \<Rightarrow> nat \<Rightarrow> u64" where
  "table_entry m rxsdt sz k = entry_addr m rxsdt sz (of_nat (k * unat sz))"

definition rxsdt_entries :: "memory \<Rightarrow> u64 \<Rightarrow> u64 list" where
  "rxsdt_entries m rxsdt = (let sz = (if is_xsdt m rxsdt then 8 else 4) in
     map (table_entry m rxsdt sz) [0..<(unat (load32 m (rxsdt + hdr_length)) - 36) div unat sz])"

definition has_fadt_signature :: "memory \<Rightarrow> u64 \<Rightarrow> bool" where
  "has_fadt_signature m e \<longleftrightarrow> mem_read m e 4 = signature_FACP"

lemma memcmp_signature:
  "length bs = 4 \<Longrightarrow> memcmp (bytes_at m (a + hdr_signature)) (ascii bs) 4 = 0 \<longleftrightarrow> mem_read m a 4 = bs"
  by (auto simp: memcmp_eq_0_iff bytes_at_def cstr_def acpi_layout list_eq_iff_nth_eq)

primrec scan_list :: "memory \<Rightarrow> u64 list \<Rightarrow> 'u uefi \<Rightarrow> (unit, 'u uefi) outcome" where
  "scan_list m [] s = Returns () s"
| "scan_list m (e # es) s = (if e = 0 then Throws ERR_INVALID s
     else if has_fadt_signature m e then (if g_fadt s = 0 then scan_list m es (s\<lparr>g_fadt := e\<rparr>) else Throws ERR_INVALID s)
     else scan_list m es s)"

text \<open>The loop is the scan of the list of entries; the fuel is enough.\<close>

lemma scan_entries_list:
  assumes sz: "sz = 4 \<or> sz = 8" and total: "unat eb < 2 ^ 32" and "k + length es = unat eb div unat sz" and "length es < n"
    and "es = map (table_entry m rxsdt sz) [k..<unat eb div unat sz]" and "umem (s :: 'u uefi) = m"
  shows "scan_entries n rxsdt sz eb (of_nat (k * unat sz)) s = scan_list m es s"
  using assms(3-6)
proof (induction es arbitrary: k n s)
  case Nil
  then obtain n' where n: "n = Suc n'" by (cases n) auto
  let ?i = "of_nat (k * unat sz) :: u64"
  have u: "unat sz = 4 \<or> unat sz = 8" using sz by auto
  have k: "k * unat sz \<le> unat eb" "unat eb < k * unat sz + unat sz"
    using Nil.prems(1) u by (auto simp: div_times_less_eq_dividend dividend_less_div_times)
  then have i: "unat ?i = k * unat sz" using total by (intro unat_of_nat_small) simp
  then have "unat (?i + sz) = k * unat sz + unat sz" using k total u by (subst unat_add_lem [THEN iffD1]) auto
  then have "\<not> ?i + sz \<le> eb" using k by (simp add: word_le_nat_alt)
  then show ?case by (simp add: n ret_def)
next
  case (Cons e es)
  then obtain n' where n: "n = Suc n'" by (cases n) auto
  let ?i = "of_nat (k * unat sz) :: u64"
  have u: "unat sz = 4 \<or> unat sz = 8" using sz by auto
  have lt: "k < unat eb div unat sz" using Cons.prems(1) by simp
  then have "Suc k * unat sz \<le> unat eb div unat sz * unat sz" by (intro mult_right_mono) auto
  then have "Suc k * unat sz \<le> unat eb" using div_times_less_eq_dividend by (rule order_trans)
  then have k: "k * unat sz + unat sz \<le> unat eb" by simp
  then have i: "unat ?i = k * unat sz" using total by (intro unat_of_nat_small) simp
  then have "unat (?i + sz) = k * unat sz + unat sz" using k total u by (subst unat_add_lem [THEN iffD1]) auto
  then have go: "?i + sz \<le> eb" using k by (simp add: word_le_nat_alt)
  have next': "?i + sz = of_nat (Suc k * unat sz)" by simp
  have es: "e = table_entry m rxsdt sz k" "es = map (table_entry m rxsdt sz) [Suc k..<unat eb div unat sz]"
    using Cons.prems(3) lt by (simp_all add: upt_conv_Cons)
  have IH: "scan_entries n' rxsdt sz eb (?i + sz) t = scan_list m es t" if "umem t = m" for t :: "'u uefi"
    unfolding next' by (rule Cons.IH) (use Cons.prems es(2) n that in simp_all)
  have sig: "memcmp (bytes_at m (e + hdr_signature)) (ascii signature_FACP) 4 = 0 \<longleftrightarrow> has_fadt_signature m e"
    unfolding has_fadt_signature_def by (rule memcmp_signature) (simp add: signature_FACP_def)
  have e: "entry_addr m rxsdt sz ?i = e" using es(1) by (simp add: table_entry_def)
  have "scan_entries n rxsdt sz eb ?i s = seq (CHECK (e \<noteq> 0)) (seq
      (if has_fadt_signature m e then bind (gets g_fadt) (\<lambda>fadt. seq (CHECK (fadt = 0)) (modify (\<lambda>s. s\<lparr>g_fadt := e\<rparr>))) else ret ())
      (scan_entries n' rxsdt sz eb (?i + sz))) s"
    using go Cons.prems(4) by (simp add: n bind_def gets_def Let_def e sig del: of_nat_mult)
  also have "\<dots> = scan_list m (e # es) s"
    using Cons.prems(4) by (simp add: seq_def bind_def CHECK_def ret_def throw_def gets_def modify_def IH del: of_nat_mult)
  finally show ?case .
qed

lemma scan_rxsdt_list:
  assumes "36 \<le> unat (load32 (umem s) (rxsdt + hdr_length))"
  shows "scan_rxsdt rxsdt s = scan_list (umem s) (rxsdt_entries (umem s) rxsdt) s"
proof -
  let ?m = "umem s" and ?l = "load32 (umem s) (rxsdt + hdr_length)"
  define sz :: u64 where "sz = (if is_xsdt ?m rxsdt then 8 else 4)"
  define eb :: u64 where "eb = ucast ?l - sizeof_acpi_table_header"
  have l: "unat (ucast ?l :: u64) = unat ?l" by (simp add: unat_ucast_up)
  then have eb: "unat eb = unat ?l - 36"
    using assms unfolding eb_def acpi_layout by (subst unat_sub) (auto simp: word_le_nat_alt)
  have "unat eb < 2 ^ 32" using eb unsigned_less [of ?l, where ?'a = nat] by simp
  then have "scan_entries (Suc (unat eb div unat sz)) rxsdt sz eb (of_nat (0 * unat sz)) s =
      scan_list ?m (map (table_entry ?m rxsdt sz) [0..<unat eb div unat sz]) s"
    by (intro scan_entries_list) (auto simp: sz_def)
  then show ?thesis
    unfolding scan_rxsdt_def bind_def gets_def rxsdt_entries_def Let_def
    by (simp flip: sz_def eb_def eb del: scan_entries.simps)
qed

lemma scan_list_found:
  "0 \<notin> set es \<Longrightarrow> g_fadt s \<noteq> 0 \<Longrightarrow>
   scan_list m es s = (if filter (has_fadt_signature m) es = [] then Returns () s else Throws ERR_INVALID s)"
  by (induction es) auto

lemma scan_list_filter:
  "0 \<notin> set es \<Longrightarrow> g_fadt s = 0 \<Longrightarrow> scan_list m es s = (case filter (has_fadt_signature m) es of
     [] \<Rightarrow> Returns () s | [e] \<Rightarrow> Returns () (s\<lparr>g_fadt := e\<rparr>) | e # _ \<Rightarrow> Throws ERR_INVALID (s\<lparr>g_fadt := e\<rparr>))"
  by (induction es) (auto simp: scan_list_found split: list.splits)

section \<open>A small set of tables\<close>

text \<open>An RSDT at \<open>0x1000\<close> with two entries, the FADT at \<open>0x2000\<close> and another table at \<open>0x2800\<close>.\<close>

definition example_rsdt :: "u8 list" where
  "example_rsdt = [0x52, 0x53, 0x44, 0x54, 44, 0, 0, 0] @ replicate 28 0 @ [0, 0x28, 0, 0, 0, 0x20, 0, 0]"

definition example_tables :: memory where
  "example_tables a = (if a = 0x2000 then 0x46 else if a = 0x2001 then 0x41 else if a = 0x2002 then 0x43 else if a = 0x2003 then 0x50
     else if a = 0x2004 then 244 else if 0x1000 \<le> a \<and> a < 0x102c then example_rsdt ! unat (a - 0x1000) else 0)"

lemma example_rsdt_length: "load32 example_tables (0x1000 + hdr_length) = 44"
  by (simp add: load32_def mem_read_def upt_rec layout_simps example_tables_def example_rsdt_def word_less_nat_alt word_le_nat_alt)

lemma example_rsdt_entries: "rxsdt_entries example_tables 0x1000 = [0x2800, 0x2000]"
proof -
  note l = example_rsdt_length
  have x: "\<not> is_xsdt example_tables 0x1000"
    by (simp add: is_xsdt_def memcmp_signature signature_XSDT_def mem_read_def upt_rec example_tables_def example_rsdt_def word_less_nat_alt word_le_nat_alt)
  have "load32 example_tables 0x1024 = 0x2800" "load32 example_tables 0x1028 = 0x2000"
    by (simp_all add: load32_def mem_read_def upt_rec example_tables_def example_rsdt_def word_less_nat_alt word_le_nat_alt nth_append nth_Cons')
  with l x show ?thesis
    by (simp add: rxsdt_entries_def Let_def table_entry_def entry_addr_def layout_simps upt_rec)
qed

lemma example_signatures: "has_fadt_signature example_tables 0x2000" "\<not> has_fadt_signature example_tables 0x2800"
  by (simp_all add: has_fadt_signature_def mem_read_def upt_rec signature_FACP_def example_tables_def word_less_nat_alt word_le_nat_alt)

definition example_uefi :: "'u \<Rightarrow> 'u uefi" where
  "example_uefi u = \<lparr>umem = example_tables,
     core_hdr = \<lparr>hdr_magic = 0x12345678, hdr_action = 0, hdr_facs = 0, hdr_rsdp = 0,
       hdr_disk_pci = \<lparr>disk_bus = 0, disk_device = 0, disk_function = 0, disk_bars = replicate 6 0\<rparr>,
       ram_areas_size = 0, ram_areas = replicate 64 \<lparr>area_start = 0, area_size = 0\<rparr>\<rparr>,
     g_core_header_ptr = 0x41000000, g_rsdp = 0, g_rxsdt = 0, g_fadt = 0, g_facs = 0, g_dsdt = 0, g_is_dsdt_patched = False,
     pts_facs = replicate 64 0, bs_GetMemoryMap = 0x100, bs_InstallConfigurationTable = 0x200, rt_SetVariable = 0x300, rt_ConvertPointer = 0x400,
     loaded_set_variable = \<lparr>is_loaded = False, hook_hdr = 0, hook_entry = 0\<rparr>,
     loaded_get_memory_map = \<lparr>is_loaded = False, hook_hdr = 0, hook_entry = 0\<rparr>,
     loaded_virtual_address_map_event = \<lparr>is_loaded = False, hook_hdr = 0, hook_entry = 0\<rparr>,
     g_original_set_variable = 0, g_original_get_memory_map = 0, virtual_address_map_event_obj = 0,
     sv_header = \<lparr>original_set_variable = 0, waking_vector_addr = 0, original_waking_vector_addr = 0, sv_core_header = 0\<rparr>,
     gmm_header = \<lparr>original_get_memory_map = 0, install_configuration_table = 0, runtime_areas = replicate 32 \<lparr>area_start = 0, area_size = 0\<rparr>\<rparr>,
     vame_header = \<lparr>convert_pointer = 0, ptrs_to_fix = replicate 32 None\<rparr>,
     vmap = id, fw = u\<rparr>"

section \<open>Properties\<close>

text \<open>C27: The scan of the RSDT or XSDT ends and finds the FADT: with all entries non-null, it leaves the address of
  the one table with the FADT's signature in \<open>g_fadt\<close>, nothing when there is none, and fails when there
  are two. Entries have the width the table's signature says, and only whole entries are read.\<close>

theorem scan_rxsdt_finds_fadt:
  assumes "36 \<le> unat (load32 (umem s) (rxsdt + hdr_length))" and "0 \<notin> set (rxsdt_entries (umem s) rxsdt)" and "g_fadt s = 0"
  shows "scan_rxsdt rxsdt s = (case filter (has_fadt_signature (umem s)) (rxsdt_entries (umem s) rxsdt) of
     [] \<Rightarrow> Returns () s | [e] \<Rightarrow> Returns () (s\<lparr>g_fadt := e\<rparr>) | e # _ \<Rightarrow> Throws ERR_INVALID (s\<lparr>g_fadt := e\<rparr>))"
  unfolding scan_rxsdt_list [OF assms(1)] by (rule scan_list_filter [OF assms(2,3)])

theorem scan_rxsdt_finds_fadt_witness:
  "scan_rxsdt 0x1000 (example_uefi ()) = Returns () ((example_uefi ())\<lparr>g_fadt := 0x2000\<rparr>)"
proof -
  note example_rsdt_length
  then show ?thesis
    using scan_rxsdt_finds_fadt [of "example_uefi ()" "0x1000"] example_signatures
    by (simp add: example_uefi_def example_rsdt_entries)
qed

text \<open>After \<open>fix_table_checksum\<close> the bytes of a table, its length from its own header, sum up to zero, as the
  ACPI specification asks, and no byte but the checksum has changed.\<close>

theorem fix_table_checksum_correct:
  assumes "9 < unat (load32 m (table + hdr_length))"
  shows "sum_bytes (unat (load32 (fix_table_checksum table m) (table + hdr_length))) (fix_table_checksum table m) table = 0 \<and>
    (\<forall>a. a \<noteq> table + hdr_checksum \<longrightarrow> fix_table_checksum table m a = m a)"
  using fix_table_checksum_sum [OF assms] by (simp add: fix_table_checksum_length fix_table_checksum_frame)

theorem fix_table_checksum_correct_witness:
  "sum_bytes (unat (load32 (fix_table_checksum 0x1000 example_tables) (0x1000 + hdr_length))) (fix_table_checksum 0x1000 example_tables) 0x1000 = 0"
proof -
  note example_rsdt_length
  then show ?thesis using fix_table_checksum_correct [of example_tables "0x1000"] by simp
qed

end
