(* ===== verification/ServiceHooks.thy ===== *)
theory ServiceHooks
  imports AcpiTables
begin

text \<open>
  The hooks that stay in memory when the application has quit (\<^verbatim>\<open>uefi/services/hooks/\<close>): the \<open>SetVariable\<close>
  runtime service with its commands, the \<open>GetMemoryMap\<close> boot service and the event of
  \<open>SetVirtualAddressMap\<close>. The operating system calls them through the pointers in the service tables. After
  \<open>SetVirtualAddressMap\<close> the hooks run with virtual addresses; \<open>vmap\<close> is what an address stands for, the
  identity before.
\<close>

section \<open>GUIDs and strings\<close>

text \<open>\<^verbatim>\<open>shared/include/guid.h\<close>; a GUID behind a pointer is its 16 bytes.\<close>

record guid =
  data1 :: u32
  data2 :: u16
  data3 :: u16
  data4 :: "u8 list"

definition guid_bytes :: "guid \<Rightarrow> u8 list" where
  "guid_bytes g = le_bytes 4 (data1 g) @ le_bytes 2 (data2 g) @ le_bytes 2 (data3 g) @ data4 g"

definition EFI_COMMANDS_GUID :: guid where
  "EFI_COMMANDS_GUID = \<lparr>data1 = 0xe21c66ed, data2 = 0xbc2e, data3 = 0x4d30, data4 = [0xac, 0x5e, 0x1b, 0x96, 0x80, 0x02, 0xc5, 0x41]\<rparr>"

definition EFI_MEMORY_ATTRIBUTES_TABLE_GUID :: guid where
  "EFI_MEMORY_ATTRIBUTES_TABLE_GUID = \<lparr>data1 = 0xdcfa911d, data2 = 0x26eb, data3 = 0x469f, data4 = [0xa2, 0x20, 0x38, 0xb7, 0xdc, 0x46, 0x12, 0x20]\<rparr>"

definition SET_CORE_ACTION :: "u16 list" where
  "SET_CORE_ACTION = [0x53, 0x45, 0x54, 0x5f, 0x43, 0x4f, 0x52, 0x45, 0x5f, 0x41, 0x43, 0x54, 0x49, 0x4f, 0x4e]"

definition WINDOWS_SLEEP_CHECKPOINT_VARIABLE_NAME :: "u16 list" where
  "WINDOWS_SLEEP_CHECKPOINT_VARIABLE_NAME = [0x53, 0x79, 0x73, 0x74, 0x65, 0x6d, 0x53, 0x6c, 0x65, 0x65, 0x70,
     0x43, 0x68, 0x65, 0x63, 0x6b, 0x70, 0x6f, 0x69, 0x6e, 0x74]"

text \<open>\<open>wstrcmp(s, literal) == 0\<close>. The comparison stops at the end of the literal at the latest.\<close>

definition equals_literal :: "u16 cstring \<Rightarrow> u16 list \<Rightarrow> ('s, bool) cfun" where
  "equals_literal s literal = (case wstrcmp (Suc (length literal)) s (cstr literal) of
      None \<Rightarrow> faults Out_Of_Fuel | Some r \<Rightarrow> ret (r = 0))"

section \<open>The commands of the operating system\<close>

definition is_commands_guid :: "u8 list \<Rightarrow> bool" where
  "is_commands_guid g \<longleftrightarrow> memcmp (cstr g) (cstr (guid_bytes EFI_COMMANDS_GUID)) 16 = 0"

text \<open>Through the pointer \<open>core_header\<close> of the hook's header only core's header may be written.\<close>

definition set_core_action_handler :: "u8 list \<Rightarrow> ('u uefi, unit) cfun" where
  "set_core_action_handler data =
     seq (CHECK (length data = 4))
    (let action = of_le data in
     seq (CHECK (is_core_header_action_valid action))
    (bind (gets (\<lambda>s. vmap s (sv_core_header (sv_header s)) = g_core_header_ptr s)) (\<lambda>ok.
     seq (defined_if ok)
         (modify (\<lambda>s. s\<lparr>core_hdr := (core_hdr s)\<lparr>hdr_action := action\<rparr>\<rparr>)))))"

definition handle_command :: "u16 cstring \<Rightarrow> u8 list \<Rightarrow> ('u uefi, unit) cfun" where
  "handle_command cmd_name data =
     bind (equals_literal cmd_name SET_CORE_ACTION) (\<lambda>same.
     if same then set_core_action_handler data else ret ())"

section \<open>SetVariable\<close>

text \<open>
  \<open>_start\<close> of \<^verbatim>\<open>set_variable.c\<close>; \<open>DataSize\<close> is the length of the data.
\<close>

definition set_variable_hook :: "'u firmware \<Rightarrow> u16 cstring \<Rightarrow> u8 list \<Rightarrow> u32 \<Rightarrow> u8 list \<Rightarrow> ('u uefi, efi_status) cfun" where
  "set_variable_hook F VariableName VendorGuid Attributes Data =
     (if is_commands_guid VendorGuid then
        if length Data = 0 then ret EFI_SUCCESS
        else bind (succeeds (handle_command VariableName Data)) (\<lambda>ok.
          ret (if ok then EFI_SUCCESS else EFIERR (err_code ERR_INVALID)))
      else
        bind (equals_literal VariableName WINDOWS_SLEEP_CHECKPOINT_VARIABLE_NAME) (\<lambda>same.
        bind (gets (\<lambda>s. vmap s (waking_vector_addr (sv_header s)))) (\<lambda>wv.
        bind (gets (\<lambda>s. vmap s (original_waking_vector_addr (sv_header s)))) (\<lambda>owv.
        bind (gets (\<lambda>s. load32 (umem s) wv)) (\<lambda>v.
        seq (if same \<and> ucast v \<noteq> CORE_WAKEUP_PHYS_ADDR
             then seq (set_umem (store32 owv v)) (set_umem (store32 wv (ucast CORE_WAKEUP_PHYS_ADDR)))
             else ret ())
       (bind (gets (\<lambda>s. vmap s (original_set_variable (sv_header s)))) (\<lambda>p.
        call_fw (SetVariable F p VariableName VendorGuid Attributes Data))))))))"

section \<open>GetMemoryMap\<close>

text \<open>The inner loop of \<^verbatim>\<open>get_memory_map.c\<close>: up to the first empty area.\<close>

primrec contains_runtime_area :: "mem_area list \<Rightarrow> u64 \<Rightarrow> u64 \<Rightarrow> bool" where
  "contains_runtime_area [] desc_start desc_end = False"
| "contains_runtime_area (a # as) desc_start desc_end =
     (if area_size a = 0 then False
      else if is_mem_area_contained_in_range a desc_start desc_end then True
      else contains_runtime_area as desc_start desc_end)"

definition mark_runtime :: "mem_area list \<Rightarrow> efi_memory_descriptor \<Rightarrow> efi_memory_descriptor" where
  "mark_runtime areas d =
     (let desc_end = physical_start d + number_of_pages d * EFI_PAGE_SIZE in
      if contains_runtime_area areas (physical_start d) desc_end
      then d\<lparr>attribute := attribute d OR EFI_MEMORY_RUNTIME\<rparr> else d)"

definition get_memory_map_hook :: "'u firmware \<Rightarrow> u64 \<Rightarrow> u64 \<Rightarrow> ('u uefi, memory_map) cfun" where
  "get_memory_map_hook F MemoryMapSize MemoryMap =
     bind (gets (\<lambda>s. original_get_memory_map (gmm_header s))) (\<lambda>original.
     bind (call_fw (GetMemoryMap F original MemoryMapSize MemoryMap)) (\<lambda>mm.
     bind (gets (\<lambda>s. runtime_areas (gmm_header s))) (\<lambda>areas.
     bind (if map_status mm = EFI_SUCCESS then
        let n = unat (map_size mm div map_desc_size mm) in
        seq (defined_if (map_desc_size mm \<noteq> 0 \<and> n \<le> length (map_descs mm)))
            (ret (mm\<lparr>map_descs := map (mark_runtime areas) (take n (map_descs mm)) @ drop n (map_descs mm)\<rparr>))
      else ret mm) (\<lambda>mm'.
     bind (gets (\<lambda>s. install_configuration_table (gmm_header s))) (\<lambda>p.
     seq (call_fw (\<lambda>u. ((), InstallConfigurationTable F p (guid_bytes EFI_MEMORY_ATTRIBUTES_TABLE_GUID) 0 u)))
         (ret mm'))))))"

section \<open>The virtual address map event\<close>

text \<open>\<open>convert_pointer(0, ptr)\<close> for the field of the header an entry points to, and for the entry itself.\<close>

primrec field_value :: "hook_field \<Rightarrow> set_variable_hook_header \<Rightarrow> u64" where
  "field_value Original_Set_Variable h = original_set_variable h"
| "field_value Waking_Vector_Addr h = waking_vector_addr h"
| "field_value Original_Waking_Vector_Addr h = original_waking_vector_addr h"
| "field_value Core_Header_Field h = sv_core_header h"

primrec set_field :: "hook_field \<Rightarrow> u64 \<Rightarrow> set_variable_hook_header \<Rightarrow> set_variable_hook_header" where
  "set_field Original_Set_Variable v h = h\<lparr>original_set_variable := v\<rparr>"
| "set_field Waking_Vector_Addr v h = h\<lparr>waking_vector_addr := v\<rparr>"
| "set_field Original_Waking_Vector_Addr v h = h\<lparr>original_waking_vector_addr := v\<rparr>"
| "set_field Core_Header_Field v h = h\<lparr>sv_core_header := v\<rparr>"

definition convert :: "'u firmware \<Rightarrow> u64 \<Rightarrow> ('u uefi, u64) cfun" where
  "convert F p =
     bind (gets (\<lambda>s. convert_pointer (vame_header s))) (\<lambda>f.
     bind (call_fw (ConvertPointer F f p)) (\<lambda>(status, q).
     seq (CHECK (status = EFI_SUCCESS)) (ret q)))"

primrec fix_ptrs :: "'u firmware \<Rightarrow> nat list \<Rightarrow> ('u uefi, unit) cfun" where
  "fix_ptrs F [] = ret ()"
| "fix_ptrs F (i # is) =
     bind (gets (\<lambda>s. ptrs_to_fix (vame_header s) ! i)) (\<lambda>entry. case entry of
       None \<Rightarrow> ret ()
     | Some (f, a) \<Rightarrow>
         bind (gets (\<lambda>s. field_value f (sv_header s))) (\<lambda>v.
         bind (convert F v) (\<lambda>v'.
         seq (modify (\<lambda>s. s\<lparr>sv_header := set_field f v' (sv_header s)\<rparr>))
        (bind (convert F a) (\<lambda>a'.
         seq (modify (\<lambda>s. s\<lparr>vame_header := (vame_header s)\<lparr>ptrs_to_fix := (ptrs_to_fix (vame_header s))[i := Some (f, a')]\<rparr>\<rparr>))
             (fix_ptrs F is))))))"

definition virtual_address_map_event :: "'u firmware \<Rightarrow> ('u uefi, unit) cfun" where
  "virtual_address_map_event F =
     ignore_error
       (seq (fix_ptrs F [0..<32])
       (bind (gets (\<lambda>s. convert_pointer (vame_header s))) (\<lambda>p.
        bind (convert F p) (\<lambda>p'.
        modify (\<lambda>s. s\<lparr>vame_header := (vame_header s)\<lparr>convert_pointer := p'\<rparr>\<rparr>)))))"

end
