(* ===== verification/HookLoaders.thy ===== *)
theory HookLoaders
  imports ServiceHooks
begin

text \<open>
  Installing and removing the hooks: \<^verbatim>\<open>uefi/services/hooks_loader.c\<close> and \<^verbatim>\<open>uefi/services/loaders/\<close>. The image of a
  hook is copied to memory; the header at its start, which the loader then fills, is the record of
  the state that the hook's code reads.
\<close>

section \<open>Loading and freeing an image\<close>

text \<open>\<^verbatim>\<open>uefi/services/offsets.h\<close>\<close>

definition HOOK_HEADER_OFFSET :: u64 where "HOOK_HEADER_OFFSET = 0x1000"
definition HOOK_HEADER_SIZE :: u64 where "HOOK_HEADER_SIZE = 0x1000"
definition HOOK_ENTRY_OFFSET :: u64 where "HOOK_ENTRY_OFFSET = 0x2000"
definition FIRST_SECTION_OFFSET :: u64 where "FIRST_SECTION_OFFSET = HOOK_HEADER_OFFSET"
definition RAW_HOOK_HEADER_OFFSET :: u64 where "RAW_HOOK_HEADER_OFFSET = HOOK_HEADER_OFFSET - FIRST_SECTION_OFFSET"
definition RAW_HOOK_ENTRY_OFFSET :: u64 where "RAW_HOOK_ENTRY_OFFSET = HOOK_ENTRY_OFFSET - FIRST_SECTION_OFFSET"

lemmas hook_offset_defs = HOOK_HEADER_OFFSET_def HOOK_HEADER_SIZE_def HOOK_ENTRY_OFFSET_def FIRST_SECTION_OFFSET_def
  RAW_HOOK_HEADER_OFFSET_def RAW_HOOK_ENTRY_OFFSET_def

text \<open>The structure behind \<open>loaded_hook_out\<close> is one of three variables, given by its selector and its update.\<close>

definition load_hook ::
  "'u firmware \<Rightarrow> u8 list \<Rightarrow> ('u uefi \<Rightarrow> loaded_hook) \<Rightarrow> ((loaded_hook \<Rightarrow> loaded_hook) \<Rightarrow> 'u uefi \<Rightarrow> 'u uefi) \<Rightarrow> ('u uefi, unit) cfun" where
  "load_hook F hook loaded upd =
     seq (bind (gets (\<lambda>s. is_loaded (loaded s))) (\<lambda>l. CHECK (\<not> l)))
    (let hook_pages = ALIGN_UP (of_nat (length hook)) EFI_PAGE_SIZE div EFI_PAGE_SIZE in
     bind (call_fw (AllocatePages F AllocateAnyPages EfiRuntimeServicesCode hook_pages 0)) (\<lambda>(status, hook_addr).
     seq (CHECK (status = EFI_SUCCESS))
    (seq (set_umem (\<lambda>m. mem_write m hook_addr hook))
    (seq (modify (upd (\<lambda>l. l\<lparr>hook_hdr := hook_addr + RAW_HOOK_HEADER_OFFSET\<rparr>)))
    (seq (modify (upd (\<lambda>l. l\<lparr>hook_entry := hook_addr + RAW_HOOK_ENTRY_OFFSET\<rparr>)))
         (modify (upd (\<lambda>l. l\<lparr>is_loaded := True\<rparr>))))))))"

definition free_hook ::
  "'u firmware \<Rightarrow> ('u uefi \<Rightarrow> loaded_hook) \<Rightarrow> ((loaded_hook \<Rightarrow> loaded_hook) \<Rightarrow> 'u uefi \<Rightarrow> 'u uefi) \<Rightarrow> u64 \<Rightarrow> ('u uefi, unit) cfun" where
  "free_hook F loaded upd hook_size =
     bind (gets loaded) (\<lambda>l.
     if \<not> is_loaded l then ret ()
     else
       let hook_pages = ALIGN_UP hook_size EFI_PAGE_SIZE div EFI_PAGE_SIZE;
           hook_header_pages = HOOK_HEADER_SIZE div EFI_PAGE_SIZE in
       seq (bind (call_fw (FreePages F (hook_hdr l) hook_header_pages)) (\<lambda>_. ret ()))
      (seq (bind (call_fw (FreePages F (hook_entry l) (hook_pages - hook_header_pages))) (\<lambda>_. ret ()))
           (modify (upd (\<lambda>l. l\<lparr>is_loaded := False\<rparr>)))))"

definition set_crc :: "'u firmware \<Rightarrow> ('u uefi, unit) cfun" where
  "set_crc F = modify (\<lambda>s. s\<lparr>fw := SetCrc F (fw s)\<rparr>)"

section \<open>SetVariable\<close>

definition hook_set_variable :: "'u firmware \<Rightarrow> ('u uefi, unit) cfun" where
  "hook_set_variable F =
     seq (load_hook F (set_variable_bin F) loaded_set_variable loaded_set_variable_update)
    (seq (modify (\<lambda>s. s\<lparr>sv_header := \<lparr>original_set_variable = rt_SetVariable s,
            waking_vector_addr = g_facs s + facs_firmware_waking_vector,
            original_waking_vector_addr = g_facs s + facs_rsvd1_field,
            sv_core_header = g_core_header_ptr s\<rparr>\<rparr>))
    (seq (modify (\<lambda>s. s\<lparr>g_original_set_variable := rt_SetVariable s\<rparr>))
    (seq (modify (\<lambda>s. s\<lparr>rt_SetVariable := hook_entry (loaded_set_variable s)\<rparr>))
         (set_crc F))))"

definition unhook_set_variable :: "'u firmware \<Rightarrow> ('u uefi, unit) cfun" where
  "unhook_set_variable F =
     bind (gets (\<lambda>s. is_loaded (loaded_set_variable s))) (\<lambda>l.
     if l then
       seq (modify (\<lambda>s. s\<lparr>rt_SetVariable := g_original_set_variable s\<rparr>))
      (seq (set_crc F)
           (free_hook F loaded_set_variable loaded_set_variable_update (of_nat (length (set_variable_bin F)))))
     else ret ())"

section \<open>GetMemoryMap\<close>

definition RUNTIME_AREAS :: nat where "RUNTIME_AREAS = 32"

definition hook_get_memory_map :: "'u firmware \<Rightarrow> ('u uefi, unit) cfun" where
  "hook_get_memory_map F =
     seq (load_hook F (get_memory_map_bin F) loaded_get_memory_map loaded_get_memory_map_update)
    (seq (modify (\<lambda>s. s\<lparr>gmm_header := \<lparr>original_get_memory_map = bs_GetMemoryMap s,
            install_configuration_table = bs_InstallConfigurationTable s,
            runtime_areas = [\<lparr>area_start = g_facs s + facs_firmware_waking_vector, area_size = 4\<rparr>,
                             \<lparr>area_start = g_core_header_ptr s, area_size = sizeof_core_header\<rparr>] @
                            replicate (RUNTIME_AREAS - 2) \<lparr>area_start = 0, area_size = 0\<rparr>\<rparr>\<rparr>))
    (seq (modify (\<lambda>s. s\<lparr>g_original_get_memory_map := bs_GetMemoryMap s\<rparr>))
    (seq (modify (\<lambda>s. s\<lparr>bs_GetMemoryMap := hook_entry (loaded_get_memory_map s)\<rparr>))
         (set_crc F))))"

definition unhook_get_memory_map :: "'u firmware \<Rightarrow> ('u uefi, unit) cfun" where
  "unhook_get_memory_map F =
     bind (gets (\<lambda>s. is_loaded (loaded_get_memory_map s))) (\<lambda>l.
     if l then
       seq (modify (\<lambda>s. s\<lparr>bs_GetMemoryMap := g_original_get_memory_map s\<rparr>))
      (seq (set_crc F)
           (free_hook F loaded_get_memory_map loaded_get_memory_map_update (of_nat (length (get_memory_map_bin F)))))
     else ret ())"

section \<open>The virtual address map event\<close>

definition EFI_EVENT_VIRTUAL_ADDRESS_CHANGE_GUID :: guid where
  "EFI_EVENT_VIRTUAL_ADDRESS_CHANGE_GUID = \<lparr>data1 = 0x13fa7698, data2 = 0xc831, data3 = 0x49c7, data4 = [0x87, 0xea, 0x8f, 0x43, 0xfc, 0xc2, 0x51, 0x96]\<rparr>"

definition PTRS_TO_FIX :: nat where "PTRS_TO_FIX = 32"

text \<open>The fields of \<open>struct set_variable_hook_header\<close> are pointers of eight bytes.\<close>

primrec field_offset :: "hook_field \<Rightarrow> u64" where
  "field_offset Original_Set_Variable = 0"
| "field_offset Waking_Vector_Addr = 8"
| "field_offset Original_Waking_Vector_Addr = 16"
| "field_offset Core_Header_Field = 24"

definition create_virtual_address_map_event :: "'u firmware \<Rightarrow> ('u uefi, unit) cfun" where
  "create_virtual_address_map_event F =
     seq (bind (gets (\<lambda>s. is_loaded (loaded_set_variable s) \<and> is_loaded (loaded_get_memory_map s))) CHECK)
    (seq (load_hook F (virtual_address_map_event_bin F) loaded_virtual_address_map_event loaded_virtual_address_map_event_update)
    (seq (modify (\<lambda>s. s\<lparr>vame_header := \<lparr>convert_pointer = rt_ConvertPointer s,
            ptrs_to_fix = map (\<lambda>f. Some (f, hook_hdr (loaded_set_variable s) + field_offset f))
                [Original_Set_Variable, Waking_Vector_Addr, Original_Waking_Vector_Addr, Core_Header_Field] @
              replicate (PTRS_TO_FIX - 4) None\<rparr>\<rparr>))
    (bind (gets (\<lambda>s. hook_entry (loaded_virtual_address_map_event s))) (\<lambda>entry.
     bind (call_fw (CreateEventEx F entry (guid_bytes EFI_EVENT_VIRTUAL_ADDRESS_CHANGE_GUID))) (\<lambda>(status, obj).
     seq (modify (\<lambda>s. s\<lparr>virtual_address_map_event_obj := obj\<rparr>))
         (CHECK (status = EFI_SUCCESS)))))))"

text \<open>\<open>CloseEvent\<close> is given the address of the variable that holds the event, not the event.\<close>

definition remove_virtual_address_map_event :: "'u firmware \<Rightarrow> u64 \<Rightarrow> ('u uefi, unit) cfun" where
  "remove_virtual_address_map_event F obj_addr =
     bind (gets (\<lambda>s. is_loaded (loaded_virtual_address_map_event s))) (\<lambda>l.
     if l then
       seq (modify (\<lambda>s. s\<lparr>fw := CloseEvent F obj_addr (fw s)\<rparr>))
           (free_hook F loaded_virtual_address_map_event loaded_virtual_address_map_event_update
              (of_nat (length (virtual_address_map_event_bin F))))
     else ret ())"

section \<open>All hooks\<close>

definition hook_services :: "'u firmware \<Rightarrow> ('u uefi, unit) cfun" where
  "hook_services F =
     seq (hook_set_variable F)
    (seq (hook_get_memory_map F)
         (create_virtual_address_map_event F))"

definition unhook_services :: "'u firmware \<Rightarrow> u64 \<Rightarrow> ('u uefi, unit) cfun" where
  "unhook_services F obj_addr =
     seq (remove_virtual_address_map_event F obj_addr)
    (seq (unhook_get_memory_map F)
         (unhook_set_variable F))"

end
