(* ===== verification/PkgLength.thy ===== *)
theory PkgLength
  imports MemUtils
begin

text \<open>
  AML package lengths, \<^verbatim>\<open>uefi/acpi/patch/pkg_length.c\<close>. The functions fill the structure behind their out
  parameter, which is the state here; the encoding they should follow, of the ACPI specification, section
  20.2.4, is the reference \<open>pkg_encoding\<close>.
\<close>

section \<open>The code\<close>

definition MAX_PKG_LENGTH_ENCODED_SIZE :: nat where "MAX_PKG_LENGTH_ENCODED_SIZE = 4"
definition MAX_PKG_LENGTH_SIZE :: u64 where "MAX_PKG_LENGTH_SIZE = 0x10000000"

record acpi_pkg_length =
  pl_size :: u64
  pl_encoded_size :: u64
  pl_aml :: "u8 list"

text \<open>The loop over the following bytes; it ends with the size left over, which is 0, and the number of bytes.\<close>

function build_following :: "u64 \<Rightarrow> nat \<Rightarrow> (acpi_pkg_length, u64 \<times> nat) cfun" where
  "build_following n byte_count =
     (if n \<noteq> 0 then
        seq (CHECK (byte_count + 1 \<le> MAX_PKG_LENGTH_ENCODED_SIZE))
       (seq (modify (\<lambda>p. p\<lparr>pl_aml := (pl_aml p)[byte_count := ucast (n AND 0xff)]\<rparr>))
            (build_following (drop_bit 8 n) (byte_count + 1)))
      else ret (n, byte_count))"
  by pat_completeness auto

lemma drop_8_less: "n \<noteq> 0 \<Longrightarrow> unat (drop_bit 8 n :: u64) < unat n"
proof -
  assume "n \<noteq> 0"
  then have "0 < unat n" by (simp add: unat_gt_0)
  then show ?thesis by (simp add: drop_bit_eq_div unat_div)
qed

termination build_following
  by (relation "measure (\<lambda>(n, c). unat n)") (auto intro: drop_8_less)

definition build_pkg_length :: "u64 \<Rightarrow> (acpi_pkg_length, unit) cfun" where
  "build_pkg_length n =
     seq (CHECK (n \<le> MAX_PKG_LENGTH_SIZE))
    (bind (if n \<le> 63 then
        seq (modify (\<lambda>p. p\<lparr>pl_encoded_size := 1, pl_aml := (pl_aml p)[0 := ucast n]\<rparr>)) (ret n)
      else
        seq (modify (\<lambda>p. p\<lparr>pl_aml := (pl_aml p)[0 := ucast (n AND 0b1111)]\<rparr>))
       (bind (build_following (drop_bit 4 n) 1) (\<lambda>(rest, byte_count).
        seq (modify (\<lambda>p. p\<lparr>pl_aml := (pl_aml p)[0 := ucast (push_bit 6 (of_nat (byte_count - 1) :: u64))],
                            pl_encoded_size := of_nat byte_count\<rparr>))
            (ret rest)))) (\<lambda>rest.
     modify (\<lambda>p. p\<lparr>pl_size := rest\<rparr>)))"

text \<open>
  \<open>aml[i + 1] << ((8 * i) + 4)\<close> is an \<open>int\<close>; with at most three bytes it stays below \<open>2 ^ 31\<close> and the
  conversion to 64 bits is that of the number.
\<close>

primrec parse_following :: "(nat \<Rightarrow> u8) \<Rightarrow> nat list \<Rightarrow> u64 \<Rightarrow> u64" where
  "parse_following aml [] n = n"
| "parse_following aml (i # is) n = parse_following aml is (n OR push_bit (8 * i + 4) (ucast (aml (i + 1))))"

definition parse_pkg_length :: "(nat \<Rightarrow> u8) \<Rightarrow> u64 \<Rightarrow> (acpi_pkg_length, unit) cfun" where
  "parse_pkg_length aml aml_size =
     seq (CHECK (aml_size > 0))
    (let pkg_lead_byte = aml 0 in
     seq (if pkg_lead_byte \<le> 63 then
        modify (\<lambda>p. p\<lparr>pl_encoded_size := 1, pl_size := ucast pkg_lead_byte\<rparr>)
      else
        seq (CHECK (pkg_lead_byte AND 0b110000 = 0))
       (let pkg_length_nybble = pkg_lead_byte AND 0b1111;
            bytedata_count = drop_bit 6 (pkg_lead_byte AND 0b11000000) in
        seq (CHECK (bytedata_count \<le> 3))
       (seq (CHECK (ucast bytedata_count \<le> aml_size))
            (modify (\<lambda>p. p\<lparr>pl_encoded_size := ucast bytedata_count + 1,
               pl_size := parse_following aml [0..<unat bytedata_count] (ucast pkg_length_nybble)\<rparr>)))))
    (modify (\<lambda>p. p\<lparr>pl_aml := map aml [0..<unat (pl_encoded_size p)] @
       replicate (MAX_PKG_LENGTH_ENCODED_SIZE - unat (pl_encoded_size p)) 0\<rparr>)))"

section \<open>The encoding of the specification\<close>

text \<open>
  One byte up to 63; else a lead byte with the number of following bytes in bits 6 and 7 and the low four
  bits of the size, then the rest of the size, low byte first.
\<close>

definition pkg_count :: "nat \<Rightarrow> nat" where
  "pkg_count n = (if n < 64 then 0 else if n < 2 ^ 12 then 1 else if n < 2 ^ 20 then 2 else 3)"

definition pkg_encoding :: "nat \<Rightarrow> u8 list" where
  "pkg_encoding n = (if n < 64 then [of_nat n]
     else of_nat (64 * pkg_count n + n mod 16) # map (\<lambda>i. of_nat (n div 16 div 256 ^ i mod 256)) [0..<pkg_count n])"

section \<open>Parsing\<close>

lemma ucast_u8_nat: "(ucast (w :: u8) :: u64) = of_nat (unat w)"
proof -
  have "unat w < 2 ^ 64" using unsigned_less [of w, where ?'a = nat] by simp
  then show ?thesis by (simp add: word_unat_eq_iff unat_ucast_up unat_of_nat_small)
qed

text \<open>Adding a byte above what is there so far.\<close>

lemma or_byte:
  assumes "unat x < 2 ^ k" and "k + 8 \<le> 64"
  shows "unat (x OR push_bit k (ucast (b :: u8)) :: u64) = unat x + 2 ^ k * unat b"
proof -
  have "\<not> bit x n" if "k \<le> n" for n
  proof -
    have "x = take_bit k x" using assms by (simp add: word_unat_eq_iff unsigned_take_bit_eq take_bit_nat_eq_self)
    then show ?thesis using that by (metis bit_take_bit_iff leD)
  qed
  then have plus: "x OR push_bit k (ucast b) = x + push_bit k (ucast b)"
    by (intro disjunctive_add [symmetric]) (auto simp: bit_push_bit_iff not_le)
  have "unat b < 2 ^ 8" using unsigned_less [of b, where ?'a = nat] by simp
  then have "2 ^ k * (unat b + 1) \<le> 2 ^ k * (2 :: nat) ^ 8" by (intro mult_left_mono) auto
  moreover have "(2 :: nat) ^ k * 2 ^ 8 \<le> 2 ^ 64"
    unfolding power_add [symmetric] using assms(2) by (intro power_increasing) auto
  ultimately have "2 ^ k * (unat b + 1) \<le> (2 :: nat) ^ 64" by (rule order_trans)
  then have small: "2 ^ k * unat b + 2 ^ k \<le> (2 :: nat) ^ 64" by (simp only: distrib_left mult_1_right)
  moreover have "0 < (2 :: nat) ^ k" by simp
  ultimately have "2 ^ k * unat b < (2 :: nat) ^ 64" by linarith
  then have "push_bit k (unat b) < 2 ^ 64" by (simp add: push_bit_eq_mult mult.commute)
  moreover have "push_bit k (ucast b :: u64) = of_nat (push_bit k (unat b))" by (simp only: ucast_u8_nat push_bit_of_nat)
  ultimately have "unat (push_bit k (ucast b) :: u64) = push_bit k (unat b)" by (simp only: unat_of_nat_small)
  then have push: "unat (push_bit k (ucast b) :: u64) = 2 ^ k * unat b" by (simp only: push_bit_eq_mult [of k "unat b"] mult.commute)
  have "unat x + unat (push_bit k (ucast b) :: u64) < 2 ^ 64" unfolding push using small assms(1) by linarith
  then show ?thesis unfolding plus by (simp add: unat_add_lem [THEN iffD1] push)
qed

lemma lead_byte:
  assumes "c \<in> {1, 2, 3}" and "r < 16"
  shows "unat (of_nat (64 * c + r) :: u8) = 64 * c + r" "(of_nat (64 * c + r) :: u8) AND 0b110000 = 0"
    "(of_nat (64 * c + r) :: u8) AND 0b1111 = of_nat r" "drop_bit 6 ((of_nat (64 * c + r) :: u8) AND 0b11000000) = of_nat c"
proof -
  have r: "r \<in> {0, 1, 2, 3, 4, 5, 6, 7, 8, 9, 10, 11, 12, 13, 14, 15}"
    unfolding insert_iff empty_iff using assms(2) by presburger
  have "unat (of_nat (64 * c + r) :: u8) = 64 * c + r \<and> (of_nat (64 * c + r) :: u8) AND 0b110000 = 0 \<and>
    (of_nat (64 * c + r) :: u8) AND 0b1111 = of_nat r \<and> drop_bit 6 ((of_nat (64 * c + r) :: u8) AND 0b11000000) = of_nat c"
    using assms(1) r by (elim insertE; simp)
  then show "unat (of_nat (64 * c + r) :: u8) = 64 * c + r" "(of_nat (64 * c + r) :: u8) AND 0b110000 = 0"
    "(of_nat (64 * c + r) :: u8) AND 0b1111 = of_nat r" "drop_bit 6 ((of_nat (64 * c + r) :: u8) AND 0b11000000) = of_nat c"
    by blast+
qed

text \<open>The number the following bytes stand for.\<close>

primrec following_value :: "(nat \<Rightarrow> u8) \<Rightarrow> nat \<Rightarrow> nat" where
  "following_value aml 0 = 0"
| "following_value aml (Suc c) = following_value aml c + 256 ^ c * unat (aml (c + 1))"

lemma following_value_less: "following_value aml c < 256 ^ c"
proof (induction c)
  case (Suc c)
  have "unat (aml (c + 1)) < 256" using unsigned_less [of "aml (c + 1)", where ?'a = nat] by simp
  then have "256 ^ c * (unat (aml (c + 1)) + 1) \<le> 256 ^ c * 256" by (intro mult_left_mono) auto
  moreover have "256 ^ c * (unat (aml (c + 1)) + 1) = 256 ^ c * unat (aml (c + 1)) + 256 ^ c" "(256 :: nat) ^ Suc c = 256 ^ c * 256"
    by (simp_all add: algebra_simps)
  ultimately have "256 ^ c * unat (aml (c + 1)) + 256 ^ c \<le> 256 ^ Suc c" by linarith
  with Suc show ?case unfolding following_value.simps by linarith
qed simp

lemma parse_following_snoc: "parse_following aml (xs @ [i]) n = parse_following aml xs n OR push_bit (8 * i + 4) (ucast (aml (i + 1)))"
  by (induction xs arbitrary: n) auto

lemma parse_following_value:
  "unat n < 16 \<Longrightarrow> c \<le> 3 \<Longrightarrow> unat (parse_following aml [0..<c] n) = unat n + 16 * following_value aml c"
proof (induction c)
  case (Suc c)
  have "unat (parse_following aml [0..<c] n) = unat n + 16 * following_value aml c" using Suc by simp
  moreover have "following_value aml c + 1 \<le> 256 ^ c" using following_value_less [of aml c] by simp
  then have "16 * (following_value aml c + 1) \<le> 16 * 256 ^ c" by (rule mult_left_mono) simp
  moreover have p: "(2 :: nat) ^ (8 * c + 4) = 16 * 256 ^ c" by (simp add: power_add power_mult)
  ultimately have "unat (parse_following aml [0..<c] n) < 2 ^ (8 * c + 4)" using Suc.prems(1) by simp
  then show ?case
    using Suc p or_byte [of "parse_following aml [0..<c] n" "8 * c + 4" "aml (c + 1)"]
    by (simp add: parse_following_snoc mult.assoc)
qed simp

lemma following_value_digits:
  "\<forall>i<c. unat (aml (i + 1)) = N div 256 ^ i mod 256 \<Longrightarrow> following_value aml c = N mod 256 ^ c"
proof (induction c)
  case (Suc c)
  have "N mod (256 ^ c * 256) = 256 ^ c * (N div 256 ^ c mod 256) + N mod 256 ^ c" by (rule mod_mult2_eq)
  with Suc show ?case by (simp add: mult.commute)
qed simp

lemma pkg_count_value: "64 \<le> n \<Longrightarrow> n < 2 ^ 28 \<Longrightarrow> pkg_count n \<in> {1, 2, 3} \<and> n div 16 < 256 ^ pkg_count n"
  by (auto simp: pkg_count_def)

lemma length_pkg_encoding: "length (pkg_encoding n) = Suc (pkg_count n)"
  by (simp add: pkg_encoding_def pkg_count_def)

lemma parse_pkg_length_encoding:
  assumes n: "n < 2 ^ 28" and sz: "length (pkg_encoding n) \<le> unat aml_size"
    and enc: "\<forall>i<length (pkg_encoding n). aml i = pkg_encoding n ! i"
  shows "parse_pkg_length aml aml_size p = Returns () (p\<lparr>pl_encoded_size := of_nat (length (pkg_encoding n)), pl_size := of_nat n,
     pl_aml := pkg_encoding n @ replicate (4 - length (pkg_encoding n)) 0\<rparr>)"
proof -
  let ?c = "pkg_count n"
  have a0: "aml 0 = pkg_encoding n ! 0" using enc by (simp add: length_pkg_encoding)
  have pos: "0 < aml_size" using sz by (simp add: word_less_nat_alt length_pkg_encoding)
  have bytes: "map aml [0..<Suc ?c] = pkg_encoding n"
    using enc by (intro nth_equalityI) (simp_all add: length_pkg_encoding del: upt_Suc)
  show ?thesis
  proof (cases "n < 64")
    case True
    then have "aml 0 = of_nat n" "?c = 0" using a0 by (simp_all add: pkg_encoding_def pkg_count_def)
    moreover have "unat (of_nat n :: u8) = n" using True by (simp add: unat_of_nat)
    moreover have "of_nat n \<le> (63 :: u8)" using True \<open>unat (of_nat n :: u8) = n\<close> by (simp add: word_le_nat_alt)
    moreover have "(ucast (of_nat n :: u8) :: u64) = of_nat n" using \<open>unat (of_nat n :: u8) = n\<close> by (simp only: ucast_u8_nat)
    ultimately show ?thesis
      using pos bytes by (simp add: parse_pkg_length_def seq_def bind_def CHECK_def ret_def modify_def Let_def
          length_pkg_encoding MAX_PKG_LENGTH_ENCODED_SIZE_def)
  next
    case False
    then have c: "?c \<in> {1, 2, 3}" "n div 16 < 256 ^ ?c" using pkg_count_value n by auto
    have lead: "aml 0 = of_nat (64 * ?c + n mod 16)" using a0 False by (simp add: pkg_encoding_def)
    have r16: "n mod 16 < 16" by simp
    have b: "unat (aml 0) = 64 * ?c + n mod 16" "aml 0 AND 0b110000 = 0" "aml 0 AND 0b1111 = of_nat (n mod 16)"
      "drop_bit 6 (aml 0 AND 0b11000000) = of_nat ?c"
      unfolding lead by (rule lead_byte [OF c(1) r16])+
    have c8: "unat (of_nat ?c :: u8) = ?c" using c(1) by auto
    have c64: "(ucast (of_nat ?c :: u8) :: u64) = of_nat ?c" using c8 by (simp only: ucast_u8_nat)
    have digit: "unat (aml (i + 1)) = n div 16 div 256 ^ i mod 256" if "i < ?c" for i
      using enc that False by (simp add: length_pkg_encoding pkg_encoding_def unat_of_nat)
    then have "following_value aml ?c = n div 16" using following_value_digits [of ?c aml "n div 16"] c(2) by simp
    moreover have r: "unat (ucast (of_nat (n mod 16) :: u8) :: u64) = n mod 16" by (simp add: unat_ucast_up unat_of_nat)
    ultimately have v: "unat (parse_following aml [0..<?c] (ucast (of_nat (n mod 16) :: u8))) = n"
      using parse_following_value [of "ucast (of_nat (n mod 16) :: u8)" ?c aml] c(1) by auto
    then have "parse_following aml [0..<?c] (ucast (of_nat (n mod 16) :: u8)) = of_nat n" by (metis of_nat_unat ucast_id)
    moreover have "\<not> aml 0 \<le> 63" using b(1) c(1) unfolding word_le_nat_alt by auto
    moreover have "of_nat ?c \<le> (3 :: u8)" "(of_nat ?c :: u64) \<le> aml_size"
      using c(1) sz by (auto simp: word_le_nat_alt length_pkg_encoding)
    moreover have "unat (1 + of_nat ?c :: u64) = Suc ?c" using c(1) by auto
    moreover have w1: "of_nat ?c + (1 :: u64) = 1 + of_nat ?c" by (rule add.commute)
    ultimately show ?thesis
      using pos bytes b c8 c64 by (simp add: parse_pkg_length_def seq_def bind_def CHECK_def ret_def modify_def Let_def
          length_pkg_encoding MAX_PKG_LENGTH_ENCODED_SIZE_def w1 del: upt_Suc)
  qed
qed

section \<open>Building\<close>

text \<open>The bytes that the loop writes behind the lead byte, for a number with \<open>c\<close> such bytes.\<close>

lemma drop_bit_8_nat: "(drop_bit 8 (of_nat m) :: u64) = of_nat (m div 256)" if "m < 2 ^ 64"
proof -
  have "m div 256 < 2 ^ 64" using that by (meson div_le_dividend le_less_trans)
  then show ?thesis using that by (simp add: word_unat_eq_iff drop_bit_eq_div unat_div unat_of_nat_small)
qed

lemma low_byte: "(ucast ((of_nat m :: u64) AND 0xff) :: u8) = of_nat (m mod 256)"
proof -
  have "(of_nat m :: u64) AND 0xff = take_bit 8 (of_nat m)" by (simp add: take_bit_eq_mask mask_eq_exp_minus_1)
  moreover have "(of_nat (m mod 256) :: u8) = take_bit 8 (of_nat m)" using take_bit_of_nat [of 8 m, where ?'a = u8] by (simp add: take_bit_eq_mod)
  ultimately show ?thesis by (intro bit_word_eqI) (simp add: bit_simps)
qed

lemma build_following_steps:
  assumes "m < 256 ^ c" and "c = 0 \<or> 256 ^ (c - 1) \<le> m" and "b + c \<le> 4" and "b + c \<le> length (pl_aml p)"
  shows "build_following (of_nat m) b p = Returns (0, b + c) (p\<lparr>pl_aml :=
     take b (pl_aml p) @ map (\<lambda>i. of_nat (m div 256 ^ i mod 256)) [0..<c] @ drop (b + c) (pl_aml p)\<rparr>)"
  using assms
proof (induction c arbitrary: m b p)
  case 0
  then show ?case by (subst build_following.simps) (simp add: ret_def id_take_nth_drop)
next
  case (Suc c)
  have "(256 :: nat) ^ Suc c \<le> 256 ^ 4" using Suc.prems(3) by (intro power_increasing) auto
  then have m: "m < 2 ^ 64" using Suc.prems(1) by simp
  have "256 ^ c \<le> m" using Suc.prems(2) by simp
  moreover have "0 < (256 :: nat) ^ c" by simp
  ultimately have "0 < m" by linarith
  then have nz: "(of_nat m :: u64) \<noteq> 0" using m unat_of_nat_small [of m] by auto
  define q where "q = p\<lparr>pl_aml := (pl_aml p)[b := of_nat (m mod 256)]\<rparr>"
  have IH: "build_following (of_nat (m div 256)) (b + 1) q = Returns (0, b + 1 + c) (q\<lparr>pl_aml :=
      take (b + 1) (pl_aml q) @ map (\<lambda>i. of_nat (m div 256 div 256 ^ i mod 256)) [0..<c] @ drop (b + 1 + c) (pl_aml q)\<rparr>)"
  proof (rule Suc.IH)
    show "m div 256 < 256 ^ c" using Suc.prems(1) by (simp add: less_mult_imp_div_less mult.commute)
    show "c = 0 \<or> 256 ^ (c - 1) \<le> m div 256"
    proof (cases c)
      case (Suc d)
      then have "256 * 256 ^ d \<le> m" using Suc.prems by simp
      then have "256 * 256 ^ d div 256 \<le> m div 256" by (rule div_le_mono)
      then show ?thesis using Suc by simp
    qed simp
  qed (use Suc.prems in \<open>simp_all add: q_def\<close>)
  have "build_following (of_nat m) b p = build_following (drop_bit 8 (of_nat m)) (b + 1) q"
    using nz Suc.prems(3) by (subst build_following.simps)
      (simp add: seq_def bind_def CHECK_def ret_def modify_def MAX_PKG_LENGTH_ENCODED_SIZE_def low_byte q_def)
  also have "\<dots> = Returns (0, b + Suc c) (p\<lparr>pl_aml := take b (pl_aml p) @ map (\<lambda>i. of_nat (m div 256 ^ i mod 256)) [0..<Suc c] @
      drop (b + Suc c) (pl_aml p)\<rparr>)"
    unfolding drop_bit_8_nat [OF m] IH using Suc.prems(4)
    by (simp add: q_def take_Suc_conv_app_nth upt_conv_Cons map_Suc_upt [symmetric] div_mult2_eq del: upt_Suc)
  finally show ?case .
qed

lemma build_long:
  assumes n: "64 \<le> n" "n < 2 ^ 28" and len: "length (pl_aml p) = 4"
  shows "build_pkg_length (of_nat n) p = Returns () (p\<lparr>pl_encoded_size := of_nat (Suc (pkg_count n)), pl_size := 0,
    pl_aml := pkg_encoding (16 * (n div 16)) @ drop (Suc (pkg_count n)) (pl_aml p)\<rparr>)"
proof -
  let ?c = "pkg_count n" and ?m = "n div 16"
  have c: "?c \<in> {1, 2, 3}" "?m < 256 ^ ?c" using pkg_count_value [OF n] by auto
  have low: "256 ^ (?c - 1) \<le> ?m" using n by (auto simp: pkg_count_def)
  have u: "unat (of_nat n :: u64) = n" using n by (simp add: unat_of_nat_small)
  have big: "\<not> of_nat n \<le> (63 :: u64)" "of_nat n \<le> MAX_PKG_LENGTH_SIZE"
    using n u by (simp_all add: word_le_nat_alt MAX_PKG_LENGTH_SIZE_def)
  have d: "(drop_bit 4 (of_nat n) :: u64) = of_nat ?m"
    using n u by (simp add: word_unat_eq_iff drop_bit_eq_div unat_div unat_of_nat_small)
  define q where "q = p\<lparr>pl_aml := (pl_aml p)[0 := ucast ((of_nat n :: u64) AND 0b1111)]\<rparr>"
  have f: "build_following (of_nat ?m) 1 q = Returns (0, 1 + ?c) (q\<lparr>pl_aml :=
     take 1 (pl_aml q) @ map (\<lambda>i. of_nat (?m div 256 ^ i mod 256)) [0..<?c] @ drop (1 + ?c) (pl_aml q)\<rparr>)"
    by (rule build_following_steps) (use c low len in \<open>auto simp: q_def\<close>)
  have lead: "(ucast (push_bit 6 (of_nat ?c :: u64)) :: u8) = of_nat (64 * ?c)" using c(1) by auto
  have cnt: "pkg_count (16 * ?m) = ?c" using n by (auto simp: pkg_count_def)
  have enc: "pkg_encoding (16 * ?m) = of_nat (64 * ?c) # map (\<lambda>i. of_nat (?m div 256 ^ i mod 256)) [0..<?c]"
  proof -
    have "\<not> 16 * (n div 16) < 64" using n by presburger
    then show ?thesis unfolding pkg_encoding_def cnt by simp
  qed
  obtain x xs where x: "pl_aml p = x # xs" using len by (cases "pl_aml p") auto
  show ?thesis
    unfolding build_pkg_length_def enc
    using big f d x lead by (simp add: seq_def bind_def CHECK_def ret_def modify_def q_def)
qed

section \<open>Properties\<close>

text \<open>C28: \<open>parse_pkg_length\<close> decodes what the ACPI specification encodes: on the encoding of any size below
  \<open>2 ^ 28\<close>, with any bytes behind it, it returns the size, the number of bytes it took and these bytes.\<close>

theorem parse_pkg_length_decodes:
  assumes "n < 2 ^ 28" and "length (pkg_encoding n) \<le> unat aml_size" and "\<forall>i<length (pkg_encoding n). aml i = pkg_encoding n ! i"
  shows "\<exists>q. parse_pkg_length aml aml_size p = Returns () q \<and> pl_size q = of_nat n \<and>
    pl_encoded_size q = of_nat (length (pkg_encoding n)) \<and> take (length (pkg_encoding n)) (pl_aml q) = pkg_encoding n"
  unfolding parse_pkg_length_encoding [OF assms] by simp

theorem parse_pkg_length_decodes_witness:
  "\<exists>q. parse_pkg_length (\<lambda>i. if i = 0 then 0x44 else if i = 1 then 6 else 0x5f) 9 \<lparr>pl_size = 0, pl_encoded_size = 0, pl_aml = [0, 0, 0, 0]\<rparr> =
     Returns () q \<and> pl_size q = 100 \<and> pl_encoded_size q = 2"
proof -
  have "pkg_encoding 100 = [0x44, 6]" by (simp add: pkg_encoding_def pkg_count_def)
  then show ?thesis
    using parse_pkg_length_decodes [of 100 9 "\<lambda>i. if i = 0 then 0x44 else if i = 1 then 6 else 0x5f" "\<lparr>pl_size = 0, pl_encoded_size = 0, pl_aml = [0, 0, 0, 0]\<rparr>"]
    by (auto simp: less_Suc_eq)
qed

text \<open>C29: A finding. \<open>build_pkg_length\<close> encodes sizes up to 63 as it should. For larger ones it overwrites the lead
  byte, which holds the low four bits of the size, with the number of following bytes: what it encodes is
  the size rounded down to a multiple of 16, and the size it stores in the structure is 0.\<close>

theorem build_pkg_length_drops_nibble:
  assumes "n < 2 ^ 28" and "length (pl_aml p) = 4"
  shows "\<exists>q. build_pkg_length (of_nat n) p = Returns () q \<and>
    take (unat (pl_encoded_size q)) (pl_aml q) = pkg_encoding (if n < 64 then n else n - n mod 16) \<and>
    pl_size q = (if n < 64 then of_nat n else 0)"
proof (cases "n < 64")
  case True
  then have "unat (of_nat n :: u64) = n" by (simp add: unat_of_nat_small)
  then have "of_nat n \<le> (63 :: u64)" "of_nat n \<le> MAX_PKG_LENGTH_SIZE" "(ucast (of_nat n :: u64) :: u8) = of_nat n"
    using True by (simp_all add: word_le_nat_alt MAX_PKG_LENGTH_SIZE_def word_unat_eq_iff unsigned_ucast_eq take_bit_nat_eq_self unat_of_nat)
  moreover obtain x xs where "pl_aml p = x # xs" using assms(2) by (cases "pl_aml p") auto
  ultimately show ?thesis
    using True by (simp add: build_pkg_length_def seq_def bind_def CHECK_def ret_def modify_def pkg_encoding_def)
next
  case False
  have "pkg_count (16 * (n div 16)) = pkg_count n" using False by (auto simp: pkg_count_def)
  moreover have "unat (of_nat (Suc (pkg_count n)) :: u64) = Suc (pkg_count n)" by (auto simp: pkg_count_def)
  moreover have "n - n mod 16 = 16 * (n div 16)" by (simp add: minus_mod_eq_mult_div)
  ultimately show ?thesis
    using False build_long [of n p] assms by (simp add: length_pkg_encoding del: of_nat_Suc)
qed

theorem build_pkg_length_drops_nibble_witness:
  "\<exists>q. build_pkg_length 100 \<lparr>pl_size = 0, pl_encoded_size = 0, pl_aml = [0, 0, 0, 0]\<rparr> = Returns () q \<and>
     take (unat (pl_encoded_size q)) (pl_aml q) = pkg_encoding 96 \<and> pkg_encoding 96 \<noteq> pkg_encoding 100"
  using build_pkg_length_drops_nibble [of 100 "\<lparr>pl_size = 0, pl_encoded_size = 0, pl_aml = [0, 0, 0, 0]\<rparr>"]
  by (auto simp: pkg_encoding_def pkg_count_def)

end
