(* ===== verification/DsdtPatch.thy ===== *)
theory DsdtPatch
  imports AcpiTables PkgLength
begin

text \<open>
  Patching the DSDT: \<^verbatim>\<open>uefi/acpi/patch/dsdt.c\<close> (a larger copy with AML appended), \<^verbatim>\<open>uefi/acpi/patch/method.c\<close>
  (finding, renaming and hooking a method) and \<^verbatim>\<open>uefi/acpi/hook_pts.c\<close> (the \<open>_PTS\<close> hook that saves the waking
  vector). The hook's AML is made by the build from \<^verbatim>\<open>uefi/acpi/asl/pts_hook.asl\<close> and is a parameter, as is the
  table of offsets into it.
\<close>

section \<open>A larger DSDT\<close>

definition alloc_patched_dsdt :: "'u firmware \<Rightarrow> u64 \<Rightarrow> ('u uefi, u64) cfun" where
  "alloc_patched_dsdt F n =
     bind (call_fw (AllocatePages F AllocateMaxAddress EfiReservedMemoryType (ALIGN_UP n EFI_PAGE_SIZE) 0xffffffff)) (\<lambda>(status, patched_dsdt).
     seq (CHECK (status = EFI_SUCCESS))
    (seq (CHECK (patched_dsdt \<noteq> 0))
         (ret patched_dsdt)))"

definition free_patched_dsdt :: "'u firmware \<Rightarrow> ('u uefi, unit) cfun" where
  "free_patched_dsdt F =
     seq (bind (gets g_is_dsdt_patched) CHECK)
    (bind (gets g_dsdt) (\<lambda>dsdt.
     bind (gets (\<lambda>s. load32 (umem s) (dsdt + hdr_length))) (\<lambda>patched_dsdt_size.
     bind (call_fw (FreePages F dsdt (ALIGN_UP (ucast patched_dsdt_size) EFI_PAGE_SIZE))) (\<lambda>status.
     CHECK (status = EFI_SUCCESS)))))"

definition redirect_dsdt :: "u64 \<Rightarrow> ('u uefi, unit) cfun" where
  "redirect_dsdt new_dsdt =
     bind (gets g_fadt) (\<lambda>fadt.
     seq (CHECK (fadt \<noteq> 0))
    (seq (set_umem (store64 (fadt + fadt_x_dsdt) new_dsdt))
    (seq (set_umem (store32 (fadt + fadt_dsdt) (ucast new_dsdt)))
         (set_umem (fix_table_checksum fadt)))))"

definition append_dsdt :: "'u firmware \<Rightarrow> u8 list \<Rightarrow> ('u uefi, unit) cfun" where
  "append_dsdt F aml =
     bind (gets g_dsdt) (\<lambda>dsdt.
     seq (defined_if (dsdt \<noteq> 0))
    (bind (gets (\<lambda>s. load32 (umem s) (dsdt + hdr_length))) (\<lambda>len.
     let patched_dsdt_size = ucast len + of_nat (length aml) in
     bind (alloc_patched_dsdt F patched_dsdt_size) (\<lambda>patched_dsdt.
     seq (set_umem (memcpy patched_dsdt dsdt (ucast len)))
    (seq (set_umem (store32 (patched_dsdt + hdr_length) (ucast patched_dsdt_size)))
    (seq (bind (gets (\<lambda>s. DSDT_AML_SIZE (umem s) dsdt)) (\<lambda>n. set_umem (\<lambda>m. mem_write m (patched_dsdt + definition_block + n) aml)))
    (seq (set_umem (fix_table_checksum patched_dsdt))
    (seq (redirect_dsdt patched_dsdt)
    (seq (bind (gets g_is_dsdt_patched) (\<lambda>patched. if patched then free_patched_dsdt F else ret ()))
         (modify (\<lambda>s. s\<lparr>g_dsdt := patched_dsdt, g_is_dsdt_patched := True\<rparr>))))))))))) "

section \<open>Methods\<close>

definition AML_ZERO_OP :: u8 where "AML_ZERO_OP = 0"
definition AML_METHOD_OP :: u8 where "AML_METHOD_OP = 0x14"
definition AML_METHOD_NAME_LEN :: u64 where "AML_METHOD_NAME_LEN = 4"

text \<open>
  The scan of \<open>find_method\<close>. Its state are the local variables \<open>method_start\<close> and \<open>pkg_length\<close>; the latter
  is overwritten by every candidate that parses.
\<close>

primrec scan_methods :: "memory \<Rightarrow> u64 \<Rightarrow> u64 \<Rightarrow> u8 list \<Rightarrow> nat list \<Rightarrow> (u64 \<times> acpi_pkg_length, unit) cfun" where
  "scan_methods m aml aml_size name [] = ret ()"
| "scan_methods m aml aml_size name (i # is) =
     (if m (aml + of_nat i) \<noteq> AML_METHOD_OP then scan_methods m aml aml_size name is
      else bind (gets snd) (\<lambda>pl.
        case parse_pkg_length (bytes_at m (aml + of_nat i + 1)) (aml_size - of_nat i - 1) pl of
          Faults f \<Rightarrow> faults f
        | Throws _ pl' \<Rightarrow> seq (modify (apsnd (\<lambda>_. pl'))) (scan_methods m aml aml_size name is)
        | Returns _ pl' \<Rightarrow>
            seq (modify (apsnd (\<lambda>_. pl')))
           (seq (CHECK (of_nat i + 1 + pl_encoded_size pl' + AML_METHOD_NAME_LEN \<le> aml_size))
           (if memcmp (bytes_at m (aml + (of_nat i + 1 + pl_encoded_size pl'))) (ascii name) AML_METHOD_NAME_LEN \<noteq> 0
            then scan_methods m aml aml_size name is
            else bind (gets fst) (\<lambda>method_start.
              seq (CHECK (method_start = - 1))
             (seq (modify (apfst (\<lambda>_. of_nat i))) (scan_methods m aml aml_size name is)))))))"

definition find_method :: "u8 list \<Rightarrow> ('u uefi, u64 \<times> acpi_pkg_length) cfun" where
  "find_method name =
     bind (gets g_dsdt) (\<lambda>dsdt.
     seq (defined_if (dsdt \<noteq> 0))
    (bind (gets umem) (\<lambda>m.
     let aml = dsdt + definition_block; aml_size = DSDT_AML_SIZE m dsdt in
     case scan_methods m aml aml_size name [0..<unat aml_size] (- 1, \<lparr>pl_size = 0, pl_encoded_size = 0, pl_aml = replicate 4 0\<rparr>) of
       Faults f \<Rightarrow> faults f
     | Throws e _ \<Rightarrow> throw e
     | Returns _ (method_start, pkg_length) \<Rightarrow>
         seq (CHECK (method_start \<noteq> - 1)) (ret (method_start, pkg_length)))))"

definition append_method :: "'u firmware \<Rightarrow> u8 list list \<Rightarrow> ('u uefi, unit) cfun" where
  "append_method F parts = for_each parts (append_dsdt F)"

definition rename_method :: "u8 list \<Rightarrow> u8 list \<Rightarrow> ('u uefi, unit) cfun" where
  "rename_method original_name modified_name =
     seq (CHECK (strlen (Suc (length original_name)) (ascii original_name) = Some (unat AML_METHOD_NAME_LEN)))
    (seq (CHECK (strlen (Suc (length modified_name)) (ascii modified_name) = Some (unat AML_METHOD_NAME_LEN)))
    (bind (find_method original_name) (\<lambda>(method_start, method_pkg_length).
     bind (gets g_dsdt) (\<lambda>dsdt.
     let method_name_offset = method_start + 1 + pl_encoded_size method_pkg_length in
     seq (bind (gets umem) (\<lambda>m. CHECK (method_name_offset + AML_METHOD_NAME_LEN \<le> DSDT_AML_SIZE m dsdt)))
    (seq (set_umem (\<lambda>m. mem_write m (dsdt + definition_block + method_name_offset) (take (unat AML_METHOD_NAME_LEN) modified_name)))
         (set_umem (fix_table_checksum dsdt)))))))"

definition hook_method :: "'u firmware \<Rightarrow> u8 list \<Rightarrow> u8 list \<Rightarrow> u8 list list \<Rightarrow> ('u uefi, unit) cfun" where
  "hook_method F name modified_name hook_parts =
     seq (rename_method name modified_name) (append_method F hook_parts)"

section \<open>The hook of the method _PTS\<close>

text \<open>What the build makes: \<open>SSDT__OffsetTable\<close>, the size of \<open>SSDT__Header\<close> and the bytes of \<open>SSDT___PTS\<close>.\<close>

record pts_asl =
  offset_table :: "(u8 list \<times> u64) list"
  sizeof_SSDT__Header :: u64
  SSDT___PTS :: "u8 list"

definition name_PTS :: "u8 list" where "name_PTS = [0x5f, 0x50, 0x54, 0x53]"
definition name_SPTS :: "u8 list" where "name_SPTS = [0x53, 0x50, 0x54, 0x53]"
definition path_PTS_FACS :: "u8 list" where "path_PTS_FACS = [0x5f, 0x50, 0x54, 0x53, 0x2e, 0x46, 0x41, 0x43, 0x53]"

primrec find_reloc_offset :: "pts_asl \<Rightarrow> (u8 list \<times> u64) list \<Rightarrow> u64 \<Rightarrow> u64" where
  "find_reloc_offset A [] off = off"
| "find_reloc_offset A (e # es) off = find_reloc_offset A es
     (if strcmp (Suc (length path_PTS_FACS)) (ascii (fst e)) (ascii path_PTS_FACS) = Some 0
      then snd e - sizeof_SSDT__Header A - of_nat (length (SSDT___PTS A)) else off)"

definition pts_relocate_facs_addr :: "pts_asl \<Rightarrow> ('u uefi, unit) cfun" where
  "pts_relocate_facs_addr A =
     (let facs_addr_reloc_offset = find_reloc_offset A (offset_table A) (- 1) in
      seq (CHECK (facs_addr_reloc_offset \<noteq> - 1))
     (bind (gets pts_facs) (\<lambda>code.
      seq (CHECK (facs_addr_reloc_offset + 4 \<le> of_nat (length code)))
          (modify (\<lambda>s. s\<lparr>pts_facs := take (unat facs_addr_reloc_offset) code @ le_bytes 4 (ucast (g_facs s) :: u32) @
             drop (unat facs_addr_reloc_offset + 4) code\<rparr>)))))"

definition create_or_hook_pts :: "'u firmware \<Rightarrow> pts_asl \<Rightarrow> ('u uefi, unit) cfun" where
  "create_or_hook_pts F A =
     seq (pts_relocate_facs_addr A)
    (bind (succeeds (find_method name_PTS)) (\<lambda>found.
     if found then
       bind (gets pts_facs) (\<lambda>code. hook_method F name_PTS name_SPTS [SSDT___PTS A, code])
     else
       let call_spts_byte_count = unat AML_METHOD_NAME_LEN + 1 in
       seq (bind (gets pts_facs) (\<lambda>code. defined_if (call_spts_byte_count \<le> length code)))
      (seq (modify (\<lambda>s. s\<lparr>pts_facs := take (length (pts_facs s) - call_spts_byte_count) (pts_facs s) @
              replicate call_spts_byte_count AML_ZERO_OP\<rparr>))
           (bind (gets pts_facs) (\<lambda>code. append_method F [SSDT___PTS A, code])))))"

end
