(* ===== verification/CoreLoader.thy ===== *)
theory CoreLoader
  imports HookLoaders DsdtPatch
begin

text \<open>
  The rest of the UEFI application: \<^verbatim>\<open>uefi/core_loader.c\<close> copies core's images to their places,
  \<^verbatim>\<open>uefi/core_header_utils.c\<close> fills core's header, and \<open>efi_main\<close> of \<^verbatim>\<open>uefi/app.c\<close> does it all. The images are
  parameters, from the build.
\<close>

section \<open>Loading core\<close>

definition reserve_memory :: "'u firmware \<Rightarrow> u64 \<Rightarrow> u64 \<Rightarrow> ('u uefi, unit) cfun" where
  "reserve_memory F start n =
     (let pages = ALIGN_UP n EFI_PAGE_SIZE div EFI_PAGE_SIZE in
      bind (call_fw (AllocatePages F AllocateAddress EfiReservedMemoryType pages start)) (\<lambda>(status, _).
      CHECK (status = EFI_SUCCESS)))"

definition load_memory :: "'u firmware \<Rightarrow> u64 \<Rightarrow> u8 list \<Rightarrow> ('u uefi, unit) cfun" where
  "load_memory F addr buf =
     seq (reserve_memory F addr (of_nat (length buf)))
         (set_umem (\<lambda>m. mem_write m addr buf))"

text \<open>
  Core's header in the loaded image. From here on it is an object of its own, \<open>core_hdr\<close>, behind the pointer
  \<open>g_core_header\<close>.
\<close>

definition disk_pci_at :: "memory \<Rightarrow> u64 \<Rightarrow> disk_pci" where
  "disk_pci_at m a = \<lparr>disk_bus = load8 m a, disk_device = load8 m (a + 1), disk_function = load8 m (a + 2),
     disk_bars = map (\<lambda>i. load32 m (a + 4 + 4 * of_nat i)) [0..<6]\<rparr>"

definition core_header_at :: "memory \<Rightarrow> u64 \<Rightarrow> core_header" where
  "core_header_at m a = \<lparr>hdr_magic = load32 m a, hdr_action = load32 m (a + 4), hdr_facs = load64 m (a + 8),
     hdr_rsdp = load64 m (a + 16), hdr_disk_pci = disk_pci_at m (a + 24), ram_areas_size = load32 m (a + 52),
     ram_areas = map (\<lambda>i. \<lparr>area_start = load64 m (a + 56 + 16 * of_nat i), area_size = load64 m (a + 64 + 16 * of_nat i)\<rparr>)
       [0..<MAX_RAM_AREAS]\<rparr>"

definition load_core :: "'u firmware \<Rightarrow> ('u uefi, unit) cfun" where
  "load_core F =
     seq (CHECK (of_nat (length (core_bin F)) \<le> CORE_MAX_PHYS_MEM_SIZE))
    (seq (CHECK (of_nat (length (rm_bin F)) \<le> CORE_MAX_RM_PHYS_MEM_SIZE))
    (seq (CHECK (of_nat (length (pm_bin F)) \<le> CORE_MAX_PM_PHYS_MEM_SIZE))
    (seq (load_memory F CORE_PHYS_ADDR (core_bin F))
    (seq (load_memory F CORE_RM_PHYS_ADDR (rm_bin F))
    (seq (load_memory F CORE_PM_PHYS_ADDR (pm_bin F))
    (seq (modify (\<lambda>s. s\<lparr>core_hdr := core_header_at (umem s) CORE_PHYS_ADDR\<rparr>))
    (seq (bind (gets core_hdr) (\<lambda>h. CHECK (is_core_header_magic_valid (hdr_magic h))))
         (modify (\<lambda>s. s\<lparr>g_core_header_ptr := CORE_PHYS_ADDR\<rparr>)))))))))"

definition free_memory :: "'u firmware \<Rightarrow> u64 \<Rightarrow> u64 \<Rightarrow> ('u uefi, unit) cfun" where
  "free_memory F start n =
     (let pages = ALIGN_UP n EFI_PAGE_SIZE div EFI_PAGE_SIZE in
      bind (call_fw (FreePages F start pages)) (\<lambda>status. CHECK (status = EFI_SUCCESS)))"

definition free_core :: "'u firmware \<Rightarrow> ('u uefi, unit) cfun" where
  "free_core F =
     seq (ignore_error (free_memory F CORE_PHYS_ADDR (of_nat (length (core_bin F)))))
    (seq (ignore_error (free_memory F CORE_RM_PHYS_ADDR (of_nat (length (rm_bin F)))))
         (ignore_error (free_memory F CORE_PM_PHYS_ADDR (of_nat (length (pm_bin F))))))"

section \<open>Filling core's header\<close>

definition upd_hdr :: "(core_header \<Rightarrow> core_header) \<Rightarrow> ('u uefi, unit) cfun" where
  "upd_hdr f = seq (bind (gets (\<lambda>s. g_core_header_ptr s \<noteq> 0)) defined_if) (modify (\<lambda>s. s\<lparr>core_hdr := f (core_hdr s)\<rparr>))"

definition fill_rsdp :: "('u uefi, unit) cfun" where
  "fill_rsdp = bind (gets g_rsdp) (\<lambda>p. upd_hdr (\<lambda>h. h\<lparr>hdr_rsdp := p\<rparr>))"

definition fill_facs :: "('u uefi, unit) cfun" where
  "fill_facs = bind (gets g_facs) (\<lambda>p. upd_hdr (\<lambda>h. h\<lparr>hdr_facs := p\<rparr>))"

definition DISK_PCI_VENDOR_ID :: u16 where "DISK_PCI_VENDOR_ID = 0x1AF4"
definition DISK_PCI_DEVICE_ID :: u16 where "DISK_PCI_DEVICE_ID = 0x1001"

definition g_disk_pci_id :: pci_dev_id where
  "g_disk_pci_id = \<lparr>id_vendor = DISK_PCI_VENDOR_ID, id_device = DISK_PCI_DEVICE_ID\<rparr>"

definition fill_bar :: "'u firmware \<Rightarrow> pci_dev \<Rightarrow> nat \<Rightarrow> ('u uefi, unit) cfun" where
  "fill_bar F d i =
     bind (on_fw (pci_get_bar (pci_hw F) d (of_nat i))) (\<lambda>b.
     upd_hdr (\<lambda>h. h\<lparr>hdr_disk_pci := (hdr_disk_pci h)\<lparr>disk_bars := (disk_bars (hdr_disk_pci h))[i := ucast (bar_addr b)]\<rparr>\<rparr>))"

definition fill_disk_pci :: "'u firmware \<Rightarrow> ('u uefi, unit) cfun" where
  "fill_disk_pci F =
     bind (on_fw (lookup_pci_dev (pci_hw F) g_disk_pci_id)) (\<lambda>d.
     seq (upd_hdr (\<lambda>h. h\<lparr>hdr_disk_pci := (hdr_disk_pci h)\<lparr>disk_bus := pa_bus (pd_addr d)\<rparr>\<rparr>))
    (seq (upd_hdr (\<lambda>h. h\<lparr>hdr_disk_pci := (hdr_disk_pci h)\<lparr>disk_device := pa_device (pd_addr d)\<rparr>\<rparr>))
    (seq (upd_hdr (\<lambda>h. h\<lparr>hdr_disk_pci := (hdr_disk_pci h)\<lparr>disk_function := pa_function (pd_addr d)\<rparr>\<rparr>))
         (for_each [0..<6] (fill_bar F d)))))"

definition g_usable_memory_types :: "u32 list" where
  "g_usable_memory_types = [EfiLoaderCode, EfiLoaderData, EfiBootServicesCode, EfiBootServicesData, EfiConventionalMemory,
     EfiACPIReclaimMemory, EfiPersistentMemory, EfiRuntimeServicesCode, EfiRuntimeServicesData]"

definition is_memory_desc_usable :: "efi_memory_descriptor \<Rightarrow> bool" where
  "is_memory_desc_usable d \<longleftrightarrow> list_ex (\<lambda>t. desc_type d = t) g_usable_memory_types"

text \<open>The loop of \<open>insert_desc\<close>: \<open>Some\<close> are the areas after a merge with an area from index \<open>i\<close> on.\<close>

primrec merge_desc :: "u64 \<Rightarrow> u64 \<Rightarrow> u64 \<Rightarrow> nat list \<Rightarrow> mem_area list \<Rightarrow> mem_area list option" where
  "merge_desc start desc_size desc_end [] areas = None"
| "merge_desc start desc_size desc_end (i # is) areas =
     (let a = areas ! i in
      if area_start a = desc_end then Some (areas[i := a\<lparr>area_start := start\<rparr>])
      else if area_start a + area_size a = start then Some (areas[i := a\<lparr>area_size := area_size a + desc_size\<rparr>])
      else merge_desc start desc_size desc_end is areas)"

definition insert_desc :: "efi_memory_descriptor \<Rightarrow> ('u uefi, unit) cfun" where
  "insert_desc d =
     bind (gets core_hdr) (\<lambda>h.
     seq (CHECK (unat (ram_areas_size h) < MAX_RAM_AREAS))
    (let desc_size = number_of_pages d * EFI_PAGE_SIZE;
         desc_end = physical_start d + desc_size
     in case merge_desc (physical_start d) desc_size desc_end [0..<unat (ram_areas_size h)] (ram_areas h) of
          Some areas \<Rightarrow> upd_hdr (\<lambda>h. h\<lparr>ram_areas := areas\<rparr>)
        | None \<Rightarrow>
            upd_hdr (\<lambda>h. h\<lparr>ram_areas := (ram_areas h)[unat (ram_areas_size h) := \<lparr>area_start = physical_start d, area_size = desc_size\<rparr>],
                           ram_areas_size := ram_areas_size h + 1\<rparr>)))"

text \<open>\<open>BS->GetMemoryMap\<close>: the hook if it is in place.\<close>

definition bs_get_memory_map :: "'u firmware \<Rightarrow> u64 \<Rightarrow> u64 \<Rightarrow> ('u uefi, memory_map) cfun" where
  "bs_get_memory_map F n buf =
     bind (gets (\<lambda>s. is_loaded (loaded_get_memory_map s) \<and> bs_GetMemoryMap s = hook_entry (loaded_get_memory_map s))) (\<lambda>hooked.
     if hooked then get_memory_map_hook F n buf
     else bind (gets bs_GetMemoryMap) (\<lambda>p. call_fw (GetMemoryMap F p n buf)))"

text \<open>
  The number of descriptors that lie inside of the map. With a descriptor size of 0 the loop would not end;
  it stays on the first descriptor.
\<close>

definition insert_usable :: "memory_map \<Rightarrow> ('u uefi, unit) cfun" where
  "insert_usable mm =
     (if map_desc_size mm = 0 then faults Out_Of_Fuel
      else let n = unat (map_size mm div map_desc_size mm) in
        seq (defined_if (n \<le> length (map_descs mm)))
            (for_each (take n (map_descs mm)) (\<lambda>d. if is_memory_desc_usable d then insert_desc d else ret ())))"

definition fill_ram_areas :: "'u firmware \<Rightarrow> ('u uefi, unit) cfun" where
  "fill_ram_areas F =
     bind (bs_get_memory_map F 0 0) (\<lambda>mm0.
     seq (CHECK (map_status mm0 = EFI_BUFFER_TOO_SMALL))
    (let memory_map_size = map_size mm0 + EFI_PAGE_SIZE in
     bind (call_fw (AllocatePool F memory_map_size)) (\<lambda>buf.
     seq (CHECK (buf \<noteq> 0))
    (let free = modify (\<lambda>s. s\<lparr>fw := FreePool F buf (fw s)\<rparr>) in
     seq (on_error
       (bind (bs_get_memory_map F memory_map_size buf) (\<lambda>mm.
        seq (CHECK (map_status mm = EFI_SUCCESS))
            (insert_usable mm))) free)
       free))))"

definition fill_core_header :: "'u firmware \<Rightarrow> ('u uefi, unit) cfun" where
  "fill_core_header F =
     seq fill_rsdp
    (seq fill_facs
    (seq (fill_disk_pci F)
         (fill_ram_areas F)))"

section \<open>The application\<close>

definition efi_main :: "'u firmware \<Rightarrow> pts_asl \<Rightarrow> u64 \<Rightarrow> ('u uefi, efi_status) cfun" where
  "efi_main F A obj_addr =
     bind (succeeds (
       seq (load_core F)
      (seq (find_acpi_tables F)
      (seq (hook_services F)
      (seq (create_or_hook_pts F A)
           (fill_core_header F)))))) (\<lambda>ok.
     if ok then ret EFI_SUCCESS
     else seq (unhook_services F obj_addr) (ret EFI_LOAD_ERROR))"

end
