(* ===== verification/HookProps.thy ===== *)
theory HookProps
  imports HookLoaders
begin

text \<open>
  What the hooks do: the commands, the waking vector through a suspend, the runtime attribute of the memory map,
  and the same behaviour before and after \<open>SetVirtualAddressMap\<close>.
\<close>

section \<open>Literals and GUIDs\<close>

lemma str_stop_sym: "str_stop n s1 s2 i = str_stop n s2 s1 i"
  by (induction n arbitrary: i) auto

lemma wstrcmp_literal:
  assumes "0 \<notin> set lit"
  shows "\<exists>r. wstrcmp (Suc (length lit)) s (cstr lit) = Some r \<and> (r = 0 \<longleftrightarrow> same_string s (cstr lit) (length lit))"
proof -
  obtain r where "wstrcmp (Suc (length lit)) (cstr lit) s = Some r" "r = 0 \<longleftrightarrow> same_string (cstr lit) s (length lit)"
    using wstrcmp_correct [OF terminated_cstr [OF assms], of "Suc (length lit)" s] by auto
  moreover obtain j where "str_stop (Suc (length lit)) (cstr lit) s 0 = Some j"
    using calculation(1) by (auto simp: wstrcmp_def)
  ultimately have "wstrcmp (Suc (length lit)) s (cstr lit) = Some (- r)"
    by (auto simp: wstrcmp_def str_stop_sym [of _ s])
  moreover have "same_string s (cstr lit) n \<longleftrightarrow> same_string (cstr lit) s n" for n by (auto simp: same_string_def)
  ultimately show ?thesis using \<open>r = 0 \<longleftrightarrow> _\<close> by simp
qed

definition is_literal :: "u16 cstring \<Rightarrow> u16 list \<Rightarrow> bool" where
  "is_literal s lit \<longleftrightarrow> same_string s (cstr lit) (length lit)"

lemma equals_literal_ret: "0 \<notin> set lit \<Longrightarrow> equals_literal s lit = ret (is_literal s lit)"
  using wstrcmp_literal [of lit s] by (auto simp: equals_literal_def is_literal_def)

lemma literals_terminated: "0 \<notin> set SET_CORE_ACTION" "0 \<notin> set WINDOWS_SLEEP_CHECKPOINT_VARIABLE_NAME"
  by (simp_all add: SET_CORE_ACTION_def WINDOWS_SLEEP_CHECKPOINT_VARIABLE_NAME_def)

lemmas equals_literals = literals_terminated [THEN equals_literal_ret]

lemma length_guid_bytes: "length (data4 g) = 8 \<Longrightarrow> length (guid_bytes g) = 16"
  by (simp add: guid_bytes_def)

lemma commands_guid_bytes: "is_commands_guid (guid_bytes EFI_COMMANDS_GUID)"
  by (simp add: is_commands_guid_def memcmp_eq_0_iff)

section \<open>A suspend\<close>

text \<open>The fields of the FACS: the waking vector, and the reserved one in which the vector of the operating system is saved.\<close>

abbreviation facs_wv :: "'u uefi \<Rightarrow> u64" where "facs_wv s \<equiv> g_facs s + facs_firmware_waking_vector"
abbreviation facs_saved :: "'u uefi \<Rightarrow> u64" where "facs_saved s \<equiv> g_facs s + facs_rsvd1_field"

definition hook_points_to_facs :: "'u uefi \<Rightarrow> bool" where
  "hook_points_to_facs s \<longleftrightarrow> vmap s (waking_vector_addr (sv_header s)) = facs_wv s \<and>
     vmap s (original_waking_vector_addr (sv_header s)) = facs_saved s"

text \<open>
  The \<open>_PTS\<close> method of \<^verbatim>\<open>uefi/acpi/asl/pts_hook.asl\<close>: save the vector, then put core's entry there. The renamed method of the firmware
  that it calls at its end is not code of the repository.
\<close>

definition pts_hook :: "'u uefi \<Rightarrow> 'u uefi" where
  "pts_hook s =
     (let s1 = s\<lparr>umem := store32 (facs_saved s) (load32 (umem s) (facs_wv s)) (umem s)\<rparr>
      in s1\<lparr>umem := store32 (facs_wv s) (ucast CORE_RM_PHYS_ADDR) (umem s1)\<rparr>)"

text \<open>
  What happens on the way to a suspend, in any order: the operating system sets its waking vector, calls \<open>SetVariable\<close>
  with any arguments, evaluates \<open>_PTS\<close>.
\<close>

datatype sleep_event = Set_Vector u32 | Set_Variable "u16 cstring" "u8 list" u32 "u8 list" | Pts

primrec run_event :: "'u firmware \<Rightarrow> sleep_event \<Rightarrow> ('u uefi, unit) cfun" where
  "run_event F (Set_Vector v) = modify (\<lambda>s. s\<lparr>umem := store32 (facs_wv s) v (umem s)\<rparr>)"
| "run_event F (Set_Variable name guid attrs data) = bind (set_variable_hook F name guid attrs data) (\<lambda>_. ret ())"
| "run_event F Pts = modify pts_hook"

definition sleep_events :: "'u firmware \<Rightarrow> sleep_event list \<Rightarrow> ('u uefi, unit) cfun" where
  "sleep_events F evs = for_each evs (run_event F)"

lemma facs_fields_apart: "apart (f + facs_rsvd1_field) 4 (f + facs_firmware_waking_vector) 4"
proof -
  have "\<not> (unat (x - (f + 40)) < 4 \<and> unat (x - (f + 12)) < 4)" for x
  proof
    assume a: "unat (x - (f + 40)) < 4 \<and> unat (x - (f + 12)) < 4"
    then obtain i where i: "i < 4" "x = f + 40 + of_nat i" using region_cases [of x "f + 40" 4] by (auto simp: mem_region_iff)
    then have "x - (f + 12) = of_nat (28 + i)" by simp
    then have "unat (x - (f + 12)) = 28 + i" using i(1) unat_of_nat_small [of "28 + i"] by (simp only:) simp
    with a show False by simp
  qed
  then show ?thesis by (auto simp: apart_def region_def layout_simps)
qed

lemma core_entry: "ucast (ucast CORE_WAKEUP_PHYS_ADDR :: u32) = CORE_WAKEUP_PHYS_ADDR" "CORE_RM_PHYS_ADDR = CORE_WAKEUP_PHYS_ADDR"
  by (simp_all add: consts_defs)

text \<open>The replacement of the vector, by \<open>SetVariable\<close> or by \<open>_PTS\<close>, and the hook as an equation, when its header is in order.\<close>

definition replace_vector :: "'u uefi \<Rightarrow> memory" where
  "replace_vector s = store32 (facs_wv s) (ucast CORE_WAKEUP_PHYS_ADDR)
     (store32 (facs_saved s) (load32 (umem s) (facs_wv s)) (umem s))"

definition hook_ready :: "'u uefi \<Rightarrow> bool" where
  "hook_ready s \<longleftrightarrow> hook_points_to_facs s \<and> vmap s (sv_core_header (sv_header s)) = g_core_header_ptr s"

definition valid_action_data :: "u8 list \<Rightarrow> bool" where
  "valid_action_data data \<longleftrightarrow> length data = 4 \<and> is_core_header_action_valid (of_le data)"

lemma set_variable_hook_command:
  assumes "hook_ready s" and "is_commands_guid guid"
  shows "set_variable_hook F name guid attrs data s =
    (if data = [] \<or> \<not> is_literal name SET_CORE_ACTION then Returns EFI_SUCCESS s
     else if valid_action_data data then Returns EFI_SUCCESS (s\<lparr>core_hdr := (core_hdr s)\<lparr>hdr_action := of_le data\<rparr>\<rparr>)
     else Returns (EFIERR 1) s)"
  using assms
  by (simp add: set_variable_hook_def handle_command_def set_core_action_handler_def equals_literals valid_action_data_def
      hook_ready_def ret_def bind_def succeeds_def seq_def CHECK_def throw_def gets_def modify_def defined_if_def Let_def)

lemma set_variable_hook_variable:
  assumes "hook_ready s" and "\<not> is_commands_guid guid"
  shows "set_variable_hook F name guid attrs data s =
    (let r = SetVariable F (vmap s (original_set_variable (sv_header s))) name guid attrs data (fw s) in
     Returns (fst r) (s\<lparr>umem := (if is_literal name WINDOWS_SLEEP_CHECKPOINT_VARIABLE_NAME \<and>
        ucast (load32 (umem s) (facs_wv s)) \<noteq> CORE_WAKEUP_PHYS_ADDR then replace_vector s else umem s), fw := snd r\<rparr>))"
  using assms
  by (simp add: set_variable_hook_def equals_literals hook_ready_def hook_points_to_facs_def replace_vector_def Let_def
      ret_def bind_def seq_def gets_def set_umem_def modify_def call_fw_def stateful_def split: prod.splits)

text \<open>
  The abstract state of the vector: in the FACS, or saved in the reserved field with core's entry in the FACS, or lost,
  with core's entry in both.
\<close>

datatype vector_state = In_Facs u32 | Saved u32 | Lost

definition vector_state :: "'u uefi \<Rightarrow> vector_state" where
  "vector_state s = (let v = load32 (umem s) (facs_wv s); w = load32 (umem s) (facs_saved s) in
     if ucast v \<noteq> CORE_WAKEUP_PHYS_ADDR then In_Facs v else if ucast w \<noteq> CORE_WAKEUP_PHYS_ADDR then Saved w else Lost)"

primrec is_checkpoint :: "sleep_event \<Rightarrow> bool" where
  "is_checkpoint (Set_Vector v) = False"
| "is_checkpoint (Set_Variable name guid attrs data) =
     (\<not> is_commands_guid guid \<and> is_literal name WINDOWS_SLEEP_CHECKPOINT_VARIABLE_NAME)"
| "is_checkpoint Pts = False"

fun vector_step :: "vector_state \<Rightarrow> sleep_event \<Rightarrow> vector_state" where
  "vector_step x (Set_Vector v) = In_Facs v"
| "vector_step (In_Facs v) Pts = Saved v"
| "vector_step (Saved v) Pts = Lost"
| "vector_step Lost Pts = Lost"
| "vector_step (In_Facs v) (Set_Variable name guid attrs data) =
     (if is_checkpoint (Set_Variable name guid attrs data) then Saved v else In_Facs v)"
| "vector_step x (Set_Variable name guid attrs data) = x"

definition set_by_os :: "sleep_event \<Rightarrow> bool" where
  "set_by_os e \<longleftrightarrow> (\<forall>v. e = Set_Vector v \<longrightarrow> ucast v \<noteq> CORE_WAKEUP_PHYS_ADDR)"

lemma vector_state_cases:
  "vector_state s = In_Facs v \<longleftrightarrow> load32 (umem s) (facs_wv s) = v \<and> ucast v \<noteq> CORE_WAKEUP_PHYS_ADDR"
  "vector_state s = Saved w \<longleftrightarrow> ucast (load32 (umem s) (facs_wv s)) = CORE_WAKEUP_PHYS_ADDR \<and>
     load32 (umem s) (facs_saved s) = w \<and> ucast w \<noteq> CORE_WAKEUP_PHYS_ADDR"
  "vector_state s = Lost \<longleftrightarrow> ucast (load32 (umem s) (facs_wv s)) = CORE_WAKEUP_PHYS_ADDR \<and>
     ucast (load32 (umem s) (facs_saved s)) = CORE_WAKEUP_PHYS_ADDR"
  by (auto simp: vector_state_def Let_def)

lemma vector_state_replaced:
  assumes "umem t = replace_vector s" and "g_facs t = g_facs s"
  shows "vector_state t = vector_step (vector_state s) Pts"
proof -
  have "load32 (umem t) (facs_wv t) = ucast CORE_WAKEUP_PHYS_ADDR" "load32 (umem t) (facs_saved t) = load32 (umem s) (facs_wv s)"
    by (simp_all add: assms replace_vector_def load_store_apart(1) facs_fields_apart)
  then show ?thesis by (auto simp: vector_state_def Let_def core_entry)
qed

lemma vector_state_same:
  "umem t = umem s \<Longrightarrow> g_facs t = g_facs s \<Longrightarrow> vector_state t = vector_state s"
  by (simp add: vector_state_def)

lemma sleep_event_refines:
  assumes "hook_ready s" and "set_by_os e"
  shows "wp (run_event F e) (\<lambda>_ t. hook_ready t \<and> g_facs t = g_facs s \<and> vector_state t = vector_step (vector_state s) e) (\<lambda>_. False) s"
proof (cases e)
  case (Set_Vector v)
  then show ?thesis
    using assms by (simp add: wp_simps hook_ready_def hook_points_to_facs_def vector_state_cases set_by_os_def)
next
  case Pts
  have "umem (pts_hook s) = replace_vector s" "g_facs (pts_hook s) = g_facs s"
    by (simp_all add: pts_hook_def replace_vector_def Let_def core_entry)
  with Pts show ?thesis
    using assms(1) vector_state_replaced [of "pts_hook s" s]
    by (simp add: wp_simps hook_ready_def hook_points_to_facs_def) (simp add: pts_hook_def Let_def)
next
  case (Set_Variable name guid attrs data)
  show ?thesis
  proof (cases "is_commands_guid guid")
    case True
    then have "vector_step (vector_state s) e = vector_state s" by (cases "vector_state s") (simp_all add: Set_Variable)
    with True show ?thesis
      using assms(1)
      by (auto simp: Set_Variable wp_def bind_def ret_def set_variable_hook_command hook_ready_def hook_points_to_facs_def vector_state_def)
  next
    case False
    define t where "t = s\<lparr>umem := (if is_literal name WINDOWS_SLEEP_CHECKPOINT_VARIABLE_NAME \<and>
        ucast (load32 (umem s) (facs_wv s)) \<noteq> CORE_WAKEUP_PHYS_ADDR then replace_vector s else umem s),
        fw := snd (SetVariable F (vmap s (original_set_variable (sv_header s))) name guid attrs data (fw s))\<rparr>"
    have t: "g_facs t = g_facs s" "hook_ready t"
      using assms(1) by (simp_all add: t_def hook_ready_def hook_points_to_facs_def)
    have "vector_state t = vector_step (vector_state s) e"
    proof (cases "vector_state s")
      case (In_Facs v)
      then have v: "ucast (load32 (umem s) (facs_wv s)) \<noteq> CORE_WAKEUP_PHYS_ADDR" by (auto simp: vector_state_cases)
      then have "umem t = (if is_checkpoint e then replace_vector s else umem s)" using False by (simp add: t_def Set_Variable)
      with In_Facs t(1) vector_state_replaced [of t s] vector_state_same [of t s] show ?thesis
        by (auto simp: Set_Variable)
    next
      case (Saved v)
      then have "umem t = umem s" by (simp add: t_def vector_state_cases)
      with Saved t(1) vector_state_same [of t s] show ?thesis by (simp add: Set_Variable)
    next
      case Lost
      then have "umem t = umem s" by (simp add: t_def vector_state_cases)
      with Lost t(1) vector_state_same [of t s] show ?thesis by (simp add: Set_Variable)
    qed
    with t show ?thesis
      by (simp add: Set_Variable wp_def bind_def ret_def set_variable_hook_variable [OF assms(1) False] Let_def flip: t_def)
  qed
qed

lemma sleep_events_refine:
  assumes "hook_ready s" and "\<forall>e \<in> set evs. set_by_os e"
  shows "wp (sleep_events F evs) (\<lambda>_ t. hook_ready t \<and> g_facs t = g_facs s \<and> vector_state t = foldl vector_step (vector_state s) evs)
    (\<lambda>_. False) s"
  using assms unfolding sleep_events_def
proof (induction evs arbitrary: s)
  case Nil
  then show ?case by (simp add: wp_simps)
next
  case (Cons e evs)
  show ?case
    unfolding for_each.simps wp_seq
    by (rule wp_mono [OF sleep_event_refines])
      (use Cons in \<open>auto intro: wp_mono [OF Cons.IH]\<close>)
qed

text \<open>What becomes of a vector: it is lost by a \<open>_PTS\<close> behind anything that has put core's entry in its place already.\<close>

definition replaces :: "sleep_event \<Rightarrow> bool" where
  "replaces e \<longleftrightarrow> e = Pts \<or> is_checkpoint e"

definition pts_again :: "sleep_event list \<Rightarrow> bool" where
  "pts_again evs \<longleftrightarrow> (\<exists>xs ys. evs = xs @ Pts # ys \<and> (\<exists>e \<in> set xs. replaces e))"

lemma pts_again_Cons: "pts_again (e # evs) \<longleftrightarrow> (if replaces e then Pts \<in> set evs else pts_again evs)"
proof -
  have "pts_again (e # evs) \<longleftrightarrow> (\<exists>xs ys. evs = xs @ Pts # ys \<and> (replaces e \<or> (\<exists>x \<in> set xs. replaces x)))"
  proof
    assume "pts_again (e # evs)"
    then obtain xs ys where xs: "e # evs = xs @ Pts # ys" "\<exists>x \<in> set xs. replaces x" by (auto simp: pts_again_def)
    then show "\<exists>xs ys. evs = xs @ Pts # ys \<and> (replaces e \<or> (\<exists>x \<in> set xs. replaces x))" by (cases xs) auto
  next
    assume "\<exists>xs ys. evs = xs @ Pts # ys \<and> (replaces e \<or> (\<exists>x \<in> set xs. replaces x))"
    then obtain xs ys where "e # evs = (e # xs) @ Pts # ys" "\<exists>x \<in> set (e # xs). replaces x" by auto
    then show "pts_again (e # evs)" unfolding pts_again_def by blast
  qed
  then show ?thesis by (auto simp: pts_again_def in_set_conv_decomp [of Pts])
qed

lemma vector_steps:
  assumes "\<forall>v. Set_Vector v \<notin> set evs"
  shows "foldl vector_step Lost evs = Lost"
    and "foldl vector_step (Saved v) evs = (if Pts \<in> set evs then Lost else Saved v)"
    and "foldl vector_step (In_Facs v) evs = (if pts_again evs then Lost else if \<exists>e \<in> set evs. replaces e then Saved v else In_Facs v)"
proof -
  have lost: "foldl vector_step Lost evs = Lost" if "\<forall>v. Set_Vector v \<notin> set evs" for evs
    using that
  proof (induction evs)
    case (Cons e evs)
    then show ?case by (cases e) auto
  qed simp
  then show "foldl vector_step Lost evs = Lost" using assms .
  have saved: "foldl vector_step (Saved v) evs = (if Pts \<in> set evs then Lost else Saved v)" if "\<forall>v. Set_Vector v \<notin> set evs" for evs
    using that
  proof (induction evs)
    case (Cons e evs)
    then show ?case using lost by (cases e) auto
  qed simp
  then show "foldl vector_step (Saved v) evs = (if Pts \<in> set evs then Lost else Saved v)" using assms .
  show "foldl vector_step (In_Facs v) evs = (if pts_again evs then Lost else if \<exists>e \<in> set evs. replaces e then Saved v else In_Facs v)"
    using assms
  proof (induction evs)
    case Nil
    then show ?case by (simp add: pts_again_def)
  next
    case (Cons e evs)
    then show ?case using saved by (cases e) (auto simp: pts_again_Cons replaces_def)
  qed
qed

section \<open>Runtime areas\<close>

lemma contains_runtime_area_iff:
  "contains_runtime_area as st en \<longleftrightarrow> (\<exists>a \<in> set (takeWhile (\<lambda>a. area_size a \<noteq> 0) as). is_mem_area_contained_in_range a st en)"
  by (induction as) auto

text \<open>The bytes a descriptor covers; it does not run over the end of the address space.\<close>

definition desc_bytes :: "efi_memory_descriptor \<Rightarrow> u64 set" where
  "desc_bytes d = {x. unat (physical_start d) \<le> unat x \<and> unat x < unat (physical_start d) + unat (number_of_pages d) * 4096}"

definition desc_fits :: "efi_memory_descriptor \<Rightarrow> bool" where
  "desc_fits d \<longleftrightarrow> unat (physical_start d) + unat (number_of_pages d) * 4096 < 2 ^ 64"

lemma desc_end:
  assumes "desc_fits d"
  shows "unat (physical_start d + number_of_pages d * EFI_PAGE_SIZE) = unat (physical_start d) + unat (number_of_pages d) * 4096"
proof -
  have "unat (number_of_pages d * EFI_PAGE_SIZE) = unat (number_of_pages d) * 4096"
    using assms by (simp add: unat_word_ariths desc_fits_def EFI_PAGE_SIZE_def)
  then show ?thesis using assms by (simp add: unat_word_ariths desc_fits_def)
qed

lemma contained_if_covered:
  assumes "desc_fits d" and "area_fits a" and "area_size a \<noteq> 0" and "area_region a \<subseteq> desc_bytes d"
  shows "is_mem_area_contained_in_range a (physical_start d) (physical_start d + number_of_pages d * EFI_PAGE_SIZE)"
proof -
  have n: "0 < unat (area_size a)" using assms(3) by (simp add: unat_gt_0)
  have small: "unat (area_size a) \<le> 2 ^ 64" using unsigned_less [of "area_size a", where ?'a = nat] by simp
  have "area_start a + of_nat i \<in> desc_bytes d" if "i < unat (area_size a)" for i
    using assms(4) region_offset [OF that small] by (auto simp: area_region_def)
  from this [OF n] this [of "unat (area_size a) - 1"] n
  have "area_start a \<in> desc_bytes d" "area_start a + of_nat (unat (area_size a) - 1) \<in> desc_bytes d" by auto
  moreover have "unat (area_start a + of_nat (unat (area_size a) - 1)) = unat (area_start a) + (unat (area_size a) - 1)"
    using assms(2) n by (subst unat_offset) (simp_all add: area_fits_def)
  ultimately show ?thesis
    using n by (auto simp: contained_in_range_iff [OF assms(2)] desc_end [OF assms(1)] desc_bytes_def word_le_nat_alt)
qed

lemma contained_iff_covered:
  assumes "desc_fits d" and "area_fits a" and "area_size a \<noteq> 0"
  shows "is_mem_area_contained_in_range a (physical_start d) (physical_start d + number_of_pages d * EFI_PAGE_SIZE) \<longleftrightarrow>
    area_region a \<subseteq> desc_bytes d"
proof
  assume c: "is_mem_area_contained_in_range a (physical_start d) (physical_start d + number_of_pages d * EFI_PAGE_SIZE)"
  show "area_region a \<subseteq> desc_bytes d"
    using contained_in_range_region [OF assms(2) c]
    by (auto simp: desc_bytes_def desc_end [OF assms(1)] word_le_nat_alt word_less_nat_alt)
qed (rule contained_if_covered [OF assms])

text \<open>The areas the loader puts in the header of the hook.\<close>

definition hooked_areas :: "'u uefi \<Rightarrow> mem_area list" where
  "hooked_areas s = [\<lparr>area_start = facs_wv s, area_size = 4\<rparr>, \<lparr>area_start = g_core_header_ptr s, area_size = sizeof_core_header\<rparr>]"

lemma mark_runtime_hooked:
  assumes "desc_fits d" and "\<forall>a \<in> set (hooked_areas s). area_fits a"
    and "as = hooked_areas s @ replicate 30 \<lparr>area_start = 0, area_size = 0\<rparr>"
  shows "mark_runtime as d = (if \<exists>a \<in> set (hooked_areas s). area_region a \<subseteq> desc_bytes d
    then d\<lparr>attribute := attribute d OR EFI_MEMORY_RUNTIME\<rparr> else d)"
proof -
  have "set (takeWhile (\<lambda>a. area_size a \<noteq> 0) as) = set (hooked_areas s)"
    by (simp add: assms(3) hooked_areas_def sizeof_core_header_def)
  moreover have "area_size a \<noteq> 0" if "a \<in> set (hooked_areas s)" for a
    using that by (auto simp: hooked_areas_def sizeof_core_header_def)
  ultimately have "contains_runtime_area as (physical_start d) (physical_start d + number_of_pages d * EFI_PAGE_SIZE) \<longleftrightarrow>
      (\<exists>a \<in> set (hooked_areas s). area_region a \<subseteq> desc_bytes d)"
    unfolding contains_runtime_area_iff using contained_iff_covered [OF assms(1)] assms(2) by auto
  then show ?thesis by (simp add: mark_runtime_def Let_def)
qed

section \<open>Virtual addresses\<close>

text \<open>The entries the loader puts in the header of the event, and their firmware's documented conversion.\<close>

definition header_entries :: "u64 \<Rightarrow> (hook_field \<times> u64) option list" where
  "header_entries h = map (\<lambda>f. Some (f, h + field_offset f))
     [Original_Set_Variable, Waking_Vector_Addr, Original_Waking_Vector_Addr, Core_Header_Field] @ replicate 28 None"

definition converts :: "'u firmware \<Rightarrow> u64 \<Rightarrow> (u64 \<Rightarrow> u64) \<Rightarrow> bool" where
  "converts F f V \<longleftrightarrow> (\<forall>a u. ConvertPointer F f a u = ((EFI_SUCCESS, V a), u))"

definition converted_header :: "(u64 \<Rightarrow> u64) \<Rightarrow> set_variable_hook_header \<Rightarrow> set_variable_hook_header" where
  "converted_header V h = \<lparr>original_set_variable = V (original_set_variable h), waking_vector_addr = V (waking_vector_addr h),
     original_waking_vector_addr = V (original_waking_vector_addr h), sv_core_header = V (sv_core_header h)\<rparr>"

lemma converted_header_update: "converted_header V h = h\<lparr>original_set_variable := V (original_set_variable h),
    waking_vector_addr := V (waking_vector_addr h), original_waking_vector_addr := V (original_waking_vector_addr h),
    sv_core_header := V (sv_core_header h)\<rparr>"
  by (cases h) (simp add: converted_header_def)

lemma upt_32: "[0..<32] = 0 # 1 # 2 # 3 # 4 # [5..<32]"
  by (simp add: upt_rec)

lemma convert_run:
  assumes "converts F (convert_pointer (vame_header s)) V"
  shows "convert F a s = Returns (V a) s"
  using assms by (simp add: convert_def converts_def bind_def gets_def call_fw_def stateful_def seq_def CHECK_def ret_def)

lemma bind_convert:
  "converts F (convert_pointer (vame_header s)) V \<Longrightarrow> bind (convert F a) m s = m (V a) s"
  by (simp add: bind_def convert_run)

lemma bind_gets: "bind (gets f) m s = m (f s) s"
  by (simp add: bind_def gets_def)

lemma seq_modify: "seq (modify f) m s = m (f s)"
  by (simp add: seq_def bind_def modify_def)

lemma virtual_address_map_event_run:
  assumes "converts F (convert_pointer (vame_header s)) V" and "ptrs_to_fix (vame_header s) = header_entries h"
  shows "\<exists>e. virtual_address_map_event F s = Returns () (s\<lparr>sv_header := converted_header V (sv_header s), vame_header := e\<rparr>)"
proof -
  have "\<exists>e. fix_ptrs F [0..<32] s = Returns () (s\<lparr>sv_header := converted_header V (sv_header s), vame_header := e\<rparr>) \<and>
    convert_pointer e = convert_pointer (vame_header s)"
    using assms
    by (simp add: upt_32 bind_gets bind_convert seq_modify header_entries_def converted_header_update ret_def numeral_eq_Suc)
      (rule exI, rule conjI, rule refl, simp)
  then show ?thesis
    using assms by (auto simp: virtual_address_map_event_def ignore_error_def seq_def bind_def gets_def convert_run modify_def)
qed

section \<open>An example\<close>

text \<open>A firmware that hands out pages one after the other, and a state with the hooks in place.\<close>

definition example_fw :: "u64 firmware" where
  "example_fw = \<lparr>AllocatePages = (\<lambda>t ty n a u. if t = AllocateAddress then ((EFI_SUCCESS, a), u) else ((EFI_SUCCESS, u), u + n * EFI_PAGE_SIZE)),
     FreePages = (\<lambda>a n u. (EFI_SUCCESS, u)), AllocatePool = (\<lambda>n u. (u, u + n)), FreePool = (\<lambda>p u. u),
     GetMemoryMap = (\<lambda>f n buf u. (\<lparr>map_status = (if n = 0 then EFI_BUFFER_TOO_SMALL else EFI_SUCCESS), map_size = 96, map_desc_size = 48,
       map_descs = [\<lparr>desc_type = EfiConventionalMemory, physical_start = 0x100000, virtual_start = 0, number_of_pages = 16, attribute = 15\<rparr>,
         \<lparr>desc_type = EfiReservedMemoryType, physical_start = 0x5000, virtual_start = 0, number_of_pages = 1, attribute = 15\<rparr>]\<rparr>, u)),
     SetVariable = (\<lambda>f name guid attrs data u. (EFI_SUCCESS, u)), InstallConfigurationTable = (\<lambda>f guid p u. u),
     CreateEventEx = (\<lambda>f guid u. ((EFI_SUCCESS, 0x77), u)), CloseEvent = (\<lambda>p u. u),
     ConvertPointer = (\<lambda>f a u. ((EFI_SUCCESS, a + 0xffff800000000000), u)), SetCrc = id, configuration_tables = None,
     pci_hw = \<lparr>port_in = (\<lambda>w p d. (0, d)), port_out = (\<lambda>w p v d. d), mmio_in = (\<lambda>w a d. (0, d)), mmio_out = (\<lambda>w a v d. d)\<rparr>,
     core_bin = [], rm_bin = [], pm_bin = [], set_variable_bin = [], get_memory_map_bin = [], virtual_address_map_event_bin = []\<rparr>"

definition hooked_uefi :: "u64 uefi" where
  "hooked_uefi = (example_uefi 0)\<lparr>umem := (\<lambda>_. 0), g_facs := 0x5000, g_core_header_ptr := 0x41000000,
     sv_header := \<lparr>original_set_variable = 0x300, waking_vector_addr = 0x500c, original_waking_vector_addr = 0x5028, sv_core_header = 0x41000000\<rparr>,
     gmm_header := \<lparr>original_get_memory_map = 0x100, install_configuration_table = 0x200,
       runtime_areas = [\<lparr>area_start = 0x500c, area_size = 4\<rparr>, \<lparr>area_start = 0x41000000, area_size = 1080\<rparr>] @
         replicate 30 \<lparr>area_start = 0, area_size = 0\<rparr>\<rparr>,
     vame_header := \<lparr>convert_pointer = 0x400, ptrs_to_fix = header_entries 0x8000\<rparr>\<rparr>"

lemma hooked_uefi_ready: "hook_ready hooked_uefi" "vmap hooked_uefi = id"
proof -
  have f: "g_facs hooked_uefi = 0x5000" "vmap hooked_uefi = id" "g_core_header_ptr hooked_uefi = 0x41000000" "umem hooked_uefi = (\<lambda>_. 0)"
    "sv_header hooked_uefi = \<lparr>original_set_variable = 0x300, waking_vector_addr = 0x500c, original_waking_vector_addr = 0x5028, sv_core_header = 0x41000000\<rparr>"
    by (simp_all add: hooked_uefi_def example_uefi_def)
  show "hook_ready hooked_uefi" "vmap hooked_uefi = id" by (simp_all add: hook_ready_def hook_points_to_facs_def f layout_simps)
qed

section \<open>Properties\<close>

text \<open>C10: A call of \<open>SetVariable\<close> with the GUID of the commands never reaches the firmware and changes at most the action
  in core's header: it is set to the four bytes of data when the command is \<open>SET_CORE_ACTION\<close> and they are a valid
  action, else the call fails; an empty update and an unknown command succeed without effect.\<close>

theorem set_variable_command:
  assumes "hook_ready s"
  shows "set_variable_hook F name (guid_bytes EFI_COMMANDS_GUID) attrs data s =
    (if data = [] \<or> \<not> is_literal name SET_CORE_ACTION then Returns EFI_SUCCESS s
     else if length data = 4 \<and> of_le data \<in> {CORE_ACTION_NOOP, CORE_ACTION_STORE, CORE_ACTION_SWITCH}
     then Returns EFI_SUCCESS (s\<lparr>core_hdr := (core_hdr s)\<lparr>hdr_action := of_le data\<rparr>\<rparr>)
     else Returns (EFIERR 1) s)"
  using set_variable_hook_command [OF assms, of "guid_bytes EFI_COMMANDS_GUID"] commands_guid_bytes
  by (simp only: valid_action_data_def action_valid_iff)

theorem set_variable_command_witness:
  "set_variable_hook example_fw (cstr SET_CORE_ACTION) (guid_bytes EFI_COMMANDS_GUID) 0 [1, 0, 0, 0] hooked_uefi =
    Returns EFI_SUCCESS (hooked_uefi\<lparr>core_hdr := (core_hdr hooked_uefi)\<lparr>hdr_action := CORE_ACTION_STORE\<rparr>\<rparr>)"
  using set_variable_command [OF hooked_uefi_ready(1), of example_fw "cstr SET_CORE_ACTION" 0 "[1, 0, 0, 0]"]
  by (simp add: is_literal_def same_string_def core_action_defs)

text \<open>C7: What becomes of the waking vector \<open>v\<close> that the operating system set last, whatever it did before, through any
  sequence of \<open>SetVariable\<close> calls and evaluations of \<open>_PTS\<close> after it: as long as nothing replaces it, it stays in the
  FACS; the first \<open>_PTS\<close> or write of the checkpoint variable puts core's entry there and saves it where
  \<open>find_original_waking_vector\<close> of core looks for it, and no later \<open>SetVariable\<close> changes that. It is lost exactly when
  \<open>_PTS\<close> is evaluated behind a \<open>_PTS\<close> or a write of the checkpoint variable: then core's own entry is in both
  fields. No call fails on the way.\<close>

theorem waking_vector_through_suspend:
  assumes "hook_ready s" and "\<forall>w. Set_Vector w \<in> set pre \<or> w = v \<longrightarrow> ucast w \<noteq> CORE_WAKEUP_PHYS_ADDR"
    and "\<forall>w. Set_Vector w \<notin> set evs"
  shows "\<exists>t. sleep_events F (pre @ Set_Vector v # evs) s = Returns () t \<and>
    (let facs = load32 (umem t) (g_facs s + 12); saved = load32 (umem t) (g_facs s + 40) in
     if \<exists>xs ys. evs = xs @ Pts # ys \<and> (\<exists>e \<in> set xs. e = Pts \<or> is_checkpoint e)
     then ucast facs = CORE_WAKEUP_PHYS_ADDR \<and> ucast saved = CORE_WAKEUP_PHYS_ADDR
     else if \<exists>e \<in> set evs. e = Pts \<or> is_checkpoint e then ucast facs = CORE_WAKEUP_PHYS_ADDR \<and> saved = v
     else facs = v)"
proof -
  have "\<forall>e \<in> set (pre @ Set_Vector v # evs). set_by_os e" using assms(2,3) by (auto simp: set_by_os_def)
  from sleep_events_refine [OF assms(1) this, of F]
  obtain t where t: "sleep_events F (pre @ Set_Vector v # evs) s = Returns () t" "g_facs t = g_facs s"
    "vector_state t = foldl vector_step (In_Facs v) evs" by (auto simp: wp_returns_iff)
  from t(2,3) show ?thesis
    unfolding vector_steps(3) [OF assms(3)] replaces_def pts_again_def
    by (intro exI [of _ t] conjI t(1)) (auto simp: Let_def vector_state_cases layout_simps split: if_splits)
qed

theorem waking_vector_through_suspend_witness:
  "\<exists>t u. sleep_events example_fw [Pts, Set_Vector 0x9a000, Pts] hooked_uefi = Returns () t \<and> load32 (umem t) 0x5028 = 0x9a000 \<and>
    sleep_events example_fw [Set_Vector 0x9a000, Pts, Pts] hooked_uefi = Returns () u \<and> ucast (load32 (umem u) 0x5028) = CORE_WAKEUP_PHYS_ADDR"
proof -
  have f: "g_facs hooked_uefi = 0x5000" by (simp add: hooked_uefi_def)
  have one: "\<not> (\<exists>xs ys. [Pts] = xs @ Pts # ys \<and> (\<exists>e \<in> set xs. e = Pts \<or> is_checkpoint e))"
    by (auto simp: Cons_eq_append_conv)
  have two: "\<exists>xs ys. [Pts, Pts] = xs @ Pts # ys \<and> (\<exists>e \<in> set xs. e = Pts \<or> is_checkpoint e)"
    by (intro exI [of _ "[Pts]"] exI [of _ "[]"]) simp
  have v: "ucast (0x9a000 :: u32) \<noteq> CORE_WAKEUP_PHYS_ADDR" by (simp add: consts_defs)
  have "\<exists>t. sleep_events example_fw ([Pts] @ Set_Vector 0x9a000 # [Pts]) hooked_uefi = Returns () t \<and> load32 (umem t) 0x5028 = 0x9a000"
    using waking_vector_through_suspend [OF hooked_uefi_ready(1), of "[Pts]" "0x9a000" "[Pts]" example_fw] one v
    by (auto simp: f Let_def)
  moreover have "\<exists>t. sleep_events example_fw ([] @ Set_Vector 0x9a000 # [Pts, Pts]) hooked_uefi = Returns () t \<and>
      ucast (load32 (umem t) 0x5028) = CORE_WAKEUP_PHYS_ADDR"
    using waking_vector_through_suspend [OF hooked_uefi_ready(1), of "[]" "0x9a000" "[Pts, Pts]" example_fw] two v
    by (auto simp: f Let_def)
  ultimately show ?thesis by simp
qed

text \<open>C12: The hooked \<open>GetMemoryMap\<close> returns the firmware's status and map; in it, when the firmware succeeds, exactly the
  descriptors that cover the waking vector in the FACS or core's header, which the \<open>SetVariable\<close> hook needs at run
  time, have the attribute \<open>EFI_MEMORY_RUNTIME\<close> added. Every other descriptor, every other field of these, the rest
  of what the firmware returned and, but for the firmware's table of memory attributes, which is deleted, the state
  are unchanged.\<close>

theorem get_memory_map_marks_runtime:
  assumes "runtime_areas (gmm_header s) = hooked_areas s @ replicate 30 \<lparr>area_start = 0, area_size = 0\<rparr>"
    and "GetMemoryMap F (original_get_memory_map (gmm_header s)) n buf (fw s) = (mm, u)"
    and "map_desc_size mm \<noteq> 0" and "length (map_descs mm) = unat (map_size mm div map_desc_size mm)"
    and "\<forall>d \<in> set (map_descs mm). desc_fits d" and "\<forall>a \<in> set (hooked_areas s). area_fits a"
  shows "\<exists>ds. get_memory_map_hook F n buf s = Returns (mm\<lparr>map_descs := ds\<rparr>)
      (s\<lparr>fw := InstallConfigurationTable F (install_configuration_table (gmm_header s)) (guid_bytes EFI_MEMORY_ATTRIBUTES_TABLE_GUID) 0 u\<rparr>) \<and>
    length ds = length (map_descs mm) \<and>
    (\<forall>i < length ds. let d = map_descs mm ! i in ds ! i =
      (if map_status mm = EFI_SUCCESS \<and>
         (\<exists>a \<in> {\<lparr>area_start = g_facs s + 12, area_size = 4\<rparr>, \<lparr>area_start = g_core_header_ptr s, area_size = sizeof_core_header\<rparr>}.
            area_region a \<subseteq> {x. unat (physical_start d) \<le> unat x \<and> unat x < unat (physical_start d) + unat (number_of_pages d) * 4096})
       then d\<lparr>attribute := attribute d OR EFI_MEMORY_RUNTIME\<rparr> else d))"
proof -
  let ?as = "runtime_areas (gmm_header s)"
  let ?ds = "if map_status mm = EFI_SUCCESS then map (mark_runtime ?as) (map_descs mm) else map_descs mm"
  have "get_memory_map_hook F n buf s = Returns (mm\<lparr>map_descs := ?ds\<rparr>)
      (s\<lparr>fw := InstallConfigurationTable F (install_configuration_table (gmm_header s)) (guid_bytes EFI_MEMORY_ATTRIBUTES_TABLE_GUID) 0 u\<rparr>)"
    using assms(2,3,4)
    by (auto simp: get_memory_map_hook_def bind_def seq_def gets_def ret_def call_fw_def stateful_def defined_if_def Let_def split: prod.splits)
  moreover have "set (hooked_areas s) = {\<lparr>area_start = g_facs s + 12, area_size = 4\<rparr>, \<lparr>area_start = g_core_header_ptr s, area_size = sizeof_core_header\<rparr>}"
    by (simp add: hooked_areas_def layout_simps)
  ultimately show ?thesis
    using mark_runtime_hooked [OF _ assms(6,1)] assms(5)
    by (intro exI [of _ ?ds]) (simp add: Let_def flip: desc_bytes_def)
qed

theorem get_memory_map_marks_runtime_witness:
  "\<exists>mm t. get_memory_map_hook example_fw 96 0x9000 hooked_uefi = Returns mm t \<and> attribute (map_descs mm ! 0) = 15 \<and>
    attribute (map_descs mm ! 1) = 15 OR EFI_MEMORY_RUNTIME"
proof -
  define mm where "mm = fst (GetMemoryMap example_fw 0x100 96 0x9000 0)"
  have mm: "map_status mm = EFI_SUCCESS" "map_desc_size mm = 48" "map_size mm = 96" "length (map_descs mm) = 2"
    "map_descs mm ! 1 = \<lparr>desc_type = EfiReservedMemoryType, physical_start = 0x5000, virtual_start = 0, number_of_pages = 1, attribute = 15\<rparr>"
    "\<forall>d \<in> set (map_descs mm). desc_fits d"
    by (simp_all add: mm_def example_fw_def desc_fits_def)
  have s: "runtime_areas (gmm_header hooked_uefi) = hooked_areas hooked_uefi @ replicate 30 \<lparr>area_start = 0, area_size = 0\<rparr>"
    "original_get_memory_map (gmm_header hooked_uefi) = 0x100" "fw hooked_uefi = 0"
    by (simp_all add: hooked_uefi_def example_uefi_def hooked_areas_def layout_simps sizeof_core_header_def)
  let ?a = "\<lparr>area_start = 0x500c, area_size = 4\<rparr> :: mem_area"
  have a: "?a \<in> set (hooked_areas hooked_uefi)" "\<forall>a \<in> set (hooked_areas hooked_uefi). area_fits a"
    by (simp_all add: hooked_uefi_def hooked_areas_def layout_simps area_fits_def sizeof_core_header_def)
  have cover: "area_region ?a \<subseteq> desc_bytes (map_descs mm ! 1)"
  proof
    fix x
    assume "x \<in> area_region ?a"
    then obtain i where "i < 4" "x = 0x500c + of_nat i" using region_cases [of x "0x500c" 4] by (auto simp: area_region_def)
    then show "x \<in> desc_bytes (map_descs mm ! 1)" using unat_offset [of "0x500c" i] by (simp only: mm(5) desc_bytes_def) simp
  qed
  have n: "length (map_descs mm) = unat (map_size mm div map_desc_size mm)" by (simp add: mm unat_div)
  have get: "GetMemoryMap example_fw (original_get_memory_map (gmm_header hooked_uefi)) 96 0x9000 (fw hooked_uefi) = (mm, 0)"
    by (simp add: s mm_def) (simp add: example_fw_def)
  obtain ds t where r: "get_memory_map_hook example_fw 96 0x9000 hooked_uefi = Returns (mm\<lparr>map_descs := ds\<rparr>) t" "length ds = 2"
    "\<forall>i < length ds. let d = map_descs mm ! i in ds ! i =
      (if map_status mm = EFI_SUCCESS \<and> (\<exists>a \<in> set (hooked_areas hooked_uefi). area_region a \<subseteq> desc_bytes d)
       then d\<lparr>attribute := attribute d OR EFI_MEMORY_RUNTIME\<rparr> else d)"
    using get_memory_map_marks_runtime [OF s(1) get _ n mm(6) a(2)] mm(2,4)
    by (auto simp: hooked_areas_def desc_bytes_def layout_simps)
  have "attribute (ds ! 1) = 15 OR EFI_MEMORY_RUNTIME" using r(2,3) mm(1,5) a(1) cover by (auto simp: Let_def)
  moreover have "\<not> area_region b \<subseteq> desc_bytes (map_descs mm ! 0)" if b: "b \<in> set (hooked_areas hooked_uefi)" for b
  proof -
    have "area_start b \<in> area_region b" using b by (auto simp: hooked_areas_def area_region_def region_def sizeof_core_header_def)
    moreover have "area_start b \<notin> desc_bytes (map_descs mm ! 0)"
      using b by (auto simp: mm_def example_fw_def hooked_areas_def hooked_uefi_def desc_bytes_def layout_simps)
    ultimately show ?thesis by blast
  qed
  then have "ds ! 0 = map_descs mm ! 0" using r(2,3) by (auto simp: Let_def)
  ultimately have "attribute (ds ! 0) = 15" "attribute (ds ! 1) = 15 OR EFI_MEMORY_RUNTIME" by (simp_all add: mm_def example_fw_def)
  with r(1) show ?thesis by auto
qed

text \<open>C13: After \<open>SetVirtualAddressMap\<close> the \<open>SetVariable\<close> hook does through virtual addresses what it did before through
  physical ones: with the pointers converted by the event and the operating system's mapping in force, any call has the same
  status and the same effect on memory, core's header and the firmware.\<close>

theorem set_variable_same_when_virtual:
  assumes "hook_ready s" and "vmap s = id"
    and "converts F (convert_pointer (vame_header s)) V" and "ptrs_to_fix (vame_header s) = header_entries h"
    and "\<forall>a \<in> {original_set_variable (sv_header s), waking_vector_addr (sv_header s), original_waking_vector_addr (sv_header s),
      sv_core_header (sv_header s)}. W (V a) = a"
  shows "\<exists>e. virtual_address_map_event F s = Returns () (s\<lparr>sv_header := converted_header V (sv_header s), vame_header := e\<rparr>) \<and>
    (\<exists>status t. set_variable_hook F name guid attrs data s = Returns status t \<and>
      set_variable_hook F name guid attrs data (s\<lparr>sv_header := converted_header V (sv_header s), vame_header := e, vmap := W\<rparr>) =
        Returns status (t\<lparr>sv_header := converted_header V (sv_header s), vame_header := e, vmap := W\<rparr>))"
proof -
  obtain e where e: "virtual_address_map_event F s = Returns () (s\<lparr>sv_header := converted_header V (sv_header s), vame_header := e\<rparr>)"
    using virtual_address_map_event_run [OF assms(3,4)] by blast
  let ?v = "s\<lparr>sv_header := converted_header V (sv_header s), vame_header := e, vmap := W\<rparr>"
  have ready: "hook_ready ?v"
    using assms(1,2,5) by (simp add: hook_ready_def hook_points_to_facs_def converted_header_def)
  have "\<exists>status t. set_variable_hook F name guid attrs data s = Returns status t \<and>
      set_variable_hook F name guid attrs data ?v =
        Returns status (t\<lparr>sv_header := converted_header V (sv_header s), vame_header := e, vmap := W\<rparr>)"
  proof (cases "is_commands_guid guid")
    case True
    then show ?thesis
      using set_variable_hook_command [OF assms(1)] set_variable_hook_command [OF ready] by (auto split: if_splits)
  next
    case False
    then show ?thesis
      using assms(2,5) set_variable_hook_variable [OF assms(1) False] set_variable_hook_variable [OF ready False]
      by (simp add: Let_def converted_header_def replace_vector_def)
  qed
  with e show ?thesis by blast
qed

theorem set_variable_same_when_virtual_witness:
  "\<exists>e status t. virtual_address_map_event example_fw hooked_uefi =
      Returns () (hooked_uefi\<lparr>sv_header := converted_header (\<lambda>a. a + 0xffff800000000000) (sv_header hooked_uefi), vame_header := e\<rparr>) \<and>
    set_variable_hook example_fw (cstr WINDOWS_SLEEP_CHECKPOINT_VARIABLE_NAME) [] 0 [] hooked_uefi = Returns status t"
proof -
  have "converts example_fw (convert_pointer (vame_header hooked_uefi)) (\<lambda>a. a + 0xffff800000000000)"
    "ptrs_to_fix (vame_header hooked_uefi) = header_entries 0x8000"
    by (simp_all add: converts_def example_fw_def hooked_uefi_def)
  note same = set_variable_same_when_virtual [OF hooked_uefi_ready(1,2) this, where W = "\<lambda>a. a - 0xffff800000000000"
      and name = "cstr WINDOWS_SLEEP_CHECKPOINT_VARIABLE_NAME" and guid = "[]" and attrs = 0 and data = "[]"]
  have "\<forall>a \<in> X. a + 0xffff800000000000 - 0xffff800000000000 = (a :: u64)" for X by simp
  from same [OF this] show ?thesis by blast
qed

end
