(* ===== verification/UefiProps.thy ===== *)
theory UefiProps
  imports CoreLoader HookProps Frames
begin

text \<open>
  What \<open>efi_main\<close> leaves behind: on success the hooks are in the service tables, their headers point to the FACS
  and to core's header, and core's header names the tables; on a failure of any step the service tables are as they were.
\<close>

section \<open>The state of the hooks\<close>

definition hook_state where
  "hook_state s = (loaded_set_variable s, loaded_get_memory_map s, loaded_virtual_address_map_event s, sv_header s, gmm_header s,
     g_original_set_variable s, g_original_get_memory_map s, rt_SetVariable s, bs_GetMemoryMap s, vmap s)"

lemma hook_state_upd [simp]:
  "hook_state (s\<lparr>g_core_header_ptr := p\<rparr>) = hook_state s"
  "hook_state (s\<lparr>umem := m\<rparr>) = hook_state s" "hook_state (s\<lparr>fw := u\<rparr>) = hook_state s" "hook_state (s\<lparr>core_hdr := h\<rparr>) = hook_state s"
  "hook_state (s\<lparr>g_rsdp := p\<rparr>) = hook_state s" "hook_state (s\<lparr>g_rxsdt := p\<rparr>) = hook_state s" "hook_state (s\<lparr>g_fadt := p\<rparr>) = hook_state s"
  "hook_state (s\<lparr>g_facs := p\<rparr>) = hook_state s" "hook_state (s\<lparr>g_dsdt := p\<rparr>) = hook_state s"
  "hook_state (s\<lparr>g_dsdt := p, g_is_dsdt_patched := b\<rparr>) = hook_state s" "hook_state (s\<lparr>pts_facs := c\<rparr>) = hook_state s"
  by (simp_all add: hook_state_def)

lemma wlp_succeeds [wlp_simps]: "wlp (succeeds m) Q E s = wlp m (\<lambda>_. Q True) (Q False) s"
  by (simp add: wlp_def succeeds_def split: outcome.splits)

lemma maintains_succeeds: "maintains I m \<Longrightarrow> maintains I (succeeds m)"
  by (simp add: maintains_def wlp_succeeds)

text \<open>An invariant that no step breaks which changes memory, the firmware or the patched DSDT.\<close>

definition frame_inv :: "('u uefi \<Rightarrow> bool) \<Rightarrow> bool" where
  "frame_inv I \<longleftrightarrow> (\<forall>s m. I s \<longrightarrow> I (s\<lparr>umem := m\<rparr>)) \<and> (\<forall>s u. I s \<longrightarrow> I (s\<lparr>fw := u\<rparr>)) \<and>
     (\<forall>s p. I s \<longrightarrow> I (s\<lparr>g_dsdt := p, g_is_dsdt_patched := True\<rparr>)) \<and> (\<forall>s c. I s \<longrightarrow> I (s\<lparr>pts_facs := c\<rparr>))"

lemma frame_invD:
  assumes "frame_inv I" and "I s"
  shows "I (s\<lparr>umem := m\<rparr>)" "I (s\<lparr>fw := u\<rparr>)" "I (s\<lparr>g_dsdt := p, g_is_dsdt_patched := True\<rparr>)" "I (s\<lparr>pts_facs := c\<rparr>)"
  using assms by (simp_all add: frame_inv_def)

lemma frame_inv_basic:
  assumes "frame_inv I"
  shows "maintains I (set_umem f)" "maintains I (call_fw g)" "maintains I (on_fw m)"
  using assms unfolding set_umem_def call_fw_def on_fw_def
  by (auto simp: maintains_def wlp_simps intro: frame_invD split: prod.splits intro!: wlp_True)

lemma frame_inv_dsdt:
  assumes "frame_inv I"
  shows "maintains I (append_dsdt F aml)"
  unfolding append_dsdt_def alloc_patched_dsdt_def free_patched_dsdt_def redirect_dsdt_def Let_def
  by (intro maintains_intros frame_inv_basic assms) (auto intro: frame_invD [OF assms])

lemma frame_inv_pts:
  assumes "frame_inv I"
  shows "maintains I (create_or_hook_pts F A)"
proof -
  have find: "maintains I (find_method name)" for name
    unfolding find_method_def Let_def by (auto intro!: maintains_intros split: outcome.splits)
  have append: "maintains I (append_method F parts)" for parts
    unfolding append_method_def by (intro maintains_intros frame_inv_dsdt assms)
  show ?thesis
    unfolding create_or_hook_pts_def pts_relocate_facs_addr_def hook_method_def rename_method_def Let_def
    by (intro maintains_intros find append maintains_succeeds frame_inv_basic assms) (auto intro: frame_invD [OF assms])
qed

lemma keeps_tables: "maintains (\<lambda>s. hook_state s = c \<and> core_hdr s = h \<and> g_core_header_ptr s = p) (find_acpi_tables F)"
proof -
  let ?I = "\<lambda>s. hook_state s = c \<and> core_hdr s = h \<and> g_core_header_ptr s = p"
  have scan: "maintains ?I (scan_configuration_tables ts)" for ts
    by (induction ts) (auto intro!: maintains_intros)
  have entries: "maintains ?I (scan_entries n r es eb i)" for n r es eb i
    by (induction n arbitrary: i) (auto simp: Let_def intro!: maintains_intros)
  show ?thesis
    unfolding find_acpi_tables_def find_rsdp_def find_rxsdt_def scan_rxsdt_def find_facs_def find_dsdt_def Let_def
    by (intro maintains_intros scan entries) auto
qed

section \<open>Filling core's header\<close>

text \<open>An invariant that stands a change of the disk's address and of the RAM areas in core's header.\<close>

definition header_inv :: "('u uefi \<Rightarrow> bool) \<Rightarrow> bool" where
  "header_inv I \<longleftrightarrow> frame_inv I \<and> (\<forall>s d. I s \<longrightarrow> I (s\<lparr>core_hdr := (core_hdr s)\<lparr>hdr_disk_pci := d\<rparr>\<rparr>)) \<and>
     (\<forall>s as. I s \<longrightarrow> I (s\<lparr>core_hdr := (core_hdr s)\<lparr>ram_areas := as\<rparr>\<rparr>)) \<and>
     (\<forall>s as n. I s \<longrightarrow> I (s\<lparr>core_hdr := (core_hdr s)\<lparr>ram_areas := as, ram_areas_size := n\<rparr>\<rparr>))"

lemma header_invD:
  assumes "header_inv I"
  shows "frame_inv I" "I s \<Longrightarrow> I (s\<lparr>core_hdr := (core_hdr s)\<lparr>hdr_disk_pci := d\<rparr>\<rparr>)"
    "I s \<Longrightarrow> I (s\<lparr>core_hdr := (core_hdr s)\<lparr>ram_areas := as\<rparr>\<rparr>)"
    "I s \<Longrightarrow> I (s\<lparr>core_hdr := (core_hdr s)\<lparr>ram_areas := as, ram_areas_size := n\<rparr>\<rparr>)"
  using assms by (simp_all add: header_inv_def)

lemma maintains_upd_hdr: "(\<And>s. I s \<Longrightarrow> I (s\<lparr>core_hdr := f (core_hdr s)\<rparr>)) \<Longrightarrow> maintains I (upd_hdr f)"
  unfolding upd_hdr_def by (intro maintains_intros)

lemma header_inv_disk:
  assumes "header_inv I"
  shows "maintains I (fill_disk_pci F)"
  unfolding fill_disk_pci_def fill_bar_def
  by (intro maintains_intros maintains_upd_hdr frame_inv_basic header_invD [OF assms])

lemma header_inv_areas:
  assumes "header_inv I"
  shows "maintains I (fill_ram_areas F)"
proof -
  have insert: "maintains I (insert_desc d)" for d
    unfolding insert_desc_def Let_def by (intro maintains_intros maintains_upd_hdr header_invD [OF assms])
  have hook: "maintains I (get_memory_map_hook F n b)" for n b
    unfolding get_memory_map_hook_def Let_def by (intro maintains_intros frame_inv_basic header_invD(1) [OF assms])
  have usable: "maintains I (insert_usable mm)" for mm
    unfolding insert_usable_def Let_def by (intro maintains_intros insert)
  show ?thesis
    unfolding fill_ram_areas_def bs_get_memory_map_def Let_def
    by (intro maintains_intros hook usable frame_inv_basic header_invD(1) [OF assms] frame_invD(2) [OF header_invD(1) [OF assms]])
qed

section \<open>Restoring the services\<close>

text \<open>What it takes that \<open>unhook_services\<close> brings back the services \<open>o1\<close> and \<open>o2\<close>.\<close>

definition unhookable :: "u64 \<Rightarrow> u64 \<Rightarrow> 'u uefi \<Rightarrow> bool" where
  "unhookable o1 o2 s \<longleftrightarrow> (if is_loaded (loaded_set_variable s) then g_original_set_variable s = o1 else rt_SetVariable s = o1) \<and>
     (if is_loaded (loaded_get_memory_map s) then g_original_get_memory_map s = o2 else bs_GetMemoryMap s = o2)"

definition unhooked :: "u64 \<Rightarrow> u64 \<Rightarrow> 'u uefi \<Rightarrow> bool" where
  "unhooked o1 o2 s \<longleftrightarrow> rt_SetVariable s = o1 \<and> bs_GetMemoryMap s = o2 \<and> \<not> is_loaded (loaded_set_variable s) \<and>
     \<not> is_loaded (loaded_get_memory_map s) \<and> \<not> is_loaded (loaded_virtual_address_map_event s)"

lemma header_inv_unhookable: "header_inv (unhookable o1 o2)"
  by (simp add: header_inv_def frame_inv_def unhookable_def)

lemma wlp_call_fw [wlp_simps]: "wlp (call_fw f) Q E s = Q (fst (f (fw s))) (s\<lparr>fw := snd (f (fw s))\<rparr>)"
  by (simp add: call_fw_def wlp_simps split: prod.splits)

lemma wlp_set_umem [wlp_simps]: "wlp (set_umem f) Q E s = Q () (s\<lparr>umem := f (umem s)\<rparr>)"
  by (simp add: set_umem_def wlp_simps)

lemma wlp_case_prod [wlp_simps]: "wlp (case p of (a, b) \<Rightarrow> f a b) Q E s = wlp (f (fst p) (snd p)) Q E s"
  by (simp split: prod.splits)

lemma wlp_if [wlp_simps]: "wlp (if b then m else n) Q E s = (if b then wlp m Q E s else wlp n Q E s)"
  by simp

lemma unhookable_hooks:
  "maintains (unhookable o1 o2) (hook_set_variable F)" "maintains (unhookable o1 o2) (hook_get_memory_map F)"
  "maintains (unhookable o1 o2) (create_virtual_address_map_event F)"
  by (auto simp: maintains_def hook_set_variable_def hook_get_memory_map_def create_virtual_address_map_event_def load_hook_def set_crc_def
      wlp_simps unhookable_def Let_def)

lemma unhook_services_restores:
  "unhookable o1 o2 s \<Longrightarrow> wlp (unhook_services F p) (\<lambda>_. unhooked o1 o2) (\<lambda>_. False) s"
  by (auto simp: unhook_services_def remove_virtual_address_map_event_def unhook_get_memory_map_def unhook_set_variable_def free_hook_def
      set_crc_def wlp_simps unhookable_def unhooked_def Let_def)

section \<open>The application\<close>

definition installed :: "u64 \<Rightarrow> u64 \<Rightarrow> 'u uefi \<Rightarrow> bool" where
  "installed o1 o2 s \<longleftrightarrow>
     is_loaded (loaded_set_variable s) \<and> is_loaded (loaded_get_memory_map s) \<and> is_loaded (loaded_virtual_address_map_event s) \<and>
     rt_SetVariable s = hook_entry (loaded_set_variable s) \<and> original_set_variable (sv_header s) = o1 \<and>
     bs_GetMemoryMap s = hook_entry (loaded_get_memory_map s) \<and> original_get_memory_map (gmm_header s) = o2 \<and>
     hook_ready s \<and> runtime_areas (gmm_header s) = hooked_areas s @ replicate 30 \<lparr>area_start = 0, area_size = 0\<rparr>"

definition header_filled :: "'u uefi \<Rightarrow> bool" where
  "header_filled s \<longleftrightarrow> hdr_magic (core_hdr s) = CORE_HEADER_MAGIC \<and> hdr_rsdp (core_hdr s) = g_rsdp s \<and> hdr_facs (core_hdr s) = g_facs s"

lemma magic_valid: "is_core_header_magic_valid m \<longleftrightarrow> m = CORE_HEADER_MAGIC"
  by (simp add: is_core_header_magic_valid_def)

lemma load_core_run:
  "hook_state s = c \<Longrightarrow> wlp (load_core F) (\<lambda>_ t. hook_state t = c \<and> hdr_magic (core_hdr t) = CORE_HEADER_MAGIC) (\<lambda>t. hook_state t = c) s"
  by (simp add: load_core_def load_memory_def reserve_memory_def wlp_simps Let_def magic_valid)

lemma hook_services_run:
  assumes "vmap s = id" and "rt_SetVariable s = o1" and "bs_GetMemoryMap s = o2" and "hdr_magic (core_hdr s) = CORE_HEADER_MAGIC"
  shows "wlp (hook_services F) (\<lambda>_ t. installed o1 o2 t \<and> hdr_magic (core_hdr t) = CORE_HEADER_MAGIC) (\<lambda>_. True) s"
  using assms
  by (simp add: hook_services_def hook_set_variable_def hook_get_memory_map_def create_virtual_address_map_event_def load_hook_def set_crc_def
      wlp_simps installed_def hook_ready_def hook_points_to_facs_def hooked_areas_def RUNTIME_AREAS_def Let_def)

lemma header_inv_installed: "header_inv (\<lambda>s. installed o1 o2 s \<and> header_filled s)"
  by (simp add: header_inv_def frame_inv_def installed_def header_filled_def hook_ready_def hook_points_to_facs_def hooked_areas_def)

lemma frame_inv_installed: "frame_inv (\<lambda>s. installed o1 o2 s \<and> hdr_magic (core_hdr s) = CORE_HEADER_MAGIC)"
  by (simp add: frame_inv_def installed_def hook_ready_def hook_points_to_facs_def hooked_areas_def)

lemma fill_core_header_run:
  assumes "installed o1 o2 s" and "hdr_magic (core_hdr s) = CORE_HEADER_MAGIC"
  shows "wlp (fill_core_header F) (\<lambda>_ t. installed o1 o2 t \<and> header_filled t) (\<lambda>_. True) s"
proof -
  let ?I = "\<lambda>s. installed o1 o2 s \<and> header_filled s"
  have "maintains ?I (seq (fill_disk_pci F) (fill_ram_areas F))"
    by (intro maintains_intros header_inv_disk header_inv_areas header_inv_installed)
  then have rest: "wlp (seq (fill_disk_pci F) (fill_ram_areas F)) (\<lambda>_. ?I) (\<lambda>_. True) t" if "?I t" for t
    using that by (auto intro: maintains_wlp [where I = ?I])
  have "wlp (seq fill_rsdp (seq fill_facs m)) Q (\<lambda>_. True) s" if "\<And>t. ?I t \<Longrightarrow> wlp m Q (\<lambda>_. True) t" for m :: "('a uefi, unit) cfun" and Q
    using assms unfolding fill_rsdp_def fill_facs_def upd_hdr_def wlp_simps
    by (auto intro!: that simp: installed_def header_filled_def hook_ready_def hook_points_to_facs_def hooked_areas_def)
  with rest show ?thesis unfolding fill_core_header_def by blast
qed

lemma efi_main_body:
  assumes "vmap s = id" and "rt_SetVariable s = o1" and "bs_GetMemoryMap s = o2"
  shows "wlp (seq (load_core F) (seq (find_acpi_tables F) (seq (hook_services F) (seq (create_or_hook_pts F A) (fill_core_header F)))))
    (\<lambda>_ t. installed o1 o2 t \<and> header_filled t) (\<lambda>_. True) s"
proof -
  let ?I = "\<lambda>t. hook_state t = hook_state s \<and> hdr_magic (core_hdr t) = CORE_HEADER_MAGIC"
  let ?J = "\<lambda>t. installed o1 o2 t \<and> hdr_magic (core_hdr t) = CORE_HEADER_MAGIC"
  have tables: "wlp (find_acpi_tables F) (\<lambda>_. ?I) (\<lambda>_. True) t" if "?I t" for t
    by (rule maintains_wlp [OF keeps_tables, of _ "hook_state s" "core_hdr t" "g_core_header_ptr t"]) (use that in auto)
  have hooks: "wlp (hook_services F) (\<lambda>_. ?J) (\<lambda>_. True) t" if "?I t" for t
    by (rule hook_services_run) (use that assms in \<open>auto simp: hook_state_def\<close>)
  have pts: "wlp (create_or_hook_pts F A) (\<lambda>_. ?J) (\<lambda>_. True) t" if "?J t" for t
    by (rule maintains_wlp [OF frame_inv_pts [OF frame_inv_installed]]) (use that in auto)
  show ?thesis
    by (intro wlp_seqI [OF load_core_run [of s "hook_state s"]] wlp_seqI [OF tables] wlp_seqI [OF hooks] wlp_seqI [OF pts]
        fill_core_header_run) auto
qed

lemma efi_main_unhookable:
  "maintains (unhookable o1 o2) (seq (load_core F) (seq (find_acpi_tables F) (seq (hook_services F) (seq (create_or_hook_pts F A) (fill_core_header F)))))"
proof -
  have tables: "maintains (unhookable o1 o2) (find_acpi_tables F)"
    unfolding maintains_def
  proof (intro allI impI)
    fix s :: "'a uefi"
    assume "unhookable o1 o2 s"
    then show "wlp (find_acpi_tables F) (\<lambda>_. unhookable o1 o2) (unhookable o1 o2) s"
      by (intro maintains_wlp [OF keeps_tables, of s "hook_state s" "core_hdr s" "g_core_header_ptr s"]) (auto simp: unhookable_def hook_state_def)
  qed
  have core: "maintains (unhookable o1 o2) (load_core F)"
    by (simp add: maintains_def load_core_def load_memory_def reserve_memory_def wlp_simps unhookable_def Let_def)
  note inv = header_inv_unhookable [of o1 o2]
  show ?thesis
    unfolding hook_services_def fill_core_header_def fill_rsdp_def fill_facs_def
    by (intro maintains_intros core tables unhookable_hooks frame_inv_pts header_inv_disk header_inv_areas maintains_upd_hdr
        header_invD(1) inv) (auto simp: unhookable_def)
qed

definition example_asl :: pts_asl where
  "example_asl = \<lparr>offset_table = [], sizeof_SSDT__Header = 36, SSDT___PTS = []\<rparr>"

text \<open>C3: \<open>efi_main\<close> installs all or nothing. If it succeeds, both services are hooked, the hooks call the services that were
  there before, their headers point to the FACS and to core's header, and core's header names the tables that were found. If any
  step fails, no hook is loaded any more and the service tables are what they were before the application ran.\<close>

theorem efi_main_all_or_nothing:
  assumes "vmap s = id" and "\<not> is_loaded (loaded_set_variable s)" and "\<not> is_loaded (loaded_get_memory_map s)"
  shows "case efi_main F A p s of
      Returns status t \<Rightarrow>
        if status = EFI_SUCCESS then installed (rt_SetVariable s) (bs_GetMemoryMap s) t \<and> header_filled t
        else status = EFI_LOAD_ERROR \<and> unhooked (rt_SetVariable s) (bs_GetMemoryMap s) t
    | Throws _ _ \<Rightarrow> False
    | Faults _ \<Rightarrow> True"
proof -
  let ?o1 = "rt_SetVariable s" and ?o2 = "bs_GetMemoryMap s"
  let ?Q = "\<lambda>status t. if status = EFI_SUCCESS then installed ?o1 ?o2 t \<and> header_filled t
    else status = EFI_LOAD_ERROR \<and> unhooked ?o1 ?o2 t"
  let ?body = "seq (load_core F) (seq (find_acpi_tables F) (seq (hook_services F) (seq (create_or_hook_pts F A) (fill_core_header F))))"
  have "unhookable ?o1 ?o2 s" using assms by (simp add: unhookable_def)
  then have "wlp ?body (\<lambda>_ t. True) (unhookable ?o1 ?o2) s"
    by (rule maintains_wlp [OF efi_main_unhookable]) simp_all
  then have body: "wlp ?body (\<lambda>_ t. installed ?o1 ?o2 t \<and> header_filled t) (unhookable ?o1 ?o2) s"
    using efi_main_body [OF assms(1) refl refl, of F A] by (simp add: wlp_def split: outcome.splits)
  have "wlp (seq (unhook_services F p) (ret EFI_LOAD_ERROR)) ?Q (\<lambda>_. False) t" if "unhookable ?o1 ?o2 t" for t
    by (rule wlp_seqI [OF unhook_services_restores [OF that]]) (simp_all add: wlp_ret EFI_LOAD_ERROR_def EFI_SUCCESS_def)
  then have "wlp (efi_main F A p) ?Q (\<lambda>_. False) s"
    unfolding efi_main_def wlp_bind wlp_succeeds
    by (intro wlp_mono [OF body]) (simp_all add: wlp_ret)
  then show ?thesis by (simp add: wlp_def split: outcome.splits)
qed

theorem efi_main_all_or_nothing_witness:
  "\<exists>t. efi_main example_fw example_asl 0 (example_uefi 0) = Returns EFI_LOAD_ERROR t \<and> unhooked 0x300 0x100 t"
proof -
  let ?s = "example_uefi (0 :: u64)"
  have "load32 (umem ?s) 0x41000000 \<noteq> CORE_HEADER_MAGIC"
    by (simp add: example_uefi_def example_tables_def load32_def mem_read_def upt_rec consts_defs)
  then have "wp (efi_main example_fw example_asl 0) (\<lambda>status _. status = EFI_LOAD_ERROR) (\<lambda>_. False) ?s"
    by (simp add: efi_main_def load_core_def load_memory_def reserve_memory_def example_fw_def wp_simps Let_def magic_valid unhook_services_def
        remove_virtual_address_map_event_def unhook_get_memory_map_def unhook_set_variable_def example_uefi_def core_header_at_def
        CORE_PHYS_ADDR_def mem_write_def)
  then have "\<exists>t. efi_main example_fw example_asl 0 ?s = Returns EFI_LOAD_ERROR t"
    by (auto simp: wp_returns_iff)
  then show ?thesis
    using efi_main_all_or_nothing [of ?s example_fw example_asl 0] by (auto simp: example_uefi_def EFI_LOAD_ERROR_def EFI_SUCCESS_def)
qed

end
