(* ===== verification/RamAreas.thy ===== *)
theory RamAreas
  imports UefiProps
begin

text \<open>
  The RAM areas that \<open>fill_ram_areas\<close> writes to core's header are what core stores and switches. For a memory map in
  ascending order they cover exactly the usable memory; a descriptor that is put in front of an area loses memory.
\<close>

section \<open>The bytes of the areas\<close>

definition area_bytes :: "mem_area \<Rightarrow> u64 set" where
  "area_bytes a = {x. unat (area_start a) \<le> unat x \<and> unat x < unat (area_start a) + unat (area_size a)}"

abbreviation area_end :: "mem_area \<Rightarrow> nat" where "area_end a \<equiv> unat (area_start a) + unat (area_size a)"
abbreviation desc_end_nat :: "efi_memory_descriptor \<Rightarrow> nat" where
  "desc_end_nat d \<equiv> unat (physical_start d) + unat (number_of_pages d) * 4096"

definition covered :: "core_header \<Rightarrow> u64 set" where
  "covered h = (\<Union>a \<in> set (take (unat (ram_areas_size h)) (ram_areas h)). area_bytes a)"

text \<open>All areas end at \<open>k\<close> at the latest.\<close>

definition areas_below :: "nat \<Rightarrow> core_header \<Rightarrow> bool" where
  "areas_below k h \<longleftrightarrow> unat (ram_areas_size h) \<le> 64 \<and> length (ram_areas h) = 64 \<and>
     (\<forall>i < unat (ram_areas_size h). area_end (ram_areas h ! i) \<le> k)"

lemma covered_set: "unat (ram_areas_size h) \<le> length (ram_areas h) \<Longrightarrow> covered h = (\<Union>i<unat (ram_areas_size h). area_bytes (ram_areas h ! i))"
  by (auto simp: covered_def set_conv_nth)

lemma Union_update:
  fixes B :: "'a set"
  assumes "i < n" and "f' i = f i \<union> B" and "\<And>j. j \<noteq> i \<Longrightarrow> f' j = f j"
  shows "(\<Union>j<n. f' j) = (\<Union>j<n. f j) \<union> B"
proof -
  have "{..<n} = insert i ({..<n} - {i})" using assms(1) by auto
  moreover have "(\<Union>j \<in> {..<n} - {i}. f' j) = (\<Union>j \<in> {..<n} - {i}. f j)" using assms(3) by auto
  ultimately show ?thesis using assms(2) by (metis (no_types, lifting) UN_insert Un_assoc Un_commute)
qed

text \<open>What the merging loop finds.\<close>

lemma merge_desc_cases:
  "merge_desc st sz en is as = Some as' \<Longrightarrow> \<exists>i \<in> set is.
     (area_start (as ! i) = en \<and> as' = as[i := (as ! i)\<lparr>area_start := st\<rparr>]) \<or>
     (area_start (as ! i) + area_size (as ! i) = st \<and> as' = as[i := (as ! i)\<lparr>area_size := area_size (as ! i) + sz\<rparr>])"
  by (induction "is") (auto simp: Let_def split: if_splits)

lemma area_bytes_append:
  assumes "area_start a + area_size a = physical_start d" and "area_end a < 2 ^ 64" and "desc_fits d"
  shows "area_bytes (a\<lparr>area_size := area_size a + number_of_pages d * EFI_PAGE_SIZE\<rparr>) = area_bytes a \<union> desc_bytes d"
    and "area_end (a\<lparr>area_size := area_size a + number_of_pages d * EFI_PAGE_SIZE\<rparr>) = desc_end_nat d"
proof -
  have st: "unat (physical_start d) = area_end a"
    using assms(1,2) by (simp add: unat_word_ariths flip: assms(1))
  have sz: "unat (area_size a + number_of_pages d * EFI_PAGE_SIZE) = unat (area_size a) + unat (number_of_pages d) * 4096"
    using assms(3) st by (simp add: unat_word_ariths desc_fits_def EFI_PAGE_SIZE_def)
  show "area_end (a\<lparr>area_size := area_size a + number_of_pages d * EFI_PAGE_SIZE\<rparr>) = desc_end_nat d"
    by (simp add: sz st)
  show "area_bytes (a\<lparr>area_size := area_size a + number_of_pages d * EFI_PAGE_SIZE\<rparr>) = area_bytes a \<union> desc_bytes d"
    by (auto simp: area_bytes_def desc_bytes_def sz st)
qed

lemma insert_desc_below:
  assumes "g_core_header_ptr s \<noteq> 0" and "areas_below k (core_hdr s)" and "desc_fits d" and "number_of_pages d \<noteq> 0"
    and "k \<le> unat (physical_start d)"
  shows "wp (insert_desc d) (\<lambda>_ t. \<exists>h. t = s\<lparr>core_hdr := h\<rparr> \<and> areas_below (desc_end_nat d) h \<and> covered h = covered (core_hdr s) \<union> desc_bytes d)
    (\<lambda>t. t = s \<and> unat (ram_areas_size (core_hdr s)) = 64) s"
proof -
  define h where "h = core_hdr s"
  define n where "n = unat (ram_areas_size h)"
  have h: "n \<le> 64" "length (ram_areas h) = 64" and ends: "\<And>i. i < n \<Longrightarrow> area_end (ram_areas h ! i) \<le> k"
    using assms(2) by (auto simp: areas_below_def h_def n_def)
  have k: "k < 2 ^ 64" using assms(5) unsigned_less [of "physical_start d", where ?'a = nat] by simp
  have en: "unat (physical_start d + number_of_pages d * EFI_PAGE_SIZE) = desc_end_nat d" by (rule desc_end [OF assms(3)])
  have "0 < unat (number_of_pages d)" using assms(4) by (simp add: unat_gt_0)
  then have later: "k < desc_end_nat d" using assms(5) by simp
  then have below: "area_end (ram_areas h ! i) \<le> desc_end_nat d" if "i < n" for i using ends [OF that] by linarith
  have cov: "covered h = (\<Union>i<n. area_bytes (ram_areas h ! i))" unfolding n_def by (rule covered_set) (use h in \<open>simp add: n_def\<close>)
  show ?thesis
  proof (cases "merge_desc (physical_start d) (number_of_pages d * EFI_PAGE_SIZE) (physical_start d + number_of_pages d * EFI_PAGE_SIZE) [0..<n] (ram_areas h)")
    case None
    define h' where "h' = h\<lparr>ram_areas := (ram_areas h)[n := \<lparr>area_start = physical_start d, area_size = number_of_pages d * EFI_PAGE_SIZE\<rparr>],
      ram_areas_size := ram_areas_size h + 1\<rparr>"
    have "unat (number_of_pages d * EFI_PAGE_SIZE) = unat (number_of_pages d) * 4096"
      using assms(3) by (simp add: unat_word_ariths desc_fits_def EFI_PAGE_SIZE_def)
    then have new: "area_bytes \<lparr>area_start = physical_start d, area_size = number_of_pages d * EFI_PAGE_SIZE\<rparr> = desc_bytes d"
      "area_end \<lparr>area_start = physical_start d, area_size = number_of_pages d * EFI_PAGE_SIZE\<rparr> = desc_end_nat d"
      by (simp_all add: area_bytes_def desc_bytes_def)
    have good: "areas_below (desc_end_nat d) h' \<and> covered h' = covered h \<union> desc_bytes d" if "n \<noteq> 64"
    proof -
      have n': "unat (ram_areas_size h') = Suc n"
        using that h(1) by (simp add: h'_def n_def unat_word_ariths)
      have "covered h' = (\<Union>i<Suc n. area_bytes (ram_areas h' ! i))" using covered_set [of h'] n' that h by (simp add: h'_def)
      also have "\<dots> = covered h \<union> desc_bytes d"
        using that h new(1) by (auto simp: cov h'_def lessThan_Suc nth_list_update split: if_splits)
      finally show ?thesis
        using that h n' below new(2) by (auto simp: areas_below_def nth_list_update h'_def less_Suc_eq)
    qed
    show ?thesis
      using None assms(1) h(1) good by (auto simp: insert_desc_def upd_hdr_def wp_simps Let_def MAX_RAM_AREAS_def h'_def simp flip: h_def n_def)
  next
    case (Some as)
    then obtain i where i: "i < n" and "area_start (ram_areas h ! i) = physical_start d + number_of_pages d * EFI_PAGE_SIZE \<or>
        (area_start (ram_areas h ! i) + area_size (ram_areas h ! i) = physical_start d \<and>
         as = (ram_areas h)[i := (ram_areas h ! i)\<lparr>area_size := area_size (ram_areas h ! i) + number_of_pages d * EFI_PAGE_SIZE\<rparr>])"
      using merge_desc_cases [OF Some] by auto
    moreover have "area_start (ram_areas h ! i) \<noteq> physical_start d + number_of_pages d * EFI_PAGE_SIZE"
      using ends [OF i] later en by auto
    ultimately have join: "area_start (ram_areas h ! i) + area_size (ram_areas h ! i) = physical_start d"
      and as: "as = (ram_areas h)[i := (ram_areas h ! i)\<lparr>area_size := area_size (ram_areas h ! i) + number_of_pages d * EFI_PAGE_SIZE\<rparr>]"
      by auto
    note app = area_bytes_append [OF join _ assms(3)]
    have "area_end (ram_areas h ! i) < 2 ^ 64" using ends [OF i] k by linarith
    note app = app [OF this]
    have "covered (h\<lparr>ram_areas := as\<rparr>) = (\<Union>i<n. area_bytes (as ! i))"
      using covered_set [of "h\<lparr>ram_areas := as\<rparr>"] h as by (simp add: n_def)
    also have "\<dots> = covered h \<union> desc_bytes d"
      unfolding cov by (rule Union_update [OF i]) (use i h app as in auto)
    finally have "covered (h\<lparr>ram_areas := as\<rparr>) = covered h \<union> desc_bytes d" .
    moreover have "areas_below (desc_end_nat d) (h\<lparr>ram_areas := as\<rparr>)"
      using h i below app(2) unfolding areas_below_def as
      by (auto simp: nth_list_update simp flip: n_def)
    ultimately show ?thesis
      using Some assms(1) h(1) by (auto simp: insert_desc_def upd_hdr_def wp_simps Let_def MAX_RAM_AREAS_def simp flip: h_def n_def)
  qed
qed

section \<open>A whole memory map\<close>

definition ascending :: "efi_memory_descriptor list \<Rightarrow> bool" where
  "ascending ds \<longleftrightarrow> sorted_wrt (\<lambda>d e. desc_end_nat d \<le> unat (physical_start e)) ds \<and>
     (\<forall>d \<in> set ds. desc_fits d \<and> number_of_pages d \<noteq> 0)"

lemma usable_iff: "is_memory_desc_usable d \<longleftrightarrow> desc_type d \<in> {1, 2, 3, 4, 5, 6, 7, 9, 14}"
  by (auto simp: is_memory_desc_usable_def g_usable_memory_types_def memory_type_defs)

lemma areas_below_mono: "areas_below k h \<Longrightarrow> k \<le> l \<Longrightarrow> areas_below l h"
  by (auto simp: areas_below_def)

lemma insert_descs_cover:
  assumes "g_core_header_ptr s \<noteq> 0" and "areas_below k (core_hdr s)" and "ascending ds" and "\<forall>d \<in> set ds. k \<le> unat (physical_start d)"
  shows "wp (for_each ds (\<lambda>d. if is_memory_desc_usable d then insert_desc d else ret ()))
    (\<lambda>_ t. \<exists>h. t = s\<lparr>core_hdr := h\<rparr> \<and> covered h = covered (core_hdr s) \<union> \<Union> (desc_bytes ` {d \<in> set ds. is_memory_desc_usable d}))
    (\<lambda>t. unat (ram_areas_size (core_hdr t)) = 64) s"
  using assms
proof (induction ds arbitrary: s k)
  case Nil
  then show ?case by (auto simp: wp_ret intro!: exI [of _ "core_hdr s"])
next
  case (Cons d ds)
  have d: "desc_fits d" "number_of_pages d \<noteq> 0" "k \<le> unat (physical_start d)" "ascending ds"
    and after: "\<forall>e \<in> set ds. desc_end_nat d \<le> unat (physical_start e)"
    using Cons.prems by (auto simp: ascending_def)
  show ?case
  proof (cases "is_memory_desc_usable d")
    case False
    then have "{x \<in> set (d # ds). is_memory_desc_usable x} = {x \<in> set ds. is_memory_desc_usable x}" by auto
    with False show ?thesis
      using Cons.IH [OF Cons.prems(1,2) d(4)] Cons.prems(4) unfolding wp_for_each_Cons by (simp add: wp_ret)
  next
    case True
    have "wp (for_each ds (\<lambda>d. if is_memory_desc_usable d then insert_desc d else ret ()))
      (\<lambda>_ u. \<exists>h. u = s\<lparr>core_hdr := h\<rparr> \<and> covered h = covered (core_hdr s) \<union> desc_bytes d \<union> \<Union> (desc_bytes ` {d \<in> set ds. is_memory_desc_usable d}))
      (\<lambda>t. unat (ram_areas_size (core_hdr t)) = 64) (s\<lparr>core_hdr := h\<rparr>)"
      if "areas_below (desc_end_nat d) h" "covered h = covered (core_hdr s) \<union> desc_bytes d" for h
      using Cons.IH [of "s\<lparr>core_hdr := h\<rparr>", OF _ _ d(4) after] Cons.prems(1) that by (auto elim!: wp_mono)
    moreover have "desc_bytes d \<union> \<Union> (desc_bytes ` {d \<in> set ds. is_memory_desc_usable d}) =
        \<Union> (desc_bytes ` {x \<in> set (d # ds). is_memory_desc_usable x})"
      using True by auto
    ultimately show ?thesis
      using True unfolding wp_for_each_Cons
      by (auto simp: Un_assoc intro!: wp_mono [OF insert_desc_below [OF Cons.prems(1,2) d(1-3)]])
  qed
qed

section \<open>Properties\<close>

text \<open>C11: For a memory map in ascending order, the RAM areas that core will store and switch cover exactly the bytes of the
  descriptors of a usable type, however they are merged; the only error is that the 64 areas of core's header are used up.\<close>

theorem insert_usable_covers:
  assumes "g_core_header_ptr s \<noteq> 0" and "ram_areas_size (core_hdr s) = 0" and "length (ram_areas (core_hdr s)) = 64"
    and "map_desc_size mm \<noteq> 0" and "length (map_descs mm) = unat (map_size mm div map_desc_size mm)" and "ascending (map_descs mm)"
  shows "case insert_usable mm s of
      Returns _ t \<Rightarrow> covered (core_hdr t) = \<Union> (desc_bytes ` {d \<in> set (map_descs mm). desc_type d \<in> {1, 2, 3, 4, 5, 6, 7, 9, 14}}) \<and>
        t = s\<lparr>core_hdr := core_hdr t\<rparr>
    | Throws _ t \<Rightarrow> ram_areas_size (core_hdr t) = 64
    | Faults _ \<Rightarrow> False"
proof -
  have 0: "areas_below 0 (core_hdr s)" "covered (core_hdr s) = {}"
    using assms(2,3) by (simp_all add: areas_below_def covered_def)
  have "wp (insert_usable mm) (\<lambda>_ t. \<exists>h. t = s\<lparr>core_hdr := h\<rparr> \<and> covered h = \<Union> (desc_bytes ` {d \<in> set (map_descs mm). is_memory_desc_usable d}))
      (\<lambda>t. unat (ram_areas_size (core_hdr t)) = 64) s"
    using insert_descs_cover [OF assms(1) 0(1) assms(6)] 0(2) assms(4,5) by (simp add: insert_usable_def wp_simps Let_def)
  moreover have "unat n = 64 \<Longrightarrow> n = 64" for n :: u32 by (simp add: word_unat_eq_iff)
  ultimately show ?thesis
    unfolding usable_iff by (auto simp: wp_def split: outcome.splits)
qed

definition example_map :: memory_map where
  "example_map = \<lparr>map_status = EFI_SUCCESS, map_size = 144, map_desc_size = 48,
     map_descs = [\<lparr>desc_type = EfiConventionalMemory, physical_start = 0x1000, virtual_start = 0, number_of_pages = 2, attribute = 15\<rparr>,
       \<lparr>desc_type = EfiBootServicesData, physical_start = 0x3000, virtual_start = 0, number_of_pages = 1, attribute = 15\<rparr>,
       \<lparr>desc_type = EfiReservedMemoryType, physical_start = 0x5000, virtual_start = 0, number_of_pages = 1, attribute = 15\<rparr>]\<rparr>"

theorem insert_usable_covers_witness:
  "\<exists>t. insert_usable example_map (example_uefi ()) = Returns () t \<and> covered (core_hdr t) = {x. 0x1000 \<le> unat x \<and> unat x < 0x4000}"
proof -
  let ?s = "example_uefi ()"
  have s: "g_core_header_ptr ?s \<noteq> 0" "ram_areas_size (core_hdr ?s) = 0" "length (ram_areas (core_hdr ?s)) = 64"
    by (simp_all add: example_uefi_def)
  have mm: "map_desc_size example_map \<noteq> 0" "length (map_descs example_map) = unat (map_size example_map div map_desc_size example_map)"
    "ascending (map_descs example_map)"
    by (simp_all add: example_map_def unat_div ascending_def desc_fits_def)
  have "wp (insert_usable example_map) (\<lambda>_ _. True) (\<lambda>_. False) ?s"
    by (simp add: insert_usable_def example_map_def example_uefi_def insert_desc_def upd_hdr_def wp_simps Let_def unat_div MAX_RAM_AREAS_def
        is_memory_desc_usable_def g_usable_memory_types_def memory_type_defs EFI_PAGE_SIZE_def)
  then obtain t where t: "insert_usable example_map ?s = Returns () t" by (auto simp: wp_returns_iff)
  have "{d \<in> set (map_descs example_map). desc_type d \<in> {1, 2, 3, 4, 5, 6, 7, 9, 14}} = set (take 2 (map_descs example_map))"
    by (auto simp: example_map_def memory_type_defs)
  moreover have "\<Union> (desc_bytes ` set (take 2 (map_descs example_map))) = {x. 0x1000 \<le> unat x \<and> unat x < 0x4000}"
    by (auto simp: example_map_def desc_bytes_def)
  ultimately show ?thesis
    using insert_usable_covers [OF s mm] t by simp
qed

definition one_area_uefi :: "unit uefi" where
  "one_area_uefi = (example_uefi ())\<lparr>core_hdr := (core_hdr (example_uefi ()))\<lparr>ram_areas_size := 1,
     ram_areas := \<lparr>area_start = 0x3000, area_size = 0x2000\<rparr> # replicate 63 \<lparr>area_start = 0, area_size = 0\<rparr>\<rparr>\<rparr>"

text \<open>C34: A descriptor that ends where the only RAM area so far starts is merged in front of it without adding its size: the
  area moves, and the bytes at its old end are no longer covered, so core neither stores nor switches them.\<close>

theorem insert_desc_loses_memory:
  assumes "g_core_header_ptr s \<noteq> 0" and "ram_areas_size (core_hdr s) = 1" and "length (ram_areas (core_hdr s)) = 64"
    and "desc_fits d" and "number_of_pages d \<noteq> 0"
    and "unat (area_start (ram_areas (core_hdr s) ! 0)) = desc_end_nat d" and "area_end (ram_areas (core_hdr s) ! 0) < 2 ^ 64"
    and "unat x < area_end (ram_areas (core_hdr s) ! 0)" and "area_end (ram_areas (core_hdr s) ! 0) - unat (number_of_pages d) * 4096 \<le> unat x"
    and "desc_end_nat d \<le> unat x"
  shows "\<exists>t. insert_desc d s = Returns () t \<and> x \<in> covered (core_hdr s) \<and> x \<notin> covered (core_hdr t)"
proof -
  let ?as = "ram_areas (core_hdr s)"
  let ?h = "(core_hdr s)\<lparr>ram_areas := ?as[0 := (?as ! 0)\<lparr>area_start := physical_start d\<rparr>]\<rparr>"
  have "unat (area_start (?as ! 0)) = unat (physical_start d + number_of_pages d * EFI_PAGE_SIZE)"
    using assms(6) desc_end [OF assms(4)] by simp
  then have "area_start (?as ! 0) = physical_start d + number_of_pages d * EFI_PAGE_SIZE" by (simp add: word_unat_eq_iff)
  then have run: "insert_desc d s = Returns () (s\<lparr>core_hdr := ?h\<rparr>)"
    using assms(1,2) by (simp add: insert_desc_def upd_hdr_def bind_def seq_def gets_def CHECK_def ret_def defined_if_def modify_def Let_def
        MAX_RAM_AREAS_def upt_rec)
  have "covered (core_hdr s) = area_bytes (?as ! 0)" "covered ?h = area_bytes ((?as ! 0)\<lparr>area_start := physical_start d\<rparr>)"
    using assms(2,3) covered_set [of "core_hdr s"] covered_set [of ?h] by (simp_all add: lessThan_Suc)
  then have "x \<in> covered (core_hdr s)" "x \<notin> covered ?h"
    using assms(6-) by (auto simp: area_bytes_def)
  with run show ?thesis by auto
qed

theorem insert_desc_loses_memory_witness:
  "\<exists>t. insert_desc (map_descs example_map ! 0) one_area_uefi = Returns () t \<and> 0x4abc \<in> covered (core_hdr one_area_uefi) \<and>
     0x4abc \<notin> covered (core_hdr t)"
  by (rule insert_desc_loses_memory) (simp_all add: one_area_uefi_def example_uefi_def example_map_def desc_fits_def)

end
