(* ===== verification/UacpiGlue.thy ===== *)
theory UacpiGlue
  imports Machine
begin

text \<open>
  The kernel functions uACPI calls, \<^verbatim>\<open>core/uacpi_glue.c\<close>. Physical addresses, handles and pointers are 64-bit
  words; a result goes with the status in a pair instead of through the out parameter. The functions the code
  leaves unimplemented are here with the constant they return.
\<close>

datatype glue_status = UACPI_STATUS_OK | UACPI_STATUS_OUT_OF_MEMORY | UACPI_STATUS_INVALID_ARGUMENT | UACPI_STATUS_UNIMPLEMENTED

section \<open>Memory\<close>

definition uacpi_kernel_get_rsdp :: "('d machine, glue_status \<times> u64) cfun" where
  "uacpi_kernel_get_rsdp = bind (gets (\<lambda>s. hdr_rsdp (g_core_header s))) (\<lambda>rsdp. ret (UACPI_STATUS_OK, rsdp))"

definition uacpi_kernel_raw_memory_read :: "u64 \<Rightarrow> u8 \<Rightarrow> ('d machine, glue_status \<times> u64 option) cfun" where
  "uacpi_kernel_raw_memory_read address byte_width =
     bind (gets mem) (\<lambda>m.
     if byte_width = 1 then ret (UACPI_STATUS_OK, Some (ucast (load8 m address)))
     else if byte_width = 2 then ret (UACPI_STATUS_OK, Some (ucast (load16 m address)))
     else if byte_width = 4 then ret (UACPI_STATUS_OK, Some (ucast (load32 m address)))
     else if byte_width = 8 then ret (UACPI_STATUS_OK, Some (load64 m address))
     else ret (UACPI_STATUS_INVALID_ARGUMENT, None))"

definition store_mem :: "(memory \<Rightarrow> memory) \<Rightarrow> ('d machine, unit) cfun" where
  "store_mem f = modify (\<lambda>s. s\<lparr>mem := f (mem s)\<rparr>)"

definition uacpi_kernel_raw_memory_write :: "u64 \<Rightarrow> u8 \<Rightarrow> u64 \<Rightarrow> ('d machine, glue_status) cfun" where
  "uacpi_kernel_raw_memory_write address byte_width in_value =
     (if byte_width = 1 then seq (store_mem (store8 address (ucast in_value))) (ret UACPI_STATUS_OK)
      else if byte_width = 2 then seq (store_mem (store16 address (ucast in_value))) (ret UACPI_STATUS_OK)
      else if byte_width = 4 then seq (store_mem (store32 address (ucast in_value))) (ret UACPI_STATUS_OK)
      else if byte_width = 8 then seq (store_mem (store64 address in_value)) (ret UACPI_STATUS_OK)
      else ret UACPI_STATUS_INVALID_ARGUMENT)"

definition uacpi_kernel_map :: "u64 \<Rightarrow> u64 \<Rightarrow> ('d machine, u64) cfun" where
  "uacpi_kernel_map addr len = ret addr"

definition uacpi_kernel_unmap :: "u64 \<Rightarrow> u64 \<Rightarrow> ('d machine, unit) cfun" where
  "uacpi_kernel_unmap addr len = ret ()"

definition uacpi_kernel_alloc :: "u64 \<Rightarrow> ('d machine, u64) cfun" where
  "uacpi_kernel_alloc n = stateful (\<lambda>s. case core_malloc n (heap s) of (p, h) \<Rightarrow> (p, s\<lparr>heap := h\<rparr>))"

definition uacpi_kernel_calloc :: "u64 \<Rightarrow> u64 \<Rightarrow> ('d machine, u64) cfun" where
  "uacpi_kernel_calloc count n = calloc count n"

definition uacpi_kernel_free :: "u64 \<Rightarrow> ('d machine, unit) cfun" where
  "uacpi_kernel_free p = free_at p"

section \<open>PCI devices\<close>

text \<open>A handle is the address of a \<open>struct pci_dev_addr\<close>, three bytes on the heap.\<close>

definition sizeof_pci_dev_addr :: u64 where "sizeof_pci_dev_addr = 3"

definition pci_dev_addr_at :: "memory \<Rightarrow> u64 \<Rightarrow> pci_dev_addr" where
  "pci_dev_addr_at m p = \<lparr>pa_bus = load8 m p, pa_device = load8 m (p + 1), pa_function = load8 m (p + 2)\<rparr>"

definition uacpi_kernel_pci_device_open :: "pci_dev_addr \<Rightarrow> ('d machine, glue_status \<times> u64 option) cfun" where
  "uacpi_kernel_pci_device_open address =
     bind (uacpi_kernel_alloc sizeof_pci_dev_addr) (\<lambda>p.
     if p = 0 then ret (UACPI_STATUS_OUT_OF_MEMORY, None)
     else seq (store_mem (store8 p (pa_bus address)))
         (seq (store_mem (store8 (p + 1) (pa_device address)))
         (seq (store_mem (store8 (p + 2) (pa_function address)))
              (ret (UACPI_STATUS_OK, Some p)))))"

definition uacpi_kernel_pci_device_close :: "u64 \<Rightarrow> ('d machine, unit) cfun" where
  "uacpi_kernel_pci_device_close handle = uacpi_kernel_free handle"

definition uacpi_kernel_pci_read8 :: "'d hw \<Rightarrow> u64 \<Rightarrow> u64 \<Rightarrow> ('d machine, glue_status \<times> u8) cfun" where
  "uacpi_kernel_pci_read8 hw device off =
     bind (gets (\<lambda>s. pci_dev_addr_at (mem s) device)) (\<lambda>a.
     bind (on_dev (pci_read_8 hw a (ucast off))) (\<lambda>v. ret (UACPI_STATUS_OK, v)))"

definition uacpi_kernel_pci_read16 :: "'d hw \<Rightarrow> u64 \<Rightarrow> u64 \<Rightarrow> ('d machine, glue_status \<times> u16) cfun" where
  "uacpi_kernel_pci_read16 hw device off =
     bind (gets (\<lambda>s. pci_dev_addr_at (mem s) device)) (\<lambda>a.
     bind (on_dev (pci_read_16 hw a (ucast off))) (\<lambda>v. ret (UACPI_STATUS_OK, v)))"

definition uacpi_kernel_pci_read32 :: "'d hw \<Rightarrow> u64 \<Rightarrow> u64 \<Rightarrow> ('d machine, glue_status \<times> u32) cfun" where
  "uacpi_kernel_pci_read32 hw device off =
     bind (gets (\<lambda>s. pci_dev_addr_at (mem s) device)) (\<lambda>a.
     bind (on_dev (pci_read_32 hw a (ucast off))) (\<lambda>v. ret (UACPI_STATUS_OK, v)))"

definition uacpi_kernel_pci_write8 :: "'d hw \<Rightarrow> u64 \<Rightarrow> u64 \<Rightarrow> u8 \<Rightarrow> ('d machine, glue_status) cfun" where
  "uacpi_kernel_pci_write8 hw device off v =
     bind (gets (\<lambda>s. pci_dev_addr_at (mem s) device)) (\<lambda>a.
     seq (on_dev (pci_write_8 hw a (ucast off) v)) (ret UACPI_STATUS_OK))"

definition uacpi_kernel_pci_write16 :: "'d hw \<Rightarrow> u64 \<Rightarrow> u64 \<Rightarrow> u16 \<Rightarrow> ('d machine, glue_status) cfun" where
  "uacpi_kernel_pci_write16 hw device off v =
     bind (gets (\<lambda>s. pci_dev_addr_at (mem s) device)) (\<lambda>a.
     seq (on_dev (pci_write_16 hw a (ucast off) v)) (ret UACPI_STATUS_OK))"

definition uacpi_kernel_pci_write32 :: "'d hw \<Rightarrow> u64 \<Rightarrow> u64 \<Rightarrow> u32 \<Rightarrow> ('d machine, glue_status) cfun" where
  "uacpi_kernel_pci_write32 hw device off v =
     bind (gets (\<lambda>s. pci_dev_addr_at (mem s) device)) (\<lambda>a.
     seq (on_dev (pci_write_32 hw a (ucast off) v)) (ret UACPI_STATUS_OK))"

section \<open>Ports\<close>

definition uacpi_kernel_io_map :: "u64 \<Rightarrow> u64 \<Rightarrow> ('d machine, glue_status \<times> u64) cfun" where
  "uacpi_kernel_io_map base len = ret (UACPI_STATUS_OK, base)"

definition uacpi_kernel_io_unmap :: "u64 \<Rightarrow> ('d machine, unit) cfun" where
  "uacpi_kernel_io_unmap handle = ret ()"

definition uacpi_kernel_io_read8 :: "'d hw \<Rightarrow> u64 \<Rightarrow> u64 \<Rightarrow> ('d machine, glue_status \<times> u8) cfun" where
  "uacpi_kernel_io_read8 hw handle off =
     (let p = ucast (handle + off) in bind (on_dev (in8 hw p)) (\<lambda>v. ret (UACPI_STATUS_OK, v)))"

definition uacpi_kernel_io_read16 :: "'d hw \<Rightarrow> u64 \<Rightarrow> u64 \<Rightarrow> ('d machine, glue_status \<times> u16) cfun" where
  "uacpi_kernel_io_read16 hw handle off =
     (let p = ucast (handle + off) in bind (on_dev (in16 hw p)) (\<lambda>v. ret (UACPI_STATUS_OK, v)))"

definition uacpi_kernel_io_read32 :: "'d hw \<Rightarrow> u64 \<Rightarrow> u64 \<Rightarrow> ('d machine, glue_status \<times> u32) cfun" where
  "uacpi_kernel_io_read32 hw handle off =
     (let p = ucast (handle + off) in bind (on_dev (in32 hw p)) (\<lambda>v. ret (UACPI_STATUS_OK, v)))"

definition uacpi_kernel_io_write8 :: "'d hw \<Rightarrow> u64 \<Rightarrow> u64 \<Rightarrow> u8 \<Rightarrow> ('d machine, glue_status) cfun" where
  "uacpi_kernel_io_write8 hw handle off v =
     (let p = ucast (handle + off) in seq (on_dev (out8 hw p v)) (ret UACPI_STATUS_OK))"

definition uacpi_kernel_io_write16 :: "'d hw \<Rightarrow> u64 \<Rightarrow> u64 \<Rightarrow> u16 \<Rightarrow> ('d machine, glue_status) cfun" where
  "uacpi_kernel_io_write16 hw handle off v =
     (let p = ucast (handle + off) in seq (on_dev (out16 hw p v)) (ret UACPI_STATUS_OK))"

definition uacpi_kernel_io_write32 :: "'d hw \<Rightarrow> u64 \<Rightarrow> u64 \<Rightarrow> u32 \<Rightarrow> ('d machine, glue_status) cfun" where
  "uacpi_kernel_io_write32 hw handle off v =
     (let p = ucast (handle + off) in seq (on_dev (out32 hw p v)) (ret UACPI_STATUS_OK))"

section \<open>Synchronisation and the rest\<close>

text \<open>Mutexes, events and spinlocks are blocks of one byte; core runs on one thread.\<close>

definition uacpi_kernel_create_mutex :: "('d machine, u64) cfun" where
  "uacpi_kernel_create_mutex = uacpi_kernel_alloc 1"

definition uacpi_kernel_free_mutex :: "u64 \<Rightarrow> ('d machine, unit) cfun" where
  "uacpi_kernel_free_mutex handle = uacpi_kernel_free handle"

definition uacpi_kernel_create_event :: "('d machine, u64) cfun" where
  "uacpi_kernel_create_event = uacpi_kernel_alloc 1"

definition uacpi_kernel_free_event :: "u64 \<Rightarrow> ('d machine, unit) cfun" where
  "uacpi_kernel_free_event handle = uacpi_kernel_free handle"

definition uacpi_kernel_create_spinlock :: "('d machine, u64) cfun" where
  "uacpi_kernel_create_spinlock = uacpi_kernel_alloc 1"

definition uacpi_kernel_free_spinlock :: "u64 \<Rightarrow> ('d machine, unit) cfun" where
  "uacpi_kernel_free_spinlock handle = uacpi_kernel_free handle"

definition uacpi_kernel_get_nanoseconds_since_boot :: "('d machine, u64) cfun" where
  "uacpi_kernel_get_nanoseconds_since_boot = ret 0"

definition uacpi_kernel_stall :: "u8 \<Rightarrow> ('d machine, unit) cfun" where
  "uacpi_kernel_stall usec = ret ()"

definition uacpi_kernel_sleep :: "u64 \<Rightarrow> ('d machine, unit) cfun" where
  "uacpi_kernel_sleep msec = ret ()"

definition uacpi_kernel_get_thread_id :: "('d machine, u64) cfun" where
  "uacpi_kernel_get_thread_id = ret 0"

definition uacpi_kernel_acquire_mutex :: "u64 \<Rightarrow> u16 \<Rightarrow> ('d machine, glue_status) cfun" where
  "uacpi_kernel_acquire_mutex handle val = ret UACPI_STATUS_OK"

definition uacpi_kernel_release_mutex :: "u64 \<Rightarrow> ('d machine, unit) cfun" where
  "uacpi_kernel_release_mutex handle = ret ()"

definition uacpi_kernel_wait_for_event :: "u64 \<Rightarrow> u16 \<Rightarrow> ('d machine, bool) cfun" where
  "uacpi_kernel_wait_for_event handle event = ret False"

definition uacpi_kernel_signal_event :: "u64 \<Rightarrow> ('d machine, unit) cfun" where
  "uacpi_kernel_signal_event handle = ret ()"

definition uacpi_kernel_reset_event :: "u64 \<Rightarrow> ('d machine, unit) cfun" where
  "uacpi_kernel_reset_event handle = ret ()"

definition uacpi_kernel_handle_firmware_request :: "u64 \<Rightarrow> ('d machine, glue_status) cfun" where
  "uacpi_kernel_handle_firmware_request request = ret UACPI_STATUS_UNIMPLEMENTED"

definition uacpi_kernel_install_interrupt_handler :: "u32 \<Rightarrow> u64 \<Rightarrow> u64 \<Rightarrow> ('d machine, glue_status) cfun" where
  "uacpi_kernel_install_interrupt_handler irq handler ctx = ret UACPI_STATUS_OK"

definition uacpi_kernel_uninstall_interrupt_handler :: "u64 \<Rightarrow> u64 \<Rightarrow> ('d machine, glue_status) cfun" where
  "uacpi_kernel_uninstall_interrupt_handler handler irq_handle = ret UACPI_STATUS_UNIMPLEMENTED"

definition uacpi_kernel_lock_spinlock :: "u64 \<Rightarrow> ('d machine, u64) cfun" where
  "uacpi_kernel_lock_spinlock handle = ret 0"

definition uacpi_kernel_unlock_spinlock :: "u64 \<Rightarrow> u64 \<Rightarrow> ('d machine, unit) cfun" where
  "uacpi_kernel_unlock_spinlock handle flags = ret ()"

definition uacpi_kernel_schedule_work :: "u32 \<Rightarrow> u64 \<Rightarrow> u64 \<Rightarrow> ('d machine, glue_status) cfun" where
  "uacpi_kernel_schedule_work work_type handler ctx = ret UACPI_STATUS_UNIMPLEMENTED"

definition uacpi_kernel_wait_for_work_completion :: "('d machine, glue_status) cfun" where
  "uacpi_kernel_wait_for_work_completion = ret UACPI_STATUS_UNIMPLEMENTED"

section \<open>Properties\<close>

lemma wp_store_mem [wp_simps]: "wp (store_mem f) Q E s = Q () (s\<lparr>mem := f (mem s)\<rparr>)"
  by (simp add: store_mem_def wp_simps)

lemma le_bytes_ucast: "8 * n \<le> LENGTH('a) \<Longrightarrow> LENGTH('a) \<le> 64 \<Longrightarrow> le_bytes n (ucast (v :: u64) :: 'a::len word) = le_bytes n v"
  by (rule nth_equalityI) (auto simp: le_bytes_def intro!: bit_word_eqI simp: bit_simps)

lemma le_bytes_1: "le_bytes 1 (w :: u64) = [ucast w]"
  by (simp add: le_bytes_def)

lemma store8_write: "store8 a v m = mem_write m a [v]"
  by (auto simp: store8_def mem_write_def fun_eq_iff unat_eq_0)

lemma ucast_up_down: "ucast (ucast v :: 'a::len word) = take_bit LENGTH('a) (v :: u64)"
  by (rule bit_word_eqI) (auto simp: bit_simps dest: bit_imp_le_length)

lemma le_bytes_u64: "le_bytes 2 (ucast v :: u16) = le_bytes 2 (v :: u64)" "le_bytes 4 (ucast v :: u32) = le_bytes 4 v"
  by (rule le_bytes_ucast; simp)+

text \<open>\<open>uacpi_kernel_raw_memory_write\<close> writes exactly the 1, 2, 4 or 8 low bytes of the value, in little-endian order,
  and \<open>uacpi_kernel_raw_memory_read\<close> of that width reads them back with the rest of the 64 bits zero; another width is
  refused and changes nothing.\<close>

theorem raw_memory_write_read:
  "wp (uacpi_kernel_raw_memory_write a w v)
     (\<lambda>st t. if w \<in> {1, 2, 4, 8}
       then st = UACPI_STATUS_OK \<and> t = s\<lparr>mem := mem_write (mem s) a (le_bytes (unat w) v)\<rparr> \<and>
         uacpi_kernel_raw_memory_read a w t = Returns (UACPI_STATUS_OK, Some (take_bit (8 * unat w) v)) t
       else st = UACPI_STATUS_INVALID_ARGUMENT \<and> t = s \<and>
         uacpi_kernel_raw_memory_read a w t = Returns (UACPI_STATUS_INVALID_ARGUMENT, None) t)
     (\<lambda>_. False) s"
proof -
  have full: "take_bit 64 v = v" by (simp add: take_bit_word_eq_self)
  have l8: "load8 (mem_write m a [b]) a = b" for m b by (simp add: load8_def mem_write_def)
  have l16: "load16 (mem_write m a (le_bytes 2 v)) a = ucast v" for m
    by (simp add: load16_def mem_read_write_same flip: le_bytes_u64)
  have l32: "load32 (mem_write m a (le_bytes 4 v)) a = ucast v" for m
    by (simp add: load32_def mem_read_write_same flip: le_bytes_u64)
  have l64: "load64 (mem_write m a (le_bytes 8 v)) a = v" for m
    by (simp add: load64_def mem_read_write_same)
  have read: "uacpi_kernel_raw_memory_read a w t = Returns
      (UACPI_STATUS_OK, Some (take_bit (8 * unat w) v)) t"
    if "w \<in> {1, 2, 4, 8}" "mem t = mem_write m a (le_bytes (unat w) v)" for w and t :: "'a machine" and m
    using that
    by (auto simp: uacpi_kernel_raw_memory_read_def bind_def gets_def ret_def le_bytes_1 [simplified] l8 l16 l32 l64 ucast_up_down full)
  have bad: "uacpi_kernel_raw_memory_read a w t = Returns (UACPI_STATUS_INVALID_ARGUMENT, None) t"
    if "w \<notin> {1, 2, 4, 8}" for w and t :: "'a machine"
    using that by (simp add: uacpi_kernel_raw_memory_read_def bind_def gets_def ret_def)
  show ?thesis
    by (simp add: uacpi_kernel_raw_memory_write_def wp_simps store8_write store16_def store32_def store64_def le_bytes_u64)
      (auto simp: read [where m = "mem s"] bad le_bytes_1 [simplified])
qed

text \<open>Opening a PCI device fails with \<open>OUT_OF_MEMORY\<close>, without any change, or returns a handle that stands for that
  device: it lies in memory that was free and is not free any more, only those three bytes are written, and closing the handle
  gives the allocators the state they had before.\<close>

theorem pci_device_open_close:
  assumes "heap_holds (heap s) fl" and "buffers_apart (heap s)"
  shows "wp (uacpi_kernel_pci_device_open a)
    (\<lambda>(st, handle) t. case handle of
        None \<Rightarrow> st = UACPI_STATUS_OUT_OF_MEMORY \<and> t = s
      | Some p \<Rightarrow> st = UACPI_STATUS_OK \<and> p \<noteq> 0 \<and> pci_dev_addr_at (mem t) p = a \<and>
          mem t = mem_write (mem s) p [pa_bus a, pa_device a, pa_function a] \<and>
          (\<exists>i xs. fl ! i = p # xs \<and> heap_holds (heap t) (fl[i := xs]) \<and> region p 3 \<inter> free_blocks (heap t) (fl[i := xs]) = {}) \<and>
          uacpi_kernel_pci_device_close p t = Returns () (t\<lparr>heap := heap s\<rparr>))
    (\<lambda>_. False) s"
proof -
  obtain p h where m: "core_malloc 3 (heap s) = (p, h)" by fastforce
  show ?thesis
  proof (cases "p = 0")
    case True
    then have "h = heap s" using core_malloc_NULL [OF assms(1), of 3 h] m by simp
    with True m show ?thesis
      by (simp add: uacpi_kernel_pci_device_open_def uacpi_kernel_alloc_def sizeof_pci_dev_addr_def wp_simps)
  next
    case False
    have free: "core_free p h = heap s" using malloc_free_id [OF assms m False] .
    have three: "(store8 (p + 2) z (store8 (p + 1) y (store8 p x k))) = mem_write k p [x, y, z]" for x y z k
      using mem_write_snoc [of "[]" k p x] mem_write_snoc [of "[x]" k p y] mem_write_snoc [of "[x, y]" k p z]
      by (simp add: store8_def)
    have at: "pci_dev_addr_at (mem_write k p [pa_bus a, pa_device a, pa_function a]) p = a" for k
      by (simp add: pci_dev_addr_at_def load8_def mem_write_def)
    have "\<exists>i xs. fl ! i = p # xs \<and> heap_holds h (fl[i := xs]) \<and> region p 3 \<inter> free_blocks h (fl[i := xs]) = {}"
      using core_malloc_block [OF assms(1) m False] by auto
    with False m free at show ?thesis
      by (simp add: uacpi_kernel_pci_device_open_def uacpi_kernel_alloc_def sizeof_pci_dev_addr_def wp_simps three
          uacpi_kernel_pci_device_close_def uacpi_kernel_free_def free_at_def modify_def)
  qed
qed

definition glue_machine :: "unit machine" where
  "glue_machine = \<lparr>g_core_header = \<lparr>hdr_magic = CORE_HEADER_MAGIC, hdr_action = 0, hdr_facs = 0, hdr_rsdp = 0,
       hdr_disk_pci = \<lparr>disk_bus = 0, disk_device = 0, disk_function = 0, disk_bars = []\<rparr>, ram_areas_size = 0, ram_areas = []\<rparr>,
     mem = (\<lambda>_. 0), heap = small_heap,
     blk = \<lparr>blk_pci_dev = \<lparr>pd_addr = \<lparr>pa_bus = 0, pa_device = 0, pa_function = 0\<rparr>, vendor_id = 0, device_id = 0, header_type = 0\<rparr>,
       common_cfg = 0, queue = \<lparr>q_num = 0, q_size = 0, seen_used = 0, notify_off = 0, free_head = 0, q_desc = 0, q_avail = 0, q_used = 0\<rparr>,
       notify_cap_off = 0, notify_multiplier = 0, status = 0, features = 0\<rparr>,
     vq = \<lparr>vq_desc = [], avail_flags = 0, avail_idx = 0, avail_ring = [], used_flags = 0, used_idx = 0, used_ring = []\<rparr>,
     waking_out = 0, dev = ()\<rparr>"

theorem pci_device_open_close_witness:
  "\<exists>st t. uacpi_kernel_pci_device_open \<lparr>pa_bus = 1, pa_device = 2, pa_function = 3\<rparr> glue_machine = Returns (st, Some 0x1040) t \<and>
     pci_dev_addr_at (mem t) 0x1040 = \<lparr>pa_bus = 1, pa_device = 2, pa_function = 3\<rparr>"
proof -
  let ?a = "\<lparr>pa_bus = 1, pa_device = 2, pa_function = 3\<rparr>"
  have "heap_holds (heap glue_machine) [[0x1040, 0x1000]]" "buffers_apart (heap glue_machine)"
    by (simp_all add: glue_machine_def small_heap_holds small_heap_apart)
  from pci_device_open_close [OF this, of ?a]
  have w: "wp (uacpi_kernel_pci_device_open ?a) (\<lambda>(st, handle) t. case handle of None \<Rightarrow> st = UACPI_STATUS_OUT_OF_MEMORY
      | Some p \<Rightarrow> pci_dev_addr_at (mem t) p = ?a) (\<lambda>_. False) glue_machine"
    by (rule wp_mono) (auto split: option.splits)
  moreover have "\<exists>st t. uacpi_kernel_pci_device_open ?a glue_machine = Returns (st, Some 0x1040) t"
    by (simp add: uacpi_kernel_pci_device_open_def uacpi_kernel_alloc_def sizeof_pci_dev_addr_def core_malloc_def
        find_allocator_for_size_def glue_machine_def small_heap_def bind_def seq_def stateful_def store_mem_def modify_def ret_def upt_rec)
  ultimately show ?thesis by (auto simp: wp_def)
qed

end
