(* ===== verification/Pm.thy ===== *)
theory Pm
  imports CoreHeader
begin

text \<open>
  Core's way into long mode: \<^verbatim>\<open>core/pm/paging.c\<close>, \<^verbatim>\<open>core/pm/gdt.c\<close> and \<^verbatim>\<open>core/pm/pm.c\<close>. The code runs in 32-bit
  protected mode, so an \<open>uintptr_t\<close> has 32 bits. The state is the memory with the registers the inline assembly
  changes. \<open>translate\<close> and \<open>is_long_mode_code\<close> are what the processor makes of them, after the Intel manual,
  volume 3A, chapters 3.4.5 and 4.5. Where the linker puts the page tables and the descriptor table is a parameter.
\<close>

section \<open>The code\<close>

record pm_state =
  pm_mem :: memory
  cr0 :: u32
  cr3 :: u32
  cr4 :: u32
  efer :: u64
  gdtr_limit :: u16
  gdtr_base :: u32
  cs :: u16
  pc :: u64

definition PT_SIZE :: u32 where "PT_SIZE = 4096"
definition PT_ENTRY_SIZE :: u32 where "PT_ENTRY_SIZE = 8"
definition PT_ENTRIES_NUM :: u32 where "PT_ENTRIES_NUM = PT_SIZE div PT_ENTRY_SIZE"
definition PAGE_PRESENT_BIT :: u32 where "PAGE_PRESENT_BIT = 1"
definition PAGE_RW_BIT :: u32 where "PAGE_RW_BIT = 2"
definition PAGE_SIZE_BIT :: u32 where "PAGE_SIZE_BIT = 0x80"
definition GB_PAGE_SIZE :: u64 where "GB_PAGE_SIZE = 1024 * 1024 * 1024"

definition pml4_entry :: "u32 \<Rightarrow> u64" where
  "pml4_entry pdpt_addr = ucast (pdpt_addr OR PAGE_PRESENT_BIT OR PAGE_RW_BIT)"

definition pdpt_entry :: "u64 \<Rightarrow> u64" where
  "pdpt_entry page_addr = (page_addr OR ucast PAGE_PRESENT_BIT OR ucast PAGE_RW_BIT OR ucast PAGE_SIZE_BIT)"

definition setup_pdpt :: "u32 \<Rightarrow> u32 \<Rightarrow> memory \<Rightarrow> memory" where
  "setup_pdpt pdpt pdpt_idx = fold (\<lambda>i m.
     let page_addr = GB_PAGE_SIZE * ucast (pdpt_idx * PT_ENTRIES_NUM + of_nat i)
     in store64 (ucast (pdpt + PT_ENTRY_SIZE * of_nat i)) (pdpt_entry page_addr) m) [0..<unat PT_ENTRIES_NUM]"

definition setup_pml4 :: "u32 \<Rightarrow> memory \<Rightarrow> memory" where
  "setup_pml4 PML4 = fold (\<lambda>i m.
     let pdpt_addr = PML4 + PT_SIZE * (of_nat i + 1)
     in store64 (ucast (PML4 + PT_ENTRY_SIZE * of_nat i)) (pml4_entry pdpt_addr) (setup_pdpt pdpt_addr (of_nat i) m))
     [0..<unat PT_ENTRIES_NUM]"

definition load_cr3 :: "u32 \<Rightarrow> pm_state \<Rightarrow> pm_state" where
  "load_cr3 pml4 s = s\<lparr>cr3 := pml4\<rparr>"

definition enable_pae :: "pm_state \<Rightarrow> pm_state" where
  "enable_pae s = s\<lparr>cr4 := cr4 s OR push_bit 5 1\<rparr>"

text \<open>\<open>rdmsr\<close> and \<open>wrmsr\<close> of register \<open>0xC0000080\<close>; the code changes the low half.\<close>

definition enable_lm :: "pm_state \<Rightarrow> pm_state" where
  "enable_lm s = s\<lparr>efer := efer s OR push_bit 8 1\<rparr>"

definition enable_paging :: "pm_state \<Rightarrow> pm_state" where
  "enable_paging s = s\<lparr>cr0 := cr0 s OR push_bit 31 1\<rparr>"

definition setup_identity_paging :: "u32 \<Rightarrow> pm_state \<Rightarrow> pm_state" where
  "setup_identity_paging PML4 s =
     enable_paging (enable_lm (enable_pae (load_cr3 PML4 (s\<lparr>pm_mem := setup_pml4 PML4 (pm_mem s)\<rparr>))))"

record gdt_entry =
  ge_limit :: u16
  ge_base1 :: u16
  ge_base2 :: u8
  ge_access :: u8
  ge_flags :: u8
  ge_base3 :: u8

definition GDT_ACCESS_TYPE_CODE :: u8 where "GDT_ACCESS_TYPE_CODE = 11"
definition GDT_ACCESS_TYPE_DATA :: u8 where "GDT_ACCESS_TYPE_DATA = 3"
definition GDT_ACCESS_CODE_DATA_DESC :: u8 where "GDT_ACCESS_CODE_DATA_DESC = 0x10"
definition GDT_ACCESS_PRESENT :: u8 where "GDT_ACCESS_PRESENT = 0x80"
definition GDT_FLAGS_64BIT :: u8 where "GDT_FLAGS_64BIT = 0x20"
definition GDT_FLAGS_GRANULARITY :: u8 where "GDT_FLAGS_GRANULARITY = 0x80"

lemmas gdt_consts = GDT_ACCESS_TYPE_CODE_def GDT_ACCESS_TYPE_DATA_def GDT_ACCESS_CODE_DATA_DESC_def GDT_ACCESS_PRESENT_def
  GDT_FLAGS_64BIT_def GDT_FLAGS_GRANULARITY_def

definition g_lm_gdt :: "gdt_entry list" where
  "g_lm_gdt = [
     \<lparr>ge_limit = 0, ge_base1 = 0, ge_base2 = 0, ge_access = 0, ge_flags = 0, ge_base3 = 0\<rparr>,
     \<lparr>ge_limit = 0, ge_base1 = 0, ge_base2 = 0, ge_access = GDT_ACCESS_TYPE_CODE OR GDT_ACCESS_CODE_DATA_DESC OR GDT_ACCESS_PRESENT,
      ge_flags = 0xf OR GDT_FLAGS_64BIT OR GDT_FLAGS_GRANULARITY, ge_base3 = 0\<rparr>,
     \<lparr>ge_limit = 0, ge_base1 = 0, ge_base2 = 0, ge_access = GDT_ACCESS_TYPE_DATA OR GDT_ACCESS_CODE_DATA_DESC OR GDT_ACCESS_PRESENT,
      ge_flags = 0xf OR GDT_FLAGS_64BIT OR GDT_FLAGS_GRANULARITY, ge_base3 = 0\<rparr>]"

definition gdt_entry_bytes :: "gdt_entry \<Rightarrow> u8 list" where
  "gdt_entry_bytes e = le_bytes 2 (ge_limit e) @ le_bytes 2 (ge_base1 e) @ [ge_base2 e, ge_access e, ge_flags e, ge_base3 e]"

text \<open>
  The two fields of the packed variable \<open>g_lm_gdt_ptr\<close>, at \<open>ptr_at\<close>, are stored; \<open>lgdtl\<close> reads its operand from there and takes 32
  bits of the base; the far jump loads selector 8.
\<close>

definition load_lm_gdt :: "u32 \<Rightarrow> u32 \<Rightarrow> pm_state \<Rightarrow> pm_state" where
  "load_lm_gdt gdt_at ptr_at s =
     (let limit = of_nat (length (concat (map gdt_entry_bytes g_lm_gdt))) - 1 :: u16;
          m = mem_write (pm_mem s) (ucast ptr_at) (le_bytes 2 limit @ le_bytes 8 (ucast gdt_at :: u64));
          operand = mem_read m (ucast ptr_at) 6
      in s\<lparr>pm_mem := m, gdtr_limit := of_le (take 2 operand), gdtr_base := of_le (drop 2 operand),
           cs := 8, pc := CORE_MAIN_PHYS_ADDR\<rparr>)"

definition main_pm :: "u32 \<Rightarrow> u32 \<Rightarrow> u32 \<Rightarrow> pm_state \<Rightarrow> pm_state" where
  "main_pm PML4 gdt_at ptr_at s = load_lm_gdt gdt_at ptr_at (setup_identity_paging PML4 s)"

section \<open>What the processor makes of it\<close>

definition long_mode_active :: "pm_state \<Rightarrow> bool" where
  "long_mode_active s \<longleftrightarrow> bit (cr0 s) 31 \<and> bit (cr4 s) 5 \<and> bit (efer s) 8"

text \<open>The descriptor the code segment register selects is that of a present 64-bit code segment.\<close>

definition is_long_mode_code :: "pm_state \<Rightarrow> bool" where
  "is_long_mode_code s \<longleftrightarrow>
     (let d = ucast (gdtr_base s) + ucast (cs s AND 0xfff8); access = load8 (pm_mem s) (d + 5); flags = load8 (pm_mem s) (d + 6) in
      unat (cs s) + 7 \<le> unat (gdtr_limit s) \<and> bit access 7 \<and> bit access 4 \<and> bit access 3 \<and> bit flags 5 \<and> \<not> bit flags 6)"

definition canonical :: "u64 \<Rightarrow> bool" where
  "canonical v \<longleftrightarrow> (\<forall>i\<in>{47..<64}. bit v i = bit v 47)"

text \<open>
  The walk through the PML4 and a page-directory-pointer table that maps pages of 1 GB; \<open>None\<close> is a fault. A
  PDPT entry that points to a further table is \<open>None\<close> too: this code makes none.
\<close>

definition table_addr :: u64 where "table_addr = 0x000ffffffffff000"
definition gb_page_addr :: u64 where "gb_page_addr = 0x000fffffc0000000"

definition translate :: "pm_state \<Rightarrow> u64 \<Rightarrow> u64 option" where
  "translate s v =
     (if \<not> canonical v then None else
      let pml4e = load64 (pm_mem s) ((ucast (cr3 s) AND table_addr) + 8 * (drop_bit 39 v AND mask 9)) in
      if \<not> bit pml4e 0 then None else
      let pdpte = load64 (pm_mem s) ((pml4e AND table_addr) + 8 * (drop_bit 30 v AND mask 9)) in
      if \<not> bit pdpte 0 \<or> \<not> bit pdpte 7 then None
      else Some ((pdpte AND gb_page_addr) OR (v AND mask 30)))"

section \<open>The tables\<close>

lemma unat_PT_ENTRIES_NUM [simp]: "unat PT_ENTRIES_NUM = 512"
  by (simp add: PT_ENTRIES_NUM_def PT_SIZE_def PT_ENTRY_SIZE_def unat_div)

lemma ucast_add_small:
  assumes "unat (a :: u32) + n < 2 ^ 32"
  shows "(ucast (a + of_nat n) :: u64) = ucast a + of_nat n"
proof (rule word_unat_eq_iff [THEN iffD2])
  have n: "unat (of_nat n :: u32) = n" "unat (of_nat n :: u64) = n"
    using assms by (auto simp: unat_of_nat take_bit_nat_eq_self)
  have a: "unat (ucast a :: u64) = unat a" by (simp add: unat_ucast_up)
  have "unat (a + of_nat n) = unat a + n" using assms n by (simp add: unat_word_ariths)
  moreover have "unat (ucast a + of_nat n :: u64) = unat a + n" using assms n a by (simp add: unat_word_ariths)
  ultimately show "unat (ucast (a + of_nat n) :: u64) = unat (ucast a + of_nat n :: u64)" by (simp add: unat_ucast_up)
qed

text \<open>A run of 64-bit stores.\<close>

definition stores :: "(nat \<Rightarrow> u64) \<Rightarrow> u64 \<Rightarrow> nat \<Rightarrow> memory \<Rightarrow> memory" where
  "stores f base n = fold (\<lambda>i. store64 (base + of_nat (8 * i)) (f i)) [0..<n]"

lemma stores_Suc: "stores f base (Suc n) m = store64 (base + of_nat (8 * n)) (f n) (stores f base n m)"
  by (simp add: stores_def)

lemma load64_store64_other:
  "region a 8 \<inter> region b 8 = {} \<Longrightarrow> load64 (store64 b v m) a = load64 m a"
  by (rule load_store_apart) (simp add: apart_def)

lemma apart_offsets:
  assumes "unat (base :: u64) + k + a < 2 ^ 64" and "unat base + l + b < 2 ^ 64" and "k + a \<le> l \<or> l + b \<le> k"
  shows "region (base + of_nat k) a \<inter> region (base + of_nat l) b = {}"
  using assms(3)
proof
  assume "k + a \<le> l"
  then show ?thesis using assms by (intro region_disjointI(1)) (simp_all add: unat_offset)
next
  assume "l + b \<le> k"
  then show ?thesis using assms by (intro region_disjointI(2)) (simp_all add: unat_offset)
qed

lemma load64_stores:
  assumes "unat base + 8 * n < 2 ^ 64" and "j < n"
  shows "load64 (stores f base n m) (base + of_nat (8 * j)) = f j"
  using assms
proof (induction n)
  case 0
  then show ?case by simp
next
  case (Suc n)
  show ?case
  proof (cases "j = n")
    case True
    then show ?thesis by (simp only: stores_Suc load64_store64)
  next
    case False
    then have "j < n" using Suc.prems by simp
    then show ?thesis
      unfolding stores_Suc using Suc by (subst load64_store64_other [OF apart_offsets]) simp_all
  qed
qed

lemma stores_frame:
  assumes "unat base + 8 * n < 2 ^ 64" and "x \<notin> region base (8 * n)"
  shows "stores f base n m x = m x"
  using assms
proof (induction n)
  case 0
  then show ?case by (simp add: stores_def)
next
  case (Suc n)
  have "x \<notin> region (base + of_nat (8 * n)) 8"
  proof
    assume "x \<in> region (base + of_nat (8 * n)) 8"
    then obtain i where i: "i < 8" "x = base + of_nat (8 * n) + of_nat i" by (metis region_cases)
    then have "x = base + of_nat (8 * n + i)" by (simp only: of_nat_add add.assoc)
    moreover have "8 * n + i < 8 * Suc n" using i(1) by simp
    ultimately show False using Suc.prems region_offset [of "8 * n + i" "8 * Suc n" base] by simp
  qed
  moreover have "x \<notin> region base (8 * n)"
    using Suc.prems(2) region_mono [of "8 * n" "8 * Suc n" base] by auto
  ultimately show ?case using Suc by (simp add: stores_Suc store64_frame)
qed

definition pdpt_value :: "nat \<Rightarrow> nat \<Rightarrow> u64" where
  "pdpt_value i j = pdpt_entry (GB_PAGE_SIZE * of_nat (512 * i + j))"

lemma setup_pdpt_stores:
  assumes "unat pdpt + 4096 \<le> 2 ^ 32" and "i < 512"
  shows "setup_pdpt pdpt (of_nat i) = stores (pdpt_value i) (ucast pdpt) 512"
  unfolding setup_pdpt_def stores_def unat_PT_ENTRIES_NUM Let_def
proof (rule ext, rule fold_cong [OF refl refl], rule ext)
  fix j and m :: memory
  assume "j \<in> set [0..<512]"
  then have j: "j < 512" by simp
  have "of_nat i * PT_ENTRIES_NUM + of_nat j = (of_nat (512 * i + j) :: u32)"
    by (simp add: PT_ENTRIES_NUM_def PT_SIZE_def PT_ENTRY_SIZE_def)
  then have "(ucast (of_nat i * PT_ENTRIES_NUM + of_nat j) :: u64) = of_nat (512 * i + j)"
    using assms(2) j ucast_add_small [of 0 "512 * i + j"] by simp
  moreover have "(ucast (pdpt + PT_ENTRY_SIZE * of_nat j) :: u64) = ucast pdpt + of_nat (8 * j)"
    using assms(1) j ucast_add_small [of pdpt "8 * j"] by (simp add: PT_ENTRY_SIZE_def)
  ultimately show "store64 (ucast (pdpt + PT_ENTRY_SIZE * of_nat j))
      (pdpt_entry (GB_PAGE_SIZE * ucast (of_nat i * PT_ENTRIES_NUM + of_nat j))) m =
    store64 (ucast pdpt + of_nat (8 * j)) (pdpt_value i j) m"
    by (simp add: pdpt_value_def)
qed

text \<open>The memory after the first \<open>n\<close> rounds of \<open>setup_pml4\<close>.\<close>

definition pml4_rounds :: "u32 \<Rightarrow> nat \<Rightarrow> memory \<Rightarrow> memory" where
  "pml4_rounds P n = fold (\<lambda>i m.
     let pdpt_addr = P + PT_SIZE * (of_nat i + 1)
     in store64 (ucast (P + PT_ENTRY_SIZE * of_nat i)) (pml4_entry pdpt_addr) (setup_pdpt pdpt_addr (of_nat i) m)) [0..<n]"

definition tables_size :: nat where "tables_size = 4096 * 513"

lemma pml4_rounds_Suc:
  assumes "unat P + tables_size \<le> 2 ^ 32" and "n < 512"
  shows "pml4_rounds P (Suc n) m = store64 (ucast P + of_nat (8 * n)) (pml4_entry (P + of_nat (4096 * Suc n)))
    (stores (pdpt_value n) (ucast P + of_nat (4096 * Suc n)) 512 (pml4_rounds P n m))"
proof -
  have pd: "P + PT_SIZE * (of_nat n + 1) = P + of_nat (4096 * Suc n)"
    by (simp add: PT_SIZE_def algebra_simps)
  have "unat P + 4096 * Suc n < 2 ^ 32" and le: "unat (P + of_nat (4096 * Suc n)) + 4096 \<le> 2 ^ 32"
    using assms by (simp_all add: tables_size_def unat_word_ariths unat_of_nat take_bit_nat_eq_self)
  then have c: "(ucast (P + of_nat (4096 * Suc n)) :: u64) = ucast P + of_nat (4096 * Suc n)"
    by (intro ucast_add_small)
  have "(ucast (P + PT_ENTRY_SIZE * of_nat n) :: u64) = ucast P + of_nat (8 * n)"
    using assms ucast_add_small [of P "8 * n"] by (simp add: PT_ENTRY_SIZE_def tables_size_def)
  then show ?thesis
    unfolding pml4_rounds_def
    by (simp only: upt_Suc_append [OF le0] fold_append fold_simps comp_apply Let_def pd setup_pdpt_stores [OF le assms(2)] c)
qed

definition tables_done :: "u32 \<Rightarrow> nat \<Rightarrow> memory \<Rightarrow> bool" where
  "tables_done P n m \<longleftrightarrow> (\<forall>i<n. load64 m (ucast P + of_nat (8 * i)) = pml4_entry (P + of_nat (4096 * Suc i)) \<and>
     (\<forall>j<512. load64 m (ucast P + of_nat (4096 * Suc i + 8 * j)) = pdpt_value i j))"

lemma load64_stores_other:
  assumes "unat base + 8 * n < 2 ^ 64" and "region a 8 \<inter> region base (8 * n) = {}"
  shows "load64 (stores f base n m) a = load64 m a"
  using assms by (intro load64_cong stores_frame) auto

lemma pml4_rounds_done:
  assumes P: "unat P + tables_size \<le> 2 ^ 32"
  shows "n \<le> 512 \<Longrightarrow> tables_done P n (pml4_rounds P n m)"
proof (induction n)
  case 0
  then show ?case by (simp add: tables_done_def)
next
  case (Suc n)
  let ?B = "ucast P :: u64" and ?m = "pml4_rounds P n m"
  have B: "unat ?B = unat P" by (simp add: unat_ucast_up)
  have n: "n < 512" using Suc.prems by simp
  have sz: "unat (?B + of_nat (4096 * Suc n)) + 8 * 512 < 2 ^ 64"
    using P n B by (subst unat_offset) (simp_all add: tables_size_def)
  have other: "region (?B + of_nat k) 8 \<inter> region (?B + of_nat (4096 * Suc n)) (8 * 512) = {}"
    if "k + 8 \<le> 4096 * Suc n \<or> 4096 * Suc n + 4096 \<le> k" "k < tables_size" for k
    using that P n B by (intro apart_offsets) (auto simp: tables_size_def)
  have here: "region (?B + of_nat k) 8 \<inter> region (?B + of_nat (8 * n)) 8 = {}"
    if "k + 8 \<le> 8 * n \<or> 8 * n + 8 \<le> k" "k < tables_size" for k
    using that P n B by (intro apart_offsets) (auto simp: tables_size_def)
  show ?case
    unfolding tables_done_def
  proof (intro allI impI)
    fix i
    assume "i < Suc n"
    then consider "i = n" | "i < n" by linarith
    then show "load64 (pml4_rounds P (Suc n) m) (?B + of_nat (8 * i)) = pml4_entry (P + of_nat (4096 * Suc i)) \<and>
      (\<forall>j<512. load64 (pml4_rounds P (Suc n) m) (?B + of_nat (4096 * Suc i + 8 * j)) = pdpt_value i j)"
    proof cases
      case 1
      have "load64 (pml4_rounds P (Suc n) m) (?B + of_nat (4096 * Suc n + 8 * j)) = pdpt_value n j" if "j < 512" for j
      proof -
        have addr: "?B + of_nat (4096 * Suc n + 8 * j) = ?B + of_nat (4096 * Suc n) + of_nat (8 * j)"
          by (simp only: of_nat_add add.assoc)
        have "load64 (pml4_rounds P (Suc n) m) (?B + of_nat (4096 * Suc n + 8 * j)) =
          load64 (stores (pdpt_value n) (?B + of_nat (4096 * Suc n)) 512 ?m) (?B + of_nat (4096 * Suc n + 8 * j))"
          unfolding pml4_rounds_Suc [OF P n] using that n
          by (intro load64_store64_other here) (auto simp: tables_size_def)
        then show ?thesis unfolding addr load64_stores [OF sz that] .
      qed
      with 1 show ?thesis by (simp only: pml4_rounds_Suc [OF P n] load64_store64) blast
    next
      case 2
      have rd: "load64 (pml4_rounds P (Suc n) m) (?B + of_nat k) = load64 ?m (?B + of_nat k)"
        if "k + 8 \<le> 4096 * Suc n \<or> 4096 * Suc n + 4096 \<le> k" "k < tables_size" "k + 8 \<le> 8 * n \<or> 8 * n + 8 \<le> k" for k
        unfolding pml4_rounds_Suc [OF P n] load64_store64_other [OF here [OF that(3,2)]]
        by (rule load64_stores_other [OF sz other [OF that(1,2)]])
      have "load64 (pml4_rounds P (Suc n) m) (?B + of_nat (8 * i)) = load64 ?m (?B + of_nat (8 * i))"
        using 2 n by (intro rd) (auto simp: tables_size_def)
      moreover have "load64 (pml4_rounds P (Suc n) m) (?B + of_nat (4096 * Suc i + 8 * j)) =
          load64 ?m (?B + of_nat (4096 * Suc i + 8 * j))" if "j < 512" for j
        using 2 n that by (intro rd) (auto simp: tables_size_def)
      ultimately show ?thesis using Suc 2 unfolding tables_done_def by (metis Suc_leD)
    qed
  qed
qed

lemma pml4_rounds_frame:
  assumes P: "unat P + tables_size \<le> 2 ^ 32" and x: "x \<notin> region (ucast P) tables_size"
  shows "n \<le> 512 \<Longrightarrow> pml4_rounds P n m x = m x"
proof (induction n)
  case 0
  then show ?case by (simp add: pml4_rounds_def)
next
  case (Suc n)
  let ?B = "ucast P :: u64"
  have B: "unat ?B = unat P" by (simp add: unat_ucast_up)
  have n: "n < 512" using Suc.prems by simp
  have out: "x \<notin> region (?B + of_nat k) l" if "k + l \<le> tables_size" for k l
  proof
    assume "x \<in> region (?B + of_nat k) l"
    then obtain i where i: "i < l" "x = ?B + of_nat k + of_nat i" by (metis region_cases)
    then have "x = ?B + of_nat (k + i)" by (simp only: of_nat_add add.assoc)
    then show False using x region_offset [of "k + i" tables_size ?B] that i(1) by (simp add: tables_size_def)
  qed
  have sz: "unat (?B + of_nat (4096 * Suc n)) + 8 * 512 < 2 ^ 64"
    using P n B by (subst unat_offset) (simp_all add: tables_size_def)
  have "x \<notin> region (?B + of_nat (8 * n)) 8" "x \<notin> region (?B + of_nat (4096 * Suc n)) (8 * 512)"
    using n by (intro out; simp add: tables_size_def)+
  with Suc n show ?case
    unfolding pml4_rounds_Suc [OF P n] by (simp only: store64_frame stores_frame [OF sz] Suc_leD simp_thms)
qed

section \<open>Addresses\<close>

lemma mask_numerals:
  "table_addr = push_bit 12 (mask 40)" "gb_page_addr = push_bit 30 (mask 22)"
  by (simp_all add: table_addr_def gb_page_addr_def mask_eq_exp_minus_1 push_bit_eq_mult)

lemma bit_small_numeral: "bit (w :: 'a::len word) n \<Longrightarrow> take_bit k w = w \<Longrightarrow> n < k"
  by (metis bit_take_bit_iff)

lemma flag_bits: "bit (131 :: int) n \<Longrightarrow> n < 8" "bit (3 :: int) n \<Longrightarrow> n < 2"
  using bit_take_bit_iff [of 8 "131 :: int" n] bit_take_bit_iff [of 2 "3 :: int" n] by (simp_all add: take_bit_eq_mod)

lemma pdpt_entry_page: "pdpt_entry (push_bit 30 w) AND gb_page_addr = push_bit 30 (take_bit 22 w)"
  unfolding mask_numerals pdpt_entry_def PAGE_PRESENT_BIT_def PAGE_RW_BIT_def PAGE_SIZE_BIT_def
  by (rule bit_word_eqI) (auto simp: bit_simps dest!: flag_bits)

lemma pdpt_entry_flags: "bit (pdpt_entry (push_bit 30 w)) 0" "bit (pdpt_entry (push_bit 30 w)) 7"
  unfolding pdpt_entry_def PAGE_PRESENT_BIT_def PAGE_RW_BIT_def PAGE_SIZE_BIT_def
  by (simp_all add: bit_simps)

lemma not_bit_low: "take_bit k (w :: 'a::len word) = 0 \<Longrightarrow> n < k \<Longrightarrow> \<not> bit w n"
  by (metis bit_0_eq bit_take_bit_iff bot_apply bot_bool_def)

lemma table_addr_aligned: "take_bit 12 a = 0 \<Longrightarrow> (ucast (a :: u32) :: u64) AND table_addr = ucast a"
  unfolding mask_numerals
  by (rule bit_word_eqI) (auto simp: bit_simps not_le dest: not_bit_low bit_imp_le_length)

lemma pml4_entry_table: "take_bit 12 a = 0 \<Longrightarrow> pml4_entry a AND table_addr = ucast a"
  unfolding mask_numerals pml4_entry_def PAGE_PRESENT_BIT_def PAGE_RW_BIT_def
  by (rule bit_word_eqI) (auto simp: bit_simps not_le dest: not_bit_low bit_imp_le_length dest!: flag_bits)

lemma pml4_entry_present: "bit (pml4_entry a) 0"
  unfolding pml4_entry_def PAGE_PRESENT_BIT_def PAGE_RW_BIT_def by (simp add: bit_simps)

lemma aligned_table:
  assumes "take_bit 12 (P :: u32) = 0"
  shows "take_bit 12 (P + of_nat (4096 * k)) = 0"
proof -
  have iff: "take_bit 12 (w :: u32) = 0 \<longleftrightarrow> unat w mod 4096 = 0" for w
    by (simp add: word_unat_eq_iff take_bit_eq_mod unat_mod)
  have "unat (P + of_nat (4096 * k)) = (unat P + 4096 * k) mod 2 ^ 32"
    by (simp only: unat_word_ariths unat_of_nat take_bit_eq_mod mod_add_right_eq) simp
  then have "unat (P + of_nat (4096 * k)) mod 4096 = (unat P + 4096 * k) mod 4096"
    by (simp only: mod_mod_cancel) (simp add: mod_mod_cancel)
  also have "\<dots> = 0" using assms unfolding iff by simp
  finally show ?thesis unfolding iff .
qed

lemma bit_below_47: "(v :: u64) < 2 ^ 47 \<Longrightarrow> bit v n \<Longrightarrow> n < 47"
  by (rule bit_small_numeral, assumption)
    (simp add: word_less_nat_alt word_unat_eq_iff unsigned_take_bit_eq take_bit_nat_eq_self)

text \<open>An address of the lower half is its page with its offset.\<close>

lemma page_and_offset:
  assumes "(v :: u64) < 2 ^ 47"
  shows "push_bit 30 (take_bit 22 (drop_bit 30 v)) OR (v AND mask 30) = v"
proof -
  have "bit v n \<Longrightarrow> n < 47" for n using assms by (rule bit_below_47)
  then show ?thesis by (intro bit_word_eqI) (fastforce simp: bit_simps not_le)
qed

lemma canonical_low: "(v :: u64) < 2 ^ 47 \<Longrightarrow> canonical v"
  using bit_below_47 [of v] by (force simp: canonical_def)

text \<open>The indices of the two tables.\<close>

lemma table_indices:
  assumes "(v :: u64) < 2 ^ 47"
  obtains i j where "i < 256" "j < 512" "drop_bit 39 v AND mask 9 = of_nat i" "drop_bit 30 v AND mask 9 = of_nat j"
    "of_nat (512 * i + j) = drop_bit 30 v"
proof -
  let ?n = "unat v div 2 ^ 30"
  have v: "unat v < 2 ^ 47" using assms by (simp add: word_less_nat_alt)
  have d30: "drop_bit 30 v = of_nat ?n" and d39: "drop_bit 39 v = of_nat (?n div 512)"
    by (simp_all add: word_unat_eq_iff drop_bit_eq_div unat_div div_mult2_eq [symmetric] unat_of_nat_small
        order.strict_trans1 [OF div_le_dividend unsigned_less [of v, simplified]])
  have n: "?n < 2 ^ 17" using v by (simp add: less_mult_imp_div_less)
  have "(of_nat (?n div 512) :: u64) AND mask 9 = of_nat (?n div 512 mod 512)"
    by (simp only: take_bit_eq_mask [symmetric] take_bit_of_nat) (simp add: take_bit_eq_mod)
  moreover have "(of_nat ?n :: u64) AND mask 9 = of_nat (?n mod 512)"
    by (simp only: take_bit_eq_mask [symmetric] take_bit_of_nat) (simp add: take_bit_eq_mod)
  moreover have "512 * (?n div 512 mod 512) + ?n mod 512 = ?n" using n by (simp add: less_mult_imp_div_less)
  moreover have "?n div 512 mod 512 < 256" using n by (simp add: less_mult_imp_div_less)
  ultimately show ?thesis
    using that [of "?n div 512 mod 512" "?n mod 512"] unfolding d30 d39 by simp
qed

lemma translate_identity:
  assumes "take_bit 12 P = 0" and "unat P + tables_size \<le> 2 ^ 32" and v: "v < 2 ^ 47" and "cr3 s = P"
    and "tables_done P 512 (pm_mem s)"
  shows "translate s v = Some v"
proof -
  obtain i j where ij: "i < 256" "j < 512" "drop_bit 39 v AND mask 9 = of_nat i" "drop_bit 30 v AND mask 9 = of_nat j"
    "of_nat (512 * i + j) = drop_bit 30 v"
    using table_indices [OF v] .
  have c: "(ucast (P + of_nat (4096 * Suc i)) :: u64) = ucast P + of_nat (4096 * Suc i)"
    using assms(2) ij(1) by (intro ucast_add_small) (simp add: tables_size_def)
  have "load64 (pm_mem s) (ucast P + of_nat (8 * i)) = pml4_entry (P + of_nat (4096 * Suc i))"
    "load64 (pm_mem s) (ucast P + of_nat (4096 * Suc i + 8 * j)) = pdpt_value i j"
    using assms(5) ij(1,2) by (simp_all add: tables_done_def del: of_nat_mult of_nat_add)
  moreover have "ucast P + of_nat (4096 * Suc i + 8 * j) = ucast (P + of_nat (4096 * Suc i)) + (8 * of_nat j :: u64)"
    unfolding c by simp
  moreover have "pdpt_value i j = pdpt_entry (push_bit 30 (drop_bit 30 v))"
    unfolding pdpt_value_def ij(5) by (simp add: GB_PAGE_SIZE_def push_bit_eq_mult mult.commute)
  ultimately have entries: "load64 (pm_mem s) (ucast P + 8 * of_nat i) = pml4_entry (P + of_nat (4096 * Suc i))"
    "load64 (pm_mem s) (ucast (P + of_nat (4096 * Suc i)) + 8 * of_nat j) = pdpt_entry (push_bit 30 (drop_bit 30 v))"
    by (simp_all only: of_nat_mult of_nat_numeral)
  show ?thesis
    unfolding translate_def Let_def ij(3,4) assms(4) table_addr_aligned [OF assms(1)] entries
      pml4_entry_table [OF aligned_table [OF assms(1)]]
    using canonical_low [OF v]
    by (simp only: pml4_entry_present pdpt_entry_flags pdpt_entry_page page_and_offset [OF v] simp_thms if_True if_False)
qed

section \<open>Long mode\<close>

lemma gdt_bytes: "concat (map gdt_entry_bytes g_lm_gdt) =
  [0, 0, 0, 0, 0, 0, 0, 0, 0, 0, 0, 0, 0, 0x9b, 0xaf, 0, 0, 0, 0, 0, 0, 0x93, 0xaf, 0]"
  by (simp add: g_lm_gdt_def gdt_entry_bytes_def le_bytes_def upt_rec gdt_consts)

lemma pml4_frame:
  "unat P + tables_size \<le> 2 ^ 32 \<Longrightarrow> x \<notin> region (ucast P) tables_size \<Longrightarrow> setup_pml4 P m x = m x"
  using pml4_rounds_frame [of P x 512 m] by (simp add: setup_pml4_def pml4_rounds_def)

lemma pml4_done: "unat P + tables_size \<le> 2 ^ 32 \<Longrightarrow> tables_done P 512 (setup_pml4 P m)"
  using pml4_rounds_done [of P 512 m] by (simp add: setup_pml4_def pml4_rounds_def)

lemma tables_done_cong:
  assumes "unat P + tables_size \<le> 2 ^ 32" and d: "tables_done P 512 m" and same: "\<And>x. x \<in> region (ucast P) tables_size \<Longrightarrow> m' x = m x"
  shows "tables_done P 512 m'"
proof -
  have "load64 m' (ucast P + of_nat k) = load64 m (ucast P + of_nat k)" if "k + 8 \<le> tables_size" for k
  proof (rule load64_cong)
    fix x assume "x \<in> region (ucast P + of_nat k) 8"
    then obtain i where "i < 8" "x = ucast P + of_nat (k + i)" by (auto dest!: region_cases simp: add.assoc)
    then show "m' x = m x" using that region_offset [of "k + i" tables_size "ucast P"] by (intro same) (simp add: tables_size_def)
  qed
  note ld = this
  have "8 * i + 8 \<le> tables_size" "4096 * Suc i + 8 * j + 8 \<le> tables_size" if "i < 512" "j < 512" for i j
    using that by (simp_all add: tables_size_def)
  then have "load64 m' (ucast P + of_nat (8 * i)) = load64 m (ucast P + of_nat (8 * i))"
    "load64 m' (ucast P + of_nat (4096 * Suc i + 8 * j)) = load64 m (ucast P + of_nat (4096 * Suc i + 8 * j))" if "i < 512" "j < 512" for i j
    using that ld by blast+
  with d show ?thesis unfolding tables_done_def by (metis zero_less_numeral)
qed

text \<open>What \<open>lgdtl\<close> reads back of the packed pointer.\<close>

lemma lgdtl_operand:
  fixes l :: u16 and g :: u32
  defines "operand m p \<equiv> mem_read (mem_write m p (le_bytes 2 l @ le_bytes 8 (ucast g :: u64))) p 6"
  shows "of_le (take 2 (operand m p)) = l" "of_le (drop 2 (operand m p)) = g"
proof -
  have nth: "operand m p ! i = (le_bytes 2 l @ le_bytes 8 (ucast g :: u64)) ! i" if "i < 6" for i
    unfolding operand_def using that by (simp add: mem_write_inside)
  have "take 2 (operand m p) = le_bytes 2 l"
    by (rule nth_equalityI) (simp_all add: nth nth_append, simp add: operand_def)
  then show "of_le (take 2 (operand m p)) = l" by simp
  have "drop 2 (operand m p) = le_bytes 4 g"
  proof (rule nth_equalityI)
    show "length (drop 2 (operand m p)) = length (le_bytes 4 g)" by (simp add: operand_def)
    fix i assume "i < length (drop 2 (operand m p))"
    then have i: "i < 4" by (simp add: operand_def)
    have "drop 2 (operand m p) ! i = operand m p ! (2 + i)" by (rule nth_drop) (simp add: operand_def)
    also have "\<dots> = le_bytes 8 (ucast g :: u64) ! i" using i by (simp add: nth nth_append)
    also have "\<dots> = le_bytes 4 g ! i"
      using i by (simp add: le_bytes_def) (rule bit_word_eqI, auto simp: bit_simps)
    finally show "drop 2 (operand m p) ! i = le_bytes 4 g ! i" .
  qed
  then show "of_le (drop 2 (operand m p)) = g" by simp
qed

text \<open>C15: \<open>main_pm\<close> jumps to \<open>core_main\<close> in 64-bit mode: paging, PAE and long mode are enabled, the code segment is a
  present 64-bit code segment, every address of the lower half of the address space is translated to itself,
  and no memory but the page tables and the ten bytes of \<open>g_lm_gdt_ptr\<close> has changed. The page tables must be
  aligned and inside the first 4 GB, and the tables, the descriptor table and the pointer apart from each other.\<close>

theorem main_pm_enters_long_mode:
  assumes "take_bit 12 tables = 0" and "unat tables + tables_size \<le> 2 ^ 32"
    and "mem_read (pm_mem s) (ucast gdt_at) 24 = concat (map gdt_entry_bytes g_lm_gdt)"
    and "region (ucast gdt_at) 24 \<inter> region (ucast tables) tables_size = {}"
    and "region (ucast ptr_at) 10 \<inter> (region (ucast tables) tables_size \<union> region (ucast gdt_at) 24) = {}"
  shows "let t = main_pm tables gdt_at ptr_at s in
    pc t = CORE_MAIN_PHYS_ADDR \<and> long_mode_active t \<and> is_long_mode_code t \<and> (\<forall>v < 2 ^ 47. translate t v = Some v) \<and>
    (\<forall>x. x \<notin> region (ucast tables) tables_size \<union> region (ucast ptr_at) 10 \<longrightarrow> pm_mem t x = pm_mem s x)"
proof -
  define t where "t = main_pm tables gdt_at ptr_at s"
  let ?g = "ucast gdt_at :: u64"
  note defs = t_def main_pm_def load_lm_gdt_def setup_identity_paging_def enable_paging_def enable_lm_def enable_pae_def load_cr3_def Let_def
  have m: "pm_mem t = mem_write (setup_pml4 tables (pm_mem s)) (ucast ptr_at) (le_bytes 2 (23 :: u16) @ le_bytes 8 (ucast gdt_at :: u64))"
    by (simp add: defs gdt_bytes)
  have ptr: "pm_mem t x = setup_pml4 tables (pm_mem s) x" if "x \<notin> region (ucast ptr_at) 10" for x
    unfolding m by (rule mem_write_outside) (use that in simp)
  have pc: "pc t = CORE_MAIN_PHYS_ADDR" by (simp add: defs)
  have lm: "long_mode_active t" by (simp add: long_mode_active_def defs bit_simps)
  have byte: "pm_mem t (?g + of_nat i) = concat (map gdt_entry_bytes g_lm_gdt) ! i" if "i < 24" for i
  proof -
    have "?g + of_nat i \<in> region ?g 24" using that by (intro region_offset) simp_all
    then have "?g + of_nat i \<notin> region (ucast ptr_at) 10" "?g + of_nat i \<notin> region (ucast tables) tables_size" using assms(4,5) by auto
    then have "pm_mem t (?g + of_nat i) = pm_mem s (?g + of_nat i)"
      using assms(2) by (simp add: ptr pml4_frame)
    also have "\<dots> = mem_read (pm_mem s) ?g 24 ! i" using that by simp
    finally show ?thesis using assms(3) by simp
  qed
  have "gdtr_base t = gdt_at" "cs t = 8" "gdtr_limit t = 23"
    using lgdtl_operand [of "setup_pml4 tables (pm_mem s)" "ucast ptr_at" 23 gdt_at] by (simp_all add: defs gdt_bytes)
  then have code: "is_long_mode_code t"
    using byte [of 13] byte [of 14]
    by (simp add: is_long_mode_code_def load8_def gdt_bytes add.assoc)
  have id: "\<forall>v < 2 ^ 47. translate t v = Some v"
  proof (intro allI impI translate_identity [OF assms(1,2)])
    show "cr3 t = tables" by (simp add: defs)
    show "tables_done tables 512 (pm_mem t)"
      by (rule tables_done_cong [OF assms(2) pml4_done [OF assms(2), of "pm_mem s"]]) (use assms(5) in \<open>auto intro: ptr\<close>)
  qed
  show ?thesis
    using pc lm code id pml4_frame [OF assms(2)] ptr by (simp add: Let_def flip: t_def)
qed

definition example_pm :: pm_state where
  "example_pm = \<lparr>pm_mem = mem_write (\<lambda>_. 0) 0x40001000 (concat (map gdt_entry_bytes g_lm_gdt)),
     cr0 = 0x11, cr3 = 0, cr4 = 0, efer = 0, gdtr_limit = 0, gdtr_base = 0, cs = 8, pc = 0x40000000\<rparr>"

theorem main_pm_enters_long_mode_witness:
  "translate (main_pm 0x40002000 0x40001000 0x40001020 example_pm) 0x41001000 = Some 0x41001000"
proof -
  have "mem_read (pm_mem example_pm) 0x40001000 24 = concat (map gdt_entry_bytes g_lm_gdt)"
    by (simp add: example_pm_def mem_read_write_same gdt_bytes)
  moreover have "region 0x40001000 24 \<inter> region 0x40002000 tables_size = {}" "region 0x40001020 10 \<inter> region 0x40002000 tables_size = {}"
    by (rule region_disjointI(1); simp add: tables_size_def)+
  moreover have "region 0x40001020 10 \<inter> region 0x40001000 24 = {}" by (rule region_disjointI(2)) simp_all
  moreover have "take_bit 12 (0x40002000 :: u32) = 0" "unat (0x40002000 :: u32) + tables_size \<le> 2 ^ 32"
    by (simp_all add: take_bit_eq_mod tables_size_def)
  ultimately show ?thesis
    using main_pm_enters_long_mode [where tables = "0x40002000" and gdt_at = "0x40001000" and ptr_at = "0x40001020" and s = example_pm]
    by (simp add: Let_def word_less_nat_alt Int_Un_distrib)
qed

end
