(* ===== verification/QemuPrint.thy ===== *)
theory QemuPrint
  imports MemUtils
begin

text \<open>
  Trace output on the debug console of QEMU, \<^verbatim>\<open>shared/src/qemu_print/qemu_print.c\<close>. The state is what has been
  written to the port; the variable arguments are the list of their 64-bit slots, strings are read from the
  memory, with fuel. A \<open>wchar_t\<close> has 16 bits (the hooks are compiled with \<^verbatim>\<open>-fshort-wchar\<close>).
\<close>

section \<open>The code\<close>

definition qemu_print_char :: "u8 \<Rightarrow> (u8 list, unit) cfun" where
  "qemu_print_char c = modify (\<lambda>out. out @ [c])"

definition qemu_print_chars :: "u8 list \<Rightarrow> (u8 list, unit) cfun" where
  "qemu_print_chars chars = for_each chars qemu_print_char"

text \<open>The loop that fills the array \<open>digits\<close> from its end; it returns the index of the first digit.\<close>

primrec fill_digits :: "nat \<Rightarrow> u64 \<Rightarrow> u8 \<Rightarrow> nat \<Rightarrow> u8 list \<Rightarrow> ('s, nat \<times> u8 list) cfun" where
  "fill_digits 0 num base idx digits = faults Out_Of_Fuel"
| "fill_digits (Suc n) num base idx digits =
     (if num > 0 then
        seq (defined_if (0 < idx \<and> base \<noteq> 0))
       (let remainder = num mod ucast base;
            d = if remainder < 10 then ucast remainder + 0x30 else ucast remainder + 0x41 - 10 in
        fill_digits n (num div ucast base) base (idx - 1) (digits[idx - 1 := d]))
      else ret (idx, digits))"

definition qemu_print_unsigned_num :: "u64 \<Rightarrow> u8 \<Rightarrow> (u8 list, unit) cfun" where
  "qemu_print_unsigned_num num base =
     (if num = 0 then qemu_print_char 0x30
      else bind (fill_digits 65 num base 64 (replicate 64 0)) (\<lambda>(idx, digits). qemu_print_chars (drop idx digits)))"

text \<open>\<open>for (arg_c = arg; *arg_c != 0; arg_c++)\<close> for the two widths of characters.\<close>

primrec print_string :: "nat \<Rightarrow> u8 cstring \<Rightarrow> nat \<Rightarrow> (u8 list, unit) cfun" where
  "print_string 0 s i = faults Out_Of_Fuel"
| "print_string (Suc n) s i = (if s i \<noteq> 0 then seq (qemu_print_char (s i)) (print_string n s (Suc i)) else ret ())"

primrec print_wide_string :: "nat \<Rightarrow> u16 cstring \<Rightarrow> nat \<Rightarrow> (u8 list, unit) cfun" where
  "print_wide_string 0 s i = faults Out_Of_Fuel"
| "print_wide_string (Suc n) s i =
     (if s i \<noteq> 0 then seq (qemu_print_char (ucast (s i))) (print_wide_string n s (Suc i)) else ret ())"

definition va_arg :: "u64 list \<Rightarrow> ('s, u64 \<times> u64 list) cfun" where
  "va_arg args = (case args of [] \<Rightarrow> faults Undefined_Behaviour | a # as \<Rightarrow> ret (a, as))"

definition PERCENT :: u8 where "PERCENT = 0x25"

text \<open>The loop over the format \<open>c\<close> from index \<open>i\<close>; \<open>m\<close> is the memory the string arguments are in.\<close>

primrec qemu_print_from :: "nat \<Rightarrow> memory \<Rightarrow> u8 cstring \<Rightarrow> nat \<Rightarrow> u64 list \<Rightarrow> (u8 list, unit) cfun" where
  "qemu_print_from 0 m c i args = faults Out_Of_Fuel"
| "qemu_print_from (Suc n) m c i args =
     (if c i = 0 then ret ()
      else if c i = PERCENT \<and> c (i + 1) \<noteq> PERCENT \<and> c (i + 1) \<noteq> 0 then
        if c (i + 1) = 0x6c then
          if c (i + 2) = 0x75 then
            bind (va_arg args) (\<lambda>(a, as). seq (qemu_print_unsigned_num a 10) (qemu_print_from n m c (i + 3) as))
          else if c (i + 2) = 0x78 then
            bind (va_arg args) (\<lambda>(a, as). seq (qemu_print_unsigned_num a 16) (qemu_print_from n m c (i + 3) as))
          else if c (i + 2) = 0x73 then
            bind (va_arg args) (\<lambda>(a, as). seq (print_wide_string n (\<lambda>k. load16 m (a + 2 * of_nat k)) 0) (qemu_print_from n m c (i + 3) as))
          else qemu_print_from n m c (i + 3) args
        else if c (i + 1) = 0x75 then
          bind (va_arg args) (\<lambda>(a, as). seq (qemu_print_unsigned_num (ucast (ucast a :: u32)) 10) (qemu_print_from n m c (i + 2) as))
        else if c (i + 1) = 0x78 then
          bind (va_arg args) (\<lambda>(a, as). seq (qemu_print_unsigned_num (ucast (ucast a :: u32)) 16) (qemu_print_from n m c (i + 2) as))
        else if c (i + 1) = 0x73 then
          bind (va_arg args) (\<lambda>(a, as). seq (print_string n (\<lambda>k. m (a + of_nat k)) 0) (qemu_print_from n m c (i + 2) as))
        else qemu_print_from n m c (i + 2) args
      else if c i = PERCENT \<and> c (i + 1) = PERCENT then
        seq (qemu_print_char (c (i + 1))) (qemu_print_from n m c (i + 2) args)
      else seq (qemu_print_char (c i)) (qemu_print_from n m c (i + 1) args))"

definition qemu_print :: "nat \<Rightarrow> memory \<Rightarrow> u8 cstring \<Rightarrow> u64 list \<Rightarrow> (u8 list, u64) cfun" where
  "qemu_print fuel m fmt args = seq (qemu_print_from fuel m fmt 0 args) (ret 0)"

lemma wp_print_char [wp_simps]: "wp (qemu_print_char c) Q E out = Q () (out @ [c])"
  by (simp add: qemu_print_char_def wp_simps)

lemma wp_print_chars [wp_simps]: "wp (qemu_print_chars cs) Q E out = Q () (out @ cs)"
  unfolding qemu_print_chars_def by (induction cs arbitrary: out) (simp_all add: wp_simps)

section \<open>Numerals\<close>

text \<open>The numeral of a number in a base up to 36, most significant digit first, and the number of a numeral.\<close>

definition digit_char :: "nat \<Rightarrow> u8" where
  "digit_char d = (if d < 10 then of_nat (d + 0x30) else of_nat (d + 0x41 - 10))"

fun numeral_of :: "nat \<Rightarrow> nat \<Rightarrow> u8 list" where
  "numeral_of b n = (if n < b \<or> b < 2 then [digit_char n] else numeral_of b (n div b) @ [digit_char (n mod b)])"

declare numeral_of.simps [simp del]

definition char_digit :: "u8 \<Rightarrow> nat" where
  "char_digit c = (if unat c < 0x41 then unat c - 0x30 else unat c - 0x41 + 10)"

definition numeral_value :: "nat \<Rightarrow> u8 list \<Rightarrow> nat" where
  "numeral_value b cs = foldl (\<lambda>v c. v * b + char_digit c) 0 cs"

lemma char_digit_char: "d < 36 \<Longrightarrow> char_digit (digit_char d) = d"
proof -
  assume "d < 36"
  then have "unat (of_nat (d + 0x30) :: u8) = d + 0x30" "unat (of_nat (d + 0x41 - 10) :: u8) = d + 0x41 - 10"
    by (simp_all only: unat_of_nat take_bit_eq_mod) simp_all
  then show ?thesis unfolding char_digit_def digit_char_def by simp
qed

lemma numeral_value_of: "2 \<le> b \<Longrightarrow> b \<le> 36 \<Longrightarrow> numeral_value b (numeral_of b n) = n"
proof (induction b n rule: numeral_of.induct)
  case (1 b n)
  then show ?case
    using order.strict_trans2 [OF mod_less_divisor, of b 36 n]
    by (subst numeral_of.simps) (auto simp: numeral_value_def char_digit_char)
qed

lemma numeral_of_no_zero: "2 \<le> b \<Longrightarrow> b \<le> 36 \<Longrightarrow> 0 < n \<Longrightarrow> hd (numeral_of b n) \<noteq> digit_char 0"
proof (induction b n rule: numeral_of.induct)
  case (1 b n)
  show ?case
  proof (cases "n < b")
    case True
    with 1 have "char_digit (digit_char n) = n" by (simp add: char_digit_char)
    with True 1(4) show ?thesis
      by (subst numeral_of.simps) (use char_digit_char [of 0] in auto)
  next
    case False
    have "numeral_of b (n div b) \<noteq> []" by (subst numeral_of.simps) simp
    moreover have "0 < n div b" using False 1(2) by (simp add: div_greater_zero_iff)
    ultimately show ?thesis
      using False 1 by (subst numeral_of.simps) simp
  qed
qed

lemma length_numeral_of: "2 \<le> b \<Longrightarrow> n < 2 ^ k \<Longrightarrow> 0 < k \<Longrightarrow> length (numeral_of b n) \<le> k"
proof (induction b n arbitrary: k rule: numeral_of.induct)
  case (1 b n)
  show ?case
  proof (cases "n < b")
    case True
    then show ?thesis using 1 by (subst numeral_of.simps) simp
  next
    case False
    then have "1 < k" using 1(2,3,4) by (cases k; cases "k - 1") auto
    moreover have "n div b < 2 ^ (k - 1)"
    proof -
      have "n div b \<le> n div 2" using 1(2) by (simp add: div_le_mono2)
      also have "\<dots> < 2 ^ (k - 1)" using 1(3) \<open>1 < k\<close> by (cases k) auto
      finally show ?thesis .
    qed
    ultimately have "length (numeral_of b (n div b)) \<le> k - 1" using False 1 by simp
    then show ?thesis using False 1 \<open>1 < k\<close> by (subst numeral_of.simps) simp
  qed
qed

lemma digit_char_code:
  assumes "2 \<le> unat base" "unat base \<le> 36"
  shows "(if (num :: u64) mod ucast base < 10 then ucast (num mod ucast base) + 0x30 else ucast (num mod ucast base) + 0x41 - 10) =
    digit_char (unat num mod unat (base :: u8))"
proof -
  let ?r = "num mod ucast base" and ?d = "unat num mod unat base"
  have r: "unat ?r = ?d" by (simp add: unat_mod unat_ucast_up)
  have d: "?d < 36" using assms mod_less_divisor [of "unat base" "unat num"] by linarith
  have "(ucast ?r :: u8) = of_nat (unat ?r)" by (simp only: of_nat_unat)
  then have "(ucast ?r :: u8) = of_nat ?d" using r by simp
  moreover have "?r < 10 \<longleftrightarrow> ?d < 10" using r by (simp add: word_less_nat_alt)
  ultimately show ?thesis by (simp add: digit_char_def of_nat_diff)
qed

lemma fill_digits_numeral:
  assumes "2 \<le> unat base" "unat base \<le> 36"
  shows "0 < num \<Longrightarrow> length ds = 64 \<Longrightarrow> idx \<le> 64 \<Longrightarrow> length (numeral_of (unat base) (unat num)) \<le> idx \<Longrightarrow>
    length (numeral_of (unat base) (unat num)) < n \<Longrightarrow>
    \<exists>ds'. fill_digits n num base idx ds s = Returns (idx - length (numeral_of (unat base) (unat num)), ds') s \<and>
      length ds' = 64 \<and> drop (idx - length (numeral_of (unat base) (unat num))) ds' = numeral_of (unat base) (unat num) @ drop idx ds"
proof (induction n arbitrary: num idx ds)
  case 0
  then show ?case by simp
next
  case (Suc n)
  let ?b = "unat base" and ?N = "\<lambda>k. numeral_of (unat base) k"
  let ?q = "num div ucast base" and ?d = "digit_char (unat num mod unat base)"
  have ub: "unat (ucast base :: u64) = ?b" by (simp add: unat_ucast_up)
  have q: "unat ?q = unat num div ?b" by (simp add: unat_div ub)
  have ne: "?N k \<noteq> []" for k by (subst numeral_of.simps) simp
  have idx: "0 < idx" using Suc.prems ne by (metis length_greater_0_conv order_less_le_trans)
  have "base \<noteq> 0" using assms by auto
  then have step: "fill_digits (Suc n) num base idx ds s = fill_digits n ?q base (idx - 1) (ds[idx - 1 := ?d]) s"
    using Suc.prems(1) idx digit_char_code [OF assms, of num]
    by (simp add: seq_def bind_def defined_if_def ret_def Let_def del: digit_char_def)
  have dropd: "drop (idx - 1) (ds[idx - 1 := ?d]) = ?d # drop idx ds"
    using Suc.prems(2,3) idx by (subst Cons_nth_drop_Suc [symmetric]) simp_all
  show ?case
  proof (cases "unat num < ?b")
    case True
    then have N: "?N (unat num) = [?d]" by (subst numeral_of.simps) simp
    have "?q = 0" using True q by (simp add: unat_eq_0 [symmetric] del: unat_eq_0)
    moreover obtain k where "n = Suc k" using Suc.prems(5) N by (cases n) auto
    ultimately have "fill_digits n ?q base (idx - 1) (ds[idx - 1 := ?d]) s = Returns (idx - 1, ds[idx - 1 := ?d]) s"
      by (simp add: ret_def)
    then show ?thesis using step dropd N Suc.prems(2) by simp
  next
    case False
    then have N: "?N (unat num) = ?N (unat ?q) @ [?d]" using assms(1) q by (subst numeral_of.simps) simp
    have "0 < unat num div ?b" using False assms(1) by (simp add: div_greater_zero_iff)
    then have "0 < ?q" unfolding q [symmetric] by (simp add: word_less_nat_alt)
    moreover have "idx - 1 \<le> 64" "length (?N (unat ?q)) \<le> idx - 1" "length (?N (unat ?q)) < n"
      using Suc.prems(3,4,5) N by auto
    ultimately obtain ds' where "fill_digits n ?q base (idx - 1) (ds[idx - 1 := ?d]) s = Returns (idx - 1 - length (?N (unat ?q)), ds') s"
      "length ds' = 64" "drop (idx - 1 - length (?N (unat ?q))) ds' = ?N (unat ?q) @ drop (idx - 1) (ds[idx - 1 := ?d])"
      using Suc.IH [of ?q "ds[idx - 1 := ?d]" "idx - 1"] Suc.prems(2) by auto
    then show ?thesis using step dropd N by (intro exI [of _ ds']) simp
  qed
qed

section \<open>Properties\<close>

text \<open>\<open>qemu_print_unsigned_num\<close> writes the numeral of the number in the given base: it ends, stays inside of
  its array of 64 digits, and what it writes reads as the number again, without leading zeros.\<close>

theorem qemu_print_unsigned_num_numeral:
  assumes "2 \<le> base" and "base \<le> 36"
  shows "\<exists>ds. qemu_print_unsigned_num num base out = Returns () (out @ ds) \<and> numeral_value (unat base) ds = unat num \<and>
    ds \<noteq> [] \<and> (num \<noteq> 0 \<longrightarrow> hd ds \<noteq> digit_char 0)"
proof (cases "num = 0")
  case True
  then show ?thesis
    by (intro exI [of _ "[0x30]"])
      (simp add: qemu_print_unsigned_num_def qemu_print_char_def modify_def numeral_value_def char_digit_def)
next
  case False
  have b: "2 \<le> unat base" "unat base \<le> 36" using assms by (simp_all add: word_le_nat_alt)
  let ?ds = "numeral_of (unat base) (unat num)"
  have len: "length ?ds \<le> 64" using b unsigned_less [of num] by (intro length_numeral_of) auto
  have "0 < num" using False by (simp add: word_neq_0_conv)
  then obtain ds' where "fill_digits 65 num base 64 (replicate 64 0) out = Returns (64 - length ?ds, ds') out"
    "drop (64 - length ?ds) ds' = ?ds"
    using fill_digits_numeral [OF b, of num "replicate 64 0" 64 65 out] len by auto
  moreover have "qemu_print_chars ?ds out = Returns () (out @ ?ds)"
    using wp_print_chars [of ?ds "\<lambda>_ t. t = out @ ?ds" "\<lambda>_. False" out] by (simp add: wp_returns_iff)
  ultimately have "qemu_print_unsigned_num num base out = Returns () (out @ ?ds)"
    using False by (simp add: qemu_print_unsigned_num_def bind_def)
  moreover have "?ds \<noteq> []" by (subst numeral_of.simps) simp
  ultimately show ?thesis
    using numeral_value_of [OF b] numeral_of_no_zero [OF b] \<open>0 < num\<close> by (auto simp: word_less_nat_alt)
qed

theorem qemu_print_unsigned_num_numeral_witness:
  "\<exists>ds. qemu_print_unsigned_num 0x1F0 16 [] = Returns () ds \<and> numeral_value 16 ds = 496"
  using qemu_print_unsigned_num_numeral [of 16 "0x1F0" "[]"] by (auto simp: word_le_nat_alt)

end
