(* ===== verification/ArgDstr.thy ===== *)
theory ArgDstr
  imports Prelude
begin

text \<open>
  The dynamic strings of the argument parser (\<open>arg_dstr\<close> in \<^verbatim>\<open>cli/lib/argtable/argtable3.c\<close>), into which the tool writes all
  it prints. The buffers are modelled with their bytes: the object's own, \<open>sbuf\<close>, and the blocks of a heap, some of which
  belong to the client. Reading or writing outside of a block, a string without its terminator, the use of a freed
  block and freeing twice are undefined behaviour. The sizes are \<open>int\<close>s; their overflow is undefined too.
\<close>

section \<open>The object and the heap\<close>

abbreviation NUL :: char where "NUL \<equiv> CHR 0x00"

text \<open>A pointer to the beginning of a buffer.\<close>

datatype ptr = Null | Sbuf | Block nat

text \<open>How a string is released; a function of the client is a number.\<close>

datatype free_proc = ARG_DSTR_STATIC | ARG_DSTR_VOLATILE | ARG_DSTR_DYNAMIC | Client_function nat

text \<open>
  The first six fields are those of \<open>_internal_arg_dstr_t\<close>, the others the heap: its blocks, the next one, the byte fresh memory
  is filled with, and the calls of functions of the client.
\<close>

record dstr =
  data :: ptr
  free_proc :: free_proc
  sbuf :: string
  append_data :: ptr
  append_data_size :: nat
  append_used :: nat
  blocks :: "nat \<rightharpoonup> string"
  next_block :: nat
  junk :: char
  client_calls :: "(nat \<times> ptr) list"

definition ARG_DSTR_SIZE :: nat where "ARG_DSTR_SIZE = 200"
definition START_VSNBUFF :: nat where "START_VSNBUFF = 16"

section \<open>Memory\<close>

definition bytes_of :: "dstr \<Rightarrow> ptr \<Rightarrow> string option" where
  "bytes_of s p = (case p of Null \<Rightarrow> None | Sbuf \<Rightarrow> Some (sbuf s) | Block b \<Rightarrow> blocks s b)"

definition bytes_at :: "ptr \<Rightarrow> (dstr, string) cfun" where
  "bytes_at p = bind (gets (\<lambda>s. bytes_of s p)) (\<lambda>b. case b of None \<Rightarrow> faults Undefined_Behaviour | Some bs \<Rightarrow> ret bs)"

definition put_bytes :: "ptr \<Rightarrow> string \<Rightarrow> (dstr, unit) cfun" where
  "put_bytes p bs = (case p of
      Null \<Rightarrow> faults Undefined_Behaviour
    | Sbuf \<Rightarrow> modify (\<lambda>s. s\<lparr>sbuf := bs\<rparr>)
    | Block b \<Rightarrow> modify (\<lambda>s. s\<lparr>blocks := (blocks s)(b \<mapsto> bs)\<rparr>))"

definition xmalloc :: "nat \<Rightarrow> (dstr, ptr) cfun" where
  "xmalloc n = stateful (\<lambda>s. (Block (next_block s), s\<lparr>blocks := (blocks s)(next_block s \<mapsto> replicate n (junk s)), next_block := next_block s + 1\<rparr>))"

definition xfree :: "ptr \<Rightarrow> (dstr, unit) cfun" where
  "xfree p = (case p of
      Null \<Rightarrow> ret ()
    | Sbuf \<Rightarrow> faults Undefined_Behaviour
    | Block b \<Rightarrow> seq (bind (bytes_at p) (\<lambda>_. ret ())) (modify (\<lambda>s. s\<lparr>blocks := (blocks s)(b := None)\<rparr>)))"

definition c_string :: "string \<Rightarrow> string" where
  "c_string bs = takeWhile (\<lambda>c. c \<noteq> NUL) bs"

definition strlen :: "ptr \<Rightarrow> (dstr, nat) cfun" where
  "strlen p = bind (bytes_at p) (\<lambda>bs. seq (defined_if (NUL \<in> set bs)) (ret (length (c_string bs))))"

definition memset_zero :: "ptr \<Rightarrow> nat \<Rightarrow> (dstr, unit) cfun" where
  "memset_zero p n = bind (bytes_at p) (\<lambda>bs. seq (defined_if (n \<le> length bs)) (put_bytes p (replicate n NUL @ drop n bs)))"

text \<open>At most \<open>n\<close> characters up to the terminator, filled up with zeros.\<close>

definition strncpy :: "ptr \<Rightarrow> ptr \<Rightarrow> nat \<Rightarrow> (dstr, unit) cfun" where
  "strncpy dst src n = bind (bytes_at src) (\<lambda>bs. bind (bytes_at dst) (\<lambda>ds.
     seq (defined_if (dst \<noteq> src \<and> n \<le> length ds \<and> (NUL \<in> set bs \<or> n \<le> length bs)))
         (let t = take n (c_string bs) in put_bytes dst (t @ replicate (n - length t) NUL @ drop n ds))))"

text \<open>To the offset \<open>off\<close> of a buffer; the two regions must not overlap.\<close>

definition memcpy_to :: "ptr \<Rightarrow> nat \<Rightarrow> ptr \<Rightarrow> nat \<Rightarrow> (dstr, unit) cfun" where
  "memcpy_to dst off src n = bind (bytes_at src) (\<lambda>bs. bind (bytes_at dst) (\<lambda>ds.
     seq (defined_if ((dst = src \<longrightarrow> n \<le> off) \<and> n \<le> length bs \<and> off + n \<le> length ds))
         (put_bytes dst (take off ds @ take n bs @ drop (off + n) ds))))"

definition byte_at :: "ptr \<Rightarrow> nat \<Rightarrow> (dstr, char) cfun" where
  "byte_at p i = bind (bytes_at p) (\<lambda>bs. seq (defined_if (i < length bs)) (ret (bs ! i)))"

definition set_byte :: "ptr \<Rightarrow> nat \<Rightarrow> char \<Rightarrow> (dstr, unit) cfun" where
  "set_byte p i c = bind (bytes_at p) (\<lambda>bs. seq (defined_if (i < length bs)) (put_bytes p (bs[i := c])))"

text \<open>\<open>assert(p[i] == '\0')\<close>; a failing assertion is a fault as well.\<close>

definition assert_terminated :: "ptr \<Rightarrow> nat \<Rightarrow> (dstr, unit) cfun" where
  "assert_terminated p i = bind (byte_at p i) (\<lambda>c. defined_if (c = NUL))"

section \<open>The operations\<close>

definition arg_dstr_create :: "(dstr, unit) cfun" where
  "arg_dstr_create = modify (\<lambda>s. s\<lparr>data := Sbuf, free_proc := ARG_DSTR_STATIC, sbuf := replicate (ARG_DSTR_SIZE + 1) NUL, append_data := Null,
     append_data_size := 0, append_used := 0\<rparr>)"

text \<open>The release of a string; \<open>ARG_DSTR_VOLATILE\<close> is no function.\<close>

definition release :: "free_proc \<Rightarrow> ptr \<Rightarrow> (dstr, unit) cfun" where
  "release f p = (case f of
      ARG_DSTR_STATIC \<Rightarrow> ret ()
    | ARG_DSTR_VOLATILE \<Rightarrow> faults Undefined_Behaviour
    | ARG_DSTR_DYNAMIC \<Rightarrow> xfree p
    | Client_function i \<Rightarrow> modify (\<lambda>s. s\<lparr>client_calls := client_calls s @ [(i, p)]\<rparr>))"

definition arg_dstr_free :: "(dstr, unit) cfun" where
  "arg_dstr_free = bind (gets free_proc) (\<lambda>f. bind (gets data) (\<lambda>p.
     seq (release f p) (modify (\<lambda>s. s\<lparr>free_proc := ARG_DSTR_STATIC\<rparr>))))"

text \<open>The same lines of \<open>arg_dstr_set\<close> and \<open>arg_dstr_reset\<close>.\<close>

definition free_append_data :: "(dstr, unit) cfun" where
  "free_append_data = bind (gets append_data) (\<lambda>a. bind (gets append_data_size) (\<lambda>n.
     if a \<noteq> Null \<and> n > 0 then seq (xfree a) (modify (\<lambda>s. s\<lparr>append_data := Null, append_data_size := 0\<rparr>)) else ret ()))"

definition arg_dstr_reset :: "(dstr, unit) cfun" where
  "arg_dstr_reset = seq arg_dstr_free (seq free_append_data (seq (modify (\<lambda>s. s\<lparr>data := Sbuf\<rparr>)) (set_byte Sbuf 0 NUL)))"

text \<open>The object itself is not one of the blocks.\<close>

definition arg_dstr_destroy :: "(dstr, unit) cfun" where
  "arg_dstr_destroy = arg_dstr_reset"

definition arg_dstr_set :: "ptr \<Rightarrow> free_proc \<Rightarrow> (dstr, unit) cfun" where
  "arg_dstr_set str f = bind (gets free_proc) (\<lambda>old_free_proc. bind (gets data) (\<lambda>old_result.
     seq (if str = Null then
            seq (set_byte Sbuf 0 NUL) (modify (\<lambda>s. s\<lparr>data := Sbuf, free_proc := ARG_DSTR_STATIC\<rparr>))
          else if f = ARG_DSTR_VOLATILE then
            bind (strlen str) (\<lambda>n.
              if n > ARG_DSTR_SIZE then
                bind (xmalloc (n + 1)) (\<lambda>p.
                seq (modify (\<lambda>s. s\<lparr>data := p, free_proc := ARG_DSTR_DYNAMIC\<rparr>))
               (seq (strncpy p str (n + 1))
                    (assert_terminated p n)))
              else
                seq (modify (\<lambda>s. s\<lparr>data := Sbuf, free_proc := ARG_DSTR_STATIC\<rparr>))
               (seq (strncpy Sbuf str ARG_DSTR_SIZE)
               (seq (set_byte Sbuf ARG_DSTR_SIZE NUL)
                    (assert_terminated Sbuf ARG_DSTR_SIZE))))
          else modify (\<lambda>s. s\<lparr>data := str, free_proc := f\<rparr>))
    (seq (bind (gets data) (\<lambda>p. if old_free_proc \<noteq> ARG_DSTR_STATIC \<and> old_result \<noteq> p then release old_free_proc old_result else ret ()))
         free_append_data)))"

definition arg_dstr_cstr :: "(dstr, ptr) cfun" where
  "arg_dstr_cstr = gets data"

text \<open>\<open>ds->append_used = (int)strlen(ds->data)\<close>\<close>

definition update_append_used :: "(dstr, unit) cfun" where
  "update_append_used = bind (gets data) (\<lambda>p. bind (strlen p) (\<lambda>n. modify (\<lambda>s. s\<lparr>append_used := n\<rparr>)))"

text \<open>The first part of \<open>setup_append_buf\<close>: a big buffer that is not in use is given up, the length is brought up to date.\<close>

definition prepare_append_used :: "(dstr, unit) cfun" where
  "prepare_append_used = bind (gets data) (\<lambda>p. bind (gets append_data) (\<lambda>a.
     if p \<noteq> a then
       seq (bind (gets append_data_size) (\<lambda>n. if n > 500 then seq (xfree a) (modify (\<lambda>s. s\<lparr>append_data := Null, append_data_size := 0\<rparr>)) else ret ()))
           update_append_used
     else bind (bind (gets append_used) (byte_at p)) (\<lambda>c. if c \<noteq> NUL then update_append_used else ret ())))"

text \<open>A new append buffer with the string at \<open>p\<close>, in place of the one at \<open>a\<close>.\<close>

definition new_append_data :: "nat \<Rightarrow> ptr \<Rightarrow> ptr \<Rightarrow> (dstr, unit) cfun" where
  "new_append_data total_space p a =
     seq (defined_if (total_space < 2 ^ 31))
    (bind (xmalloc total_space) (\<lambda>newbuf.
     seq (memset_zero newbuf total_space)
    (seq (strncpy newbuf p total_space)
    (seq (assert_terminated newbuf (total_space - 1))
    (seq (if a \<noteq> Null then xfree a else ret ())
         (modify (\<lambda>s. s\<lparr>append_data := newbuf, append_data_size := total_space\<rparr>)))))))"

definition provide_append_data :: "nat \<Rightarrow> (dstr, unit) cfun" where
  "provide_append_data total_space = bind (gets data) (\<lambda>p. bind (gets append_data) (\<lambda>a. bind (gets append_data_size) (\<lambda>n.
     if total_space \<ge> n then new_append_data (if total_space < 100 then 200 else total_space * 2) p a
     else if p \<noteq> a \<and> a \<noteq> Null then seq (strncpy a p n) (assert_terminated a (n - 1))
     else ret ())))"

definition setup_append_buf :: "nat \<Rightarrow> (dstr, unit) cfun" where
  "setup_append_buf new_space =
     seq prepare_append_used
    (seq (bind (gets (\<lambda>s. new_space + append_used s)) provide_append_data)
    (seq (bind (gets append_data) (\<lambda>a. defined_if (a \<noteq> Null)))
    (seq arg_dstr_free
         (modify (\<lambda>s. s\<lparr>data := append_data s\<rparr>)))))"

definition arg_dstr_cat :: "ptr \<Rightarrow> (dstr, unit) cfun" where
  "arg_dstr_cat str = bind (strlen str) (\<lambda>n.
     seq (setup_append_buf (n + 1))
    (bind (gets data) (\<lambda>p. bind (strlen p) (\<lambda>off. bind (strlen str) (\<lambda>n. memcpy_to p off str n)))))"

definition arg_dstr_catc :: "char \<Rightarrow> (dstr, unit) cfun" where
  "arg_dstr_catc c = seq (setup_append_buf 2) (bind (gets data) (\<lambda>p. bind (strlen p) (\<lambda>off. set_byte p off c)))"

text \<open>
  \<open>vsnprintf\<close> gives the text it is to format as far as it fits, and the length it has. \<open>text\<close> is that text, \<open>format_length\<close> the
  length of the format.
\<close>

definition vsnprintf_to :: "ptr \<Rightarrow> nat \<Rightarrow> string \<Rightarrow> (dstr, nat) cfun" where
  "vsnprintf_to buff n text = bind (bytes_at buff) (\<lambda>bs.
     seq (defined_if (0 < n \<and> n \<le> length bs))
    (let t = take (n - 1) text in seq (put_bytes buff (t @ NUL # drop (length t + 1) bs)) (ret (length text))))"

primrec catf_loop :: "nat \<Rightarrow> string \<Rightarrow> nat \<Rightarrow> ptr \<Rightarrow> (dstr, ptr) cfun" where
  "catf_loop 0 text n buff = faults Out_Of_Fuel"
| "catf_loop (Suc k) text n buff =
     bind (vsnprintf_to buff (n + 1) text) (\<lambda>r.
     bind (strlen buff) (\<lambda>slen.
       if slen < n then ret buff
       else let n = (if r > n then r else n + n) in
         seq (defined_if (n + 2 < 2 ^ 31))
        (seq (xfree buff)
        (bind (xmalloc (n + 2)) (\<lambda>buff.
         seq (memset_zero buff (n + 2)) (catf_loop k text n buff))))))"

definition arg_dstr_catf :: "nat \<Rightarrow> string \<Rightarrow> (dstr, unit) cfun" where
  "arg_dstr_catf format_length text =
     (let n = (if 2 * format_length < START_VSNBUFF then START_VSNBUFF else 2 * format_length) in
      seq (defined_if (n + 2 < 2 ^ 31))
     (bind (xmalloc (n + 2)) (\<lambda>buff.
      seq (memset_zero buff (n + 2))
     (bind (catf_loop 3 text n buff) (\<lambda>buff.
      seq (arg_dstr_cat buff) (xfree buff))))))"

end
