(* ===== verification/ArgDstrProps.thy ===== *)
theory ArgDstrProps
  imports ArgDstr
begin

text \<open>
  Dynamic strings are strings: the representation invariant \<open>dstr_ok\<close>, and for each operation that it runs without undefined behaviour,
  keeps the invariant, does to the text what it should and leaves the blocks of the client alone. A sequence of operations
  refines the one on strings, and the destruction frees every block the object has allocated or been given.
\<close>

section \<open>C strings in buffers\<close>

lemma c_string_append [simp]: "NUL \<notin> set t \<Longrightarrow> c_string (t @ NUL # r) = t"
  by (induction t) (auto simp: c_string_def)

lemma c_string_padded [simp]: "NUL \<notin> set t \<Longrightarrow> c_string (t @ replicate k NUL) = t"
  by (induction t; induction k) (auto simp: c_string_def)

lemma c_string_no_NUL [simp]: "NUL \<notin> set (c_string bs)"
  by (auto simp: c_string_def dest: set_takeWhileD)

lemma c_string_less: "NUL \<in> set bs \<Longrightarrow> length (c_string bs) < length bs"
  by (induction bs) (auto simp: c_string_def)

lemma c_string_take: "take (length (c_string bs)) bs = c_string bs"
  by (induction bs) (auto simp: c_string_def)

section \<open>The representation\<close>

definition owned :: "dstr \<Rightarrow> nat set" where
  "owned s = {b. append_data s = Block b \<or> data s = Block b \<and> free_proc s = ARG_DSTR_DYNAMIC}"

definition client :: "dstr \<Rightarrow> nat \<rightharpoonup> string" where
  "client s = blocks s |` (- owned s)"

definition dstr_text :: "dstr \<Rightarrow> string" where
  "dstr_text s = c_string (the (bytes_of s (data s)))"

definition append_ok :: "dstr \<Rightarrow> bool" where
  "append_ok s \<longleftrightarrow> (case append_data s of
      Null \<Rightarrow> append_data_size s = 0
    | Sbuf \<Rightarrow> False
    | Block b \<Rightarrow> (\<exists>bs. blocks s b = Some bs \<and> length bs = append_data_size s \<and> bs \<noteq> []))"

definition data_ok :: "dstr \<Rightarrow> bool" where
  "data_ok s \<longleftrightarrow> (\<exists>bs. bytes_of s (data s) = Some bs \<and> NUL \<in> set bs \<and>
     (data s = append_data s \<longrightarrow> (\<exists>k. bs = c_string bs @ replicate k NUL) \<and> append_used s \<le> length (c_string bs)))"

definition dstr_ok :: "dstr \<Rightarrow> bool" where
  "dstr_ok s \<longleftrightarrow> length (sbuf s) = ARG_DSTR_SIZE + 1 \<and> (\<forall>b. blocks s b \<noteq> None \<longrightarrow> b < next_block s) \<and> append_ok s \<and> data_ok s \<and>
     free_proc s \<noteq> ARG_DSTR_VOLATILE \<and> (data s = Sbuf \<or> data s = append_data s \<longrightarrow> free_proc s = ARG_DSTR_STATIC)"

section \<open>Memory\<close>

named_theorems mem_simps

lemma wp_bytes_at [mem_simps]: "wp (bytes_at p) Q E s = (case bytes_of s p of None \<Rightarrow> False | Some bs \<Rightarrow> Q bs s)"
  by (simp add: bytes_at_def wp_simps split: option.splits)

lemma wp_put_bytes [mem_simps]: "wp (put_bytes p bs) Q E s = (case p of Null \<Rightarrow> False | Sbuf \<Rightarrow> Q () (s\<lparr>sbuf := bs\<rparr>)
    | Block b \<Rightarrow> Q () (s\<lparr>blocks := (blocks s)(b \<mapsto> bs)\<rparr>))"
  by (simp add: put_bytes_def wp_simps split: ptr.splits)

lemma wp_xfree [mem_simps]: "wp (xfree p) Q E s = (case p of Null \<Rightarrow> Q () s | Sbuf \<Rightarrow> False
    | Block b \<Rightarrow> blocks s b \<noteq> None \<and> Q () (s\<lparr>blocks := (blocks s)(b := None)\<rparr>))"
  by (simp add: xfree_def wp_simps wp_bytes_at bytes_of_def split: ptr.splits option.splits)

lemma wp_xmalloc [mem_simps]: "wp (xmalloc n) Q E s = Q (Block (next_block s))
    (s\<lparr>blocks := (blocks s)(next_block s \<mapsto> replicate n (junk s)), next_block := next_block s + 1\<rparr>)"
  by (simp add: xmalloc_def wp_simps)

lemma wp_strlen [mem_simps]: "wp (strlen p) Q E s = (case bytes_of s p of None \<Rightarrow> False | Some bs \<Rightarrow> NUL \<in> set bs \<and> Q (length (c_string bs)) s)"
  by (simp add: strlen_def wp_simps mem_simps split: option.splits)

lemma wp_byte_at [mem_simps]: "wp (byte_at p i) Q E s = (case bytes_of s p of None \<Rightarrow> False | Some bs \<Rightarrow> i < length bs \<and> Q (bs ! i) s)"
  by (simp add: byte_at_def wp_simps mem_simps split: option.splits)

section \<open>Making room\<close>

text \<open>\<open>ready s t s'\<close>: \<open>s'\<close> holds the text \<open>t\<close> in the append buffer; the client's blocks are those of \<open>s\<close>.\<close>

lemma wp_prepare:
  assumes "dstr_ok s"
  shows "wp prepare_append_used (\<lambda>_ s'. dstr_ok s' \<and> dstr_text s' = dstr_text s \<and> client s' = client s \<and> append_used s' = length (dstr_text s) \<and>
    data s' = data s) E s"
proof -
  obtain bs where bs: "bytes_of s (data s) = Some bs" "NUL \<in> set bs"
    "data s = append_data s \<longrightarrow> (\<exists>k. bs = c_string bs @ replicate k NUL) \<and> append_used s \<le> length (c_string bs)"
    using assms by (auto simp: dstr_ok_def data_ok_def)
  show ?thesis
  proof (cases "data s = append_data s")
    case True
    then obtain k where k: "bs = c_string bs @ replicate k NUL" "append_used s \<le> length (c_string bs)" using bs by blast
    have less: "append_used s < length bs" using k(2) c_string_less [OF bs(2)] by simp
    have "bs ! append_used s = NUL \<Longrightarrow> append_used s = length (c_string bs)"
      using k c_string_no_NUL [of bs] by (metis le_neq_implies_less nth_append nth_mem)
    then show ?thesis
      using True bs less assms by (auto simp: prepare_append_used_def update_append_used_def wp_simps mem_simps dstr_text_def dstr_ok_def append_ok_def data_ok_def
          client_def owned_def bytes_of_def split: ptr.splits)
  next
    case False
    show ?thesis
    proof (cases "append_data_size s > 500")
      case True
      then obtain a where a: "append_data s = Block a" "blocks s a \<noteq> None" using assms by (auto simp: dstr_ok_def append_ok_def split: ptr.splits)
      have "bytes_of (s\<lparr>blocks := (blocks s)(a := None), append_data := Null, append_data_size := 0\<rparr>) (data s) = Some bs"
        using bs(1) False a(1) by (auto simp: bytes_of_def split: ptr.splits)
      then show ?thesis
        using True False a bs assms by (auto simp: prepare_append_used_def update_append_used_def wp_simps mem_simps dstr_text_def dstr_ok_def append_ok_def data_ok_def
            client_def owned_def restrict_map_def fun_eq_iff bytes_of_def split: ptr.splits)
    next
      case small: False
      then show ?thesis
        using False bs assms by (auto simp: prepare_append_used_def update_append_used_def wp_simps mem_simps dstr_text_def dstr_ok_def append_ok_def data_ok_def
            client_def owned_def bytes_of_def split: ptr.splits)
    qed
  qed
qed

text \<open>What the rest of \<open>setup_append_buf\<close> leaves behind.\<close>

definition ready :: "dstr \<Rightarrow> nat \<Rightarrow> dstr \<Rightarrow> bool" where
  "ready s n s' \<longleftrightarrow> dstr_ok s' \<and> dstr_text s' = dstr_text s \<and> client s' = client s \<and> data s' = append_data s' \<and>
     append_used s' = length (dstr_text s) \<and> length (dstr_text s) + n < append_data_size s'"

lemma bytes_upd [simp]:
  "bytes_of (s\<lparr>append_used := u\<rparr>) p = bytes_of s p"
  "bytes_of (s\<lparr>append_data := a\<rparr>) p = bytes_of s p"
  "bytes_of (s\<lparr>append_data_size := n\<rparr>) p = bytes_of s p"
  "bytes_of (s\<lparr>next_block := n\<rparr>) p = bytes_of s p"
  "bytes_of (s\<lparr>free_proc := f\<rparr>) p = bytes_of s p"
  "bytes_of (s\<lparr>data := d\<rparr>) p = bytes_of s p"
  by (simp_all add: bytes_of_def split: ptr.splits)

definition without :: "ptr \<Rightarrow> (nat \<rightharpoonup> string) \<Rightarrow> (nat \<rightharpoonup> string)" where
  "without p B = (case p of Block b \<Rightarrow> B(b := None) | _ \<Rightarrow> B)"

lemma new_append_data_run:
  assumes "dstr_ok s" and "length (dstr_text s) < m" and "m < 2 ^ 31"
  shows "new_append_data m (data s) (append_data s) s = Returns () (s\<lparr>
    blocks := without (append_data s) ((blocks s)(next_block s \<mapsto> dstr_text s @ replicate (m - length (dstr_text s)) NUL)),
    next_block := next_block s + 1, append_data := Block (next_block s), append_data_size := m\<rparr>)" (is "_ = Returns () ?s'")
proof -
  obtain bs where bs: "bytes_of s (data s) = Some bs" "NUL \<in> set bs" "c_string bs = dstr_text s"
    using assms(1) by (auto simp: dstr_ok_def data_ok_def dstr_text_def)
  have new: "blocks s (next_block s) = None" using assms(1) by (auto simp: dstr_ok_def)
  have p: "data s \<noteq> Block (next_block s)" using bs(1) new by (auto simp: bytes_of_def)
  have b: "bytes_of (s\<lparr>next_block := k, blocks := (blocks s)(next_block s \<mapsto> x)\<rparr>) (data s) = Some bs" for x k
    using bs(1) p by (auto simp: bytes_of_def split: ptr.splits)
  let ?t = "dstr_text s @ replicate (m - length (dstr_text s)) NUL"
  have t: "take m (dstr_text s) = dstr_text s" "?t ! (m - 1) = NUL" "0 < m" using assms(2) by (auto simp: nth_append)
  have a: "case append_data s of Null \<Rightarrow> True | Sbuf \<Rightarrow> False | Block a \<Rightarrow> a \<noteq> next_block s \<and> (\<exists>bs. blocks s a = Some bs)"
    using assms(1) new by (auto simp: dstr_ok_def append_ok_def split: ptr.splits)
  have "wp (new_append_data m (data s) (append_data s)) (\<lambda>_ s'. s' = ?s') (\<lambda>_. False) s"
    using assms(2,3) bs(2,3) b t p a
    by (simp add: new_append_data_def memset_zero_def strncpy_def assert_terminated_def wp_simps mem_simps Let_def without_def bytes_of_def [of _ "Block _"]
        split: ptr.splits)
  then show ?thesis by (auto simp: wp_def split: outcome.splits)
qed

text \<open>The end of \<open>setup_append_buf\<close>.\<close>

definition use_append_data :: "(dstr, unit) cfun" where
  "use_append_data = seq (bind (gets append_data) (\<lambda>a. defined_if (a \<noteq> Null))) (seq arg_dstr_free (modify (\<lambda>s. s\<lparr>data := append_data s\<rparr>)))"

lemma wp_use_append_data:
  assumes "append_data s = Block b" and "blocks s b = Some (t @ replicate k NUL)" and "NUL \<notin> set t" and "k > n" and "append_data_size s = length t + k"
    and "length (sbuf s) = ARG_DSTR_SIZE + 1" and "\<forall>b. blocks s b \<noteq> None \<longrightarrow> b < next_block s" and "append_used s = length t"
    and "free_proc s \<noteq> ARG_DSTR_VOLATILE" and "free_proc s = ARG_DSTR_DYNAMIC \<longrightarrow> (\<exists>c. data s = Block c \<and> c \<noteq> b \<and> blocks s c \<noteq> None)"
    and "dstr_text r = t" and "client s = client r"
  shows "wp use_append_data (\<lambda>_ s'. ready r n s') (\<lambda>_. False) s"
proof -
  have "wp use_append_data (\<lambda>_ s'. client s' = client s) (\<lambda>_. False) s"
    using assms(1,9,10) by (auto simp: use_append_data_def arg_dstr_free_def release_def wp_simps mem_simps client_def owned_def restrict_map_def
        fun_eq_iff split: free_proc.splits)
  moreover have "wp use_append_data (\<lambda>_ s'. dstr_ok s' \<and> dstr_text s' = t \<and> data s' = append_data s' \<and> append_used s' = length t \<and>
      append_data_size s' = length t + k) (\<lambda>_. False) s"
    using assms(1-10) by (auto simp: use_append_data_def arg_dstr_free_def release_def wp_simps mem_simps dstr_ok_def append_ok_def data_ok_def dstr_text_def
        bytes_of_def split: free_proc.splits)
  ultimately have "wp use_append_data (\<lambda>_ s'. client s' = client s \<and> dstr_ok s' \<and> dstr_text s' = t \<and> data s' = append_data s' \<and> append_used s' = length t \<and>
      append_data_size s' = length t + k) (\<lambda>_. False \<and> False) s" by (rule wp_conjI)
  then show ?thesis by (rule wp_mono) (use assms in \<open>auto simp: ready_def\<close>)
qed

lemma wp_setup:
  assumes "dstr_ok s" and "0 < n" and "2 * (length (dstr_text s) + n) < 2 ^ 31"
  shows "wp (setup_append_buf n) (\<lambda>_ s'. ready s n s') (\<lambda>_. False) s"
proof -
  have "wp (seq (bind (gets (\<lambda>s. n + append_used s)) provide_append_data) use_append_data) (\<lambda>_ s'. ready s n s') (\<lambda>_. False) r"
    if r: "dstr_ok r" "dstr_text r = dstr_text s" "client r = client s" "append_used r = length (dstr_text s)" "data r = data s" for r
  proof -
    let ?L = "length (dstr_text s)"
    let ?m = "if n + ?L < 100 then 200 else (n + ?L) * 2"
    have m: "length (dstr_text r) < ?m" "?m < 2 ^ 31" "?L + n < ?m" using assms(2,3) r(2) by auto
    have ok: "length (sbuf r) = ARG_DSTR_SIZE + 1" "\<forall>b. blocks r b \<noteq> None \<longrightarrow> b < next_block r" "free_proc r \<noteq> ARG_DSTR_VOLATILE"
      "data r = Sbuf \<or> data r = append_data r \<longrightarrow> free_proc r = ARG_DSTR_STATIC" "NUL \<notin> set (dstr_text s)"
      using r(1) by (auto simp: dstr_ok_def dstr_text_def)
    have dyn: "free_proc r = ARG_DSTR_DYNAMIC \<longrightarrow> (\<exists>c. data r = Block c \<and> blocks r c \<noteq> None)"
      using r(1) by (auto simp: dstr_ok_def data_ok_def bytes_of_def split: ptr.splits option.splits)
    show ?thesis
    proof (cases "append_data_size r \<le> n + ?L")
      case True
      have "blocks r (next_block r) = None" using ok(2) by blast
      moreover from this have "data r \<noteq> Block (next_block r)" using r(1) by (auto simp: dstr_ok_def data_ok_def bytes_of_def)
      ultimately have new: "blocks r (next_block r) = None" "data r \<noteq> Block (next_block r)" by auto
      have a: "append_data r \<noteq> Sbuf" "append_data r \<noteq> Block (next_block r)"
        using r(1) new(1) by (auto simp: dstr_ok_def append_ok_def)
      let ?s = "r\<lparr>blocks := without (append_data r) ((blocks r)(next_block r \<mapsto> dstr_text r @ replicate (?m - length (dstr_text r)) NUL)),
        next_block := next_block r + 1, append_data := Block (next_block r), append_data_size := ?m\<rparr>"
      have "wp use_append_data (\<lambda>_ s'. ready s n s') (\<lambda>_. False) ?s"
      proof (rule wp_use_append_data [where b = "next_block r" and t = "dstr_text s" and k = "?m - ?L"])
        show "blocks ?s (next_block r) = Some (dstr_text s @ replicate (?m - ?L) NUL)"
          using a r(2) by (auto simp: without_def split: ptr.splits)
        show "\<forall>b. blocks ?s b \<noteq> None \<longrightarrow> b < next_block ?s"
          using ok(2) by (auto simp: without_def less_Suc_eq split: ptr.splits if_splits)
        show "free_proc ?s = ARG_DSTR_DYNAMIC \<longrightarrow> (\<exists>c. data ?s = Block c \<and> c \<noteq> next_block r \<and> blocks ?s c \<noteq> None)"
          using dyn ok(4) new a by (auto simp: without_def split: ptr.splits)
        have "client ?s = client r"
          using new a by (auto simp: client_def owned_def restrict_map_def without_def fun_eq_iff split: ptr.splits)
        with r(3) show "client ?s = client s" by simp
      qed (use m ok r(4) in auto)
      moreover have "wp (new_append_data ?m (data r) (append_data r)) (\<lambda>_ s'. s' = ?s) (\<lambda>_. False) r"
        by (simp only: wp_def new_append_data_run [OF r(1) m(1,2)] outcome.case)
      then have "wp (provide_append_data (n + ?L)) (\<lambda>_ s'. s' = ?s) (\<lambda>_. False) r"
        using True by (simp add: provide_append_data_def wp_simps)
      ultimately show ?thesis using r(4) by (simp add: wp_simps) (auto elim: wp_mono)
    next
      case big: False
      then obtain a bs where a: "append_data r = Block a" "blocks r a = Some bs" "length bs = append_data_size r"
        using r(1) by (auto simp: dstr_ok_def append_ok_def split: ptr.splits)
      show ?thesis
      proof (cases "data r = append_data r")
        case True
        then obtain k where k: "bs = dstr_text s @ replicate k NUL" using r(1,2) a by (auto simp: dstr_ok_def data_ok_def dstr_text_def bytes_of_def)
        have "wp use_append_data (\<lambda>_ s'. ready s n s') (\<lambda>_. False) r"
          by (rule wp_use_append_data [OF a(1) a(2) [unfolded k] ok(5)]) (use a k big ok r(3,4) True in auto)
        with big True r(4) show ?thesis by (simp add: wp_simps provide_append_data_def add.commute)
      next
        case False
        obtain ds where ds: "bytes_of r (data r) = Some ds" "NUL \<in> set ds" "c_string ds = dstr_text s"
          using r(1,2) by (auto simp: dstr_ok_def data_ok_def dstr_text_def)
        let ?t = "dstr_text s @ replicate (append_data_size r - ?L) NUL"
        let ?s = "r\<lparr>blocks := (blocks r)(a \<mapsto> ?t)\<rparr>"
        have "client ?s = client r" using a by (auto simp: client_def owned_def restrict_map_def fun_eq_iff)
        have "wp use_append_data (\<lambda>_ s'. ready s n s') (\<lambda>_. False) ?s"
          by (rule wp_use_append_data [where b = a and t = "dstr_text s" and k = "append_data_size r - ?L"])
            (use \<open>client ?s = client r\<close> a big ok dyn False r(3,4) in auto)
        moreover have last: "\<not> append_data_size r - Suc 0 < ?L" using big by linarith
        have "wp (provide_append_data (n + ?L)) (\<lambda>_ s'. s' = ?s) (\<lambda>_. False) r"
          using False big a ds last
          by (simp add: provide_append_data_def strncpy_def assert_terminated_def wp_simps mem_simps Let_def bytes_of_def [of _ "Block _"] nth_append)
        ultimately show ?thesis using r(4) by (simp add: wp_simps) (auto elim: wp_mono)
      qed
    qed
  qed
  then show ?thesis
    unfolding setup_append_buf_def use_append_data_def [symmetric] by (simp only: wp_seq) (rule wp_mono [OF wp_prepare [OF assms(1)]]; simp)
qed

section \<open>Appending\<close>

lemma ready_cases:
  assumes "ready s n s'"
  obtains a k where "data s' = Block a" "append_data s' = Block a" "blocks s' a = Some (dstr_text s @ replicate k NUL)" "n < k"
    "append_data_size s' = length (dstr_text s) + k" "free_proc s' = ARG_DSTR_STATIC"
proof -
  obtain a bs where a: "data s' = Block a" "append_data s' = Block a" "blocks s' a = Some bs" "length bs = append_data_size s'" "free_proc s' = ARG_DSTR_STATIC"
    using assms by (auto simp: ready_def dstr_ok_def append_ok_def data_ok_def bytes_of_def split: ptr.splits)
  then obtain k where "bs = dstr_text s @ replicate k NUL" using assms by (auto simp: ready_def dstr_ok_def data_ok_def dstr_text_def bytes_of_def)
  with a assms show thesis by (intro that [of a k]) (auto simp: ready_def)
qed

text \<open>Characters written behind the text.\<close>

abbreviation put_block :: "nat \<Rightarrow> string \<Rightarrow> dstr \<Rightarrow> dstr" where
  "put_block a bs s \<equiv> s\<lparr>blocks := (blocks s)(a \<mapsto> bs)\<rparr>"

lemma append_at_end:
  assumes "ready s n s'" and "data s' = Block a" and "blocks s' a = Some (dstr_text s @ replicate k NUL)" and "NUL \<notin> set t" and "length t < k"
  shows "dstr_ok (put_block a (dstr_text s @ t @ replicate (k - length t) NUL) s')"
    and "dstr_text (put_block a (dstr_text s @ t @ replicate (k - length t) NUL) s') = dstr_text s @ t"
    and "client (put_block a (dstr_text s @ t @ replicate (k - length t) NUL) s') = client s"
proof -
  let ?s = "put_block a (dstr_text s @ t @ replicate (k - length t) NUL) s'"
  have a: "append_data s' = Block a" using assms(1,2) by (simp add: ready_def)
  have n: "NUL \<notin> set (dstr_text s @ t)" using assms(4) by (simp add: dstr_text_def)
  have c: "c_string (dstr_text s @ t @ replicate m NUL) = dstr_text s @ t" for m
    using c_string_padded [OF n, of m] by simp
  show "dstr_ok ?s"
    using assms a c by (auto simp: ready_def dstr_ok_def append_ok_def data_ok_def bytes_of_def)
  show "dstr_text ?s = dstr_text s @ t" using assms(2) c by (simp add: dstr_text_def bytes_of_def)
  have "client ?s = client s'" using a by (auto simp: client_def owned_def restrict_map_def fun_eq_iff)
  then show "client ?s = client s" using assms(1) by (simp add: ready_def)
qed

lemma wp_arg_dstr_cat:
  assumes "dstr_ok s" and "client s b = Some bs" and "NUL \<in> set bs" and "2 * (length (dstr_text s) + length (c_string bs) + 1) < 2 ^ 31"
  shows "wp (arg_dstr_cat (Block b)) (\<lambda>_ s'. dstr_ok s' \<and> dstr_text s' = dstr_text s @ c_string bs \<and> client s' = client s \<and> data s' = append_data s') (\<lambda>_. False) s"
proof -
  have b: "blocks s b = Some bs" using assms(2) by (simp add: client_def restrict_map_def split: if_splits)
  have "wp (bind (gets data) (\<lambda>p. bind (strlen p) (\<lambda>off. bind (strlen (Block b)) (\<lambda>n. memcpy_to p off (Block b) n))))
      (\<lambda>_ s'. dstr_ok s' \<and> dstr_text s' = dstr_text s @ c_string bs \<and> client s' = client s \<and> data s' = append_data s') (\<lambda>_. False) s'"
    if r: "ready s (length (c_string bs) + 1) s'" for s'
  proof -
    obtain a k where a: "data s' = Block a" "append_data s' = Block a" "blocks s' a = Some (dstr_text s @ replicate k NUL)" "length (c_string bs) + 1 < k"
      by (rule ready_cases [OF r])
    have "client s' b = Some bs" using r assms(2) by (simp add: ready_def)
    then have b': "blocks s' b = Some bs" "b \<noteq> a" using a(2) by (auto simp: client_def owned_def restrict_map_def split: if_splits)
    have d: "NUL \<notin> set (dstr_text s)" by (simp add: dstr_text_def)
    have less: "length (c_string bs) < length bs" by (rule c_string_less [OF assms(3)])
    have "length (c_string bs) < k" using a(4) by simp
    note fin = append_at_end [OF r a(1,3) c_string_no_NUL this]
    show ?thesis
      using a b' less assms(3) fin c_string_padded [OF d, of k]
      by (simp add: memcpy_to_def wp_simps mem_simps bytes_of_def c_string_take)
  qed
  moreover have "wp (setup_append_buf (length (c_string bs) + 1)) (\<lambda>_ s'. ready s (length (c_string bs) + 1) s') (\<lambda>_. False) s"
    by (rule wp_setup [OF assms(1)]) (use assms(4) in simp_all)
  ultimately show ?thesis
    unfolding arg_dstr_cat_def using assms(3) b by (simp add: wp_bind wp_seq wp_strlen bytes_of_def) (auto elim: wp_mono)
qed

lemma wp_arg_dstr_catc:
  assumes "dstr_ok s" and "2 * (length (dstr_text s) + 2) < 2 ^ 31"
  shows "wp (arg_dstr_catc c) (\<lambda>_ s'. dstr_ok s' \<and> dstr_text s' = dstr_text s @ c_string [c] \<and> client s' = client s) (\<lambda>_. False) s"
proof -
  have "wp (bind (gets data) (\<lambda>p. bind (strlen p) (\<lambda>off. set_byte p off c)))
      (\<lambda>_ s'. dstr_ok s' \<and> dstr_text s' = dstr_text s @ c_string [c] \<and> client s' = client s) (\<lambda>_. False) s'"
    if r: "ready s 2 s'" for s'
  proof -
    obtain a k where a: "data s' = Block a" "append_data s' = Block a" "blocks s' a = Some (dstr_text s @ replicate k NUL)" "2 < k"
      by (rule ready_cases [OF r])
    have d: "NUL \<notin> set (dstr_text s)" by (simp add: dstr_text_def)
    have "length (c_string [c]) < k" using a(4) by (simp add: c_string_def)
    note fin = append_at_end [OF r a(1,3) c_string_no_NUL this]
    have "(dstr_text s @ replicate k NUL)[length (dstr_text s) := c] = dstr_text s @ c_string [c] @ replicate (k - length (c_string [c])) NUL"
      using a(4) by (cases k) (auto simp: c_string_def list_update_append)
    then show ?thesis
      using a fin c_string_padded [OF d, of k]
      by (simp add: set_byte_def wp_simps mem_simps bytes_of_def)
  qed
  moreover have "wp (setup_append_buf 2) (\<lambda>_ s'. ready s 2 s') (\<lambda>_. False) s" by (rule wp_setup [OF assms(1)]) (use assms(2) in simp_all)
  ultimately show ?thesis unfolding arg_dstr_catc_def by (simp only: wp_seq) (auto elim: wp_mono)
qed

section \<open>Formatted text\<close>

text \<open>The object and the heap with one block more, the scratch buffer of \<open>arg_dstr_catf\<close>.\<close>

abbreviation with_scratch :: "nat \<Rightarrow> nat \<Rightarrow> string \<Rightarrow> dstr \<Rightarrow> dstr" where
  "with_scratch k b bs s \<equiv> s\<lparr>next_block := k, blocks := (blocks s)(b \<mapsto> bs)\<rparr>"

lemma wp_catf_loop_step:
  assumes "NUL \<notin> set t" and "length bs = n + 2" and "length t < n \<or> (if length t > n then length t else n + n) + 2 < 2 ^ 31"
    and "blocks s b = None"
  shows "wp (catf_loop (Suc j) t n (Block b)) Q E (with_scratch k b bs s) =
    (if length t < n then Q (Block b) (with_scratch k b (t @ NUL # drop (length t + 1) bs) s)
     else wp (catf_loop j t (if length t > n then length t else n + n) (Block k)) Q E
       (with_scratch (k + 1) k (replicate ((if length t > n then length t else n + n) + 2) NUL) s))"
proof -
  have fits: "NUL \<notin> set (take n t)" using assms(1) by (meson in_set_takeD)
  have free: "(blocks s)(b := None) = blocks s" using assms(4) by (simp add: fun_upd_idem)
  show ?thesis
  proof (cases "length t < n")
    case True
    then show ?thesis
      using assms(2) by (simp add: vsnprintf_to_def wp_simps mem_simps bytes_of_def Let_def c_string_append [OF assms(1)])
  next
    case False
    then show ?thesis
      using assms(2,3) by (simp add: vsnprintf_to_def wp_simps mem_simps bytes_of_def Let_def c_string_append [OF fits] c_string_append [OF assms(1)]
          memset_zero_def free)
  qed
qed

text \<open>Three rounds are enough: after the second the buffer has twice the length of the text or more.\<close>

lemma wp_catf_loop:
  assumes "NUL \<notin> set t" and "length bs = n + 2" and "0 < n" and "2 * length t + 2 < 2 ^ 31"
    and "blocks s b = None" and "\<forall>c. k \<le> c \<longrightarrow> blocks s c = None"
  shows "wp (catf_loop 3 t n (Block b)) (\<lambda>p s'. \<exists>b' bs' k'. p = Block b' \<and> s' = with_scratch k' b' bs' s \<and> (b' = b \<and> k' = k \<or> k \<le> b' \<and> b' < k') \<and> k \<le> k' \<and>
    NUL \<in> set bs' \<and> c_string bs' = t) (\<lambda>_. False) (with_scratch k b bs s)"
proof -
  define Q where "Q = (\<lambda>p s'. \<exists>b' bs' k'. p = Block b' \<and> s' = with_scratch k' b' bs' s \<and> (b' = b \<and> k' = k \<or> k \<le> b' \<and> b' < k') \<and> k \<le> k' \<and>
    NUL \<in> set bs' \<and> c_string bs' = t)"
  have found: "NUL \<in> set (t @ NUL # xs) \<and> c_string (t @ NUL # xs) = t" for xs using assms(1) by simp
  have Q: "Q (Block b) (with_scratch k b (t @ NUL # xs) s)" "Q (Block k) (with_scratch (k + 1) k (t @ NUL # xs) s)"
    "Q (Block (k + 1)) (with_scratch (k + 2) (k + 1) (t @ NUL # xs) s)" for xs
    using found by (fastforce simp: Q_def)+
  have none: "blocks s k = None" "blocks s (k + 1) = None" using assms(6) by auto
  note step1 = wp_catf_loop_step [OF assms(1,2) _ assms(5), of "Suc (Suc 0)" Q "\<lambda>_. False" k]
  note step2 = wp_catf_loop_step [OF assms(1) _ _ none(1), of _ _ "Suc 0" Q "\<lambda>_. False" "k + 1"]
  note step3 = wp_catf_loop_step [OF assms(1) _ _ none(2), of _ _ 0 Q "\<lambda>_. False" "k + 1 + 1"]
  have "wp (catf_loop 3 t n (Block b)) Q (\<lambda>_. False) (with_scratch k b bs s)"
  proof (cases "length t < n")
    case True
    then show ?thesis using step1 Q(1) by (simp add: numeral_3_eq_3)
  next
    case False
    let ?n = "if length t > n then length t else n + n"
    have 2: "wp (catf_loop 3 t n (Block b)) Q (\<lambda>_. False) (with_scratch k b bs s) =
        wp (catf_loop (Suc (Suc 0)) t ?n (Block k)) Q (\<lambda>_. False) (with_scratch (k + 1) k (replicate (?n + 2) NUL) s)"
      using step1 False assms(4) by (simp add: numeral_3_eq_3)
    show ?thesis
    proof (cases "length t < ?n")
      case True
      then show ?thesis unfolding 2 using step2 [of "replicate (?n + 2) NUL" ?n] Q(2) by simp
    next
      case False
      with \<open>\<not> length t < n\<close> assms(3) have n: "?n = length t" "0 < length t" by (auto split: if_splits)
      have 3: "wp (catf_loop (Suc (Suc 0)) t ?n (Block k)) Q (\<lambda>_. False) (with_scratch (k + 1) k (replicate (?n + 2) NUL) s) =
          wp (catf_loop (Suc 0) t (length t + length t) (Block (k + 1))) Q (\<lambda>_. False)
            (with_scratch (k + 1 + 1) (k + 1) (replicate (length t + length t + 2) NUL) s)"
        unfolding n(1) using step2 [of "replicate (length t + 2) NUL" "length t"] assms(4) by simp
      show ?thesis unfolding 2 3 using step3 [of "replicate (length t + length t + 2) NUL" "length t + length t"] n(2) Q(3) by simp
    qed
  qed
  then show ?thesis by (simp add: Q_def)
qed

lemma scratch_ok:
  assumes "dstr_ok s" and "next_block s \<le> b" and "b < k"
  shows "dstr_ok (with_scratch k b bs s)" and "dstr_text (with_scratch k b bs s) = dstr_text s"
    and "client (with_scratch k b bs s) = (client s)(b \<mapsto> bs)"
proof -
  have none: "blocks s b = None" using assms(1,2) by (cases "blocks s b") (auto simp: dstr_ok_def)
  then have p: "data s \<noteq> Block b" "append_data s \<noteq> Block b"
    using assms(1) by (auto simp: dstr_ok_def data_ok_def append_ok_def bytes_of_def)
  then have d: "bytes_of (with_scratch k b bs s) (data s) = bytes_of s (data s)" by (auto simp: bytes_of_def split: ptr.splits)
  then show "dstr_text (with_scratch k b bs s) = dstr_text s" by (simp add: dstr_text_def)
  have lt: "\<forall>c. blocks s c \<noteq> None \<longrightarrow> c < k" using assms by (fastforce simp: dstr_ok_def)
  show "dstr_ok (with_scratch k b bs s)"
    using assms(1,3) d p lt by (auto simp: dstr_ok_def data_ok_def append_ok_def split: ptr.splits)
  show "client (with_scratch k b bs s) = (client s)(b \<mapsto> bs)"
    using p by (auto simp: client_def owned_def restrict_map_def fun_eq_iff)
qed

lemma wp_arg_dstr_catf:
  assumes "dstr_ok s" and "NUL \<notin> set t" and "2 * format_length + 2 < 2 ^ 31" and "2 * (length (dstr_text s) + length t + 1) < 2 ^ 31"
  shows "wp (arg_dstr_catf format_length t) (\<lambda>_ s'. dstr_ok s' \<and> dstr_text s' = dstr_text s @ t \<and> client s' = client s) (\<lambda>_. False) s"
proof -
  let ?n = "if 2 * format_length < START_VSNBUFF then START_VSNBUFF else 2 * format_length"
  let ?b = "next_block s"
  have n: "?n + 2 < 2 ^ 31" "0 < ?n" using assms(3) by (auto simp: START_VSNBUFF_def)
  have none: "blocks s b = None" if "?b \<le> b" for b using assms(1) that by (cases "blocks s b") (auto simp: dstr_ok_def)
  have tail: "wp (seq (arg_dstr_cat (Block b)) (xfree (Block b))) (\<lambda>_ s'. dstr_ok s' \<and> dstr_text s' = dstr_text s @ t \<and> client s' = client s) (\<lambda>_. False)
      (with_scratch k b bs s)" if b: "?b \<le> b" "b < k" "NUL \<in> set bs" "c_string bs = t" for k b bs
  proof -
    note ok = scratch_ok [OF assms(1) b(1,2), of bs]
    have c: "client (with_scratch k b bs s) b = Some bs" using ok(3) by simp
    have l: "2 * (length (dstr_text (with_scratch k b bs s)) + length (c_string bs) + 1) < 2 ^ 31" using assms(4) ok(2) b(4) by simp
    have "client s b = None" using none [OF b(1)] by (simp add: client_def restrict_map_def)
    have "wp (xfree (Block b)) (\<lambda>_ s'. dstr_ok s' \<and> dstr_text s' = dstr_text s @ t \<and> client s' = client s) (\<lambda>_. False) r"
      if r: "dstr_ok r" "dstr_text r = dstr_text s @ t" "client r = (client s)(b \<mapsto> bs)" "data r = append_data r" for r
    proof -
      have cb: "client r b = Some bs" using r(3) by simp
      then have o: "b \<notin> owned r" "blocks r b = Some bs" by (auto simp: client_def restrict_map_def split: if_splits)
      then have p: "append_data r \<noteq> Block b" by (auto simp: owned_def)
      let ?r = "r\<lparr>blocks := (blocks r)(b := None)\<rparr>"
      have d: "bytes_of ?r (append_data r) = bytes_of r (append_data r)" using p by (auto simp: bytes_of_def split: ptr.splits)
      have "dstr_ok ?r" using r(1,4) p d by (auto simp: dstr_ok_def data_ok_def append_ok_def split: ptr.splits)
      moreover have "dstr_text ?r = dstr_text r" using d r(4) by (simp add: dstr_text_def)
      moreover have "client ?r = (client r)(b := None)" by (auto simp: client_def owned_def restrict_map_def fun_eq_iff)
      moreover have "(client s)(b := None) = client s" using \<open>client s b = None\<close> by (simp add: fun_upd_idem)
      ultimately show ?thesis using o(2) r by (simp add: mem_simps)
    qed
    then show ?thesis
      using wp_arg_dstr_cat [OF ok(1) c b(3) l] ok(2,3) b(4) by (simp add: wp_seq) (auto elim: wp_mono)
  qed
  have "wp (catf_loop 3 t ?n (Block ?b)) (\<lambda>p s'. wp (seq (arg_dstr_cat p) (xfree p))
      (\<lambda>_ s'. dstr_ok s' \<and> dstr_text s' = dstr_text s @ t \<and> client s' = client s) (\<lambda>_. False) s') (\<lambda>_. False)
      (with_scratch (?b + 1) ?b (replicate (?n + 2) NUL) s)"
    by (rule wp_mono [OF wp_catf_loop [OF assms(2) _ n(2) _ none]]) (use assms(4) none tail in auto)
  then show ?thesis
    using n(1) by (simp add: arg_dstr_catf_def Let_def wp_simps mem_simps memset_zero_def bytes_of_def del: replicate_Suc)
qed

section \<open>Setting and resetting\<close>

lemma wp_free_append_data:
  assumes "append_ok s"
  shows "wp free_append_data Q E s = Q () (s\<lparr>blocks := without (append_data s) (blocks s), append_data := Null, append_data_size := 0\<rparr>)"
proof (cases "append_data s")
  case Null
  then have "s\<lparr>blocks := blocks s, append_data := Null, append_data_size := 0\<rparr> = s" using assms by (cases s) (simp add: append_ok_def)
  with Null show ?thesis by (simp add: free_append_data_def wp_simps without_def)
next
  case (Block b)
  then show ?thesis using assms by (auto simp: free_append_data_def wp_simps mem_simps append_ok_def without_def)
qed (use assms in \<open>simp add: append_ok_def\<close>)

text \<open>All that the object owns is given back.\<close>

definition given_back :: "dstr \<Rightarrow> dstr \<Rightarrow> bool" where
  "given_back s s' \<longleftrightarrow> blocks s' = client s \<and> append_data s' = Null \<and> append_data_size s' = 0 \<and> free_proc s' = ARG_DSTR_STATIC \<and>
     sbuf s' = sbuf s \<and> next_block s' = next_block s"

lemma wp_give_back:
  assumes "dstr_ok s"
  shows "wp arg_dstr_free (\<lambda>_ r. wp free_append_data (\<lambda>_ s'. given_back s s') (\<lambda>_. False) r) (\<lambda>_. False) s"
proof -
  have d: "\<exists>c. data s = Block c \<and> blocks s c \<noteq> None" if "free_proc s = ARG_DSTR_DYNAMIC"
    using assms that by (auto simp: dstr_ok_def data_ok_def bytes_of_def split: ptr.splits)
  have c1: "without (append_data s) ((blocks s)(c := None)) = client s" if "free_proc s = ARG_DSTR_DYNAMIC" "data s = Block c" for c
    using assms that by (auto simp: client_def owned_def restrict_map_def without_def fun_eq_iff dstr_ok_def append_ok_def split: ptr.splits)
  have c2: "without (append_data s) (blocks s) = client s" if "free_proc s \<noteq> ARG_DSTR_DYNAMIC"
    using assms that by (auto simp: client_def owned_def restrict_map_def without_def fun_eq_iff dstr_ok_def append_ok_def split: ptr.splits)
  have ok: "append_ok r" if "append_data r = append_data s" "append_data_size r = append_data_size s" "\<forall>b. append_data s = Block b \<longrightarrow> blocks r b = blocks s b" for r
    using assms that by (auto simp: dstr_ok_def append_ok_def split: ptr.splits)
  show ?thesis
  proof (cases "free_proc s")
    case ARG_DSTR_STATIC
    then show ?thesis using c2 by (simp add: arg_dstr_free_def release_def wp_simps wp_free_append_data ok given_back_def)
  next
    case ARG_DSTR_VOLATILE
    then show ?thesis using assms by (simp add: dstr_ok_def)
  next
    case ARG_DSTR_DYNAMIC
    with d obtain c where c: "data s = Block c" "blocks s c \<noteq> None" by blast
    have "append_data s \<noteq> Block c" using assms ARG_DSTR_DYNAMIC c(1) by (auto simp: dstr_ok_def)
    then show ?thesis
      using ARG_DSTR_DYNAMIC c c1 by (auto simp: arg_dstr_free_def release_def wp_simps mem_simps wp_free_append_data ok given_back_def)
  next
    case (Client_function i)
    then show ?thesis using c2 by (simp add: arg_dstr_free_def release_def wp_simps wp_free_append_data ok given_back_def)
  qed
qed

lemma wp_arg_dstr_reset:
  assumes "dstr_ok s"
  shows "wp arg_dstr_reset (\<lambda>_ s'. dstr_ok s' \<and> dstr_text s' = '''' \<and> client s' = client s \<and> owned s' = {}) (\<lambda>_. False) s"
proof -
  have l: "length (sbuf s) = ARG_DSTR_SIZE + 1" using assms by (simp add: dstr_ok_def)
  have n: "NUL \<in> set ((sbuf s)[0 := NUL])" "c_string ((sbuf s)[0 := NUL]) = ''''"
    using l by (cases "sbuf s"; simp add: ARG_DSTR_SIZE_def c_string_def)+
  have b: "client s b \<noteq> None \<Longrightarrow> b < next_block s" for b using assms by (auto simp: dstr_ok_def client_def restrict_map_def split: if_splits)
  have "wp (seq (modify (\<lambda>s. s\<lparr>data := Sbuf\<rparr>)) (set_byte Sbuf 0 NUL))
      (\<lambda>_ s'. dstr_ok s' \<and> dstr_text s' = '''' \<and> client s' = client s \<and> owned s' = {}) (\<lambda>_. False) r" if "given_back s r" for r
  proof -
    let ?r = "r\<lparr>data := Sbuf, sbuf := (sbuf s)[0 := NUL]\<rparr>"
    have r: "blocks r = client s" "append_data r = Null" "append_data_size r = 0" "free_proc r = ARG_DSTR_STATIC" "sbuf r = sbuf s" "next_block r = next_block s"
      using that by (simp_all add: given_back_def)
    have "owned ?r = {}" using r by (simp add: owned_def)
    then have "client ?r = client s" using r(1) by (simp add: client_def [of ?r] restrict_map_def)
    moreover have "dstr_ok ?r" "dstr_text ?r = ''''" using r l n b by (auto simp: dstr_ok_def data_ok_def append_ok_def dstr_text_def bytes_of_def)
    moreover have "sbuf s \<noteq> []" using l by auto
    ultimately show ?thesis using r(5) l \<open>owned ?r = {}\<close> by (simp add: wp_simps mem_simps set_byte_def bytes_of_def)
  qed
  then show ?thesis
    using wp_give_back [OF assms] unfolding arg_dstr_reset_def wp_seq by (auto elim!: wp_mono)
qed

text \<open>The end of \<open>arg_dstr_set\<close>, after the new string is in its place.\<close>

definition drop_old :: "free_proc \<Rightarrow> ptr \<Rightarrow> (dstr, unit) cfun" where
  "drop_old old_free_proc old_result =
     seq (bind (gets data) (\<lambda>p. if old_free_proc \<noteq> ARG_DSTR_STATIC \<and> old_result \<noteq> p then release old_free_proc old_result else ret ())) free_append_data"

lemma wp_drop_old:
  assumes "dstr_ok s" and "append_data r = append_data s" and "append_data_size r = append_data_size s" and "\<And>c. c \<in> owned s \<Longrightarrow> blocks r c = blocks s c"
    and "free_proc s = ARG_DSTR_DYNAMIC \<Longrightarrow> data r \<noteq> data s"
  shows "wp (drop_old (free_proc s) (data s)) (\<lambda>_ s'. \<exists>cc. s' = r\<lparr>client_calls := cc, blocks := blocks r |` (- owned s), append_data := Null, append_data_size := 0\<rparr>)
    (\<lambda>_. False) r"
proof -
  have ok: "append_ok r'" if "append_data r' = append_data s" "append_data_size r' = append_data_size s" "\<forall>b. append_data s = Block b \<longrightarrow> blocks r' b = blocks s b" for r'
    using assms that by (auto simp: dstr_ok_def append_ok_def split: ptr.splits)
  have a: "\<forall>b. append_data s = Block b \<longrightarrow> blocks r b = blocks s b" using assms(4) by (auto simp: owned_def)
  have c2: "without (append_data s) (blocks r) = blocks r |` (- owned s)" if "free_proc s \<noteq> ARG_DSTR_DYNAMIC"
    using assms(1) that by (auto simp: owned_def restrict_map_def without_def fun_eq_iff dstr_ok_def append_ok_def split: ptr.splits)
  show ?thesis
  proof (cases "free_proc s = ARG_DSTR_DYNAMIC")
    case True
    then obtain c where c: "data s = Block c" "blocks s c \<noteq> None"
      using assms(1) by (auto simp: dstr_ok_def data_ok_def bytes_of_def split: ptr.splits)
    then have ca: "append_data s \<noteq> Block c" "c \<in> owned s" using assms(1) True by (auto simp: dstr_ok_def owned_def)
    have c1: "without (append_data s) ((blocks r)(c := None)) = blocks r |` (- owned s)"
      using assms(1) True c ca by (auto simp: owned_def restrict_map_def without_def fun_eq_iff dstr_ok_def append_ok_def split: ptr.splits)
    have "data r \<noteq> Block c" using assms(5) True c(1) by auto
    moreover have "blocks r c = blocks s c" by (rule assms(4) [OF ca(2)])
    ultimately show ?thesis using True c ca a c1 assms(2,3)
      by (auto simp: drop_old_def release_def wp_simps mem_simps wp_free_append_data ok intro!: exI [of _ "client_calls r"])
  next
    case False
    then have "free_proc s = ARG_DSTR_STATIC \<or> (\<exists>i. free_proc s = Client_function i)" using assms(1) by (cases "free_proc s") (auto simp: dstr_ok_def)
    then show ?thesis using a c2 [OF False] assms(2,3)
      by (auto simp: drop_old_def release_def wp_simps wp_free_append_data ok intro: exI [of _ "client_calls r"] exI [of _ "client_calls r @ [(_, data s)]"])
  qed
qed

text \<open>What becomes of the client's blocks.\<close>

definition handed_over :: "nat \<Rightarrow> free_proc \<Rightarrow> (nat \<rightharpoonup> string) \<Rightarrow> (nat \<rightharpoonup> string)" where
  "handed_over b f m = (if f = ARG_DSTR_DYNAMIC then m(b := None) else m)"

lemma wp_arg_dstr_set:
  assumes "dstr_ok s" and "client s b = Some bs" and "NUL \<in> set bs"
  shows "wp (arg_dstr_set (Block b) f) (\<lambda>_ s'. dstr_ok s' \<and> dstr_text s' = c_string bs \<and> client s' = handed_over b f (client s)) (\<lambda>_. False) s"
proof -
  have b: "blocks s b = Some bs" "b \<notin> owned s" using assms(2) by (auto simp: client_def restrict_map_def split: if_splits)
  have ok: "length (sbuf s) = ARG_DSTR_SIZE + 1" "\<And>c. blocks s c \<noteq> None \<Longrightarrow> c < next_block s" using assms(1) by (auto simp: dstr_ok_def)
  have less: "length (c_string bs) < length bs" by (rule c_string_less [OF assms(3)])
  have dyn: "data s \<noteq> Sbuf" "data s \<noteq> Block b" if "free_proc s = ARG_DSTR_DYNAMIC" using that assms(1) b by (auto simp: dstr_ok_def owned_def)
  show ?thesis
  proof (cases "f = ARG_DSTR_VOLATILE")
    case False
    let ?r = "s\<lparr>data := Block b, free_proc := f\<rparr>"
    have "wp (drop_old (free_proc s) (data s)) (\<lambda>_ s'. dstr_ok s' \<and> dstr_text s' = c_string bs \<and> client s' = handed_over b f (client s)) (\<lambda>_. False) ?r"
    proof (rule wp_mono [OF wp_drop_old [OF assms(1)]])
      fix t
      assume "\<exists>cc. t = ?r\<lparr>client_calls := cc, blocks := blocks ?r |` (- owned s), append_data := Null, append_data_size := 0\<rparr>"
      then show "dstr_ok t \<and> dstr_text t = c_string bs \<and> client t = handed_over b f (client s)"
        using b ok assms(3) False by (auto simp: dstr_ok_def append_ok_def data_ok_def dstr_text_def bytes_of_def client_def owned_def [of "_\<lparr>append_data := _\<rparr>"] owned_def [of "_\<lparr>append_data_size := _\<rparr>"]
            handed_over_def restrict_map_def fun_eq_iff split: if_splits)
    qed (use dyn in auto)
    then show ?thesis using False by (simp add: arg_dstr_set_def drop_old_def wp_simps)
  next
    case vol: True
    let ?n = "length (c_string bs)"
    show ?thesis
    proof (cases "?n > ARG_DSTR_SIZE")
      case True
      let ?r = "s\<lparr>next_block := next_block s + 1, data := Block (next_block s), free_proc := ARG_DSTR_DYNAMIC, blocks := (blocks s)(next_block s \<mapsto> c_string bs @ [NUL])\<rparr>"
      have new: "blocks s (next_block s) = None" using ok(2) by blast
      then have nb: "b \<noteq> next_block s" "next_block s \<notin> owned s" "data s \<noteq> Block (next_block s)"
        using b assms(1) by (auto simp: owned_def dstr_ok_def append_ok_def data_ok_def bytes_of_def)
      have "wp (drop_old (free_proc s) (data s)) (\<lambda>_ s'. dstr_ok s' \<and> dstr_text s' = c_string bs \<and> client s' = handed_over b f (client s)) (\<lambda>_. False) ?r"
      proof (rule wp_mono [OF wp_drop_old [OF assms(1)]])
        fix t
        assume "\<exists>cc. t = ?r\<lparr>client_calls := cc, blocks := blocks ?r |` (- owned s), append_data := Null, append_data_size := 0\<rparr>"
        then show "dstr_ok t \<and> dstr_text t = c_string bs \<and> client t = handed_over b f (client s)"
          using b ok nb new vol by (auto simp: dstr_ok_def append_ok_def data_ok_def dstr_text_def bytes_of_def client_def owned_def [of "_\<lparr>append_data := _\<rparr>"]
              owned_def [of "_\<lparr>append_data_size := _\<rparr>"] handed_over_def restrict_map_def fun_eq_iff less_Suc_eq split: if_splits)
      qed (use nb in auto)
      then show ?thesis using vol True b(1) assms(3) less nb
        by (simp add: arg_dstr_set_def drop_old_def [symmetric] wp_simps mem_simps strncpy_def assert_terminated_def bytes_of_def Let_def nth_append)
    next
      case False
      let ?t = "c_string bs @ replicate (ARG_DSTR_SIZE + 1 - ?n) NUL"
      let ?r = "s\<lparr>data := Sbuf, free_proc := ARG_DSTR_STATIC, sbuf := ?t\<rparr>"
      have "wp (drop_old (free_proc s) (data s)) (\<lambda>_ s'. dstr_ok s' \<and> dstr_text s' = c_string bs \<and> client s' = handed_over b f (client s)) (\<lambda>_. False) ?r"
      proof (rule wp_mono [OF wp_drop_old [OF assms(1)]])
        fix t
        assume "\<exists>cc. t = ?r\<lparr>client_calls := cc, blocks := blocks ?r |` (- owned s), append_data := Null, append_data_size := 0\<rparr>"
        then show "dstr_ok t \<and> dstr_text t = c_string bs \<and> client t = handed_over b f (client s)"
          using b ok vol False by (auto simp: dstr_ok_def append_ok_def data_ok_def dstr_text_def bytes_of_def client_def owned_def [of "_\<lparr>append_data := _\<rparr>"]
              owned_def [of "_\<lparr>append_data_size := _\<rparr>"] handed_over_def restrict_map_def fun_eq_iff split: if_splits)
      qed (use dyn in auto)
      moreover obtain x where "drop ARG_DSTR_SIZE (sbuf s) = [x]" using ok(1) by (cases "drop ARG_DSTR_SIZE (sbuf s)") (auto dest: arg_cong [of _ _ length])
      moreover have "(c_string bs @ replicate (ARG_DSTR_SIZE - ?n) NUL @ [x])[ARG_DSTR_SIZE := NUL] = ?t"
        using False by (simp add: list_update_append Suc_diff_le replicate_append_same)
      ultimately show ?thesis using vol False b(1) assms(3) ok(1) less
        by (simp add: arg_dstr_set_def drop_old_def [symmetric] wp_simps mem_simps strncpy_def set_byte_def assert_terminated_def bytes_of_def Let_def nth_append)
    qed
  qed
qed

lemma wp_arg_dstr_set_null:
  assumes "dstr_ok s"
  shows "wp (arg_dstr_set Null f) (\<lambda>_ s'. dstr_ok s' \<and> dstr_text s' = '''' \<and> client s' = client s) (\<lambda>_. False) s"
proof -
  have l: "length (sbuf s) = ARG_DSTR_SIZE + 1" "sbuf s \<noteq> ''''" using assms by (auto simp: dstr_ok_def)
  have n: "NUL \<in> set ((sbuf s)[0 := NUL])" "c_string ((sbuf s)[0 := NUL]) = ''''"
    using l by (cases "sbuf s"; simp add: ARG_DSTR_SIZE_def c_string_def)+
  let ?r = "s\<lparr>sbuf := (sbuf s)[0 := NUL], data := Sbuf, free_proc := ARG_DSTR_STATIC\<rparr>"
  have dyn: "data s \<noteq> Sbuf" if "free_proc s = ARG_DSTR_DYNAMIC" using that assms by (auto simp: dstr_ok_def)
  have "wp (drop_old (free_proc s) (data s)) (\<lambda>_ s'. dstr_ok s' \<and> dstr_text s' = '''' \<and> client s' = client s) (\<lambda>_. False) ?r"
  proof (rule wp_mono [OF wp_drop_old [OF assms]])
    fix t
    assume "\<exists>cc. t = ?r\<lparr>client_calls := cc, blocks := blocks ?r |` (- owned s), append_data := Null, append_data_size := 0\<rparr>"
    then show "dstr_ok t \<and> dstr_text t = '''' \<and> client t = client s"
      using l n assms by (auto simp: dstr_ok_def append_ok_def data_ok_def dstr_text_def bytes_of_def client_def owned_def [of "_\<lparr>append_data := _\<rparr>"]
          owned_def [of "_\<lparr>append_data_size := _\<rparr>"] restrict_map_def fun_eq_iff split: if_splits)
  qed (use dyn in auto)
  then show ?thesis using l by (simp add: arg_dstr_set_def drop_old_def [symmetric] wp_simps mem_simps set_byte_def bytes_of_def)
qed

section \<open>Refinement\<close>

text \<open>Calls of a client; the strings it passes are in its blocks.\<close>

datatype dstr_op =
    Op_cat nat
  | Op_catc char
  | Op_catf nat string
  | Op_set nat free_proc
  | Op_set_null
  | Op_reset

definition run_op :: "dstr_op \<Rightarrow> (dstr, unit) cfun" where
  "run_op p = (case p of
      Op_cat b \<Rightarrow> arg_dstr_cat (Block b)
    | Op_catc c \<Rightarrow> arg_dstr_catc c
    | Op_catf n t \<Rightarrow> arg_dstr_catf n t
    | Op_set b f \<Rightarrow> arg_dstr_set (Block b) f
    | Op_set_null \<Rightarrow> arg_dstr_set Null ARG_DSTR_STATIC
    | Op_reset \<Rightarrow> arg_dstr_reset)"

text \<open>
  What they mean: to the client's blocks and to a string. A call is right if the block is one of the client's and holds a
  string, and if the result is shorter than \<open>2\<^sup>2\<^sup>9\<close>, half of what the \<open>int\<close>s allow.
\<close>

definition short :: "string \<Rightarrow> bool" where
  "short t \<longleftrightarrow> length t < 2 ^ 29"

definition string_op :: "dstr_op \<Rightarrow> (nat \<rightharpoonup> string) \<times> string \<Rightarrow> ((nat \<rightharpoonup> string) \<times> string) option" where
  "string_op p x = (case x of (m, t) \<Rightarrow> (case p of
      Op_cat b \<Rightarrow> (case m b of Some bs \<Rightarrow> if NUL \<in> set bs \<and> short (t @ c_string bs) then Some (m, t @ c_string bs) else None | None \<Rightarrow> None)
    | Op_catc c \<Rightarrow> if short (t @ [c]) then Some (m, t @ c_string [c]) else None
    | Op_catf n u \<Rightarrow> if n < 2 ^ 29 \<and> NUL \<notin> set u \<and> short (t @ u) then Some (m, t @ u) else None
    | Op_set b f \<Rightarrow> (case m b of Some bs \<Rightarrow> if NUL \<in> set bs then Some (handed_over b f m, c_string bs) else None | None \<Rightarrow> None)
    | Op_set_null \<Rightarrow> Some (m, '''')
    | Op_reset \<Rightarrow> Some (m, '''')))"

primrec string_ops :: "dstr_op list \<Rightarrow> (nat \<rightharpoonup> string) \<times> string \<Rightarrow> ((nat \<rightharpoonup> string) \<times> string) option" where
  "string_ops [] x = Some x"
| "string_ops (p # ps) x = (case string_op p x of None \<Rightarrow> None | Some y \<Rightarrow> string_ops ps y)"

lemma wp_run_op:
  assumes "dstr_ok s" and "string_op p (client s, dstr_text s) = Some (m, t)"
  shows "wp (run_op p) (\<lambda>_ s'. dstr_ok s' \<and> dstr_text s' = t \<and> client s' = m) (\<lambda>_. False) s"
proof (cases p)
  case (Op_cat b)
  with assms(2) obtain bs where "client s b = Some bs" "NUL \<in> set bs" "length (dstr_text s) + length (c_string bs) < 2 ^ 29"
    "t = dstr_text s @ c_string bs" "m = client s" by (auto simp: string_op_def short_def split: option.splits if_splits)
  with Op_cat wp_arg_dstr_cat [OF assms(1) this(1,2)] show ?thesis by (auto simp: run_op_def elim!: wp_mono)
next
  case (Op_catc c)
  with assms(2) have "length (dstr_text s) + 1 < 2 ^ 29" "t = dstr_text s @ c_string [c]" "m = client s"
    by (auto simp: string_op_def short_def split: if_splits)
  with Op_catc wp_arg_dstr_catc [OF assms(1), of c] show ?thesis by (auto simp: run_op_def)
next
  case (Op_catf n u)
  with assms(2) have "n < 2 ^ 29" "NUL \<notin> set u" "length (dstr_text s) + length u < 2 ^ 29" "t = dstr_text s @ u" "m = client s"
    by (auto simp: string_op_def short_def split: if_splits)
  with Op_catf wp_arg_dstr_catf [OF assms(1) this(2), of n] show ?thesis by (auto simp: run_op_def)
next
  case (Op_set b f)
  with assms(2) obtain bs where "client s b = Some bs" "NUL \<in> set bs" "t = c_string bs" "m = handed_over b f (client s)"
    by (auto simp: string_op_def split: option.splits if_splits)
  with Op_set wp_arg_dstr_set [OF assms(1) this(1,2), of f] show ?thesis by (simp add: run_op_def)
next
  case Op_set_null
  with assms(2) wp_arg_dstr_set_null [OF assms(1)] show ?thesis by (simp add: run_op_def string_op_def)
next
  case Op_reset
  with assms(2) wp_arg_dstr_reset [OF assms(1)] show ?thesis by (auto simp: run_op_def string_op_def elim!: wp_mono)
qed

lemma wp_run_ops:
  assumes "dstr_ok s" and "string_ops ps (client s, dstr_text s) = Some (m, t)"
  shows "wp (for_each ps run_op) (\<lambda>_ s'. dstr_ok s' \<and> dstr_text s' = t \<and> client s' = m) (\<lambda>_. False) s"
  using assms
proof (induction ps arbitrary: s)
  case (Cons p ps)
  then obtain m' t' where step: "string_op p (client s, dstr_text s) = Some (m', t')" "string_ops ps (m', t') = Some (m, t)"
    by (auto split: option.splits)
  show ?case
    unfolding wp_for_each_Cons
    by (rule wp_mono [OF wp_run_op [OF Cons.prems(1) step(1)]]) (use Cons.IH step(2) in auto)
qed (simp add: wp_simps)

text \<open>C20: A dynamic string is a string, and its memory is safe: after \<open>arg_dstr_create\<close> any sequence of the operations, with strings
  of the client that fit, ends without undefined behaviour (no access outside of a buffer or to freed memory, no overflow of a size),
  \<open>arg_dstr_cstr\<close> is the string the sequence builds, and after \<open>arg_dstr_destroy\<close> every block that was allocated or handed over
  is freed and the client's are as they were.\<close>

theorem arg_dstr_refines_string:
  assumes "\<forall>b. blocks s b \<noteq> None \<longrightarrow> b < next_block s" and "string_ops ps (blocks s, '''') = Some (m, t)"
  shows "\<exists>s' s''. seq arg_dstr_create (for_each ps run_op) s = Returns () s' \<and> dstr_text s' = t \<and>
    arg_dstr_destroy s' = Returns () s'' \<and> blocks s'' = m"
proof -
  let ?s = "s\<lparr>data := Sbuf, free_proc := ARG_DSTR_STATIC, sbuf := replicate (ARG_DSTR_SIZE + 1) NUL, append_data := Null, append_data_size := 0, append_used := 0\<rparr>"
  have c: "dstr_ok ?s" "client ?s = blocks s" "dstr_text ?s = ''''"
    using assms(1) c_string_padded [of "''''" "ARG_DSTR_SIZE + 1"]
    by (auto simp: dstr_ok_def append_ok_def data_ok_def bytes_of_def client_def owned_def restrict_map_def dstr_text_def ARG_DSTR_SIZE_def)
  obtain s' where s': "for_each ps run_op ?s = Returns () s'" "dstr_ok s'" "dstr_text s' = t" "client s' = m"
    using wp_run_ops [OF c(1), of ps m t] assms(2) unfolding c(2,3) wp_returns_iff by auto
  obtain s'' where "arg_dstr_reset s' = Returns () s''" "client s'' = m" "owned s'' = {}"
    using wp_arg_dstr_reset [OF s'(2)] s'(4) unfolding wp_returns_iff by auto
  with s' show ?thesis
    by (auto simp: seq_def bind_def arg_dstr_create_def modify_def arg_dstr_destroy_def client_def restrict_map_def)
qed

definition example_heap :: dstr where
  "example_heap = \<lparr>data = Null, free_proc = ARG_DSTR_STATIC, sbuf = '''', append_data = Null, append_data_size = 0, append_used = 0,
     blocks = [0 \<mapsto> ''ab'' @ [NUL]], next_block = 1, junk = CHR ''x'', client_calls = []\<rparr>"

theorem arg_dstr_refines_string_witness:
  "\<exists>s' s''. seq arg_dstr_create (for_each [Op_cat 0, Op_catf 2 ''cd'', Op_catc CHR ''!''] run_op) example_heap = Returns () s' \<and> dstr_text s' = ''abcd!'' \<and>
    arg_dstr_destroy s' = Returns () s'' \<and> blocks s'' = [0 \<mapsto> ''ab'' @ [NUL]]"
  by (rule arg_dstr_refines_string) (simp_all add: example_heap_def string_op_def short_def c_string_def)

end
