(* ===== verification/CliOs.thy ===== *)
theory CliOs
  imports ServiceHooks Frames
begin

text \<open>
  The operating system layer of the tool: the interface of \<^verbatim>\<open>cli/osl.h\<close> as a record of functions, and its two
  implementations, \<^verbatim>\<open>cli/osl/linux.c\<close> and \<^verbatim>\<open>cli/osl/windows.c\<close>. The system calls and the functions of the C library, of
  libefivar and of the Windows API are not part of the repository; they are parameters, functions on a state of any
  type. The build takes one of the two files.
\<close>

section \<open>The interface\<close>

record 'w osl =
  enable_uefi_privileges :: "('w, unit) cfun"
  enable_sleep_privileges :: "('w, unit) cfun"
  set_uefi_variable :: "guid \<Rightarrow> u32 list \<Rightarrow> u8 list \<Rightarrow> ('w, unit) cfun"
  enter_sleep_s3 :: "('w, unit) cfun"

section \<open>Linux\<close>

text \<open>
  \<open>wcsrtombs\<close> returns the number of bytes and the buffer it has written to, of the size it is given; it depends on the
  locale, and \<open>- 1\<close> says that a character cannot be converted. An \<open>int\<close> is 32 bits.
\<close>

record 'w linux =
  wcsrtombs :: "u32 list \<Rightarrow> u64 \<Rightarrow> u64 \<times> u8 list"
  efi_set_variable :: "u8 list \<Rightarrow> u8 list \<Rightarrow> u8 list \<Rightarrow> u32 \<Rightarrow> u32 \<Rightarrow> 'w \<Rightarrow> u32 \<times> 'w"
  sys_open :: "u8 list \<Rightarrow> u32 \<Rightarrow> 'w \<Rightarrow> u32 \<times> 'w"
  sys_write :: "u32 \<Rightarrow> u8 list \<Rightarrow> 'w \<Rightarrow> u64 \<times> 'w"
  sys_close :: "u32 \<Rightarrow> 'w \<Rightarrow> 'w"

definition O_WRONLY :: u32 where "O_WRONLY = 1"

text \<open>\<open>"/sys/power/state"\<close> and \<open>"mem\n"\<close>, with their terminators.\<close>

definition power_state_path :: "u8 list" where
  "power_state_path = map of_char ''/sys/power/state'' @ [0]"

definition power_state_mem_str :: "u8 list" where
  "power_state_mem_str = map of_char ''mem'' @ [10, 0]"

definition linux_set_uefi_variable :: "'w linux \<Rightarrow> guid \<Rightarrow> u32 list \<Rightarrow> u8 list \<Rightarrow> ('w, unit) cfun" where
  "linux_set_uefi_variable L guid name data =
     (case wcsrtombs L name 64 of (n, name_str) \<Rightarrow>
      seq (CHECK (n > 0))
          (bind (stateful (efi_set_variable L (guid_bytes guid) name_str data 0 0)) (\<lambda>r. CHECK (r = 0))))"

definition linux_close_power_state :: "'w linux \<Rightarrow> u32 \<Rightarrow> ('w, unit) cfun" where
  "linux_close_power_state L power_state_fd =
     (if 0 <=s power_state_fd then modify (sys_close L power_state_fd) else ret ())"

definition linux_enter_sleep_s3 :: "'w linux \<Rightarrow> ('w, unit) cfun" where
  "linux_enter_sleep_s3 L =
     bind (stateful (sys_open L power_state_path O_WRONLY)) (\<lambda>power_state_fd.
     seq (on_error
         (seq (CHECK (0 <=s power_state_fd))
              (bind (stateful (sys_write L power_state_fd power_state_mem_str)) (\<lambda>n. CHECK (n = of_nat (length power_state_mem_str)))))
         (linux_close_power_state L power_state_fd))
       (linux_close_power_state L power_state_fd))"

definition linux_osl :: "'w linux \<Rightarrow> 'w osl" where
  "linux_osl L = \<lparr>enable_uefi_privileges = ret (), enable_sleep_privileges = ret (), set_uefi_variable = linux_set_uefi_variable L,
     enter_sleep_s3 = linux_enter_sleep_s3 L\<rparr>"

section \<open>Windows\<close>

text \<open>A \<open>wchar_t\<close> is 16 bits there; the layer above writes names with 32, all of them ASCII.\<close>

record 'w windows =
  LookupPrivilegeValue :: "u8 list \<Rightarrow> 'w \<Rightarrow> (u32 \<times> u64) \<times> 'w"
  AdjustTokenPrivileges :: "u64 \<Rightarrow> u64 \<times> u32 \<Rightarrow> 'w \<Rightarrow> u32 \<times> 'w"
  GetLastError :: "'w \<Rightarrow> u32"
  OpenProcessToken :: "u32 \<Rightarrow> 'w \<Rightarrow> (u32 \<times> u64) \<times> 'w"
  CloseHandle :: "u64 \<Rightarrow> 'w \<Rightarrow> 'w"
  StringFromGUID2 :: "u8 list \<Rightarrow> u64 \<Rightarrow> u32 \<times> u16 list"
  SetFirmwareEnvironmentVariableW :: "u16 list \<Rightarrow> u16 list \<Rightarrow> u8 list \<Rightarrow> 'w \<Rightarrow> u32 \<times> 'w"
  SetSuspendState :: "bool \<Rightarrow> bool \<Rightarrow> bool \<Rightarrow> 'w \<Rightarrow> u32 \<times> 'w"

definition INVALID_HANDLE_VALUE :: u64 where "INVALID_HANDLE_VALUE = - 1"
definition TOKEN_ADJUST_PRIVILEGES :: u32 where "TOKEN_ADJUST_PRIVILEGES = 0x20"
definition TOKEN_QUERY :: u32 where "TOKEN_QUERY = 8"
definition SE_PRIVILEGE_ENABLED :: u32 where "SE_PRIVILEGE_ENABLED = 2"
definition ERROR_NOT_ALL_ASSIGNED :: u32 where "ERROR_NOT_ALL_ASSIGNED = 1300"
definition SE_SYSTEM_ENVIRONMENT_NAME :: "u8 list" where "SE_SYSTEM_ENVIRONMENT_NAME = map of_char ''SeSystemEnvironmentPrivilege''"
definition SE_SHUTDOWN_NAME :: "u8 list" where "SE_SHUTDOWN_NAME = map of_char ''SeShutdownPrivilege''"

definition set_privilege :: "'w windows \<Rightarrow> u64 \<Rightarrow> u8 list \<Rightarrow> bool \<Rightarrow> ('w, unit) cfun" where
  "set_privilege W token privilege enable_privilege =
     bind (stateful (LookupPrivilegeValue W privilege)) (\<lambda>(r, luid).
     seq (CHECK (r \<noteq> 0))
    (seq (bind (stateful (AdjustTokenPrivileges W token (luid, if enable_privilege then SE_PRIVILEGE_ENABLED else 0))) (\<lambda>r. CHECK (r \<noteq> 0)))
         (bind (gets (GetLastError W)) (\<lambda>e. CHECK (e \<noteq> ERROR_NOT_ALL_ASSIGNED)))))"

definition close_token :: "'w windows \<Rightarrow> u64 \<Rightarrow> ('w, unit) cfun" where
  "close_token W process_token = (if process_token \<noteq> INVALID_HANDLE_VALUE then modify (CloseHandle W process_token) else ret ())"

text \<open>The common part of \<open>enable_uefi_privileges\<close> and \<open>enable_sleep_privileges\<close>. A failing call leaves the variable as it was.\<close>

definition windows_enable_privilege :: "'w windows \<Rightarrow> u8 list \<Rightarrow> ('w, unit) cfun" where
  "windows_enable_privilege W privilege =
     bind (stateful (OpenProcessToken W (TOKEN_ADJUST_PRIVILEGES OR TOKEN_QUERY))) (\<lambda>(r, token).
     let process_token = (if r \<noteq> 0 then token else INVALID_HANDLE_VALUE) in
     seq (on_error
         (seq (CHECK (r \<noteq> 0))
              (set_privilege W process_token privilege True))
         (close_token W process_token))
       (close_token W process_token))"

definition windows_enable_uefi_privileges :: "'w windows \<Rightarrow> ('w, unit) cfun" where
  "windows_enable_uefi_privileges W = windows_enable_privilege W SE_SYSTEM_ENVIRONMENT_NAME"

definition windows_enable_sleep_privileges :: "'w windows \<Rightarrow> ('w, unit) cfun" where
  "windows_enable_sleep_privileges W = windows_enable_privilege W SE_SHUTDOWN_NAME"

definition guid_to_string :: "'w windows \<Rightarrow> guid \<Rightarrow> u64 \<Rightarrow> ('w, u16 list) cfun" where
  "guid_to_string W guid str_size =
     (case StringFromGUID2 W (guid_bytes guid) str_size of (n, str) \<Rightarrow> seq (CHECK (n \<noteq> 0)) (ret str))"

text \<open>The size of the buffer of 64 characters is given in bytes.\<close>

definition windows_set_uefi_variable :: "'w windows \<Rightarrow> guid \<Rightarrow> u32 list \<Rightarrow> u8 list \<Rightarrow> ('w, unit) cfun" where
  "windows_set_uefi_variable W guid name data =
     bind (guid_to_string W guid 128) (\<lambda>guid_str.
     bind (stateful (SetFirmwareEnvironmentVariableW W (map ucast name) guid_str data)) (\<lambda>r. CHECK (r \<noteq> 0)))"

definition windows_enter_sleep_s3 :: "'w windows \<Rightarrow> ('w, unit) cfun" where
  "windows_enter_sleep_s3 W = bind (stateful (SetSuspendState W False False False)) (\<lambda>r. CHECK (r \<noteq> 0))"

definition windows_osl :: "'w windows \<Rightarrow> 'w osl" where
  "windows_osl W = \<lparr>enable_uefi_privileges = windows_enable_uefi_privileges W, enable_sleep_privileges = windows_enable_sleep_privileges W,
     set_uefi_variable = windows_set_uefi_variable W, enter_sleep_s3 = windows_enter_sleep_s3 W\<rparr>"

end
