(* ===== verification/ArgHashtable.thy ===== *)
theory ArgHashtable
  imports Prelude "HOL-Library.Multiset"
begin

text \<open>
  The hash table of the argument parser (\<open>arg_hashtable\<close> in \<^verbatim>\<open>cli/lib/argtable/argtable3.c\<close>), the store of the
  subcommands of the command line tool. A chain of entries linked by \<open>next\<close> is a list; keys and values are of any type,
  compared and hashed by the two functions of the table. \<open>xmalloc\<close> ends the program when it fails, and freed memory is
  not modelled but for \<open>arg_hashtable_destroy\<close>, which returns what it frees.
\<close>

section \<open>The table\<close>

record ('k, 'v) arg_hashtable_entry =
  ent_k :: 'k
  ent_v :: 'v
  ent_h :: u32

record ('k, 'v) arg_hashtable =
  tablelength :: u32
  table :: "('k, 'v) arg_hashtable_entry list list"
  entrycount :: u32
  loadlimit :: u32
  primeindex :: u32
  hashfn :: "'k \<Rightarrow> u32"
  eqfn :: "'k \<Rightarrow> 'k \<Rightarrow> bool"

definition primes :: "u32 list" where
  "primes = [53, 97, 193, 389, 769, 1543, 3079, 6151, 12289, 24593, 49157, 98317, 196613, 393241, 786433, 1572869, 3145739, 6291469,
     12582917, 25165843, 50331653, 100663319, 201326611, 402653189, 805306457, 1610612741]"

definition prime_table_length :: u32 where "prime_table_length = of_nat (length primes)"

text \<open>
  \<open>ceil(size * (double)max_load_factor)\<close>. The \<open>float\<close> nearest to 0.65 is \<open>5452595 / 2\<^sup>2\<^sup>3\<close>; its product with a size from the
  table of primes is below \<open>2\<^sup>3\<^sup>0\<close> and so exact in a \<open>double\<close>.
\<close>

definition load_limit :: "u32 \<Rightarrow> u32" where
  "load_limit n = of_nat ((unat n * 5452595 + (2 ^ 23 - 1)) div 2 ^ 23)"

definition enhanced_hash :: "('k, 'v) arg_hashtable \<Rightarrow> 'k \<Rightarrow> u32" where
  "enhanced_hash h k =
     (let i = hashfn h k;
          i = i + NOT (push_bit 9 i);
          i = i XOR (drop_bit 14 i OR push_bit 18 i);
          i = i + push_bit 4 i;
          i = i XOR (drop_bit 10 i OR push_bit 22 i)
      in i)"

definition index_for :: "u32 \<Rightarrow> u32 \<Rightarrow> u32" where
  "index_for n hashvalue = hashvalue mod n"

text \<open>The first prime above \<open>minsize\<close> and its index; the loop variable and the size if there is none.\<close>

primrec choose_prime :: "u32 \<Rightarrow> u32 \<Rightarrow> u32 list \<Rightarrow> u32 \<Rightarrow> u32 \<times> u32" where
  "choose_prime minsize sz [] pindex = (pindex, sz)"
| "choose_prime minsize sz (p # ps) pindex = (if p > minsize then (pindex, p) else choose_prime minsize sz ps (pindex + 1))"

definition arg_hashtable_create :: "u32 \<Rightarrow> ('k \<Rightarrow> u32) \<Rightarrow> ('k \<Rightarrow> 'k \<Rightarrow> bool) \<Rightarrow> ('k, 'v) arg_hashtable option" where
  "arg_hashtable_create minsize hf eq =
     (if minsize > push_bit 30 1 then None
      else let (pindex, sz) = choose_prime minsize (primes ! 0) primes 0 in
        Some \<lparr>tablelength = sz, table = replicate (unat sz) [], entrycount = 0, loadlimit = load_limit sz, primeindex = pindex,
          hashfn = hf, eqfn = eq\<rparr>)"

text \<open>The loops of \<open>arg_hashtable_expand\<close>: every entry becomes the head of its chain in the new table.\<close>

primrec move_chain :: "u32 \<Rightarrow> ('k, 'v) arg_hashtable_entry list \<Rightarrow> ('k, 'v) arg_hashtable_entry list list \<Rightarrow> ('k, 'v) arg_hashtable_entry list list" where
  "move_chain newsize [] newtable = newtable"
| "move_chain newsize (e # es) newtable =
     (let index = unat (index_for newsize (ent_h e)) in move_chain newsize es (newtable[index := e # newtable ! index]))"

primrec move_chains ::
  "u32 \<Rightarrow> ('k, 'v) arg_hashtable_entry list list \<Rightarrow> ('k, 'v) arg_hashtable_entry list list \<Rightarrow> ('k, 'v) arg_hashtable_entry list list" where
  "move_chains newsize [] newtable = newtable"
| "move_chains newsize (c # cs) newtable = move_chains newsize cs (move_chain newsize c newtable)"

definition arg_hashtable_expand :: "('k, 'v) arg_hashtable \<Rightarrow> ('k, 'v) arg_hashtable" where
  "arg_hashtable_expand h =
     (if primeindex h = prime_table_length - 1 then h
      else let pi = primeindex h + 1; newsize = primes ! unat pi in
        h\<lparr>primeindex := pi, table := move_chains newsize (table h) (replicate (unat newsize) []), tablelength := newsize,
          loadlimit := load_limit newsize\<rparr>)"

definition arg_hashtable_count :: "('k, 'v) arg_hashtable \<Rightarrow> u32" where
  "arg_hashtable_count h = entrycount h"

definition arg_hashtable_insert :: "('k, 'v) arg_hashtable \<Rightarrow> 'k \<Rightarrow> 'v \<Rightarrow> ('k, 'v) arg_hashtable" where
  "arg_hashtable_insert h k v =
     (let h1 = (if entrycount h + 1 > loadlimit h then arg_hashtable_expand h else h);
          hv = enhanced_hash h1 k;
          index = unat (index_for (tablelength h1) hv)
      in h1\<lparr>table := (table h1)[index := \<lparr>ent_k = k, ent_v = v, ent_h = hv\<rparr> # table h1 ! index], entrycount := entrycount h1 + 1\<rparr>)"

text \<open>Whether an entry is the one looked for; the hash value first.\<close>

definition matches :: "('k, 'v) arg_hashtable \<Rightarrow> 'k \<Rightarrow> u32 \<Rightarrow> ('k, 'v) arg_hashtable_entry \<Rightarrow> bool" where
  "matches h k hashvalue e \<longleftrightarrow> hashvalue = ent_h e \<and> eqfn h k (ent_k e)"

definition arg_hashtable_search :: "('k, 'v) arg_hashtable \<Rightarrow> 'k \<Rightarrow> 'v option" where
  "arg_hashtable_search h k =
     (let hashvalue = enhanced_hash h k; index = unat (index_for (tablelength h) hashvalue)
      in map_option ent_v (find (matches h k hashvalue) (table h ! index)))"

text \<open>The chain without the first entry that is looked for, if there is one.\<close>

primrec unlink :: "('e \<Rightarrow> bool) \<Rightarrow> 'e list \<Rightarrow> 'e list option" where
  "unlink P [] = None"
| "unlink P (e # es) = (if P e then Some es else map_option ((#) e) (unlink P es))"

definition arg_hashtable_remove :: "('k, 'v) arg_hashtable \<Rightarrow> 'k \<Rightarrow> ('k, 'v) arg_hashtable" where
  "arg_hashtable_remove h k =
     (let hashvalue = enhanced_hash h k; index = unat (index_for (tablelength h) hashvalue)
      in case unlink (matches h k hashvalue) (table h ! index) of
           None \<Rightarrow> h
         | Some chain \<Rightarrow> h\<lparr>table := (table h)[index := chain], entrycount := entrycount h - 1\<rparr>)"

primrec replace_value :: "(('k, 'v) arg_hashtable_entry \<Rightarrow> bool) \<Rightarrow> 'v \<Rightarrow> ('k, 'v) arg_hashtable_entry list \<Rightarrow> ('k, 'v) arg_hashtable_entry list option" where
  "replace_value P v [] = None"
| "replace_value P v (e # es) = (if P e then Some (e\<lparr>ent_v := v\<rparr> # es) else map_option ((#) e) (replace_value P v es))"

text \<open>The result is whether the C function returned -1 rather than 0.\<close>

definition arg_hashtable_change :: "('k, 'v) arg_hashtable \<Rightarrow> 'k \<Rightarrow> 'v \<Rightarrow> bool \<times> ('k, 'v) arg_hashtable" where
  "arg_hashtable_change h k v =
     (let hashvalue = enhanced_hash h k; index = unat (index_for (tablelength h) hashvalue)
      in case replace_value (matches h k hashvalue) v (table h ! index) of
           None \<Rightarrow> (False, h)
         | Some chain \<Rightarrow> (True, h\<lparr>table := (table h)[index := chain]\<rparr>))"

text \<open>What is freed: the keys, the values if asked for; and the entries, one for each key, and the table.\<close>

definition arg_hashtable_destroy :: "('k, 'v) arg_hashtable \<Rightarrow> bool \<Rightarrow> 'k list \<times> 'v list" where
  "arg_hashtable_destroy h free_values =
     (let es = concat (table h) in (map ent_k es, if free_values then map ent_v es else []))"

section \<open>Iterators\<close>

text \<open>A pointer to an entry is its position in the chain at \<open>itr_index\<close>.\<close>

record arg_hashtable_itr =
  itr_index :: nat
  itr_e :: "nat option"
  itr_parent :: "nat option"

text \<open>The first chain from index \<open>j\<close> on that is not empty.\<close>

definition next_chain :: "('k, 'v) arg_hashtable \<Rightarrow> nat \<Rightarrow> nat option" where
  "next_chain h j = find (\<lambda>i. table h ! i \<noteq> []) [j..<unat (tablelength h)]"

definition arg_hashtable_itr_create :: "('k, 'v) arg_hashtable \<Rightarrow> arg_hashtable_itr" where
  "arg_hashtable_itr_create h =
     (let none = \<lparr>itr_index = unat (tablelength h), itr_e = None, itr_parent = None\<rparr> in
      if entrycount h = 0 then none
      else case next_chain h 0 of None \<Rightarrow> none | Some i \<Rightarrow> none\<lparr>itr_e := Some 0, itr_index := i\<rparr>)"

text \<open>The key and the value; without an entry the code dereferences a null pointer.\<close>

definition itr_entry :: "('k, 'v) arg_hashtable \<Rightarrow> arg_hashtable_itr \<Rightarrow> ('k, 'v) arg_hashtable_entry option" where
  "itr_entry h itr = map_option (\<lambda>p. table h ! itr_index itr ! p) (itr_e itr)"

definition arg_hashtable_itr_key :: "('k, 'v) arg_hashtable \<Rightarrow> arg_hashtable_itr \<Rightarrow> 'k option" where
  "arg_hashtable_itr_key h itr = map_option ent_k (itr_entry h itr)"

definition arg_hashtable_itr_value :: "('k, 'v) arg_hashtable \<Rightarrow> arg_hashtable_itr \<Rightarrow> 'v option" where
  "arg_hashtable_itr_value h itr = map_option ent_v (itr_entry h itr)"

text \<open>To the first entry of the next chain that has one; the result is whether there is one.\<close>

definition itr_next_chain :: "('k, 'v) arg_hashtable \<Rightarrow> arg_hashtable_itr \<Rightarrow> bool \<times> arg_hashtable_itr" where
  "itr_next_chain h itr =
     (let j = itr_index itr + 1 in
      if unat (tablelength h) \<le> j then (False, itr\<lparr>itr_index := j, itr_parent := None, itr_e := None\<rparr>)
      else case next_chain h j of
          None \<Rightarrow> (False, itr\<lparr>itr_index := unat (tablelength h), itr_parent := None, itr_e := None\<rparr>)
        | Some i \<Rightarrow> (True, itr\<lparr>itr_index := i, itr_parent := None, itr_e := Some 0\<rparr>))"

definition arg_hashtable_itr_advance :: "('k, 'v) arg_hashtable \<Rightarrow> arg_hashtable_itr \<Rightarrow> bool \<times> arg_hashtable_itr" where
  "arg_hashtable_itr_advance h itr = (case itr_e itr of
      None \<Rightarrow> (False, itr)
    | Some p \<Rightarrow>
        if p + 1 < length (table h ! itr_index itr) then (True, itr\<lparr>itr_parent := Some p, itr_e := Some (p + 1)\<rparr>)
        else itr_next_chain h itr)"

text \<open>
  The removed entry's chain closes up: its successor takes its position when it is the head or follows \<open>itr_parent\<close>.
  The iterator moves on to the successor.
\<close>

definition arg_hashtable_itr_remove :: "('k, 'v) arg_hashtable \<Rightarrow> arg_hashtable_itr \<Rightarrow> (bool \<times> arg_hashtable_itr \<times> ('k, 'v) arg_hashtable) option" where
  "arg_hashtable_itr_remove h itr = (case itr_e itr of
      None \<Rightarrow> None
    | Some p \<Rightarrow>
        let i = itr_index itr; chain = table h ! i; next = drop (p + 1) chain;
            front = (case itr_parent itr of None \<Rightarrow> [] | Some q \<Rightarrow> take (q + 1) chain);
            h' = h\<lparr>table := (table h)[i := front @ next], entrycount := entrycount h - 1\<rparr>
        in if next \<noteq> [] then Some (True, itr\<lparr>itr_e := Some (length front)\<rparr>, h')
           else case itr_next_chain h' itr of (r, itr') \<Rightarrow> Some (r, itr', h'))"

definition arg_hashtable_itr_search :: "arg_hashtable_itr \<Rightarrow> ('k, 'v) arg_hashtable \<Rightarrow> 'k \<Rightarrow> bool \<times> arg_hashtable_itr" where
  "arg_hashtable_itr_search itr h k =
     (let hashvalue = enhanced_hash h k; index = unat (index_for (tablelength h) hashvalue); chain = table h ! index
      in case find (\<lambda>p. matches h k hashvalue (chain ! p)) [0..<length chain] of
           None \<Rightarrow> (False, itr)
         | Some p \<Rightarrow> (True, \<lparr>itr_index = index, itr_e = Some p, itr_parent = (if p = 0 then None else Some (p - 1))\<rparr>))"

end
