(* ===== verification/ArgHashtableProps.thy ===== *)
theory ArgHashtableProps
  imports ArgHashtable
begin

text \<open>
  The hash table implements a finite map: its invariant, the map it stands for, and every operation as the operation of
  the map. The locale \<open>dictionary\<close> is what the subcommands rely on. The iterator visits every entry once.
\<close>

section \<open>Hash and sizes\<close>

lemma length_primes: "length primes = 26"
  by (simp add: primes_def)

lemma prime_positive: "i < 26 \<Longrightarrow> 0 < unat (primes ! i)"
proof -
  have "\<forall>p \<in> set primes. 0 < unat p" by (simp add: primes_def)
  then show "i < 26 \<Longrightarrow> 0 < unat (primes ! i)" using length_primes by (metis nth_mem)
qed

lemma index_for_less: "0 < unat n \<Longrightarrow> unat (index_for n hv) < unat n"
  by (simp add: index_for_def unat_mod)

lemma choose_prime_index:
  assumes "choose_prime m s ps i = (j, n)" and "unat i + length ps < 2 ^ 32"
  shows "(unat i \<le> unat j \<and> unat j < unat i + length ps \<and> n = ps ! (unat j - unat i) \<and> n > m) \<or>
    (unat j = unat i + length ps \<and> n = s \<and> (\<forall>p \<in> set ps. p \<le> m))"
  using assms
proof (induction ps arbitrary: i)
  case Nil
  then show ?case by auto
next
  case (Cons p ps)
  have i: "unat (i + 1) = unat i + 1" using Cons.prems(2) by (simp add: unat_word_ariths)
  show ?case
  proof (cases "p > m")
    case True
    then show ?thesis using Cons.prems by auto
  next
    case False
    then have "choose_prime m s ps (i + 1) = (j, n)" using Cons.prems(1) by simp
    from Cons.IH [OF this] i Cons.prems(2) False show ?thesis
      by (auto simp: nth_Cons' not_less)
  qed
qed

section \<open>The invariant\<close>

definition placed :: "u32 \<Rightarrow> ('k, 'v) arg_hashtable_entry list list \<Rightarrow> bool" where
  "placed n t \<longleftrightarrow> length t = unat n \<and> (\<forall>i < length t. \<forall>e \<in> set (t ! i). unat (index_for n (ent_h e)) = i)"

definition ht_ok :: "('k, 'v) arg_hashtable \<Rightarrow> bool" where
  "ht_ok h \<longleftrightarrow> unat (primeindex h) < 26 \<and> tablelength h = primes ! unat (primeindex h) \<and> loadlimit h = load_limit (tablelength h) \<and>
     placed (tablelength h) (table h) \<and> (\<forall>e \<in> set (concat (table h)). ent_h e = enhanced_hash h (ent_k e)) \<and>
     distinct (map ent_k (concat (table h))) \<and> unat (entrycount h) = length (concat (table h)) \<and> eqfn h = (=)"

text \<open>The map a table stands for.\<close>

definition ht_map :: "('k, 'v) arg_hashtable \<Rightarrow> 'k \<rightharpoonup> 'v" where
  "ht_map h = map_of (map (\<lambda>e. (ent_k e, ent_v e)) (concat (table h)))"

lemma keys_eq: "map fst (map (\<lambda>e. (ent_k e, ent_v e)) es) = map ent_k es"
  by simp

lemma ht_map_eq_Some:
  "distinct (map ent_k (concat (table h))) \<Longrightarrow> ht_map h k = Some v \<longleftrightarrow> (\<exists>e \<in> set (concat (table h)). ent_k e = k \<and> ent_v e = v)"
  unfolding ht_map_def by (subst map_of_eq_Some_iff) (auto simp: comp_def)

lemma ht_map_eq_None: "ht_map h k = None \<longleftrightarrow> (\<forall>e \<in> set (concat (table h)). ent_k e \<noteq> k)"
  unfolding ht_map_def map_of_eq_None_iff by force

lemma dom_ht_map: "dom (ht_map h) = ent_k ` set (concat (table h))"
  by (force simp: ht_map_def dom_map_of_conv_image_fst)

text \<open>Changing one chain.\<close>

lemma mset_concat_update: "i < length t \<Longrightarrow> mset (concat (t[i := c])) + mset (t ! i) = mset (concat t) + mset c"
proof (induction t arbitrary: i)
  case Nil
  then show ?case by simp
next
  case (Cons d t)
  then show ?case by (cases i) (auto simp: add.assoc add.left_commute)
qed

lemma placed_update:
  "placed n t \<Longrightarrow> (\<And>e. e \<in> set c \<Longrightarrow> unat (index_for n (ent_h e)) = i) \<Longrightarrow> placed n (t[i := c])"
  by (cases "i < length t") (auto simp: placed_def nth_list_update)

lemma unlink_eq: "unlink P es = Some es' \<Longrightarrow> \<exists>e as bs. es = as @ e # bs \<and> es' = as @ bs \<and> P e \<and> find P es = Some e"
proof (induction es arbitrary: es')
  case (Cons e es)
  show ?case
  proof (cases "P e")
    case True
    with Cons.prems show ?thesis by (intro exI [of _ e] exI [of _ "[]"] exI [of _ es]) simp
  next
    case False
    with Cons.prems obtain cs where cs: "unlink P es = Some cs" "es' = e # cs" by auto
    from Cons.IH [OF cs(1)] obtain x as bs where "es = as @ x # bs" "cs = as @ bs" "P x" "find P es = Some x" by blast
    with False cs(2) show ?thesis by (intro exI [of _ x] exI [of _ "e # as"] exI [of _ bs]) simp
  qed
qed simp

lemma unlink_None: "unlink P es = None \<longleftrightarrow> find P es = None"
  by (induction es) auto

section \<open>The operations\<close>

lemma ht_ok_index: "ht_ok h \<Longrightarrow> unat (index_for (tablelength h) hv) < length (table h)"
  using index_for_less prime_positive by (auto simp: ht_ok_def placed_def)

text \<open>The chain of a key holds all entries of that key.\<close>

lemma ht_ok_chain:
  assumes "ht_ok h"
  shows "e \<in> set (concat (table h)) \<and> ent_k e = k \<longleftrightarrow>
    e \<in> set (table h ! unat (index_for (tablelength h) (enhanced_hash h k))) \<and> matches h k (enhanced_hash h k) e"
proof -
  have eq: "eqfn h = (=)" and hash: "\<And>e. e \<in> set (concat (table h)) \<Longrightarrow> ent_h e = enhanced_hash h (ent_k e)"
    and place: "\<And>i e. i < length (table h) \<Longrightarrow> e \<in> set (table h ! i) \<Longrightarrow> unat (index_for (tablelength h) (ent_h e)) = i"
    using assms by (auto simp: ht_ok_def placed_def)
  note idx = ht_ok_index [OF assms]
  show ?thesis
  proof (intro iffI conjI; elim conjE)
    assume e: "e \<in> set (concat (table h))" "ent_k e = k"
    then obtain i where i: "i < length (table h)" "e \<in> set (table h ! i)" unfolding set_concat by (metis UN_E in_set_conv_nth)
    show "e \<in> set (table h ! unat (index_for (tablelength h) (enhanced_hash h k)))"
      using place [OF i] i hash [OF e(1)] e(2) by simp
    show "matches h k (enhanced_hash h k) e" using hash [OF e(1)] e(2) by (simp add: matches_def eq)
  next
    assume e: "e \<in> set (table h ! unat (index_for (tablelength h) (enhanced_hash h k)))" and m: "matches h k (enhanced_hash h k) e"
    show "e \<in> set (concat (table h))" using e idx nth_mem by fastforce
    show "ent_k e = k" using m by (simp add: matches_def eq)
  qed
qed

lemma search_map:
  assumes "ht_ok h"
  shows "arg_hashtable_search h k = ht_map h k"
proof -
  let ?hv = "enhanced_hash h k"
  let ?c = "table h ! unat (index_for (tablelength h) ?hv)"
  have d: "distinct (map ent_k (concat (table h)))" using assms by (simp add: ht_ok_def)
  show ?thesis
  proof (cases "find (matches h k ?hv) ?c")
    case None
    then have "\<forall>e \<in> set (concat (table h)). ent_k e \<noteq> k" using ht_ok_chain [OF assms, of _ k] by (auto simp: find_None_iff)
    then have "ht_map h k = None" by (simp only: ht_map_eq_None)
    then show ?thesis using None by (simp add: arg_hashtable_search_def Let_def)
  next
    case (Some e)
    then have "e \<in> set ?c" "matches h k ?hv e" by (auto simp: find_Some_iff)
    then have "ht_map h k = Some (ent_v e)" using ht_ok_chain [OF assms, of e k] ht_map_eq_Some [OF d] by blast
    then show ?thesis using Some by (simp add: arg_hashtable_search_def Let_def)
  qed
qed

text \<open>Tables with the same entries stand for the same map.\<close>

lemma ht_map_cong:
  assumes "mset (concat (table h)) = mset (concat (table h'))" and "distinct (map ent_k (concat (table h)))"
  shows "ht_map h' = ht_map h" "distinct (map ent_k (concat (table h')))"
proof -
  have "mset (map ent_k (concat (table h))) = mset (map ent_k (concat (table h')))"
    unfolding mset_map assms(1) ..
  then show d: "distinct (map ent_k (concat (table h')))" using assms(2) mset_eq_imp_distinct_iff by blast
  have "set (concat (table h)) = set (concat (table h'))" using assms(1) by (rule mset_eq_setD)
  then have "ht_map h' k = Some v \<longleftrightarrow> ht_map h k = Some v" for k v
    unfolding ht_map_eq_Some [OF d] ht_map_eq_Some [OF assms(2)] by blast
  then show "ht_map h' = ht_map h" by (intro ext) (metis not_Some_eq)
qed

lemma move_chain_placed:
  assumes "placed n t" and "0 < unat n"
  shows "placed n (move_chain n c t) \<and> mset (concat (move_chain n c t)) = mset (concat t) + mset c"
  using assms(1)
proof (induction c arbitrary: t)
  case (Cons e c)
  let ?i = "unat (index_for n (ent_h e))"
  let ?t = "t[?i := e # t ! ?i]"
  have i: "?i < length t" using Cons.prems index_for_less [OF assms(2)] by (simp add: placed_def)
  have p: "placed n ?t" by (rule placed_update [OF Cons.prems]) (use Cons.prems i in \<open>auto simp: placed_def\<close>)
  have "mset (concat ?t) = mset (concat t) + {#e#}"
    using mset_concat_update [OF i, of "e # t ! ?i"] by simp
  with Cons.IH [OF p] show ?case by (simp add: Let_def)
qed simp

lemma move_chains_placed:
  "placed n t \<Longrightarrow> 0 < unat n \<Longrightarrow> placed n (move_chains n cs t) \<and> mset (concat (move_chains n cs t)) = mset (concat t) + mset (concat cs)"
  by (induction cs arbitrary: t) (simp_all add: move_chain_placed)

lemma enhanced_hash_upd [simp]:
  "enhanced_hash (h\<lparr>table := t\<rparr>) = enhanced_hash h" "enhanced_hash (h\<lparr>entrycount := n\<rparr>) = enhanced_hash h"
  "enhanced_hash (h\<lparr>primeindex := p, table := t, tablelength := n, loadlimit := l\<rparr>) = enhanced_hash h"
  by (auto simp: enhanced_hash_def fun_eq_iff)

lemma expand_ok:
  assumes "ht_ok h"
  shows "ht_ok (arg_hashtable_expand h)" and "ht_map (arg_hashtable_expand h) = ht_map h"
    and "entrycount (arg_hashtable_expand h) = entrycount h"
proof -
  let ?h = "arg_hashtable_expand h"
  let ?n = "primes ! unat (primeindex h + 1)"
  have "ht_ok ?h \<and> ht_map ?h = ht_map h \<and> entrycount ?h = entrycount h"
  proof (cases "primeindex h = prime_table_length - 1")
    case True
    then show ?thesis using assms by (simp add: arg_hashtable_expand_def)
  next
    case False
    have "unat (primeindex h) < 26" using assms by (simp add: ht_ok_def)
    moreover have "unat (primeindex h) \<noteq> 25" using False by (simp add: prime_table_length_def length_primes word_unat_eq_iff)
    ultimately have pi: "unat (primeindex h + 1) < 26" by (simp add: unat_word_ariths)
    have n: "0 < unat ?n" by (rule prime_positive [OF pi])
    have p0: "placed ?n (replicate (unat ?n) [])" by (simp add: placed_def)
    let ?t = "move_chains ?n (table h) (replicate (unat ?n) [])"
    have t: "placed ?n ?t" "mset (concat ?t) = mset (concat (table h))" using move_chains_placed [OF p0 n] by auto
    have h: "?h = h\<lparr>primeindex := primeindex h + 1, table := ?t, tablelength := ?n, loadlimit := load_limit ?n\<rparr>"
      using False by (simp add: arg_hashtable_expand_def Let_def)
    have d: "distinct (map ent_k (concat (table h)))" using assms by (simp add: ht_ok_def)
    have m: "ht_map ?h = ht_map h" "distinct (map ent_k (concat (table ?h)))"
      by (rule ht_map_cong [OF _ d]; simp add: h t(2))+
    have "set (concat ?t) = set (concat (table h))" "length (concat ?t) = length (concat (table h))"
      using t(2) mset_eq_setD mset_eq_length by blast+
    then have "ht_ok ?h" using assms t(1) pi m(2) unfolding ht_ok_def h by (simp del: set_concat length_concat)
    with m(1) show ?thesis by (simp add: h)
  qed
  then show "ht_ok ?h" "ht_map ?h = ht_map h" "entrycount ?h = entrycount h" by auto
qed

text \<open>Another table of entries in an otherwise unchanged hash table.\<close>

lemma ht_ok_update:
  assumes "ht_ok h" and "placed (tablelength h) t" and "\<And>e. e \<in> set (concat t) \<Longrightarrow> ent_h e = enhanced_hash h (ent_k e)"
    and "distinct (map ent_k (concat t))" and "unat n = length (concat t)"
  shows "ht_ok (h\<lparr>table := t, entrycount := n\<rparr>)"
proof -
  have "unat (primeindex h) < 26" "tablelength h = primes ! unat (primeindex h)" "loadlimit h = load_limit (tablelength h)" "eqfn h = (=)"
    using assms(1) unfolding ht_ok_def by blast+
  then show ?thesis unfolding ht_ok_def using assms(2-5) by (simp del: set_concat length_concat)
qed

lemma insert_ok:
  assumes "ht_ok h" and "ht_map h k = None" and "length (concat (table h)) + 1 < 2 ^ 32"
  shows "ht_ok (arg_hashtable_insert h k v)" and "ht_map (arg_hashtable_insert h k v) = (ht_map h)(k \<mapsto> v)"
proof -
  define h1 where "h1 = (if entrycount h + 1 > loadlimit h then arg_hashtable_expand h else h)"
  have h1: "ht_ok h1" "ht_map h1 = ht_map h" "entrycount h1 = entrycount h"
    using expand_ok [OF assms(1)] assms(1) by (auto simp: h1_def)
  let ?e = "\<lparr>ent_k = k, ent_v = v, ent_h = enhanced_hash h1 k\<rparr>"
  let ?i = "unat (index_for (tablelength h1) (enhanced_hash h1 k))"
  let ?t = "(table h1)[?i := ?e # table h1 ! ?i]"
  let ?h = "arg_hashtable_insert h k v"
  have h: "?h = h1\<lparr>table := ?t, entrycount := entrycount h1 + 1\<rparr>"
    by (simp add: arg_hashtable_insert_def h1_def Let_def)
  note i = ht_ok_index [OF h1(1), of "enhanced_hash h1 k"]
  have t: "mset (concat ?t) = add_mset ?e (mset (concat (table h1)))"
    using mset_concat_update [OF i, of "?e # table h1 ! ?i"] by simp
  have "placed (tablelength h1) (table h1)" using h1(1) unfolding ht_ok_def by blast
  then have p: "placed (tablelength h1) ?t" by (rule placed_update) (use h1(1) i in \<open>auto simp: ht_ok_def placed_def\<close>)
  have d1: "distinct (map ent_k (concat (table h1)))" using h1(1) by (simp add: ht_ok_def)
  have new: "k \<notin> ent_k ` set (concat (table h1))" using assms(2) h1(2) ht_map_eq_None [of h1 k] by auto
  have "mset (map ent_k (concat ?t)) = mset (map ent_k (?e # concat (table h1)))" unfolding mset_map t by simp
  moreover have "distinct (map ent_k (?e # concat (table h1)))" using d1 new by (simp del: set_concat)
  ultimately have d: "distinct (map ent_k (concat ?t))" using mset_eq_imp_distinct_iff by blast
  have s: "set (concat ?t) = insert ?e (set (concat (table h1)))" using t by (metis set_mset_add_mset_insert set_mset_mset)
  have "length (concat ?t) = Suc (length (concat (table h1)))" using t by (metis size_add_mset size_mset)
  moreover have "unat (entrycount h1) = length (concat (table h))" "length (concat (table h1)) = length (concat (table h))"
    using h1 assms(1) by (auto simp: ht_ok_def)
  ultimately have "unat (entrycount h1 + 1) = length (concat ?t)" using assms(3) by (simp add: unat_word_ariths del: length_concat)
  moreover have "ent_h x = enhanced_hash h1 (ent_k x)" if "x \<in> set (concat ?t)" for x
    using that h1(1) unfolding s ht_ok_def by auto
  ultimately show "ht_ok ?h"
    unfolding h by (intro ht_ok_update h1(1) p d)
  have "ht_map ?h x = Some y \<longleftrightarrow> ((ht_map h)(k \<mapsto> v)) x = Some y" for x y
  proof -
    have "ht_map ?h x = Some y \<longleftrightarrow> (\<exists>e \<in> set (concat ?t). ent_k e = x \<and> ent_v e = y)"
      using ht_map_eq_Some [of ?h x y] d by (simp add: h)
    also have "\<dots> \<longleftrightarrow> x = k \<and> y = v \<or> (\<exists>e \<in> set (concat (table h1)). ent_k e = x \<and> ent_v e = y)"
      unfolding s by auto
    also have "\<dots> \<longleftrightarrow> ((ht_map h)(k \<mapsto> v)) x = Some y"
      using ht_map_eq_Some [OF d1, of x y] h1(2) assms(2) by auto
    finally show ?thesis .
  qed
  then show "ht_map ?h = (ht_map h)(k \<mapsto> v)" by (intro ext) (metis not_Some_eq)
qed

lemma remove_ok:
  assumes "ht_ok h"
  shows "ht_ok (arg_hashtable_remove h k)" and "ht_map (arg_hashtable_remove h k) = (ht_map h)(k := None)"
proof -
  let ?hv = "enhanced_hash h k"
  let ?i = "unat (index_for (tablelength h) ?hv)"
  let ?h = "arg_hashtable_remove h k"
  have d: "distinct (map ent_k (concat (table h)))" using assms unfolding ht_ok_def by blast
  have "ht_ok ?h \<and> ht_map ?h = (ht_map h)(k := None)"
  proof (cases "unlink (matches h k ?hv) (table h ! ?i)")
    case None
    then have "arg_hashtable_search h k = None" by (simp add: unlink_None arg_hashtable_search_def Let_def)
    then have "ht_map h k = None" using search_map [OF assms] by simp
    with None assms show ?thesis by (auto simp: arg_hashtable_remove_def Let_def fun_upd_idem)
  next
    case (Some c)
    from unlink_eq [OF this] obtain e as bs where c: "table h ! ?i = as @ e # bs" "c = as @ bs" "matches h k ?hv e" by blast
    let ?t = "(table h)[?i := c]"
    have h: "?h = h\<lparr>table := ?t, entrycount := entrycount h - 1\<rparr>" using Some by (simp add: arg_hashtable_remove_def Let_def)
    note i = ht_ok_index [OF assms, of ?hv]
    have t: "mset (concat (table h)) = add_mset e (mset (concat ?t))"
      using mset_concat_update [OF i, of c] c by simp
    have ek: "ent_k e = k" using c(1,3) ht_ok_chain [OF assms, of e k] by simp
    have "placed (tablelength h) (table h)" using assms unfolding ht_ok_def by blast
    moreover from this have "unat (index_for (tablelength h) (ent_h x)) = ?i" if "x \<in> set c" for x
      using that c i by (auto simp: placed_def)
    ultimately have p: "placed (tablelength h) ?t" by (rule placed_update)
    have "mset (map ent_k (concat (table h))) = mset (map ent_k (e # concat ?t))" unfolding mset_map t by simp
    then have de: "distinct (map ent_k (e # concat ?t))" using d mset_eq_imp_distinct_iff by blast
    have gone: "k \<notin> ent_k ` set (concat ?t)" using de unfolding ek [symmetric] by (simp del: set_concat)
    have s: "set (concat (table h)) = insert e (set (concat ?t))" using t by (metis set_mset_add_mset_insert set_mset_mset)
    have len: "length (concat (table h)) = Suc (length (concat ?t))" using t by (metis size_add_mset size_mset)
    have "unat (entrycount h) = length (concat (table h))" using assms unfolding ht_ok_def by blast
    then have "unat (entrycount h - 1) = length (concat ?t)" using len by (simp add: unat_sub word_le_nat_alt del: length_concat)
    moreover have "ent_h x = enhanced_hash h (ent_k x)" if "x \<in> set (concat ?t)" for x
      using that assms s unfolding ht_ok_def by auto
    ultimately have ok: "ht_ok ?h" unfolding h using de by (intro ht_ok_update assms p) simp_all
    have "ht_map ?h x = Some y \<longleftrightarrow> ((ht_map h)(k := None)) x = Some y" for x y
    proof -
      have "ht_map ?h x = Some y \<longleftrightarrow> (\<exists>e' \<in> set (concat ?t). ent_k e' = x \<and> ent_v e' = y)"
        using ht_map_eq_Some [of ?h x y] de by (simp add: h)
      also have "\<dots> \<longleftrightarrow> x \<noteq> k \<and> (\<exists>e' \<in> set (concat (table h)). ent_k e' = x \<and> ent_v e' = y)"
        unfolding s using gone ek by blast
      also have "\<dots> \<longleftrightarrow> ((ht_map h)(k := None)) x = Some y"
        using ht_map_eq_Some [OF d, of x y] by auto
      finally show ?thesis .
    qed
    then have "ht_map ?h = (ht_map h)(k := None)" by (intro ext) (metis not_Some_eq)
    with ok show ?thesis by simp
  qed
  then show "ht_ok ?h" "ht_map ?h = (ht_map h)(k := None)" by auto
qed

lemma create_ok:
  assumes "minsize \<le> push_bit 30 1"
  obtains h where "arg_hashtable_create minsize hf (=) = Some h" "ht_ok h" "ht_map h = Map.empty" "minsize < tablelength h" "hashfn h = hf"
proof -
  obtain j n where jn: "choose_prime minsize (primes ! 0) primes 0 = (j, n)" by fastforce
  have "minsize \<le> 0x40000000" using assms by (simp add: push_bit_eq_mult)
  moreover have "(1610612741 :: u32) \<in> set primes" "\<not> (1610612741 :: u32) \<le> 0x40000000" by (simp_all add: primes_def)
  ultimately have "\<not> (\<forall>p \<in> set primes. p \<le> minsize)" by (meson order_trans)
  then have j: "unat j < 26" "n = primes ! unat j" "minsize < n"
    using choose_prime_index [OF jn] by (auto simp: length_primes)
  let ?h = "\<lparr>tablelength = n, table = replicate (unat n) [], entrycount = 0, loadlimit = load_limit n, primeindex = j, hashfn = hf, eqfn = (=)\<rparr>"
  have "concat (replicate m []) = ([] :: ('a, 'b) arg_hashtable_entry list)" for m by (induction m) auto
  then have "ht_ok ?h" "ht_map ?h = Map.empty" using j by (simp_all add: ht_ok_def placed_def ht_map_def)
  moreover have "arg_hashtable_create minsize hf (=) = Some ?h" using jn assms by (simp add: arg_hashtable_create_def)
  ultimately show thesis using j(3) by (intro that) auto
qed

lemma create_cases:
  assumes "arg_hashtable_create minsize hf (=) = Some h"
  shows "ht_ok h" and "ht_map h = Map.empty" and "hashfn h = hf"
proof -
  have "\<not> minsize > push_bit 30 1"
  proof
    assume "minsize > push_bit 30 1"
    then show False using assms by (simp add: arg_hashtable_create_def)
  qed
  then have "minsize \<le> push_bit 30 1" by simp
  then obtain h' where "arg_hashtable_create minsize hf (=) = Some h'" "ht_ok h'" "ht_map h' = Map.empty" "hashfn h' = hf"
    and "h = h'" using assms by (metis create_ok option.inject)
  then show "ht_ok h" "ht_map h = Map.empty" "hashfn h = hf" by simp_all
qed

section \<open>Iteration\<close>

definition itr_ok :: "('k, 'v) arg_hashtable \<Rightarrow> arg_hashtable_itr \<Rightarrow> bool" where
  "itr_ok h itr \<longleftrightarrow> itr_index itr < length (table h) \<and> (\<exists>p. itr_e itr = Some p \<and> p < length (table h ! itr_index itr))"

text \<open>The entries from the iterator's on, in the order of the table.\<close>

definition remaining :: "('k, 'v) arg_hashtable \<Rightarrow> arg_hashtable_itr \<Rightarrow> ('k, 'v) arg_hashtable_entry list" where
  "remaining h itr = (case itr_e itr of None \<Rightarrow> [] | Some p \<Rightarrow> drop p (table h ! itr_index itr) @ concat (drop (itr_index itr + 1) (table h)))"

lemma concat_drop_empty: "\<forall>i. j \<le> i \<and> i < k \<longrightarrow> t ! i = [] \<Longrightarrow> j \<le> k \<Longrightarrow> k \<le> length t \<Longrightarrow> concat (drop j t) = concat (drop k t)"
proof (induction "k - j" arbitrary: j)
  case (Suc n)
  have "j < length t" using Suc.hyps(2) Suc.prems(3) by linarith
  then have "drop j t = t ! j # drop (j + 1) t" by (simp add: Cons_nth_drop_Suc)
  moreover have "t ! j = []" using Suc by auto
  moreover have "concat (drop (j + 1) t) = concat (drop k t)" using Suc by (intro Suc.hyps(1)) auto
  ultimately show ?case by simp
qed simp

lemma next_chain_cases:
  assumes "placed (tablelength h) (table h)"
  shows "case next_chain h j of
      None \<Rightarrow> concat (drop j (table h)) = []
    | Some i \<Rightarrow> j \<le> i \<and> i < length (table h) \<and> table h ! i \<noteq> [] \<and> concat (drop j (table h)) = concat (drop i (table h))"
proof (cases "next_chain h j")
  case None
  then have "table h ! i = []" if "j \<le> i" "i < length (table h)" for i
    using that assms by (auto simp: next_chain_def find_None_iff placed_def)
  then have "concat (drop j (table h)) = []" by (auto simp: in_set_conv_nth)
  with None show ?thesis by simp
next
  case (Some i)
  then obtain m where m: "m < unat (tablelength h) - j" "i = j + m" "table h ! i \<noteq> []" "\<forall>l<m. table h ! (j + l) = []"
    by (auto simp: next_chain_def find_Some_iff)
  have len: "length (table h) = unat (tablelength h)" using assms by (simp add: placed_def)
  have "concat (drop j (table h)) = concat (drop i (table h))"
  proof (rule concat_drop_empty)
    show "\<forall>x. j \<le> x \<and> x < i \<longrightarrow> table h ! x = []"
    proof (intro allI impI)
      fix x
      assume "j \<le> x \<and> x < i"
      then show "table h ! x = []" using m(2) spec [OF m(4), of "x - j"] by auto
    qed
  qed (use m len in auto)
  with Some m len show ?thesis by auto
qed

lemma remaining_step:
  assumes "placed (tablelength h) (table h)" and "itr_ok h itr"
  shows "\<exists>e. itr_entry h itr = Some e \<and> (case arg_hashtable_itr_advance h itr of
    (go, itr') \<Rightarrow> if go then itr_ok h itr' \<and> remaining h itr = e # remaining h itr' else remaining h itr = [e])"
proof -
  obtain p where p: "itr_index itr < length (table h)" "itr_e itr = Some p" "p < length (table h ! itr_index itr)"
    using assms(2) by (auto simp: itr_ok_def)
  let ?i = "itr_index itr"
  have e: "itr_entry h itr = Some (table h ! ?i ! p)" by (simp add: itr_entry_def p)
  have rem: "remaining h itr = table h ! ?i ! p # drop (p + 1) (table h ! ?i) @ concat (drop (?i + 1) (table h))"
    using p by (simp add: remaining_def Cons_nth_drop_Suc [symmetric])
  have len: "length (table h) = unat (tablelength h)" using assms(1) by (simp add: placed_def)
  show ?thesis
  proof (cases "p + 1 < length (table h ! ?i)")
    case True
    then show ?thesis
      using e rem p by (auto simp: arg_hashtable_itr_advance_def itr_ok_def remaining_def intro!: exI [of _ "table h ! ?i ! p"])
  next
    case False
    note nc = next_chain_cases [OF assms(1), of "?i + 1"]
    show ?thesis
    proof (cases "next_chain h (?i + 1)")
      case None
      with nc False e rem p len show ?thesis
        by (auto simp: arg_hashtable_itr_advance_def itr_next_chain_def Let_def)
    next
      case (Some k)
      with nc have k: "?i < k" "k < length (table h)" "table h ! k \<noteq> []" "concat (drop (?i + 1) (table h)) = concat (drop k (table h))" by auto
      have "drop k (table h) = table h ! k # drop (k + 1) (table h)" using k(2) by (simp add: Cons_nth_drop_Suc)
      with k Some False e rem p len show ?thesis
        by (auto simp: arg_hashtable_itr_advance_def itr_next_chain_def Let_def itr_ok_def remaining_def)
    qed
  qed
qed

lemma remaining_create:
  assumes "ht_ok h" and "concat (table h) \<noteq> []"
  shows "itr_ok h (arg_hashtable_itr_create h)" and "remaining h (arg_hashtable_itr_create h) = concat (table h)"
proof -
  have p: "placed (tablelength h) (table h)" and n: "unat (entrycount h) = length (concat (table h))"
    using assms(1) unfolding ht_ok_def by blast+
  have "entrycount h \<noteq> 0" using n assms(2) by (metis length_0_conv unsigned_0)
  moreover obtain i where i: "next_chain h 0 = Some i" using next_chain_cases [OF p, of 0] assms(2) by (cases "next_chain h 0") auto
  moreover have "i < length (table h)" "table h ! i \<noteq> []" "concat (table h) = concat (drop i (table h))"
    using next_chain_cases [OF p, of 0] i by auto
  moreover have "drop i (table h) = table h ! i # drop (i + 1) (table h)" using calculation(3) by (simp add: Cons_nth_drop_Suc)
  ultimately show "itr_ok h (arg_hashtable_itr_create h)" "remaining h (arg_hashtable_itr_create h) = concat (table h)"
    by (auto simp: arg_hashtable_itr_create_def Let_def itr_ok_def remaining_def)
qed

section \<open>The interface\<close>

text \<open>What the subcommands rely on.\<close>

locale dictionary =
  fixes inv :: "'t \<Rightarrow> bool" and room :: "'t \<Rightarrow> bool" and contents :: "'t \<Rightarrow> 'k \<Rightarrow> 'v option"
    and search :: "'t \<Rightarrow> 'k \<Rightarrow> 'v option" and insert :: "'t \<Rightarrow> 'k \<Rightarrow> 'v \<Rightarrow> 't" and remove :: "'t \<Rightarrow> 'k \<Rightarrow> 't"
  assumes search: "inv t \<Longrightarrow> search t k = contents t k"
    and insert: "inv t \<Longrightarrow> room t \<Longrightarrow> contents t k = None \<Longrightarrow> inv (insert t k v) \<and> contents (insert t k v) = (contents t)(k \<mapsto> v)"
    and remove: "inv t \<Longrightarrow> inv (remove t k) \<and> contents (remove t k) = (contents t)(k := None)"
    and remove_room: "inv t \<Longrightarrow> room t \<Longrightarrow> room (remove t k)"
begin

text \<open>A client that removes an old entry first needs not care whether there is one.\<close>

lemma replace:
  assumes "inv t" and "room t"
  shows "inv (insert (if search t k = None then t else remove t k) k v)"
    and "contents (insert (if search t k = None then t else remove t k) k v) = (contents t)(k \<mapsto> v)"
proof -
  let ?t = "if search t k = None then t else remove t k"
  have "inv ?t" "room ?t" "contents ?t k = None" "(contents ?t)(k \<mapsto> v) = (contents t)(k \<mapsto> v)"
    using assms search [OF assms(1)] remove [OF assms(1)] remove_room [OF assms] by auto
  then show "inv (insert ?t k v)" "contents (insert ?t k v) = (contents t)(k \<mapsto> v)" using insert [of ?t k v] by auto
qed

lemma search_replace:
  assumes "inv t" and "room t"
  shows "search (insert (if search t k = None then t else remove t k) k v) k' = (if k' = k then Some v else search t k')"
  using search [OF replace(1) [OF assms], of k v k'] replace(2) [OF assms, of k v] search [OF assms(1)] by simp

end

definition ht_room :: "('k, 'v) arg_hashtable \<Rightarrow> bool" where
  "ht_room h \<longleftrightarrow> unat (entrycount h) + 1 < 2 ^ 32"

lemma count_length: "ht_ok h \<Longrightarrow> unat (entrycount h) = length (concat (table h))"
  unfolding ht_ok_def by blast

lemma count_card:
  assumes "ht_ok h"
  shows "unat (entrycount h) = card (dom (ht_map h))"
proof -
  have "distinct (map ent_k (concat (table h)))" using assms unfolding ht_ok_def by blast
  then have "card (set (map ent_k (concat (table h)))) = length (map ent_k (concat (table h)))" by (rule distinct_card)
  moreover have "set (map ent_k (concat (table h))) = dom (ht_map h)" unfolding dom_ht_map list.set_map ..
  ultimately show ?thesis using count_length [OF assms] by simp
qed

lemma remove_room:
  assumes "ht_ok h" and "ht_room h"
  shows "ht_room (arg_hashtable_remove h k)"
proof -
  have "dom (ht_map (arg_hashtable_remove h k)) \<subseteq> dom (ht_map h)" using remove_ok(2) [OF assms(1), of k] by (auto split: if_splits)
  then have "card (dom (ht_map (arg_hashtable_remove h k))) \<le> card (dom (ht_map h))" by (intro card_mono) (simp_all add: dom_ht_map)
  then show ?thesis
    using count_card [OF assms(1)] count_card [OF remove_ok(1) [OF assms(1), of k]] assms(2) by (simp add: ht_room_def)
qed

interpretation ht: dictionary ht_ok ht_room ht_map arg_hashtable_search arg_hashtable_insert arg_hashtable_remove
proof unfold_locales
  fix t :: "('k, 'v) arg_hashtable" and k v
  assume t: "ht_ok t"
  show "arg_hashtable_search t k = ht_map t k" by (rule search_map [OF t])
  show "ht_ok (arg_hashtable_remove t k) \<and> ht_map (arg_hashtable_remove t k) = (ht_map t)(k := None)" using remove_ok [OF t] by simp
  assume r: "ht_room t"
  show "ht_room (arg_hashtable_remove t k)" by (rule remove_room [OF t r])
  assume "ht_map t k = None"
  with r show "ht_ok (arg_hashtable_insert t k v) \<and> ht_map (arg_hashtable_insert t k v) = (ht_map t)(k \<mapsto> v)"
    using insert_ok [OF t] count_length [OF t] by (simp add: ht_room_def del: length_concat)
qed

lemma replace_value_eq:
  "replace_value P v es = Some es' \<Longrightarrow> \<exists>e as bs. es = as @ e # bs \<and> es' = as @ e\<lparr>ent_v := v\<rparr> # bs \<and> P e"
proof (induction es arbitrary: es')
  case (Cons e es)
  show ?case
  proof (cases "P e")
    case True
    with Cons.prems show ?thesis by (intro exI [of _ e] exI [of _ "[]"] exI [of _ es]) simp
  next
    case False
    with Cons.prems obtain cs where cs: "replace_value P v es = Some cs" "es' = e # cs" by auto
    from Cons.IH [OF cs(1)] obtain x as bs where "es = as @ x # bs" "cs = as @ x\<lparr>ent_v := v\<rparr> # bs" "P x" by blast
    with cs(2) show ?thesis by (intro exI [of _ x] exI [of _ "e # as"] exI [of _ bs]) simp
  qed
qed simp

lemma replace_value_None: "replace_value P v es = None \<longleftrightarrow> find P es = None"
  by (induction es) auto

lemma change_ok:
  assumes "ht_ok h"
  shows "fst (arg_hashtable_change h k v) \<longleftrightarrow> ht_map h k \<noteq> None" and "ht_ok (snd (arg_hashtable_change h k v))"
    and "ht_map (snd (arg_hashtable_change h k v)) = (if ht_map h k = None then ht_map h else (ht_map h)(k \<mapsto> v))"
proof -
  let ?hv = "enhanced_hash h k"
  let ?i = "unat (index_for (tablelength h) ?hv)"
  let ?r = "arg_hashtable_change h k v"
  have d: "distinct (map ent_k (concat (table h)))" using assms unfolding ht_ok_def by blast
  have none: "ht_map h k = None \<longleftrightarrow> find (matches h k ?hv) (table h ! ?i) = None"
    using search_map [OF assms, of k, symmetric] by (simp add: arg_hashtable_search_def Let_def)
  have "(fst ?r \<longleftrightarrow> ht_map h k \<noteq> None) \<and> ht_ok (snd ?r) \<and> ht_map (snd ?r) = (if ht_map h k = None then ht_map h else (ht_map h)(k \<mapsto> v))"
  proof (cases "replace_value (matches h k ?hv) v (table h ! ?i)")
    case None
    then have "?r = (False, h)" by (simp add: arg_hashtable_change_def Let_def)
    moreover have "ht_map h k = None" using none None by (simp only: replace_value_None)
    ultimately show ?thesis using assms by simp
  next
    case (Some c)
    from replace_value_eq [OF this] obtain e as bs where c: "table h ! ?i = as @ e # bs" "c = as @ e\<lparr>ent_v := v\<rparr> # bs" "matches h k ?hv e" by blast
    let ?t = "(table h)[?i := c]"
    have r: "?r = (True, h\<lparr>table := ?t\<rparr>)" using Some by (simp add: arg_hashtable_change_def Let_def)
    note i = ht_ok_index [OF assms, of ?hv]
    have t: "add_mset e (mset (concat ?t)) = add_mset (e\<lparr>ent_v := v\<rparr>) (mset (concat (table h)))"
      using mset_concat_update [OF i, of c] c by (simp add: union_commute)
    have e: "e \<in> set (concat (table h))" "ent_k e = k" using c(1,3) ht_ok_chain [OF assms, of e k] by auto
    then obtain M where M: "mset (concat (table h)) = add_mset e M" by (metis mset_add set_mset_mset)
    then have T: "mset (concat ?t) = add_mset (e\<lparr>ent_v := v\<rparr>) M" using t by (simp add: add_mset_commute)
    have "mset (map ent_k (concat ?t)) = mset (map ent_k (concat (table h)))" unfolding mset_map T M by simp
    then have dt: "distinct (map ent_k (concat ?t))" using d mset_eq_imp_distinct_iff by blast
    have s: "set (concat ?t) = insert (e\<lparr>ent_v := v\<rparr>) (set_mset M)" "set (concat (table h)) = insert e (set_mset M)"
      using T M by (metis set_mset_add_mset_insert set_mset_mset)+
    have others: "x \<in># M \<Longrightarrow> ent_k x \<noteq> k" for x
    proof
      assume x: "x \<in># M" "ent_k x = k"
      then obtain N where N: "M = add_mset x N" by (metis mset_add)
      have "mset (map ent_k (concat (table h))) = add_mset k (add_mset k (image_mset ent_k N))"
        unfolding mset_map M N using e(2) x(2) by simp
      moreover have "count (mset (map ent_k (concat (table h)))) k \<le> 1" using d unfolding distinct_count_atmost_1 by auto
      ultimately show False by simp
    qed
    have "placed (tablelength h) (table h)" using assms unfolding ht_ok_def by blast
    moreover from this have "unat (index_for (tablelength h) (ent_h x)) = ?i" if "x \<in> set c" for x
      using that c i by (auto simp: placed_def)
    ultimately have p: "placed (tablelength h) ?t" by (rule placed_update)
    have hash: "ent_h x = enhanced_hash h (ent_k x)" if "x \<in> set (concat ?t)" for x
    proof -
      have old: "\<And>y. y \<in> set (concat (table h)) \<Longrightarrow> ent_h y = enhanced_hash h (ent_k y)" using assms unfolding ht_ok_def by blast
      show ?thesis using that old [of x] old [of e] unfolding s by auto
    qed
    have "length (concat ?t) = length (concat (table h))" using T M by (metis size_add_mset size_mset)
    then have "unat (entrycount h) = length (concat ?t)" using count_length [OF assms] by simp
    with ht_ok_update [OF assms p hash dt, of "entrycount h"] have ok: "ht_ok (h\<lparr>table := ?t\<rparr>)" by simp
    have "ht_map (h\<lparr>table := ?t\<rparr>) x = Some y \<longleftrightarrow> ((ht_map h)(k \<mapsto> v)) x = Some y" for x y
    proof -
      have "ht_map (h\<lparr>table := ?t\<rparr>) x = Some y \<longleftrightarrow> (\<exists>e' \<in> set (concat ?t). ent_k e' = x \<and> ent_v e' = y)"
        using ht_map_eq_Some [of "h\<lparr>table := ?t\<rparr>" x y] dt by simp
      also have "\<dots> \<longleftrightarrow> (x = k \<and> y = v) \<or> x \<noteq> k \<and> (\<exists>e' \<in> set (concat (table h)). ent_k e' = x \<and> ent_v e' = y)"
        unfolding s using e(2) others by auto
      also have "\<dots> \<longleftrightarrow> ((ht_map h)(k \<mapsto> v)) x = Some y" using ht_map_eq_Some [OF d, of x y] by auto
      finally show ?thesis .
    qed
    then have "ht_map (h\<lparr>table := ?t\<rparr>) = (ht_map h)(k \<mapsto> v)" by (intro ext) (metis not_Some_eq)
    moreover have "ht_map h k \<noteq> None" using none Some replace_value_None [of "matches h k ?hv" v "table h ! ?i"] by auto
    ultimately show ?thesis using ok r by auto
  qed
  then show "fst ?r \<longleftrightarrow> ht_map h k \<noteq> None" "ht_ok (snd ?r)" "ht_map (snd ?r) = (if ht_map h k = None then ht_map h else (ht_map h)(k \<mapsto> v))"
    by auto
qed

section \<open>Sequences of operations\<close>

datatype ('k, 'v) ht_op = Insert 'k 'v | Remove 'k | Change 'k 'v

primrec ht_step :: "('k, 'v) ht_op \<Rightarrow> ('k, 'v) arg_hashtable \<Rightarrow> ('k, 'v) arg_hashtable" where
  "ht_step (Insert k v) h = arg_hashtable_insert h k v"
| "ht_step (Remove k) h = arg_hashtable_remove h k"
| "ht_step (Change k v) h = snd (arg_hashtable_change h k v)"

primrec map_step :: "('k, 'v) ht_op \<Rightarrow> ('k \<rightharpoonup> 'v) \<Rightarrow> 'k \<rightharpoonup> 'v" where
  "map_step (Insert k v) m = m(k \<mapsto> v)"
| "map_step (Remove k) m = m(k := None)"
| "map_step (Change k v) m = (if m k = None then m else m(k \<mapsto> v))"

text \<open>A comment in the source: duplicate keys should not be used.\<close>

fun no_duplicates :: "('k, 'v) ht_op list \<Rightarrow> ('k \<rightharpoonup> 'v) \<Rightarrow> bool" where
  "no_duplicates [] m = True"
| "no_duplicates (Insert k v # ops) m = (m k = None \<and> no_duplicates ops (m(k \<mapsto> v)))"
| "no_duplicates (op # ops) m = no_duplicates ops (map_step op m)"

lemma finite_map_step: "finite (dom m) \<Longrightarrow> finite (dom (map_step op m)) \<and> card (dom (map_step op m)) \<le> Suc (card (dom m))"
proof -
  assume fin: "finite (dom m)"
  have sub: "finite A \<and> card A \<le> Suc (card (dom m))" if "A \<subseteq> insert k (dom m)" for A k
  proof -
    have "card A \<le> card (insert k (dom m))" using that fin by (intro card_mono) auto
    also have "\<dots> \<le> Suc (card (dom m))" using fin by (simp add: card_insert_if)
    finally show ?thesis using that fin finite_subset [of A "insert k (dom m)"] by auto
  qed
  show ?thesis
  proof (cases op)
    case (Insert k v)
    then show ?thesis by (intro sub [of _ k]) auto
  next
    case (Remove k)
    then show ?thesis by (intro sub [of _ k]) (auto split: if_splits)
  next
    case (Change k v)
    then show ?thesis by (intro sub [of _ k]) (auto split: if_splits)
  qed
qed

lemma ht_steps:
  assumes "ht_ok h" and "no_duplicates ops (ht_map h)" and "card (dom (ht_map h)) + length ops < 2 ^ 32 - 1"
  shows "ht_ok (fold ht_step ops h) \<and> ht_map (fold ht_step ops h) = fold map_step ops (ht_map h)"
  using assms
proof (induction ops arbitrary: h)
  case (Cons op ops)
  have room: "ht_room h" using Cons.prems(3) count_card [OF Cons.prems(1)] by (simp add: ht_room_def)
  have step: "ht_ok (ht_step op h) \<and> ht_map (ht_step op h) = map_step op (ht_map h)"
    using Cons.prems(1,2) room by (cases op) (auto simp: ht.insert remove_ok change_ok)
  moreover have "no_duplicates ops (map_step op (ht_map h))" using Cons.prems(2) by (cases op) auto
  moreover have "card (dom (map_step op (ht_map h))) \<le> Suc (card (dom (ht_map h)))"
    using finite_map_step [of "ht_map h" op] by (simp add: dom_ht_map)
  ultimately show ?case using Cons.IH [of "ht_step op h"] Cons.prems(3) by auto
qed simp

section \<open>Properties\<close>

text \<open>C19: The hash table refines a finite map. After any sequence of insertions of new keys, removals and changes on a table
  that was created for a reasonable number of entries, with any hash function and through any number of expansions, a search
  finds exactly what the same sequence makes of the empty map, and the count is the number of its keys.\<close>

theorem arg_hashtable_refines_map:
  assumes "arg_hashtable_create minsize hf (=) = Some h" and "no_duplicates ops Map.empty" and "length ops < 2 ^ 32 - 1"
  shows "arg_hashtable_search (fold ht_step ops h) k = fold map_step ops Map.empty k \<and>
    unat (arg_hashtable_count (fold ht_step ops h)) = card (dom (fold map_step ops Map.empty))"
proof -
  note h = create_cases [OF assms(1)]
  have "ht_ok (fold ht_step ops h) \<and> ht_map (fold ht_step ops h) = fold map_step ops Map.empty"
    using ht_steps [OF h(1), of ops] assms(2,3) by (simp add: h(2))
  then show ?thesis
    using search_map [of "fold ht_step ops h" k] count_card [of "fold ht_step ops h"] by (simp add: arg_hashtable_count_def)
qed

theorem arg_hashtable_refines_map_witness:
  "\<exists>h. arg_hashtable_create 32 (\<lambda>n. n) (=) = Some h \<and>
    arg_hashtable_search (fold ht_step [Insert 1 10, Insert 54 20, Remove 1, Change 54 (30 :: nat)] h) (54 :: u32) = Some 30"
proof -
  obtain h :: "(u32, nat) arg_hashtable" where h: "arg_hashtable_create 32 (\<lambda>n. n) (=) = Some h"
    by (rule create_ok [of 32 "\<lambda>n. n"]) (simp_all add: push_bit_eq_mult)
  with arg_hashtable_refines_map [OF h, of "[Insert 1 10, Insert 54 20, Remove 1, Change 54 30]" 54]
  show ?thesis by auto
qed

end
