(* ===== verification/GetOpt.thy ===== *)
theory GetOpt
  imports Prelude
begin

text \<open>
  \<open>getopt_long\<close> as the argument parser brings it along (\<^verbatim>\<open>cli/lib/argtable/argtable3.c\<close>). The static variables are the state. A string of
  the argument vector is the list of its characters; the vector ends in a null pointer. An \<open>int\<close> that is an index is a
  number, where the code has \<open>-1\<close> for none an option.
\<close>

section \<open>The state\<close>

text \<open>The messages for the standard error output, with the dashes as written.\<close>

datatype warning =
    Ambiguous string string
  | No_argument_allowed string string
  | Argument_required string string
  | Unrecognized string string
  | Argument_required_char char
  | Invalid_char char

text \<open>
  \<open>place\<close> is what \<open>place\<close> points to, \<open>place_at_start\<close> says that this is the beginning of an argument. \<open>flag_var\<close> is the variable that
  the members \<open>flag\<close> of the long options point to.
\<close>

record getopt =
  nargv :: "string list"
  optind :: nat
  optopt :: int
  opterr :: bool
  optreset :: bool
  optarg :: "string option"
  place :: string
  place_at_start :: bool
  nonopt_start :: "nat option"
  nonopt_end :: "nat option"
  posixly_correct :: "bool option"
  dash_prefix :: string
  flag_var :: int
  env_posixly_correct :: bool
  warnings :: "warning list"

record long_option =
  lo_name :: string
  has_arg :: nat
  has_flag :: bool
  lo_val :: int

definition no_argument :: nat where "no_argument = 0"
definition required_argument :: nat where "required_argument = 1"
definition optional_argument :: nat where "optional_argument = 2"

definition BADCH :: int where "BADCH = of_char CHR ''?''"
definition BADARG :: "string \<Rightarrow> int" where "BADARG options = (if take 1 options = '':'' then of_char CHR '':'' else of_char CHR ''?'')"
definition INORDER :: int where "INORDER = 1"

definition warnx :: "string \<Rightarrow> warning \<Rightarrow> (getopt, unit) cfun" where
  "warnx options w = modify (\<lambda>s. if opterr s \<and> take 1 options \<noteq> '':'' then s\<lparr>warnings := warnings s @ [w]\<rparr> else s)"

section \<open>Permutation of the arguments\<close>

function gcd_loop :: "nat \<Rightarrow> nat \<Rightarrow> nat" where
  "gcd_loop a b = (if b = 0 \<or> a mod b = 0 then b else gcd_loop b (a mod b))"
  by auto
termination by (relation "measure snd") auto

text \<open>One cycle: \<open>j\<close> more swaps of the argument at \<open>pos\<close> with the one at \<open>cstart\<close>.\<close>

primrec permute_cycle :: "nat \<Rightarrow> nat \<Rightarrow> nat \<Rightarrow> nat \<Rightarrow> nat \<Rightarrow> nat \<Rightarrow> 'a list \<Rightarrow> 'a list" where
  "permute_cycle 0 panonopt_end nnonopts nopts cstart pos argv = argv"
| "permute_cycle (Suc j) panonopt_end nnonopts nopts cstart pos argv =
     (let pos = (if pos \<ge> panonopt_end then pos - nnonopts else pos + nopts) in
      permute_cycle j panonopt_end nnonopts nopts cstart pos (argv[pos := argv ! cstart, cstart := argv ! pos]))"

definition permute_args :: "nat \<Rightarrow> nat \<Rightarrow> nat \<Rightarrow> 'a list \<Rightarrow> 'a list" where
  "permute_args panonopt_start panonopt_end opt_end argv =
     (let nnonopts = panonopt_end - panonopt_start;
          nopts = opt_end - panonopt_end;
          ncycle = gcd_loop nnonopts nopts;
          cyclelen = (opt_end - panonopt_start) div ncycle
      in fold (\<lambda>i. permute_cycle cyclelen panonopt_end nnonopts nopts (panonopt_end + i) (panonopt_end + i)) [0..<ncycle] argv)"

text \<open>\<open>permute_args(nonopt_start, nonopt_end, optind, nargv)\<close>; \<open>gcd\<close> divides by the number of options.\<close>

definition permute_nonopts :: "(getopt, unit) cfun" where
  "permute_nonopts = (\<lambda>s. case (nonopt_start s, nonopt_end s) of
      (Some b, Some e) \<Rightarrow>
        if b \<le> e \<and> e < optind s \<and> optind s \<le> length (nargv s) then Returns () (s\<lparr>nargv := permute_args b e (optind s) (nargv s)\<rparr>)
        else Faults Undefined_Behaviour
    | _ \<Rightarrow> Faults Undefined_Behaviour)"

definition skipped :: "getopt \<Rightarrow> nat" where
  "skipped s = the (nonopt_end s) - the (nonopt_start s)"

section \<open>Long options\<close>

text \<open>The entry of the vector at an index; the one behind the last is the null pointer.\<close>

definition argv_at :: "nat \<Rightarrow> (getopt, string option) cfun" where
  "argv_at i = bind (gets nargv) (\<lambda>v.
     if i < length v then ret (Some (v ! i)) else if i = length v then ret None else faults Undefined_Behaviour)"

text \<open>
  The loop over the long options: the index of the match, whether it is exact and whether there is a second partial match.
\<close>

primrec match_long ::
  "bool \<Rightarrow> bool \<Rightarrow> string \<Rightarrow> long_option list \<Rightarrow> nat \<Rightarrow> (nat \<times> long_option) option \<Rightarrow> bool \<Rightarrow> (nat \<times> long_option) option \<times> bool \<times> bool" where
  "match_long short_too long_only name [] i match second = (match, False, second)"
| "match_long short_too long_only name (o' # os) i match second =
     (if take (length name) (lo_name o') \<noteq> name then match_long short_too long_only name os (i + 1) match second
      else if length (lo_name o') = length name then (Some (i, o'), True, second)
      else if short_too \<and> length name = 1 then match_long short_too long_only name os (i + 1) match second
      else (case match of
          None \<Rightarrow> match_long short_too long_only name os (i + 1) (Some (i, o')) second
        | Some (j, m) \<Rightarrow> match_long short_too long_only name os (i + 1) match
            (second \<or> long_only \<or> has_arg o' \<noteq> has_arg m \<or> has_flag o' \<noteq> has_flag m \<or> lo_val o' \<noteq> lo_val m)))"

text \<open>The name before \<open>=\<close>, and what follows it.\<close>

definition split_equal :: "string \<Rightarrow> string \<times> string option" where
  "split_equal s = (let n = takeWhile (\<lambda>c. c \<noteq> CHR ''='') s in (n, if length n < length s then Some (drop (length n + 1) s) else None))"

text \<open>The result \<open>-1\<close> says that a short option may be tried. \<open>optopt\<close> for an option that is known.\<close>

definition known_optopt :: "long_option \<Rightarrow> int" where
  "known_optopt m = (if has_flag m then 0 else lo_val m)"

definition parse_long_options :: "string \<Rightarrow> long_option list \<Rightarrow> bool \<Rightarrow> bool \<Rightarrow> (getopt, int) cfun" where
  "parse_long_options options long_options short_too long_only =
     bind (gets place) (\<lambda>current_argv. bind (gets dash_prefix) (\<lambda>current_dash.
     case split_equal current_argv of (name, has_equal) \<Rightarrow>
     case match_long short_too long_only name long_options 0 None False of (match, exact_match, second_partial_match) \<Rightarrow>
     seq (modify (\<lambda>s. s\<lparr>optind := optind s + 1\<rparr>))
    (if \<not> exact_match \<and> second_partial_match then
       seq (warnx options (Ambiguous current_dash name))
      (seq (modify (\<lambda>s. s\<lparr>optopt := 0\<rparr>)) (ret BADCH))
     else (case match of
       Some (i, m) \<Rightarrow>
         if has_arg m = no_argument \<and> has_equal \<noteq> None then
           seq (warnx options (No_argument_allowed current_dash name))
          (seq (modify (\<lambda>s. s\<lparr>optopt := known_optopt m\<rparr>)) (ret BADCH))
         else
           seq (if has_arg m = required_argument \<or> has_arg m = optional_argument then
                  (if has_equal \<noteq> None then modify (\<lambda>s. s\<lparr>optarg := has_equal\<rparr>)
                   else if has_arg m = required_argument then
                     bind (bind (gets optind) argv_at) (\<lambda>a. modify (\<lambda>s. s\<lparr>optarg := a, optind := optind s + 1\<rparr>))
                   else ret ())
                else ret ())
          (bind (gets optarg) (\<lambda>a.
           if has_arg m = required_argument \<and> a = None then
             seq (warnx options (Argument_required current_dash current_argv))
            (seq (modify (\<lambda>s. s\<lparr>optopt := known_optopt m, optind := optind s - 1\<rparr>)) (ret (BADARG options)))
           else if has_flag m then seq (modify (\<lambda>s. s\<lparr>flag_var := lo_val m\<rparr>)) (ret 0)
           else ret (lo_val m)))
     | None \<Rightarrow>
         if short_too then seq (modify (\<lambda>s. s\<lparr>optind := optind s - 1\<rparr>)) (ret (- 1))
         else seq (warnx options (Unrecognized current_dash current_argv))
             (seq (modify (\<lambda>s. s\<lparr>optopt := 0\<rparr>)) (ret BADCH))))))"

section \<open>The next option\<close>

definition no_more_nonopts :: "getopt \<Rightarrow> getopt" where
  "no_more_nonopts s = s\<lparr>nonopt_start := None, nonopt_end := None\<rparr>"

text \<open>
  The code from the label \<open>start\<close> to the check of long options, where \<open>goto start\<close> skips an argument that is no option. The
  result is what to return, if there is nothing more to look at.
\<close>

primrec update_place :: "nat \<Rightarrow> bool \<Rightarrow> bool \<Rightarrow> (getopt, int option) cfun" where
  "update_place 0 all_args permute = faults Out_Of_Fuel"
| "update_place (Suc n) all_args permute =
     bind (gets id) (\<lambda>s.
     if \<not> optreset s \<and> place s \<noteq> '''' then ret None
     else seq (modify (\<lambda>s. s\<lparr>optreset := False\<rparr>))
       (if optind s \<ge> length (nargv s) then
          seq (modify (\<lambda>s. s\<lparr>place := ''''\<rparr>))
         (seq (if nonopt_end s \<noteq> None then seq permute_nonopts (modify (\<lambda>s. s\<lparr>optind := optind s - skipped s\<rparr>))
               else (case nonopt_start s of Some b \<Rightarrow> modify (\<lambda>s. s\<lparr>optind := b\<rparr>) | None \<Rightarrow> ret ()))
         (seq (modify no_more_nonopts) (ret (Some (- 1)))))
        else let arg = nargv s ! optind s in
          if take 1 arg \<noteq> ''-'' \<or> length arg = 1 then
            seq (modify (\<lambda>s. s\<lparr>place := ''''\<rparr>))
           (if all_args then seq (modify (\<lambda>s. s\<lparr>optarg := Some arg, optind := optind s + 1\<rparr>)) (ret (Some INORDER))
            else if \<not> permute then ret (Some (- 1))
            else
              seq (if nonopt_start s = None then modify (\<lambda>s. s\<lparr>nonopt_start := Some (optind s)\<rparr>)
                   else if nonopt_end s \<noteq> None then
                     seq permute_nonopts (modify (\<lambda>s. s\<lparr>nonopt_start := Some (optind s - skipped s), nonopt_end := None\<rparr>))
                   else ret ())
             (seq (modify (\<lambda>s. s\<lparr>optind := optind s + 1\<rparr>))
                  (update_place n all_args permute)))
          else
            seq (if nonopt_start s \<noteq> None \<and> nonopt_end s = None then modify (\<lambda>s. s\<lparr>nonopt_end := Some (optind s)\<rparr>) else ret ())
           (if arg = ''--'' then
              seq (modify (\<lambda>s. s\<lparr>optind := optind s + 1, place := ''''\<rparr>))
             (bind (gets nonopt_end) (\<lambda>e.
              seq (if e \<noteq> None then seq permute_nonopts (modify (\<lambda>s. s\<lparr>optind := optind s - skipped s\<rparr>)) else ret ())
             (seq (modify no_more_nonopts) (ret (Some (- 1))))))
            else seq (modify (\<lambda>s. s\<lparr>place := tl arg, place_at_start := False\<rparr>)) (ret None))))"

text \<open>\<open>strchr\<close> on a list of options: what follows the character, if it is there.\<close>

definition after_char :: "char \<Rightarrow> string \<Rightarrow> string option" where
  "after_char c options = (let r = dropWhile (\<lambda>d. d \<noteq> c) options in if r = '''' then None else Some (tl r))"

text \<open>The part for short options, with the next character of \<open>place\<close>; at least one is left.\<close>

definition parse_short_option :: "string \<Rightarrow> long_option list option \<Rightarrow> bool \<Rightarrow> (getopt, int) cfun" where
  "parse_short_option options long_options long_only =
     bind (gets (\<lambda>s. hd (place s))) (\<lambda>c.
     seq (modify (\<lambda>s. s\<lparr>place := tl (place s), place_at_start := False\<rparr>))
    (bind (gets id) (\<lambda>s. let optchar = of_char c :: int; rest = place s in
     if c = CHR '':'' \<or> (c = CHR ''-'' \<and> rest \<noteq> '''') \<or> after_char c options = None then
       (if c = CHR ''-'' \<and> rest = '''' then ret (- 1)
        else
          seq (if rest = '''' then modify (\<lambda>s. s\<lparr>optind := optind s + 1\<rparr>) else ret ())
         (seq (warnx options (Invalid_char c))
         (seq (modify (\<lambda>s. s\<lparr>optopt := optchar\<rparr>)) (ret BADCH))))
     else let oli = the (after_char c options) in
     if long_options \<noteq> None \<and> c = CHR ''W'' \<and> take 1 oli = '';'' then
       (if rest = '''' \<and> optind s + 1 \<ge> length (nargv s) then
          seq (modify (\<lambda>s. s\<lparr>optind := optind s + 1, place := ''''\<rparr>))
         (seq (warnx options (Argument_required_char c))
         (seq (modify (\<lambda>s. s\<lparr>optopt := optchar\<rparr>)) (ret (BADARG options))))
        else
          seq (if rest = '''' then modify (\<lambda>s. s\<lparr>optind := optind s + 1, place := nargv s ! (optind s + 1), place_at_start := True\<rparr>) else ret ())
         (seq (modify (\<lambda>s. s\<lparr>dash_prefix := ''-W ''\<rparr>))
         (bind (parse_long_options options (the long_options) False long_only) (\<lambda>r.
          seq (modify (\<lambda>s. s\<lparr>place := ''''\<rparr>)) (ret r)))))
     else if take 1 oli \<noteq> '':'' then
       seq (if rest = '''' then modify (\<lambda>s. s\<lparr>optind := optind s + 1\<rparr>) else ret ()) (ret optchar)
     else
       seq (modify (\<lambda>s. s\<lparr>optarg := None\<rparr>))
      (if rest = '''' \<and> take 1 (tl oli) \<noteq> '':'' \<and> optind s + 1 \<ge> length (nargv s) then
         seq (modify (\<lambda>s. s\<lparr>optind := optind s + 1, place := ''''\<rparr>))
        (seq (warnx options (Argument_required_char c))
        (seq (modify (\<lambda>s. s\<lparr>optopt := optchar\<rparr>)) (ret (BADARG options))))
       else
         seq (if rest \<noteq> '''' then modify (\<lambda>s. s\<lparr>optarg := Some rest\<rparr>)
              else if take 1 (tl oli) \<noteq> '':'' then modify (\<lambda>s. s\<lparr>optind := optind s + 1, optarg := Some (nargv s ! (optind s + 1))\<rparr>)
              else ret ())
        (seq (modify (\<lambda>s. s\<lparr>place := '''', optind := optind s + 1\<rparr>)) (ret optchar))))))"

text \<open>The code behind the update of \<open>place\<close>: is this a long option, or the next of a cluster of short ones?\<close>

definition parse_option :: "string \<Rightarrow> long_option list option \<Rightarrow> bool \<Rightarrow> (getopt, int) cfun" where
  "parse_option options long_options long_only =
     bind (gets id) (\<lambda>s.
     if long_options \<noteq> None \<and> \<not> place_at_start s \<and> (take 1 (place s) = ''-'' \<or> long_only) then
       seq (modify (\<lambda>s. s\<lparr>dash_prefix := ''-''\<rparr>))
      (if take 1 (place s) = ''-'' then
         seq (modify (\<lambda>s. s\<lparr>place := tl (place s)\<rparr>))
        (if tl (place s) = '''' then ret (BADARG options)
         else
           seq (modify (\<lambda>s. s\<lparr>dash_prefix := ''--''\<rparr>))
          (bind (parse_long_options options (the long_options) False long_only) (\<lambda>optchar.
           if optchar \<noteq> - 1 then seq (modify (\<lambda>s. s\<lparr>place := ''''\<rparr>)) (ret optchar)
           else parse_short_option options long_options long_only)))
       else
         let short_too = (take 1 (place s) \<noteq> '':'' \<and> after_char (hd (place s)) options \<noteq> None) in
         bind (parse_long_options options (the long_options) short_too long_only) (\<lambda>optchar.
         if optchar \<noteq> - 1 then seq (modify (\<lambda>s. s\<lparr>place := ''''\<rparr>)) (ret optchar)
         else parse_short_option options long_options long_only))
     else parse_short_option options long_options long_only)"

text \<open>
  \<open>getopt_internal\<close>. The three flags of the C function are the last arguments. A loop over the arguments that are no options
  passes each at most once.
\<close>

definition getopt_internal :: "string option \<Rightarrow> long_option list option \<Rightarrow> bool \<Rightarrow> bool \<Rightarrow> bool \<Rightarrow> (getopt, int) cfun" where
  "getopt_internal opts long_options permute all_args long_only = (case opts of
      None \<Rightarrow> ret (- 1)
    | Some opts \<Rightarrow>
       seq (modify (\<lambda>s. if optind s = 0 then s\<lparr>optind := 1, optreset := True\<rparr> else s))
      (seq (modify (\<lambda>s. if posixly_correct s = None \<or> optreset s then s\<lparr>posixly_correct := Some (env_posixly_correct s)\<rparr> else s))
      (bind (gets posixly_correct) (\<lambda>posix.
       let all_args = (all_args \<or> take 1 opts = ''-'');
           permute = (permute \<and> \<not> (take 1 opts \<noteq> ''-'' \<and> (posix = Some True \<or> take 1 opts = ''+'')));
           options = (if take 1 opts = ''+'' \<or> take 1 opts = ''-'' then tl opts else opts)
       in
       seq (modify (\<lambda>s. s\<lparr>optarg := None\<rparr>))
      (seq (modify (\<lambda>s. if optreset s then no_more_nonopts s else s))
      (bind (bind (gets (\<lambda>s. length (nargv s) - optind s)) (\<lambda>n. update_place (n + 1) all_args permute)) (\<lambda>r. case r of
         Some x \<Rightarrow> ret x
       | None \<Rightarrow> parse_option options long_options long_only)))))))"

definition getopt_long :: "string option \<Rightarrow> long_option list option \<Rightarrow> (getopt, int) cfun" where
  "getopt_long options long_options = getopt_internal options long_options True False False"

definition getopt_long_only :: "string option \<Rightarrow> long_option list option \<Rightarrow> (getopt, int) cfun" where
  "getopt_long_only options long_options = getopt_internal options long_options True False True"

definition getopt_short :: "string option \<Rightarrow> (getopt, int) cfun" where
  "getopt_short options = getopt_internal options None False False False"

end
