(* ===== verification/ArgParse.thy ===== *)
theory ArgParse
  imports GetOpt Hw
begin

text \<open>
  The option parser: the entries of an argument table (\<open>arg_lit\<close>, \<open>arg_str\<close>, \<open>arg_rem\<close>, \<open>arg_end\<close>) and \<open>arg_parse\<close>, all of
  \<^verbatim>\<open>cli/lib/argtable/argtable3.c\<close>. The functions a header points to are those of the kind of entry; \<open>parent\<close> is the entry's
  index in the table. These four kinds are the ones in the tables of the tool; the other types of options have theories of their own (\<open>ArgOption\<close>).
\<close>

section \<open>Entries of a table\<close>

text \<open>The three bits of \<open>flag\<close> are the first fields.\<close>

record arg_hdr =
  is_terminator :: bool
  has_value :: bool
  has_opt_value :: bool
  shortopts :: "string option"
  longopts :: "string option"
  datatype_text :: "string option"
  glossary :: "string option"
  mincount :: nat
  maxcount :: nat

definition ARG_ELIMIT :: int where "ARG_ELIMIT = 1"
definition ARG_EMALLOC :: int where "ARG_EMALLOC = 2"
definition ARG_ENOMATCH :: int where "ARG_ENOMATCH = 3"
definition ARG_ELONGOPT :: int where "ARG_ELONGOPT = 4"
definition ARG_EMISSARG :: int where "ARG_EMISSARG = 5"

definition ARG_ERR_MINCOUNT :: int where "ARG_ERR_MINCOUNT = 1"
definition ARG_ERR_MAXCOUNT :: int where "ARG_ERR_MAXCOUNT = 2"

text \<open>An error: the index of the entry it belongs to, its code and the argument.\<close>

record arg_error =
  err_parent :: nat
  err_code :: int
  err_argval :: "string option"

datatype arg_entry =
    Arg_lit arg_hdr nat
  | Arg_str arg_hdr nat "string list"
  | Arg_rem arg_hdr
  | Arg_end arg_hdr "arg_error list"

primrec hdr_of :: "arg_entry \<Rightarrow> arg_hdr" where
  "hdr_of (Arg_lit h n) = h"
| "hdr_of (Arg_str h n sval) = h"
| "hdr_of (Arg_rem h) = h"
| "hdr_of (Arg_end h es) = h"

definition arg_litn :: "string option \<Rightarrow> string option \<Rightarrow> nat \<Rightarrow> nat \<Rightarrow> string option \<Rightarrow> arg_entry" where
  "arg_litn short long minc maxc gloss =
     Arg_lit \<lparr>is_terminator = False, has_value = False, has_opt_value = False, shortopts = short, longopts = long, datatype_text = None,
       glossary = gloss, mincount = minc, maxcount = (if maxc < minc then minc else maxc)\<rparr> 0"

definition arg_lit0 :: "string option \<Rightarrow> string option \<Rightarrow> string option \<Rightarrow> arg_entry" where
  "arg_lit0 short long gloss = arg_litn short long 0 1 gloss"

definition arg_lit1 :: "string option \<Rightarrow> string option \<Rightarrow> string option \<Rightarrow> arg_entry" where
  "arg_lit1 short long gloss = arg_litn short long 1 1 gloss"

definition arg_strn :: "string option \<Rightarrow> string option \<Rightarrow> string option \<Rightarrow> nat \<Rightarrow> nat \<Rightarrow> string option \<Rightarrow> arg_entry" where
  "arg_strn short long dt minc maxc gloss =
     (let maxc = (if maxc < minc then minc else maxc) in
      Arg_str \<lparr>is_terminator = False, has_value = True, has_opt_value = False, shortopts = short, longopts = long,
        datatype_text = (if dt = None then Some ''<string>'' else dt), glossary = gloss, mincount = minc, maxcount = maxc\<rparr> 0 (replicate maxc ''''))"

definition arg_str0 :: "string option \<Rightarrow> string option \<Rightarrow> string option \<Rightarrow> string option \<Rightarrow> arg_entry" where
  "arg_str0 short long dt gloss = arg_strn short long dt 0 1 gloss"

definition arg_str1 :: "string option \<Rightarrow> string option \<Rightarrow> string option \<Rightarrow> string option \<Rightarrow> arg_entry" where
  "arg_str1 short long dt gloss = arg_strn short long dt 1 1 gloss"

definition arg_rem :: "string option \<Rightarrow> string option \<Rightarrow> arg_entry" where
  "arg_rem dt gloss = Arg_rem \<lparr>is_terminator = False, has_value = False, has_opt_value = False, shortopts = None, longopts = None,
     datatype_text = dt, glossary = gloss, mincount = 1, maxcount = 1\<rparr>"

definition arg_end :: "nat \<Rightarrow> arg_entry" where
  "arg_end maxc = Arg_end \<lparr>is_terminator = True, has_value = False, has_opt_value = False, shortopts = None, longopts = None,
     datatype_text = None, glossary = None, mincount = 1, maxcount = maxc\<rparr> []"

text \<open>The functions of the types of entries. A string entry has \<open>maxcount\<close> places.\<close>

definition arg_lit_resetfn :: "arg_hdr \<Rightarrow> nat \<Rightarrow> arg_entry" where
  [simp]: "arg_lit_resetfn h n = Arg_lit h 0"

definition arg_lit_scanfn :: "arg_hdr \<Rightarrow> nat \<Rightarrow> int \<times> arg_entry" where
  [simp]: "arg_lit_scanfn h n = (if n < maxcount h then (0, Arg_lit h (n + 1)) else (ARG_ERR_MAXCOUNT, Arg_lit h n))"

definition arg_lit_checkfn :: "arg_hdr \<Rightarrow> nat \<Rightarrow> int" where
  [simp]: "arg_lit_checkfn h n = (if n < mincount h then ARG_ERR_MINCOUNT else 0)"

definition arg_str_resetfn :: "arg_hdr \<Rightarrow> nat \<Rightarrow> string list \<Rightarrow> arg_entry" where
  [simp]: "arg_str_resetfn h n sval = Arg_str h 0 (replicate (min n (length sval)) '''' @ drop n sval)"

definition arg_str_scanfn :: "arg_hdr \<Rightarrow> nat \<Rightarrow> string list \<Rightarrow> string option \<Rightarrow> int \<times> arg_entry" where
  [simp]: "arg_str_scanfn h n sval argval =
     (if n = maxcount h then (ARG_ERR_MAXCOUNT, Arg_str h n sval)
      else (case argval of None \<Rightarrow> (0, Arg_str h (n + 1) sval) | Some a \<Rightarrow> (0, Arg_str h (n + 1) (sval[n := a]))))"

definition arg_str_checkfn :: "arg_hdr \<Rightarrow> nat \<Rightarrow> int" where
  [simp]: "arg_str_checkfn h n = (if n < mincount h then ARG_ERR_MINCOUNT else 0)"

definition arg_end_resetfn :: "arg_hdr \<Rightarrow> arg_error list \<Rightarrow> arg_entry" where
  [simp]: "arg_end_resetfn h es = Arg_end h []"

text \<open>\<open>resetfn\<close>, \<open>scanfn\<close> with its error code, and \<open>checkfn\<close> of a header; those that are null do nothing.\<close>

primrec resetfn :: "arg_entry \<Rightarrow> arg_entry" where
  "resetfn (Arg_lit h n) = arg_lit_resetfn h n"
| "resetfn (Arg_str h n sval) = arg_str_resetfn h n sval"
| "resetfn (Arg_rem h) = Arg_rem h"
| "resetfn (Arg_end h es) = arg_end_resetfn h es"

primrec has_scanfn :: "arg_entry \<Rightarrow> bool" where
  "has_scanfn (Arg_lit h n) = True"
| "has_scanfn (Arg_str h n sval) = True"
| "has_scanfn (Arg_rem h) = False"
| "has_scanfn (Arg_end h es) = False"

primrec scanfn :: "arg_entry \<Rightarrow> string option \<Rightarrow> int \<times> arg_entry" where
  "scanfn (Arg_lit h n) argval = arg_lit_scanfn h n"
| "scanfn (Arg_str h n sval) argval = arg_str_scanfn h n sval argval"
| "scanfn (Arg_rem h) argval = (0, Arg_rem h)"
| "scanfn (Arg_end h es) argval = (0, Arg_end h es)"

primrec checkfn :: "arg_entry \<Rightarrow> int" where
  "checkfn (Arg_lit h n) = arg_lit_checkfn h n"
| "checkfn (Arg_str h n sval) = arg_str_checkfn h n"
| "checkfn (Arg_rem h) = 0"
| "checkfn (Arg_end h es) = 0"

section \<open>The table\<close>

record parser_state =
  argtable :: "arg_entry list"
  gopt :: getopt

text \<open>The index of the terminator; behind the end of the table there is nothing.\<close>

definition arg_endindex :: "arg_entry list \<Rightarrow> nat option" where
  "arg_endindex table = find (\<lambda>i. is_terminator (hdr_of (table ! i))) [0..<length table]"

definition the_endindex :: "(parser_state, nat) cfun" where
  "the_endindex = bind (gets (\<lambda>s. arg_endindex (argtable s))) (\<lambda>i. case i of None \<Rightarrow> faults Undefined_Behaviour | Some i \<Rightarrow> ret i)"

definition set_entry :: "nat \<Rightarrow> arg_entry \<Rightarrow> parser_state \<Rightarrow> parser_state" where
  "set_entry i e s = s\<lparr>argtable := (argtable s)[i := e]\<rparr>"

definition arg_register_error :: "arg_error \<Rightarrow> (parser_state, unit) cfun" where
  "arg_register_error e = bind the_endindex (\<lambda>k. bind (gets (\<lambda>s. argtable s ! k)) (\<lambda>t. case t of
      Arg_end h es \<Rightarrow>
        if length es < maxcount h then modify (set_entry k (Arg_end h (es @ [e])))
        else seq (defined_if (0 < maxcount h))
               (modify (set_entry k (Arg_end h (es[maxcount h - 1 := \<lparr>err_parent = k, err_code = ARG_ELIMIT, err_argval = None\<rparr>]))))
    | _ \<Rightarrow> faults Undefined_Behaviour))"

definition error_count :: "(parser_state, nat) cfun" where
  "error_count = bind the_endindex (\<lambda>k. bind (gets (\<lambda>s. argtable s ! k)) (\<lambda>t. case t of
      Arg_end h es \<Rightarrow> ret (length es) | _ \<Rightarrow> faults Undefined_Behaviour))"

text \<open>The entries before the terminator.\<close>

definition entries :: "arg_entry list \<Rightarrow> arg_entry list" where
  "entries table = takeWhile (\<lambda>e. \<not> is_terminator (hdr_of e)) table"

definition find_shortoption :: "arg_entry list \<Rightarrow> char \<Rightarrow> nat option" where
  "find_shortoption table shortopt =
     find (\<lambda>i. case shortopts (hdr_of (table ! i)) of None \<Rightarrow> False | Some s \<Rightarrow> shortopt \<in> set s \<or> shortopt = CHR 0x00) [0..<length (entries table)]"

text \<open>
  The long options of an entry, the comma separated parts of \<open>longopts\<close>. All of them have the flag \<open>getoptval\<close>.
\<close>

function split_commas :: "string \<Rightarrow> string list" where
  "split_commas s = (if s = '''' then [] else
     (let name = takeWhile (\<lambda>c. c \<noteq> CHR '','') s in name # split_commas (drop (length name + 1) s)))"
  by auto
termination
  by (relation "measure length") auto

declare split_commas.simps [simp del]

definition alloc_longoptions :: "arg_entry list \<Rightarrow> long_option list" where
  "alloc_longoptions table = concat (map (\<lambda>i. let h = hdr_of (table ! i) in
     map (\<lambda>name. \<lparr>lo_name = name,
         has_arg = (if has_opt_value h then optional_argument else if has_value h then required_argument else no_argument),
         has_flag = True, lo_val = int i\<rparr>)
       (case longopts h of None \<Rightarrow> [] | Some l \<Rightarrow> split_commas l)) [0..<length (entries table)])"

definition alloc_shortoptions :: "arg_entry list \<Rightarrow> string" where
  "alloc_shortoptions table = '':'' @ concat (map (\<lambda>e. let h = hdr_of e in
     concat (map (\<lambda>c. [c] @ (if has_value h then '':'' else '''') @ (if has_opt_value h then '':'' else ''''))
       (case shortopts h of None \<Rightarrow> '''' | Some s \<Rightarrow> s))) (entries table))"

section \<open>Parsing\<close>

definition on_getopt :: "(getopt, 'a) cfun \<Rightarrow> (parser_state, 'a) cfun" where
  "on_getopt = zoom gopt (\<lambda>g s. s\<lparr>gopt := g\<rparr>)"

text \<open>\<open>argv[optind - 1]\<close>\<close>

definition last_arg :: "(parser_state, string option) cfun" where
  "last_arg = bind (gets (\<lambda>s. optind (gopt s))) (\<lambda>i. seq (defined_if (0 < i)) (on_getopt (argv_at (i - 1))))"

text \<open>An entry scans the option's argument; its error is registered.\<close>

definition scan_option :: "nat \<Rightarrow> (parser_state, unit) cfun" where
  "scan_option i = bind (gets id) (\<lambda>s.
     seq (defined_if (i < length (argtable s)))
    (if has_scanfn (argtable s ! i) then
       (case scanfn (argtable s ! i) (optarg (gopt s)) of (code, e) \<Rightarrow>
        seq (modify (set_entry i e))
            (if code \<noteq> 0 then arg_register_error \<lparr>err_parent = i, err_code = code, err_argval = optarg (gopt s)\<rparr> else ret ()))
     else ret ()))"

definition handle_option :: "int \<Rightarrow> (parser_state, unit) cfun" where
  "handle_option copt = bind the_endindex (\<lambda>k.
     if copt = 0 then
       bind (gets id) (\<lambda>s. let i = nat (flag_var (gopt s)) in
       seq (defined_if (i < length (argtable s)))
      (seq (if optarg (gopt s) = Some '''' \<and> has_value (hdr_of (argtable s ! i)) then
              bind last_arg (\<lambda>a. arg_register_error \<lparr>err_parent = k, err_code = ARG_EMISSARG, err_argval = a\<rparr>)
            else ret ())
           (scan_option i)))
     else if copt = of_char CHR ''?'' then
       bind (gets (\<lambda>s. optopt (gopt s))) (\<lambda>opt.
       if opt = 0 then bind last_arg (\<lambda>a. arg_register_error \<lparr>err_parent = k, err_code = ARG_ELONGOPT, err_argval = a\<rparr>)
       else arg_register_error \<lparr>err_parent = k, err_code = opt, err_argval = None\<rparr>)
     else if copt = of_char CHR '':'' then
       bind last_arg (\<lambda>a. arg_register_error \<lparr>err_parent = k, err_code = ARG_EMISSARG, err_argval = a\<rparr>)
     else
       bind (gets (\<lambda>s. find_shortoption (argtable s) (char_of (nat copt)))) (\<lambda>i. case i of
         None \<Rightarrow> arg_register_error \<lparr>err_parent = k, err_code = copt, err_argval = None\<rparr>
       | Some i \<Rightarrow> scan_option i))"

primrec tagged_loop :: "nat \<Rightarrow> string \<Rightarrow> long_option list \<Rightarrow> (parser_state, unit) cfun" where
  "tagged_loop 0 shortoptions longoptions = faults Out_Of_Fuel"
| "tagged_loop (Suc n) shortoptions longoptions =
     bind (on_getopt (getopt_long (Some shortoptions) (Some longoptions))) (\<lambda>copt.
     if copt = - 1 then ret () else seq (handle_option copt) (tagged_loop n shortoptions longoptions))"

definition arg_parse_tagged :: "nat \<Rightarrow> (parser_state, unit) cfun" where
  "arg_parse_tagged fuel = bind (gets argtable) (\<lambda>table.
     seq (on_getopt (modify (\<lambda>g. g\<lparr>optind := 0, opterr := False\<rparr>)))
         (tagged_loop fuel (alloc_shortoptions table) (alloc_longoptions table)))"

text \<open>
  The loop over the entries without options. The last tentative error is an argument; the result is what is left of it when the
  entries are used up, and nothing if the arguments were used up before.
\<close>

primrec untagged_loop :: "nat \<Rightarrow> nat \<Rightarrow> arg_error option \<Rightarrow> (parser_state, arg_error option option) cfun" where
  "untagged_loop 0 i errorlast = faults Out_Of_Fuel"
| "untagged_loop (Suc n) i errorlast = bind (gets id) (\<lambda>s.
     seq (defined_if (i < length (argtable s)))
    (let e = argtable s ! i; h = hdr_of e; g = gopt s in
     if is_terminator h then ret (Some errorlast)
     else if optind g \<ge> length (nargv g) then ret None
     else if longopts h \<noteq> None \<or> shortopts h \<noteq> None then untagged_loop n (i + 1) errorlast
     else if \<not> has_scanfn e then untagged_loop n (i + 1) errorlast
     else (case scanfn e (Some (nargv g ! optind g)) of (code, e') \<Rightarrow>
       seq (modify (set_entry i e'))
      (if code = 0 then
         seq (on_getopt (modify (\<lambda>g. g\<lparr>optind := optind g + 1\<rparr>))) (untagged_loop n i None)
       else
         untagged_loop n (i + 1) (Some \<lparr>err_parent = i, err_code = code, err_argval = Some (nargv g ! optind g)\<rparr>)))))"

text \<open>Every argument that is left is an error.\<close>

definition register_unused :: "(parser_state, unit) cfun" where
  "register_unused = bind (gets gopt) (\<lambda>g. bind the_endindex (\<lambda>k.
     for_each (drop (optind g) (nargv g)) (\<lambda>a.
       seq (arg_register_error \<lparr>err_parent = k, err_code = ARG_ENOMATCH, err_argval = Some a\<rparr>)
           (on_getopt (modify (\<lambda>g. g\<lparr>optind := optind g + 1\<rparr>))))))"

definition arg_parse_untagged :: "(parser_state, unit) cfun" where
  "arg_parse_untagged =
     bind (bind (gets (\<lambda>s. length (argtable s) + length (nargv (gopt s)) + 1)) (\<lambda>n. untagged_loop n 0 None)) (\<lambda>r. case r of
       None \<Rightarrow> ret ()
     | Some errorlast \<Rightarrow>
         seq (case errorlast of None \<Rightarrow> ret ()
              | Some e \<Rightarrow> seq (arg_register_error e) (on_getopt (modify (\<lambda>g. g\<lparr>optind := optind g + 1\<rparr>))))
             register_unused)"

definition arg_parse_check :: "(parser_state, unit) cfun" where
  "arg_parse_check = bind the_endindex (\<lambda>k.
     for_each [0..<k + 1] (\<lambda>i. bind (gets (\<lambda>s. checkfn (argtable s ! i))) (\<lambda>code.
       if code \<noteq> 0 then arg_register_error \<lparr>err_parent = i, err_code = code, err_argval = None\<rparr> else ret ())))"

definition arg_reset :: "(parser_state, unit) cfun" where
  "arg_reset = bind the_endindex (\<lambda>k. modify (\<lambda>s. s\<lparr>argtable := map resetfn (take (k + 1) (argtable s)) @ drop (k + 1) (argtable s)\<rparr>))"

text \<open>The number of errors. The fuel is for the calls of \<open>getopt_long\<close>.\<close>

definition arg_parse :: "nat \<Rightarrow> string list \<Rightarrow> (parser_state, nat) cfun" where
  "arg_parse fuel argv =
     seq arg_reset
    (if length argv = 0 then seq arg_parse_check error_count
     else
       seq (on_getopt (modify (\<lambda>g. g\<lparr>nargv := argv\<rparr>)))
      (seq (arg_parse_tagged fuel)
      (seq arg_parse_untagged
      (bind error_count (\<lambda>n.
       seq (if n = 0 then arg_parse_check else ret ()) error_count)))))"

end
