(* ===== verification/Ctype.thy ===== *)
theory Ctype
  imports Prelude
begin

text \<open>
  The character classes of the C library (\<open>ctype.h\<close>) in the locale "C", which the option types of the argument parser use, and \<open>strtol\<close>.
  A C string is the list of the characters before its terminator. Where \<open>char\<close> is signed, ISO C does not define these functions for the negative
  values of the characters from 128 on, which the code passes on as they are; here they are in no class, as in glibc's tables for
  the locale "C".
\<close>

section \<open>Characters\<close>

definition code_of :: "char \<Rightarrow> nat" where
  "code_of c = of_char c"

lemma code_of_eq [simp]: "code_of c = code_of d \<longleftrightarrow> c = d"
  by (simp add: code_of_def)

lemma code_of_less: "code_of c < 256"
  by (simp add: code_of_def)

lemma char_of_code [simp]: "char_of (code_of c) = c"
  by (simp add: code_of_def)

definition isspace :: "char \<Rightarrow> bool" where
  "isspace c \<longleftrightarrow> c = CHR '' '' \<or> code_of c \<in> {9, 10, 11, 12, 13}"

definition isdigit :: "char \<Rightarrow> bool" where
  "isdigit c \<longleftrightarrow> code_of c \<in> {48..57}"

definition isupper :: "char \<Rightarrow> bool" where
  "isupper c \<longleftrightarrow> code_of c \<in> {65..90}"

definition islower :: "char \<Rightarrow> bool" where
  "islower c \<longleftrightarrow> code_of c \<in> {97..122}"

definition isalpha :: "char \<Rightarrow> bool" where
  "isalpha c \<longleftrightarrow> isupper c \<or> islower c"

definition isalnum :: "char \<Rightarrow> bool" where
  "isalnum c \<longleftrightarrow> isalpha c \<or> isdigit c"

definition isxdigit :: "char \<Rightarrow> bool" where
  "isxdigit c \<longleftrightarrow> isdigit c \<or> code_of c \<in> {65..70} \<or> code_of c \<in> {97..102}"

definition iscntrl :: "char \<Rightarrow> bool" where
  "iscntrl c \<longleftrightarrow> code_of c < 32 \<or> code_of c = 127"

definition isprint :: "char \<Rightarrow> bool" where
  "isprint c \<longleftrightarrow> code_of c \<in> {32..126}"

definition ispunct :: "char \<Rightarrow> bool" where
  "ispunct c \<longleftrightarrow> isprint c \<and> c \<noteq> CHR '' '' \<and> \<not> isalnum c"

definition toupper :: "char \<Rightarrow> char" where
  "toupper c = (if islower c then char_of (code_of c - 32) else c)"

definition tolower :: "char \<Rightarrow> char" where
  "tolower c = (if isupper c then char_of (code_of c + 32) else c)"

lemma code_of_char [simp]: "n < 256 \<Longrightarrow> code_of (char_of n) = n"
  by (simp add: code_of_def)

lemma tolower_toupper: "tolower (toupper c) = tolower c"
  by (auto simp: tolower_def toupper_def isupper_def islower_def)

lemma toupper_tolower: "toupper (tolower c) = toupper c"
  by (auto simp: tolower_def toupper_def isupper_def islower_def)

lemma code_of_toupper: "code_of (toupper c) = (if code_of c \<in> {97..122} then code_of c - 32 else code_of c)"
  using code_of_less [of c] by (simp add: toupper_def islower_def)

section \<open>Numbers\<close>

text \<open>The value of a digit, that of a letter up to 35.\<close>

definition digit_value :: "char \<Rightarrow> nat" where
  "digit_value c = (if isdigit c then code_of c - 48 else if isupper c then code_of c - 55 else if islower c then code_of c - 87 else 36)"

definition is_digit_of :: "nat \<Rightarrow> char \<Rightarrow> bool" where
  "is_digit_of base c \<longleftrightarrow> digit_value c < base"

lemma is_digit_of_10: "is_digit_of 10 c \<longleftrightarrow> code_of c \<in> {48..57}"
  by (auto simp: is_digit_of_def digit_value_def isdigit_def isupper_def islower_def)

lemma is_digit_of_16: "is_digit_of 16 c \<longleftrightarrow> code_of c \<in> {48..57} \<or> code_of c \<in> {65..70} \<or> code_of c \<in> {97..102}"
  by (auto simp: is_digit_of_def digit_value_def isdigit_def isupper_def islower_def)

definition numeral_value :: "nat \<Rightarrow> string \<Rightarrow> nat" where
  "numeral_value base ds = foldl (\<lambda>n c. n * base + digit_value c) 0 ds"

definition INT_MAX :: int where "INT_MAX = 2147483647"
definition INT_MIN :: int where "INT_MIN = - 2147483648"

definition long_min :: "nat \<Rightarrow> int" where "long_min w = - (2 ^ (w - 1))"
definition long_max :: "nat \<Rightarrow> int" where "long_max w = 2 ^ (w - 1) - 1"

text \<open>A \<open>long\<close> of \<open>w\<close> bits that holds the value or the end of the range next to it.\<close>

definition clamp_long :: "nat \<Rightarrow> int \<Rightarrow> int" where
  "clamp_long w v = max (long_min w) (min (long_max w) v)"

text \<open>
  \<open>strtol\<close>, with the number of characters it has read, 0 if there is no number. In base 16 a number can begin with \<open>0x\<close>.
\<close>

definition hex_prefix :: "string \<Rightarrow> bool" where
  "hex_prefix s \<longleftrightarrow> take 1 s = ''0'' \<and> map toupper (take 1 (drop 1 s)) = ''X'' \<and> list_ex (is_digit_of 16) (take 1 (drop 2 s))"

definition strtol :: "nat \<Rightarrow> string \<Rightarrow> nat \<Rightarrow> int \<times> nat" where
  "strtol w s base =
     (let ws = length (takeWhile isspace s); s = drop ws s;
          sg = (if take 1 s \<in> {''+'', ''-''} then 1 else 0); neg = (take 1 s = ''-''); s = drop sg s;
          px = (if base = 16 \<and> hex_prefix s then 2 else 0);
          ds = takeWhile (is_digit_of base) (drop px s)
      in if ds = '''' then (0, 0)
         else (clamp_long w ((if neg then - 1 else 1) * int (numeral_value base ds)), ws + sg + px + length ds))"

lemma digit_value_no_digit:
  "isspace c \<Longrightarrow> digit_value c = 36" "digit_value CHR ''+'' = 36" "digit_value CHR ''-'' = 36"
  by (auto simp: digit_value_def isspace_def isdigit_def isupper_def islower_def code_of_def)

lemma digit_no_sign:
  assumes "is_digit_of base c" and "base \<le> 16"
  shows "\<not> isspace c" and "c \<noteq> CHR ''+''" and "c \<noteq> CHR ''-''"
  using assms digit_value_no_digit by (fastforce simp: is_digit_of_def)+

text \<open>What \<open>strtol\<close> makes of white space, a sign, digits and what is not a digit.\<close>

lemma strtol_number:
  assumes "list_all isspace ws" and sg: "sg \<in> {'''', ''+'', ''-''}" and "ds \<noteq> ''''" and "list_all (is_digit_of base) ds"
    and "rest = '''' \<or> \<not> is_digit_of base (hd rest)" and "base \<le> 16" and "base = 16 \<Longrightarrow> map toupper (take 1 (tl ds @ rest)) \<noteq> ''X''"
  shows "strtol w (ws @ sg @ ds @ rest) base = (clamp_long w ((if sg = ''-'' then - 1 else 1) * int (numeral_value base ds)), length (ws @ sg @ ds))"
proof -
  obtain d ds' where ds: "ds = d # ds'" using assms(3) by (cases ds) auto
  have d: "\<not> isspace d" "d \<noteq> CHR ''+''" "d \<noteq> CHR ''-''" using digit_no_sign [of base d] assms(4,6) ds by auto
  have "\<not> isspace (CHR ''+'')" "\<not> isspace (CHR ''-'')" by (simp_all add: isspace_def code_of_def)
  then have ws: "takeWhile isspace (ws @ sg @ ds @ rest) = ws"
    using assms(1) sg d(1) by (auto simp: takeWhile_append list_all_iff ds)
  have tw: "takeWhile (is_digit_of base) (ds @ rest) = ds"
    using assms(4,5) by (cases rest) (auto simp: list_all_iff takeWhile_append)
  have t: "take 1 (ds @ rest) = [d]" "take 1 (drop 1 (ds @ rest)) = take 1 (tl ds @ rest)" using ds by simp_all
  have px: "(if base = 16 \<and> hex_prefix (ds @ rest) then 2 else 0) = (0 :: nat)" using assms(7) t by (auto simp: hex_prefix_def)
  have s: "drop (length ws) (ws @ sg @ ds @ rest) = sg @ ds @ rest" "drop (length sg) (sg @ ds @ rest) = ds @ rest" by simp_all
  have sgn: "(if take 1 (sg @ ds @ rest) \<in> {''+'', ''-''} then 1 else 0) = length sg" "(take 1 (sg @ ds @ rest) = ''-'') \<longleftrightarrow> sg = ''-''"
    using sg d t(1) by auto
  show ?thesis
    unfolding strtol_def Let_def ws s sgn px drop_0 tw using assms(3) by simp
qed

end
