(* ===== verification/ArgPrint.thy ===== *)
theory ArgPrint
  imports ArgParse Ctype
begin

text \<open>
  The texts the option parser makes of a table and of its errors (\<^verbatim>\<open>cli/lib/argtable/argtable3.c\<close>, \<open>arg_print_*_ds\<close> and the
  \<open>errorfn\<close>s). The result of a function is the text it adds to the dynamic string. White space is that of \<open>Ctype\<close>.
\<close>

section \<open>Text\<close>

text \<open>A field of at least \<open>n\<close> characters, \<open>%-ns\<close>; what \<open>%c\<close> adds, where a null character ends the text.\<close>

definition pad :: "nat \<Rightarrow> string \<Rightarrow> string" where
  "pad n s = s @ replicate (n - length s) CHR '' ''"

definition newline :: string where "newline = [char_of (10 :: nat)]"

definition until_nul :: "string \<Rightarrow> string" where
  "until_nul = takeWhile (\<lambda>c. c \<noteq> CHR 0x00)"

text \<open>The text in a buffer of \<open>cap\<close> bytes, and the place \<open>dest\<close> points to; \<open>ndest\<close> is the distance from there to the end.\<close>

type_synonym buffer = "string \<times> nat"

definition arg_cat :: "nat \<Rightarrow> string \<Rightarrow> buffer \<Rightarrow> buffer" where
  "arg_cat cap src b = (case b of (text, dest) \<Rightarrow>
     let text = take (cap - 1) text;
         text = text @ take (cap - 1 - length text) src
     in (text, length text))"

text \<open>\<open>strncat\<close>, which does not move \<open>dest\<close>, with the length up to the next comma.\<close>

definition strncat_name :: "nat \<Rightarrow> string \<Rightarrow> buffer \<Rightarrow> buffer" where
  "strncat_name cap s b = (case b of (text, dest) \<Rightarrow>
     let ncspn = length (takeWhile (\<lambda>c. c \<noteq> CHR '','') s); ndest = cap - dest in
     (text @ take (if ncspn < ndest then ncspn else ndest) s, dest))"

definition cat_datatype :: "nat \<Rightarrow> string \<Rightarrow> bool \<Rightarrow> buffer \<Rightarrow> buffer" where
  "cat_datatype cap datatype optvalue b =
     (if optvalue then arg_cat cap '']'' (arg_cat cap datatype (arg_cat cap ''['' b)) else arg_cat cap datatype b)"

text \<open>The first character of a string, the terminator if it is empty.\<close>

definition char0 :: "string \<Rightarrow> char" where
  "char0 s = (case s of [] \<Rightarrow> CHR 0x00 | c # cs \<Rightarrow> c)"

definition arg_cat_option :: "nat \<Rightarrow> string option \<Rightarrow> string option \<Rightarrow> string option \<Rightarrow> bool \<Rightarrow> string \<Rightarrow> string" where
  "arg_cat_option cap short long datatype optvalue text = fst (case (short, long) of
      (Some so, _) \<Rightarrow>
        let b = arg_cat cap (until_nul [CHR ''-'', char0 so]) (text, 0) in
        (case datatype of None \<Rightarrow> b | Some dt \<Rightarrow> cat_datatype cap dt optvalue (arg_cat cap '' '' b))
    | (None, Some lo) \<Rightarrow>
        let b = strncat_name cap lo (arg_cat cap ''--'' (text, 0)) in
        (case datatype of None \<Rightarrow> b | Some dt \<Rightarrow> cat_datatype cap dt optvalue (arg_cat cap ''='' b))
    | (None, None) \<Rightarrow> (case datatype of None \<Rightarrow> (text, 0) | Some dt \<Rightarrow> cat_datatype cap dt optvalue (text, 0)))"

primrec cat_shortopts :: "nat \<Rightarrow> string \<Rightarrow> string \<Rightarrow> buffer \<Rightarrow> buffer" where
  "cat_shortopts cap separator [] b = b"
| "cat_shortopts cap separator (c # cs) b =
     (let b = arg_cat cap [CHR ''-'', c] b in cat_shortopts cap separator cs (if cs \<noteq> [] then arg_cat cap separator b else b))"

function cat_longopts :: "nat \<Rightarrow> string \<Rightarrow> string \<Rightarrow> buffer \<Rightarrow> buffer" where
  "cat_longopts cap separator c b = (if c = '''' then b else
     (let b = strncat_name cap c (arg_cat cap ''--'' b); c = dropWhile (\<lambda>x. x \<noteq> CHR '','') c in
      if c \<noteq> '''' then cat_longopts cap separator (tl c) (arg_cat cap separator b) else cat_longopts cap separator c b))"
  by auto
termination
proof (relation "measure (\<lambda>(cap, separator, c, b). length c)", goal_cases)
  case (2 cap separator c b x xa)
  then have "length xa \<le> length c" "0 < length xa" using length_dropWhile_le by auto
  then have "length (tl xa) < length c" unfolding length_tl by linarith
  then show ?case by simp
next
  case (3 cap separator c b x xa)
  then show ?case by (cases c) simp_all
qed simp

declare cat_longopts.simps [simp del]

definition arg_cat_optionv :: "nat \<Rightarrow> string option \<Rightarrow> string option \<Rightarrow> string option \<Rightarrow> bool \<Rightarrow> string option \<Rightarrow> string \<Rightarrow> string" where
  "arg_cat_optionv cap short long datatype optvalue separator text = fst (
     let separator = (case separator of None \<Rightarrow> '''' | Some s \<Rightarrow> s);
         b = (text, 0);
         b = (case short of None \<Rightarrow> b | Some so \<Rightarrow> cat_shortopts cap separator so b);
         b = (if short \<noteq> None \<and> long \<noteq> None then arg_cat cap separator b else b);
         b = (case long of None \<Rightarrow> b | Some lo \<Rightarrow> cat_longopts cap separator lo b)
     in case datatype of
        None \<Rightarrow> b
      | Some dt \<Rightarrow> cat_datatype cap dt optvalue
          (if long \<noteq> None then arg_cat cap ''='' b else if short \<noteq> None then arg_cat cap '' '' b else b))"

text \<open>The buffers \<open>syntax\<close> of the callers have 200 bytes, and they pass one less.\<close>

definition syntax_size :: nat where "syntax_size = 200"

definition arg_print_option_ds :: "string option \<Rightarrow> string option \<Rightarrow> string option \<Rightarrow> string option \<Rightarrow> string" where
  "arg_print_option_ds short long datatype suffix =
     arg_cat_optionv (syntax_size - 1) short long datatype False (Some ''|'') '''' @ (case suffix of None \<Rightarrow> '''' | Some s \<Rightarrow> s)"

section \<open>The syntax of a table\<close>

text \<open>The switches without values; \<open>format1\<close> and \<open>format2\<close> are given by what precedes \<open>%c\<close>.\<close>

primrec gnu_mandatory :: "arg_hdr list \<Rightarrow> string \<Rightarrow> string \<Rightarrow> string \<times> string" where
  "gnu_mandatory [] format1 format2 = ('''', format2)"
| "gnu_mandatory (h # hs) format1 format2 =
     (if mincount h < 1 \<or> shortopts h = None \<or> has_value h then gnu_mandatory hs format1 format2
      else apfst (\<lambda>t. until_nul (format1 @ [char0 (the (shortopts h))]) @ t) (gnu_mandatory hs '''' ''[''))"

primrec gnu_optional :: "arg_hdr list \<Rightarrow> string \<Rightarrow> string \<Rightarrow> string" where
  "gnu_optional [] format2 suffix = suffix"
| "gnu_optional (h # hs) format2 suffix =
     (if mincount h > 0 \<or> shortopts h = None \<or> has_value h then gnu_optional hs format2 suffix
      else until_nul (format2 @ [char0 (the (shortopts h))]) @ gnu_optional hs '''' '']'')"

definition arg_print_gnuswitch_ds :: "arg_entry list \<Rightarrow> string" where
  "arg_print_gnuswitch_ds table =
     (let hs = map hdr_of (entries table) in
      case gnu_mandatory hs '' -'' '' [-'' of (t, format2) \<Rightarrow> t @ gnu_optional hs format2 '''')"

text \<open>An option as often as it must appear, and in brackets as often as it may.\<close>

definition instances :: "arg_hdr \<Rightarrow> string \<Rightarrow> string" where
  "instances h syntax = concat (replicate (mincount h) ('' '' @ syntax)) @
     (if maxcount h = mincount h then ''''
      else if maxcount h = mincount h + 1 then '' ['' @ syntax @ '']''
      else if maxcount h = mincount h + 2 then '' ['' @ syntax @ ''] ['' @ syntax @ '']''
      else '' ['' @ syntax @ '']...'')"

definition arg_print_syntax_ds :: "arg_entry list \<Rightarrow> string option \<Rightarrow> string" where
  "arg_print_syntax_ds table suffix =
     arg_print_gnuswitch_ds table @
     concat (map (\<lambda>e. let h = hdr_of e in
       if shortopts h \<noteq> None \<and> \<not> has_value h then ''''
       else let syntax = arg_cat_option (syntax_size - 1) (shortopts h) (longopts h) (datatype_text h) (has_opt_value h) '''' in
         if length syntax > 0 then instances h syntax else '''') (entries table)) @
     (case suffix of None \<Rightarrow> '''' | Some s \<Rightarrow> s)"

definition arg_print_syntaxv_ds :: "arg_entry list \<Rightarrow> string option \<Rightarrow> string" where
  "arg_print_syntaxv_ds table suffix =
     concat (map (\<lambda>e. let h = hdr_of e in
       instances h (arg_cat_optionv (syntax_size - 1) (shortopts h) (longopts h) (datatype_text h) (has_opt_value h) (Some ''|'') '''')) (entries table)) @
     (case suffix of None \<Rightarrow> '''' | Some s \<Rightarrow> s)"

text \<open>The format has two strings; this is the one of the tool and the default.\<close>

definition column_format :: "nat \<Rightarrow> string \<Rightarrow> string \<Rightarrow> string" where
  "column_format n s1 s2 = ''  '' @ pad n s1 @ '' '' @ s2 @ newline"

definition arg_print_glossary_ds :: "arg_entry list \<Rightarrow> (string \<Rightarrow> string \<Rightarrow> string) option \<Rightarrow> string" where
  "arg_print_glossary_ds table format =
     concat (map (\<lambda>e. let h = hdr_of e in case glossary h of
         None \<Rightarrow> ''''
       | Some g \<Rightarrow> (case format of None \<Rightarrow> column_format 20 | Some f \<Rightarrow> f)
           (arg_cat_optionv (syntax_size - 1) (shortopts h) (longopts h) (datatype_text h) (has_opt_value h) (Some '', '') '''') g)
       (entries table))"

section \<open>Errors\<close>

definition quoted :: "string \<Rightarrow> string" where
  "quoted s = [CHR 0x22] @ s @ [CHR 0x22]"

definition or_empty :: "string option \<Rightarrow> string" where
  "or_empty s = (case s of None \<Rightarrow> '''' | Some s \<Rightarrow> s)"

definition arg_lit_errorfn :: "arg_hdr \<Rightarrow> int \<Rightarrow> string option \<Rightarrow> string \<Rightarrow> string" where
  "arg_lit_errorfn h errorcode argval progname =
     (if errorcode = ARG_ERR_MINCOUNT then
        progname @ '': missing option '' @ arg_print_option_ds (shortopts h) (longopts h) (datatype_text h) (Some newline) @ newline
      else if errorcode = ARG_ERR_MAXCOUNT then
        progname @ '': extraneous option '' @ arg_print_option_ds (shortopts h) (longopts h) (datatype_text h) (Some newline)
      else '''')"

definition arg_str_errorfn :: "arg_hdr \<Rightarrow> int \<Rightarrow> string option \<Rightarrow> string \<Rightarrow> string" where
  "arg_str_errorfn h errorcode argval progname = progname @ '': '' @
     (if errorcode = ARG_ERR_MINCOUNT then
        ''missing option '' @ arg_print_option_ds (shortopts h) (longopts h) (datatype_text h) (Some newline)
      else if errorcode = ARG_ERR_MAXCOUNT then
        ''excess option '' @ arg_print_option_ds (shortopts h) (longopts h) (Some (or_empty argval)) (Some newline)
      else '''')"

text \<open>A code that is none of the five is the character of an option.\<close>

definition arg_end_errorfn :: "int \<Rightarrow> string option \<Rightarrow> string option \<Rightarrow> string" where
  "arg_end_errorfn errorcode argval progname = or_empty progname @ '': '' @
     (if errorcode = ARG_ELIMIT then ''too many errors to display''
      else if errorcode = ARG_EMALLOC then ''insufficient memory''
      else if errorcode = ARG_ENOMATCH then ''unexpected argument '' @ quoted (or_empty argval)
      else if errorcode = ARG_EMISSARG then ''option '' @ quoted (or_empty argval) @ '' requires an argument''
      else if errorcode = ARG_ELONGOPT then ''invalid option '' @ quoted (or_empty argval)
      else until_nul (''invalid option '' @ quoted [CHR ''-'', char_of (nat (errorcode mod 256))])) @ newline"

primrec errorfn :: "arg_entry \<Rightarrow> int \<Rightarrow> string option \<Rightarrow> string \<Rightarrow> string" where
  "errorfn (Arg_lit h n) errorcode argval progname = arg_lit_errorfn h errorcode argval progname"
| "errorfn (Arg_str h n sval) errorcode argval progname = arg_str_errorfn h errorcode argval progname"
| "errorfn (Arg_rem h) errorcode argval progname = ''''"
| "errorfn (Arg_end h es) errorcode argval progname = arg_end_errorfn errorcode argval (Some progname)"

text \<open>The errors of the terminator; each is told by the entry it belongs to.\<close>

definition arg_print_errors_ds :: "arg_entry list \<Rightarrow> arg_error list \<Rightarrow> string \<Rightarrow> string" where
  "arg_print_errors_ds table es progname =
     concat (map (\<lambda>e. errorfn (table ! err_parent e) (err_code e) (err_argval e) progname) es)"

section \<open>Wrapped text\<close>

definition is_newline :: "char \<Rightarrow> bool" where
  "is_newline c \<longleftrightarrow> of_char c = (10 :: nat)"

text \<open>\<open>*(text + i)\<close>, with the terminator.\<close>

definition text_at :: "string \<Rightarrow> nat \<Rightarrow> char" where
  "text_at s i = (if i < length s then s ! i else CHR 0x00)"

text \<open>\<open>while ((line_end > line_start) && ...) line_end--\<close>\<close>

primrec back_while :: "(nat \<Rightarrow> bool) \<Rightarrow> nat \<Rightarrow> nat \<Rightarrow> nat" where
  "back_while P line_start 0 = 0"
| "back_while P line_start (Suc e) = (if Suc e > line_start \<and> P (Suc e) then back_while P line_start e else Suc e)"

definition skip_spaces :: "string \<Rightarrow> nat \<Rightarrow> nat" where
  "skip_spaces s line_start = line_start + length (takeWhile (\<lambda>c. isspace c \<and> \<not> is_newline c) (drop line_start s))"

definition wrap_line :: "nat \<Rightarrow> string \<Rightarrow> nat \<Rightarrow> nat \<Rightarrow> nat" where
  "wrap_line colwidth s line_start line_end =
     (if line_end - line_start > colwidth then
        let e = back_while (\<lambda>i. \<not> isspace (text_at s i)) line_start (line_start + colwidth) in
        if e = line_start then line_start + colwidth
        else back_while (\<lambda>i. isspace (text_at s i) \<and> \<not> is_newline (text_at s line_start)) line_start e + 1
      else line_end)"

text \<open>The characters of the line that are put out, and the next \<open>line_start\<close>.\<close>

definition output_line :: "string \<Rightarrow> nat \<Rightarrow> nat \<Rightarrow> string \<times> nat" where
  "output_line s line_start line_end =
     (let seg = take (line_end - line_start) (drop line_start s); out = takeWhile (\<lambda>c. \<not> is_newline c) seg in
      (out, if length out < length seg then line_start + length out + 1 else line_end))"

primrec formatted_lines :: "nat \<Rightarrow> nat \<Rightarrow> nat \<Rightarrow> string \<Rightarrow> nat \<Rightarrow> nat \<Rightarrow> string option" where
  "formatted_lines 0 lmargin colwidth s line_start line_end = None"
| "formatted_lines (Suc n) lmargin colwidth s line_start line_end =
     (if line_end > line_start then
        let line_start = skip_spaces s line_start;
            line_end = wrap_line colwidth s line_start line_end;
            (out, line_start) = output_line s line_start line_end
        in if line_end < length s then
             map_option (\<lambda>t. out @ newline @ replicate lmargin CHR '' '' @ t) (formatted_lines n lmargin colwidth s line_start (length s))
           else map_option (\<lambda>t. out @ newline @ t) (formatted_lines n lmargin colwidth s line_start line_end)
      else Some '''')"

text \<open>A text has fewer than \<open>UINT_MAX\<close> characters, so that the indices do not wrap around. Every line takes a character at least.\<close>

definition arg_print_formatted_ds :: "u32 \<Rightarrow> u32 \<Rightarrow> string \<Rightarrow> string option" where
  "arg_print_formatted_ds lmargin rmargin s =
     formatted_lines (length s + 1) (unat lmargin) (unat (rmargin - lmargin + 1)) s 0 (length s)"

text \<open>Lines that are too long for the first column go on in a line of their own.\<close>

definition gnu_line :: "arg_hdr \<Rightarrow> string \<Rightarrow> string option" where
  "gnu_line h g =
     (let indent = (if shortopts h = None \<and> longopts h \<noteq> None then replicate 4 CHR '' '' else '''');
          syntax = arg_cat_optionv (syntax_size - 1) (shortopts h) (longopts h) (datatype_text h) (has_opt_value h) (Some '', '') indent;
          long = (if length syntax > 25 then ''  '' @ pad 25 syntax @ '' '' @ newline else '''');
          syntax = (if length syntax > 25 then '''' else syntax)
      in map_option (\<lambda>t. long @ ''  '' @ pad 25 syntax @ '' '' @ t) (arg_print_formatted_ds 28 79 g))"

text \<open>Nothing, if one of the texts would not come to an end.\<close>

definition arg_print_glossary_gnu_ds :: "arg_entry list \<Rightarrow> string option" where
  "arg_print_glossary_gnu_ds table =
     (case those (map (\<lambda>e. case glossary (hdr_of e) of None \<Rightarrow> Some '''' | Some g \<Rightarrow> gnu_line (hdr_of e) g) (entries table)) of
        None \<Rightarrow> None | Some ls \<Rightarrow> Some (concat ls @ newline))"

end
