(* ===== verification/ArgCmd.thy ===== *)
theory ArgCmd
  imports ArgHashtableProps ArgPrint
begin

text \<open>
  The subcommands of the command line tool: \<open>arg_cmd\<close> of \<^verbatim>\<open>cli/lib/argtable/argtable3.c\<close>, over the hash table. A C string is
  the list of its characters before the terminator, an argument vector a list of strings. A handler is one of the three
  functions the tool registers. The dynamic string \<open>res\<close> that handlers write to is the text it holds.
\<close>

section \<open>The state of the tool\<close>

datatype cmd_handler = help_handler | store_handler | switch_handler

record arg_cmd_info =
  info_name :: string
  info_description :: string
  info_proc :: cmd_handler
  info_ctx :: u64

record 'w cli =
  s_hashtable :: "(string, arg_cmd_info) arg_hashtable option"
  s_module_name :: "string option"
  s_mod_ver :: "string option"
  res :: string
  stdout :: string
  statics :: getopt
  world :: 'w

definition ARG_CMD_NAME_LEN :: nat where "ARG_CMD_NAME_LEN = 100"
definition ARG_CMD_DESCRIPTION_LEN :: nat where "ARG_CMD_DESCRIPTION_LEN = 256"

text \<open>Text added to \<open>res\<close>, what \<open>arg_dstr_cat\<close> and \<open>arg_dstr_catf\<close> do to the text of a dynamic string.\<close>

definition add_to_res :: "string \<Rightarrow> ('w cli, unit) cfun" where
  "add_to_res s = modify (\<lambda>c. c\<lparr>res := res c @ s\<rparr>)"

section \<open>Keys\<close>

text \<open>A \<open>char\<close> is signed on the machines the tool is built for.\<close>

definition char_value :: "char \<Rightarrow> u32" where
  "char_value c = scast (of_char c :: u8)"

definition hash_key :: "string \<Rightarrow> u32" where
  "hash_key str = fold (\<lambda>c hash. (push_bit 5 hash + hash) + char_value c) str 5381"

definition equal_keys :: "string \<Rightarrow> string \<Rightarrow> bool" where
  "equal_keys key1 key2 \<longleftrightarrow> key1 = key2"

section \<open>The operations\<close>

definition arg_cmd_init :: "('w cli, unit) cfun" where
  "arg_cmd_init = modify (\<lambda>c. c\<lparr>s_hashtable := arg_hashtable_create 32 hash_key equal_keys\<rparr>)"

text \<open>The table behind the pointer; a null pointer must not be dereferenced. After \<open>arg_cmd_uninit\<close> it dangles.\<close>

definition the_hashtable :: "('w cli, (string, arg_cmd_info) arg_hashtable) cfun" where
  "the_hashtable = bind (gets s_hashtable) (\<lambda>t. case t of None \<Rightarrow> faults Undefined_Behaviour | Some h \<Rightarrow> ret h)"

definition arg_cmd_uninit :: "('w cli, unit) cfun" where
  "arg_cmd_uninit = bind the_hashtable (\<lambda>h. modify (\<lambda>c. c\<lparr>s_hashtable := None\<rparr>))"

definition arg_cmd_info :: "string \<Rightarrow> ('w cli, arg_cmd_info option) cfun" where
  "arg_cmd_info name = bind the_hashtable (\<lambda>h. ret (arg_hashtable_search h name))"

definition arg_cmd_register :: "string \<Rightarrow> cmd_handler \<Rightarrow> string \<Rightarrow> u64 \<Rightarrow> ('w cli, unit) cfun" where
  "arg_cmd_register name proc description ctx =
     seq (defined_if (length name < ARG_CMD_NAME_LEN))
    (seq (defined_if (length description < ARG_CMD_DESCRIPTION_LEN))
    (bind the_hashtable (\<lambda>h.
     let h1 = (if arg_hashtable_search h name = None then h else arg_hashtable_remove h name);
         cmd_info = \<lparr>info_name = name, info_description = description, info_proc = proc, info_ctx = ctx\<rparr>
     in modify (\<lambda>c. c\<lparr>s_hashtable := Some (arg_hashtable_insert h1 name cmd_info)\<rparr>))))"

definition arg_cmd_unregister :: "string \<Rightarrow> ('w cli, unit) cfun" where
  "arg_cmd_unregister name = bind the_hashtable (\<lambda>h. modify (\<lambda>c. c\<lparr>s_hashtable := Some (arg_hashtable_remove h name)\<rparr>))"

definition arg_cmd_count :: "('w cli, u32) cfun" where
  "arg_cmd_count = bind the_hashtable (\<lambda>h. ret (arg_hashtable_count h))"

text \<open>
  The iterator over the subcommands; the table an iterator points to is the one of the module. The key and the value of an iterator without an entry are
  read through a null pointer.
\<close>

definition arg_cmd_itr_create :: "('w cli, arg_hashtable_itr) cfun" where
  "arg_cmd_itr_create = bind the_hashtable (\<lambda>h. ret (arg_hashtable_itr_create h))"

definition arg_cmd_itr_advance :: "arg_hashtable_itr \<Rightarrow> ('w cli, bool \<times> arg_hashtable_itr) cfun" where
  "arg_cmd_itr_advance itr = bind the_hashtable (\<lambda>h. ret (arg_hashtable_itr_advance h itr))"

definition arg_cmd_itr_key :: "arg_hashtable_itr \<Rightarrow> ('w cli, string) cfun" where
  "arg_cmd_itr_key itr = bind the_hashtable (\<lambda>h. case arg_hashtable_itr_key h itr of None \<Rightarrow> faults Undefined_Behaviour | Some k \<Rightarrow> ret k)"

definition arg_cmd_itr_value :: "arg_hashtable_itr \<Rightarrow> ('w cli, arg_cmd_info) cfun" where
  "arg_cmd_itr_value itr = bind the_hashtable (\<lambda>h. case arg_hashtable_itr_value h itr of None \<Rightarrow> faults Undefined_Behaviour | Some v \<Rightarrow> ret v)"

definition arg_cmd_itr_search :: "arg_hashtable_itr \<Rightarrow> string \<Rightarrow> ('w cli, bool \<times> arg_hashtable_itr) cfun" where
  "arg_cmd_itr_search itr k = bind the_hashtable (\<lambda>h. ret (arg_hashtable_itr_search itr h k))"

text \<open>What the functions do on a table that is set up.\<close>

lemma arg_cmd_itr_run:
  assumes "s_hashtable c = Some h"
  shows "arg_cmd_itr_create c = Returns (arg_hashtable_itr_create h) c"
    and "arg_cmd_itr_advance itr c = Returns (arg_hashtable_itr_advance h itr) c"
    and "arg_cmd_itr_search itr k c = Returns (arg_hashtable_itr_search itr h k) c"
    and "arg_hashtable_itr_value h itr = Some v \<Longrightarrow> arg_cmd_itr_value itr c = Returns v c"
    and "arg_hashtable_itr_key h itr = Some k \<Longrightarrow> arg_cmd_itr_key itr c = Returns k c"
  using assms
  by (simp_all add: arg_cmd_itr_create_def arg_cmd_itr_advance_def arg_cmd_itr_search_def arg_cmd_itr_value_def arg_cmd_itr_key_def
      the_hashtable_def bind_def gets_def ret_def)

text \<open>\<open>call proc ctx\<close> is the call of a handler, with the arguments of the dispatch. The \<open>assert\<close> ends the program.\<close>

definition arg_cmd_dispatch :: "(cmd_handler \<Rightarrow> u64 \<Rightarrow> ('w cli, u32) cfun) \<Rightarrow> string \<Rightarrow> ('w cli, u32) cfun" where
  "arg_cmd_dispatch call name =
     bind (arg_cmd_info name) (\<lambda>cmd_info. case cmd_info of
       None \<Rightarrow> faults Undefined_Behaviour
     | Some i \<Rightarrow> call (info_proc i) (info_ctx i))"

section \<open>Messages\<close>

definition arg_set_module_name :: "string \<Rightarrow> ('w cli, unit) cfun" where
  "arg_set_module_name name = modify (\<lambda>c. c\<lparr>s_module_name := Some name\<rparr>)"

text \<open>The decimal numeral of an \<open>int\<close> that is not negative, as \<open>%d\<close> prints it.\<close>

fun numeral_of :: "nat \<Rightarrow> string" where
  "numeral_of n = (if n < 10 then [char_of (48 + n)] else numeral_of (n div 10) @ [char_of (48 + n mod 10)])"

definition arg_set_module_version :: "nat \<Rightarrow> nat \<Rightarrow> nat \<Rightarrow> string \<Rightarrow> ('w cli, unit) cfun" where
  "arg_set_module_version major minor patch tag =
     modify (\<lambda>c. c\<lparr>s_mod_ver := Some (numeral_of major @ ''.'' @ numeral_of minor @ ''.'' @ numeral_of patch @ ''.'' @ tag)\<rparr>)"

definition the_module_name :: "'w cli \<Rightarrow> string" where
  "the_module_name c = (case s_module_name c of None \<Rightarrow> ''<name>'' | Some n \<Rightarrow> if n = [] then ''<name>'' else n)"

definition the_module_version :: "'w cli \<Rightarrow> string" where
  "the_module_version c = (case s_mod_ver c of None \<Rightarrow> ''0.0.0.0'' | Some v \<Rightarrow> if v = [] then ''0.0.0.0'' else v)"

definition arg_make_get_help_msg :: "('w cli, unit) cfun" where
  "arg_make_get_help_msg =
     seq (bind (gets the_module_name) (\<lambda>n. bind (gets the_module_version) (\<lambda>v. add_to_res (n @ '' v'' @ v @ newline))))
         (bind (gets the_module_name) (\<lambda>n. add_to_res (''Please type '' @ [CHR 0x27] @ n @ '' help'' @ [CHR 0x27] @ '' to get more information.'' @ newline)))"

definition arg_make_help_msg :: "string \<Rightarrow> arg_entry list \<Rightarrow> ('w cli, unit) cfun" where
  "arg_make_help_msg cmd_name atable =
     bind (arg_cmd_info cmd_name) (\<lambda>cmd_info.
     seq (case cmd_info of None \<Rightarrow> ret () | Some i \<Rightarrow> add_to_res (cmd_name @ '': '' @ info_description i @ newline))
    (seq (add_to_res (''Usage:'' @ newline))
    (seq (bind (gets the_module_name) (\<lambda>n. add_to_res (''  '' @ n)))
    (seq (add_to_res (arg_print_syntaxv_ds atable (Some (newline @ '' '' @ newline @ ''Available options:'' @ newline))))
    (seq (add_to_res (arg_print_glossary_ds atable (Some (column_format 23))))
         (add_to_res newline))))))"

text \<open>The errors of the terminator \<open>end\<close>.\<close>

definition end_errors :: "arg_entry \<Rightarrow> arg_error list" where
  "end_errors e = (case e of Arg_end h es \<Rightarrow> es | _ \<Rightarrow> [])"

definition arg_make_syntax_err_msg :: "arg_entry list \<Rightarrow> arg_entry \<Rightarrow> ('w cli, unit) cfun" where
  "arg_make_syntax_err_msg atable end_arg =
     seq (bind (gets the_module_name) (\<lambda>n. add_to_res (arg_print_errors_ds atable (end_errors end_arg) n)))
    (seq (add_to_res (''Usage: '' @ newline))
    (seq (bind (gets the_module_name) (\<lambda>n. add_to_res (''  '' @ n)))
    (seq (add_to_res (arg_print_syntaxv_ds atable (Some newline)))
         (add_to_res newline))))"

definition EXIT_SUCCESS :: u32 where "EXIT_SUCCESS = 0"
definition EXIT_FAILURE :: u32 where "EXIT_FAILURE = 1"

text \<open>The result is the exit code to end with, if there is one.\<close>

definition arg_make_syntax_err_help_msg :: "string \<Rightarrow> nat \<Rightarrow> nat \<Rightarrow> arg_entry list \<Rightarrow> arg_entry \<Rightarrow> ('w cli, u32 option) cfun" where
  "arg_make_syntax_err_help_msg name help nerrors atable end_arg =
     (if help > 0 then seq (arg_make_help_msg name atable) (ret (Some EXIT_SUCCESS))
      else if nerrors > 0 then seq (arg_make_syntax_err_msg atable end_arg) (ret (Some EXIT_FAILURE))
      else ret None)"

end
