(* ===== verification/Cli.thy ===== *)
theory Cli
  imports CliOs ArgCmd
begin

text \<open>
  The command line tool (\<^verbatim>\<open>cli/\<close>): the commands to the hook in the firmware (\<^verbatim>\<open>cli/commands.c\<close>), the subcommands \<open>store\<close>,
  \<open>switch\<close> and \<open>help\<close> (\<^verbatim>\<open>cli/commands/\<close>) and \<open>main\<close> (\<^verbatim>\<open>cli/app.c\<close>), over the option parser. \<open>fuel\<close> is for the
  calls of \<open>getopt_long\<close> in a call of \<open>arg_parse\<close>.
\<close>

section \<open>Commands to the firmware\<close>

text \<open>\<open>L"SET_CORE_ACTION"\<close>, and the bytes of a variable of an \<open>enum\<close> type.\<close>

definition SET_CORE_ACTION_name :: "u32 list" where
  "SET_CORE_ACTION_name = map of_char ''SET_CORE_ACTION''"

definition send_uefi_command :: "'w osl \<Rightarrow> u32 list \<Rightarrow> u8 list \<Rightarrow> ('w, unit) cfun" where
  "send_uefi_command Os name data = set_uefi_variable Os EFI_COMMANDS_GUID name data"

section \<open>store and switch\<close>

definition execute_store_op :: "'w osl \<Rightarrow> bool \<Rightarrow> ('w, unit) cfun" where
  "execute_store_op Os is_lazy =
     seq (enable_uefi_privileges Os)
    (seq (enable_sleep_privileges Os)
    (seq (send_uefi_command Os SET_CORE_ACTION_name (le_bytes 4 CORE_ACTION_STORE))
         (if \<not> is_lazy then enter_sleep_s3 Os else ret ())))"

definition execute_switch_op :: "'w osl \<Rightarrow> bool \<Rightarrow> ('w, unit) cfun" where
  "execute_switch_op Os is_lazy =
     seq (enable_uefi_privileges Os)
    (seq (enable_sleep_privileges Os)
    (seq (send_uefi_command Os SET_CORE_ACTION_name (le_bytes 4 CORE_ACTION_SWITCH))
         (if \<not> is_lazy then enter_sleep_s3 Os else ret ())))"

definition on_world :: "('w, 'a) cfun \<Rightarrow> ('w cli, 'a) cfun" where
  "on_world = zoom world (\<lambda>w c. c\<lparr>world := w\<rparr>)"

section \<open>The arguments of the subcommands\<close>

text \<open>
  The result of \<open>arg_parse\<close> is the number of errors and the table. A constructor whose allocation fails ends the program (\<open>xmalloc\<close>),
  so that \<open>arg_nullcheck\<close> finds nothing.
\<close>

definition parse_args :: "nat \<Rightarrow> string list \<Rightarrow> arg_entry list \<Rightarrow> ('w cli, nat \<times> arg_entry list) cfun" where
  "parse_args fuel argv atable = (\<lambda>c. case arg_parse fuel argv \<lparr>argtable = atable, gopt = statics c\<rparr> of
      Returns n s \<Rightarrow> Returns (n, argtable s) (c\<lparr>statics := gopt s\<rparr>)
    | Throws e s \<Rightarrow> Throws e (c\<lparr>statics := gopt s\<rparr>)
    | Faults f \<Rightarrow> Faults f)"

definition op_table :: "string \<Rightarrow> string \<Rightarrow> arg_entry list" where
  "op_table name lazy_text =
     [arg_str1 None None (Some name) None, arg_str0 None None (Some ''<command>'') None,
      arg_lit0 (Some ''h'') (Some ''help'') (Some ''Output usage information''), arg_lit0 None (Some ''lazy'') (Some lazy_text), arg_end 20]"

definition store_lazy_text :: string where
  "store_lazy_text = ''Don'' @ [CHR 0x27] @ ''t immediately enter suspend mode. The store will happen the next time the user enters suspend themselves''"

definition switch_lazy_text :: string where
  "switch_lazy_text = ''Don'' @ [CHR 0x27] @ ''t immediately enter suspend mode. The switch will happen the next time the user enters suspend themselves''"

definition store_table :: "arg_entry list" where
  "store_table = op_table ''store'' store_lazy_text"

definition switch_table :: "arg_entry list" where
  "switch_table = op_table ''switch'' switch_lazy_text"

definition help_table :: "arg_entry list" where
  "help_table =
     [arg_str1 None None (Some ''help'') None, arg_str0 None None (Some ''<command>'') None,
      arg_lit0 (Some ''h'') (Some ''help'') (Some ''Output usage information''), arg_end 20]"

text \<open>\<open>help->count\<close> and \<open>lazy->count\<close>, the strings of \<open>cmd_name\<close>.\<close>

definition lit_count :: "arg_entry \<Rightarrow> nat" where
  "lit_count e = (case e of Arg_lit h n \<Rightarrow> n | _ \<Rightarrow> 0)"

definition str_values :: "arg_entry \<Rightarrow> string list" where
  "str_values e = (case e of Arg_str h n sval \<Rightarrow> take n sval | _ \<Rightarrow> [])"

text \<open>The exit code is initialised to 0.\<close>

definition store_handler_proc :: "'w osl \<Rightarrow> nat \<Rightarrow> string list \<Rightarrow> ('w cli, u32) cfun" where
  "store_handler_proc Os fuel argv =
     bind (parse_args fuel argv store_table) (\<lambda>(nerrors, t).
     bind (arg_make_syntax_err_help_msg ''store'' (lit_count (t ! 2)) nerrors t (t ! 4)) (\<lambda>code. case code of
       Some exitcode \<Rightarrow> ret exitcode
     | None \<Rightarrow> bind (succeeds (on_world (execute_store_op Os (lit_count (t ! 3) > 0)))) (\<lambda>ok. ret (if ok then 0 else EXIT_FAILURE))))"

definition switch_handler_proc :: "'w osl \<Rightarrow> nat \<Rightarrow> string list \<Rightarrow> ('w cli, u32) cfun" where
  "switch_handler_proc Os fuel argv =
     bind (parse_args fuel argv switch_table) (\<lambda>(nerrors, t).
     bind (arg_make_syntax_err_help_msg ''switch'' (lit_count (t ! 2)) nerrors t (t ! 4)) (\<lambda>code. case code of
       Some exitcode \<Rightarrow> ret exitcode
     | None \<Rightarrow> bind (succeeds (on_world (execute_switch_op Os (lit_count (t ! 3) > 0)))) (\<lambda>ok. ret (if ok then 0 else EXIT_FAILURE))))"

section \<open>help\<close>

definition APP_NAME :: string where "APP_NAME = ''switch-os-cli''"

text \<open>The loop over the subcommands. The value of an iterator without an entry is read through a null pointer.\<close>

primrec list_commands_from :: "nat \<Rightarrow> (string, arg_cmd_info) arg_hashtable \<Rightarrow> arg_hashtable_itr \<Rightarrow> ('w cli, unit) cfun" where
  "list_commands_from 0 h itr = faults Out_Of_Fuel"
| "list_commands_from (Suc n) h itr = (case arg_hashtable_itr_value h itr of
      None \<Rightarrow> faults Undefined_Behaviour
    | Some cmd_info \<Rightarrow>
        seq (add_to_res (''  '' @ pad 23 (info_name cmd_info) @ ''  '' @ info_description cmd_info @ newline))
            (case arg_hashtable_itr_advance h itr of (go, itr') \<Rightarrow> if go then list_commands_from n h itr' else ret ()))"

definition help_list_commands :: "('w cli, unit) cfun" where
  "help_list_commands =
     seq (add_to_res (''Usage:'' @ newline))
    (seq (add_to_res (''  '' @ APP_NAME @ '' <command> [options] [args]'' @ newline @ newline))
    (seq (add_to_res (''Available commands:'' @ newline))
    (bind the_hashtable (\<lambda>h.
     list_commands_from (Suc (unat (arg_hashtable_count h))) h (arg_hashtable_itr_create h)))))"

text \<open>
  A handler called by \<open>help_command\<close> may be \<open>help\<close> again, with \<open>--help\<close>; the calls are given a depth.
\<close>

fun run_handler :: "nat \<Rightarrow> 'w osl \<Rightarrow> nat \<Rightarrow> cmd_handler \<Rightarrow> string list \<Rightarrow> ('w cli, u32) cfun" where
  "run_handler 0 Os fuel p argv = faults Out_Of_Fuel"
| "run_handler (Suc n) Os fuel store_handler argv = store_handler_proc Os fuel argv"
| "run_handler (Suc n) Os fuel switch_handler argv = switch_handler_proc Os fuel argv"
| "run_handler (Suc n) Os fuel help_handler argv =
     bind (parse_args fuel argv help_table) (\<lambda>(nerrors, t).
     bind (arg_make_syntax_err_help_msg ''help'' (lit_count (t ! 2)) nerrors t (t ! 3)) (\<lambda>code. case code of
       Some exitcode \<Rightarrow> ret exitcode
     | None \<Rightarrow> (case str_values (t ! 1) of
         [] \<Rightarrow> seq help_list_commands (ret 0)
       | cmd_name # _ \<Rightarrow>
           bind (arg_cmd_info cmd_name) (\<lambda>info. case info of
             None \<Rightarrow> seq (add_to_res (''Unknown command: '' @ cmd_name @ newline)) (seq arg_make_get_help_msg (ret EXIT_FAILURE))
           | Some cmd_info \<Rightarrow> run_handler n Os fuel (info_proc cmd_info) [APP_NAME, info_name cmd_info, ''--help'']))))"

section \<open>main\<close>

record cmd =
  cmd_name :: string
  cmd_description :: string
  cmd_proc :: cmd_handler

definition g_help_cmd :: cmd where
  "g_help_cmd = \<lparr>cmd_name = ''help'', cmd_description = ''Output usage information'', cmd_proc = help_handler\<rparr>"

definition g_store_cmd :: cmd where
  "g_store_cmd = \<lparr>cmd_name = ''store'',
     cmd_description = ''Store the current state of the OS to the disk. This command immediately enters sleep (S3) unless the --lazy flag is passed.'',
     cmd_proc = store_handler\<rparr>"

definition g_switch_cmd :: cmd where
  "g_switch_cmd = \<lparr>cmd_name = ''switch'',
     cmd_description = ''Switch the current state of the OS with the one stored to the disk. This command immediately enters sleep (S3) unless the --lazy flag is passed.'',
     cmd_proc = switch_handler\<rparr>"

definition register_cmd :: "cmd \<Rightarrow> u64 \<Rightarrow> ('w cli, unit) cfun" where
  "register_cmd c ctx = arg_cmd_register (cmd_name c) (cmd_proc c) (cmd_description c) ctx"

definition print_res :: "('w cli, unit) cfun" where
  "print_res = modify (\<lambda>c. c\<lparr>stdout := stdout c @ res c\<rparr>)"

text \<open>
  \<open>argc\<close> is the length of \<open>argv\<close>. Without any argument string \<open>argv[1]\<close> lies behind the vector's null pointer. A program that is
  run with depth 2 calls at most one handler from another.
\<close>

definition cli_main :: "'w osl \<Rightarrow> nat \<Rightarrow> string list \<Rightarrow> ('w cli, u32) cfun" where
  "cli_main Os fuel argv =
     seq (arg_set_module_name APP_NAME)
    (seq (arg_set_module_version 1 0 0 '''')
    (seq arg_cmd_init
    (seq (register_cmd g_help_cmd 0)
    (seq (register_cmd g_store_cmd 0)
    (seq (register_cmd g_switch_cmd 0)
    (seq (modify (\<lambda>c. c\<lparr>res := ''''\<rparr>))
    (seq (defined_if (length argv \<noteq> 0))
    (bind (if length argv = 1 then ret None else arg_cmd_info (argv ! 1)) (\<lambda>info.
     bind (if info = None then seq arg_make_get_help_msg (seq print_res (ret EXIT_SUCCESS))
           else bind (arg_cmd_dispatch (\<lambda>p ctx. run_handler 2 Os fuel p argv) (argv ! 1)) (\<lambda>exitcode.
             seq print_res (ret exitcode))) (\<lambda>exitcode.
     seq (modify (\<lambda>c. c\<lparr>res := ''''\<rparr>))
    (seq arg_cmd_uninit
         (ret exitcode))))))))))))"

end
