(* ===== verification/GetOptProps.thy ===== *)
theory GetOptProps
  imports GetOpt "HOL-Library.Multiset"
begin

text \<open>
  \<open>getopt_long\<close>: \<open>permute_args\<close>, whose cycles are those of a rotation, exchanges two blocks of arguments.
\<close>

section \<open>Rotation by cycles\<close>

lemma gcd_loop_gcd: "0 < b \<Longrightarrow> gcd_loop a b = gcd a b"
proof (induction a b rule: gcd_loop.induct)
  case (1 a b)
  show ?case
  proof (cases "a mod b = 0")
    case True
    then have "b dvd a" by auto
    with True show ?thesis by simp
  next
    case False
    with 1 have "gcd_loop b (a mod b) = gcd b (a mod b)" by simp
    with False 1(2) show ?thesis by (simp add: gcd_red_nat [of a b])
  qed
qed

declare gcd_loop.simps [simp del]

definition next_pos :: "nat \<Rightarrow> nat \<Rightarrow> nat \<Rightarrow> nat \<Rightarrow> nat" where
  "next_pos e m n p = (if p \<ge> e then p - m else p + n)"

definition swap_at :: "nat \<Rightarrow> nat \<Rightarrow> 'a list \<Rightarrow> 'a list" where
  "swap_at q c v = v[q := v ! c, c := v ! q]"

text \<open>The last swap of a cycle.\<close>

lemma permute_cycle_snoc:
  "permute_cycle (Suc j) e m n c p v = swap_at ((next_pos e m n ^^ Suc j) p) c (permute_cycle j e m n c p v)"
proof (induction j arbitrary: p v)
  case 0
  show ?case by (simp add: next_pos_def swap_at_def Let_def)
next
  case (Suc j)
  have "permute_cycle (Suc (Suc j)) e m n c p v = permute_cycle (Suc j) e m n c (next_pos e m n p) (swap_at (next_pos e m n p) c v)"
    by (simp add: next_pos_def swap_at_def Let_def)
  also have "\<dots> = swap_at ((next_pos e m n ^^ Suc j) (next_pos e m n p)) c (permute_cycle j e m n c (next_pos e m n p) (swap_at (next_pos e m n p) c v))"
    by (rule Suc.IH)
  also have "permute_cycle j e m n c (next_pos e m n p) (swap_at (next_pos e m n p) c v) = permute_cycle (Suc j) e m n c p v"
    by (simp add: next_pos_def swap_at_def Let_def)
  finally show ?case by (simp add: funpow_swap1)
qed

lemma length_permute_cycle [simp]: "length (permute_cycle j e m n c p v) = length v"
  by (induction j arbitrary: p v) (auto simp: Let_def)

text \<open>A position relative to the first block, of \<open>m\<close> arguments, that the second, of \<open>n\<close>, follows.\<close>

lemma next_pos_rotates:
  assumes "p < m + n"
  shows "next_pos (s + m) m n (s + p) = s + (p + n) mod (m + n)"
  using assms by (auto simp: next_pos_def mod_if)

lemma next_pos_funpow:
  assumes "p < m + n"
  shows "(next_pos (s + m) m n ^^ k) (s + p) = s + (p + k * n) mod (m + n)"
proof (induction k)
  case (Suc k)
  have "(p + k * n) mod (m + n) < m + n" using assms by (intro mod_less_divisor) linarith
  then have "next_pos (s + m) m n (s + (p + k * n) mod (m + n)) = s + ((p + k * n) mod (m + n) + n) mod (m + n)"
    by (rule next_pos_rotates)
  also have "((p + k * n) mod (m + n) + n) mod (m + n) = (p + Suc k * n) mod (m + n)" by (simp add: mod_simps ac_simps)
  finally show ?case using Suc by simp
qed (use assms in simp)

text \<open>The positions of a cycle are different.\<close>

lemma orbit_distinct:
  fixes m n p j k :: nat
  assumes "0 < n" and "j < k" and "k < (m + n) div gcd m n"
  shows "(p + j * n) mod (m + n) \<noteq> (p + k * n) mod (m + n)"
proof
  assume eq: "(p + j * n) mod (m + n) = (p + k * n) mod (m + n)"
  let ?g = "gcd m n"
  have g: "0 < ?g" using assms(1) by (simp add: gcd_pos_nat)
  obtain n' where n': "n = n' * ?g" by (metis dvd_div_mult_self gcd_dvd2)
  obtain m' where m': "m = m' * ?g" by (metis dvd_div_mult_self gcd_dvd1)
  have "m' = m div ?g" "n' = n div ?g" using g m' n' by (metis nonzero_mult_div_cancel_right less_numeral_extra(3))+
  then have "coprime m' n'" using assms(1) by (simp add: div_gcd_coprime)
  then have c: "coprime (m' + n') n'" by (simp add: coprime_iff_gcd_eq_1)
  have "m + n dvd (p + k * n) - (p + j * n)" using mod_eq_dvd_iff_nat [of "p + j * n" "p + k * n" "m + n"] assms(2) eq by simp
  moreover have "(p + k * n) - (p + j * n) = (k - j) * n' * ?g"
  proof -
    have "(p + k * n) - (p + j * n) = (k - j) * n" by (simp add: diff_mult_distrib)
    also have "\<dots> = (k - j) * (n' * ?g)" using n' by (rule arg_cong)
    finally show ?thesis by (simp only: mult.assoc)
  qed
  moreover have "m + n = (m' + n') * ?g" using m' n' by (metis distrib_right)
  ultimately have "(m' + n') * ?g dvd (k - j) * n' * ?g" by metis
  then have "m' + n' dvd (k - j) * n'" using assms(1) by auto
  then have "m' + n' dvd k - j" using c by (simp add: coprime_dvd_mult_left_iff)
  moreover have "(m + n) div ?g = m' + n'" using g by (metis distrib_right m' n' nonzero_mult_div_cancel_right less_numeral_extra(3))
  ultimately show False using assms(2,3) by (auto dest: dvd_imp_le)
qed

lemma orbit_class:
  fixes m n i k :: nat
  assumes "i < gcd m n"
  shows "((m + i + k * n) mod (m + n)) mod gcd m n = i"
proof -
  let ?g = "gcd m n"
  have "?g dvd m + n" by simp
  then have "((m + i + k * n) mod (m + n)) mod ?g = (m + i + k * n) mod ?g" by (simp add: mod_mod_cancel)
  also have "\<dots> = i"
  proof -
    have "?g dvd m + k * n" by simp
    then obtain c where "m + k * n = ?g * c" by (rule dvdE)
    then have e: "m + i + k * n = i + ?g * c" by linarith
    have "(i + ?g * c) mod ?g = i" using assms by simp
    with e show ?thesis by (simp only:)
  qed
  finally show ?thesis .
qed

text \<open>Every position of a class is on its cycle.\<close>

lemma orbit_covers:
  fixes m n i p :: nat
  assumes "0 < n" and "p < m + n" and "p mod gcd m n = i"
  shows "\<exists>k < (m + n) div gcd m n. p = (m + i + k * n) mod (m + n)"
proof -
  let ?g = "gcd m n" and ?T = "m + n" and ?o = "\<lambda>k. (m + i + k * n) mod (m + n)"
  let ?C = "{p. p < ?T \<and> p mod ?g = i}"
  have g: "0 < ?g" using assms(1) by (simp add: gcd_pos_nat)
  then have i: "i < ?g" using assms(3) by auto
  have "?C = (\<lambda>q. q * ?g + i) ` {..<?T div ?g}"
  proof (intro set_eqI iffI)
    fix x
    assume x: "x \<in> ?C"
    then have "x = x div ?g * ?g + i" using div_mult_mod_eq [of x ?g] by simp
    moreover have "x div ?g < ?T div ?g"
    proof -
      have "?g dvd ?T" by simp
      then have "?T div ?g * ?g = ?T" by (rule dvd_div_mult_self)
      moreover have "x < ?T" using x by simp
      ultimately have "x < ?T div ?g * ?g" by metis
      then show ?thesis by (rule less_mult_imp_div_less)
    qed
    ultimately show "x \<in> (\<lambda>q. q * ?g + i) ` {..<?T div ?g}" by blast
  next
    fix x
    assume "x \<in> (\<lambda>q. q * ?g + i) ` {..<?T div ?g}"
    then obtain q where q: "q < ?T div ?g" "x = q * ?g + i" by auto
    have "(q + 1) * ?g \<le> ?T div ?g * ?g" using q(1) by (intro mult_le_mono1) simp
    moreover have "?T div ?g * ?g = ?T" by (rule dvd_div_mult_self) simp
    ultimately have "q * ?g + ?g \<le> ?T" by (metis Suc_eq_plus1 add.commute mult_Suc)
    then have "x < ?T" using q(2) i by linarith
    then show "x \<in> ?C" using q(2) i by simp
  qed
  moreover have "inj_on (\<lambda>q. q * ?g + i) {..<?T div ?g}" using g by (auto simp: inj_on_def)
  ultimately have card: "card ?C = ?T div ?g" by (simp add: card_image)
  have "inj_on ?o {..<?T div ?g}"
  proof (rule inj_onI)
    fix j k
    assume "j \<in> {..<?T div ?g}" "k \<in> {..<?T div ?g}" "?o j = ?o k"
    then show "j = k" using orbit_distinct [OF assms(1), of j k m "m + i"] orbit_distinct [OF assms(1), of k j m "m + i"]
      by (metis lessThan_iff linorder_neqE_nat)
  qed
  then have "card (?o ` {..<?T div ?g}) = ?T div ?g" by (simp add: card_image)
  then have le: "card ?C \<le> card (?o ` {..<?T div ?g})" unfolding card by (rule eq_refl [OF sym])
  have sub: "?o ` {..<?T div ?g} \<subseteq> ?C" using orbit_class [OF i] assms(1) by auto
  have "finite ?C" by simp
  from card_seteq [OF this sub le] have "?o ` {..<?T div ?g} = ?C" .
  moreover have "p \<in> ?C" using assms(2,3) by simp
  ultimately have "p \<in> ?o ` {..<?T div ?g}" by blast
  then show ?thesis by blast
qed

text \<open>One cycle moves every argument on it by \<open>n\<close> positions.\<close>

definition cycle_pos :: "nat \<Rightarrow> nat \<Rightarrow> nat \<Rightarrow> nat \<Rightarrow> nat \<Rightarrow> nat" where
  "cycle_pos s m n i k = s + (m + i + k * n) mod (m + n)"

lemma cycle_pos_distinct:
  assumes "0 < n" and "j < (m + n) div gcd m n" and "k < (m + n) div gcd m n" and "j \<noteq> k"
  shows "cycle_pos s m n i j \<noteq> cycle_pos s m n i k"
  using orbit_distinct [OF assms(1) _ assms(3), of j "m + i"] orbit_distinct [OF assms(1) _ assms(2), of k "m + i"] assms(4)
  by (auto simp: cycle_pos_def linorder_neq_iff)

lemma cycle_pos_0: "i < n \<Longrightarrow> cycle_pos s m n i 0 = s + m + i"
  by (simp add: cycle_pos_def)

lemma cycle_pos_end: "i < n \<Longrightarrow> cycle_pos s m n i ((m + n) div gcd m n) = s + m + i"
proof -
  assume i: "i < n"
  have "m + n dvd (m + n) div gcd m n * n"
  proof -
    obtain n' where n': "n = gcd m n * n'" by (metis dvdE gcd_dvd2)
    have "(m + n) div gcd m n * n = (m + n) div gcd m n * (gcd m n * n')" by (rule arg_cong [OF n'])
    also have "\<dots> = (m + n) div gcd m n * gcd m n * n'" by (rule mult.assoc [symmetric])
    also have "(m + n) div gcd m n * gcd m n = m + n" by (rule dvd_div_mult_self) simp
    finally show ?thesis by (rule dvdI)
  qed
  then have "((m + n) div gcd m n * n) mod (m + n) = 0" by simp
  then have "(m + i + (m + n) div gcd m n * n) mod (m + n) = (m + i) mod (m + n)" by (metis add.right_neutral mod_add_right_eq)
  with i show ?thesis by (simp add: cycle_pos_def)
qed

lemma permute_cycle_partial:
  assumes "0 < n" and "s + m + n \<le> length v" and "i < n" and "j < (m + n) div gcd m n"
  shows "permute_cycle j (s + m) m n (s + m + i) (s + m + i) v ! (s + m + i) = v ! cycle_pos s m n i j \<and>
    (\<forall>k<j. permute_cycle j (s + m) m n (s + m + i) (s + m + i) v ! cycle_pos s m n i (Suc k) = v ! cycle_pos s m n i k) \<and>
    (\<forall>x. (\<forall>k\<le>j. x \<noteq> cycle_pos s m n i k) \<longrightarrow> permute_cycle j (s + m) m n (s + m + i) (s + m + i) v ! x = v ! x)"
  using assms(4)
proof (induction j)
  case 0
  show ?case by (simp add: cycle_pos_0 [OF assms(3)])
next
  case (Suc j)
  let ?c = "s + m + i" and ?w = "permute_cycle j (s + m) m n (s + m + i) (s + m + i) v" and ?p = "cycle_pos s m n i"
  have IH: "?w ! ?c = v ! ?p j" "\<And>k. k < j \<Longrightarrow> ?w ! ?p (Suc k) = v ! ?p k" "\<And>x. \<forall>k\<le>j. x \<noteq> ?p k \<Longrightarrow> ?w ! x = v ! x"
    using Suc by auto
  have d: "?p k \<noteq> ?p (Suc j)" if "k \<le> j" for k using cycle_pos_distinct [OF assms(1) _ Suc.prems, of k] Suc.prems that by auto
  have c: "?p 0 = ?c" by (rule cycle_pos_0 [OF assms(3)])
  have in_range: "?p k < length v" for k
  proof -
    have "(m + i + k * n) mod (m + n) < m + n" using assms(1) by (intro mod_less_divisor) simp
    then show ?thesis using assms(2) by (simp add: cycle_pos_def)
  qed
  have c0: "?p (Suc k) \<noteq> ?c" if "k \<le> j" for k
  proof -
    have "Suc k < (m + n) div gcd m n" "0 < (m + n) div gcd m n" using Suc.prems that by linarith+
    from cycle_pos_distinct [OF assms(1) this, of s i] c show ?thesis by simp
  qed
  have cl: "?c < length v" using in_range [of 0] c by simp
  have "m + i < m + n" using assms(3) by simp
  then have pos: "(next_pos (s + m) m n ^^ Suc j) ?c = ?p (Suc j)"
    using next_pos_funpow [where p = "m + i" and m = m and n = n and s = s and k = "Suc j"] by (simp only: cycle_pos_def add.assoc)
  have w: "permute_cycle (Suc j) (s + m) m n ?c ?c v = swap_at (?p (Suc j)) ?c ?w" unfolding permute_cycle_snoc pos ..
  have new: "?w ! ?p (Suc j) = v ! ?p (Suc j)" using d by (intro IH(3)) metis
  have other: "swap_at (?p (Suc j)) ?c ?w ! x = ?w ! x" if "x \<noteq> ?p (Suc j)" "x \<noteq> ?c" for x
    using that by (simp add: swap_at_def)
  show ?case unfolding w
  proof (intro conjI allI impI)
    show "swap_at (?p (Suc j)) ?c ?w ! ?c = v ! ?p (Suc j)" using new in_range cl by (simp add: swap_at_def)
  next
    fix k
    assume k: "k < Suc j"
    show "swap_at (?p (Suc j)) ?c ?w ! ?p (Suc k) = v ! ?p k"
    proof (cases "k = j")
      case True
      then show ?thesis using IH(1) in_range c0 [of j] by (simp add: swap_at_def)
    next
      case False
      with k have "k < j" by simp
      then show ?thesis using IH(2) other d [of "Suc k"] c0 [of k] by simp
    qed
  next
    fix x
    assume x: "\<forall>k\<le>Suc j. x \<noteq> ?p k"
    then have "x \<noteq> ?p (Suc j)" "x \<noteq> ?c" "\<forall>k\<le>j. x \<noteq> ?p k" using c by (auto simp: le_Suc_eq)
    then show "swap_at (?p (Suc j)) ?c ?w ! x = v ! x" using other IH(3) by simp
  qed
qed

lemma permute_cycle_full:
  assumes "0 < n" and "s + m + n \<le> length v" and "i < n"
  shows "(\<forall>k<(m + n) div gcd m n. permute_cycle ((m + n) div gcd m n) (s + m) m n (s + m + i) (s + m + i) v ! cycle_pos s m n i (Suc k) = v ! cycle_pos s m n i k) \<and>
    (\<forall>x. (\<forall>k<(m + n) div gcd m n. x \<noteq> cycle_pos s m n i k) \<longrightarrow> permute_cycle ((m + n) div gcd m n) (s + m) m n (s + m + i) (s + m + i) v ! x = v ! x)"
proof -
  have "0 < (m + n) div gcd m n" using assms(1) by (simp add: div_greater_zero_iff gcd_pos_nat le_add2 order.trans [OF gcd_le2_nat])
  then obtain j where j: "(m + n) div gcd m n = Suc j" using gr0_implies_Suc by blast
  let ?c = "s + m + i" and ?w = "permute_cycle j (s + m) m n (s + m + i) (s + m + i) v" and ?p = "cycle_pos s m n i"
  have "m + i < m + n" using assms(3) by simp
  then have "(next_pos (s + m) m n ^^ Suc j) ?c = ?c"
    using next_pos_funpow [where p = "m + i" and m = m and n = n and s = s and k = "Suc j"] cycle_pos_end [OF assms(3), of s m, unfolded j] by (simp only: cycle_pos_def add.assoc)
  then have w: "permute_cycle (Suc j) (s + m) m n ?c ?c v = ?w" unfolding permute_cycle_snoc by (simp add: swap_at_def)
  have "j < (m + n) div gcd m n" using j by simp
  note part = permute_cycle_partial [OF assms this]
  show ?thesis unfolding j w
  proof (intro conjI allI impI)
    fix k
    assume k: "k < Suc j"
    show "?w ! ?p (Suc k) = v ! ?p k"
    proof (cases "k = j")
      case True
      then show ?thesis using part cycle_pos_end [OF assms(3), of s m, unfolded j] by simp
    next
      case False
      then show ?thesis using part k by simp
    qed
  qed (use part in \<open>auto simp: less_Suc_eq_le\<close>)
qed

text \<open>All cycles together.\<close>

lemma permute_cycles:
  assumes "0 < n" and "s + m + n \<le> length v" and "i \<le> gcd m n"
  defines "w \<equiv> fold (\<lambda>i. permute_cycle ((m + n) div gcd m n) (s + m) m n (s + m + i) (s + m + i)) [0..<i] v"
  shows "length w = length v \<and> (\<forall>p<m + n. p mod gcd m n < i \<longrightarrow> w ! (s + (p + n) mod (m + n)) = v ! (s + p)) \<and>
    (\<forall>p<m + n. i \<le> p mod gcd m n \<longrightarrow> w ! (s + p) = v ! (s + p)) \<and> (\<forall>x. x < s \<or> s + m + n \<le> x \<longrightarrow> w ! x = v ! x)"
  using assms(3) unfolding w_def
proof (induction i)
  case (Suc i)
  let ?L = "(m + n) div gcd m n" and ?p = "cycle_pos s m n i"
  let ?w = "fold (\<lambda>i. permute_cycle ((m + n) div gcd m n) (s + m) m n (s + m + i) (s + m + i)) [0..<i] v"
  let ?w' = "permute_cycle ?L (s + m) m n (s + m + i) (s + m + i) ?w"
  have IH: "length ?w = length v" "\<And>p. p < m + n \<Longrightarrow> p mod gcd m n < i \<Longrightarrow> ?w ! (s + (p + n) mod (m + n)) = v ! (s + p)"
    "\<And>p. p < m + n \<Longrightarrow> i \<le> p mod gcd m n \<Longrightarrow> ?w ! (s + p) = v ! (s + p)" "\<And>x. x < s \<or> s + m + n \<le> x \<Longrightarrow> ?w ! x = v ! x"
    using Suc by auto
  have "gcd m n \<le> n" using assms(1) by (intro dvd_imp_le) simp_all
  then have i: "i < n" "i < gcd m n" using Suc.prems by auto
  have "s + m + n \<le> length ?w" using assms(2) IH(1) by simp
  note rotated = permute_cycle_full [OF assms(1) this i(1)]
  have same_class: "((p + n) mod (m + n)) mod gcd m n = p mod gcd m n" for p
  proof -
    have "gcd m n dvd m + n" by simp
    then have "((p + n) mod (m + n)) mod gcd m n = (p + n) mod gcd m n" by (rule mod_mod_cancel)
    also have "\<dots> = p mod gcd m n" by (metis add.right_neutral dvd_imp_mod_0 gcd_dvd2 mod_add_right_eq)
    finally show ?thesis .
  qed
  have other: "?w' ! (s + q) = ?w ! (s + q)" if "q mod gcd m n \<noteq> i" "q < m + n" for q
  proof -
    have "s + q \<noteq> ?p k" for k using orbit_class [OF i(2), of k] that by (auto simp: cycle_pos_def)
    then show ?thesis using rotated by blast
  qed
  have "?w' ! (s + (p + n) mod (m + n)) = v ! (s + p)" if p: "p < m + n" "p mod gcd m n < Suc i" for p
  proof (cases "p mod gcd m n = i")
    case True
    obtain k where k: "k < ?L" "p = (m + i + k * n) mod (m + n)" using orbit_covers [OF assms(1) p(1) True] by blast
    have "(p + n) mod (m + n) = (m + i + Suc k * n) mod (m + n)" using k(2) by (simp add: mod_simps ac_simps)
    then have "?w' ! (s + (p + n) mod (m + n)) = ?w ! ?p k" using rotated k(1) by (simp add: cycle_pos_def)
    also have "\<dots> = v ! (s + p)" using IH(3) [OF p(1)] True k(2) by (simp add: cycle_pos_def)
    finally show ?thesis .
  next
    case False
    then have less: "p mod gcd m n < i" using p(2) by simp
    have "(p + n) mod (m + n) < m + n" using assms(1) by (intro mod_less_divisor) simp
    then show ?thesis using other [of "(p + n) mod (m + n)"] same_class False IH(2) [OF p(1) less] by simp
  qed
  moreover have "?w' ! (s + p) = v ! (s + p)" if "p < m + n" "Suc i \<le> p mod gcd m n" for p
    using other [of p] that IH(3) [of p] by simp
  moreover have "?w' ! x = v ! x" if x: "x < s \<or> s + m + n \<le> x" for x
  proof -
    have "(m + i + k * n) mod (m + n) < m + n" for k using assms(1) by (intro mod_less_divisor) simp
    then have "x \<noteq> ?p k" for k using x by (auto simp: cycle_pos_def) (metis add.assoc nat_add_left_cancel_less not_less)
    then show ?thesis using rotated IH(4) [OF x] by auto
  qed
  ultimately show ?case using IH(1) by simp
qed simp

text \<open>C25: \<open>permute_args\<close> exchanges the block of non-options with the block of options behind it and keeps the order within both, for any
  sizes of the blocks; all other arguments stay. The cycles of swaps, with their number from \<open>gcd\<close>, are the same as cutting
  the vector.\<close>

theorem permute_args_exchanges:
  assumes "b \<le> e" and "e < opt_end" and "opt_end \<le> length argv"
  shows "permute_args b e opt_end argv = take b argv @ take (opt_end - e) (drop e argv) @ take (e - b) (drop b argv) @ drop opt_end argv"
proof -
  define m n where "m = e - b" and "n = opt_end - e"
  have n: "0 < n" "b + m + n \<le> length argv" "e = b + m" "opt_end = b + m + n" "opt_end - b = m + n" using assms by (auto simp: m_def n_def)
  let ?w = "permute_args b e opt_end argv"
  have fw: "?w = fold (\<lambda>i. permute_cycle ((m + n) div gcd m n) (b + m) m n (b + m + i) (b + m + i)) [0..<gcd m n] argv"
    by (simp only: permute_args_def Let_def m_def [symmetric] n_def [symmetric] gcd_loop_gcd [OF n(1)] n(5)) (simp only: n(3))
  note rotated = permute_cycles [OF n(1,2) order.refl, folded fw]
  have "0 < gcd m n" using n(1) by (simp add: gcd_pos_nat)
  then have "p mod gcd m n < gcd m n" for p by (rule mod_less_divisor)
  with rotated have w: "length ?w = length argv" "\<And>p. p < m + n \<Longrightarrow> ?w ! (b + (p + n) mod (m + n)) = argv ! (b + p)"
    "\<And>x. x < b \<or> b + m + n \<le> x \<Longrightarrow> ?w ! x = argv ! x" by blast+
  show ?thesis
  proof (rule nth_equalityI)
    show "length ?w = length (take b argv @ take (opt_end - e) (drop e argv) @ take (e - b) (drop b argv) @ drop opt_end argv)"
      using w(1) assms by simp
  next
    fix x
    assume "x < length ?w"
    consider "x < b" | "b \<le> x" "x < b + n" | "b + n \<le> x" "x < b + m + n" | "b + m + n \<le> x" by linarith
    then show "?w ! x = (take b argv @ take (opt_end - e) (drop e argv) @ take (e - b) (drop b argv) @ drop opt_end argv) ! x"
    proof cases
      case 2
      then obtain q where q: "x = b + q" "q < n" by (metis le_Suc_ex nat_add_left_cancel_less)
      have "(m + q + n) mod (m + n) = (q + (m + n)) mod (m + n)" by (simp only: ac_simps)
      also have "\<dots> = q" using q(2) by simp
      finally have "?w ! x = argv ! (b + (m + q))" using w(2) [of "m + q"] q by simp
      with q n show ?thesis by (simp add: nth_append ac_simps)
    next
      case 3
      then obtain q where q: "x = b + n + q" "q < m" by (metis add.assoc add.commute le_Suc_ex nat_add_left_cancel_less)
      then have "?w ! x = argv ! (b + q)" using w(2) [of q] by (simp add: ac_simps)
      with q n show ?thesis by (simp add: nth_append ac_simps)
    next
      case 4
      then obtain q where "x = b + m + n + q" by (metis le_Suc_ex)
      then show ?thesis using w(3) n by (simp add: nth_append ac_simps)
    qed (use w(3) n in \<open>simp add: nth_append\<close>)
  qed
qed

theorem permute_args_exchanges_witness:
  "permute_args 1 5 7 [''tool'', ''a'', ''b'', ''c'', ''d'', ''-x'', ''-y'', ''e''] = [''tool'', ''-x'', ''-y'', ''a'', ''b'', ''c'', ''d'', ''e'']"
  using permute_args_exchanges [of 1 5 7 "[''tool'', ''a'', ''b'', ''c'', ''d'', ''-x'', ''-y'', ''e'']"] by simp

end
