(* ===== verification/GetOptSteps.thy ===== *)
theory GetOptSteps
  imports GetOptProps
begin

text \<open>
  A call of \<open>getopt_long\<close>: the invariant of its static variables between calls, the permutation of the arguments and the progress it makes,
  for arguments that are not \<open>dangling\<close>.
\<close>

section \<open>The state between calls\<close>

text \<open>A cluster of short options that ends in a dash, like \<open>-h-\<close>.\<close>

definition dangling :: "string \<Rightarrow> bool" where
  "dangling a \<longleftrightarrow> 3 \<le> length a \<and> a ! 0 = CHR ''-'' \<and> a ! 1 \<noteq> CHR ''-'' \<and> last a = CHR ''-''"

definition fresh :: "getopt \<Rightarrow> bool" where
  "fresh g \<longleftrightarrow> optreset g \<or> place g = ''''"

text \<open>The block of non-options: they were skipped before \<open>optind\<close>, and something is behind its end.\<close>

definition block_ok :: "getopt \<Rightarrow> bool \<Rightarrow> bool" where
  "block_ok g strict \<longleftrightarrow> (case (nonopt_start g, nonopt_end g) of
      (None, None) \<Rightarrow> True
    | (Some b, None) \<Rightarrow> 1 \<le> b \<and> b < optind g
    | (Some b, Some e) \<Rightarrow> 1 \<le> b \<and> b < e \<and> (if strict then e < optind g else e \<le> optind g)
    | (None, Some e) \<Rightarrow> False)"

lemma block_ok_cong:
  "nonopt_start g' = nonopt_start g \<Longrightarrow> nonopt_end g' = nonopt_end g \<Longrightarrow> optind g' = optind g \<Longrightarrow> block_ok g' strict = block_ok g strict"
  by (auto simp: block_ok_def split: option.splits)

text \<open>\<open>place\<close> is the rest of the argument at \<open>optind\<close>, behind a dash and perhaps other short options.\<close>

definition at_option :: "getopt \<Rightarrow> bool" where
  "at_option g \<longleftrightarrow> \<not> fresh g \<and> 1 \<le> optind g \<and> optind g < length (nargv g) \<and> \<not> place_at_start g \<and> block_ok g False \<and>
     (\<exists>pre. nargv g ! optind g = pre @ place g \<and> pre \<noteq> '''' \<and> pre ! 0 = CHR ''-'' \<and>
       (if length pre = 1 then place g \<noteq> ''-'' else pre ! 1 \<noteq> CHR ''-''))"

definition ready :: "getopt \<Rightarrow> bool" where
  "ready g \<longleftrightarrow> (if fresh g then 1 \<le> optind g \<and> optind g \<le> length (nargv g) \<and> block_ok g True else at_option g)"

text \<open>What is left to be looked at.\<close>

definition rest :: "nat \<Rightarrow> string list \<Rightarrow> nat" where
  "rest k v = (\<Sum>a\<leftarrow>drop k v. length a + 1)"

definition weight :: "getopt \<Rightarrow> nat" where
  "weight g = (if fresh g then rest (optind g) (nargv g) else length (place g) + 1 + rest (optind g + 1) (nargv g))"

lemma rest_nth: "k < length v \<Longrightarrow> rest k v = length (v ! k) + 1 + rest (k + 1) v"
  by (simp add: rest_def Cons_nth_drop_Suc [symmetric])

lemma rest_mono: "j \<le> k \<Longrightarrow> rest k v \<le> rest j v"
proof (induction k)
  case (Suc k)
  show ?case
  proof (cases "j = Suc k")
    case False
    then have "rest k v \<le> rest j v" using Suc by simp
    moreover have "rest (Suc k) v \<le> rest k v" by (cases "k < length v") (simp_all add: rest_nth, simp add: rest_def)
    ultimately show ?thesis by simp
  qed simp
qed simp

definition no_dangling :: "getopt \<Rightarrow> bool" where
  "no_dangling g \<longleftrightarrow> (\<forall>a \<in> set (nargv g). \<not> dangling a)"

lemma at_option_not_dash:
  assumes "at_option g" and "no_dangling g"
  shows "place g \<noteq> ''-''"
proof
  assume p: "place g = ''-''"
  obtain pre where pre: "nargv g ! optind g = pre @ ''-''" "pre \<noteq> ''''" "pre ! 0 = CHR ''-''" "length pre \<noteq> 1" "pre ! 1 \<noteq> CHR ''-''"
    using assms(1) p by (auto simp: at_option_def split: if_splits)
  then have "2 \<le> length pre" by (cases pre rule: list.exhaust; cases "tl pre") auto
  then have "dangling (pre @ ''-'')" using pre(3,5) by (simp add: dangling_def nth_append)
  moreover have "pre @ ''-'' \<in> set (nargv g)" using assms(1) pre(1) nth_mem [of "optind g" "nargv g"] by (simp add: at_option_def)
  ultimately show False using assms(2) by (auto simp: no_dangling_def)
qed

lemma weight_step:
  assumes "optind g < length (nargv g)" and "nargv g' = nargv g" and "optind g < optind g'" and "fresh g'"
  shows "weight g' < weight g"
  using rest_mono [of "optind g + 1" "optind g'" "nargv g"] assms by (simp add: weight_def rest_nth)

text \<open>A permutation before \<open>optind\<close>.\<close>

lemma permuted:
  assumes "b < e" and "e < k" and "k \<le> length v"
  shows "mset (permute_args b e k v) = mset v" and "length (permute_args b e k v) = length v" and "drop k (permute_args b e k v) = drop k v"
proof -
  have p: "permute_args b e k v = take b v @ take (k - e) (drop e v) @ take (e - b) (drop b v) @ drop k v"
    using permute_args_exchanges [of b e k v] assms by simp
  have v: "v = take b v @ take (e - b) (drop b v) @ take (k - e) (drop e v) @ drop k v"
    using assms by (metis append_take_drop_id drop_drop le_add_diff_inverse2 less_imp_le)
  show "mset (permute_args b e k v) = mset v" unfolding p by (subst (5) v) (simp add: ac_simps)
  show "length (permute_args b e k v) = length v" "drop k (permute_args b e k v) = drop k v" unfolding p using assms by auto
qed

section \<open>The next argument\<close>

lemma wp_permute_nonopts:
  assumes "nonopt_start g = Some b" and "nonopt_end g = Some e" and "b < e" and "e < optind g" and "optind g \<le> length (nargv g)"
  shows "wp permute_nonopts Q E g = Q () (g\<lparr>nargv := permute_args b e (optind g) (nargv g)\<rparr>)"
  using assms by (simp add: permute_nonopts_def wp_def)

lemma wp_gets_id [wp_simps]: "wp (bind (gets id) m) Q E s = wp (m s) Q E s"
  by (simp add: wp_simps)

definition placed_ok :: "bool \<Rightarrow> getopt \<Rightarrow> int option \<Rightarrow> getopt \<Rightarrow> bool" where
  "placed_ok all_args g r g' \<longleftrightarrow> mset (nargv g') = mset (nargv g) \<and> (case r of
      None \<Rightarrow> at_option g' \<and> weight g' \<le> weight g
    | Some x \<Rightarrow> \<not> optreset g' \<and> place g' = '''' \<and> 1 \<le> optind g' \<and> optind g' \<le> length (nargv g') \<and>
        (x = - 1 \<or> all_args \<and> x = INORDER \<and> ready g' \<and> weight g' < weight g))"

lemma update_place_end:
  assumes "fresh g" and "ready g" and "length (nargv g) \<le> optind g"
  shows "wp (update_place (Suc n) all_args permute) (placed_ok all_args g) (\<lambda>_. False) g"
proof -
  have g: "1 \<le> optind g" "optind g = length (nargv g)" "block_ok g True" using assms by (auto simp: ready_def)
  show ?thesis
  proof (cases "nonopt_end g")
    case None
    then show ?thesis using g assms(1)
      by (auto simp: fresh_def wp_simps placed_ok_def no_more_nonopts_def block_ok_def split: option.splits)
  next
    case (Some e)
    then obtain b where b: "nonopt_start g = Some b" "1 \<le> b" "b < e" "e < optind g" using g(3) by (auto simp: block_ok_def split: option.splits)
    note p = permuted [OF b(3,4), of "nargv g"]
    show ?thesis using Some b g assms(1) p
      by (auto simp: fresh_def wp_simps wp_permute_nonopts placed_ok_def no_more_nonopts_def skipped_def)
  qed
qed

lemma update_place_option:
  assumes "fresh g" and "ready g" and "optind g < length (nargv g)" and "take 1 (nargv g ! optind g) = ''-''" and "length (nargv g ! optind g) \<noteq> 1"
  shows "wp (update_place (Suc n) all_args permute) (placed_ok all_args g) (\<lambda>_. False) g"
proof -
  have g: "1 \<le> optind g" "block_ok g True" using assms by (auto simp: ready_def)
  obtain a where a: "nargv g ! optind g = CHR ''-'' # a" "a \<noteq> ''''" using assms(4,5) by (cases "nargv g ! optind g") auto
  define g1 where "g1 = (if nonopt_start g \<noteq> None \<and> nonopt_end g = None then g\<lparr>optreset := False, nonopt_end := Some (optind g)\<rparr> else g\<lparr>optreset := False\<rparr>)"
  have g1: "nargv g1 = nargv g" "optind g1 = optind g" "\<not> optreset g1" "block_ok g1 False"
    using g(2) by (auto simp: g1_def block_ok_def split: option.splits)
  have run: "wp (update_place (Suc n) all_args permute) Q E g = wp (if nargv g ! optind g = ''--'' then
              seq (modify (\<lambda>s. s\<lparr>optind := optind s + 1, place := ''''\<rparr>))
             (bind (gets nonopt_end) (\<lambda>e.
              seq (if e \<noteq> None then seq permute_nonopts (modify (\<lambda>s. s\<lparr>optind := optind s - skipped s\<rparr>)) else ret ())
             (seq (modify no_more_nonopts) (ret (Some (- 1))))))
            else seq (modify (\<lambda>s. s\<lparr>place := tl (nargv g ! optind g), place_at_start := False\<rparr>)) (ret None)) Q E g1" for Q E
    using assms(1,3-5) a(1) by (auto simp: fresh_def wp_simps g1_def Let_def)
  show ?thesis
  proof (cases "a = ''-''")
    case True
    show ?thesis
    proof (cases "nonopt_end g1")
      case None
      then show ?thesis unfolding run using True a g g1 assms(3) by (simp add: wp_simps placed_ok_def no_more_nonopts_def)
    next
      case (Some e)
      then obtain b where b: "nonopt_start g1 = Some b" "1 \<le> b" "b < e" "e \<le> optind g1" using g1(4) by (auto simp: block_ok_def split: option.splits)
      then have "e < Suc (optind g)" "Suc (optind g) \<le> length (nargv g)" using g1(2) assms(3) by auto
      note p = permuted [OF b(3) this]
      show ?thesis unfolding run using True Some a b g g1 assms(3) p by (auto simp: wp_simps wp_permute_nonopts placed_ok_def no_more_nonopts_def skipped_def)
    qed
  next
    case False
    let ?g = "g1\<lparr>place := a, place_at_start := False\<rparr>"
    have "block_ok ?g False" using g1(4) block_ok_cong [of ?g g1 False] by simp
    then have "at_option ?g" using False a g g1 assms(3)
      by (auto simp: at_option_def fresh_def intro!: exI [of _ "''-''"])
    moreover have "weight ?g \<le> weight g" using a g1 assms(1,3) by (simp add: weight_def fresh_def rest_nth)
    ultimately show ?thesis unfolding run using False a g1 by (simp add: wp_simps placed_ok_def)
  qed
qed

text \<open>What is done with an argument that is no option.\<close>

definition skip_nonopt :: "getopt \<Rightarrow> getopt" where
  "skip_nonopt g = (if nonopt_start g = None then g\<lparr>optreset := False, place := '''', nonopt_start := Some (optind g), optind := optind g + 1\<rparr>
      else case nonopt_end g of None \<Rightarrow> g\<lparr>optreset := False, place := '''', optind := optind g + 1\<rparr>
      | Some e \<Rightarrow> g\<lparr>optreset := False, place := '''', nargv := permute_args (the (nonopt_start g)) e (optind g) (nargv g),
          nonopt_start := Some (optind g - skipped g), nonopt_end := None, optind := optind g + 1\<rparr>)"

lemma skip_nonopt_props:
  assumes "fresh g" and "ready g" and "optind g < length (nargv g)"
  shows "ready (skip_nonopt g)" and "mset (nargv (skip_nonopt g)) = mset (nargv g)" and "optind (skip_nonopt g) = optind g + 1"
    and "length (nargv (skip_nonopt g)) = length (nargv g)" and "weight (skip_nonopt g) < weight g"
proof -
  have g: "1 \<le> optind g" "block_ok g True" using assms by (auto simp: ready_def)
  have w: "weight g' < weight g" if "drop (optind g + 1) (nargv g') = drop (optind g + 1) (nargv g)" "optind g' = optind g + 1" "fresh g'" for g'
  proof -
    have "rest (optind g + 1) (nargv g') = rest (optind g + 1) (nargv g)" using that(1) by (simp add: rest_def)
    then show ?thesis using that assms(1,3) by (simp add: weight_def rest_nth [of "optind g" "nargv g"])
  qed
  have "ready (skip_nonopt g) \<and> mset (nargv (skip_nonopt g)) = mset (nargv g) \<and> length (nargv (skip_nonopt g)) = length (nargv g) \<and>
      drop (optind g + 1) (nargv (skip_nonopt g)) = drop (optind g + 1) (nargv g)"
  proof (cases "nonopt_end g")
    case None
    then show ?thesis using g assms(3) by (auto simp: skip_nonopt_def ready_def fresh_def block_ok_def split: option.splits)
  next
    case (Some e)
    then obtain b where b: "nonopt_start g = Some b" "1 \<le> b" "b < e" "e < optind g" using g(2) by (auto simp: block_ok_def split: option.splits)
    note p = permuted [OF b(3,4), of "nargv g"]
    have "drop (optind g + 1) (permute_args b e (optind g) (nargv g)) = drop 1 (drop (optind g) (permute_args b e (optind g) (nargv g)))" by simp
    then show ?thesis using Some b g p assms(3)
      by (auto simp: skip_nonopt_def ready_def fresh_def block_ok_def skipped_def)
  qed
  moreover show "optind (skip_nonopt g) = optind g + 1" by (simp add: skip_nonopt_def split: option.splits)
  moreover have "fresh (skip_nonopt g)" by (simp add: skip_nonopt_def fresh_def split: option.splits)
  ultimately show "ready (skip_nonopt g)" "mset (nargv (skip_nonopt g)) = mset (nargv g)"
    "length (nargv (skip_nonopt g)) = length (nargv g)" "weight (skip_nonopt g) < weight g"
    using w by blast+
qed

lemma update_place_skip:
  assumes "fresh g" and "ready g" and "optind g < length (nargv g)" and "\<not> (take 1 (nargv g ! optind g) = ''-'' \<and> length (nargv g ! optind g) \<noteq> 1)"
  shows "wp (update_place (Suc n) False True) Q E g = wp (update_place n False True) Q E (skip_nonopt g)"
proof -
  have g: "block_ok g True" using assms by (auto simp: ready_def)
  show ?thesis
  proof (cases "nonopt_end g")
    case None
    then show ?thesis using assms(1,3,4) by (auto simp: fresh_def wp_simps skip_nonopt_def Let_def)
  next
    case (Some e)
    then obtain b where b: "nonopt_start g = Some b" "1 \<le> b" "b < e" "e < optind g" using g by (auto simp: block_ok_def split: option.splits)
    then show ?thesis using Some assms(1,3,4) by (auto simp: fresh_def wp_simps skip_nonopt_def Let_def wp_permute_nonopts skipped_def)
  qed
qed

lemma wp_update_place:
  assumes "ready g" and "length (nargv g) - optind g < n"
  shows "wp (update_place n False permute) (placed_ok False g) (\<lambda>_. False) g"
  using assms
proof (induction n arbitrary: g)
  case (Suc n)
  show ?case
  proof (cases "fresh g \<and> optind g < length (nargv g) \<and> \<not> (take 1 (nargv g ! optind g) = ''-'' \<and> length (nargv g ! optind g) \<noteq> 1)")
    case False
    consider "\<not> fresh g" | "fresh g" "length (nargv g) \<le> optind g" | "fresh g" "optind g < length (nargv g)"
        "take 1 (nargv g ! optind g) = ''-''" "length (nargv g ! optind g) \<noteq> 1"
      using False by linarith
    then show ?thesis
    proof cases
      case 1
      then show ?thesis using Suc.prems(1) by (auto simp: fresh_def wp_simps placed_ok_def ready_def)
    qed (use update_place_end update_place_option Suc.prems(1) in blast)+
  next
    case True
    note p = skip_nonopt_props [OF _ Suc.prems(1)]
    show ?thesis
    proof (cases permute)
      case p': True
      have "wp (update_place n False permute) (placed_ok False (skip_nonopt g)) (\<lambda>_. False) (skip_nonopt g)"
        using True p Suc.prems by (intro Suc.IH) auto
      then show ?thesis
        unfolding p' [THEN eqTrueI] update_place_skip [OF True [THEN conjunct1] Suc.prems(1) True [THEN conjunct2, THEN conjunct1] True [THEN conjunct2, THEN conjunct2]]
        using True p by (elim wp_mono) (auto simp: placed_ok_def split: option.splits)
    next
      case False
      then show ?thesis using True Suc.prems(1) by (auto simp: fresh_def wp_simps placed_ok_def ready_def Let_def)
    qed
  qed
qed simp

section \<open>Options\<close>

lemma match_long_found:
  "fst (match_long short_too long_only name os i match second) = Some (j, m) \<Longrightarrow> m \<in> set os \<or> (\<exists>j. match = Some (j, m))"
  by (induction os arbitrary: i match second) (auto split: if_splits option.splits prod.splits)

text \<open>The result of a call that has looked at an option. A long option that is found leaves its value in \<open>flag_var\<close>.\<close>

definition advanced :: "long_option list \<Rightarrow> getopt \<Rightarrow> int \<Rightarrow> getopt \<Rightarrow> bool" where
  "advanced los g r g' \<longleftrightarrow> r \<noteq> - 1 \<and> nargv g' = nargv g \<and> ready g' \<and> weight g' < weight g \<and> 1 \<le> optind g' \<and> optind g' \<le> length (nargv g') \<and>
     (r = 0 \<longrightarrow> flag_var g' \<in> lo_val ` set los)"

lemma advancedI:
  assumes "block_ok g False" and "1 \<le> optind g" and "optind g < length (nargv g)" and "nargv g' = nargv g" and "optind g < optind g'"
    and "optind g' \<le> length (nargv g)" and "fresh g'" and "nonopt_start g' = nonopt_start g" and "nonopt_end g' = nonopt_end g"
    and "r \<noteq> - 1" and "r = 0 \<Longrightarrow> flag_var g' \<in> lo_val ` set los"
  shows "advanced los g r g'"
proof -
  have "block_ok g' True" using assms(1,5,8,9) by (auto simp: block_ok_def split: option.splits)
  then show ?thesis using assms weight_step [of g g'] by (simp add: advanced_def ready_def)
qed

lemma bad_results [simp]: "BADCH \<noteq> - 1" "BADCH \<noteq> 0" "BADARG options \<noteq> - 1" "BADARG options \<noteq> 0"
  by (simp_all add: BADCH_def BADARG_def)

lemma wp_warnx: "wp (warnx options w) Q E g = Q () (if opterr g \<and> take 1 options \<noteq> '':'' then g\<lparr>warnings := warnings g @ [w]\<rparr> else g)"
  by (simp add: warnx_def wp_simps)

lemma wp_argv_at: "i \<le> length (nargv g) \<Longrightarrow> wp (argv_at i) Q E g = Q (if i < length (nargv g) then Some (nargv g ! i) else None) g"
  by (auto simp: argv_at_def wp_simps)

text \<open>A long option ends the argument, and takes the next one at most.\<close>

definition moved :: "long_option list \<Rightarrow> getopt \<Rightarrow> int \<Rightarrow> getopt \<Rightarrow> bool" where
  "moved los g r g' \<longleftrightarrow> r \<noteq> - 1 \<and> nargv g' = nargv g \<and> optind g < optind g' \<and> optind g' \<le> length (nargv g) \<and> nonopt_start g' = nonopt_start g \<and>
     nonopt_end g' = nonopt_end g \<and> (r = 0 \<longrightarrow> flag_var g' \<in> lo_val ` set los)"

lemma wp_parse_long_options:
  assumes "\<And>m. m \<in> set los \<Longrightarrow> has_flag m" and "optind g < length (nargv g)"
  shows "wp (parse_long_options options los False False) (moved los g) (\<lambda>_. False) g"
proof -
  obtain name eq where n: "split_equal (place g) = (name, eq)" by fastforce
  obtain match exact second where m: "match_long False False name los 0 None False = (match, exact, second)" by (metis prod_cases3)
  have found: "has_flag m \<and> lo_val m \<in> lo_val ` set los" if "match = Some (i, m)" for i m
    using match_long_found [of False False name los 0 None False i m] m that assms(1) by auto
  have o: "Suc (optind g) \<le> length (nargv g)" using assms(2) by simp
  show ?thesis
    using found o
    by (cases match) (auto simp: parse_long_options_def n m wp_simps wp_warnx wp_argv_at moved_def split: if_splits)
qed

lemma wp_modify_fun: "wp (modify f) Q E = (\<lambda>s. Q () (f s))"
  by (simp add: fun_eq_iff wp_modify)

lemma moved_advanced:
  assumes "moved los g r g'" and "block_ok g False" and "1 \<le> optind g" and "optind g < length (nargv g)"
  shows "advanced los g r (g'\<lparr>place := ''''\<rparr>)"
  using assms by (intro advancedI) (auto simp: moved_def fresh_def)

lemma wp_parse_short_option:
  assumes "\<And>m los. long_options = Some los \<Longrightarrow> m \<in> set los \<Longrightarrow> has_flag m" and "CHR 0x00 \<notin> set options"
    and at: "at_option g" and dash: "take 1 (place g) \<noteq> ''-''"
  shows "wp (parse_short_option options long_options False) (advanced (case long_options of None \<Rightarrow> [] | Some los \<Rightarrow> los) g) (\<lambda>_. False) g"
proof -
  obtain c rst where p: "place g = c # rst" using at by (cases "place g") (auto simp: at_option_def fresh_def)
  obtain pre where pre: "nargv g ! optind g = pre @ c # rst" "pre \<noteq> ''''" "pre ! 0 = CHR ''-''" "length pre \<noteq> 1 \<Longrightarrow> pre ! 1 \<noteq> CHR ''-''"
    using at p by (auto simp: at_option_def split: if_splits)
  have g: "block_ok g False" "1 \<le> optind g" "optind g < length (nargv g)" "\<not> optreset g" using at by (auto simp: at_option_def fresh_def)
  have c: "c \<noteq> CHR ''-''" using dash p by simp
  have cluster: "advanced los g r g'"
    if "rst \<noteq> ''''" "r \<noteq> - 1" "r \<noteq> 0" "nargv g' = nargv g" "optind g' = optind g" "optreset g' = optreset g" "nonopt_start g' = nonopt_start g"
      "nonopt_end g' = nonopt_end g" "place g' = rst" "\<not> place_at_start g'" for los r g'
  proof -
    have "block_ok g' False" using g(1) that block_ok_cong [of g' g False] by simp
    moreover have "(pre @ [c]) ! 0 = CHR ''-''" "(pre @ [c]) ! 1 \<noteq> CHR ''-''"
      using pre(2,3,4) c by (cases pre; cases "tl pre"; simp)+
    ultimately have "at_option g'" using that g pre(1,2)
      by (auto simp: at_option_def fresh_def intro!: exI [of _ "pre @ [c]"])
    then show ?thesis using that g p by (simp add: advanced_def ready_def at_option_def weight_def fresh_def)
  qed
  let ?los = "case long_options of None \<Rightarrow> [] | Some los \<Rightarrow> los"
  let ?g = "g\<lparr>place := rst, place_at_start := False\<rparr>"
  have neg: "of_char c \<noteq> (- 1 :: int)"
  proof
    assume "of_char c = (- 1 :: int)"
    moreover have "0 \<le> (of_char c :: int)" by (metis of_nat_0_le_iff of_nat_of_char)
    ultimately show False by linarith
  qed
  have ends: "advanced ?los g r g'"
    if "r \<noteq> - 1" "r \<noteq> 0" "nargv g' = nargv g" "optind g < optind g'" "optind g' \<le> length (nargv g)" "place g' = ''''"
      "nonopt_start g' = nonopt_start g" "nonopt_end g' = nonopt_end g" for r g'
    using that g by (intro advancedI) (auto simp: fresh_def)
  have o: "Suc (optind g) \<le> length (nargv g)" using g by simp
  show ?thesis
  proof (cases "c = CHR '':'' \<or> after_char c options = None")
    case True
    have "advanced ?los g BADCH (g'\<lparr>optopt := x\<rparr>)"
      if "nargv g' = nargv g" "optind g' = (if rst = '''' then Suc (optind g) else optind g)" "optreset g' = optreset g" "nonopt_start g' = nonopt_start g"
      "nonopt_end g' = nonopt_end g" "place g' = rst" "\<not> place_at_start g'" for g' x
      using ends [of BADCH "g'\<lparr>optopt := x\<rparr>"] cluster [of BADCH "g'\<lparr>optopt := x\<rparr>"] that o by (cases "rst = ''''") auto
    then show ?thesis using True p c by (auto simp: parse_short_option_def wp_simps wp_warnx)
  next
    case False
    then obtain oli where oli: "after_char c options = Some oli" by auto
    have "c \<in> set options"
    proof (rule ccontr)
      assume "c \<notin> set options"
      then have "dropWhile (\<lambda>d. d \<noteq> c) options = []" by (auto simp: dropWhile_eq_Nil_conv)
      then show False using oli by (simp add: after_char_def)
    qed
    then have "c \<noteq> CHR 0x00" using assms(2) by auto
    then have "of_char c \<noteq> (of_char CHR 0x00 :: int)" by (simp only: of_char_eq_iff not_False_eq_True)
    then have nz: "of_char c \<noteq> (0 :: int)" by simp
    show ?thesis
    proof (cases "long_options \<noteq> None \<and> c = CHR ''W'' \<and> take 1 oli = '';''")
      case True
      then obtain los where los: "long_options = Some los" by auto
      have long: "wp (parse_long_options options los False False) (\<lambda>r s. advanced los g r (s\<lparr>place := ''''\<rparr>)) (\<lambda>_. False) g'"
        if "optind g \<le> optind g'" "optind g' < length (nargv g)" "nargv g' = nargv g" "nonopt_start g' = nonopt_start g" "nonopt_end g' = nonopt_end g" for g'
      proof (rule wp_mono [OF wp_parse_long_options])
        show "has_flag m" if "m \<in> set los" for m using assms(1) los that by blast
        show "optind g' < length (nargv g')" using that by simp
        show "advanced los g r (s\<lparr>place := ''''\<rparr>)" if "moved los g' r s" for r s
          using that \<open>optind g \<le> optind g'\<close> \<open>nargv g' = nargv g\<close> \<open>nonopt_start g' = _\<close> \<open>nonopt_end g' = _\<close> g
          by (intro advancedI) (auto simp: moved_def fresh_def)
      qed
      show ?thesis
        using True False oli p c los ends o g long by (auto simp: parse_short_option_def wp_simps wp_warnx wp_modify_fun)
    next
      case W: False
      show ?thesis
      proof (cases "take 1 oli \<noteq> '':''")
        case True
        then show ?thesis using W False oli p c ends cluster o neg nz
          by (cases "rst = ''''") (auto simp: parse_short_option_def wp_simps wp_warnx)
      next
        case arg: False
        then show ?thesis using W False oli p c ends o neg nz
          by (auto simp: parse_short_option_def wp_simps wp_warnx Let_def)
      qed
    qed
  qed
qed

section \<open>A call\<close>

text \<open>The state in which the search for the next option starts.\<close>

definition prepared :: "getopt \<Rightarrow> getopt" where
  "prepared g =
     (let g = (if optind g = 0 then g\<lparr>optind := 1, optreset := True\<rparr> else g);
          g = (if posixly_correct g = None \<or> optreset g then g\<lparr>posixly_correct := Some (env_posixly_correct g)\<rparr> else g);
          g = g\<lparr>optarg := None\<rparr>
      in if optreset g then no_more_nonopts g else g)"

lemma ready_cong:
  assumes "nargv g' = nargv g" and "optind g' = optind g" and "optreset g' = optreset g" and "place g' = place g" and "place_at_start g' = place_at_start g"
    and "nonopt_start g' = nonopt_start g" and "nonopt_end g' = nonopt_end g"
  shows "ready g' = ready g" and "weight g' = weight g"
  using assms block_ok_cong [OF assms(6,7,2)] by (auto simp: ready_def at_option_def weight_def fresh_def)

lemma prepared_ready:
  assumes "ready g"
  shows "ready (prepared g)" and "weight (prepared g) = weight g"
proof -
  have "1 \<le> optind g" using assms by (auto simp: ready_def at_option_def split: if_splits)
  then have "ready (prepared g) \<and> weight (prepared g) = weight g"
  proof (cases "optreset g")
    case True
    then show ?thesis using \<open>1 \<le> optind g\<close> assms
      by (simp add: prepared_def Let_def no_more_nonopts_def ready_def fresh_def weight_def block_ok_def)
  next
    case False
    let ?h = "prepared g"
    have h: "nargv ?h = nargv g" "optind ?h = optind g" "optreset ?h = optreset g" "place ?h = place g" "place_at_start ?h = place_at_start g"
      "nonopt_start ?h = nonopt_start g" "nonopt_end ?h = nonopt_end g"
      using False \<open>1 \<le> optind g\<close> by (simp_all add: prepared_def Let_def)
    show ?thesis using ready_cong [OF h] assms by simp
  qed
  then show "ready (prepared g)" "weight (prepared g) = weight g" by auto
qed

lemma prepared_start:
  assumes "optind g = 0" and "nargv g \<noteq> []"
  shows "ready (prepared g)" and "weight (prepared g) = rest 1 (nargv g)"
  using assms by (simp_all add: prepared_def Let_def no_more_nonopts_def ready_def fresh_def weight_def block_ok_def Suc_leI)

lemma prepared_nargv [simp]: "nargv (prepared g) = nargv g"
  by (simp add: prepared_def Let_def no_more_nonopts_def)

definition call_ok :: "long_option list \<Rightarrow> getopt \<Rightarrow> int \<Rightarrow> getopt \<Rightarrow> bool" where
  "call_ok los g r g' \<longleftrightarrow> mset (nargv g') = mset (nargv g) \<and> 1 \<le> optind g' \<and> optind g' \<le> length (nargv g') \<and>
     (r \<noteq> - 1 \<longrightarrow> ready g' \<and> weight g' < weight (prepared g) \<and> (r = 0 \<longrightarrow> flag_var g' \<in> lo_val ` set los))"

lemma wp_parse_option:
  assumes "\<And>m. m \<in> set los \<Longrightarrow> has_flag m" and "CHR 0x00 \<notin> set opts" and at: "at_option g" and "no_dangling g"
  shows "wp (parse_option opts (Some los) False) (advanced los g) (\<lambda>_. False) g"
proof (cases "take 1 (place g) = ''-''")
  case True
  then obtain l where l: "place g = CHR ''-'' # l" by (cases "place g") auto
  then have "l \<noteq> ''''" using at_option_not_dash [OF at assms(4)] by auto
  have g: "block_ok g False" "1 \<le> optind g" "optind g < length (nargv g)" "\<not> place_at_start g" using at by (auto simp: at_option_def)
  let ?g = "g\<lparr>place := l, dash_prefix := ''--''\<rparr>"
  have "wp (parse_long_options opts los False False) (moved los ?g) (\<lambda>_. False) ?g"
    using assms(1) g(3) by (intro wp_parse_long_options) simp_all
  then have "wp (parse_long_options opts los False False) (\<lambda>r g'. r \<noteq> - 1 \<and> advanced los g r (g'\<lparr>place := ''''\<rparr>)) (\<lambda>_. False) ?g"
    by (rule wp_mono) (use g in \<open>auto simp: moved_def fresh_def intro!: advancedI\<close>)
  then have "wp (parse_long_options opts los False False)
      (\<lambda>r. wp (if r \<noteq> - 1 then seq (modify (\<lambda>s. s\<lparr>place := ''''\<rparr>)) (ret r) else parse_short_option opts (Some los) False) (advanced los g) (\<lambda>_. False))
      (\<lambda>_. False) ?g"
    by (rule wp_mono) (simp_all add: wp_simps)
  then show ?thesis using True l \<open>l \<noteq> ''''\<close> g(4)
    by (simp add: parse_option_def wp_simps)
next
  case False
  then have "wp (parse_option opts (Some los) False) Q E g = wp (parse_short_option opts (Some los) False) Q E g" for Q E
    by (simp add: parse_option_def wp_simps)
  then show ?thesis using wp_parse_short_option [of "Some los" opts g] assms False by simp
qed

lemma wp_getopt_long:
  assumes "\<And>m. m \<in> set los \<Longrightarrow> has_flag m" and "CHR 0x00 \<notin> set opts" and "take 1 opts \<noteq> ''-''" and "take 1 opts \<noteq> ''+''"
    and ready: "ready (prepared g)" and "no_dangling g"
  shows "wp (getopt_long (Some opts) (Some los)) (call_ok los g) (\<lambda>_. False) g"
proof -
  let ?g = "prepared g" and ?p = "posixly_correct (prepared g) \<noteq> Some True"
  have run: "wp (getopt_long (Some opts) (Some los)) Q E g =
      wp (update_place (length (nargv g) - optind ?g + 1) False ?p)
        (\<lambda>r. wp (case r of Some x \<Rightarrow> ret x | None \<Rightarrow> parse_option opts (Some los) False) Q E) E ?g" for Q E
    using assms(3,4) by (simp add: getopt_long_def getopt_internal_def wp_simps prepared_def Let_def no_more_nonopts_def)
  have opt: "wp (parse_option opts (Some los) False) (call_ok los g) (\<lambda>_. False) g'" if p: "placed_ok False ?g None g'" for g'
  proof -
    have "no_dangling g'" using assms(6) mset_eq_setD [of "nargv g'" "nargv g"] p by (simp add: no_dangling_def placed_ok_def)
    then have "wp (parse_option opts (Some los) False) (advanced los g') (\<lambda>_. False) g'"
      using assms p by (intro wp_parse_option) (auto simp: placed_ok_def)
    then show ?thesis by (rule wp_mono) (use p in \<open>auto simp: advanced_def call_ok_def placed_ok_def\<close>)
  qed
  have "wp (update_place (length (nargv g) - optind ?g + 1) False ?p) (placed_ok False ?g) (\<lambda>_. False) ?g"
    using ready by (intro wp_update_place) simp_all
  then show ?thesis unfolding run
    by (rule wp_mono) (use opt in \<open>auto simp: wp_ret placed_ok_def call_ok_def split: option.split\<close>)
qed

end
