(* ===== verification/ArgParseProps.thy ===== *)
theory ArgParseProps
  imports ArgParse GetOptSteps
begin

text \<open>
  \<open>arg_parse\<close> comes to an end without undefined behaviour, and only permutes the arguments, when none of them is dangling; a dangling
  one keeps it in its loop forever.
\<close>

section \<open>The table\<close>

text \<open>There is a terminator with a place for an error.\<close>

definition table_ok :: "arg_entry list \<Rightarrow> bool" where
  "table_ok t = (case arg_endindex t of None \<Rightarrow> False
    | Some k \<Rightarrow> (case t ! k of Arg_end h es \<Rightarrow> 0 < maxcount h | _ \<Rightarrow> False))"

text \<open>The count of an entry is within its bounds; the strings have a place each.\<close>

primrec count_of :: "arg_entry \<Rightarrow> nat" where
  "count_of (Arg_lit h n) = n"
| "count_of (Arg_str h n sval) = n"
| "count_of (Arg_rem h) = 1"
| "count_of (Arg_end h es) = length es"

definition places_ok :: "arg_entry \<Rightarrow> bool" where
  "places_ok e \<longleftrightarrow> (\<forall>h n sval. e = Arg_str h n sval \<longrightarrow> length sval = maxcount h)"

definition count_ok :: "arg_entry \<Rightarrow> bool" where
  "count_ok e \<longleftrightarrow> (case e of Arg_lit h n \<Rightarrow> n \<le> maxcount h | Arg_str h n sval \<Rightarrow> n \<le> maxcount h | _ \<Rightarrow> True)"

primrec kind_of :: "arg_entry \<Rightarrow> nat" where
  "kind_of (Arg_lit h n) = 0"
| "kind_of (Arg_str h n sval) = 1"
| "kind_of (Arg_rem h) = 2"
| "kind_of (Arg_end h es) = 3"

definition same_kind :: "arg_entry \<Rightarrow> arg_entry \<Rightarrow> bool" where
  "same_kind e e' \<longleftrightarrow> hdr_of e' = hdr_of e \<and> kind_of e' = kind_of e \<and>
     (places_ok e \<longrightarrow> places_ok e') \<and> (count_ok e \<longrightarrow> count_ok e')"

definition same_table :: "arg_entry list \<Rightarrow> arg_entry list \<Rightarrow> bool" where
  "same_table t t' \<longleftrightarrow> list_all2 same_kind t t'"

lemma same_kind_refl [simp]: "same_kind e e" by (simp add: same_kind_def)

lemma same_table_refl [simp]: "same_table t t" by (simp add: same_table_def list_all2_same)

lemma same_table_trans: "same_table t u \<Longrightarrow> same_table u v \<Longrightarrow> same_table t v"
  unfolding same_table_def by (rule list_all2_trans [of same_kind same_kind]) (auto simp: same_kind_def)

lemma same_table_update: "same_kind (t ! i) e \<Longrightarrow> same_table t (t[i := e])"
  by (auto simp: same_table_def list_all2_conv_all_nth) (metis nth_list_update_eq nth_list_update_neq same_kind_refl)

lemma same_table_props:
  assumes "same_table t t'"
  shows "length t' = length t" and "map hdr_of t' = map hdr_of t" and "arg_endindex t' = arg_endindex t"
    and "length (entries t') = length (entries t)" and "table_ok t' = table_ok t"
proof -
  have l: "length t' = length t" and k: "i < length t \<Longrightarrow> same_kind (t ! i) (t' ! i)" for i
    using assms by (auto simp: same_table_def list_all2_conv_all_nth)
  then show m: "map hdr_of t' = map hdr_of t" by (auto simp: list_eq_iff_nth_eq same_kind_def)
  show "length t' = length t" by (rule l)
  show e: "arg_endindex t' = arg_endindex t"
    unfolding arg_endindex_def l using k by (intro find_cong) (auto simp: same_kind_def)
  have "map hdr_of (entries u) = takeWhile (\<lambda>h. \<not> is_terminator h) (map hdr_of u)" for u
    by (simp add: entries_def takeWhile_map comp_def)
  then show "length (entries t') = length (entries t)" using m by (metis length_map)
  show "table_ok t' = table_ok t"
  proof (cases "arg_endindex t")
    case (Some i)
    then have "i < length t" by (auto simp: arg_endindex_def find_Some_iff)
    then show ?thesis using k [of i] Some e by (cases "t ! i"; cases "t' ! i") (auto simp: table_ok_def same_kind_def)
  qed (simp add: table_ok_def e)
qed

lemma same_kind_functions: "same_kind e (resetfn e)" "same_kind e (snd (scanfn e a))"
  by (cases e; auto simp: same_kind_def places_ok_def count_ok_def split: option.splits)+

section \<open>The steps of \<open>arg_parse\<close>\<close>

text \<open>What every part keeps: the kinds of the entries, and the arguments up to their order.\<close>

definition parses :: "parser_state \<Rightarrow> parser_state \<Rightarrow> bool" where
  "parses s s' \<longleftrightarrow> same_table (argtable s) (argtable s') \<and> mset (nargv (gopt s')) = mset (nargv (gopt s)) \<and>
     1 \<le> optind (gopt s') \<and> optind (gopt s') \<le> length (nargv (gopt s'))"

definition good :: "parser_state \<Rightarrow> bool" where
  "good s \<longleftrightarrow> table_ok (argtable s) \<and> 1 \<le> optind (gopt s) \<and> optind (gopt s) \<le> length (nargv (gopt s))"

lemma table_ok_end:
  assumes "table_ok t"
  obtains k h es where "arg_endindex t = Some k" and "k < length t" and "t ! k = Arg_end h es" and "0 < maxcount h"
proof -
  from assms obtain k h es where "arg_endindex t = Some k" "t ! k = Arg_end h es" "0 < maxcount h"
    by (auto simp: table_ok_def split: option.splits arg_entry.splits)
  moreover from this(1) have "k < length t" by (auto simp: arg_endindex_def find_Some_iff)
  ultimately show thesis using that by blast
qed

lemma good_parses: "good s \<Longrightarrow> parses s s' \<Longrightarrow> good s'"
  using same_table_props(5) by (auto simp: good_def parses_def)

lemma parses_trans: "parses s t \<Longrightarrow> parses t u \<Longrightarrow> parses s u"
  by (auto simp: parses_def intro: same_table_trans)

text \<open>Only the table changes.\<close>

definition table_step :: "parser_state \<Rightarrow> parser_state \<Rightarrow> bool" where
  "table_step s s' \<longleftrightarrow> gopt s' = gopt s \<and> same_table (argtable s) (argtable s')"

lemma table_step_trans: "table_step s t \<Longrightarrow> table_step t u \<Longrightarrow> table_step s u"
  by (auto simp: table_step_def intro: same_table_trans)

lemma table_step_set_entry: "same_kind (argtable s ! i) e \<Longrightarrow> table_step s (set_entry i e s)"
  by (simp add: table_step_def set_entry_def same_table_update)

lemma table_step_ok: "table_step s t \<Longrightarrow> table_ok (argtable s) \<Longrightarrow> table_ok (argtable t)"
  using same_table_props(5) by (auto simp: table_step_def)

lemma wp_the_endindex: "arg_endindex (argtable s) = Some k \<Longrightarrow> wp the_endindex Q E s = Q k s"
  by (simp add: the_endindex_def wp_simps)

lemma wp_arg_register_error:
  assumes "table_ok (argtable s)"
  shows "wp (arg_register_error e) (\<lambda>_. table_step s) (\<lambda>_. False) s"
proof -
  obtain k h es where k: "arg_endindex (argtable s) = Some k" "argtable s ! k = Arg_end h es" "0 < maxcount h"
    using assms by (rule table_ok_end)
  then have "table_step s (set_entry k (Arg_end h es') s)" for es' by (intro table_step_set_entry) (simp add: same_kind_def places_ok_def count_ok_def)
  then show ?thesis using k by (simp add: arg_register_error_def wp_simps wp_the_endindex)
qed

lemma wp_register_after:
  assumes "table_step s t" and "table_ok (argtable s)"
  shows "wp (arg_register_error e) (\<lambda>_. table_step s) (\<lambda>_. False) t"
  by (rule wp_mono [OF wp_arg_register_error [OF table_step_ok [OF assms]]]) (auto intro: table_step_trans [OF assms(1)])

lemma wp_scan_option:
  assumes "table_ok (argtable s)" and "i < length (argtable s)"
  shows "wp (scan_option i) (\<lambda>_. table_step s) (\<lambda>_. False) s"
proof -
  obtain code e where e: "scanfn (argtable s ! i) (optarg (gopt s)) = (code, e)" by fastforce
  then have t: "table_step s (set_entry i e s)"
    using table_step_set_entry [OF same_kind_functions(2)] by (metis snd_conv)
  moreover have "table_step s s" by (simp add: table_step_def)
  ultimately show ?thesis using assms e wp_register_after [OF t assms(1)] by (simp add: scan_option_def wp_simps)
qed

lemma wp_on_getopt: "wp (on_getopt m) Q E s = wp m (\<lambda>a g. Q a (s\<lparr>gopt := g\<rparr>)) (\<lambda>g. E (s\<lparr>gopt := g\<rparr>)) (gopt s)"
  by (simp add: on_getopt_def wp_zoom)

lemma wp_on_getopt_fun: "wp (on_getopt m) Q E = (\<lambda>s. wp m (\<lambda>a g. Q a (s\<lparr>gopt := g\<rparr>)) (\<lambda>g. E (s\<lparr>gopt := g\<rparr>)) (gopt s))"
  by (simp add: fun_eq_iff wp_on_getopt)

lemma wp_last_arg:
  assumes "1 \<le> optind (gopt s)" and "optind (gopt s) \<le> length (nargv (gopt s))"
  shows "wp last_arg Q E s = Q (Some (nargv (gopt s) ! (optind (gopt s) - 1))) s"
proof -
  have "optind (gopt s) - 1 < length (nargv (gopt s))" using assms by simp
  then show ?thesis using assms by (simp add: last_arg_def wp_simps wp_on_getopt wp_argv_at)
qed

lemma wp_handle_option:
  assumes "good s" and flag: "copt = 0 \<Longrightarrow> nat (flag_var (gopt s)) < length (argtable s)"
  shows "wp (handle_option copt) (\<lambda>_. table_step s) (\<lambda>_. False) s"
proof -
  have t: "table_ok (argtable s)" using assms(1) by (simp add: good_def)
  then obtain k h es where k: "arg_endindex (argtable s) = Some k" by (rule table_ok_end)
  note last = wp_last_arg [of s]
  have scan: "wp (scan_option i) (\<lambda>_. table_step s) (\<lambda>_. False) s'" if "table_step s s'" "i < length (argtable s)" for i s'
  proof -
    have "length (argtable s') = length (argtable s)" using that(1) by (auto simp: table_step_def intro: same_table_props(1))
    then show ?thesis
      using that by (intro wp_mono [OF wp_scan_option [OF table_step_ok [OF that(1) t]]]) (auto intro: table_step_trans [OF that(1)])
  qed
  have reg: "wp (arg_register_error e) (\<lambda>_. table_step s) (\<lambda>_. False) s" for e by (rule wp_arg_register_error [OF t])
  have g: "1 \<le> optind (gopt s)" "optind (gopt s) \<le> length (nargv (gopt s))" using assms(1) by (auto simp: good_def)
  have found: "i < length (argtable s)" if "find_shortoption (argtable s) c = Some i" for i c
  proof -
    have "length (entries (argtable s)) \<le> length (argtable s)" by (simp add: entries_def length_takeWhile_le)
    then show ?thesis using that by (auto simp: find_shortoption_def find_Some_iff)
  qed
  have missing: "wp (arg_register_error e) (\<lambda>_. wp (scan_option i) (\<lambda>_. table_step s) (\<lambda>_. False)) (\<lambda>_. False) s" if "i < length (argtable s)" for e i
    by (rule wp_mono [OF reg]) (auto intro: scan that)
  have s: "table_step s s" by (simp add: table_step_def)
  show ?thesis
  proof (cases "copt = 0")
    case True
    then show ?thesis using k g flag missing scan [OF s] by (simp add: handle_option_def wp_simps wp_the_endindex last Let_def)
  next
    case False
    then show ?thesis using k g reg found scan [OF s]
      by (simp add: handle_option_def wp_simps wp_the_endindex last split: option.split)
  qed
qed

text \<open>The options leave the values of their entries.\<close>

lemma longoption_index:
  assumes "lo \<in> set (alloc_longoptions t)"
  shows "has_flag lo" and "nat (lo_val lo) < length t"
proof -
  have "length (entries t) \<le> length t" by (simp add: entries_def length_takeWhile_le)
  then show "has_flag lo" "nat (lo_val lo) < length t" using assms by (auto simp: alloc_longoptions_def Let_def)
qed

definition no_nul :: "arg_entry list \<Rightarrow> bool" where
  "no_nul t \<longleftrightarrow> (\<forall>e \<in> set t. case shortopts (hdr_of e) of None \<Rightarrow> True | Some s \<Rightarrow> CHR 0x00 \<notin> set s)"

lemma shortoptions_no_nul:
  assumes "no_nul t"
  shows "CHR 0x00 \<notin> set (alloc_shortoptions t)"
proof -
  have "e \<in> set t" if "e \<in> set (entries t)" for e using that by (auto simp: entries_def dest: set_takeWhileD)
  then have "CHR 0x00 \<notin> set s" if "e \<in> set (entries t)" "shortopts (hdr_of e) = Some s" for e s
    using assms that by (force simp: no_nul_def)
  then show ?thesis by (auto simp: alloc_shortoptions_def Let_def split: option.splits)
qed

section \<open>The two loops\<close>

text \<open>Between two calls of \<open>getopt_long\<close>.\<close>

definition calling :: "parser_state \<Rightarrow> bool" where
  "calling s \<longleftrightarrow> table_ok (argtable s) \<and> ready (prepared (gopt s)) \<and> no_dangling (gopt s)"

lemma wp_tagged_loop:
  assumes "calling s" and "weight (prepared (gopt s)) < n" and "same_table t (argtable s)" and "no_nul t"
  shows "wp (tagged_loop n (alloc_shortoptions t) (alloc_longoptions t)) (\<lambda>_. parses s) (\<lambda>_. False) s"
  using assms
proof (induction n arbitrary: s)
  case (Suc n)
  let ?los = "alloc_longoptions t"
  note c = Suc.prems(1) [unfolded calling_def]
  have dash: "take 1 (alloc_shortoptions t) \<noteq> ''-''" "take 1 (alloc_shortoptions t) \<noteq> ''+''" by (simp_all add: alloc_shortoptions_def)
  have round: "wp (if r = - 1 then ret () else seq (handle_option r) (tagged_loop n (alloc_shortoptions t) ?los)) (\<lambda>_. parses s) (\<lambda>_. False) (s\<lparr>gopt := g\<rparr>)"
    if g: "call_ok ?los (gopt s) r g" for r g
  proof (cases "r = - 1")
    case True
    then show ?thesis using g by (simp add: wp_ret parses_def call_ok_def)
  next
    case False
    let ?s = "s\<lparr>gopt := g\<rparr>"
    have a: "ready g" "weight g < n" "1 \<le> optind g" "optind g \<le> length (nargv g)" "mset (nargv g) = mset (nargv (gopt s))"
      using g False Suc.prems(2) by (auto simp: call_ok_def)
    have "nat (flag_var g) < length (argtable s)" if zero: "r = 0"
    proof -
      obtain lo where "lo \<in> set ?los" "flag_var g = lo_val lo" using g False zero by (auto simp: call_ok_def)
      then show ?thesis using longoption_index(2) [of lo t] same_table_props(1) [OF Suc.prems(3)] by simp
    qed
    then have "wp (handle_option r) (\<lambda>_. table_step ?s) (\<lambda>_. False) ?s" using a c by (intro wp_handle_option) (simp_all add: good_def)
    then have "wp (handle_option r) (\<lambda>_. wp (tagged_loop n (alloc_shortoptions t) ?los) (\<lambda>_. parses s) (\<lambda>_. False)) (\<lambda>_. False) ?s"
    proof (rule wp_mono)
      fix s' assume s': "table_step ?s s'"
      then have g': "gopt s' = g" and t': "same_table (argtable s) (argtable s')" by (auto simp: table_step_def)
      have "no_dangling g" using c a(5) mset_eq_setD [OF a(5)] by (simp add: no_dangling_def)
      then have "calling s'" using c a(1) prepared_ready(1) g' same_table_props(5) [OF t'] by (simp add: calling_def)
      then have "wp (tagged_loop n (alloc_shortoptions t) ?los) (\<lambda>_. parses s') (\<lambda>_. False) s'"
        using Suc.prems(3,4) t' a(1,2) g' prepared_ready(2) [of g] by (intro Suc.IH) (auto intro: same_table_trans)
      then show "wp (tagged_loop n (alloc_shortoptions t) ?los) (\<lambda>_. parses s) (\<lambda>_. False) s'"
        by (rule wp_mono) (use g' t' a(5) in \<open>auto simp: parses_def intro: same_table_trans\<close>)
    qed simp
    then show ?thesis using False by (simp add: wp_seq)
  qed
  have "wp (getopt_long (Some (alloc_shortoptions t)) (Some ?los)) (call_ok ?los (gopt s)) (\<lambda>_. False) (gopt s)"
    using c longoption_index(1) shortoptions_no_nul [OF Suc.prems(4)] dash by (intro wp_getopt_long) auto
  then have "wp (on_getopt (getopt_long (Some (alloc_shortoptions t)) (Some ?los)))
      (\<lambda>r. wp (if r = - 1 then ret () else seq (handle_option r) (tagged_loop n (alloc_shortoptions t) ?los)) (\<lambda>_. parses s) (\<lambda>_. False)) (\<lambda>_. False) s"
    unfolding wp_on_getopt by (rule wp_mono) (use round in auto)
  then show ?case by (simp add: wp_bind)
qed simp

lemma arg_endindex_first:
  assumes "arg_endindex t = Some k"
  shows "k < length t" and "is_terminator (hdr_of (t ! k))" and "\<And>i. i < k \<Longrightarrow> \<not> is_terminator (hdr_of (t ! i))"
  using assms by (auto simp: arg_endindex_def find_Some_iff)

text \<open>What is left of a tentative error belongs to the argument at \<open>optind\<close>.\<close>

definition untagged_ok :: "parser_state \<Rightarrow> arg_error option option \<Rightarrow> parser_state \<Rightarrow> bool" where
  "untagged_ok s r s' \<longleftrightarrow> parses s s' \<and> ((\<exists>e. r = Some (Some e)) \<longrightarrow> optind (gopt s') < length (nargv (gopt s')))"

lemma wp_untagged_loop:
  assumes "good s" and "arg_endindex (argtable s) = Some k" and "i \<le> k" and "length (argtable s) - i + (length (nargv (gopt s)) - optind (gopt s)) < n"
    and "err \<noteq> None \<Longrightarrow> optind (gopt s) < length (nargv (gopt s))"
  shows "wp (untagged_loop n i err) (untagged_ok s) (\<lambda>_. False) s"
  using assms
proof (induction n arbitrary: i err s)
  case (Suc n)
  note k = arg_endindex_first [OF Suc.prems(2)]
  have i: "i < length (argtable s)" using Suc.prems(3) k(1) by simp
  have nxt: "Suc i \<le> k" if "\<not> is_terminator (hdr_of (argtable s ! i))"
    using that k(2) Suc.prems(3) by (metis Suc_leI le_neq_implies_less)
  obtain code e where e: "scanfn (argtable s ! i) (Some (nargv (gopt s) ! optind (gopt s))) = (code, e)" by fastforce
  have t: "table_step s (set_entry i e s)" using table_step_set_entry [OF same_kind_functions(2)] e by (metis snd_conv)
  let ?s = "set_entry i e s"
  have t': "same_table (argtable s) (argtable ?s)" "gopt ?s = gopt s" using t by (auto simp: table_step_def)
  have good: "good ?s" using Suc.prems(1) t' same_table_props(5) by (auto simp: good_def)
  have skip: "wp (untagged_loop n (Suc i) err') (untagged_ok s) (\<lambda>_. False) s'"
    if "table_step s s'" "\<not> is_terminator (hdr_of (argtable s ! i))" "err' \<noteq> None \<Longrightarrow> optind (gopt s) < length (nargv (gopt s))" for err' s'
  proof -
    have s': "same_table (argtable s) (argtable s')" "gopt s' = gopt s" using that(1) by (auto simp: table_step_def)
    have "wp (untagged_loop n (Suc i) err') (untagged_ok s') (\<lambda>_. False) s'"
      using Suc.prems nxt that s' same_table_props [OF s'(1)] i by (intro Suc.IH) (auto simp: good_def)
    then show ?thesis by (rule wp_mono) (use s' in \<open>auto simp: untagged_ok_def parses_def intro: same_table_trans\<close>)
  qed
  have again: "wp (untagged_loop n i None) (untagged_ok s) (\<lambda>_. False) (?s\<lparr>gopt := gopt s\<lparr>optind := Suc (optind (gopt s))\<rparr>\<rparr>)"
    if "optind (gopt s) < length (nargv (gopt s))"
  proof -
    let ?u = "?s\<lparr>gopt := gopt s\<lparr>optind := Suc (optind (gopt s))\<rparr>\<rparr>"
    have "wp (untagged_loop n i None) (untagged_ok ?u) (\<lambda>_. False) ?u"
      using Suc.prems that t' same_table_props [OF t'(1)] good by (intro Suc.IH) (auto simp: good_def)
    then show ?thesis by (rule wp_mono) (use t' in \<open>auto simp: untagged_ok_def parses_def intro: same_table_trans\<close>)
  qed
  have s: "table_step s s" "parses s s" using Suc.prems(1) by (simp_all add: table_step_def parses_def good_def)
  then have leaf: "untagged_ok s (Some err) s" "untagged_ok s None s" using Suc.prems(5) by (auto simp: untagged_ok_def)
  show ?case
  proof (cases "is_terminator (hdr_of (argtable s ! i)) \<or> length (nargv (gopt s)) \<le> optind (gopt s)")
    case True
    then show ?thesis using i leaf by (auto simp: wp_simps Let_def)
  next
    case False
    then show ?thesis using i e t t'(2) skip [OF s(1)] skip [OF t] again s(1) Suc.prems(5)
      by (auto simp: wp_simps Let_def wp_on_getopt)
  qed
qed simp

section \<open>The rest, and the whole\<close>

lemma wp_register_unused:
  assumes "good s"
  shows "wp register_unused (\<lambda>_. parses s) (\<lambda>_. False) s"
proof -
  obtain k h es where k: "arg_endindex (argtable s) = Some k" using assms by (auto simp: good_def elim: table_ok_end)
  let ?I = "\<lambda>as t. parses s t \<and> optind (gopt t) + length as = length (nargv (gopt t))"
  have "wp (for_each (drop (optind (gopt s)) (nargv (gopt s))) (\<lambda>a.
       seq (arg_register_error \<lparr>err_parent = k, err_code = ARG_ENOMATCH, err_argval = Some a\<rparr>)
           (on_getopt (modify (\<lambda>g. g\<lparr>optind := optind g + 1\<rparr>))))) (\<lambda>_. parses s) (\<lambda>_. False) s"
  proof (rule wp_for_each_inv [where I = ?I])
    show "?I (drop (optind (gopt s)) (nargv (gopt s))) s" using assms by (simp add: good_def parses_def)
  next
    fix x :: string and ys t assume I: "?I (x # ys) t"
    then have "table_ok (argtable t)" using good_parses [OF assms] by (simp add: good_def)
    then have "wp (arg_register_error e) (\<lambda>_ u. ?I ys (u\<lparr>gopt := gopt u\<lparr>optind := optind (gopt u) + 1\<rparr>\<rparr>)) (\<lambda>_. False) t" for e
      by (intro wp_mono [OF wp_arg_register_error]) (use I in \<open>auto simp: table_step_def parses_def intro: same_table_trans\<close>)
    then show "wp (seq (arg_register_error \<lparr>err_parent = k, err_code = ARG_ENOMATCH, err_argval = Some x\<rparr>)
        (on_getopt (modify (\<lambda>g. g\<lparr>optind := optind g + 1\<rparr>)))) (\<lambda>_. ?I ys) (\<lambda>_. False) t"
      by (simp add: wp_simps wp_on_getopt_fun wp_modify_fun)
  qed simp
  then show ?thesis using k by (simp add: register_unused_def wp_simps wp_the_endindex)
qed

lemma wp_arg_parse_untagged:
  assumes "good s"
  shows "wp arg_parse_untagged (\<lambda>_. parses s) (\<lambda>_. False) s"
proof -
  obtain k h es where k: "arg_endindex (argtable s) = Some k" using assms by (auto simp: good_def elim: table_ok_end)
  have unused: "wp register_unused (\<lambda>_. parses s) (\<lambda>_. False) t" if "parses s t" for t
    by (rule wp_mono [OF wp_register_unused [OF good_parses [OF assms that]]]) (auto intro: parses_trans [OF that])
  have reg: "wp (arg_register_error e) (\<lambda>_ u. wp register_unused (\<lambda>_. parses s) (\<lambda>_. False) (u\<lparr>gopt := gopt u\<lparr>optind := Suc (optind (gopt u))\<rparr>\<rparr>)) (\<lambda>_. False) t"
    if p: "parses s t" "optind (gopt t) < length (nargv (gopt t))" for e t
  proof (rule wp_mono [OF wp_arg_register_error])
    show "table_ok (argtable t)" using good_parses [OF assms p(1)] by (simp add: good_def)
    show "wp register_unused (\<lambda>_. parses s) (\<lambda>_. False) (u\<lparr>gopt := gopt u\<lparr>optind := Suc (optind (gopt u))\<rparr>\<rparr>)" if "table_step t u" for u
      by (rule unused) (use p that in \<open>auto simp: table_step_def parses_def intro: same_table_trans\<close>)
  qed simp
  have "wp (untagged_loop (length (argtable s) + length (nargv (gopt s)) + 1) 0 None) (untagged_ok s) (\<lambda>_. False) s"
    using assms k by (intro wp_untagged_loop) simp_all
  then have "wp (untagged_loop (length (argtable s) + length (nargv (gopt s)) + 1) 0 None)
      (\<lambda>r. wp (case r of
       None \<Rightarrow> ret ()
     | Some errorlast \<Rightarrow>
         seq (case errorlast of None \<Rightarrow> ret ()
              | Some e \<Rightarrow> seq (arg_register_error e) (on_getopt (modify (\<lambda>g. g\<lparr>optind := optind g + 1\<rparr>))))
             register_unused) (\<lambda>_. parses s) (\<lambda>_. False)) (\<lambda>_. False) s"
    by (rule wp_mono) (auto simp: wp_simps wp_on_getopt_fun wp_modify_fun untagged_ok_def intro: unused reg split: option.split)
  then show ?thesis by (simp add: arg_parse_untagged_def wp_simps)
qed

text \<open>The check of an entry looks at its count only, and the terminator has none.\<close>

definition errors_of :: "arg_entry list \<Rightarrow> arg_error list" where
  "errors_of t = (case arg_endindex t of None \<Rightarrow> [] | Some k \<Rightarrow> (case t ! k of Arg_end h es \<Rightarrow> es | _ \<Rightarrow> []))"

definition checks_kept :: "arg_entry list \<Rightarrow> arg_entry list \<Rightarrow> bool" where
  "checks_kept t t' \<longleftrightarrow> length t' = length t \<and> (\<forall>i < length t. checkfn (t' ! i) = checkfn (t ! i))"

lemma wp_register_checked:
  assumes "table_ok (argtable s)"
  shows "wp (arg_register_error e) (\<lambda>_ t. checks_kept (argtable s) (argtable t) \<and> errors_of (argtable t) \<noteq> []) (\<lambda>_. False) s"
proof -
  obtain k h es where k: "arg_endindex (argtable s) = Some k" "k < length (argtable s)" "argtable s ! k = Arg_end h es" "0 < maxcount h"
    using assms by (rule table_ok_end)
  have "checks_kept (argtable s) ((argtable s)[k := Arg_end h es'])" for es' using k by (auto simp: checks_kept_def nth_list_update)
  moreover have "arg_endindex ((argtable s)[k := Arg_end h es']) = Some k" for es'
  proof -
    have "same_kind (argtable s ! k) (Arg_end h es')" using k(3) by (simp add: same_kind_def places_ok_def count_ok_def)
    then show ?thesis using same_table_props(3) [OF same_table_update] k(1) by metis
  qed
  ultimately show ?thesis using k by (auto simp: arg_register_error_def wp_simps wp_the_endindex set_entry_def errors_of_def)
qed

lemma wp_arg_parse_check:
  assumes "table_ok (argtable s)" and k: "arg_endindex (argtable s) = Some k"
  shows "wp arg_parse_check (\<lambda>_ t. table_step s t \<and> (errors_of (argtable t) = [] \<longrightarrow> (\<forall>i \<le> k. checkfn (argtable t ! i) = 0))) (\<lambda>_. False) s"
proof -
  let ?I = "\<lambda>is t. table_step s t \<and> (errors_of (argtable t) = [] \<longrightarrow> (\<forall>i \<le> k. i \<notin> set is \<longrightarrow> checkfn (argtable t ! i) = 0))"
  have "wp (for_each [0..<k + 1] (\<lambda>i. bind (gets (\<lambda>s. checkfn (argtable s ! i))) (\<lambda>code.
       if code \<noteq> 0 then arg_register_error \<lparr>err_parent = i, err_code = code, err_argval = None\<rparr> else ret ())))
       (\<lambda>_ t. table_step s t \<and> (errors_of (argtable t) = [] \<longrightarrow> (\<forall>i \<le> k. checkfn (argtable t ! i) = 0))) (\<lambda>_. False) s"
  proof (rule wp_for_each_inv [where I = ?I])
    show "?I [0..<k + 1] s" by (auto simp: table_step_def)
  next
    fix i ys t assume I: "?I (i # ys) t"
    then have t: "table_ok (argtable t)" using table_step_ok [OF _ assms(1)] by blast
    show "wp (bind (gets (\<lambda>s. checkfn (argtable s ! i))) (\<lambda>code.
       if code \<noteq> 0 then arg_register_error \<lparr>err_parent = i, err_code = code, err_argval = None\<rparr> else ret ())) (\<lambda>_. ?I ys) (\<lambda>_. False) t"
    proof (cases "checkfn (argtable t ! i) = 0")
      case True
      then show ?thesis using I by (auto simp: wp_simps)
    next
      case False
      have "wp (arg_register_error e) (\<lambda>_. ?I ys) (\<lambda>_. False) t" for e
        by (rule wp_mono [OF wp_conjI [OF wp_register_checked [OF t] wp_register_after [of s t]]]) (use I assms(1) in auto)
      then show ?thesis using False by (simp add: wp_simps)
    qed
  qed simp
  then show ?thesis using k by (simp add: arg_parse_check_def wp_simps wp_the_endindex)
qed

lemma wp_error_count:
  assumes "table_ok (argtable s)"
  shows "wp error_count Q E s = Q (length (errors_of (argtable s))) s"
  using assms by (rule table_ok_end) (simp add: error_count_def errors_of_def wp_simps wp_the_endindex)

lemma wp_arg_reset:
  assumes "arg_endindex (argtable s) = Some k"
  shows "wp arg_reset Q E s = Q () (s\<lparr>argtable := map resetfn (take (k + 1) (argtable s)) @ drop (k + 1) (argtable s)\<rparr>)"
  using assms by (simp add: arg_reset_def wp_simps wp_the_endindex)

lemma same_table_reset: "same_table t (map resetfn (take m t) @ drop m t)"
  by (auto simp: same_table_def list_all2_conv_all_nth nth_append same_kind_functions)

lemma no_nul_same:
  assumes "same_table t t'"
  shows "no_nul t' = no_nul t"
proof -
  have e: "no_nul u \<longleftrightarrow> (\<forall>h \<in> set (map hdr_of u). case shortopts h of None \<Rightarrow> True | Some s \<Rightarrow> CHR 0x00 \<notin> set s)" for u
    by (simp add: no_nul_def)
  show ?thesis unfolding e [of t'] e [of t] same_table_props(2) [OF assms] ..
qed

definition parsed :: "parser_state \<Rightarrow> string list \<Rightarrow> nat \<Rightarrow> parser_state \<Rightarrow> bool" where
  "parsed s argv n s' \<longleftrightarrow> same_table (argtable s) (argtable s') \<and> mset (nargv (gopt s')) = mset argv \<and>
     (\<forall>i \<le> the (arg_endindex (argtable s)). count_ok (argtable s' ! i) \<and> (n = 0 \<longrightarrow> checkfn (argtable s' ! i) = 0))"

lemma wp_arg_parse:
  assumes "table_ok (argtable s)" and "no_nul (argtable s)" and "argv \<noteq> []" and dang: "\<And>a. a \<in> set argv \<Longrightarrow> \<not> dangling a"
    and fuel: "(\<Sum>a\<leftarrow>tl argv. length a + 1) < fuel"
  shows "wp (arg_parse fuel argv) (parsed s argv) (\<lambda>_. False) s"
proof -
  obtain k where k: "arg_endindex (argtable s) = Some k" "k < length (argtable s)" using assms(1) by (auto elim: table_ok_end)
  define t where "t = map resetfn (take (k + 1) (argtable s)) @ drop (k + 1) (argtable s)"
  have t: "same_table (argtable s) t" unfolding t_def by (rule same_table_reset)
  have counts: "count_ok (t ! i)" if "i \<le> k" for i
    using that k(2) by (cases "argtable s ! i") (auto simp: t_def nth_append count_ok_def)
  let ?s = "s\<lparr>argtable := t, gopt := gopt s\<lparr>nargv := argv, optind := 0, opterr := False\<rparr>\<rparr>"
  have calling: "calling ?s" "weight (prepared (gopt ?s)) < fuel"
    using prepared_start [of "gopt ?s"] assms t same_table_props(5) [OF t]
    by (auto simp: calling_def no_dangling_def rest_def drop_Suc)
  have last: "wp (bind error_count (\<lambda>n. seq (if n = 0 then arg_parse_check else ret ()) error_count)) (parsed s argv) (\<lambda>_. False) u"
    if u: "parses ?s u" "good u" for u
  proof -
    have same: "same_table t (argtable u)" "table_ok (argtable u)" using u by (simp_all add: parses_def good_def)
    then have k': "arg_endindex (argtable u) = Some k" using k(1) same_table_props(3) [OF t] same_table_props(3) [OF same(1)] by simp
    have result: "parsed s argv n v"
      if "table_step u v" "n = 0 \<Longrightarrow> \<forall>i \<le> k. checkfn (argtable v ! i) = 0" for n v
    proof -
      have v: "same_table t (argtable v)" using that(1) same(1) by (auto simp: table_step_def intro: same_table_trans)
      have "count_ok (argtable v ! i)" if "i \<le> k" for i
        using v counts [OF that] that k(2) same_table_props(1) [OF t] by (auto simp: same_table_def list_all2_conv_all_nth same_kind_def)
      then show ?thesis using v t k(1) u(1) that by (auto simp: parsed_def parses_def table_step_def intro: same_table_trans)
    qed
    have "wp arg_parse_check (\<lambda>_. wp error_count (parsed s argv) (\<lambda>_. False)) (\<lambda>_. False) u"
    proof (rule wp_mono [OF wp_arg_parse_check [OF same(2) k']])
      fix v assume "table_step u v \<and> (errors_of (argtable v) = [] \<longrightarrow> (\<forall>i \<le> k. checkfn (argtable v ! i) = 0))"
      then show "wp error_count (parsed s argv) (\<lambda>_. False) v"
        using table_step_ok [of u v] same(2) by (auto simp: wp_error_count intro!: result)
    qed simp
    moreover have "table_step u u" by (simp add: table_step_def)
    ultimately show ?thesis using same(2) result [of u] by (auto simp: wp_simps wp_error_count)
  qed
  have "wp (tagged_loop fuel (alloc_shortoptions t) (alloc_longoptions t)) (\<lambda>_. parses ?s) (\<lambda>_. False) ?s"
    using calling no_nul_same [OF t] assms(2) by (intro wp_tagged_loop) simp_all
  then have "wp (tagged_loop fuel (alloc_shortoptions t) (alloc_longoptions t))
      (\<lambda>_. wp arg_parse_untagged (\<lambda>_. wp (bind error_count (\<lambda>n. seq (if n = 0 then arg_parse_check else ret ()) error_count)) (parsed s argv) (\<lambda>_. False)) (\<lambda>_. False))
      (\<lambda>_. False) ?s"
  proof (rule wp_mono)
    fix u assume u: "parses ?s u"
    have good: "good u" using u calling(1) same_table_props(5) [of t "argtable u"] by (auto simp: good_def parses_def calling_def)
    show "wp arg_parse_untagged (\<lambda>_. wp (bind error_count (\<lambda>n. seq (if n = 0 then arg_parse_check else ret ()) error_count)) (parsed s argv) (\<lambda>_. False)) (\<lambda>_. False) u"
      by (rule wp_mono [OF wp_arg_parse_untagged [OF good]]) (auto intro: last parses_trans [OF u] good_parses [OF good])
  qed simp
  then show ?thesis
    using k(1) assms(3) by (simp add: arg_parse_def wp_simps wp_arg_reset wp_on_getopt arg_parse_tagged_def wp_seq t_def [symmetric, simplified])
qed

text \<open>C21: with a table that has a terminator, and when no argument is a cluster of short options that ends in a dash, \<open>arg_parse\<close> returns
  without undefined behaviour, within as many calls of \<open>getopt_long\<close> as the arguments behind the first have characters, with one for
  each and one more; the arguments are only put in another order.
\<close>

theorem arg_parse_terminates:
  assumes "table_ok (argtable s)" and "no_nul (argtable s)" and "argv \<noteq> []" and "\<And>a. a \<in> set argv \<Longrightarrow> \<not> dangling a"
    and "(\<Sum>a\<leftarrow>tl argv. length a + 1) < fuel"
  shows "\<exists>n s'. arg_parse fuel argv s = Returns n s' \<and> mset (nargv (gopt s')) = mset argv"
  using wp_arg_parse [OF assms] by (auto simp: wp_returns_iff parsed_def)

text \<open>C24: when \<open>arg_parse\<close> returns that there are no errors, every entry up to the terminator has been found at least \<open>mincount\<close> and at most
  \<open>maxcount\<close> times.
\<close>

theorem arg_parse_counts:
  assumes "table_ok (argtable s)" and "no_nul (argtable s)" and "argv \<noteq> []" and "\<And>a. a \<in> set argv \<Longrightarrow> \<not> dangling a"
    and "(\<Sum>a\<leftarrow>tl argv. length a + 1) < fuel" and "arg_parse fuel argv s = Returns 0 s'"
    and "arg_endindex (argtable s) = Some k" and "i < k" and "argtable s ! i = Arg_lit h n \<or> argtable s ! i = Arg_str h n sval"
  shows "count_of (argtable s' ! i) \<in> {mincount h..maxcount h}"
proof -
  have p: "parsed s argv 0 s'" using wp_returns [OF wp_arg_parse [OF assms(1-5)] assms(6)] .
  have "i < length (argtable s)" using arg_endindex_first(1) [OF assms(7)] assms(8) by simp
  then have "same_kind (argtable s ! i) (argtable s' ! i)" using p by (auto simp: parsed_def same_table_def list_all2_conv_all_nth)
  moreover have "count_ok (argtable s' ! i)" "checkfn (argtable s' ! i) = 0" using p assms(7,8) by (auto simp: parsed_def)
  moreover have "ARG_ERR_MINCOUNT \<noteq> 0" by (simp add: ARG_ERR_MINCOUNT_def)
  ultimately show ?thesis using assms(9)
    by (cases "argtable s' ! i") (auto simp: same_kind_def count_ok_def split: if_splits)
qed


text \<open>The command line of the tool that only names the subcommand.\<close>

definition example_parser :: parser_state where
  "example_parser = \<lparr>argtable = [arg_str1 None None (Some ''store'') None, arg_lit0 (Some ''h'') (Some ''help'') None, arg_end 20],
    gopt = \<lparr>nargv = [], optind = 1, optopt = 63, opterr = True, optreset = False, optarg = None, place = '''', place_at_start = False,
      nonopt_start = None, nonopt_end = None, posixly_correct = None, dash_prefix = '''', flag_var = 0, env_posixly_correct = False, warnings = []\<rparr>\<rparr>"

lemma example_parser_ok:
  "table_ok (argtable example_parser)" "no_nul (argtable example_parser)" "arg_endindex (argtable example_parser) = Some 2"
  "a \<in> set [''switch-os'', ''store''] \<Longrightarrow> \<not> dangling a"
  by (code_simp, code_simp, code_simp, auto simp: dangling_def)

theorem arg_parse_terminates_witness:
  "\<exists>n s'. arg_parse 7 [''switch-os'', ''store''] example_parser = Returns n s' \<and> mset (nargv (gopt s')) = {#''switch-os'', ''store''#}"
  using arg_parse_terminates [OF example_parser_ok(1,2) _ example_parser_ok(4), of "[''switch-os'', ''store'']" 7] by (simp add: add_mset_commute)

lemma example_parser_run:
  "(case arg_parse 7 [''switch-os'', ''store''] example_parser of Returns n s' \<Rightarrow> n = 0 | _ \<Rightarrow> False)"
  by code_simp

theorem arg_parse_counts_witness:
  "\<exists>s'. arg_parse 7 [''switch-os'', ''store''] example_parser = Returns 0 s' \<and> count_of (argtable s' ! 0) \<in> {1..1}"
proof -
  obtain s' where r: "arg_parse 7 [''switch-os'', ''store''] example_parser = Returns 0 s'"
    using example_parser_run by (auto split: outcome.splits)
  show ?thesis
    using arg_parse_counts [OF example_parser_ok(1,2) _ example_parser_ok(4) _ r example_parser_ok(3), where i = 0] r
    by (auto simp: example_parser_def arg_str1_def arg_strn_def)
qed

end
