(* ===== verification/CliArgs.thy ===== *)
theory CliArgs
  imports Cli ArgParseProps
begin

text \<open>
  What the option parser makes of the command lines of the tool: a subcommand with an option or an argument behind it.
\<close>

lemmas run_defs = bind_def seq_def modify_def gets_def ret_def defined_if_def faults_def zoom_def

definition lit_lo :: "string \<Rightarrow> int \<Rightarrow> long_option" where
  "lit_lo name i = \<lparr>lo_name = name, has_arg = 0, has_flag = True, lo_val = i\<rparr>"

lemma op_table_options:
  "arg_endindex (op_table name txt) = Some 4" "alloc_shortoptions (op_table name txt) = '':h''"
  "map resetfn (take 5 (op_table name txt)) @ drop 5 (op_table name txt) = op_table name txt"
  "alloc_longoptions (op_table name txt) = [lit_lo ''help'' 2, lit_lo ''lazy'' 3]"
  by (simp_all add: op_table_def arg_endindex_def arg_str1_def arg_str0_def arg_strn_def arg_lit0_def arg_litn_def arg_end_def alloc_shortoptions_def entries_def
    alloc_longoptions_def lit_lo_def Let_def split_commas.simps upt_rec no_argument_def)

lemma options_end:
  assumes "\<not> env_posixly_correct g" and "take 1 cmd \<noteq> ''-''"
  shows "getopt_long (Some '':h'') (Some los) (g\<lparr>nargv := [x, cmd], optind := 0, opterr := False\<rparr>) = Returns (- 1)
     (g\<lparr>nargv := [x, cmd], optind := 1, opterr := False, optreset := False, posixly_correct := Some False, optarg := None, nonopt_start := None, nonopt_end := None,
       place := ''''\<rparr>)"
  using assms
  by (simp add: getopt_long_def getopt_internal_def run_defs Let_def no_more_nonopts_def eval_nat_numeral)

lemma wp_run: "m s = Returns a t \<Longrightarrow> wp m Q E s = Q a t"
  by (simp add: wp_def)

definition op_hdr :: "string \<Rightarrow> arg_hdr" where
  "op_hdr name = \<lparr>is_terminator = False, has_value = True, has_opt_value = False, shortopts = None, longopts = None, datatype_text = Some name, glossary = None, mincount = 1, maxcount = 1\<rparr>"

lemma arg_str1_entry: "arg_str1 None None (Some name) None = Arg_str (op_hdr name) 0 ['''']"
  by (simp add: arg_str1_def arg_strn_def op_hdr_def eval_nat_numeral)

lemma wp_untagged_operand:
  assumes "t = Arg_str (op_hdr name) 0 [''''] # es" and "nargv g = v @ [cmd]" and "optind g = length v"
  shows "wp arg_parse_untagged Q E \<lparr>argtable = t, gopt = g\<rparr> = 
    Q () \<lparr>argtable = Arg_str (op_hdr name) 1 [cmd] # es, gopt = g\<lparr>optind := length v + 1\<rparr>\<rparr>"
  using assms by (simp add: arg_parse_untagged_def wp_simps wp_on_getopt set_entry_def op_hdr_def Let_def)

lemma wp_check_end:
  assumes "arg_endindex t = Some k" and "t ! k = arg_end m" and "\<forall>e \<in> set (take (k + 1) t). checkfn e = 0"
  shows "wp (bind error_count (\<lambda>n. seq (if n = 0 then arg_parse_check else ret ()) error_count)) Q E \<lparr>argtable = t, gopt = g\<rparr> = Q 0 \<lparr>argtable = t, gopt = g\<rparr>"
proof -
  let ?s = "\<lparr>argtable = t, gopt = g\<rparr>"
  have "k < length t" using assms(1) by (rule arg_endindex_first(1))
  have each: "wp (for_each is (\<lambda>i. bind (gets (\<lambda>s. checkfn (argtable s ! i))) (\<lambda>code.
       if code \<noteq> 0 then arg_register_error \<lparr>err_parent = i, err_code = code, err_argval = None\<rparr> else ret ()))) Q E ?s = Q () ?s"
    if "set is \<subseteq> {..k}" for "is" Q E using that
  proof (induction "is")
    case (Cons i "is")
    then have "take (k + 1) t ! i \<in> set (take (k + 1) t)" using \<open>k < length t\<close> by (intro nth_mem) simp
    then have "checkfn (t ! i) = 0" using assms(3) Cons.prems by auto
    then show ?case using Cons by (simp add: wp_simps)
  qed (simp add: wp_simps)
  have count: "wp error_count Q E ?s = Q 0 ?s" for Q E
    using assms(1,2) by (simp add: error_count_def wp_simps wp_the_endindex arg_end_def)
  have "wp arg_parse_check Q E ?s = Q () ?s" for Q E
    using assms(1) each [of "[0..<k + 1]"]
    by (simp add: arg_parse_check_def wp_bind [of the_endindex] wp_the_endindex subset_eq less_Suc_eq_le del: upt_Suc)
  then show ?thesis by (simp add: wp_simps count)
qed

lemma wp_to_run: "(\<And>Q. wp m Q (\<lambda>_. False) s = Q a t) \<Longrightarrow> m s = Returns a t"
  by (drule meta_spec [of _ "\<lambda>b u. b = a \<and> u = t"]) (simp add: wp_def split: outcome.splits)

text \<open>The parts of a call that finds no error.\<close>

lemma parse_parts:
  assumes "arg_endindex t = Some k" and "map resetfn (take (k + 1) t) @ drop (k + 1) t = t" and "argv \<noteq> []"
    and tagged: "arg_parse_tagged fuel \<lparr>argtable = t, gopt = g\<lparr>nargv := argv\<rparr>\<rparr> = Returns () s1"
    and untagged: "\<And>Q E. wp arg_parse_untagged Q E s1 = Q () \<lparr>argtable = u, gopt = g2\<rparr>"
    and fin: "arg_endindex u = Some k" "u ! k = arg_end m" "\<forall>e \<in> set (take (k + 1) u). checkfn e = 0"
  shows "arg_parse fuel argv \<lparr>argtable = t, gopt = g\<rparr> = Returns 0 \<lparr>argtable = u, gopt = g2\<rparr>"
proof (rule wp_to_run)
  fix Q :: "nat \<Rightarrow> parser_state \<Rightarrow> bool"
  have p: "arg_parse fuel argv = seq arg_reset (seq (on_getopt (modify (\<lambda>g. g\<lparr>nargv := argv\<rparr>)))
      (seq (arg_parse_tagged fuel) (seq arg_parse_untagged (bind error_count (\<lambda>n. seq (if n = 0 then arg_parse_check else ret ()) error_count)))))"
    using assms(3) by (simp add: arg_parse_def)
  have "wp arg_reset Q E \<lparr>argtable = t, gopt = g\<rparr> = Q () \<lparr>argtable = t, gopt = g\<rparr>" for Q E
    using wp_arg_reset [of "\<lparr>argtable = t, gopt = g\<rparr>" k] assms(1,2) by simp
  then show "wp (arg_parse fuel argv) Q (\<lambda>_. False) \<lparr>argtable = t, gopt = g\<rparr> = Q 0 \<lparr>argtable = u, gopt = g2\<rparr>"
    unfolding p wp_seq
    by (simp only: wp_on_getopt wp_modify wp_run [where m = "arg_parse_tagged _", OF tagged] untagged wp_check_end [OF fin] parser_state.simps parser_state.update_convs)
qed

text \<open>The options are parsed, the subcommand's name is left.\<close>

lemma parse_run:
  assumes "arg_endindex t = Some k" and "map resetfn (take (k + 1) t) @ drop (k + 1) t = t" and "argv \<noteq> []"
    and "arg_parse_tagged fuel \<lparr>argtable = t, gopt = g\<lparr>nargv := argv\<rparr>\<rparr> = Returns () \<lparr>argtable = Arg_str (op_hdr name) 0 [''''] # es, gopt = g1\<rparr>"
    and "nargv g1 = v @ [cmd]" and "optind g1 = length v"
    and "arg_endindex (Arg_str (op_hdr name) 1 [cmd] # es) = Some k" and "(Arg_str (op_hdr name) 1 [cmd] # es) ! k = arg_end m"
    and "\<forall>e \<in> set (take (k + 1) (Arg_str (op_hdr name) 1 [cmd] # es)). checkfn e = 0"
  shows "arg_parse fuel argv \<lparr>argtable = t, gopt = g\<rparr> =
    Returns 0 \<lparr>argtable = Arg_str (op_hdr name) 1 [cmd] # es, gopt = g1\<lparr>optind := length v + 1\<rparr>\<rparr>"
  by (rule parse_parts [OF assms(1-4) wp_untagged_operand [OF refl assms(5,6)] assms(7-9)])

lemma long_option_then_end:
  assumes "\<not> env_posixly_correct g" and "take 1 cmd \<noteq> ''-''" and "l \<noteq> ''''" and "CHR ''='' \<notin> set l"
    and "match_long False False l los 0 None False = (Some (j, lit_lo l i), True, second)" and "take 1 l \<noteq> ''-''"
  shows "\<exists>g1 g2. getopt_long (Some '':h'') (Some los) (g\<lparr>nargv := [x, cmd, ''--'' @ l], optind := 0, opterr := False\<rparr>) = Returns 0 g1 \<and>
      flag_var g1 = i \<and> optarg g1 = None \<and> getopt_long (Some '':h'') (Some los) g1 = Returns (- 1) g2 \<and>
      nargv g2 = [x, ''--'' @ l, cmd] \<and> optind g2 = 2"
proof -
  let ?argv = "[x, cmd, ''--'' @ l]"
  let ?g1 = "g\<lparr>nargv := ?argv, optind := 3, opterr := False, optreset := False, posixly_correct := Some False, optarg := None, nonopt_start := Some 1, nonopt_end := Some 2,
       place := '''', place_at_start := False, dash_prefix := ''--'', flag_var := i\<rparr>"
  let ?g2 = "?g1\<lparr>nargv := [x, ''--'' @ l, cmd], optind := 2, nonopt_start := None, nonopt_end := None\<rparr>"
  have eq: "split_equal l = (l, None)" 
  proof -
    have "takeWhile (\<lambda>c. c \<noteq> CHR ''='') l = l" using assms(4) by (simp add: takeWhile_eq_all_conv) metis
    then show ?thesis unfolding split_equal_def Let_def by (simp only: less_irrefl if_False)
  qed
  have "getopt_long (Some '':h'') (Some los) (g\<lparr>nargv := ?argv, optind := 0, opterr := False\<rparr>) = Returns 0 ?g1"
    using assms(1-3,5,6) eq
    by (simp add: getopt_long_def getopt_internal_def parse_option_def parse_long_options_def run_defs Let_def no_more_nonopts_def eval_nat_numeral lit_lo_def
       no_argument_def required_argument_def optional_argument_def)
  moreover have "permute_args 1 2 3 ?argv = [x, ''--'' @ l, cmd]"
    using permute_args_exchanges [of 1 2 3 ?argv] by (simp add: eval_nat_numeral)
  then have "getopt_long (Some '':h'') (Some los) ?g1 = Returns (- 1) ?g2"
    by (simp add: getopt_long_def getopt_internal_def run_defs Let_def no_more_nonopts_def eval_nat_numeral permute_nonopts_def skipped_def)
  ultimately show ?thesis by (intro exI [of _ ?g1] exI [of _ ?g2]) simp
qed

lemma tagged_no_option:
  assumes "alloc_shortoptions t = '':h''" and "\<not> env_posixly_correct g" and "take 1 cmd \<noteq> ''-''"
  shows "\<exists>g1. arg_parse_tagged (Suc n) \<lparr>argtable = t, gopt = g\<lparr>nargv := [x, cmd]\<rparr>\<rparr> = Returns () \<lparr>argtable = t, gopt = g1\<rparr> \<and>
    nargv g1 = [x, cmd] \<and> optind g1 = 1"
  using assms(1) options_end [OF assms(2,3), of "alloc_longoptions t" x]
  by (simp add: arg_parse_tagged_def on_getopt_def run_defs)

lemma tagged_long_option:
  assumes "alloc_shortoptions t = '':h''" and "\<not> env_posixly_correct g" and "take 1 cmd \<noteq> ''-''" and "l \<noteq> ''''" and "CHR ''='' \<notin> set l"
    and "take 1 l \<noteq> ''-''" and "match_long False False l (alloc_longoptions t) 0 None False = (Some (j, lit_lo l (int i)), True, second)"
    and "i < length t" and "t ! i = Arg_lit h 0" and "0 < maxcount h" and "\<not> has_value h" and "arg_endindex t = Some k"
  shows "\<exists>g1. arg_parse_tagged (Suc (Suc n)) \<lparr>argtable = t, gopt = g\<lparr>nargv := [x, cmd, ''--'' @ l]\<rparr>\<rparr> =
      Returns () \<lparr>argtable = t[i := Arg_lit h 1], gopt = g1\<rparr> \<and> nargv g1 = [x, ''--'' @ l, cmd] \<and> optind g1 = 2"
proof -
  obtain g1 g2 where g: "getopt_long (Some '':h'') (Some (alloc_longoptions t)) (g\<lparr>nargv := [x, cmd, ''--'' @ l], optind := 0, opterr := False\<rparr>) = Returns 0 g1"
    "flag_var g1 = int i" "optarg g1 = None" "getopt_long (Some '':h'') (Some (alloc_longoptions t)) g1 = Returns (- 1) g2"
    "nargv g2 = [x, ''--'' @ l, cmd]" "optind g2 = 2"
    using long_option_then_end [OF assms(2-5,7,6)] by metis
  have "handle_option 0 \<lparr>argtable = t, gopt = g1\<rparr> = Returns () \<lparr>argtable = t[i := Arg_lit h 1], gopt = g1\<rparr>"
    by (rule wp_to_run) (simp add: handle_option_def wp_simps wp_the_endindex assms(8-12) g(2,3) Let_def scan_option_def set_entry_def)
  then show ?thesis using assms(1) g by (simp add: arg_parse_tagged_def on_getopt_def run_defs)
qed

section \<open>The tables of the subcommands\<close>

lemmas entry_defs = arg_str1_entry arg_str0_def arg_strn_def arg_lit0_def arg_litn_def arg_end_def

lemma help_table_options:
  "arg_endindex help_table = Some 3" "alloc_shortoptions help_table = '':h''"
  "map resetfn (take (3 + 1) help_table) @ drop (3 + 1) help_table = help_table"
  "alloc_longoptions help_table = [lit_lo ''help'' 2]"
  by (simp_all add: help_table_def entry_defs op_hdr_def arg_endindex_def alloc_shortoptions_def entries_def
    alloc_longoptions_def lit_lo_def Let_def split_commas.simps upt_rec no_argument_def)

text \<open>The tables with what was seen: the subcommand, how often \<open>--help\<close> and \<open>--lazy\<close>.\<close>

definition op_seen :: "string \<Rightarrow> string \<Rightarrow> string \<Rightarrow> nat \<Rightarrow> nat \<Rightarrow> arg_entry list" where
  "op_seen name txt cmd h l = [Arg_str (op_hdr name) 1 [cmd], arg_str0 None None (Some ''<command>'') None,
     Arg_lit (hdr_of (arg_lit0 (Some ''h'') (Some ''help'') (Some ''Output usage information''))) h,
     Arg_lit (hdr_of (arg_lit0 None (Some ''lazy'') (Some txt))) l, arg_end 20]"

definition help_seen :: "string \<Rightarrow> nat \<Rightarrow> arg_entry list" where
  "help_seen cmd h = [Arg_str (op_hdr ''help'') 1 [cmd], arg_str0 None None (Some ''<command>'') None,
     Arg_lit (hdr_of (arg_lit0 (Some ''h'') (Some ''help'') (Some ''Output usage information''))) h, arg_end 20]"

lemma op_table_parses:
  assumes "\<not> env_posixly_correct g" and "take 1 cmd \<noteq> ''-''"
  shows "\<exists>g1. arg_parse (Suc (Suc n)) [x, cmd] \<lparr>argtable = op_table name txt, gopt = g\<rparr> = Returns 0 \<lparr>argtable = op_seen name txt cmd 0 0, gopt = g1\<rparr>"
    and "\<exists>g1. arg_parse (Suc (Suc n)) [x, cmd, ''--lazy''] \<lparr>argtable = op_table name txt, gopt = g\<rparr> = Returns 0 \<lparr>argtable = op_seen name txt cmd 0 1, gopt = g1\<rparr>"
    and "\<exists>g1. arg_parse (Suc (Suc n)) [x, cmd, ''--help''] \<lparr>argtable = op_table name txt, gopt = g\<rparr> = Returns 0 \<lparr>argtable = op_seen name txt cmd 1 0, gopt = g1\<rparr>"
proof -
  note opts = op_table_options [of name "txt"]
  have seen: "op_seen name txt cmd h l = Arg_str (op_hdr name) 1 [cmd] # tl (op_seen name txt cmd h l)" for h l by (simp add: op_seen_def)
  have fin: "arg_endindex (op_seen name txt cmd h l) = Some 4" "op_seen name txt cmd h l ! 4 = arg_end 20"
    "\<forall>e \<in> set (take (4 + 1) (op_seen name txt cmd h l)). checkfn e = 0" for h l
    by (simp_all add: op_seen_def entry_defs op_hdr_def arg_endindex_def upt_rec)
  have run: "\<exists>g2. arg_parse (Suc (Suc n)) argv \<lparr>argtable = op_table name txt, gopt = g\<rparr> = Returns 0 \<lparr>argtable = op_seen name txt cmd h l, gopt = g2\<rparr>"
    if tagged: "\<exists>g1. arg_parse_tagged (Suc (Suc n)) \<lparr>argtable = op_table name txt, gopt = g\<lparr>nargv := argv\<rparr>\<rparr> =
        Returns () \<lparr>argtable = Arg_str (op_hdr name) 0 [''''] # tl (op_seen name txt cmd h l), gopt = g1\<rparr> \<and>
        nargv g1 = v @ [cmd] \<and> optind g1 = length v" and argv: "argv \<noteq> []" for argv h l v
  proof -
    obtain g1 where g1: "arg_parse_tagged (Suc (Suc n)) \<lparr>argtable = op_table name txt, gopt = g\<lparr>nargv := argv\<rparr>\<rparr> =
        Returns () \<lparr>argtable = Arg_str (op_hdr name) 0 [''''] # tl (op_seen name txt cmd h l), gopt = g1\<rparr>"
        "nargv g1 = v @ [cmd]" "optind g1 = length v" using tagged by blast
    have r: "map resetfn (take (4 + 1) (op_table name txt)) @ drop (4 + 1) (op_table name txt) = op_table name txt" using opts(3) by simp
    show ?thesis
      using parse_run [OF opts(1) r argv g1, unfolded seen [symmetric], OF fin] by blast
  qed
  have start: "op_table name txt = Arg_str (op_hdr name) 0 [''''] # tl (op_seen name txt cmd 0 0)"
    by (simp add: op_table_def op_seen_def entry_defs)
  show "\<exists>g1. arg_parse (Suc (Suc n)) [x, cmd] \<lparr>argtable = op_table name txt, gopt = g\<rparr> = Returns 0 \<lparr>argtable = op_seen name txt cmd 0 0, gopt = g1\<rparr>"
    using tagged_no_option [OF opts(2) assms, of "Suc n" x] by (intro run [of _ _ _ "[x]"]) (simp_all add: start [symmetric])
  have opt: "\<exists>g1. arg_parse_tagged (Suc (Suc n)) \<lparr>argtable = op_table name txt, gopt = g\<lparr>nargv := [x, cmd, ''--'' @ lo]\<rparr>\<rparr> =
        Returns () \<lparr>argtable = (op_table name txt)[i := Arg_lit h 1], gopt = g1\<rparr> \<and> nargv g1 = [x, ''--'' @ lo] @ [cmd] \<and> optind g1 = length [x, ''--'' @ lo]"
    if "(i, lo) \<in> {(2, ''help''), (3, ''lazy'')}" "op_table name txt ! i = Arg_lit h 0" "0 < maxcount h" "\<not> has_value h" for i lo h
  proof -
    have "\<exists>j b. match_long False False lo [lit_lo ''help'' 2, lit_lo ''lazy'' 3] 0 None False = (Some (j, lit_lo lo (int i)), True, b)"
      using that(1) by (auto simp: lit_lo_def)
    then obtain j b where "match_long False False lo (alloc_longoptions (op_table name txt)) 0 None False = (Some (j, lit_lo lo (int i)), True, b)"
      unfolding opts(4) by blast
    moreover have "i < length (op_table name txt)" using that(1) by (auto simp: op_table_def)
    ultimately show ?thesis
      using tagged_long_option [OF opts(2) assms _ _ _ _ _ that(2-4) opts(1), of lo j b n x] that(1) by auto
  qed
  show "\<exists>g1. arg_parse (Suc (Suc n)) [x, cmd, ''--lazy''] \<lparr>argtable = op_table name txt, gopt = g\<rparr> = Returns 0 \<lparr>argtable = op_seen name txt cmd 0 1, gopt = g1\<rparr>"
    using opt [of 3 "''lazy''"] by (intro run [of _ _ _ "[x, ''--lazy'']"]) (simp_all add: op_table_def op_seen_def entry_defs eval_nat_numeral)
  show "\<exists>g1. arg_parse (Suc (Suc n)) [x, cmd, ''--help''] \<lparr>argtable = op_table name txt, gopt = g\<rparr> = Returns 0 \<lparr>argtable = op_seen name txt cmd 1 0, gopt = g1\<rparr>"
    using opt [of 2 "''help''"] by (intro run [of _ _ _ "[x, ''--help'']"]) (simp_all add: op_table_def op_seen_def entry_defs eval_nat_numeral)
qed

lemma help_table_parses:
  assumes "\<not> env_posixly_correct g" and "take 1 cmd \<noteq> ''-''"
  shows "\<exists>g1. arg_parse (Suc (Suc n)) [x, cmd] \<lparr>argtable = help_table, gopt = g\<rparr> = Returns 0 \<lparr>argtable = help_seen cmd 0, gopt = g1\<rparr>"
    and "\<exists>g1. arg_parse (Suc (Suc n)) [x, cmd, ''--help''] \<lparr>argtable = help_table, gopt = g\<rparr> = Returns 0 \<lparr>argtable = help_seen cmd 1, gopt = g1\<rparr>"
proof -
  note opts = help_table_options
  have seen: "help_seen cmd h = Arg_str (op_hdr ''help'') 1 [cmd] # tl (help_seen cmd h)" for h by (simp add: help_seen_def)
  have fin: "arg_endindex (help_seen cmd h) = Some 3" "help_seen cmd h ! 3 = arg_end 20"
    "\<forall>e \<in> set (take (3 + 1) (help_seen cmd h)). checkfn e = 0" for h
    by (simp_all add: help_seen_def entry_defs op_hdr_def arg_endindex_def upt_rec)
  note run = parse_run [OF opts(1,3), where name = "''help''" and cmd = cmd and m = 20]
  have start: "help_table = Arg_str (op_hdr ''help'') 0 [''''] # tl (help_seen cmd 0)"
    by (simp add: help_table_def help_seen_def entry_defs)
  obtain g1 where "arg_parse_tagged (Suc (Suc n)) \<lparr>argtable = help_table, gopt = g\<lparr>nargv := [x, cmd]\<rparr>\<rparr> =
      Returns () \<lparr>argtable = Arg_str (op_hdr ''help'') 0 [''''] # tl (help_seen cmd 0), gopt = g1\<rparr>" "nargv g1 = [x] @ [cmd]" "optind g1 = length [x]"
    using tagged_no_option [OF opts(2) assms, of "Suc n" x] unfolding start [symmetric] by auto
  from run [OF _ this, unfolded seen [symmetric], OF _ fin]
  show "\<exists>g1. arg_parse (Suc (Suc n)) [x, cmd] \<lparr>argtable = help_table, gopt = g\<rparr> = Returns 0 \<lparr>argtable = help_seen cmd 0, gopt = g1\<rparr>" by blast
  have match: "match_long False False ''help'' (alloc_longoptions help_table) 0 None False = (Some (0, lit_lo ''help'' (int 2)), True, False)"
    by (simp add: opts(4) lit_lo_def)
  have "help_table[2 := Arg_lit (hdr_of (help_table ! 2)) 1] = Arg_str (op_hdr ''help'') 0 [''''] # tl (help_seen cmd 1)"
    "help_table ! 2 = Arg_lit (hdr_of (help_table ! 2)) 0" "0 < maxcount (hdr_of (help_table ! 2))" "\<not> has_value (hdr_of (help_table ! 2))" "2 < length help_table"
    by (simp_all add: help_table_def help_seen_def entry_defs)
  then obtain g2 where "arg_parse_tagged (Suc (Suc n)) \<lparr>argtable = help_table, gopt = g\<lparr>nargv := [x, cmd, ''--help'']\<rparr>\<rparr> =
      Returns () \<lparr>argtable = Arg_str (op_hdr ''help'') 0 [''''] # tl (help_seen cmd 1), gopt = g2\<rparr>" "nargv g2 = [x, ''--help''] @ [cmd]" "optind g2 = length [x, ''--help'']"
    using tagged_long_option [OF opts(2) assms _ _ _ match, of "hdr_of (help_table ! 2)" 3 n x] opts(1) by auto
  from run [OF _ this, unfolded seen [symmetric], OF _ fin]
  show "\<exists>g1. arg_parse (Suc (Suc n)) [x, cmd, ''--help''] \<lparr>argtable = help_table, gopt = g\<rparr> = Returns 0 \<lparr>argtable = help_seen cmd 1, gopt = g1\<rparr>" by blast
qed

text \<open>\<open>help\<close> with the name of a subcommand.\<close>

definition help_seen_name :: "string \<Rightarrow> string \<Rightarrow> arg_entry list" where
  "help_seen_name cmd name = (help_seen cmd 0)[1 := Arg_str (hdr_of (arg_str0 None None (Some ''<command>'') None)) 1 [name]]"

lemma help_name_parses:
  assumes "\<not> env_posixly_correct g" and "take 1 cmd \<noteq> ''-''" and "take 1 name \<noteq> ''-''"
  shows "\<exists>g1. arg_parse (Suc (Suc n)) [x, cmd, name] \<lparr>argtable = help_table, gopt = g\<rparr> = Returns 0 \<lparr>argtable = help_seen_name cmd name, gopt = g1\<rparr> \<and>
    \<not> env_posixly_correct g1"
proof -
  let ?g1 = "g\<lparr>nargv := [x, cmd, name], optind := 1, opterr := False, optreset := False, posixly_correct := Some False, optarg := None,
      nonopt_start := None, nonopt_end := None, place := ''''\<rparr>"
  have "getopt_long (Some '':h'') (Some los) (g\<lparr>nargv := [x, cmd, name], optind := 0, opterr := False\<rparr>) = Returns (- 1) ?g1" for los
    using assms by (simp add: getopt_long_def getopt_internal_def run_defs Let_def no_more_nonopts_def eval_nat_numeral)
  then have tagged: "arg_parse_tagged (Suc (Suc n)) \<lparr>argtable = help_table, gopt = g\<lparr>nargv := [x, cmd, name]\<rparr>\<rparr> = Returns () \<lparr>argtable = help_table, gopt = ?g1\<rparr>"
    by (simp add: arg_parse_tagged_def on_getopt_def run_defs help_table_options)
  have untagged: "wp arg_parse_untagged Q E \<lparr>argtable = help_table, gopt = ?g1\<rparr> = Q () \<lparr>argtable = help_seen_name cmd name, gopt = ?g1\<lparr>optind := 3\<rparr>\<rparr>" for Q E
    by (simp add: arg_parse_untagged_def wp_simps wp_on_getopt set_entry_def help_table_def help_seen_name_def help_seen_def entry_defs op_hdr_def Let_def eval_nat_numeral ARG_ERR_MAXCOUNT_def)
  have fin: "arg_endindex (help_seen_name cmd name) = Some 3" "help_seen_name cmd name ! 3 = arg_end 20"
    "\<forall>e \<in> set (take (3 + 1) (help_seen_name cmd name)). checkfn e = 0"
    by (simp_all add: help_seen_name_def help_seen_def entry_defs op_hdr_def arg_endindex_def upt_rec)
  have "arg_parse (Suc (Suc n)) [x, cmd, name] \<lparr>argtable = help_table, gopt = g\<rparr> = Returns 0 \<lparr>argtable = help_seen_name cmd name, gopt = ?g1\<lparr>optind := 3\<rparr>\<rparr>"
    by (rule parse_parts [OF help_table_options(1,3) _ tagged untagged fin]) simp
  then show ?thesis using assms(1) by (intro exI [of _ "?g1\<lparr>optind := 3\<rparr>"]) simp
qed

section \<open>What the handlers find\<close>

lemma parse_args_run:
  assumes "arg_parse fuel argv \<lparr>argtable = t, gopt = statics c\<rparr> = Returns n \<lparr>argtable = t', gopt = g\<rparr>"
  shows "parse_args fuel argv t c = Returns (n, t') (c\<lparr>statics := g\<rparr>)"
  using assms by (simp add: parse_args_def)

lemmas tables = store_table_def switch_table_def

text \<open>The counts that a handler reads.\<close>

lemma seen_counts:
  "lit_count (op_seen name txt cmd h l ! 2) = h" "lit_count (op_seen name txt cmd h l ! 3) = l"
  "lit_count (help_seen cmd h ! 2) = h" "str_values (help_seen cmd h ! 1) = []"
  "lit_count (help_seen_name cmd name ! 2) = 0" "str_values (help_seen_name cmd name ! 1) = [name]"
  by (simp_all add: op_seen_def help_seen_def help_seen_name_def entry_defs lit_count_def str_values_def)

text \<open>The command line of \<open>store\<close> or \<open>switch\<close>, with \<open>--lazy\<close> or without.\<close>

definition op_line :: "string \<Rightarrow> string \<Rightarrow> bool \<Rightarrow> string list" where
  "op_line x cmd is_lazy = [x, cmd] @ (if is_lazy then [''--lazy''] else [])"

lemma op_args:
  assumes "\<not> env_posixly_correct (statics c)" and "take 1 cmd \<noteq> ''-''" and "2 \<le> fuel"
  shows "\<exists>g. parse_args fuel (op_line x cmd is_lazy) (op_table name txt) c = Returns (0, op_seen name txt cmd 0 (if is_lazy then 1 else 0)) (c\<lparr>statics := g\<rparr>)"
    and "\<exists>g. parse_args fuel [x, cmd, ''--help''] (op_table name txt) c = Returns (0, op_seen name txt cmd 1 0) (c\<lparr>statics := g\<rparr>)"
proof -
  obtain n where n: "fuel = Suc (Suc n)" using assms(3) by (metis Suc_le_D numeral_2_eq_2 Suc_le_mono)
  note p = op_table_parses [OF assms(1,2), of n x name "txt"]
  show "\<exists>g. parse_args fuel (op_line x cmd is_lazy) (op_table name txt) c = Returns (0, op_seen name txt cmd 0 (if is_lazy then 1 else 0)) (c\<lparr>statics := g\<rparr>)"
    unfolding n op_line_def using p(1,2) parse_args_run by (cases is_lazy) fastforce+
  show "\<exists>g. parse_args fuel [x, cmd, ''--help''] (op_table name txt) c = Returns (0, op_seen name txt cmd 1 0) (c\<lparr>statics := g\<rparr>)"
    unfolding n using p(3) parse_args_run by fastforce
qed

lemma help_args:
  assumes "\<not> env_posixly_correct (statics c)" and "take 1 cmd \<noteq> ''-''" and "2 \<le> fuel"
  shows "\<exists>g. parse_args fuel [x, cmd] help_table c = Returns (0, help_seen cmd 0) (c\<lparr>statics := g\<rparr>)"
    and "\<exists>g. parse_args fuel [x, cmd, ''--help''] help_table c = Returns (0, help_seen cmd 1) (c\<lparr>statics := g\<rparr>)"
    and "take 1 name \<noteq> ''-'' \<Longrightarrow> \<exists>g. parse_args fuel [x, cmd, name] help_table c = Returns (0, help_seen_name cmd name) (c\<lparr>statics := g\<rparr>) \<and>
      \<not> env_posixly_correct g"
proof -
  obtain n where n: "fuel = Suc (Suc n)" using assms(3) by (metis Suc_le_D numeral_2_eq_2 Suc_le_mono)
  note p = help_table_parses [OF assms(1,2), of n x]
  show "\<exists>g. parse_args fuel [x, cmd] help_table c = Returns (0, help_seen cmd 0) (c\<lparr>statics := g\<rparr>)"
    unfolding n using p(1) parse_args_run by fastforce
  show "\<exists>g. parse_args fuel [x, cmd, ''--help''] help_table c = Returns (0, help_seen cmd 1) (c\<lparr>statics := g\<rparr>)"
    unfolding n using p(2) parse_args_run by fastforce
  show "\<exists>g. parse_args fuel [x, cmd, name] help_table c = Returns (0, help_seen_name cmd name) (c\<lparr>statics := g\<rparr>) \<and>
      \<not> env_posixly_correct g" if "take 1 name \<noteq> ''-''"
    unfolding n using help_name_parses [OF assms(1,2) that, of n x] parse_args_run by fastforce
qed

end
