(* ===== verification/CliProps.thy ===== *)
theory CliProps
  imports CliArgs HookProps
begin

text \<open>
  What the tool does: a subcommand of the command line reaches core's header through either operating system, and \<open>help\<close>
  lists every subcommand.
\<close>

section \<open>The registered subcommands\<close>

definition info_of :: "cmd \<Rightarrow> arg_cmd_info" where
  "info_of c = \<lparr>info_name = cmd_name c, info_description = cmd_description c, info_proc = cmd_proc c, info_ctx = 0\<rparr>"

definition registered :: "'w cli \<Rightarrow> (string \<rightharpoonup> arg_cmd_info) \<Rightarrow> bool" where
  "registered c m \<longleftrightarrow> (\<exists>h. s_hashtable c = Some h \<and> ht_ok h \<and> ht_map h = m)"

lemma equal_keys_eq: "equal_keys = (=)"
  by (intro ext) (simp add: equal_keys_def)

lemma init_run:
  "\<exists>h. arg_cmd_init c = Returns () (c\<lparr>s_hashtable := Some h\<rparr>) \<and> registered (c\<lparr>s_hashtable := Some h\<rparr>) Map.empty"
proof -
  obtain h :: "(string, arg_cmd_info) arg_hashtable" where h: "arg_hashtable_create 32 hash_key (=) = Some h"
    by (rule create_ok [of 32 hash_key]) (simp_all add: push_bit_eq_mult)
  with create_cases [OF h] show ?thesis
    by (auto simp: arg_cmd_init_def equal_keys_eq modify_def registered_def)
qed

lemma register_run:
  assumes "registered c m" and "card (dom m) < 100" and "length (cmd_name x) < 100" and "length (cmd_description x) < 256"
  shows "\<exists>h. register_cmd x 0 c = Returns () (c\<lparr>s_hashtable := Some h\<rparr>) \<and>
    registered (c\<lparr>s_hashtable := Some h\<rparr>) (m(cmd_name x \<mapsto> info_of x))"
proof -
  obtain h where h: "s_hashtable c = Some h" "ht_ok h" "ht_map h = m" using assms(1) by (auto simp: registered_def)
  have room: "ht_room h" using count_card [OF h(2)] assms(2) by (simp add: ht_room_def h(3))
  note r = ht.replace [OF h(2) room, of "cmd_name x" "info_of x"]
  let ?h = "arg_hashtable_insert (if arg_hashtable_search h (cmd_name x) = None then h else arg_hashtable_remove h (cmd_name x)) (cmd_name x) (info_of x)"
  have "register_cmd x 0 c = Returns () (c\<lparr>s_hashtable := Some ?h\<rparr>)"
    using assms(3,4) h(1)
    by (simp add: register_cmd_def arg_cmd_register_def the_hashtable_def seq_def bind_def defined_if_def ret_def gets_def modify_def
        ARG_CMD_NAME_LEN_def ARG_CMD_DESCRIPTION_LEN_def Let_def info_of_def)
  with r h(3) show ?thesis by (auto simp: registered_def)
qed

lemma info_run:
  assumes "registered c m"
  shows "arg_cmd_info name c = Returns (m name) c"
  using assms search_map by (auto simp: registered_def arg_cmd_info_def the_hashtable_def bind_def gets_def ret_def)

text \<open>The state of the tool when its arguments are looked at.\<close>

definition commands :: "string \<rightharpoonup> arg_cmd_info" where
  "commands = [''help'' \<mapsto> info_of g_help_cmd, ''store'' \<mapsto> info_of g_store_cmd, ''switch'' \<mapsto> info_of g_switch_cmd]"

definition set_up :: "('w cli, unit) cfun" where
  "set_up = seq (arg_set_module_name APP_NAME)
    (seq (arg_set_module_version 1 0 0 '''')
    (seq arg_cmd_init
    (seq (register_cmd g_help_cmd 0)
    (seq (register_cmd g_store_cmd 0)
    (seq (register_cmd g_switch_cmd 0)
         (modify (\<lambda>c. c\<lparr>res := ''''\<rparr>)))))))"

lemma commands_short:
  "length (cmd_name g_help_cmd) < 100" "length (cmd_description g_help_cmd) < 256"
  "length (cmd_name g_store_cmd) < 100" "length (cmd_description g_store_cmd) < 256"
  "length (cmd_name g_switch_cmd) < 100" "length (cmd_description g_switch_cmd) < 256"
  by (simp_all add: g_help_cmd_def g_store_cmd_def g_switch_cmd_def)

lemma set_up_run:
  "\<exists>h. set_up c = Returns () (c\<lparr>s_module_name := Some APP_NAME, s_mod_ver := Some ''1.0.0.'', s_hashtable := Some h, res := ''''\<rparr>) \<and>
    ht_ok h \<and> ht_map h = commands"
proof -
  let ?c = "c\<lparr>s_module_name := Some APP_NAME, s_mod_ver := Some ''1.0.0.''\<rparr>"
  have ver: "numeral_of 1 @ ''.'' @ numeral_of 0 @ ''.'' @ numeral_of 0 @ ''.'' @ '''' = ''1.0.0.''"
    by code_simp
  obtain h0 where h0: "arg_cmd_init ?c = Returns () (?c\<lparr>s_hashtable := Some h0\<rparr>)" "registered (?c\<lparr>s_hashtable := Some h0\<rparr>) Map.empty"
    using init_run [of ?c] by blast
  let ?m1 = "[''help'' \<mapsto> info_of g_help_cmd]"
  let ?m2 = "?m1(''store'' \<mapsto> info_of g_store_cmd)"
  have names: "cmd_name g_help_cmd = ''help''" "cmd_name g_store_cmd = ''store''" "cmd_name g_switch_cmd = ''switch''"
    by (simp_all add: g_help_cmd_def g_store_cmd_def g_switch_cmd_def)
  obtain h1 where h1: "register_cmd g_help_cmd 0 (?c\<lparr>s_hashtable := Some h0\<rparr>) = Returns () (?c\<lparr>s_hashtable := Some h1\<rparr>)"
    "registered (?c\<lparr>s_hashtable := Some h1\<rparr>) ?m1"
    using register_run [OF h0(2) _ commands_short(1,2)] by (auto simp: names)
  obtain h2 where h2: "register_cmd g_store_cmd 0 (?c\<lparr>s_hashtable := Some h1\<rparr>) = Returns () (?c\<lparr>s_hashtable := Some h2\<rparr>)"
    "registered (?c\<lparr>s_hashtable := Some h2\<rparr>) ?m2"
    using register_run [OF h1(2) _ commands_short(3,4)] by (auto simp: names)
  have "card (dom ?m2) < 100" by (simp add: card_insert_if)
  then obtain h3 where h3: "register_cmd g_switch_cmd 0 (?c\<lparr>s_hashtable := Some h2\<rparr>) = Returns () (?c\<lparr>s_hashtable := Some h3\<rparr>)"
    "registered (?c\<lparr>s_hashtable := Some h3\<rparr>) commands"
    using register_run [OF h2(2) _ commands_short(5,6)] by (auto simp: names commands_def)
  let ?d = "?c\<lparr>s_hashtable := Some h3, res := ''''\<rparr>"
  have "set_up c = Returns () ?d"
    unfolding set_up_def arg_set_module_name_def arg_set_module_version_def ver
    by (simp add: seq_def bind_def modify_def h0(1) h1(1) h2(1) h3(1))
  moreover have "ht_ok h3" "ht_map h3 = commands" using h3(2) by (auto simp: registered_def)
  ultimately show ?thesis by (intro exI [of _ h3]) simp
qed

lemma seq_assoc: "seq (seq a b) k = seq a (seq b k)"
  by (auto simp: seq_def bind_def fun_eq_iff split: outcome.splits)

lemma cli_main_after_set_up:
  assumes "set_up c = Returns () d" and "argv \<noteq> []"
  shows "cli_main Os fuel argv c = (bind (if length argv = 1 then ret None else arg_cmd_info (argv ! 1)) (\<lambda>info.
     bind (if info = None then seq arg_make_get_help_msg (seq print_res (ret EXIT_SUCCESS))
           else bind (arg_cmd_dispatch (\<lambda>p ctx. run_handler 2 Os fuel p argv) (argv ! 1)) (\<lambda>exitcode.
             seq print_res (ret exitcode))) (\<lambda>exitcode.
     seq (modify (\<lambda>c. c\<lparr>res := ''''\<rparr>)) (seq arg_cmd_uninit (ret exitcode))))) d"
proof -
  have "cli_main Os fuel argv = seq set_up (seq (defined_if (length argv \<noteq> 0))
    (bind (if length argv = 1 then ret None else arg_cmd_info (argv ! 1)) (\<lambda>info.
     bind (if info = None then seq arg_make_get_help_msg (seq print_res (ret EXIT_SUCCESS))
           else bind (arg_cmd_dispatch (\<lambda>p ctx. run_handler 2 Os fuel p argv) (argv ! 1)) (\<lambda>exitcode.
             seq print_res (ret exitcode))) (\<lambda>exitcode.
     seq (modify (\<lambda>c. c\<lparr>res := ''''\<rparr>)) (seq arg_cmd_uninit (ret exitcode))))))"
    unfolding cli_main_def set_up_def seq_assoc ..
  then show ?thesis using assms by (simp add: seq_def bind_def defined_if_def ret_def)
qed

section \<open>Commands to the hook\<close>

text \<open>
  The documented way of a variable through an operating system: an ASCII name keeps its characters, the GUID and the data
  are passed on to the firmware's \<open>SetVariable\<close>, here the hook, and its status decides the result. The state of the system
  is that of the firmware and a part of its own.
\<close>

definition ascii_name :: "u32 list \<Rightarrow> bool" where
  "ascii_name name \<longleftrightarrow> name \<noteq> [] \<and> length name < 64 \<and> (\<forall>c \<in> set name. 0 < c \<and> c < 128)"

definition linux_delivers :: "'u firmware \<Rightarrow> ('o \<times> 'u uefi) linux \<Rightarrow> bool" where
  "linux_delivers F L \<longleftrightarrow>
     (\<forall>name. ascii_name name \<longrightarrow> (\<exists>rest. wcsrtombs L name 64 = (of_nat (length name), map ucast name @ 0 # rest))) \<and>
     (\<forall>g name rest data w s status t. ascii_name name \<longrightarrow> set_variable_hook F (cstr (map ucast name)) g 0 data s = Returns status t \<longrightarrow>
       (\<exists>w'. efi_set_variable L g (map ucast name @ 0 # rest) data 0 0 (w, s) = (if status = EFI_SUCCESS then 0 else - 1, (w', t))))"

definition windows_delivers :: "'u firmware \<Rightarrow> ('o \<times> 'u uefi) windows \<Rightarrow> bool" where
  "windows_delivers F W \<longleftrightarrow>
     (\<forall>p w s. \<exists>luid. LookupPrivilegeValue W p (w, s) = ((1, luid), (w, s))) \<and>
     (\<forall>t p w s. \<exists>w'. AdjustTokenPrivileges W t p (w, s) = (1, (w', s)) \<and> GetLastError W (w', s) = 0) \<and>
     (\<forall>a w s. \<exists>t w'. OpenProcessToken W a (w, s) = ((1, t), (w', s))) \<and>
     (\<forall>t w s. \<exists>w'. CloseHandle W t (w, s) = (w', s)) \<and>
     (\<forall>g. length (data4 g) = 8 \<longrightarrow> (\<exists>str. StringFromGUID2 W (guid_bytes g) 128 = (39, str) \<and>
       (\<forall>name data w s status t. set_variable_hook F (cstr name) (guid_bytes g) 7 data s = Returns status t \<longrightarrow>
         (\<exists>w'. SetFirmwareEnvironmentVariableW W name str data (w, s) = (if status = EFI_SUCCESS then 1 else 0, (w', t))))))"

text \<open>What both have in common, for the layers above.\<close>

definition delivers :: "'u firmware \<Rightarrow> ('o \<times> 'u uefi) osl \<Rightarrow> bool" where
  "delivers F Os \<longleftrightarrow>
     (\<forall>w s. \<exists>w'. enable_uefi_privileges Os (w, s) = Returns () (w', s)) \<and>
     (\<forall>w s. \<exists>w'. enable_sleep_privileges Os (w, s) = Returns () (w', s)) \<and>
     (\<forall>g name data w s t. length (data4 g) = 8 \<longrightarrow> ascii_name name \<longrightarrow>
       (\<forall>attributes. set_variable_hook F (cstr (map ucast name)) (guid_bytes g) attributes data s = Returns EFI_SUCCESS t) \<longrightarrow>
       (\<exists>w'. set_uefi_variable Os g name data (w, s) = Returns () (w', t)))"

lemma linux_delivers_osl: "linux_delivers F L \<Longrightarrow> delivers F (linux_osl L)"
proof -
  assume L: "linux_delivers F L"
  have deliver: "\<And>g name rest data w s status t. ascii_name name \<Longrightarrow> set_variable_hook F (cstr (map ucast name)) g 0 data s = Returns status t \<Longrightarrow>
      \<exists>w'. efi_set_variable L g (map ucast name @ 0 # rest) data 0 0 (w, s) = (if status = EFI_SUCCESS then 0 else - 1, (w', t))"
    using L unfolding linux_delivers_def by simp
  have "\<exists>w'. linux_set_uefi_variable L g name data (w, s) = Returns () (w', t)"
    if name: "ascii_name name" and hook: "set_variable_hook F (cstr (map ucast name)) (guid_bytes g) 0 data s = Returns EFI_SUCCESS t"
    for g name data w s t
  proof -
    obtain rest where rest: "wcsrtombs L name 64 = (of_nat (length name), map ucast name @ 0 # rest)"
      using L name unfolding linux_delivers_def by blast
    obtain w' where w': "efi_set_variable L (guid_bytes g) (map ucast name @ 0 # rest) data 0 0 (w, s) = (0, (w', t))"
      using deliver name hook by fastforce
    have "0 < length name" "length name < 64" using name by (auto simp: ascii_name_def)
    then have "(of_nat (length name) :: u64) > 0" by (simp add: word_less_nat_alt unat_of_nat)
    then show ?thesis using rest w' by (simp add: linux_set_uefi_variable_def seq_def bind_def CHECK_def ret_def stateful_def)
  qed
  then show ?thesis by (simp add: delivers_def linux_osl_def ret_def)
qed

lemma windows_delivers_osl: "windows_delivers F W \<Longrightarrow> delivers F (windows_osl W)"
proof -
  assume W: "windows_delivers F W"
  have priv: "\<exists>w'. windows_enable_privilege W p (w, s) = Returns () (w', s)" for p w s
  proof -
    have tok: "\<exists>t w'. OpenProcessToken W a (w, s) = ((1, t), (w', s))" for a w s
      using W unfolding windows_delivers_def by simp
    have luid: "\<exists>luid. LookupPrivilegeValue W p (w, s) = ((1, luid), (w, s))" for p w s
      using W unfolding windows_delivers_def by simp
    have adj: "\<exists>w'. AdjustTokenPrivileges W t p (w, s) = (1, (w', s)) \<and> GetLastError W (w', s) = 0" for t p w s
      using W unfolding windows_delivers_def by (cases p) simp
    have clo: "\<exists>w'. CloseHandle W t (w, s) = (w', s)" for t w s
      using W unfolding windows_delivers_def by simp
    obtain t w1 where 1: "OpenProcessToken W (TOKEN_ADJUST_PRIVILEGES OR TOKEN_QUERY) (w, s) = ((1, t), (w1, s))"
      using tok by blast
    obtain luid where 2: "LookupPrivilegeValue W p (w1, s) = ((1, luid), (w1, s))" using luid by blast
    obtain w2 where 3: "AdjustTokenPrivileges W t (luid, SE_PRIVILEGE_ENABLED) (w1, s) = (1, (w2, s))" "GetLastError W (w2, s) = 0"
      using adj by blast
    obtain w3 where 4: "CloseHandle W t (w2, s) = (w3, s)" using clo by blast
    show ?thesis
      using 1 2 3 4 by (auto simp: windows_enable_privilege_def set_privilege_def close_token_def seq_def bind_def stateful_def on_error_def
          CHECK_def ret_def gets_def modify_def ERROR_NOT_ALL_ASSIGNED_def Let_def)
  qed
  have guid: "\<exists>str. StringFromGUID2 W (guid_bytes g) 128 = (39, str) \<and>
      (\<forall>name data w s status t. set_variable_hook F (cstr name) (guid_bytes g) 7 data s = Returns status t \<longrightarrow>
         (\<exists>w'. SetFirmwareEnvironmentVariableW W name str data (w, s) = (if status = EFI_SUCCESS then 1 else 0, (w', t))))" if "length (data4 g) = 8" for g
    using W that unfolding windows_delivers_def by simp
  have "\<exists>w'. windows_set_uefi_variable W g name data (w, s) = Returns () (w', t)"
    if g: "length (data4 g) = 8" and hook: "set_variable_hook F (cstr (map ucast name)) (guid_bytes g) 7 data s = Returns EFI_SUCCESS t" for g and name :: "u32 list" and data w s t
  proof -
    obtain str where str: "StringFromGUID2 W (guid_bytes g) 128 = (39, str)"
      "\<forall>name data w s status t. set_variable_hook F (cstr name) (guid_bytes g) 7 data s = Returns status t \<longrightarrow>
         (\<exists>w'. SetFirmwareEnvironmentVariableW W name str data (w, s) = (if status = EFI_SUCCESS then 1 else 0, (w', t)))"
      using guid [OF g] by blast
    then obtain w' where "SetFirmwareEnvironmentVariableW W (map ucast name) str data (w, s) = (1, (w', t))"
      using hook by fastforce
    with str(1)
    show ?thesis by (simp add: windows_set_uefi_variable_def guid_to_string_def seq_def bind_def stateful_def CHECK_def ret_def)
  qed
  with priv show ?thesis
    by (simp add: delivers_def windows_osl_def windows_enable_uefi_privileges_def windows_enable_sleep_privileges_def)
qed

text \<open>The command as the hook sees it.\<close>

lemma command_name: "map ucast SET_CORE_ACTION_name = SET_CORE_ACTION" "ascii_name SET_CORE_ACTION_name"
proof -
  have n: "SET_CORE_ACTION_name = [0x53, 0x45, 0x54, 0x5f, 0x43, 0x4f, 0x52, 0x45, 0x5f, 0x41, 0x43, 0x54, 0x49, 0x4f, 0x4e]"
    by (simp add: SET_CORE_ACTION_name_def)
  then show "map ucast SET_CORE_ACTION_name = SET_CORE_ACTION" "ascii_name SET_CORE_ACTION_name"
    unfolding n by (simp_all add: SET_CORE_ACTION_def ascii_name_def)
qed

definition with_action :: "u32 \<Rightarrow> 'u uefi \<Rightarrow> 'u uefi" where
  "with_action a s = s\<lparr>core_hdr := (core_hdr s)\<lparr>hdr_action := a\<rparr>\<rparr>"

lemma send_action:
  assumes "delivers F Os" and "hook_ready s" and "a \<in> {CORE_ACTION_STORE, CORE_ACTION_SWITCH}"
  shows "\<exists>w'. send_uefi_command Os SET_CORE_ACTION_name (le_bytes 4 a) (w, s) = Returns () (w', with_action a s)"
proof -
  have "is_literal (cstr SET_CORE_ACTION) SET_CORE_ACTION" by (simp add: is_literal_def same_string_def)
  moreover have "valid_action_data (le_bytes 4 a)"
    using assms(3) by (auto simp: valid_action_data_def of_le_le_bytes action_valid_iff)
  moreover have "le_bytes 4 a \<noteq> []" using length_le_bytes [of 4 a] by (metis list.size(3) zero_neq_numeral)
  ultimately have "set_variable_hook F (cstr SET_CORE_ACTION) (guid_bytes EFI_COMMANDS_GUID) attributes (le_bytes 4 a) s = Returns EFI_SUCCESS (with_action a s)" for attributes
    using set_variable_hook_command [OF assms(2) commands_guid_bytes] by (simp add: of_le_le_bytes with_action_def)
  moreover have "length (data4 EFI_COMMANDS_GUID) = 8" by (simp add: EFI_COMMANDS_GUID_def)
  ultimately show ?thesis
    using assms(1) command_name unfolding delivers_def send_uefi_command_def by metis
qed

lemma execute_run:
  assumes "delivers F Os" and "hook_ready s"
  shows "\<exists>w'. execute_store_op Os is_lazy (w, s) = (if is_lazy then ret () else enter_sleep_s3 Os) (w', with_action CORE_ACTION_STORE s)"
    and "\<exists>w'. execute_switch_op Os is_lazy (w, s) = (if is_lazy then ret () else enter_sleep_s3 Os) (w', with_action CORE_ACTION_SWITCH s)"
proof -
  obtain w1 where 1: "enable_uefi_privileges Os (w, s) = Returns () (w1, s)" using assms(1) unfolding delivers_def by blast
  obtain w2 where 2: "enable_sleep_privileges Os (w1, s) = Returns () (w2, s)" using assms(1) unfolding delivers_def by blast
  have "\<exists>w'. send_uefi_command Os SET_CORE_ACTION_name (le_bytes 4 a) (w2, s) = Returns () (w', with_action a s)"
    if "a \<in> {CORE_ACTION_STORE, CORE_ACTION_SWITCH}" for a by (rule send_action [OF assms that])
  then obtain w3 w4 where "send_uefi_command Os SET_CORE_ACTION_name (le_bytes 4 CORE_ACTION_STORE) (w2, s) = Returns () (w3, with_action CORE_ACTION_STORE s)"
    and "send_uefi_command Os SET_CORE_ACTION_name (le_bytes 4 CORE_ACTION_SWITCH) (w2, s) = Returns () (w4, with_action CORE_ACTION_SWITCH s)"
    by blast
  with 1 2 show "\<exists>w'. execute_store_op Os is_lazy (w, s) = (if is_lazy then ret () else enter_sleep_s3 Os) (w', with_action CORE_ACTION_STORE s)"
    and "\<exists>w'. execute_switch_op Os is_lazy (w, s) = (if is_lazy then ret () else enter_sleep_s3 Os) (w', with_action CORE_ACTION_SWITCH s)"
    by (auto simp: execute_store_op_def execute_switch_op_def seq_def bind_def)
qed

text \<open>The outcome of a handler from the one of the operating system's work.\<close>

definition exit_with :: "'w cli \<Rightarrow> (unit, 'w) outcome \<Rightarrow> (u32, 'w cli) outcome" where
  "exit_with d x = (case x of
      Returns _ v \<Rightarrow> Returns EXIT_SUCCESS (d\<lparr>world := v\<rparr>)
    | Throws _ v \<Rightarrow> Returns EXIT_FAILURE (d\<lparr>world := v\<rparr>)
    | Faults f \<Rightarrow> Faults f)"

lemma handler_run_seen:
  assumes "lit_count (t ! 2) = 0"
  shows "parse_args fuel argv store_table c = Returns (0, t) (c\<lparr>statics := g\<rparr>) \<Longrightarrow>
      run_handler 2 Os fuel store_handler argv c = exit_with (c\<lparr>statics := g\<rparr>) (execute_store_op Os (lit_count (t ! 3) > 0) (world c))"
    and "parse_args fuel argv switch_table c = Returns (0, t) (c\<lparr>statics := g\<rparr>) \<Longrightarrow>
      run_handler 2 Os fuel switch_handler argv c = exit_with (c\<lparr>statics := g\<rparr>) (execute_switch_op Os (lit_count (t ! 3) > 0) (world c))"
  using assms by (auto simp: numeral_2_eq_2 store_handler_proc_def switch_handler_proc_def arg_make_syntax_err_help_msg_def exit_with_def
      on_world_def zoom_def succeeds_def bind_def ret_def EXIT_SUCCESS_def split: outcome.splits)

lemma handler_run:
  assumes "\<not> env_posixly_correct (statics c)" and "take 1 cmd \<noteq> ''-''" and "2 \<le> fuel"
  shows "\<exists>g. run_handler 2 Os fuel store_handler (op_line x cmd is_lazy) c = exit_with (c\<lparr>statics := g\<rparr>) (execute_store_op Os is_lazy (world c))"
    and "\<exists>g. run_handler 2 Os fuel switch_handler (op_line x cmd is_lazy) c = exit_with (c\<lparr>statics := g\<rparr>) (execute_switch_op Os is_lazy (world c))"
  using op_args(1) [OF assms, of x is_lazy "''store''" store_lazy_text] op_args(1) [OF assms, of x is_lazy "''switch''" switch_lazy_text]
    handler_run_seen [of "op_seen _ _ cmd 0 (if is_lazy then 1 else 0)" fuel "op_line x cmd is_lazy" c _ Os]
  unfolding store_table_def [symmetric] switch_table_def [symmetric] seen_counts by auto

text \<open>After a handler the tool prints what it has left in \<open>res\<close> and ends with its exit code.\<close>

definition finish :: "('w cli, u32) cfun \<Rightarrow> ('w cli, u32) cfun" where
  "finish m = bind (bind m (\<lambda>exitcode. seq print_res (ret exitcode)))
     (\<lambda>exitcode. seq (modify (\<lambda>c. c\<lparr>res := ''''\<rparr>)) (seq arg_cmd_uninit (ret exitcode)))"

lemma finish_run:
  assumes "m c = Returns e d" and "s_hashtable d = Some h"
  shows "finish m c = Returns e (d\<lparr>stdout := stdout d @ res d, res := '''', s_hashtable := None\<rparr>)"
  using assms by (simp add: finish_def bind_def seq_def modify_def print_res_def arg_cmd_uninit_def the_hashtable_def gets_def ret_def)

lemma finish_exit:
  assumes "m c = exit_with d x" and "s_hashtable d = Some h" and "res d = ''''"
  shows "finish m c = exit_with (d\<lparr>s_hashtable := None\<rparr>) x"
  using assms by (cases x) (simp_all add: finish_run exit_with_def, simp add: finish_def bind_def)

text \<open>A subcommand of the table is dispatched to its handler in the state of the set-up.\<close>

lemma cli_main_dispatches:
  assumes "argv \<noteq> []" and "length argv \<noteq> 1" and "commands (argv ! 1) = Some i"
  shows "\<exists>h. ht_ok h \<and> ht_map h = commands \<and> cli_main Os fuel argv c =
    finish (run_handler 2 Os fuel (info_proc i) argv)
      (c\<lparr>s_module_name := Some APP_NAME, s_mod_ver := Some ''1.0.0.'', s_hashtable := Some h, res := ''''\<rparr>)"
proof -
  obtain h where h: "set_up c = Returns () (c\<lparr>s_module_name := Some APP_NAME, s_mod_ver := Some ''1.0.0.'', s_hashtable := Some h, res := ''''\<rparr>)"
    "ht_ok h" "ht_map h = commands" using set_up_run by blast
  let ?d = "c\<lparr>s_module_name := Some APP_NAME, s_mod_ver := Some ''1.0.0.'', s_hashtable := Some h, res := ''''\<rparr>"
  have "arg_cmd_info (argv ! 1) ?d = Returns (Some i) ?d" using info_run [of ?d commands] h assms(3) by (simp add: registered_def)
  then have "cli_main Os fuel argv c = finish (run_handler 2 Os fuel (info_proc i) argv) ?d"
    unfolding cli_main_after_set_up [OF h(1) assms(1)] finish_def
    by (simp add: assms(2) [unfolded One_nat_def] bind_def [of "arg_cmd_info _"] arg_cmd_dispatch_def bind_def)
  with h show ?thesis by blast
qed

text \<open>A handler that does its work, behind \<open>main\<close>.\<close>

lemma cli_op_delivers:
  assumes Os: "Os \<in> {linux_osl L, windows_osl W}" "linux_delivers F L" "windows_delivers F W"
    and "world c = (w, s)" and "hook_ready s" and argv: "2 \<le> length argv" "argv ! 1 = cmd"
    and cmd: "(cmd, a) \<in> {(''store'', CORE_ACTION_STORE), (''switch'', CORE_ACTION_SWITCH)}"
    and store: "\<And>d. statics d = statics c \<Longrightarrow> \<exists>g. run_handler 2 Os fuel store_handler argv d = exit_with (d\<lparr>statics := g\<rparr>) (execute_store_op Os is_lazy (world d))"
    and switch: "\<And>d. statics d = statics c \<Longrightarrow> \<exists>g. run_handler 2 Os fuel switch_handler argv d = exit_with (d\<lparr>statics := g\<rparr>) (execute_switch_op Os is_lazy (world d))"
  shows "\<exists>w' d. stdout d = stdout c \<and> cli_main Os fuel argv c = exit_with d ((if is_lazy then ret () else enter_sleep_s3 Os) (w', with_action a s))"
proof -
  have delivers: "delivers F Os" using Os linux_delivers_osl windows_delivers_osl by blast
  have "(\<exists>i. commands (argv ! 1) = Some i \<and> info_proc i = store_handler \<and> a = CORE_ACTION_STORE) \<or>
      (\<exists>i. commands (argv ! 1) = Some i \<and> info_proc i = switch_handler \<and> a = CORE_ACTION_SWITCH)"
    using cmd argv(2) by (auto simp: commands_def info_of_def g_store_cmd_def g_switch_cmd_def)
  then obtain i where i: "commands (argv ! 1) = Some i" "info_proc i = store_handler \<and> a = CORE_ACTION_STORE \<or> info_proc i = switch_handler \<and> a = CORE_ACTION_SWITCH"
    by blast
  have "argv \<noteq> []" "length argv \<noteq> 1" using argv(1) by auto
  from cli_main_dispatches [OF this i(1)] obtain h where h: "cli_main Os fuel argv c = finish (run_handler 2 Os fuel (info_proc i) argv)
      (c\<lparr>s_module_name := Some APP_NAME, s_mod_ver := Some ''1.0.0.'', s_hashtable := Some h, res := ''''\<rparr>)"
    (is "_ = finish _ ?d") by blast
  have d: "world ?d = (w, s)" "statics ?d = statics c" using assms(4) by simp_all
  have "\<exists>w' g. run_handler 2 Os fuel (info_proc i) argv ?d =
      exit_with (?d\<lparr>statics := g\<rparr>) ((if is_lazy then ret () else enter_sleep_s3 Os) (w', with_action a s))"
    using store [OF d(2)] switch [OF d(2)] execute_run [OF delivers assms(5), of is_lazy w] i(2) unfolding d(1) by metis
  then obtain w' g where run: "run_handler 2 Os fuel (info_proc i) argv ?d =
      exit_with (?d\<lparr>statics := g\<rparr>) ((if is_lazy then ret () else enter_sleep_s3 Os) (w', with_action a s))" by blast
  let ?e = "?d\<lparr>statics := g, s_hashtable := None\<rparr>"
  have "cli_main Os fuel argv c = exit_with ?e ((if is_lazy then ret () else enter_sleep_s3 Os) (w', with_action a s))"
    using finish_exit [where m = "run_handler 2 Os fuel (info_proc i) argv", OF run, of h] h by simp
  then show ?thesis by (intro exI [of _ w'] exI [of _ ?e]) simp
qed

text \<open>C8: With \<open>POSIXLY_CORRECT\<close> unset, on both operating systems \<open>store\<close> and \<open>switch\<close> reach core: \<open>main\<close> finds the handler in the table it has set up,
  the option parser finds the subcommand and whether it is lazy, the command goes through the firmware's \<open>SetVariable\<close>, the hook writes
  exactly the action of core's header, and then, unless the command is lazy, the tool puts the machine to sleep; the exit code says
  whether that worked, nothing is printed.\<close>

theorem cli_command_reaches_core:
  assumes "Os \<in> {linux_osl L, windows_osl W}" and "linux_delivers F L" and "windows_delivers F W"
    and "world c = (w, s)" and "hook_ready s" and "\<not> env_posixly_correct (statics c)" and "2 \<le> fuel"
    and "(cmd, a) \<in> {(''store'', CORE_ACTION_STORE), (''switch'', CORE_ACTION_SWITCH)}"
  shows "\<exists>w' d. stdout d = stdout c \<and>
    cli_main Os fuel (op_line x cmd is_lazy) c = exit_with d ((if is_lazy then ret () else enter_sleep_s3 Os) (w', with_action a s))"
proof (rule cli_op_delivers [OF assms(1-5) _ _ assms(8)])
  have "take 1 cmd \<noteq> ''-''" using assms(8) by auto
  then show "\<exists>g. run_handler 2 Os fuel store_handler (op_line x cmd is_lazy) d = exit_with (d\<lparr>statics := g\<rparr>) (execute_store_op Os is_lazy (world d))"
    "\<exists>g. run_handler 2 Os fuel switch_handler (op_line x cmd is_lazy) d = exit_with (d\<lparr>statics := g\<rparr>) (execute_switch_op Os is_lazy (world d))"
    if "statics d = statics c" for d
    using handler_run [of d cmd fuel] that assms(6,7) by simp_all
qed (simp_all add: op_line_def)

text \<open>A Linux and a Windows on which nothing else happens: variables go to the hook, every other call succeeds.\<close>

definition to_hook :: "'u firmware \<Rightarrow> u16 cstring \<Rightarrow> u8 list \<Rightarrow> u32 \<Rightarrow> u8 list \<Rightarrow> unit \<times> 'u uefi \<Rightarrow> bool \<times> unit \<times> 'u uefi" where
  "to_hook F name guid attributes data x = (case set_variable_hook F name guid attributes data (snd x) of
      Returns status t \<Rightarrow> (status = EFI_SUCCESS, (), t) | _ \<Rightarrow> (False, x))"

definition example_linux :: "'u firmware \<Rightarrow> (unit \<times> 'u uefi) linux" where
  "example_linux F = \<lparr>wcsrtombs = \<lambda>name n. (of_nat (length name), map ucast name @ [0]),
     efi_set_variable = \<lambda>guid name data attributes mode x.
       apfst (\<lambda>ok. if ok then 0 else - 1) (to_hook F (cstr (map ucast (takeWhile (\<lambda>c. c \<noteq> 0) name))) guid attributes data x),
     sys_open = \<lambda>path flags x. (3, x), sys_write = \<lambda>fd str x. (of_nat (length str), x), sys_close = \<lambda>fd x. x\<rparr>"

definition example_windows :: "'u firmware \<Rightarrow> (unit \<times> 'u uefi) windows" where
  "example_windows F = \<lparr>LookupPrivilegeValue = \<lambda>name x. ((1, 0), x), AdjustTokenPrivileges = \<lambda>token p x. (1, x), GetLastError = \<lambda>x. 0,
     OpenProcessToken = \<lambda>access x. ((1, 4), x), CloseHandle = \<lambda>token x. x,
     StringFromGUID2 = \<lambda>guid n. (39, map ucast guid),
     SetFirmwareEnvironmentVariableW = \<lambda>name guid data x. apfst (\<lambda>ok. if ok then 1 else 0) (to_hook F (cstr name) (map ucast guid) 7 data x),
     SetSuspendState = \<lambda>hibernate force no_events x. (1, x)\<rparr>"

lemma example_linux_delivers: "linux_delivers F (example_linux F)"
proof -
  have "takeWhile (\<lambda>c. c \<noteq> 0) (map ucast name @ 0 # rest) = (map ucast name :: u8 list)" if "ascii_name name" for name rest
  proof -
    have "(ucast c :: u8) \<noteq> 0" if "c \<in> set name" for c :: u32
    proof -
      have "0 < c" "c < 128" using that \<open>ascii_name name\<close> by (auto simp: ascii_name_def)
      then have "0 < unat c" "unat c < 128" by (simp_all add: word_less_nat_alt)
      then have "unat (ucast c :: u8) \<noteq> 0" by (simp add: unsigned_ucast_eq take_bit_nat_eq_self)
      then show ?thesis by auto
    qed
    then show ?thesis by (subst takeWhile_append2) auto
  qed
  moreover have "map ucast (map ucast name :: u8 list) = (map ucast name :: u16 list)" if "ascii_name name" for name
  proof -
    have "(ucast (ucast c :: u8) :: u16) = ucast c" if "c \<in> set name" for c :: u32
    proof -
      have "c < 128" using that \<open>ascii_name name\<close> by (auto simp: ascii_name_def)
      then have "unat c < 128" by (simp add: word_less_nat_alt)
      then have "unat (ucast c :: u8) = unat c" "unat (ucast c :: u16) = unat c" by (simp_all add: unsigned_ucast_eq take_bit_nat_eq_self)
      moreover have "unat (ucast (ucast c :: u8) :: u16) = unat (ucast c :: u8)" by (simp add: unat_ucast_up)
      ultimately have "unat (ucast (ucast c :: u8) :: u16) = unat (ucast c :: u16)" by simp
      then show ?thesis by (simp add: word_unat_eq_iff)
    qed
    then show ?thesis by simp
  qed
  ultimately show ?thesis by (auto simp: linux_delivers_def example_linux_def to_hook_def simp del: map_map)
qed

lemma example_windows_delivers: "windows_delivers F (example_windows F)"
proof -
  have "ucast (ucast x :: u16) = x" for x :: u8 by (simp add: word_unat_eq_iff unsigned_ucast_eq take_bit_word_eq_self)
  then have "map ucast (map ucast g :: u16 list) = g" for g :: "u8 list" by (simp add: comp_def)
  then show ?thesis by (auto simp: windows_delivers_def example_windows_def to_hook_def simp del: map_map)
qed

text \<open>The static variables when the program starts.\<close>

definition start_statics :: "bool \<Rightarrow> getopt" where
  "start_statics posix = \<lparr>nargv = [], optind = 1, optopt = of_char CHR ''?'', opterr = True, optreset = False, optarg = None, place = '''',
     place_at_start = False, nonopt_start = None, nonopt_end = None, posixly_correct = None, dash_prefix = '''', flag_var = 0,
     env_posixly_correct = posix, warnings = []\<rparr>"

definition start_cli :: "bool \<Rightarrow> 'w \<Rightarrow> 'w cli" where
  "start_cli posix w = \<lparr>s_hashtable = None, s_module_name = None, s_mod_ver = None, res = '''', stdout = '''', statics = start_statics posix, world = w\<rparr>"

lemma start_cli_simps [simp]:
  "world (start_cli posix w) = w" "stdout (start_cli posix w) = ''''" "env_posixly_correct (statics (start_cli posix w)) = posix"
  by (simp_all add: start_cli_def start_statics_def)

theorem cli_command_reaches_core_witness:
  "\<exists>d. cli_main (linux_osl (example_linux example_fw)) 2 [''switch-os-cli'', ''switch''] (start_cli False ((), hooked_uefi)) = Returns EXIT_SUCCESS d \<and>
    hdr_action (core_hdr (snd (world d))) = CORE_ACTION_SWITCH"
proof -
  have fd: "0 <=s (3 :: u32)" by code_simp
  let ?Os = "linux_osl (example_linux example_fw)"
  obtain w' d where "cli_main ?Os 2 (op_line ''switch-os-cli'' ''switch'' False) (start_cli False ((), hooked_uefi)) =
      exit_with d (enter_sleep_s3 ?Os (w', with_action CORE_ACTION_SWITCH hooked_uefi))"
    using cli_command_reaches_core [where Os = ?Os and L = "example_linux example_fw" and W = "example_windows example_fw" and c = "start_cli False ((), hooked_uefi)"
        and fuel = 2 and cmd = "''switch''" and a = CORE_ACTION_SWITCH and x = "''switch-os-cli''" and is_lazy = False,
        OF _ example_linux_delivers example_windows_delivers _ hooked_uefi_ready(1)]
    by auto
  moreover have "enter_sleep_s3 ?Os x = Returns () x" for x
    by (simp add: linux_osl_def linux_enter_sleep_s3_def linux_close_power_state_def example_linux_def bind_def stateful_def seq_def on_error_def CHECK_def ret_def modify_def
        power_state_mem_str_def fd)
  ultimately show ?thesis by (auto simp: exit_with_def with_action_def op_line_def)
qed

section \<open>The list of subcommands\<close>

definition usage_text :: string where
  "usage_text = ''Usage:'' @ newline @ ''  '' @ APP_NAME @ '' <command> [options] [args]'' @ newline @ newline @ ''Available commands:'' @ newline"

definition command_line :: "arg_cmd_info \<Rightarrow> string" where
  "command_line i = ''  '' @ pad 23 (info_name i) @ ''  '' @ info_description i @ newline"

lemma remaining_cases:
  assumes "placed (tablelength h) (table h)" and "itr_ok h itr"
  obtains e go itr' where "itr_entry h itr = Some e" "arg_hashtable_itr_advance h itr = (go, itr')"
    "if go then itr_ok h itr' \<and> remaining h itr = e # remaining h itr' else remaining h itr = [e]"
proof -
  obtain go itr' where a: "arg_hashtable_itr_advance h itr = (go, itr')" by fastforce
  show thesis using remaining_step [OF assms] unfolding a by (auto intro: that [OF _ a])
qed

lemma list_commands_run:
  assumes "placed (tablelength h) (table h)" and "itr_ok h itr" and "length (remaining h itr) \<le> n"
  shows "list_commands_from n h itr c = Returns () (c\<lparr>res := res c @ concat (map (command_line \<circ> ent_v) (remaining h itr))\<rparr>)"
  using assms(2,3)
proof (induction n arbitrary: itr c)
  case 0
  have "remaining h itr \<noteq> []" using 0(1) by (auto simp: itr_ok_def remaining_def)
  with 0(2) show ?case by simp
next
  case (Suc n)
  obtain e go itr' where e: "itr_entry h itr = Some e" "arg_hashtable_itr_advance h itr = (go, itr')"
    "if go then itr_ok h itr' \<and> remaining h itr = e # remaining h itr' else remaining h itr = [e]"
    by (rule remaining_cases [OF assms(1) Suc.prems(1)])
  note run = list_commands_from.simps arg_hashtable_itr_value_def e(1,2) add_to_res_def seq_def bind_def modify_def ret_def command_line_def
  show ?case
  proof (cases go)
    case True
    with e(3) Suc.prems(2) have "itr_ok h itr'" "length (remaining h itr') \<le> n" "remaining h itr = e # remaining h itr'" by auto
    with True Suc.IH [of itr'] show ?thesis by (simp add: run)
  next
    case False
    with e(3) show ?thesis by (simp add: run)
  qed
qed

text \<open>The values of a table as a multiset.\<close>

lemma values_of_map:
  assumes "ht_ok h"
  shows "mset (map ent_v (concat (table h))) = image_mset (\<lambda>k. the (ht_map h k)) (mset_set (dom (ht_map h)))"
proof -
  let ?es = "concat (table h)"
  have d: "distinct (map ent_k ?es)" using assms unfolding ht_ok_def by blast
  have v: "ht_map h (ent_k e) = Some (ent_v e)" if "e \<in> set ?es" for e
    using that ht_map_eq_Some [OF d, of "ent_k e" "ent_v e"] by blast
  have "dom (ht_map h) = set (map ent_k ?es)"
  proof (intro set_eqI iffI)
    fix k
    assume "k \<in> dom (ht_map h)"
    then show "k \<in> set (map ent_k ?es)" using ht_map_eq_Some [OF d, of k] by (auto simp del: set_concat)
  next
    fix k
    assume "k \<in> set (map ent_k ?es)"
    then show "k \<in> dom (ht_map h)" using v by (auto simp del: set_concat)
  qed
  then have "image_mset (\<lambda>k. the (ht_map h k)) (mset_set (dom (ht_map h))) = mset (map (\<lambda>k. the (ht_map h k)) (map ent_k ?es))"
    by (simp only: mset_set_set [OF d] mset_map)
  also have "map (\<lambda>k. the (ht_map h k)) (map ent_k ?es) = map ent_v ?es" unfolding map_map by (rule map_cong) (simp_all add: v)
  finally show ?thesis by simp
qed

lemma help_list_run:
  assumes "s_hashtable c = Some h" and "ht_ok h" and "ht_map h = commands"
  shows "\<exists>is. mset is = {#info_of g_help_cmd, info_of g_store_cmd, info_of g_switch_cmd#} \<and>
    help_list_commands c = Returns () (c\<lparr>res := res c @ usage_text @ concat (map command_line is)\<rparr>)"
proof (intro exI conjI)
  let ?is = "map ent_v (concat (table h))"
  have "dom commands = {''help'', ''store'', ''switch''}" by (auto simp: commands_def)
  then show m: "mset ?is = {#info_of g_help_cmd, info_of g_store_cmd, info_of g_switch_cmd#}"
    using values_of_map [OF assms(2)] assms(3) by (simp add: commands_def)
  have p: "placed (tablelength h) (table h)" "length (concat (table h)) = unat (entrycount h)"
    using assms(2) by (auto simp: ht_ok_def simp del: length_concat)
  have "concat (table h) \<noteq> []"
  proof
    assume "concat (table h) = []"
    then show False using m by (simp only: list.map mset.simps) simp
  qed
  from remaining_create [OF assms(2) this]
  have "list_commands_from (Suc (unat (entrycount h))) h (arg_hashtable_itr_create h) d =
      Returns () (d\<lparr>res := res d @ concat (map command_line ?is)\<rparr>)" for d :: "'a cli"
    using list_commands_run [OF p(1), of "arg_hashtable_itr_create h" "Suc (unat (entrycount h))" d] p(2) by (simp del: list_commands_from.simps)
  then show "help_list_commands c = Returns () (c\<lparr>res := res c @ usage_text @ concat (map command_line ?is)\<rparr>)"
    using assms(1) by (simp add: help_list_commands_def add_to_res_def modify_def seq_def bind_def the_hashtable_def gets_def ret_def
        usage_text_def arg_hashtable_count_def del: list_commands_from.simps)
qed

text \<open>\<open>help\<close> lists every registered subcommand exactly once: the loop over the hash table in \<open>help_list_commands\<close> ends,
  and what the tool prints is the usage and one line for each of \<open>help\<close>, \<open>store\<close> and \<open>switch\<close>, in some order; nothing else
  happens.\<close>

theorem cli_help_lists_all:
  assumes "\<not> env_posixly_correct (statics c)" and "2 \<le> fuel"
  shows "\<exists>is d. mset is = {#info_of g_help_cmd, info_of g_store_cmd, info_of g_switch_cmd#} \<and>
    cli_main Os fuel [x, ''help''] c = Returns EXIT_SUCCESS d \<and> stdout d = stdout c @ usage_text @ concat (map command_line is) \<and> world d = world c"
proof -
  let ?argv = "[x, ''help'']"
  have "?argv \<noteq> []" "length ?argv \<noteq> 1" "commands (?argv ! 1) = Some (info_of g_help_cmd)" by (auto simp: commands_def)
  from cli_main_dispatches [OF this, of Os fuel c]
  obtain h where h: "ht_ok h" "ht_map h = commands" "cli_main Os fuel ?argv c = finish (run_handler 2 Os fuel help_handler ?argv)
      (c\<lparr>s_module_name := Some APP_NAME, s_mod_ver := Some ''1.0.0.'', s_hashtable := Some h, res := ''''\<rparr>)"
    (is "_ = finish _ ?d") by (auto simp: info_of_def g_help_cmd_def)
  obtain g where g: "parse_args fuel ?argv help_table ?d = Returns (0, help_seen ''help'' 0) (?d\<lparr>statics := g\<rparr>)"
    using help_args(1) [of ?d "''help''" fuel x] assms by auto
  obtain "is" where "is": "mset is = {#info_of g_help_cmd, info_of g_store_cmd, info_of g_switch_cmd#}"
    "help_list_commands (?d\<lparr>statics := g\<rparr>) = Returns () (?d\<lparr>statics := g, res := res ?d @ usage_text @ concat (map command_line is)\<rparr>)"
    using help_list_run [of "?d\<lparr>statics := g\<rparr>" h] h by auto
  then have "run_handler 2 Os fuel help_handler ?argv ?d = Returns EXIT_SUCCESS (?d\<lparr>statics := g, res := res ?d @ usage_text @ concat (map command_line is)\<rparr>)"
    using g by (simp add: numeral_2_eq_2 arg_make_syntax_err_help_msg_def bind_def seq_def ret_def EXIT_SUCCESS_def seen_counts [unfolded numeral_2_eq_2 One_nat_def])
  from finish_run [where m = "run_handler 2 Os fuel help_handler ?argv" and c = ?d, OF this]
  show ?thesis using "is"(1) unfolding h(3) by (intro exI [of _ "is"]) simp
qed

theorem cli_help_lists_all_witness:
  "\<exists>is d. mset is = {#info_of g_help_cmd, info_of g_store_cmd, info_of g_switch_cmd#} \<and>
    cli_main (linux_osl (example_linux example_fw)) 2 [''switch-os-cli'', ''help''] (start_cli False ((), hooked_uefi)) = Returns EXIT_SUCCESS d \<and>
    stdout d = usage_text @ concat (map command_line is)"
  using cli_help_lists_all [of "start_cli False ((), hooked_uefi)" 2 "linux_osl (example_linux example_fw)" "''switch-os-cli''"] by auto

text \<open>A subcommand that does not exist is no error: the tool prints its help message and ends with success.\<close>

lemma cli_unknown_command_succeeds:
  assumes "2 \<le> length argv" and "argv ! 1 \<notin> {''help'', ''store'', ''switch''}"
  shows "\<exists>d. cli_main Os fuel argv c = Returns EXIT_SUCCESS d \<and> world d = world c"
proof -
  obtain h where h: "set_up c = Returns () (c\<lparr>s_module_name := Some APP_NAME, s_mod_ver := Some ''1.0.0.'', s_hashtable := Some h, res := ''''\<rparr>)"
    "ht_ok h" "ht_map h = commands" using set_up_run by blast
  let ?d = "c\<lparr>s_module_name := Some APP_NAME, s_mod_ver := Some ''1.0.0.'', s_hashtable := Some h, res := ''''\<rparr>"
  have "commands (argv ! 1) = None" using assms(2) by (simp add: commands_def)
  then have info: "arg_cmd_info (argv ! 1) ?d = Returns None ?d" using info_run [of ?d commands] h by (simp add: registered_def)
  have "argv \<noteq> []" "length argv \<noteq> Suc 0" using assms(1) by auto
  then have "cli_main Os fuel argv c = finish (seq arg_make_get_help_msg (ret EXIT_SUCCESS)) ?d"
    using cli_main_after_set_up [OF h(1)] info
    by (simp add: finish_def bind_def [of "arg_cmd_info _"] seq_def bind_def ret_def split: outcome.splits)
  moreover obtain x where "seq arg_make_get_help_msg (ret EXIT_SUCCESS) ?d = Returns EXIT_SUCCESS (?d\<lparr>res := x\<rparr>)"
    by (simp add: arg_make_get_help_msg_def add_to_res_def seq_def bind_def gets_def modify_def ret_def)
  ultimately show ?thesis using finish_run [where m = "seq arg_make_get_help_msg (ret EXIT_SUCCESS)" and c = ?d] by simp
qed

end
