(* ===== verification/CliOptions.thy ===== *)
theory CliOptions
  imports CliProps
begin

text \<open>
  Command lines with options: a cluster of short options that ends in a dash keeps the tool in its loop, \<open>--help\<close> prints what \<open>help\<close>
  prints of a subcommand, and with \<open>POSIXLY_CORRECT\<close> an option behind the subcommand is none.
\<close>

section \<open>A cluster that ends in a dash\<close>

definition hung :: "getopt \<Rightarrow> bool" where
  "hung g \<longleftrightarrow> 1 \<le> optind g \<and> optind g < length (nargv g) \<and> nargv g ! optind g = ''-h-'' \<and> \<not> optreset g \<and>
     (place g = '''' \<or> place g = ''-'' \<and> \<not> place_at_start g)"

lemma options_h: "after_char CHR ''h'' '':h'' = Some ''''"
  by (simp add: after_char_def)

lemma hung_call:
  assumes "hung g"
  shows "\<exists>r g'. getopt_long (Some '':h'') (Some los) g = Returns r g' \<and> hung g' \<and> (r = of_char CHR '':'' \<or> r = of_char CHR ''h'')"
proof (cases "place g = ''''")
  case False
  then have "getopt_long (Some '':h'') (Some los) g = Returns (of_char CHR '':'')
      (g\<lparr>posixly_correct := (if posixly_correct g = None then Some (env_posixly_correct g) else posixly_correct g), optarg := None, dash_prefix := ''-'', place := ''''\<rparr>)"
    using assms by (simp add: hung_def getopt_long_def getopt_internal_def parse_option_def run_defs Let_def eval_nat_numeral BADARG_def)
  then show ?thesis using assms by (auto simp: hung_def)
next
  case True
  let ?g = "g\<lparr>posixly_correct := (if posixly_correct g = None then Some (env_posixly_correct g) else posixly_correct g), optarg := None,
      nonopt_end := (if nonopt_start g \<noteq> None \<and> nonopt_end g = None then Some (optind g) else nonopt_end g), place := ''-'', place_at_start := False\<rparr>"
  have "getopt_long (Some '':h'') (Some los) g = Returns (of_char CHR ''h'') ?g"
    using assms True by (simp add: hung_def getopt_long_def getopt_internal_def parse_option_def parse_short_option_def options_h run_defs Let_def eval_nat_numeral)
  then show ?thesis using assms by (auto simp: hung_def)
qed

lemma hung_loop:
  assumes "hung (gopt s)" and "table_ok (argtable s)"
  shows "tagged_loop n '':h'' los s = Faults Out_Of_Fuel"
  using assms
proof (induction n arbitrary: s)
  case 0
  show ?case by (simp add: faults_def)
next
  case (Suc n)
  obtain r g' where g: "getopt_long (Some '':h'') (Some los) (gopt s) = Returns r g'" "hung g'" "r = of_char CHR '':'' \<or> r = of_char CHR ''h''"
    using hung_call [OF Suc.prems(1)] by blast
  then have r: "r \<noteq> - 1" "r \<noteq> 0" by auto
  let ?s = "s\<lparr>gopt := g'\<rparr>"
  have "good ?s" using g(2) Suc.prems(2) by (simp add: good_def hung_def)
  then have "wp (handle_option r) (\<lambda>_. table_step ?s) (\<lambda>_. False) ?s" using r by (intro wp_handle_option) auto
  then obtain s' where s': "handle_option r ?s = Returns () s'" "table_step ?s s'" by (auto simp: wp_returns_iff)
  have "tagged_loop n '':h'' los s' = Faults Out_Of_Fuel"
    using table_step_ok [OF s'(2)] s'(2) g(2) Suc.prems(2) by (intro Suc.IH) (simp_all add: table_step_def)
  then show ?case using g(1) s'(1) r by (simp add: on_getopt_def run_defs)
qed

lemma hung_parse:
  assumes "\<not> env_posixly_correct g" and "take 1 cmd \<noteq> ''-''" and "alloc_shortoptions t = '':h''" and "table_ok t"
    and "arg_endindex t = Some k" and "map resetfn (take (k + 1) t) @ drop (k + 1) t = t"
  shows "arg_parse fuel [x, cmd, ''-h-''] \<lparr>argtable = t, gopt = g\<rparr> = Faults Out_Of_Fuel"
proof -
  let ?argv = "[x, cmd, ''-h-'']" and ?g = "g\<lparr>nargv := [x, cmd, ''-h-''], optind := 0, opterr := False\<rparr>"
  let ?g1 = "g\<lparr>nargv := ?argv, optind := 2, opterr := False, optreset := False, posixly_correct := Some False, optarg := None, nonopt_start := Some 1, nonopt_end := Some 2,
       place := ''-'', place_at_start := False\<rparr>"
  have first: "getopt_long (Some '':h'') (Some los) ?g = Returns (of_char CHR ''h'') ?g1" for los
    using assms(1,2) by (simp add: getopt_long_def getopt_internal_def parse_option_def parse_short_option_def options_h run_defs Let_def no_more_nonopts_def eval_nat_numeral)
  have loop: "tagged_loop n '':h'' los \<lparr>argtable = t, gopt = ?g\<rparr> = Faults Out_Of_Fuel" for n los
  proof (cases n)
    case (Suc m)
    let ?s = "\<lparr>argtable = t, gopt = ?g1\<rparr>"
    have "wp (handle_option (of_char CHR ''h'')) (\<lambda>_. table_step ?s) (\<lambda>_. False) ?s" using assms(4) by (intro wp_handle_option) (auto simp: good_def)
    then obtain s' where s': "handle_option (of_char CHR ''h'') ?s = Returns () s'" "table_step ?s s'" by (auto simp: wp_returns_iff)
    have "tagged_loop m '':h'' los s' = Faults Out_Of_Fuel"
      using table_step_ok [OF s'(2)] s'(2) assms(4) by (intro hung_loop) (simp_all add: table_step_def hung_def)
    then show ?thesis using Suc first s'(1) by (simp add: on_getopt_def run_defs)
  qed (simp add: faults_def)
  show ?thesis
    using assms(3,5) assms(6) [simplified] loop
    by (simp add: arg_parse_def arg_reset_def the_endindex_def arg_parse_tagged_def on_getopt_def run_defs)
qed

lemma parse_args_hung:
  assumes "\<not> env_posixly_correct (statics c)" and "take 1 cmd \<noteq> ''-''" and "t \<in> {store_table, switch_table, help_table}"
  shows "parse_args fuel [x, cmd, ''-h-''] t c = Faults Out_Of_Fuel"
proof -
  have "\<exists>k. alloc_shortoptions t = '':h'' \<and> table_ok t \<and> arg_endindex t = Some k \<and> map resetfn (take (k + 1) t) @ drop (k + 1) t = t"
    using assms(3) op_table_options help_table_options
    by (auto simp: store_table_def switch_table_def table_ok_def, auto simp: op_table_def help_table_def arg_end_def)
  then show ?thesis using hung_parse [OF assms(1,2)] unfolding parse_args_def by fastforce
qed

text \<open>C22: a bug of the option parser stops the tool: with \<open>POSIXLY_CORRECT\<close> unset, when \<open>-h-\<close> follows a subcommand, \<open>main\<close> does not come to an end, however many calls of
  \<open>getopt_long\<close> it is given.
\<close>

theorem cli_hangs_on_trailing_dash:
  assumes "\<not> env_posixly_correct (statics c)" and "cmd \<in> {''help'', ''store'', ''switch''}"
  shows "cli_main Os fuel [x, cmd, ''-h-''] c = Faults Out_Of_Fuel"
proof -
  let ?argv = "[x, cmd, ''-h-'']"
  obtain i where i: "commands (?argv ! 1) = Some i" using assms(2) by (auto simp: commands_def)
  have "?argv \<noteq> []" "length ?argv \<noteq> 1" by auto
  from cli_main_dispatches [OF this i] obtain h where h: "cli_main Os fuel ?argv c = finish (run_handler 2 Os fuel (info_proc i) ?argv)
      (c\<lparr>s_module_name := Some APP_NAME, s_mod_ver := Some ''1.0.0.'', s_hashtable := Some h, res := ''''\<rparr>)"
    (is "_ = finish _ ?d") by blast
  have "parse_args fuel ?argv t ?d = Faults Out_Of_Fuel" if "t \<in> {store_table, switch_table, help_table}" for t
    using assms that by (intro parse_args_hung) auto
  then have "run_handler 2 Os fuel (info_proc i) ?argv ?d = Faults Out_Of_Fuel"
    by (cases "info_proc i") (simp_all add: numeral_2_eq_2 store_handler_proc_def switch_handler_proc_def bind_def)
  then show ?thesis unfolding h by (simp add: finish_def bind_def)
qed

theorem cli_hangs_on_trailing_dash_witness:
  "cli_main (linux_osl (example_linux example_fw)) 1000 [''switch-os-cli'', ''store'', ''-h-''] (start_cli False ((), hooked_uefi)) = Faults Out_Of_Fuel"
  using cli_hangs_on_trailing_dash [of "start_cli False ((), hooked_uefi)" "''store''"] by simp

section \<open>Help on a subcommand\<close>

definition help_text :: "arg_cmd_info \<Rightarrow> arg_entry list \<Rightarrow> string" where
  "help_text i t = info_name i @ '': '' @ info_description i @ newline @ ''Usage:'' @ newline @ ''  '' @ APP_NAME @
     arg_print_syntaxv_ds t (Some (newline @ '' '' @ newline @ ''Available options:'' @ newline)) @ arg_print_glossary_ds t (Some (column_format 23)) @ newline"

definition help_seen_of :: "cmd_handler \<Rightarrow> string \<Rightarrow> arg_entry list" where
  "help_seen_of p name = (case p of
      help_handler \<Rightarrow> help_seen name 1
    | store_handler \<Rightarrow> op_seen ''store'' store_lazy_text name 1 0
    | switch_handler \<Rightarrow> op_seen ''switch'' switch_lazy_text name 1 0)"

lemma help_msg_run:
  assumes "registered d commands" and "s_module_name d = Some APP_NAME" and "commands name = Some i" and "info_name i = name"
  shows "arg_make_help_msg name t d = Returns () (d\<lparr>res := res d @ help_text i t\<rparr>)"
proof -
  have n: "the_module_name (d\<lparr>res := r\<rparr>) = APP_NAME" for r using assms(2) by (simp add: the_module_name_def APP_NAME_def)
  show ?thesis
    using info_run [OF assms(1), of name] assms(3,4) n
    by (simp add: arg_make_help_msg_def add_to_res_def bind_def seq_def modify_def gets_def help_text_def)
qed

lemma handler_help:
  assumes "\<not> env_posixly_correct (statics d)" and "2 \<le> fuel" and "registered d commands" and "s_module_name d = Some APP_NAME"
    and "commands name = Some i"
  shows "\<exists>g. run_handler (Suc n) Os fuel (info_proc i) [y, name, ''--help''] d =
    Returns EXIT_SUCCESS (d\<lparr>statics := g, res := res d @ help_text i (help_seen_of (info_proc i) name)\<rparr>)"
proof -
  have n: "take 1 name \<noteq> ''-''" "info_name i = name" using assms(5)
    by (auto simp: commands_def info_of_def g_help_cmd_def g_store_cmd_def g_switch_cmd_def split: if_splits)
  have msg: "arg_make_help_msg name t (d\<lparr>statics := g\<rparr>) = Returns () (d\<lparr>statics := g, res := res d @ help_text i t\<rparr>)" for t g
    using help_msg_run [of "d\<lparr>statics := g\<rparr>", OF _ _ assms(5) n(2)] assms(3,4) by (simp add: registered_def)
  have op: "\<exists>g. parse_args fuel [y, name, ''--help''] (op_table nm tx) d = Returns (0, op_seen nm tx name 1 0) (d\<lparr>statics := g\<rparr>)" for nm tx
    by (rule op_args(2) [OF assms(1) n(1) assms(2)])
  note run = bind_def seq_def ret_def arg_make_syntax_err_help_msg_def seen_counts [unfolded numeral_2_eq_2 One_nat_def] help_seen_of_def numeral_2_eq_2
  consider "info_proc i = store_handler" "name = ''store''" | "info_proc i = switch_handler" "name = ''switch''" | "info_proc i = help_handler" "name = ''help''"
    using assms(5) by (auto simp: commands_def info_of_def g_help_cmd_def g_store_cmd_def g_switch_cmd_def split: if_splits)
  then show ?thesis
  proof cases
    case 1
    show ?thesis using 1(1) op [of "''store''" store_lazy_text] by (auto simp: run msg [unfolded 1(2)] store_handler_proc_def store_table_def)
  next
    case 2
    show ?thesis using 2(1) op [of "''switch''" switch_lazy_text] by (auto simp: run msg [unfolded 2(2)] switch_handler_proc_def switch_table_def)
  next
    case 3
    show ?thesis using 3(1) help_args(2) [OF assms(1) n(1) assms(2), of y] by (auto simp: run msg [unfolded 3(2)])
  qed
qed

text \<open>C23: with \<open>POSIXLY_CORRECT\<close> unset, \<open>help\<close> with a subcommand and the subcommand with \<open>--help\<close> print the same text, the description of the subcommand, its syntax and its
  options; both end with success, and nothing else happens.
\<close>

theorem cli_help_of_subcommand:
  assumes "\<not> env_posixly_correct (statics c)" and "2 \<le> fuel" and "commands name = Some i"
  shows "\<exists>d e. cli_main Os fuel [x, ''help'', name] c = Returns EXIT_SUCCESS d \<and> cli_main Os fuel [y, name, ''--help''] c = Returns EXIT_SUCCESS e \<and>
    stdout d = stdout e \<and> stdout e = stdout c @ help_text i (help_seen_of (info_proc i) name) \<and> world d = world c \<and> world e = world c"
proof -
  let ?T = "help_text i (help_seen_of (info_proc i) name)"
  have n: "take 1 name \<noteq> ''-''" "info_name i = name" "commands ''help'' = Some (info_of g_help_cmd)" using assms(3)
    by (auto simp: commands_def info_of_def g_help_cmd_def g_store_cmd_def g_switch_cmd_def split: if_splits)
  have argv: "[x, ''help'', name] \<noteq> []" "length [x, ''help'', name] \<noteq> 1" "commands ([x, ''help'', name] ! 1) = Some (info_of g_help_cmd)"
    "[y, name, ''--help''] \<noteq> []" "length [y, name, ''--help''] \<noteq> 1" "commands ([y, name, ''--help''] ! 1) = Some i"
    using assms(3) n by auto
  let ?d = "\<lambda>h. c\<lparr>s_module_name := Some APP_NAME, s_mod_ver := Some ''1.0.0.'', s_hashtable := Some h, res := ''''\<rparr>"
  obtain h1 where h1: "ht_ok h1" "ht_map h1 = commands"
    "cli_main Os fuel [x, ''help'', name] c = finish (run_handler 2 Os fuel help_handler [x, ''help'', name]) (?d h1)"
    using cli_main_dispatches [OF argv(1-3), of Os fuel c] by (auto simp: info_of_def g_help_cmd_def)
  obtain h2 where h2: "ht_ok h2" "ht_map h2 = commands"
    "cli_main Os fuel [y, name, ''--help''] c = finish (run_handler 2 Os fuel (info_proc i) [y, name, ''--help'']) (?d h2)"
    using cli_main_dispatches [OF argv(4-6), of Os fuel c] by blast
  have run: "\<exists>g. run_handler (Suc n) Os fuel (info_proc i) [z, name, ''--help''] (?d h\<lparr>statics := g0\<rparr>) =
      Returns EXIT_SUCCESS (?d h\<lparr>statics := g, res := ?T\<rparr>)" if "ht_ok h" "ht_map h = commands" "\<not> env_posixly_correct g0" for n z h g0
    using handler_help [of "?d h\<lparr>statics := g0\<rparr>" fuel name i n Os z] that assms by (auto simp: registered_def)
  obtain g where g: "parse_args fuel [x, ''help'', name] help_table (?d h1) = Returns (0, help_seen_name ''help'' name) (?d h1\<lparr>statics := g\<rparr>)"
    "\<not> env_posixly_correct g"
    using help_args(3) [of "?d h1" "''help''" fuel name x] assms n(1) by auto
  have info: "arg_cmd_info name (?d h1\<lparr>statics := g\<rparr>) = Returns (Some i) (?d h1\<lparr>statics := g\<rparr>)"
    using info_run [of "?d h1\<lparr>statics := g\<rparr>" commands name] h1(1,2) assms(3) by (simp add: registered_def)
  obtain g1 where g1: "run_handler (Suc 0) Os fuel (info_proc i) [APP_NAME, name, ''--help''] (?d h1\<lparr>statics := g\<rparr>) =
      Returns EXIT_SUCCESS (?d h1\<lparr>statics := g1, res := ?T\<rparr>)"
    using run [OF h1(1,2) g(2)] by blast
  have "run_handler 2 Os fuel help_handler [x, ''help'', name] (?d h1) = Returns EXIT_SUCCESS (?d h1\<lparr>statics := g1, res := ?T\<rparr>)"
    using g(1) g1 info n(2) by (simp add: numeral_2_eq_2 bind_def ret_def arg_make_syntax_err_help_msg_def seen_counts [unfolded numeral_2_eq_2 One_nat_def])
  from finish_run [where m = "run_handler 2 Os fuel help_handler [x, ''help'', name]", OF this]
  obtain d where d: "cli_main Os fuel [x, ''help'', name] c = Returns EXIT_SUCCESS d" "stdout d = stdout c @ ?T" "world d = world c"
    unfolding h1(3) by simp
  obtain g2 where "run_handler 2 Os fuel (info_proc i) [y, name, ''--help''] (?d h2) = Returns EXIT_SUCCESS (?d h2\<lparr>statics := g2, res := ?T\<rparr>)"
    using run [OF h2(1,2), of "statics c" 1 y] assms(1) by (auto simp: numeral_2_eq_2)
  from finish_run [where m = "run_handler 2 Os fuel (info_proc i) [y, name, ''--help'']", OF this]
  have "\<exists>e. cli_main Os fuel [y, name, ''--help''] c = Returns EXIT_SUCCESS e \<and> stdout e = stdout c @ ?T \<and> world e = world c"
    unfolding h2(3) by simp
  with d show ?thesis by force
qed

definition store_help :: string where
  "store_help = ''store: Store the current state of the OS to the disk. This command immediately enters sleep (S3) unless the --lazy flag is passed.'' @ newline @
     ''Usage:'' @ newline @ ''  switch-os-cli store [<command>] [-h|--help] [--lazy]'' @ newline @ '' '' @ newline @
     ''Available options:'' @ newline @
     ''  -h, --help              Output usage information'' @ newline @
     ''  --lazy                  '' @ store_lazy_text @ newline @ newline"

theorem cli_help_of_subcommand_witness:
  "\<exists>d. cli_main (linux_osl (example_linux example_fw)) 2 [''switch-os-cli'', ''help'', ''store''] (start_cli False ((), hooked_uefi)) = Returns EXIT_SUCCESS d \<and>
    stdout d = store_help"
proof -
  have "help_text (info_of g_store_cmd) (help_seen_of store_handler ''store'') = store_help"
    by code_simp
  moreover have "commands ''store'' = Some (info_of g_store_cmd)" "info_proc (info_of g_store_cmd) = store_handler"
    by (simp_all add: commands_def info_of_def g_store_cmd_def)
  ultimately show ?thesis
    using cli_help_of_subcommand [of "start_cli False ((), hooked_uefi)" 2 "''store''" "info_of g_store_cmd" "linux_osl (example_linux example_fw)" "''switch-os-cli''" "''switch-os-cli''"]
    by auto
qed

section \<open>Options behind an argument\<close>

text \<open>With \<open>POSIXLY_CORRECT\<close> what follows the subcommand is an argument.\<close>

lemma op_posix_parses:
  assumes "env_posixly_correct g" and "take 1 cmd \<noteq> ''-''"
  shows "\<exists>g1. arg_parse (Suc (Suc n)) [x, cmd, arg] \<lparr>argtable = op_table name txt, gopt = g\<rparr> =
    Returns 0 \<lparr>argtable = (op_seen name txt cmd 0 0)[1 := Arg_str (hdr_of (arg_str0 None None (Some ''<command>'') None)) 1 [arg]], gopt = g1\<rparr>"
proof -
  let ?t = "op_table name txt" and ?u = "(op_seen name txt cmd 0 0)[1 := Arg_str (hdr_of (arg_str0 None None (Some ''<command>'') None)) 1 [arg]]"
  let ?g1 = "g\<lparr>nargv := [x, cmd, arg], optind := 1, opterr := False, optreset := False, posixly_correct := Some True, optarg := None,
      nonopt_start := None, nonopt_end := None, place := ''''\<rparr>"
  have "getopt_long (Some '':h'') (Some los) (g\<lparr>nargv := [x, cmd, arg], optind := 0, opterr := False\<rparr>) = Returns (- 1) ?g1" for los
    using assms by (simp add: getopt_long_def getopt_internal_def run_defs Let_def no_more_nonopts_def eval_nat_numeral)
  then have tagged: "arg_parse_tagged (Suc (Suc n)) \<lparr>argtable = ?t, gopt = g\<lparr>nargv := [x, cmd, arg]\<rparr>\<rparr> = Returns () \<lparr>argtable = ?t, gopt = ?g1\<rparr>"
    by (simp add: arg_parse_tagged_def on_getopt_def run_defs op_table_options)
  have untagged: "wp arg_parse_untagged Q E \<lparr>argtable = ?t, gopt = ?g1\<rparr> = Q () \<lparr>argtable = ?u, gopt = ?g1\<lparr>optind := 3\<rparr>\<rparr>" for Q E
    by (simp add: arg_parse_untagged_def wp_simps wp_on_getopt set_entry_def op_table_def op_seen_def entry_defs op_hdr_def Let_def eval_nat_numeral ARG_ERR_MAXCOUNT_def)
  have fin: "arg_endindex ?u = Some 4" "?u ! 4 = arg_end 20" "\<forall>e \<in> set (take (4 + 1) ?u). checkfn e = 0"
    by (simp_all add: op_seen_def entry_defs op_hdr_def arg_endindex_def upt_rec)
  have "map resetfn (take (4 + 1) ?t) @ drop (4 + 1) ?t = ?t" using op_table_options(3) by simp
  from parse_parts [OF op_table_options(1) this _ tagged untagged fin] show ?thesis by blast
qed

text \<open>With \<open>POSIXLY_CORRECT\<close> in the environment \<open>--lazy\<close> behind \<open>store\<close> or \<open>switch\<close> is taken for the argument that the handlers do not look
  at: there is no error, and the machine goes to sleep at once.
\<close>

theorem cli_lazy_ignored_if_posixly_correct:
  assumes "Os \<in> {linux_osl L, windows_osl W}" and "linux_delivers F L" and "windows_delivers F W"
    and "world c = (w, s)" and "hook_ready s" and "env_posixly_correct (statics c)" and "2 \<le> fuel"
    and "(cmd, a) \<in> {(''store'', CORE_ACTION_STORE), (''switch'', CORE_ACTION_SWITCH)}"
  shows "\<exists>w' d. stdout d = stdout c \<and> cli_main Os fuel (op_line x cmd True) c = exit_with d (enter_sleep_s3 Os (w', with_action a s))"
proof -
  obtain n where n: "fuel = Suc (Suc n)" using assms(7) by (metis Suc_le_D numeral_2_eq_2 Suc_le_mono)
  have cmd: "take 1 cmd \<noteq> ''-''" using assms(8) by auto
  let ?u = "\<lambda>name t. (op_seen name t cmd 0 0)[1 := Arg_str (hdr_of (arg_str0 None None (Some ''<command>'') None)) 1 [''--lazy'']]"
  have counts: "lit_count (?u name t ! 2) = 0" "lit_count (?u name t ! 3) = 0" for name t by (simp_all add: seen_counts)
  have parsed: "\<exists>g. parse_args fuel (op_line x cmd True) (op_table name t) d = Returns (0, ?u name t) (d\<lparr>statics := g\<rparr>)" if "statics d = statics c" for name t d
    using op_posix_parses [of "statics d" cmd n x "''--lazy''" name t] that assms(6) cmd parse_args_run unfolding n op_line_def by fastforce
  have runs: "\<exists>g. run_handler 2 Os fuel store_handler (op_line x cmd True) d = exit_with (d\<lparr>statics := g\<rparr>) (execute_store_op Os False (world d))"
      "\<exists>g. run_handler 2 Os fuel switch_handler (op_line x cmd True) d = exit_with (d\<lparr>statics := g\<rparr>) (execute_switch_op Os False (world d))"
    if "statics d = statics c" for d
    using parsed [OF that, of "''store''" store_lazy_text] parsed [OF that, of "''switch''" switch_lazy_text] handler_run_seen [OF counts(1), of fuel "op_line x cmd True" d _ _ _ Os]
    unfolding store_table_def [symmetric] switch_table_def [symmetric] counts by auto
  show ?thesis
    using cli_op_delivers [OF assms(1-5) _ _ assms(8), where argv = "op_line x cmd True" and is_lazy = False, OF _ _ runs] by (simp add: op_line_def)
qed

theorem cli_lazy_ignored_if_posixly_correct_witness:
  "\<exists>d. cli_main (linux_osl (example_linux example_fw)) 2 [''switch-os-cli'', ''store'', ''--lazy''] (start_cli True ((), hooked_uefi)) =
    exit_with d (enter_sleep_s3 (linux_osl (example_linux example_fw)) ((), with_action CORE_ACTION_STORE hooked_uefi))"
  using cli_lazy_ignored_if_posixly_correct [where Os = "linux_osl (example_linux example_fw)" and L = "example_linux example_fw" and W = "example_windows example_fw"
      and c = "start_cli True ((), hooked_uefi)" and fuel = 2 and cmd = "''store''" and a = CORE_ACTION_STORE and x = "''switch-os-cli''",
      OF _ example_linux_delivers example_windows_delivers _ hooked_uefi_ready(1)]
  by (auto simp: op_line_def)

end
