(* ===== verification/CliResources.thy ===== *)
theory CliResources
  imports Cli
begin

text \<open>
  What the operating system layer of the tool opens it closes again, on success and on every error path of \<^verbatim>\<open>cli/osl/\<close>.
\<close>

section \<open>Resources of the operating systems\<close>

text \<open>
  The open descriptors and handles of a process: a successful call that opens gives a new one, closing takes it away, and the
  other calls leave them as they are.
\<close>

definition linux_descriptors :: "'w linux \<Rightarrow> ('w \<Rightarrow> u64 set) \<Rightarrow> bool" where
  "linux_descriptors L opened \<longleftrightarrow>
     (\<forall>path flags w. case sys_open L path flags w of (fd, w') \<Rightarrow>
        if 0 <=s fd then ucast fd \<notin> opened w \<and> opened w' = insert (ucast fd) (opened w) else opened w' = opened w) \<and>
     (\<forall>fd w. opened (sys_close L fd w) = opened w - {ucast fd}) \<and>
     (\<forall>fd str w. opened (snd (sys_write L fd str w)) = opened w) \<and>
     (\<forall>guid name data a m w. opened (snd (efi_set_variable L guid name data a m w)) = opened w)"

definition windows_descriptors :: "'w windows \<Rightarrow> ('w \<Rightarrow> u64 set) \<Rightarrow> bool" where
  "windows_descriptors W opened \<longleftrightarrow>
     (\<forall>a w. case OpenProcessToken W a w of ((r, token), w') \<Rightarrow>
        if r \<noteq> 0 then token \<noteq> INVALID_HANDLE_VALUE \<and> token \<notin> opened w \<and> opened w' = insert token (opened w) else opened w' = opened w) \<and>
     (\<forall>token w. opened (CloseHandle W token w) = opened w - {token}) \<and>
     (\<forall>p w. opened (snd (LookupPrivilegeValue W p w)) = opened w) \<and>
     (\<forall>token p w. opened (snd (AdjustTokenPrivileges W token p w)) = opened w) \<and>
     (\<forall>name guid data w. opened (snd (SetFirmwareEnvironmentVariableW W name guid data w)) = opened w) \<and>
     (\<forall>h f e w. opened (snd (SetSuspendState W h f e w)) = opened w)"

definition keeps :: "('w \<Rightarrow> 'x) \<Rightarrow> ('w, 'a) cfun \<Rightarrow> bool" where
  "keeps f m \<longleftrightarrow> (\<forall>w. case m w of Returns _ w' \<Rightarrow> f w' = f w | Throws _ w' \<Rightarrow> f w' = f w | Faults _ \<Rightarrow> False)"

named_theorems keeps_intros

lemma keeps_ret [keeps_intros]: "keeps f (ret a)"
  by (simp add: keeps_def ret_def)

lemma keeps_CHECK [keeps_intros]: "keeps f (CHECK b)"
  by (simp add: keeps_def CHECK_def ret_def throw_def)

lemma keeps_gets [keeps_intros]: "keeps f (gets g)"
  by (simp add: keeps_def gets_def)

lemma keeps_stateful [keeps_intros]: "(\<And>w. f (snd (g w)) = f w) \<Longrightarrow> keeps f (stateful g)"
  by (auto simp: keeps_def stateful_def split: prod.splits) (metis snd_conv)

lemma keeps_bind [keeps_intros]: "keeps f m \<Longrightarrow> (\<And>a. keeps f (k a)) \<Longrightarrow> keeps f (bind m k)"
  by (force simp: keeps_def bind_def split: outcome.splits)

lemma keeps_seq [keeps_intros]: "keeps f m \<Longrightarrow> keeps f k \<Longrightarrow> keeps f (seq m k)"
  by (simp add: seq_def keeps_bind)

lemma keeps_if [keeps_intros]: "keeps f m \<Longrightarrow> keeps f k \<Longrightarrow> keeps f (if b then m else k)"
  by simp

text \<open>Work between an opening and the closing on both the way out and the error path.\<close>

lemma keeps_closed:
  assumes "keeps f m"
  shows "case (seq (on_error m (modify close)) (modify close)) w of Returns _ w' \<Rightarrow> \<exists>x. f x = f w \<and> w' = close x
    | Throws _ w' \<Rightarrow> \<exists>x. f x = f w \<and> w' = close x | Faults _ \<Rightarrow> False"
  using assms [unfolded keeps_def, rule_format, of w]
  by (auto simp: seq_def bind_def on_error_def modify_def split: outcome.splits)

lemma bind_stateful: "f w = (a, w') \<Longrightarrow> bind (stateful f) k w = k a w'"
  by (simp add: bind_def stateful_def)

lemma linux_keeps:
  assumes "linux_descriptors L opened"
  shows "keeps opened (linux_set_uefi_variable L guid name data)" and "keeps opened (linux_enter_sleep_s3 L)"
proof -
  show "keeps opened (linux_set_uefi_variable L guid name data)"
    using assms by (auto simp: linux_set_uefi_variable_def linux_descriptors_def intro!: keeps_intros split: prod.split)
  show "keeps opened (linux_enter_sleep_s3 L)"
    unfolding keeps_def
  proof
    fix w
    obtain fd w1 where 1: "sys_open L power_state_path O_WRONLY w = (fd, w1)" by fastforce
    show "case linux_enter_sleep_s3 L w of Returns _ w' \<Rightarrow> opened w' = opened w | Throws _ w' \<Rightarrow> opened w' = opened w | Faults _ \<Rightarrow> False"
    proof (cases "0 <=s fd")
      case True
      then have o: "ucast fd \<notin> opened w" "opened w1 = insert (ucast fd) (opened w)"
        using assms 1 unfolding linux_descriptors_def by (metis (mono_tags, lifting) case_prod_conv)+
      have "keeps opened (seq (CHECK (0 <=s fd)) (bind (stateful (sys_write L fd power_state_mem_str)) (\<lambda>n. CHECK (n = of_nat (length power_state_mem_str)))))"
        using assms by (intro keeps_intros) (simp add: linux_descriptors_def)
      note closed = keeps_closed [OF this, of w1 "sys_close L fd"]
      have "opened (sys_close L fd x) = opened w" if "opened x = opened w1" for x
        using assms o that by (simp add: linux_descriptors_def)
      moreover have "linux_enter_sleep_s3 L w = seq (on_error (seq (CHECK (0 <=s fd)) (bind (stateful (sys_write L fd power_state_mem_str))
          (\<lambda>n. CHECK (n = of_nat (length power_state_mem_str))))) (modify (sys_close L fd))) (modify (sys_close L fd)) w1"
        using 1 True by (simp add: linux_enter_sleep_s3_def linux_close_power_state_def bind_stateful)
      ultimately show ?thesis using closed by (auto split: outcome.splits)
    next
      case False
      then have "opened w1 = opened w" using assms 1 unfolding linux_descriptors_def by (metis (mono_tags, lifting) case_prod_conv)
      with False 1 show ?thesis
        by (simp add: linux_enter_sleep_s3_def linux_close_power_state_def bind_def stateful_def seq_def on_error_def CHECK_def throw_def ret_def)
    qed
  qed
qed

lemma windows_keeps:
  assumes "windows_descriptors W opened"
  shows "keeps opened (windows_set_uefi_variable W guid name data)" and "keeps opened (windows_enter_sleep_s3 W)"
    and "keeps opened (windows_enable_privilege W p)"
proof -
  show "keeps opened (windows_set_uefi_variable W guid name data)"
    using assms by (auto simp: windows_set_uefi_variable_def guid_to_string_def windows_descriptors_def intro!: keeps_intros split: prod.split)
  show "keeps opened (windows_enter_sleep_s3 W)"
    using assms by (auto simp: windows_enter_sleep_s3_def windows_descriptors_def intro!: keeps_intros)
  show "keeps opened (windows_enable_privilege W p)"
    unfolding keeps_def
  proof
    fix w
    obtain r token w1 where 1: "OpenProcessToken W (TOKEN_ADJUST_PRIVILEGES OR TOKEN_QUERY) w = ((r, token), w1)" by (metis surj_pair)
    have o: "if r \<noteq> 0 then token \<noteq> INVALID_HANDLE_VALUE \<and> token \<notin> opened w \<and> opened w1 = insert token (opened w) else opened w1 = opened w"
      using assms unfolding windows_descriptors_def by (metis (mono_tags, lifting) 1 case_prod_conv)
    show "case windows_enable_privilege W p w of Returns _ w' \<Rightarrow> opened w' = opened w | Throws _ w' \<Rightarrow> opened w' = opened w | Faults _ \<Rightarrow> False"
    proof (cases "r \<noteq> 0")
      case True
      have "keeps opened (seq (CHECK (r \<noteq> 0)) (set_privilege W token p True))"
        using assms by (auto simp: set_privilege_def windows_descriptors_def intro!: keeps_intros split: prod.split)
      note closed = keeps_closed [OF this, of w1 "CloseHandle W token"]
      have "opened (CloseHandle W token x) = opened w" if "opened x = opened w1" for x
        using assms o True that by (simp add: windows_descriptors_def)
      moreover have "windows_enable_privilege W p w = seq (on_error (seq (CHECK (r \<noteq> 0)) (set_privilege W token p True)) (modify (CloseHandle W token)))
          (modify (CloseHandle W token)) w1"
        using 1 True o by (simp add: windows_enable_privilege_def close_token_def bind_stateful)
      ultimately show ?thesis using closed by (auto split: outcome.splits)
    next
      case False
      with 1 o show ?thesis
        by (simp add: windows_enable_privilege_def close_token_def bind_def stateful_def seq_def on_error_def CHECK_def throw_def ret_def Let_def)
    qed
  qed
qed

text \<open>C26: No descriptor and no handle is left open: whatever the system calls return, after \<open>store\<close> and \<open>switch\<close>, with or without
  sleep, the descriptors and tokens that are open are those that were open before, also when a step has failed.\<close>

theorem cli_leaves_nothing_open:
  assumes "Os \<in> {linux_osl L, windows_osl W}" and "linux_descriptors L opened" and "windows_descriptors W opened"
    and "m \<in> {execute_store_op Os is_lazy, execute_switch_op Os is_lazy}"
  shows "case m w of Returns _ w' \<Rightarrow> opened w' = opened w | Throws _ w' \<Rightarrow> opened w' = opened w | Faults _ \<Rightarrow> False"
proof -
  have "keeps opened (enable_uefi_privileges Os)" "keeps opened (enable_sleep_privileges Os)" "keeps opened (enter_sleep_s3 Os)"
    "keeps opened (set_uefi_variable Os guid name data)" for guid name data
    using assms(1) linux_keeps [OF assms(2)] windows_keeps [OF assms(3)]
    by (auto simp: linux_osl_def windows_osl_def windows_enable_uefi_privileges_def windows_enable_sleep_privileges_def keeps_ret)
  then have "keeps opened m"
    using assms(4) by (auto simp: execute_store_op_def execute_switch_op_def send_uefi_command_def intro!: keeps_intros)
  then show ?thesis by (simp add: keeps_def)
qed

text \<open>A Linux and a Windows whose state is the set of what is open, in which writing fails.\<close>

definition lazy_linux :: "u64 set linux" where
  "lazy_linux = \<lparr>wcsrtombs = \<lambda>name n. (15, map ucast name @ [0]), efi_set_variable = \<lambda>guid name data a m w. (0, w),
     sys_open = \<lambda>path flags w. if 3 \<in> w then (- 1, w) else (3, insert 3 w), sys_write = \<lambda>fd str w. (- 1, w),
     sys_close = \<lambda>fd w. w - {ucast fd}\<rparr>"

definition lazy_windows :: "u64 set windows" where
  "lazy_windows = \<lparr>LookupPrivilegeValue = \<lambda>p w. ((0, 0), w), AdjustTokenPrivileges = \<lambda>token p w. (1, w), GetLastError = \<lambda>w. 0,
     OpenProcessToken = \<lambda>a w. if 4 \<in> w then ((0, 0), w) else ((1, 4), insert 4 w), CloseHandle = \<lambda>token w. w - {token},
     StringFromGUID2 = \<lambda>guid n. (39, []), SetFirmwareEnvironmentVariableW = \<lambda>name guid data w. (1, w), SetSuspendState = \<lambda>h f e w. (1, w)\<rparr>"

theorem cli_leaves_nothing_open_witness:
  "execute_store_op (linux_osl lazy_linux) False {} = Throws ERR_INVALID {}"
proof -
  have fd: "0 <=s (3 :: u32)" "\<not> 0 <=s (- 1 :: u32)" by code_simp+
  have "linux_descriptors lazy_linux (\<lambda>w. w)" by (simp add: linux_descriptors_def lazy_linux_def fd split: prod.split)
  moreover have "windows_descriptors lazy_windows (\<lambda>w. w)" by (simp add: windows_descriptors_def lazy_windows_def INVALID_HANDLE_VALUE_def split: prod.split)
  ultimately have "case execute_store_op (linux_osl lazy_linux) False {} of Returns _ w' \<Rightarrow> w' = {} | Throws _ w' \<Rightarrow> w' = {} | Faults _ \<Rightarrow> False"
    using cli_leaves_nothing_open [of "linux_osl lazy_linux" lazy_linux lazy_windows "\<lambda>w. w" "execute_store_op (linux_osl lazy_linux) False" False "{}"] by simp
  moreover have "\<exists>w'. execute_store_op (linux_osl lazy_linux) False {} = Throws ERR_INVALID w'"
    by (simp add: execute_store_op_def linux_osl_def send_uefi_command_def linux_set_uefi_variable_def linux_enter_sleep_s3_def lazy_linux_def
        linux_close_power_state_def fd bind_def seq_def on_error_def stateful_def CHECK_def throw_def ret_def modify_def power_state_mem_str_def)
  ultimately show ?thesis by auto
qed

end
