(* ===== verification/ArgPrintProps.thy ===== *)
theory ArgPrintProps
  imports ArgPrint
begin

text \<open>
  The texts of the option parser: its buffers do not overflow, and wrapping a text only changes its white space.
\<close>

section \<open>Buffers\<close>

text \<open>\<open>arg_cat\<close> leaves \<open>dest\<close> at the end of the text, which is where \<open>strncat\<close> goes on.\<close>

lemma arg_cat_fits: "0 < cap \<Longrightarrow> length (fst (arg_cat cap src b)) < cap"
  by (auto simp: arg_cat_def Let_def split: prod.splits)

lemma strncat_fits:
  assumes "0 < cap"
  shows "length (fst (strncat_name cap s (arg_cat cap src b))) \<le> cap"
proof -
  obtain t d where c: "arg_cat cap src b = (t, d)" by fastforce
  then have "length t < cap" using arg_cat_fits [OF assms, of src b] by simp
  moreover have "d = length t" using c by (auto simp: arg_cat_def Let_def split: prod.splits)
  ultimately show ?thesis unfolding c by (simp add: strncat_name_def Let_def, linarith)
qed

lemma datatype_fits: "0 < cap \<Longrightarrow> length (fst (cat_datatype cap dt optvalue b)) < cap"
  by (simp add: cat_datatype_def arg_cat_fits)

lemma shortopts_fit: "0 < cap \<Longrightarrow> length (fst b) \<le> cap \<Longrightarrow> length (fst (cat_shortopts cap sep cs b)) \<le> cap"
  by (induction cs arbitrary: b) (auto simp: Let_def less_imp_le [OF arg_cat_fits])

lemma longopts_fit:
  assumes "0 < cap" and "length (fst b) \<le> cap"
  shows "length (fst (cat_longopts cap sep c b)) \<le> cap"
  using assms(2)
proof (induction "length c" arbitrary: b c rule: less_induct)
  case less
  let ?b = "strncat_name cap c (arg_cat cap ''--'' b)" and ?c = "dropWhile (\<lambda>x. x \<noteq> CHR '','') c"
  show ?case
  proof (cases "c = ''''")
    case False
    then have c: "cat_longopts cap sep c b = (if ?c \<noteq> '''' then cat_longopts cap sep (tl ?c) (arg_cat cap sep ?b) else ?b)"
      by (subst cat_longopts.simps) (simp add: Let_def cat_longopts.simps)
    have "length (tl ?c) < length c" if "?c \<noteq> ''''"
    proof -
      have "length ?c \<le> length c" "0 < length ?c" using that length_dropWhile_le by auto
      then show ?thesis unfolding length_tl by linarith
    qed
    then show ?thesis unfolding c using less.hyps [of "tl ?c" "arg_cat cap sep ?b"] less_imp_le [OF arg_cat_fits [OF assms(1)]] strncat_fits [OF assms(1)]
      by (cases "?c = ''''") (simp_all only: if_True if_False refl not_True_eq_False not_False_eq_True)
  next
    case True
    with less.prems show ?thesis by (simp add: cat_longopts.simps)
  qed
qed

text \<open>Whatever the options, their data type and the separator are, the text of an option with its terminator stays in the buffer of 200
  bytes, also where \<open>strncat\<close> puts in names that \<open>arg_cat\<close> has not cut.
\<close>

theorem option_text_fits:
  "length (arg_cat_optionv (syntax_size - 1) short long datatype optvalue separator '''') < syntax_size \<and>
   length (arg_cat_option (syntax_size - 1) short long datatype optvalue '''') < syntax_size"
proof -
  define cap where "cap = syntax_size - 1"
  have cap: "0 < cap" "cap < syntax_size" by (simp_all add: cap_def syntax_size_def)
  note fits = arg_cat_fits [OF cap(1)] datatype_fits [OF cap(1)] strncat_fits [OF cap(1)]
  have "length (arg_cat_option cap short long datatype optvalue '''') \<le> cap"
    by (auto simp: arg_cat_option_def Let_def less_imp_le [OF fits(1)] less_imp_le [OF fits(2)] fits(3) split: option.split)
  moreover have "length (arg_cat_optionv cap short long datatype optvalue separator '''') \<le> cap"
    using shortopts_fit [OF cap(1)] longopts_fit [OF cap(1)]
    by (auto simp: arg_cat_optionv_def Let_def less_imp_le [OF fits(1)] less_imp_le [OF fits(2)] split: option.split)
  ultimately show ?thesis using cap(2) unfolding cap_def by linarith
qed

section \<open>Wrapped text\<close>

lemma back_while_bounds: "ls \<le> e \<Longrightarrow> ls \<le> back_while P ls e \<and> back_while P ls e \<le> e"
  by (induction e) (auto simp: le_Suc_eq)

text \<open>The end of a line is behind its start.\<close>

lemma wrap_line_bounds:
  assumes "ls < le" and "le \<le> length s" and "0 < col"
  shows "ls < wrap_line col s ls le" and "wrap_line col s ls le \<le> le"
proof -
  let ?e = "back_while (\<lambda>i. \<not> isspace (text_at s i)) ls (ls + col)"
  let ?f = "back_while (\<lambda>i. isspace (text_at s i) \<and> \<not> is_newline (text_at s ls)) ls ?e"
  have e: "ls \<le> ?e" "?e \<le> ls + col" using back_while_bounds [of ls "ls + col"] by auto
  have f: "ls \<le> ?f" "?f \<le> ?e" using back_while_bounds [OF e(1)] by auto
  show "ls < wrap_line col s ls le" "wrap_line col s ls le \<le> le"
    using assms e f by (auto simp: wrap_line_def Let_def)
qed

text \<open>A line puts out what it passes, but for white space.\<close>

lemma newline_isspace: "is_newline c \<Longrightarrow> isspace c"
  by (simp add: is_newline_def isspace_def code_of_def)

lemma output_line_filter:
  assumes "ls \<le> le" and "le \<le> length s" and "output_line s ls le = (out, ls')"
  shows "filter (\<lambda>c. \<not> isspace c) (drop ls s) = filter (\<lambda>c. \<not> isspace c) out @ filter (\<lambda>c. \<not> isspace c) (drop ls' s)"
    and "ls' \<le> length s" and "ls < le \<Longrightarrow> ls < ls'"
proof -
  let ?seg = "take (le - ls) (drop ls s)" and ?nl = "\<lambda>c. \<not> is_newline c"
  have out: "out = takeWhile ?nl ?seg" "ls' = (if length out < length ?seg then ls + length out + 1 else le)"
    using assms(3) by (auto simp: output_line_def Let_def)
  have len: "length ?seg = le - ls" using assms(1,2) by simp
  have s: "drop ls s = ?seg @ drop le s" using assms(1) by (metis append_take_drop_id drop_drop le_add_diff_inverse2)
  show "ls' \<le> length s" using assms(1,2) out(2) len by (auto split: if_splits)
  show "ls < ls'" if "ls < le" using that out(2) by (auto split: if_splits)
  show "filter (\<lambda>c. \<not> isspace c) (drop ls s) = filter (\<lambda>c. \<not> isspace c) out @ filter (\<lambda>c. \<not> isspace c) (drop ls' s)"
  proof (cases "length out < length ?seg")
    case True
    then have "dropWhile ?nl ?seg \<noteq> []" using out(1) by (metis append_Nil2 less_irrefl takeWhile_dropWhile_id)
    then obtain c rst where r: "dropWhile ?nl ?seg = c # rst" "is_newline c" by (metis hd_dropWhile list.collapse)
    then have seg: "?seg = out @ c # rst" using out(1) by (metis takeWhile_dropWhile_id)
    then have "drop ls s = out @ c # rst @ drop le s" using s by simp
    moreover from this have "drop (ls + length out + 1) s = rst @ drop le s" by (metis add.commute append_Cons append_assoc drop_drop drop_eq_Nil2 append.left_neutral append_eq_conv_conj drop_Suc_Cons drop0 plus_1_eq_Suc)
    moreover have "ls' = ls + length out + 1" using True out(2) by simp
    ultimately show ?thesis using newline_isspace [OF r(2)] by simp
  next
    case False
    then have "out = ?seg" using out(1) by (metis length_takeWhile_le takeWhile_eq_take take_all not_less)
    then show ?thesis using False out(2) s by (metis filter_append)
  qed
qed

lemma skip_spaces_filter:
  assumes "ls \<le> length s"
  shows "filter (\<lambda>c. \<not> isspace c) (drop ls s) = filter (\<lambda>c. \<not> isspace c) (drop (skip_spaces s ls) s)"
    and "ls \<le> skip_spaces s ls" and "skip_spaces s ls \<le> length s"
proof -
  let ?P = "\<lambda>c. isspace c \<and> \<not> is_newline c"
  have d: "drop (skip_spaces s ls) s = dropWhile ?P (drop ls s)"
    by (simp add: skip_spaces_def dropWhile_eq_drop add.commute)
  have "filter (\<lambda>c. \<not> isspace c) (takeWhile ?P (drop ls s)) = []" by (auto simp: filter_empty_conv dest: set_takeWhileD)
  then show "filter (\<lambda>c. \<not> isspace c) (drop ls s) = filter (\<lambda>c. \<not> isspace c) (drop (skip_spaces s ls) s)"
    unfolding d by (metis append_Nil filter_append takeWhile_dropWhile_id)
  show "ls \<le> skip_spaces s ls" by (simp add: skip_spaces_def)
  show "skip_spaces s ls \<le> length s" using assms length_takeWhile_le [of ?P "drop ls s"] by (simp add: skip_spaces_def)
qed

lemma formatted_lines_filter:
  assumes "ls \<le> length s" and "length s - ls < n" and "0 < col"
  shows "\<exists>t. formatted_lines n lmargin col s ls (length s) = Some t \<and> filter (\<lambda>c. \<not> isspace c) t = filter (\<lambda>c. \<not> isspace c) (drop ls s)"
  using assms(1,2)
proof (induction n arbitrary: ls)
  case (Suc n)
  show ?case
  proof (cases "ls < length s")
    case True
    let ?ls = "skip_spaces s ls" and ?le = "wrap_line col s (skip_spaces s ls) (length s)"
    note skip = skip_spaces_filter [OF Suc.prems(1)]
    obtain out ls' where o': "output_line s ?ls ?le = (out, ls')" by fastforce
    have le: "?ls \<le> ?le" "?le \<le> length s" "?ls < length s \<Longrightarrow> ?ls < ?le"
      using wrap_line_bounds [of ?ls "length s" s col] skip(3) assms(3) by (cases "?ls < length s"; simp add: wrap_line_def)+
    note line = output_line_filter [OF le(1,2) o']
    have "ls < ls'"
    proof (cases "?ls < length s")
      case False
      then have "?le = length s" "out = ''''" "ls' = length s" using o' skip(3) le by (auto simp: output_line_def Let_def)
      then show ?thesis using True by simp
    qed (use line(3) le(3) skip(2) in simp)
    then have "length s - ls' < n" using Suc.prems(2) True by linarith
    then obtain t where t: "formatted_lines n lmargin col s ls' (length s) = Some t"
        "filter (\<lambda>c. \<not> isspace c) t = filter (\<lambda>c. \<not> isspace c) (drop ls' s)"
      using Suc.IH [OF line(2)] by blast
    have "isspace (char_of (10 :: nat))" "isspace CHR '' ''" by (simp_all add: isspace_def)
    then show ?thesis using True o' t line(1) skip(1) le(2)
      by (cases "?le < length s") (auto simp: Let_def newline_def filter_replicate)
  qed simp
qed simp

text \<open>
  \<open>arg_print_formatted\<close> comes to an end for every text, if its margins leave a column, and what it prints is the text but for its
  white space: no word is lost, doubled or put in another order, also where a line is broken inside a word or at a newline.
\<close>

theorem formatted_keeps_text:
  assumes "rmargin - lmargin + 1 \<noteq> 0"
  shows "\<exists>t. arg_print_formatted_ds lmargin rmargin s = Some t \<and> filter (\<lambda>c. \<not> isspace c) t = filter (\<lambda>c. \<not> isspace c) s"
proof -
  have "0 < unat (rmargin - lmargin + 1)" using assms by (simp add: unat_gt_0)
  then show ?thesis using formatted_lines_filter [of 0 s "length s + 1" _ "unat lmargin"] by (simp add: arg_print_formatted_ds_def)
qed

theorem formatted_keeps_text_witness:
  "arg_print_formatted_ds 2 7 ''Some text that does not fit.'' = Some (concat (map (\<lambda>l. l @ newline)
     [''Some'', ''  text'', ''  that'', ''  does'', ''  not'', ''  fit.'']))"
proof -
  have "\<exists>t. arg_print_formatted_ds 2 7 ''Some text that does not fit.'' = Some t"
    using formatted_keeps_text [of 7 2 "''Some text that does not fit.''"] by auto
  moreover have "arg_print_formatted_ds 2 7 ''Some text that does not fit.'' = Some (concat (map (\<lambda>l. l @ newline)
     [''Some'', ''  text'', ''  that'', ''  does'', ''  not'', ''  fit.'']))" by code_simp
  ultimately show ?thesis by simp
qed

end
