(* ===== verification/ArgOption.thy ===== *)
theory ArgOption
  imports ArgPrint Frames
begin

text \<open>
  What all types of options with an argument share (\<^verbatim>\<open>cli/lib/argtable/argtable3.c\<close>, the \<open>resetfn\<close>, \<open>scanfn\<close> and \<open>checkfn\<close> an \<open>arg_hdr\<close> points to):
  the contract on which \<open>arg_parse\<close> relies, and what follows from it for the calls \<open>arg_parse\<close> makes for one entry. Every type interprets the locale.
\<close>

section \<open>The calls for one entry\<close>

text \<open>One call of \<open>scanfn\<close> for every occurrence of the option; the results are the codes that \<open>arg_parse\<close> registers unless they are 0.\<close>

primrec scan_all :: "(string option \<Rightarrow> ('p, int) cfun) \<Rightarrow> string option list \<Rightarrow> ('p, int list) cfun" where
  "scan_all scan [] = ret []"
| "scan_all scan (a # args) = bind (scan a) (\<lambda>e. bind (scan_all scan args) (\<lambda>es. ret (e # es)))"

definition parse_entry :: "('p, unit) cfun \<Rightarrow> (string option \<Rightarrow> ('p, int) cfun) \<Rightarrow> ('p, int) cfun \<Rightarrow> string option list \<Rightarrow> ('p, int list) cfun" where
  "parse_entry reset scan check args = seq reset (bind (scan_all scan args) (\<lambda>es. bind check (\<lambda>e. ret (es @ [e]))))"

section \<open>The contract\<close>

locale option_type =
  fixes hdr :: "'p \<Rightarrow> arg_hdr" and count :: "'p \<Rightarrow> nat"
    and reset :: "('p, unit) cfun" and scan :: "string option \<Rightarrow> ('p, int) cfun" and check :: "('p, int) cfun"
  assumes reset: "wlp reset (\<lambda>_ p'. hdr p' = hdr p \<and> count p' = 0) (\<lambda>_. False) p"
    and scan: "wlp (scan a) (\<lambda>e p'. if e = 0 then hdr p' = hdr p \<and> count p' = count p + 1 else p' = p) (\<lambda>_. True) p"
    and scan_full: "count p = maxcount (hdr p) \<Longrightarrow> scan a p = Returns ARG_ERR_MAXCOUNT p"
    and check: "check p = Returns (if count p < mincount (hdr p) then ARG_ERR_MINCOUNT else 0) p"
begin

lemma scan_counts:
  assumes "count p \<le> maxcount (hdr p)"
  shows "wlp (scan a) (\<lambda>e p'. hdr p' = hdr p \<and> count p' = count p + (if e = 0 then 1 else 0) \<and> count p' \<le> maxcount (hdr p)) (\<lambda>_. True) p"
proof (cases "count p = maxcount (hdr p)")
  case True
  then show ?thesis by (simp add: wlp_def scan_full ARG_ERR_MAXCOUNT_def)
next
  case False
  then show ?thesis using assms by (intro wlp_mono [OF scan]) (auto split: if_splits)
qed

lemma scan_all_counts:
  "count p \<le> maxcount (hdr p) \<Longrightarrow>
   wlp (scan_all scan args) (\<lambda>es p'. hdr p' = hdr p \<and> length es = length args \<and> count p' = count p + length (filter (\<lambda>e. e = 0) es) \<and>
     count p' \<le> maxcount (hdr p)) (\<lambda>_. True) p"
proof (induction args arbitrary: p)
  case (Cons a args)
  show ?case unfolding scan_all.simps wlp_bind wlp_ret
  proof (rule wlp_mono [OF scan_counts [OF Cons.prems]], goal_cases)
    case (1 e p')
    then have "count p' \<le> maxcount (hdr p')" by simp
    then show ?case by (rule wlp_mono [OF Cons.IH]) (use 1 in auto)
  qed simp
qed (simp add: wlp_simps)

text \<open>
  The calls of one entry count the accepted occurrences, never more than \<open>maxcount\<close>; if no call reports an error, all occurrences were accepted and there were at
  least \<open>mincount\<close> of them.
\<close>

lemma parse_entry_counts:
  "wlp (parse_entry reset scan check args) (\<lambda>es p'. hdr p' = hdr p \<and> count p' = length (filter (\<lambda>e. e = 0) (butlast es)) \<and> count p' \<le> maxcount (hdr p) \<and>
     (set es \<subseteq> {0} \<longrightarrow> count p' = length args \<and> mincount (hdr p) \<le> count p')) (\<lambda>_. True) p"
  unfolding parse_entry_def wlp_seq wlp_bind wlp_ret
proof (rule wlp_mono [OF reset], goal_cases)
  case (1 u q)
  then have q: "count q \<le> maxcount (hdr q)" by simp
  show ?case
  proof (rule wlp_mono [OF scan_all_counts [OF q]], goal_cases)
    case (1 es r)
    moreover have "set es \<subseteq> {0} \<Longrightarrow> filter (\<lambda>e. e = 0) es = es" by (rule filter_True) auto
    ultimately show ?case using \<open>hdr q = hdr p \<and> count q = 0\<close>
      by (auto simp: wlp_def check ARG_ERR_MINCOUNT_def split: if_splits)
  qed simp
qed simp

end

end
