(* ===== verification/ArgInt.thy ===== *)
theory ArgInt
  imports ArgOption
begin

text \<open>
  Options with an integer (\<open>arg_int\<close> of \<^verbatim>\<open>cli/lib/argtable/argtable3.c\<close>): the number can be hexadecimal, octal, binary or decimal and have one
  of the suffixes KB, MB and GB. The functions of the entry act on the entry itself; a signed overflow is undefined behaviour.
  \<open>w\<close> is the width of \<open>long\<close>, 64 bits on Linux and 32 on Windows.
\<close>

section \<open>The entry and its functions\<close>

record arg_int =
  int_hdr :: arg_hdr
  int_count :: nat
  ival :: "int list"

definition ARG_ERR_BADINT :: int where "ARG_ERR_BADINT = 3"
definition ARG_ERR_OVERFLOW :: int where "ARG_ERR_OVERFLOW = 4"



definition arg_int_resetfn :: "(arg_int, unit) cfun" where
  "arg_int_resetfn = modify (\<lambda>p. p\<lparr>int_count := 0\<rparr>)"

text \<open>
  The number and the position behind it, 0 for \<open>str\<close> itself when there is no number. Both characters of the prefix are compared, also when
  the first is the terminator; the second is only read when the first is 0.
\<close>

definition strtol0X :: "nat \<Rightarrow> string \<Rightarrow> char \<Rightarrow> nat \<Rightarrow> (arg_int, int \<times> nat) cfun" where
  "strtol0X w str X base =
     (let ws = length (takeWhile isspace str); c = text_at str ws;
          ptr = (if c = CHR ''+'' \<or> c = CHR ''-'' then ws + 1 else ws);
          s = (if c = CHR ''-'' then - 1 else 1)
      in if text_at str ptr \<noteq> CHR ''0'' then ret (0, 0)
         else if toupper (text_at str (ptr + 1)) \<noteq> toupper X then ret (0, 0)
         else (case strtol w (drop (ptr + 2) str) base of (val, n) \<Rightarrow>
           if n = 0 then ret (0, 0)
           else seq (defined_if (long_min w \<le> s * val \<and> s * val \<le> long_max w)) (ret (s * val, ptr + 2 + n))))"

text \<open>The strings up to the first mismatch, then the white space.\<close>

fun detectsuffix :: "string \<Rightarrow> string \<Rightarrow> bool" where
  "detectsuffix [] [] = True"
| "detectsuffix (c # str) (d # suffix) =
     (if toupper c = toupper d then detectsuffix str suffix else False)"
| "detectsuffix [] (d # suffix) = False"
| "detectsuffix (c # str) [] = (dropWhile isspace (c # str) = [])"

text \<open>The four formats, in the order in which they are tried.\<close>

definition scan_integer :: "nat \<Rightarrow> string \<Rightarrow> (arg_int, int \<times> nat) cfun" where
  "scan_integer w argval =
     bind (strtol0X w argval CHR ''X'' 16) (\<lambda>r. if snd r \<noteq> 0 then ret r else
     bind (strtol0X w argval CHR ''O'' 8) (\<lambda>r. if snd r \<noteq> 0 then ret r else
     bind (strtol0X w argval CHR ''B'' 2) (\<lambda>r. if snd r \<noteq> 0 then ret r else
     ret (strtol w argval 10))))"

text \<open>The division of C truncates towards zero. The result is the error code, if it is set, and the value.\<close>

definition scale :: "int \<Rightarrow> int \<Rightarrow> int \<Rightarrow> int \<times> int" where
  "scale factor errorcode val =
     (if val > INT_MAX div factor \<or> val < - ((- INT_MIN) div factor) then (ARG_ERR_OVERFLOW, val) else (errorcode, val * factor))"

definition apply_suffix :: "string \<Rightarrow> int \<Rightarrow> int \<times> int" where
  "apply_suffix rest val =
     (let errorcode = (if val > INT_MAX \<or> val < INT_MIN then ARG_ERR_OVERFLOW else 0) in
      if detectsuffix rest ''KB'' then scale 1024 errorcode val
      else if detectsuffix rest ''MB'' then scale 1048576 errorcode val
      else if detectsuffix rest ''GB'' then scale 1073741824 errorcode val
      else if \<not> detectsuffix rest '''' then (ARG_ERR_BADINT, val)
      else (errorcode, val))"

definition arg_int_scanfn :: "nat \<Rightarrow> string option \<Rightarrow> (arg_int, int) cfun" where
  "arg_int_scanfn w argval = bind (gets id) (\<lambda>p.
     if int_count p = maxcount (int_hdr p) then ret ARG_ERR_MAXCOUNT
     else (case argval of
       None \<Rightarrow> seq (modify (\<lambda>p. p\<lparr>int_count := int_count p + 1\<rparr>)) (ret 0)
     | Some argval \<Rightarrow>
         bind (scan_integer w argval) (\<lambda>(val, n).
         if n = 0 then ret ARG_ERR_BADINT
         else (case apply_suffix (drop n argval) val of (errorcode, val) \<Rightarrow>
           seq (if errorcode = 0 then
                  seq (defined_if (int_count p < length (ival p)))
                      (modify (\<lambda>p. p\<lparr>ival := (ival p)[int_count p := val], int_count := int_count p + 1\<rparr>))
                else ret ())
               (ret errorcode)))))"

definition arg_int_checkfn :: "(arg_int, int) cfun" where
  "arg_int_checkfn = gets (\<lambda>p. if int_count p < mincount (int_hdr p) then ARG_ERR_MINCOUNT else 0)"

definition arg_int_errorfn :: "arg_int \<Rightarrow> int \<Rightarrow> string option \<Rightarrow> string \<Rightarrow> string" where
  "arg_int_errorfn p errorcode argval progname = (let h = int_hdr p; argval = or_empty argval in progname @ '': '' @
     (if errorcode = ARG_ERR_MINCOUNT then
        ''missing option '' @ arg_print_option_ds (shortopts h) (longopts h) (datatype_text h) (Some newline)
      else if errorcode = ARG_ERR_MAXCOUNT then
        ''excess option '' @ arg_print_option_ds (shortopts h) (longopts h) (Some argval) (Some newline)
      else if errorcode = ARG_ERR_BADINT then
        ''invalid argument '' @ quoted argval @ '' to option '' @ arg_print_option_ds (shortopts h) (longopts h) (datatype_text h) (Some newline)
      else if errorcode = ARG_ERR_OVERFLOW then
        ''integer overflow at option '' @ arg_print_option_ds (shortopts h) (longopts h) (datatype_text h) (Some '' '') @
        ''('' @ argval @ '' is too large)'' @ newline
      else ''''))"

definition arg_intn :: "string option \<Rightarrow> string option \<Rightarrow> string option \<Rightarrow> nat \<Rightarrow> nat \<Rightarrow> string option \<Rightarrow> arg_int" where
  "arg_intn short long dt minc maxc gloss =
     (let maxc = (if maxc < minc then minc else maxc) in
      \<lparr>int_hdr = \<lparr>is_terminator = False, has_value = True, has_opt_value = False, shortopts = short, longopts = long,
         datatype_text = (if dt = None then Some ''<int>'' else dt), glossary = gloss, mincount = minc, maxcount = maxc\<rparr>,
       int_count = 0, ival = replicate maxc 0\<rparr>)"

definition arg_int0 :: "string option \<Rightarrow> string option \<Rightarrow> string option \<Rightarrow> string option \<Rightarrow> arg_int" where
  "arg_int0 short long dt gloss = arg_intn short long dt 0 1 gloss"

definition arg_int1 :: "string option \<Rightarrow> string option \<Rightarrow> string option \<Rightarrow> string option \<Rightarrow> arg_int" where
  "arg_int1 short long dt gloss = arg_intn short long dt 1 1 gloss"

section \<open>The contract of the option types\<close>

lemma strtol0X_pure: "(\<And>r. Q r p) \<Longrightarrow> wlp (strtol0X w a X base) Q E p"
  unfolding strtol0X_def Let_def by (simp add: wlp_simps split: prod.split)

lemma scan_integer_pure: "(\<And>r. Q r p) \<Longrightarrow> wlp (scan_integer w a) Q E p"
  unfolding scan_integer_def wlp_bind by (cases "strtol w a 10", intro strtol0X_pure) (auto simp: wlp_simps intro!: strtol0X_pure)

interpretation int_type: option_type int_hdr int_count arg_int_resetfn "arg_int_scanfn w" arg_int_checkfn for w
proof (unfold_locales, goal_cases)
  case (2 a p)
  show ?case by (auto simp: arg_int_scanfn_def ARG_ERR_BADINT_def ARG_ERR_MAXCOUNT_def wlp_simps Let_def split: option.splits prod.splits if_splits intro!: scan_integer_pure)
qed (simp_all add: arg_int_resetfn_def arg_int_scanfn_def arg_int_checkfn_def ret_def gets_def bind_def modify_def wlp_def)

end
