(* ===== verification/ArgIntProps.thy ===== *)
theory ArgIntProps
  imports ArgInt
begin

text \<open>
  The scanner of integer options reads every number in the four formats, with any of the suffixes, with its value, and rejects the numbers that are
  outside of the range of \<open>int\<close>.
\<close>

section \<open>The prefixes\<close>

lemma text_at_append: "text_at (xs @ ys) i = (if i < length xs then xs ! i else text_at ys (i - length xs))"
  by (auto simp: text_at_def nth_append)

lemma sign_no_space: "\<not> isspace CHR ''+''" "\<not> isspace CHR ''-''"
  by (simp_all add: isspace_def code_of_def)

definition sign_of :: "string \<Rightarrow> int" where
  "sign_of sg = (if sg = ''-'' then - 1 else 1)"

text \<open>Behind the white space and the sign.\<close>

lemma strtol0X_body:
  assumes "list_all isspace lead" and sg: "sg \<in> {'''', ''+'', ''-''}" and "body \<noteq> ''''" and "is_digit_of 10 (hd body)"
  shows "strtol0X w (lead @ sg @ body) X base =
    (if text_at body 0 \<noteq> CHR ''0'' \<or> toupper (text_at body 1) \<noteq> toupper X then ret (0, 0)
     else (case strtol w (drop 2 body) base of (val, n) \<Rightarrow>
       if n = 0 then ret (0, 0)
       else seq (defined_if (long_min w \<le> sign_of sg * val \<and> sign_of sg * val \<le> long_max w))
              (ret (sign_of sg * val, length (lead @ sg) + 2 + n))))"
proof -
  obtain d body' where body: "body = d # body'" using assms(3) by (cases body) auto
  have d: "\<not> isspace d" "d \<noteq> CHR ''+''" "d \<noteq> CHR ''-''" using digit_no_sign [of 10 d] assms(4) body by auto
  have ws: "takeWhile isspace (lead @ sg @ body) = lead"
    using assms(1) sg d(1) sign_no_space by (auto simp: takeWhile_append list_all_iff body)
  have c: "text_at (lead @ sg @ body) (length lead) = (if sg = '''' then d else hd sg)" using sg by (auto simp: text_at_append body text_at_def)
  have ptr: "(if text_at (lead @ sg @ body) (length lead) = CHR ''+'' \<or> text_at (lead @ sg @ body) (length lead) = CHR ''-'' then length lead + 1 else length lead)
      = length (lead @ sg)" "(text_at (lead @ sg @ body) (length lead) = CHR ''-'') \<longleftrightarrow> sg = ''-''"
    unfolding c using sg d by auto
  have at: "text_at (lead @ sg @ body) (length (lead @ sg)) = text_at body 0" "text_at (lead @ sg @ body) (length (lead @ sg) + 1) = text_at body 1"
    "drop (length (lead @ sg) + 2) (lead @ sg @ body) = drop 2 body"
    by (simp_all add: text_at_append)
  show ?thesis
    unfolding strtol0X_def Let_def ws ptr(1) unfolding ptr(2) at sign_of_def
    by (cases "text_at body 0 = CHR ''0''"; cases "toupper (text_at body 1) = toupper X") (simp_all only: simp_thms if_False if_True)
qed

text \<open>The number behind a prefix.\<close>

lemma strtol0X_number:
  assumes "list_all isspace lead" and "sg \<in> {'''', ''+'', ''-''}" and "toupper x = toupper X"
    and "ds \<noteq> ''''" and "list_all (is_digit_of base) ds" and "rest = '''' \<or> \<not> is_digit_of base (hd rest)" and "base \<le> 16"
    and "base = 16 \<Longrightarrow> map toupper (take 1 (tl ds @ rest)) \<noteq> ''X''" and "0 < w"
  shows "strtol0X w (lead @ sg @ ''0'' @ [x] @ ds @ rest) X base =
    ret (sign_of sg * clamp_long w (int (numeral_value base ds)), length (lead @ sg @ ''0'' @ [x] @ ds))"
proof -
  have n: "strtol w (ds @ rest) base = (clamp_long w (int (numeral_value base ds)), length ds)"
    using strtol_number [of "''''" "''''" ds base rest w] assms(4-8) by simp
  have "(0 :: int) < 2 ^ (w - 1)" by simp
  then have v: "0 \<le> clamp_long w (int (numeral_value base ds))" "clamp_long w (int (numeral_value base ds)) \<le> long_max w"
    by (auto simp: clamp_long_def long_max_def long_min_def)
  have "long_min w = - long_max w - 1" by (simp add: long_min_def long_max_def)
  then have "long_min w \<le> sign_of sg * clamp_long w (int (numeral_value base ds)) \<and> sign_of sg * clamp_long w (int (numeral_value base ds)) \<le> long_max w"
    using v by (simp add: sign_of_def)
  moreover have "is_digit_of 10 CHR ''0''" by (simp add: is_digit_of_def digit_value_def isdigit_def code_of_def)
  ultimately show ?thesis
    using strtol0X_body [OF assms(1,2), of "''0'' @ [x] @ ds @ rest" w X base] assms(3,4) n
    by (simp add: text_at_def defined_if_def seq_def bind_def ret_def add.assoc)
qed

section \<open>The four formats\<close>

definition number_format :: "string \<Rightarrow> nat \<Rightarrow> bool" where
  "number_format px base \<longleftrightarrow> px = '''' \<and> base = 10 \<or>
     (\<exists>x. px = [CHR ''0'', x] \<and> (toupper x = CHR ''X'' \<and> base = 16 \<or> toupper x = CHR ''O'' \<and> base = 8 \<or> toupper x = CHR ''B'' \<and> base = 2))"

text \<open>What can follow the digits without being taken for a part of the number.\<close>

definition ends_number :: "string \<Rightarrow> bool" where
  "ends_number rest \<longleftrightarrow> rest = '''' \<or> \<not> is_digit_of 16 (hd rest) \<and> toupper (hd rest) \<notin> set ''XO''"

text \<open>The value, or values that are both above or both below the range.\<close>

definition same_int :: "int \<Rightarrow> int \<Rightarrow> bool" where
  "same_int v u \<longleftrightarrow> v = u \<or> (INT_MAX < v \<and> INT_MAX < u) \<or> (v < INT_MIN \<and> u < INT_MIN)"

lemma same_int_clamp:
  "same_int (clamp_long 64 v) v" "sg = ''-'' \<or> sg = '''' \<or> sg = ''+'' \<Longrightarrow> 0 \<le> v \<Longrightarrow> same_int (sign_of sg * clamp_long 64 v) (sign_of sg * v)"
  by (auto simp: same_int_def clamp_long_def long_max_def long_min_def INT_MAX_def INT_MIN_def sign_of_def)

lemma code_of_letters: "code_of CHR ''X'' = 88" "code_of CHR ''O'' = 79" "code_of CHR ''B'' = 66" "code_of CHR 0x00 = 0"
  by (simp_all add: code_of_def)

lemma no_letter: "code_of (toupper c) \<notin> {66, 79, 88} \<longleftrightarrow> toupper c \<notin> set ''XOB''"
  unfolding code_of_letters(1-3) [symmetric] insert_iff code_of_eq by auto

lemma toupper_digit: "is_digit_of 10 c \<Longrightarrow> toupper c \<notin> set ''XOB''"
  unfolding no_letter [symmetric] by (auto simp: code_of_toupper is_digit_of_10)

lemma digit_of_mono: "is_digit_of a c \<Longrightarrow> a \<le> b \<Longrightarrow> is_digit_of b c"
  by (simp add: is_digit_of_def)

lemma ends_number_simps:
  assumes "ends_number rest" and "base \<le> 16"
  shows "rest = '''' \<or> \<not> is_digit_of base (hd rest)" and "toupper (text_at rest 0) \<notin> set ''XOB''"
proof -
  show "rest = '''' \<or> \<not> is_digit_of base (hd rest)"
    using assms digit_of_mono by (auto simp: ends_number_def)
  have "toupper c \<notin> set ''XOB''" if "\<not> is_digit_of 16 c" "toupper c \<notin> set ''XO''" for c
  proof -
    have "toupper c \<noteq> CHR ''B''" using that(1) code_of_toupper [of c] by (auto simp: is_digit_of_16 code_of_letters split: if_splits)
    then show ?thesis using that(2) by auto
  qed
  moreover have "toupper CHR 0x00 \<notin> set ''XOB''" by (simp add: toupper_def islower_def code_of_letters)
  ultimately show "toupper (text_at rest 0) \<notin> set ''XOB''"
    using assms by (cases rest) (auto simp: ends_number_def text_at_def)
qed

lemma strtol0X_other:
  assumes "list_all isspace lead" and "sg \<in> {'''', ''+'', ''-''}" and "body \<noteq> ''''" and "is_digit_of 10 (hd body)"
    and "toupper (text_at body 1) \<noteq> toupper X"
  shows "strtol0X w (lead @ sg @ body) X base = ret (0, 0)"
  using strtol0X_body [OF assms(1-4)] assms(5) by simp

lemma toupper_XOB: "toupper CHR ''X'' = CHR ''X''" "toupper CHR ''O'' = CHR ''O''" "toupper CHR ''B'' = CHR ''B''"
  by (simp_all add: toupper_def islower_def code_of_letters)

lemma is_digit_0: "is_digit_of 10 CHR ''0''"
  by (simp add: is_digit_of_10 code_of_def)

lemma decimal_body:
  assumes "ds \<noteq> ''''" and "list_all (is_digit_of 10) ds" and "ends_number rest"
  shows "is_digit_of 10 (hd (ds @ rest))" and "toupper (text_at (ds @ rest) 1) \<notin> set ''XOB''"
proof -
  obtain d ds' where ds: "ds = d # ds'" using assms(1) by (cases ds) auto
  then show "is_digit_of 10 (hd (ds @ rest))" using assms(2) by simp
  have "toupper (text_at (ds' @ rest) 0) \<notin> set ''XOB''"
  proof (cases ds')
    case Nil
    then show ?thesis using ends_number_simps(2) [OF assms(3) order_refl] by simp
  next
    case (Cons c cs)
    then show ?thesis using assms(2) ds toupper_digit by (simp add: text_at_def)
  qed
  moreover have "text_at (ds @ rest) 1 = text_at (ds' @ rest) 0" by (simp add: ds text_at_def)
  ultimately show "toupper (text_at (ds @ rest) 1) \<notin> set ''XOB''" by simp
qed

lemma scan_integer_number:
  assumes lead: "list_all isspace lead" and sg: "sg \<in> {'''', ''+'', ''-''}" and fmt: "number_format px base"
    and ds: "ds \<noteq> ''''" "list_all (is_digit_of base) ds" and rest: "ends_number rest"
  shows "\<exists>v. scan_integer 64 (lead @ sg @ px @ ds @ rest) = ret (v, length (lead @ sg @ px @ ds)) \<and>
      same_int v (sign_of sg * int (numeral_value base ds))"
proof -
  have b: "base \<le> 16" using fmt by (auto simp: number_format_def)
  note rest' = ends_number_simps [OF rest b]
  have run: "bind (ret r) f = f r" for r and f :: "int \<times> nat \<Rightarrow> (arg_int, int \<times> nat) cfun" by (simp add: bind_def ret_def)
  have same: "same_int (sign_of sg * clamp_long 64 (int n)) (sign_of sg * int n)" for n using same_int_clamp(2) sg by auto
  show ?thesis
  proof (cases "px = ''''")
    case True
    then have "base = 10" using fmt by (auto simp: number_format_def)
    then have other: "toupper X \<in> set ''XOB'' \<Longrightarrow> strtol0X 64 (lead @ sg @ ds @ rest) X b = ret (0, 0)" for X b
      using strtol0X_other [OF lead sg _ decimal_body(1)] decimal_body ds rest by fastforce
    have "scan_integer 64 (lead @ sg @ ds @ rest) = ret (clamp_long 64 (sign_of sg * int (numeral_value 10 ds)), length (lead @ sg @ ds))"
      using strtol_number [OF lead sg ds rest'(1) b, of 64] \<open>base = 10\<close>
      by (simp add: scan_integer_def other toupper_XOB run sign_of_def)
    then show ?thesis using True \<open>base = 10\<close> same_int_clamp(1) by auto
  next
    case False
    then obtain x where x: "px = [CHR ''0'', x]" "toupper x = CHR ''X'' \<and> base = 16 \<or> toupper x = CHR ''O'' \<and> base = 8 \<or> toupper x = CHR ''B'' \<and> base = 2"
      using fmt by (auto simp: number_format_def)
    have other: "toupper x \<noteq> toupper X \<Longrightarrow> strtol0X 64 (lead @ sg @ px @ ds @ rest) X b = ret (0, 0)" for X b
      using strtol0X_other [OF lead sg, of "px @ ds @ rest"] x is_digit_0 by (simp add: text_at_def)
    have no_x: "map toupper (take 1 (tl ds @ rest)) \<noteq> ''X''" if "base = 16"
    proof (cases "tl ds")
      case Nil
      then show ?thesis using rest'(2) by (cases rest) (auto simp: text_at_def)
    next
      case (Cons c cs)
      then have "is_digit_of 16 c" using ds that by (cases ds) auto
      then have "toupper c \<noteq> CHR ''X''" using code_of_toupper [of c] by (auto simp: is_digit_of_16 code_of_letters split: if_splits)
      then show ?thesis using Cons by simp
    qed
    define k where "k = length (lead @ sg @ px @ ds)"
    have k: "0 < k" using ds by (simp add: k_def)
    have hit: "toupper x = toupper X \<Longrightarrow> b = base \<Longrightarrow>
        strtol0X 64 (lead @ sg @ px @ ds @ rest) X b = ret (sign_of sg * clamp_long 64 (int (numeral_value base ds)), k)" for X b
      using strtol0X_number [OF lead sg _ ds rest'(1) b, of x X 64] x(1) no_x by (simp add: k_def)
    have "scan_integer 64 (lead @ sg @ px @ ds @ rest) = ret (sign_of sg * clamp_long 64 (int (numeral_value base ds)), k)"
      using x(2) k by (elim disjE conjE) (simp_all add: scan_integer_def other hit toupper_XOB run)
    then show ?thesis using same k_def by blast
  qed
qed

section \<open>The suffixes\<close>

definition suffixes :: "(string \<times> int) list" where
  "suffixes = [('''', 1), (''KB'', 1024), (''MB'', 1048576), (''GB'', 1073741824)]"

lemma detectsuffix_spaces: "list_all isspace trail \<Longrightarrow> detectsuffix trail ''''"
  by (cases trail) (auto simp: list_all_iff dropWhile_eq_Nil_conv)

lemma detectsuffix_match:
  assumes "list_all isspace trail"
  shows "map toupper sfx = map toupper t \<Longrightarrow> detectsuffix (sfx @ trail) t"
  using detectsuffix_spaces [OF assms] by (induction sfx t rule: list_induct2') auto

lemma detectsuffix_first: "toupper (text_at str 0) \<noteq> toupper d \<Longrightarrow> \<not> detectsuffix str (d # suffix)"
  by (cases str) (auto simp: text_at_def)

lemma code_of_KMG: "code_of CHR ''K'' = 75" "code_of CHR ''M'' = 77" "code_of CHR ''G'' = 71"
  by (simp_all add: code_of_def)

lemma toupper_KMG: "toupper CHR ''K'' = CHR ''K''" "toupper CHR ''M'' = CHR ''M''" "toupper CHR ''G'' = CHR ''G''" "toupper CHR ''B'' = CHR ''B''"
  by (simp_all add: toupper_def islower_def code_of_KMG code_of_letters)

lemma isspace_code: "isspace c \<longleftrightarrow> code_of c \<in> {9, 10, 11, 12, 13, 32}"
proof -
  have "code_of CHR '' '' = 32" by (simp add: code_of_def)
  then have "c = CHR '' '' \<longleftrightarrow> code_of c = 32" by (metis code_of_eq)
  then show ?thesis by (auto simp: isspace_def)
qed

lemma space_first:
  assumes "list_all isspace trail"
  shows "code_of (toupper (text_at trail 0)) \<in> {0, 9, 10, 11, 12, 13, 32}"
  using assms by (cases trail) (auto simp: text_at_def code_of_toupper isspace_code code_of_letters)

lemma suffix_first:
  assumes "list_all isspace trail" and "(map toupper sfx, m) \<in> set suffixes"
  shows "m = 1 \<Longrightarrow> code_of (toupper (text_at (sfx @ trail) 0)) \<in> {0, 9, 10, 11, 12, 13, 32}"
    and "m = 1024 \<Longrightarrow> code_of (toupper (text_at (sfx @ trail) 0)) = 75"
    and "m = 1048576 \<Longrightarrow> code_of (toupper (text_at (sfx @ trail) 0)) = 77"
    and "m = 1073741824 \<Longrightarrow> code_of (toupper (text_at (sfx @ trail) 0)) = 71"
  using assms(2) space_first [OF assms(1)] by (auto simp: suffixes_def text_at_def code_of_KMG map_eq_Cons_conv)

lemma ends_number_suffix:
  assumes "list_all isspace trail" and "(map toupper sfx, m) \<in> set suffixes"
  shows "ends_number (sfx @ trail)"
proof (cases "sfx @ trail")
  case (Cons c cs)
  have "code_of (toupper c) \<in> {0, 9, 10, 11, 12, 13, 32, 71, 75, 77}"
    using suffix_first [OF assms] assms(2) Cons by (auto simp: suffixes_def text_at_def)
  moreover from this have "toupper c \<noteq> CHR ''X''" "toupper c \<noteq> CHR ''O''" by (auto simp: code_of_letters simp flip: code_of_eq)
  ultimately show ?thesis using Cons by (auto simp: ends_number_def is_digit_of_16 code_of_toupper split: if_splits)
qed (simp add: ends_number_def)

lemma scale_value:
  assumes "same_int v u" and "m \<in> {1024, 1048576, 1073741824}" and "e = (if v > INT_MAX \<or> v < INT_MIN then ARG_ERR_OVERFLOW else 0)"
  shows "if INT_MIN \<le> u * m \<and> u * m \<le> INT_MAX then scale m e v = (0, u * m) else fst (scale m e v) = ARG_ERR_OVERFLOW"
  using assms by (auto simp: scale_def same_int_def INT_MAX_def INT_MIN_def)

lemma apply_suffix_value:
  assumes trail: "list_all isspace trail" and sfx: "(map toupper sfx, m) \<in> set suffixes" and "same_int v u"
  shows "if INT_MIN \<le> u * m \<and> u * m \<le> INT_MAX then apply_suffix (sfx @ trail) v = (0, u * m) else fst (apply_suffix (sfx @ trail) v) = ARG_ERR_OVERFLOW"
proof -
  let ?c = "code_of (toupper (text_at (sfx @ trail) 0))"
  have no: "?c \<noteq> 75 \<Longrightarrow> \<not> detectsuffix (sfx @ trail) ''KB''" "?c \<noteq> 77 \<Longrightarrow> \<not> detectsuffix (sfx @ trail) ''MB''"
    "?c \<noteq> 71 \<Longrightarrow> \<not> detectsuffix (sfx @ trail) ''GB''"
    by (rule detectsuffix_first, simp add: toupper_KMG code_of_KMG flip: code_of_eq)+
  have yes: "map toupper sfx = t \<Longrightarrow> map toupper t = t \<Longrightarrow> detectsuffix (sfx @ trail) t" for t
    using detectsuffix_match [OF trail, of sfx t] by simp
  have upper: "map toupper ''KB'' = ''KB''" "map toupper ''MB'' = ''MB''" "map toupper ''GB'' = ''GB''" by (simp_all add: toupper_KMG)
  from sfx consider "map toupper sfx = ''''" "m = 1" | "map toupper sfx = ''KB''" "m = 1024" | "map toupper sfx = ''MB''" "m = 1048576"
    | "map toupper sfx = ''GB''" "m = 1073741824" by (auto simp: suffixes_def)
  then show ?thesis
  proof cases
    case 1
    then have "?c \<notin> {71, 75, 77}" using suffix_first(1) [OF trail sfx] by auto
    then show ?thesis using 1 no yes [of "''''"] assms(3) by (auto simp: apply_suffix_def same_int_def)
  next
    case 2
    then have "apply_suffix (sfx @ trail) v = scale m (if v > INT_MAX \<or> v < INT_MIN then ARG_ERR_OVERFLOW else 0) v"
      using yes [OF 2(1) upper(1)] unfolding apply_suffix_def Let_def by simp
    then show ?thesis using scale_value [OF assms(3) _ refl, of 1024] unfolding 2(2) by simp
  next
    case 3
    then have "apply_suffix (sfx @ trail) v = scale m (if v > INT_MAX \<or> v < INT_MIN then ARG_ERR_OVERFLOW else 0) v"
      using yes [OF 3(1) upper(2)] no(1) suffix_first(3) [OF trail sfx] unfolding apply_suffix_def Let_def by simp
    then show ?thesis using scale_value [OF assms(3) _ refl, of 1048576] unfolding 3(2) by simp
  next
    case 4
    then have "apply_suffix (sfx @ trail) v = scale m (if v > INT_MAX \<or> v < INT_MIN then ARG_ERR_OVERFLOW else 0) v"
      using yes [OF 4(1) upper(3)] no(1,2) suffix_first(4) [OF trail sfx] unfolding apply_suffix_def Let_def by simp
    then show ?thesis using scale_value [OF assms(3) _ refl, of 1073741824] unfolding 4(2) by simp
  qed
qed

section \<open>The scanner\<close>

text \<open>C35: \<open>arg_int_scanfn\<close> (with a \<open>long\<close> of 64 bits) takes every text of white space, an optional sign, digits of base 16, 8, 2 or 10 behind the
  prefix of the base, an optional suffix KB, MB or GB and white space: when the value is in the range of \<open>int\<close> it is stored and counted, otherwise the
  result is \<open>ARG_ERR_OVERFLOW\<close> and the entry stays as it was.
\<close>

theorem arg_int_scans_numbers:
  assumes "list_all isspace lead" and "sg \<in> {'''', ''+'', ''-''}" and "number_format px base" and "ds \<noteq> ''''" and "list_all (is_digit_of base) ds"
    and "(map toupper sfx, m) \<in> set suffixes" and "list_all isspace trail"
    and "int_count p < maxcount (int_hdr p)" and "length (ival p) = maxcount (int_hdr p)"
    and "v = sign_of sg * int (numeral_value base ds) * m"
  shows "arg_int_scanfn 64 (Some (lead @ sg @ px @ ds @ sfx @ trail)) p =
    (if INT_MIN \<le> v \<and> v \<le> INT_MAX then Returns 0 (p\<lparr>ival := (ival p)[int_count p := v], int_count := int_count p + 1\<rparr>)
     else Returns ARG_ERR_OVERFLOW p)"
proof -
  let ?text = "lead @ sg @ px @ ds @ sfx @ trail"
  define k where "k = length (lead @ sg @ px @ ds)"
  obtain u where u: "scan_integer 64 ?text = ret (u, k)" "same_int u (sign_of sg * int (numeral_value base ds))"
    using scan_integer_number [OF assms(1-5) ends_number_suffix [OF assms(7,6)]] k_def by auto
  have "drop k ?text = sfx @ trail" by (simp add: k_def)
  then have r: "if INT_MIN \<le> v \<and> v \<le> INT_MAX then apply_suffix (drop k ?text) u = (0, v) else fst (apply_suffix (drop k ?text) u) = ARG_ERR_OVERFLOW"
    using apply_suffix_value [OF assms(7,6) u(2)] assms(10) by simp
  have "0 < k" using assms(4) by (simp add: k_def)
  have scan: "arg_int_scanfn 64 (Some ?text) p = (case apply_suffix (drop k ?text) u of (errorcode, val) \<Rightarrow>
      seq (if errorcode = 0 then seq (defined_if (int_count p < length (ival p)))
                (modify (\<lambda>p. p\<lparr>ival := (ival p)[int_count p := val], int_count := int_count p + 1\<rparr>))
           else ret ()) (ret errorcode)) p"
    using assms(8) \<open>0 < k\<close> unfolding arg_int_scanfn_def option.case u(1)
    by (simp add: bind_def gets_def ret_def del: drop_append)
  obtain e val where a: "apply_suffix (drop k ?text) u = (e, val)" by (cases "apply_suffix (drop k ?text) u")
  show ?thesis
    using r assms(8,9) unfolding scan a
    by (auto simp: seq_def bind_def ret_def modify_def defined_if_def ARG_ERR_OVERFLOW_def split: if_splits)
qed

lemma toupper_x: "toupper CHR ''x'' = CHR ''X''"
  unfolding code_of_eq [symmetric] code_of_toupper by (simp add: code_of_def)

theorem arg_int_scans_numbers_witness:
  "arg_int_scanfn 64 (Some ''-0x10kb '') (arg_int1 None (Some ''size'') None None) =
     Returns 0 ((arg_int1 None (Some ''size'') None None)\<lparr>ival := [- 16384], int_count := 1\<rparr>)"
proof -
  have "number_format ''0x'' 16" by (simp add: number_format_def toupper_x)
  moreover have "list_all (is_digit_of 16) ''10''" "list_all isspace '' ''" by (simp_all add: is_digit_of_16 code_of_def isspace_def)
  moreover have "(map toupper ''kb'', 1024) \<in> set suffixes" by code_simp
  moreover have "sign_of ''-'' * int (numeral_value 16 ''10'') * 1024 = - 16384" by code_simp
  ultimately show ?thesis
    using arg_int_scans_numbers [of "''''" "''-''" "''0x''" 16 "''10''" "''kb''" 1024 "'' ''" "arg_int1 None (Some ''size'') None None" "- 16384"]
    by (simp add: arg_int1_def arg_intn_def INT_MIN_def INT_MAX_def)
qed

text \<open>The sign is read twice when the number behind the prefix has one; the product of the two can be outside of the range of \<open>long\<close>.\<close>

lemma arg_int_signed_overflow:
  assumes "int_count p < maxcount (int_hdr p)"
  shows "arg_int_scanfn 64 (Some ''-0x-8000000000000000'') p = Faults Undefined_Behaviour"
proof -
  have "strtol 64 (''-'' @ ''8000000000000000'' @ '''') 16 = (- 9223372036854775808, 17)"
    using strtol_number [of "''''" "''-''" "''8000000000000000''" 16 "''''" 64]
    by (simp add: is_digit_of_16 code_of_def clamp_long_def long_min_def long_max_def numeral_value_def digit_value_def isdigit_def
        toupper_def islower_def)
  then have "strtol0X 64 ([] @ ''-'' @ ''0x-8000000000000000'') CHR ''X'' 16 p = Faults Undefined_Behaviour" 
    using strtol0X_body [of "''''" "''-''" "''0x-8000000000000000''" 64 "CHR ''X''" 16] is_digit_0
    by (simp add: text_at_def toupper_x toupper_XOB sign_of_def long_min_def long_max_def seq_def bind_def defined_if_def faults_def)
  then show ?thesis
    using assms by (simp add: arg_int_scanfn_def bind_def gets_def scan_integer_def)
qed

text \<open>With a \<open>long\<close> of 32 bits the check of the range never fails, and the number is the nearest one of the range.\<close>

lemma clamp_long_32: "INT_MIN \<le> clamp_long 32 v \<and> clamp_long 32 v \<le> INT_MAX"
  by (simp add: clamp_long_def long_min_def long_max_def INT_MIN_def INT_MAX_def)

end
