(* ===== verification/ArgDbl.thy ===== *)
theory ArgDbl
  imports ArgOption
begin

text \<open>
  Options with a floating-point number (\<open>arg_dbl\<close> of \<^verbatim>\<open>cli/lib/argtable/argtable3.c\<close>). \<open>strtod\<close> is the function of the C library: a parameter
  that gives the number a text begins with and how many characters it takes; the numbers are an arbitrary type with the value \<open>zero\<close> of the fresh array.
\<close>

section \<open>The entry and its functions\<close>

record 'd arg_dbl =
  dbl_hdr :: arg_hdr
  dbl_count :: nat
  dval :: "'d list"

definition ARG_ERR_BADDOUBLE :: int where "ARG_ERR_BADDOUBLE = 5"

definition arg_dbl_resetfn :: "('d arg_dbl, unit) cfun" where
  "arg_dbl_resetfn = modify (\<lambda>p. p\<lparr>dbl_count := 0\<rparr>)"

definition arg_dbl_scanfn :: "(string \<Rightarrow> 'd \<times> nat) \<Rightarrow> string option \<Rightarrow> ('d arg_dbl, int) cfun" where
  "arg_dbl_scanfn strtod argval = bind (gets id) (\<lambda>p.
     if dbl_count p = maxcount (dbl_hdr p) then ret ARG_ERR_MAXCOUNT
     else (case argval of
       None \<Rightarrow> seq (modify (\<lambda>p. p\<lparr>dbl_count := dbl_count p + 1\<rparr>)) (ret 0)
     | Some argval \<Rightarrow>
         (case strtod argval of (val, n) \<Rightarrow>
           if drop n argval = '''' then
             seq (defined_if (dbl_count p < length (dval p)))
            (seq (modify (\<lambda>p. p\<lparr>dval := (dval p)[dbl_count p := val], dbl_count := dbl_count p + 1\<rparr>)) (ret 0))
           else ret ARG_ERR_BADDOUBLE)))"

definition arg_dbl_checkfn :: "('d arg_dbl, int) cfun" where
  "arg_dbl_checkfn = gets (\<lambda>p. if dbl_count p < mincount (dbl_hdr p) then ARG_ERR_MINCOUNT else 0)"

definition arg_dbl_errorfn :: "'d arg_dbl \<Rightarrow> int \<Rightarrow> string option \<Rightarrow> string \<Rightarrow> string" where
  "arg_dbl_errorfn p errorcode argval progname = (let h = dbl_hdr p; argval = or_empty argval in progname @ '': '' @
     (if errorcode = ARG_ERR_MINCOUNT then
        ''missing option '' @ arg_print_option_ds (shortopts h) (longopts h) (datatype_text h) (Some newline)
      else if errorcode = ARG_ERR_MAXCOUNT then
        ''excess option '' @ arg_print_option_ds (shortopts h) (longopts h) (Some argval) (Some newline)
      else if errorcode = ARG_ERR_BADDOUBLE then
        ''invalid argument '' @ quoted argval @ '' to option '' @ arg_print_option_ds (shortopts h) (longopts h) (datatype_text h) (Some newline)
      else ''''))"

definition arg_dbln :: "'d \<Rightarrow> string option \<Rightarrow> string option \<Rightarrow> string option \<Rightarrow> nat \<Rightarrow> nat \<Rightarrow> string option \<Rightarrow> 'd arg_dbl" where
  "arg_dbln zero short long dt minc maxc gloss =
     (let maxc = (if maxc < minc then minc else maxc) in
      \<lparr>dbl_hdr = \<lparr>is_terminator = False, has_value = True, has_opt_value = False, shortopts = short, longopts = long,
         datatype_text = (if dt = None then Some ''<double>'' else dt), glossary = gloss, mincount = minc, maxcount = maxc\<rparr>,
       dbl_count = 0, dval = replicate maxc zero\<rparr>)"

definition arg_dbl0 :: "'d \<Rightarrow> string option \<Rightarrow> string option \<Rightarrow> string option \<Rightarrow> string option \<Rightarrow> 'd arg_dbl" where
  "arg_dbl0 zero short long dt gloss = arg_dbln zero short long dt 0 1 gloss"

definition arg_dbl1 :: "'d \<Rightarrow> string option \<Rightarrow> string option \<Rightarrow> string option \<Rightarrow> string option \<Rightarrow> 'd arg_dbl" where
  "arg_dbl1 zero short long dt gloss = arg_dbln zero short long dt 1 1 gloss"

section \<open>Where the array of numbers begins\<close>

text \<open>
  The array is put on a boundary of \<open>sizeof(double)\<close> behind the entry: eight bytes further when the end of the entry is one already. The block has one
  number more than the array, so that the array ends inside it.
\<close>

definition dval_addr :: "nat \<Rightarrow> nat \<Rightarrow> nat" where
  "dval_addr sizeof_double addr = addr + sizeof_double - addr mod sizeof_double"

definition arg_dbln_nbytes :: "nat \<Rightarrow> nat \<Rightarrow> nat \<Rightarrow> nat" where
  "arg_dbln_nbytes sizeof_arg_dbl sizeof_double maxc = sizeof_arg_dbl + (maxc + 1) * sizeof_double"

lemma dval_addr_fits:
  assumes "0 < D"
  shows "dval_addr D (block + S) mod D = 0" and "block + S < dval_addr D (block + S)"
    and "dval_addr D (block + S) + n * D \<le> block + arg_dbln_nbytes S D n"
proof -
  let ?a = "block + S"
  have m: "?a mod D < D" using assms by simp
  have e: "dval_addr D ?a = D * (?a div D + 1)"
    unfolding dval_addr_def distrib_left mult_1_right using mult_div_mod_eq [of D ?a] by linarith
  show "dval_addr D ?a mod D = 0" by (simp only: e mod_mult_self1_is_0)
  show "?a < dval_addr D ?a" unfolding dval_addr_def using m by linarith
  show "dval_addr D ?a + n * D \<le> block + arg_dbln_nbytes S D n" by (simp add: dval_addr_def arg_dbln_nbytes_def)
qed

section \<open>The contract of the option types\<close>

interpretation dbl_type: option_type dbl_hdr dbl_count arg_dbl_resetfn "arg_dbl_scanfn strtod" arg_dbl_checkfn for strtod
proof (unfold_locales, goal_cases)
  case (2 a p)
  show ?case by (auto simp: arg_dbl_scanfn_def ARG_ERR_BADDOUBLE_def ARG_ERR_MAXCOUNT_def wlp_simps Let_def split: option.splits prod.splits)
qed (simp_all add: arg_dbl_resetfn_def arg_dbl_scanfn_def arg_dbl_checkfn_def ret_def gets_def bind_def modify_def wlp_def)

end
