(* ===== verification/ArgFile.thy ===== *)
theory ArgFile
  imports ArgOption
begin

text \<open>
  Options with a file name (\<open>arg_file\<close> of \<^verbatim>\<open>cli/lib/argtable/argtable3.c\<close>): the path, its last part and the extension of that. The pointers into the
  path are the strings they point to. \<open>sep1\<close> is \<open>FILESEPARATOR1\<close>, a backslash on Windows and a slash elsewhere.
\<close>

section \<open>Parts of a path\<close>

definition FILESEPARATOR2 :: char where "FILESEPARATOR2 = CHR ''/''"

text \<open>The string from the last occurrence of a character on.\<close>

definition strrchr :: "string \<Rightarrow> char \<Rightarrow> string option" where
  "strrchr s c = (if c \<in> set s then Some (c # rev (takeWhile (\<lambda>x. x \<noteq> c) (rev s))) else None)"

definition arg_basename :: "char \<Rightarrow> string \<Rightarrow> string" where
  "arg_basename sep1 filename =
     (let result1 = strrchr filename sep1; result2 = strrchr filename FILESEPARATOR2;
          result = None;
          result = (case result2 of Some r \<Rightarrow> Some (tl r) | None \<Rightarrow> result);
          result = (case result1 of Some r \<Rightarrow> Some (tl r) | None \<Rightarrow> result);
          result = (case result of None \<Rightarrow> filename | Some r \<Rightarrow> r)
      in if result = ''.'' \<or> result = ''..'' then '''' else result)"

definition arg_extension :: "string \<Rightarrow> string" where
  "arg_extension basename =
     (let result = (case strrchr basename CHR ''.'' of None \<Rightarrow> '''' | Some r \<Rightarrow> r);
          result = (if length result = length basename then '''' else result)
      in if length result = 1 then '''' else result)"

section \<open>The entry and its functions\<close>

record arg_file =
  file_hdr :: arg_hdr
  file_count :: nat
  filename :: "string list"
  basename :: "string list"
  extension :: "string list"

definition arg_file_resetfn :: "(arg_file, unit) cfun" where
  "arg_file_resetfn = modify (\<lambda>p. p\<lparr>file_count := 0\<rparr>)"

definition arg_file_scanfn :: "char \<Rightarrow> string option \<Rightarrow> (arg_file, int) cfun" where
  "arg_file_scanfn sep1 argval = bind (gets id) (\<lambda>p.
     if file_count p = maxcount (file_hdr p) then ret ARG_ERR_MAXCOUNT
     else (case argval of
       None \<Rightarrow> seq (modify (\<lambda>p. p\<lparr>file_count := file_count p + 1\<rparr>)) (ret 0)
     | Some argval \<Rightarrow>
         (let n = file_count p in
          seq (defined_if (n < length (filename p) \<and> n < length (basename p) \<and> n < length (extension p)))
         (seq (modify (\<lambda>p. p\<lparr>filename := (filename p)[n := argval], basename := (basename p)[n := arg_basename sep1 argval]\<rparr>))
         (seq (modify (\<lambda>p. p\<lparr>extension := (extension p)[n := arg_extension (basename p ! n)], file_count := n + 1\<rparr>))
              (ret 0))))))"

definition arg_file_checkfn :: "(arg_file, int) cfun" where
  "arg_file_checkfn = gets (\<lambda>p. if file_count p < mincount (file_hdr p) then ARG_ERR_MINCOUNT else 0)"

definition arg_file_errorfn :: "arg_file \<Rightarrow> int \<Rightarrow> string option \<Rightarrow> string \<Rightarrow> string" where
  "arg_file_errorfn p errorcode argval progname = (let h = file_hdr p; argval = or_empty argval in progname @ '': '' @
     (if errorcode = ARG_ERR_MINCOUNT then
        ''missing option '' @ arg_print_option_ds (shortopts h) (longopts h) (datatype_text h) (Some newline)
      else if errorcode = ARG_ERR_MAXCOUNT then
        ''excess option '' @ arg_print_option_ds (shortopts h) (longopts h) (Some argval) (Some newline)
      else ''unknown error at '' @ quoted argval @ newline))"

definition arg_filen :: "string option \<Rightarrow> string option \<Rightarrow> string option \<Rightarrow> nat \<Rightarrow> nat \<Rightarrow> string option \<Rightarrow> arg_file" where
  "arg_filen short long dt minc maxc gloss =
     (let maxc = (if maxc < minc then minc else maxc) in
      \<lparr>file_hdr = \<lparr>is_terminator = False, has_value = True, has_opt_value = False, shortopts = short, longopts = long,
         datatype_text = (if dt = None then Some ''<file>'' else dt), glossary = gloss, mincount = minc, maxcount = maxc\<rparr>,
       file_count = 0, filename = replicate maxc '''', basename = replicate maxc '''', extension = replicate maxc ''''\<rparr>)"

definition arg_file0 :: "string option \<Rightarrow> string option \<Rightarrow> string option \<Rightarrow> string option \<Rightarrow> arg_file" where
  "arg_file0 short long dt gloss = arg_filen short long dt 0 1 gloss"

definition arg_file1 :: "string option \<Rightarrow> string option \<Rightarrow> string option \<Rightarrow> string option \<Rightarrow> arg_file" where
  "arg_file1 short long dt gloss = arg_filen short long dt 1 1 gloss"

section \<open>The parts make up the path\<close>

lemma strrchr_append:
  assumes "c \<notin> set ys"
  shows "strrchr (xs @ c # ys) c = Some (c # ys)"
proof -
  have "takeWhile (\<lambda>x. x \<noteq> c) (rev (xs @ c # ys)) = rev ys" using assms by (auto simp: takeWhile_append2 takeWhile_append)
  then show ?thesis by (simp add: strrchr_def)
qed

lemma strrchr_None: "strrchr s c = None \<longleftrightarrow> c \<notin> set s"
  by (simp add: strrchr_def)

lemma strrchr_Some:
  assumes "strrchr s c = Some r"
  shows "\<exists>xs ys. s = xs @ c # ys \<and> r = c # ys \<and> c \<notin> set ys"
proof -
  have "c \<in> set s" using assms by (auto simp: strrchr_def split: if_splits)
  then obtain xs ys where s: "s = xs @ c # ys" "c \<notin> set ys" by (meson split_list_last)
  then have "r = c # ys" using strrchr_append [of c ys xs] assms by simp
  then show ?thesis using s by blast
qed

text \<open>The last part of a path that ends in no directory.\<close>

lemma arg_basename_last:
  assumes "set name \<inter> {sep1, FILESEPARATOR2} = {}" and "name \<notin> {''.'', ''..''}"
  shows "arg_basename sep1 name = name" and "sep1 = FILESEPARATOR2 \<or> sep1 \<notin> set dir \<Longrightarrow> arg_basename sep1 (dir @ FILESEPARATOR2 # name) = name"
    and "arg_basename sep1 (dir @ sep1 # name) = name"
proof -
  have n: "sep1 \<notin> set name" "FILESEPARATOR2 \<notin> set name" using assms(1) by auto
  then show "arg_basename sep1 name = name" using assms(2) by (simp add: arg_basename_def strrchr_def)
  have l: "strrchr (dir @ c # name) c = Some (c # name)" if "c = sep1 \<or> c = FILESEPARATOR2" for c using strrchr_append n that by auto
  then show "arg_basename sep1 (dir @ sep1 # name) = name" using assms(2) by (simp add: arg_basename_def)
  show "arg_basename sep1 (dir @ FILESEPARATOR2 # name) = name" if "sep1 = FILESEPARATOR2 \<or> sep1 \<notin> set dir"
  proof (cases "sep1 = FILESEPARATOR2")
    case False
    then have "strrchr (dir @ FILESEPARATOR2 # name) sep1 = None" using that n by (simp add: strrchr_None)
    then show ?thesis using l [of FILESEPARATOR2] assms(2) by (simp add: arg_basename_def)
  qed (use l [of sep1] assms(2) in \<open>simp add: arg_basename_def\<close>)
qed

lemma arg_extension_of:
  assumes "stem \<noteq> ''''" and "ext \<noteq> ''''" and "CHR ''.'' \<notin> set ext"
  shows "arg_extension (stem @ ''.'' @ ext) = ''.'' @ ext"
  using strrchr_append [OF assms(3), of stem] assms(1,2) by (simp add: arg_extension_def)

lemma arg_extension_none:
  assumes "CHR ''.'' \<notin> set name"
  shows "arg_extension name = ''''" and "arg_extension (''.'' @ name) = ''''"
proof -
  show "arg_extension name = ''''" using assms by (simp add: arg_extension_def strrchr_def)
  show "arg_extension (''.'' @ name) = ''''" using strrchr_append [OF assms, of "[]"] by (simp add: arg_extension_def)
qed

lemma arg_basename_suffix:
  obtains dir where "path = dir @ arg_basename sep1 path" and "dir = '''' \<or> last dir \<in> {sep1, FILESEPARATOR2} \<or> arg_basename sep1 path = ''''"
proof -
  let ?r = "case strrchr path sep1 of Some r \<Rightarrow> tl r | None \<Rightarrow> (case strrchr path FILESEPARATOR2 of Some r \<Rightarrow> tl r | None \<Rightarrow> path)"
  have b: "arg_basename sep1 path = (if ?r = ''.'' \<or> ?r = ''..'' then '''' else ?r)"
    by (cases "strrchr path sep1"; cases "strrchr path FILESEPARATOR2") (simp_all only: arg_basename_def Let_def option.case)
  have "\<exists>dir. path = dir @ ?r \<and> (dir = '''' \<or> last dir \<in> {sep1, FILESEPARATOR2})"
  proof (cases "strrchr path sep1")
    case None
    show ?thesis
    proof (cases "strrchr path FILESEPARATOR2")
      case (Some r)
      then obtain xs ys where "path = xs @ FILESEPARATOR2 # ys" "r = FILESEPARATOR2 # ys" using strrchr_Some by blast
      then show ?thesis using None Some by (intro exI [of _ "xs @ [FILESEPARATOR2]"]) simp
    qed (use None in simp)
  next
    case (Some r)
    then obtain xs ys where "path = xs @ sep1 # ys" "r = sep1 # ys" using strrchr_Some by blast
    then show ?thesis using Some by (intro exI [of _ "xs @ [sep1]"]) simp
  qed
  then show thesis using that b by (metis append_Nil2)
qed

lemma arg_basename_no_separator: "sep1 \<notin> set (arg_basename sep1 path)"
proof (cases "sep1 \<in> set path")
  case True
  then obtain r where r: "strrchr path sep1 = Some r" by (cases "strrchr path sep1") (auto simp: strrchr_None)
  then have "sep1 \<notin> set (tl r)" using strrchr_Some by fastforce
  then show ?thesis using r by (simp add: arg_basename_def Let_def)
next
  case False
  obtain dir where d: "path = dir @ arg_basename sep1 path" by (rule arg_basename_suffix)
  have "set (arg_basename sep1 path) \<subseteq> set path" by (subst (2) d) auto
  then show ?thesis using False by blast
qed

lemma arg_extension_suffix:
  obtains stem where "name = stem @ arg_extension name"
    and "arg_extension name = '''' \<or> stem \<noteq> '''' \<and> (\<exists>ext. arg_extension name = ''.'' @ ext \<and> ext \<noteq> '''' \<and> CHR ''.'' \<notin> set ext)"
proof (cases "arg_extension name = ''''")
  case False
  then obtain r where r: "strrchr name CHR ''.'' = Some r" "length r \<noteq> length name" "length r \<noteq> 1" "arg_extension name = r"
    by (auto simp: arg_extension_def split: option.splits if_splits)
  then obtain xs ys where "name = xs @ CHR ''.'' # ys" "r = CHR ''.'' # ys" "CHR ''.'' \<notin> set ys" using strrchr_Some by blast
  then show ?thesis using r that [of xs] by auto
qed (use that in simp)

text \<open>The base name and the extension that \<open>arg_file_scanfn\<close> stores are the ends of the path and of the base name: the base name has no separator and
  begins behind one or at the start of the path, unless it is empty; the extension is empty or a dot, the last one, with something on both sides.
\<close>

theorem arg_file_splits_path:
  assumes "file_count p < maxcount (file_hdr p)" and "length (filename p) = maxcount (file_hdr p)"
    and "length (basename p) = maxcount (file_hdr p)" and "length (extension p) = maxcount (file_hdr p)"
  shows "\<exists>dir stem base ext. path = dir @ base \<and> base = stem @ ext \<and>
    sep1 \<notin> set base \<and> (dir = '''' \<or> last dir \<in> {sep1, FILESEPARATOR2} \<or> base = '''') \<and>
    (ext = '''' \<or> stem \<noteq> '''' \<and> (\<exists>x. ext = ''.'' @ x \<and> x \<noteq> '''' \<and> CHR ''.'' \<notin> set x)) \<and>
    arg_file_scanfn sep1 (Some path) p = Returns 0 (p\<lparr>file_count := file_count p + 1, filename := (filename p)[file_count p := path],
      basename := (basename p)[file_count p := base], extension := (extension p)[file_count p := ext]\<rparr>)"
proof -
  let ?b = "arg_basename sep1 path"
  obtain dir where d: "path = dir @ ?b" "dir = '''' \<or> last dir \<in> {sep1, FILESEPARATOR2} \<or> ?b = ''''" by (rule arg_basename_suffix)
  obtain stem where e: "?b = stem @ arg_extension ?b"
    "arg_extension ?b = '''' \<or> stem \<noteq> '''' \<and> (\<exists>x. arg_extension ?b = ''.'' @ x \<and> x \<noteq> '''' \<and> CHR ''.'' \<notin> set x)" by (rule arg_extension_suffix)
  have "arg_file_scanfn sep1 (Some path) p = Returns 0 (p\<lparr>file_count := file_count p + 1, filename := (filename p)[file_count p := path],
      basename := (basename p)[file_count p := ?b], extension := (extension p)[file_count p := arg_extension ?b]\<rparr>)"
    using assms by (simp add: arg_file_scanfn_def bind_def gets_def seq_def defined_if_def ret_def modify_def Let_def)
  then show ?thesis using d e arg_basename_no_separator by blast
qed

theorem arg_file_splits_path_witness:
  "\<exists>dir stem base ext. ''a/b.tar.gz'' = dir @ base \<and> base = stem @ ext \<and> CHR ''/'' \<notin> set base \<and>
    (case arg_file_scanfn CHR ''/'' (Some ''a/b.tar.gz'') (arg_file1 None None None None) of
       Returns e p \<Rightarrow> e = 0 \<and> basename p = [base] \<and> extension p = [ext] | _ \<Rightarrow> False)"
  using arg_file_splits_path [of "arg_file1 None None None None" "''a/b.tar.gz''" "CHR ''/''"]
  by (auto simp: arg_file1_def arg_filen_def)

section \<open>The contract of the option types\<close>

interpretation file_type: option_type file_hdr file_count arg_file_resetfn "arg_file_scanfn sep1" arg_file_checkfn for sep1
proof (unfold_locales, goal_cases)
  case (2 a p)
  show ?case by (auto simp: arg_file_scanfn_def ARG_ERR_MAXCOUNT_def wlp_simps Let_def split: option.splits)
qed (simp_all add: arg_file_resetfn_def arg_file_scanfn_def arg_file_checkfn_def ret_def gets_def bind_def modify_def wlp_def)

end
