(* ===== verification/ArgRex.thy ===== *)
theory ArgRex
  imports ArgOption
begin

text \<open>
  Options whose argument matches a regular expression (\<open>arg_rex\<close> of \<^verbatim>\<open>cli/lib/argtable/argtable3.c\<close>) and the T-Rex engine inside them: the
  compiler to an array of nodes and the matcher on that array.

  \<open>longjmp\<close> to the error handler of \<open>trex_compile\<close> is \<open>throw\<close>. A pointer to a node is its index, a pointer into a text its position; the null
  pointer is None. Reading behind the terminator of a text and writing behind the end of the array are undefined behaviour. \<open>char\<close> is signed. The
  compiler and the matcher recurse with fuel.
\<close>

section \<open>The state of an expression\<close>

definition MAX_CHAR :: int where "MAX_CHAR = 255"
definition OP_GREEDY :: int where "OP_GREEDY = MAX_CHAR + 1"
definition OP_OR :: int where "OP_OR = MAX_CHAR + 2"
definition OP_EXPR :: int where "OP_EXPR = MAX_CHAR + 3"
definition OP_NOCAPEXPR :: int where "OP_NOCAPEXPR = MAX_CHAR + 4"
definition OP_DOT :: int where "OP_DOT = MAX_CHAR + 5"
definition OP_CLASS :: int where "OP_CLASS = MAX_CHAR + 6"
definition OP_CCLASS :: int where "OP_CCLASS = MAX_CHAR + 7"
definition OP_NCLASS :: int where "OP_NCLASS = MAX_CHAR + 8"
definition OP_RANGE :: int where "OP_RANGE = MAX_CHAR + 9"
definition OP_EOL :: int where "OP_EOL = MAX_CHAR + 11"
definition OP_BOL :: int where "OP_BOL = MAX_CHAR + 12"
definition OP_WB :: int where "OP_WB = MAX_CHAR + 13"

lemmas op_defs = OP_GREEDY_def OP_OR_def OP_EXPR_def OP_NOCAPEXPR_def OP_DOT_def OP_CLASS_def OP_CCLASS_def OP_NCLASS_def OP_RANGE_def
  OP_EOL_def OP_BOL_def OP_WB_def MAX_CHAR_def

record trex_node =
  ntype :: int
  nleft :: int
  nright :: int
  nnext :: int

record trex_match =
  match_begin :: "nat option"
  match_len :: int

record trex =
  rx_eol :: "nat option"
  rx_bol :: "nat option"
  rx_pattern :: string
  rx_p :: nat
  rx_first :: int
  rx_nodes :: "trex_node list"
  rx_nallocated :: nat
  rx_nsubexpr :: nat
  rx_matches :: "trex_match list"
  rx_currsubexp :: int
  rx_error :: "string option"
  rx_icase :: bool
  rx_text :: string

text \<open>The value of a \<open>char\<close>.\<close>

definition schar :: "char \<Rightarrow> int" where
  "schar c = (if code_of c < 128 then int (code_of c) else int (code_of c) - 256)"

definition node_at :: "int \<Rightarrow> (trex, trex_node) cfun" where
  "node_at i = bind (gets rx_nodes) (\<lambda>ns. seq (defined_if (0 \<le> i \<and> i < int (length ns))) (ret (ns ! nat i)))"

definition set_node :: "int \<Rightarrow> (trex_node \<Rightarrow> trex_node) \<Rightarrow> (trex, unit) cfun" where
  "set_node i f = bind (node_at i) (\<lambda>n. modify (\<lambda>s. s\<lparr>rx_nodes := (rx_nodes s)[nat i := f n]\<rparr>))"

section \<open>The compiler\<close>

definition trex_newnode :: "int \<Rightarrow> (trex, int) cfun" where
  "trex_newnode type = bind (gets id) (\<lambda>s.
     seq (if type = OP_EXPR then modify (\<lambda>s. s\<lparr>rx_nsubexpr := rx_nsubexpr s + 1\<rparr>) else ret ())
    (seq (if rx_nallocated s < length (rx_nodes s) + 1 then modify (\<lambda>s. s\<lparr>rx_nallocated := rx_nallocated s * 2\<rparr>) else ret ())
    (bind (gets id) (\<lambda>t.
     seq (defined_if (length (rx_nodes t) < rx_nallocated t))
    (seq (modify (\<lambda>t. t\<lparr>rx_nodes := rx_nodes t @ [\<lparr>ntype = type, nleft = - 1, nright = (if type = OP_EXPR then int (rx_nsubexpr s) else - 1), nnext = - 1\<rparr>]\<rparr>))
         (ret (int (length (rx_nodes t)))))))))"

definition trex_error :: "string \<Rightarrow> (trex, 'a) cfun" where
  "trex_error error = seq (modify (\<lambda>s. s\<lparr>rx_error := Some error\<rparr>)) (throw ERR_INVALID)"

text \<open>\<open>*exp->_p\<close> and \<open>exp->_p++\<close>\<close>

definition peek :: "(trex, char) cfun" where
  "peek = bind (gets id) (\<lambda>s. seq (defined_if (rx_p s \<le> length (rx_pattern s))) (ret (text_at (rx_pattern s) (rx_p s))))"

definition advance :: "(trex, unit) cfun" where
  "advance = modify (\<lambda>s. s\<lparr>rx_p := rx_p s + 1\<rparr>)"

definition trex_expect :: "char \<Rightarrow> (trex, unit) cfun" where
  "trex_expect n = bind peek (\<lambda>c. if c \<noteq> n then trex_error ''expected paren'' else advance)"

text \<open>The characters that stand for others behind a backslash.\<close>

definition control_of :: "char \<Rightarrow> int option" where
  "control_of c =
     (if c = CHR ''v'' then Some 11 else if c = CHR ''n'' then Some 10 else if c = CHR ''t'' then Some 9
      else if c = CHR ''r'' then Some 13 else if c = CHR ''f'' then Some 12 else None)"

definition trex_escapechar :: "(trex, int) cfun" where
  "trex_escapechar = bind peek (\<lambda>c.
     if c = CHR 0x5C then
       seq advance (bind peek (\<lambda>c. seq advance (ret (case control_of c of Some k \<Rightarrow> k | None \<Rightarrow> schar c))))
     else if \<not> isprint c then trex_error ''letter expected''
     else seq advance (ret (schar c)))"

definition trex_charclass :: "int \<Rightarrow> (trex, int) cfun" where
  "trex_charclass classid = bind (trex_newnode OP_CCLASS) (\<lambda>n. seq (set_node n (\<lambda>x. x\<lparr>nleft := classid\<rparr>)) (ret n))"

definition trex_charnode :: "bool \<Rightarrow> (trex, int) cfun" where
  "trex_charnode isclass = bind peek (\<lambda>c.
     if c = CHR 0x5C then
       seq advance (bind peek (\<lambda>t.
         case control_of t of
           Some k \<Rightarrow> seq advance (trex_newnode k)
         | None \<Rightarrow>
             if t \<in> set ''aAwWsSdDxXcCpPlu'' then seq advance (trex_charclass (schar t))
             else if (t = CHR ''b'' \<or> t = CHR ''B'') \<and> \<not> isclass then
               bind (trex_newnode OP_WB) (\<lambda>n. seq (set_node n (\<lambda>x. x\<lparr>nleft := schar t\<rparr>)) (seq advance (ret n)))
             else seq advance (trex_newnode (schar t))))
     else if \<not> isprint c then trex_error ''letter expected''
     else seq advance (trex_newnode (schar c)))"

text \<open>
  The loop over the characters of a class: \<open>first\<close> is the node that is not in the list yet, \<open>chain\<close> the last one of the list. The pointer is
  never at \<open>exp->_eol\<close>, which is null.
\<close>

primrec class_loop :: "nat \<Rightarrow> int \<Rightarrow> int \<Rightarrow> (trex, int \<times> int) cfun" where
  "class_loop 0 first chain = faults Out_Of_Fuel"
| "class_loop (Suc n) first chain = bind peek (\<lambda>c.
     if c = CHR '']'' then ret (first, chain)
     else if c = CHR ''-'' \<and> first \<noteq> - 1 then
       seq advance
      (bind (trex_newnode OP_RANGE) (\<lambda>r. bind peek (\<lambda>c.
       if first > schar c then trex_error ''invalid range''
       else bind (node_at first) (\<lambda>f.
       if ntype f = OP_CCLASS then trex_error ''cannot use character classes in ranges''
       else seq (set_node r (\<lambda>x. x\<lparr>nleft := ntype f\<rparr>))
           (bind trex_escapechar (\<lambda>t.
            seq (set_node r (\<lambda>x. x\<lparr>nright := t\<rparr>))
           (seq (set_node chain (\<lambda>x. x\<lparr>nnext := r\<rparr>)) (class_loop n (- 1) r))))))))
     else if first \<noteq> - 1 then
       seq (set_node chain (\<lambda>x. x\<lparr>nnext := first\<rparr>)) (bind (trex_charnode True) (\<lambda>f. class_loop n f first))
     else bind (trex_charnode True) (\<lambda>f. class_loop n f chain))"

definition trex_class :: "(trex, int) cfun" where
  "trex_class = bind peek (\<lambda>c.
     bind (if c = CHR 0x5E then bind (trex_newnode OP_NCLASS) (\<lambda>r. seq advance (ret r)) else trex_newnode OP_CLASS) (\<lambda>r. bind peek (\<lambda>c.
     seq (if c = CHR '']'' then trex_error ''empty class'' else ret ())
    (bind (bind (gets (\<lambda>s. length (rx_pattern s) + 2)) (\<lambda>n. class_loop n (- 1) r)) (\<lambda>(first, chain).
     seq (if first \<noteq> - 1 then set_node chain (\<lambda>x. x\<lparr>nnext := first\<rparr>) else ret ())
    (seq (set_node r (\<lambda>x. x\<lparr>nleft := nnext x, nnext := - 1\<rparr>))
         (ret r)))))))"

primrec number_loop :: "nat \<Rightarrow> int \<Rightarrow> int \<Rightarrow> (trex, int) cfun" where
  "number_loop 0 r positions = faults Out_Of_Fuel"
| "number_loop (Suc n) r positions = bind peek (\<lambda>c.
     if isdigit c then
       (let r = r * 10 + (schar c - 48) in
        seq advance
       (seq (defined_if (r \<le> INT_MAX))
       (if positions = 1000000000 then trex_error ''overflow in numeric constant'' else number_loop n r (positions * 10))))
     else ret r)"

definition trex_parsenumber :: "(trex, int) cfun" where
  "trex_parsenumber = bind peek (\<lambda>c. seq advance (number_loop 10 (schar c - 48) 10))"

text \<open>The number of repetitions behind an element, the smallest and the greatest as \<open>unsigned short\<close>.\<close>

definition trex_repetition :: "(trex, (int \<times> int) option) cfun" where
  "trex_repetition = bind peek (\<lambda>c.
     if c = CHR ''*'' then seq advance (ret (Some (0, 65535)))
     else if c = CHR ''+'' then seq advance (ret (Some (1, 65535)))
     else if c = CHR ''?'' then seq advance (ret (Some (0, 1)))
     else if c = CHR ''{'' then
       seq advance (bind peek (\<lambda>c.
       seq (if \<not> isdigit c then trex_error ''number expected'' else ret ())
      (bind trex_parsenumber (\<lambda>p0. let p0 = p0 mod 65536 in bind peek (\<lambda>c.
       if c = CHR ''}'' then seq advance (ret (Some (p0, p0)))
       else if c = CHR '','' then
         seq advance (bind peek (\<lambda>c.
         bind (if isdigit c then bind trex_parsenumber (\<lambda>p1. ret (p1 mod 65536)) else ret 65535) (\<lambda>p1.
         seq (trex_expect CHR ''}'') (ret (Some (p0, p1))))))
       else trex_error '', or } expected''))))) 
     else ret None)"

text \<open>The shift of \<open>p0\<close> is one of \<open>int\<close>.\<close>

definition trex_greedy :: "int \<Rightarrow> (trex, int) cfun" where
  "trex_greedy r = bind trex_repetition (\<lambda>g. case g of None \<Rightarrow> ret r | Some (p0, p1) \<Rightarrow>
     bind (trex_newnode OP_GREEDY) (\<lambda>nnode.
     seq (set_node nnode (\<lambda>x. x\<lparr>nleft := r\<rparr>))
    (seq (defined_if (p0 * 65536 \<le> INT_MAX))
    (seq (set_node nnode (\<lambda>x. x\<lparr>nright := p0 * 65536 + p1\<rparr>))
         (ret nnode)))))"

definition ends_element :: "char \<Rightarrow> bool" where
  "ends_element c \<longleftrightarrow> c = CHR ''|'' \<or> c = CHR '')'' \<or> c = CHR ''*'' \<or> c = CHR ''+'' \<or> c = CHR 0x00"

fun trex_list :: "nat \<Rightarrow> (trex, int) cfun" and trex_element :: "nat \<Rightarrow> (trex, int) cfun" where
  "trex_list 0 = faults Out_Of_Fuel"
| "trex_list (Suc n) = bind peek (\<lambda>c.
     bind (if c = CHR 0x5E then seq advance (trex_newnode OP_BOL) else ret (- 1)) (\<lambda>r.
     bind (trex_element n) (\<lambda>e.
     bind (if r \<noteq> - 1 then seq (set_node r (\<lambda>x. x\<lparr>nnext := e\<rparr>)) (ret r) else ret e) (\<lambda>r.
     bind peek (\<lambda>c.
     if c = CHR ''|'' then
       seq advance (bind (trex_newnode OP_OR) (\<lambda>temp.
       seq (set_node temp (\<lambda>x. x\<lparr>nleft := r\<rparr>))
      (bind (trex_list n) (\<lambda>tright.
       seq (set_node temp (\<lambda>x. x\<lparr>nright := tright\<rparr>)) (ret temp)))))
     else ret r)))))"
| "trex_element 0 = faults Out_Of_Fuel"
| "trex_element (Suc n) = bind peek (\<lambda>c.
     bind (if c = CHR ''('' then
         seq advance (bind peek (\<lambda>c.
         bind (if c = CHR ''?'' then seq advance (seq (trex_expect CHR '':'') (trex_newnode OP_NOCAPEXPR)) else trex_newnode OP_EXPR) (\<lambda>expr.
         bind (trex_list n) (\<lambda>newn.
         seq (set_node expr (\<lambda>x. x\<lparr>nleft := newn\<rparr>)) (seq (trex_expect CHR '')'') (ret expr))))))
       else if c = CHR ''['' then seq advance (bind trex_class (\<lambda>r. seq (trex_expect CHR '']'') (ret r)))
       else if c = CHR ''$'' then seq advance (trex_newnode OP_EOL)
       else if c = CHR ''.'' then seq advance (trex_newnode OP_DOT)
       else trex_charnode False) (\<lambda>r.
     bind (trex_greedy r) (\<lambda>r. bind peek (\<lambda>c.
     if \<not> ends_element c then bind (trex_element n) (\<lambda>nnode. seq (set_node r (\<lambda>x. x\<lparr>nnext := nnode\<rparr>)) (ret r))
     else ret r))))"

definition new_trex :: "string \<Rightarrow> bool \<Rightarrow> trex" where
  "new_trex pattern icase = \<lparr>rx_eol = None, rx_bol = None, rx_pattern = pattern, rx_p = 0, rx_first = 0, rx_nodes = [], rx_nallocated = length pattern,
     rx_nsubexpr = 0, rx_matches = [], rx_currsubexp = 0, rx_error = None, rx_icase = icase, rx_text = ''''\<rparr>"

text \<open>The part behind \<open>setjmp\<close>, and the expression or the error. Every call consumes a character within two calls.\<close>

definition compile_body :: "(trex, unit) cfun" where
  "compile_body =
     bind (trex_newnode OP_EXPR) (\<lambda>first. seq (modify (\<lambda>s. s\<lparr>rx_first := first\<rparr>))
    (bind (bind (gets (\<lambda>s. 2 * length (rx_pattern s) + 3)) trex_list) (\<lambda>res.
     seq (set_node first (\<lambda>x. x\<lparr>nleft := res\<rparr>))
    (bind peek (\<lambda>c. seq (if c \<noteq> CHR 0x00 then trex_error ''unexpected character'' else ret ())
    (modify (\<lambda>s. s\<lparr>rx_matches := replicate (rx_nsubexpr s) \<lparr>match_begin = None, match_len = 0\<rparr>\<rparr>)))))))"

datatype compiled = Compiled trex | Bad_pattern "string option"

definition trex_compile :: "string \<Rightarrow> bool \<Rightarrow> (unit, compiled) cfun" where
  "trex_compile pattern icase = (\<lambda>u. case compile_body (new_trex pattern icase) of
      Returns _ s \<Rightarrow> Returns (Compiled s) u
    | Throws _ s \<Rightarrow> Returns (Bad_pattern (rx_error s)) u
    | Faults f \<Rightarrow> Faults f)"

section \<open>The matcher\<close>

text \<open>\<open>*(str + i)\<close>, and \<open>str + 1\<close>, which can point at most behind the terminator.\<close>

definition text_char :: "nat \<Rightarrow> (trex, char) cfun" where
  "text_char i = bind (gets rx_text) (\<lambda>t. seq (defined_if (i \<le> length t)) (ret (text_at t i)))"

definition text_next :: "nat \<Rightarrow> (trex, nat option) cfun" where
  "text_next i = bind (gets rx_text) (\<lambda>t. seq (defined_if (i \<le> length t)) (ret (Some (i + 1))))"

definition trex_matchcclass :: "int \<Rightarrow> char \<Rightarrow> bool" where
  "trex_matchcclass cclass c =
     (if cclass = schar CHR ''a'' then isalpha c else if cclass = schar CHR ''A'' then \<not> isalpha c
      else if cclass = schar CHR ''w'' then isalnum c \<or> c = CHR ''_'' else if cclass = schar CHR ''W'' then \<not> isalnum c \<and> c \<noteq> CHR ''_''
      else if cclass = schar CHR ''s'' then isspace c else if cclass = schar CHR ''S'' then \<not> isspace c
      else if cclass = schar CHR ''d'' then isdigit c else if cclass = schar CHR ''D'' then \<not> isdigit c
      else if cclass = schar CHR ''x'' then isxdigit c else if cclass = schar CHR ''X'' then \<not> isxdigit c
      else if cclass = schar CHR ''c'' then iscntrl c else if cclass = schar CHR ''C'' then \<not> iscntrl c
      else if cclass = schar CHR ''p'' then ispunct c else if cclass = schar CHR ''P'' then \<not> ispunct c
      else if cclass = schar CHR ''l'' then islower c else if cclass = schar CHR ''u'' then isupper c
      else False)"

text \<open>\<open>toupper\<close> and \<open>tolower\<close> of an \<open>int\<close>.\<close>

definition toupper_int :: "int \<Rightarrow> int" where
  "toupper_int i = (if 97 \<le> i \<and> i \<le> 122 then i - 32 else i)"

definition tolower_int :: "int \<Rightarrow> int" where
  "tolower_int i = (if 65 \<le> i \<and> i \<le> 90 then i + 32 else i)"

definition class_node_matches :: "bool \<Rightarrow> trex_node \<Rightarrow> char \<Rightarrow> bool" where
  "class_node_matches icase n c =
     (if ntype n = OP_RANGE then
        (if icase then toupper_int (nleft n) \<le> schar c \<and> schar c \<le> toupper_int (nright n) \<or>
            tolower_int (nleft n) \<le> schar c \<and> schar c \<le> tolower_int (nright n)
         else nleft n \<le> schar c \<and> schar c \<le> nright n)
      else if ntype n = OP_CCLASS then trex_matchcclass (nleft n) c
      else if icase then schar c = tolower_int (ntype n) \<or> schar c = toupper_int (ntype n)
      else schar c = ntype n)"

text \<open>A loop over a chain of nodes has as many rounds as there are nodes.\<close>

primrec matchclass_loop :: "nat \<Rightarrow> int \<Rightarrow> char \<Rightarrow> (trex, bool) cfun" where
  "matchclass_loop 0 node c = faults Out_Of_Fuel"
| "matchclass_loop (Suc k) node c = bind (node_at node) (\<lambda>n. bind (gets rx_icase) (\<lambda>icase.
     if class_node_matches icase n c then ret True
     else if nnext n \<noteq> - 1 then matchclass_loop k (nnext n) c
     else ret False))"

definition trex_matchclass :: "int \<Rightarrow> char \<Rightarrow> (trex, bool) cfun" where
  "trex_matchclass node c = bind (gets (\<lambda>s. length (rx_nodes s) + 1)) (\<lambda>k. matchclass_loop k node c)"

text \<open>
  The cases of \<open>trex_matchnode\<close>, given the function for the recursive calls: a node, the position and the node that follows outside.
\<close>

type_synonym matcher = "int \<Rightarrow> nat \<Rightarrow> int option \<Rightarrow> (trex, nat option) cfun"

definition min_count :: "trex_node \<Rightarrow> int" where "min_count n = (nright n div 65536) mod 65536"
definition max_count :: "trex_node \<Rightarrow> int" where "max_count n = nright n mod 65536"

definition count_matches :: "int \<Rightarrow> int \<Rightarrow> int \<Rightarrow> bool" where
  "count_matches p0 p1 nmaches \<longleftrightarrow> p0 = p1 \<and> p0 = nmaches \<or> nmaches \<ge> p0 \<and> p1 = 65535 \<or> nmaches \<ge> p0 \<and> nmaches \<le> p1"

definition next_of :: "int option \<Rightarrow> (trex, int option) cfun" where
  "next_of node = (case node of None \<Rightarrow> ret None | Some i \<Rightarrow> bind (node_at i) (\<lambda>n. ret (if nnext n \<noteq> - 1 then Some (nnext n) else None)))"

text \<open>Whether what follows the repetition matches at the position.\<close>

definition greedy_stops :: "matcher \<Rightarrow> int option \<Rightarrow> int option \<Rightarrow> int \<Rightarrow> int \<Rightarrow> int \<Rightarrow> nat \<Rightarrow> (trex, bool) cfun" where
  "greedy_stops rec stop next p0 p1 nmaches s = (case stop of None \<Rightarrow> ret False | Some g \<Rightarrow> bind (node_at g) (\<lambda>n.
     if ntype n \<noteq> OP_GREEDY \<or> min_count n \<noteq> 0 then
       bind (if nnext n \<noteq> - 1 then ret (Some (nnext n)) else next_of next) (\<lambda>gnext.
       bind (rec g s gnext) (\<lambda>r. ret (r \<noteq> None \<and> count_matches p0 p1 nmaches)))
     else ret False))"

primrec greedy_loop :: "nat \<Rightarrow> matcher \<Rightarrow> int \<Rightarrow> int option \<Rightarrow> int option \<Rightarrow> int \<Rightarrow> int \<Rightarrow> nat \<Rightarrow> nat \<Rightarrow> int \<Rightarrow> (trex, nat \<times> int) cfun" where
  "greedy_loop 0 rec left stop next p0 p1 s good nmaches = faults Out_Of_Fuel"
| "greedy_loop (Suc k) rec left stop next p0 p1 s good nmaches =
     (if nmaches = 65535 \<or> nmaches < p1 then
        bind (rec left s stop) (\<lambda>r. case r of
          None \<Rightarrow> ret (good, nmaches)
        | Some s \<Rightarrow>
            bind (greedy_stops rec stop next p0 p1 (nmaches + 1) s) (\<lambda>stops. bind (gets rx_eol) (\<lambda>eol.
            if stops \<or> (case eol of None \<Rightarrow> True | Some e \<Rightarrow> s \<ge> e) then ret (s, nmaches + 1)
            else greedy_loop k rec left stop next p0 p1 s s (nmaches + 1))))
      else ret (good, nmaches))"

definition match_greedy :: "matcher \<Rightarrow> trex_node \<Rightarrow> nat \<Rightarrow> int option \<Rightarrow> (trex, nat option) cfun" where
  "match_greedy rec n str next =
     (let stop = (if nnext n \<noteq> - 1 then Some (nnext n) else next); p0 = min_count n; p1 = max_count n in
      bind (greedy_loop 65537 rec (nleft n) stop next p0 p1 str str 0) (\<lambda>(good, nmaches).
      ret (if count_matches p0 p1 nmaches then Some good else None)))"

primrec or_branch :: "nat \<Rightarrow> matcher \<Rightarrow> int \<Rightarrow> nat \<Rightarrow> (trex, nat option) cfun" where
  "or_branch 0 rec temp asd = faults Out_Of_Fuel"
| "or_branch (Suc k) rec temp asd = bind (rec temp asd None) (\<lambda>r. case r of
     None \<Rightarrow> ret None
   | Some asd \<Rightarrow> bind (node_at temp) (\<lambda>n. if nnext n \<noteq> - 1 then or_branch k rec (nnext n) asd else ret (Some asd)))"

definition match_or :: "matcher \<Rightarrow> trex_node \<Rightarrow> nat \<Rightarrow> (trex, nat option) cfun" where
  "match_or rec n str = bind (gets (\<lambda>s. length (rx_nodes s) + 1)) (\<lambda>k.
     bind (or_branch k rec (nleft n) str) (\<lambda>r. case r of Some asd \<Rightarrow> ret (Some asd) | None \<Rightarrow> or_branch k rec (nright n) str))"

definition set_match :: "int \<Rightarrow> (trex_match \<Rightarrow> trex_match) \<Rightarrow> (trex, unit) cfun" where
  "set_match i f = bind (gets rx_matches) (\<lambda>ms.
     seq (defined_if (0 \<le> i \<and> i < int (length ms))) (modify (\<lambda>s. s\<lparr>rx_matches := ms[nat i := f (ms ! nat i)]\<rparr>)))"

primrec expr_loop :: "nat \<Rightarrow> matcher \<Rightarrow> int \<Rightarrow> nat \<Rightarrow> int option \<Rightarrow> int \<Rightarrow> (trex, nat option) cfun" where
  "expr_loop 0 rec n cur next capture = faults Out_Of_Fuel"
| "expr_loop (Suc k) rec n cur next capture = bind (node_at n) (\<lambda>x.
     bind (rec n cur (if nnext x \<noteq> - 1 then Some (nnext x) else next)) (\<lambda>r. case r of
       None \<Rightarrow> seq (if capture \<noteq> - 1 then set_match capture (\<lambda>m. m\<lparr>match_begin := None, match_len := 0\<rparr>) else ret ()) (ret None)
     | Some cur \<Rightarrow> if nnext x \<noteq> - 1 then expr_loop k rec (nnext x) cur next capture else ret (Some cur)))"

definition match_expr :: "matcher \<Rightarrow> trex_node \<Rightarrow> nat \<Rightarrow> int option \<Rightarrow> (trex, nat option) cfun" where
  "match_expr rec n str next = bind (gets rx_currsubexp) (\<lambda>i.
     let capture = (if ntype n \<noteq> OP_NOCAPEXPR \<and> nright n = i then i else - 1) in
     seq (if capture \<noteq> - 1 then
            seq (set_match capture (\<lambda>m. m\<lparr>match_begin := Some str\<rparr>)) (modify (\<lambda>s. s\<lparr>rx_currsubexp := rx_currsubexp s + 1\<rparr>))
          else ret ())
    (bind (bind (gets (\<lambda>s. length (rx_nodes s) + 1)) (\<lambda>k. expr_loop k rec (nleft n) str next capture)) (\<lambda>r. case r of
       None \<Rightarrow> ret None
     | Some cur \<Rightarrow>
         seq (if capture \<noteq> - 1 then set_match capture (\<lambda>m. m\<lparr>match_len := int cur - int (case match_begin m of None \<Rightarrow> 0 | Some b \<Rightarrow> b)\<rparr>)
              else ret ())
             (ret (Some cur)))))"

text \<open>The characters around the position are read from left to right, as far as they decide.\<close>

definition word_boundary :: "nat \<Rightarrow> (trex, bool) cfun" where
  "word_boundary str = bind (gets id) (\<lambda>s.
     bind (if Some str = rx_bol s then bind (text_char str) (\<lambda>c. ret (\<not> isspace c)) else ret False) (\<lambda>b. if b then ret True else
     bind (if Some str = rx_eol s then seq (defined_if (0 < str)) (bind (text_char (str - 1)) (\<lambda>c. ret (\<not> isspace c))) else ret False) (\<lambda>b. if b then ret True else
     bind (text_char str) (\<lambda>c. bind (text_char (str + 1)) (\<lambda>d. ret (isspace c \<noteq> isspace d))))))"

definition match_wb :: "trex_node \<Rightarrow> nat \<Rightarrow> (trex, nat option) cfun" where
  "match_wb n str = bind (word_boundary str) (\<lambda>b. ret (if b = (nleft n = schar CHR ''b'') then Some str else None))"

definition match_char :: "trex_node \<Rightarrow> nat \<Rightarrow> (trex, nat option) cfun" where
  "match_char n str = bind (gets rx_icase) (\<lambda>icase. bind (text_char str) (\<lambda>c.
     if icase \<and> schar c \<noteq> tolower_int (ntype n) \<and> schar c \<noteq> toupper_int (ntype n) \<or> \<not> icase \<and> schar c \<noteq> ntype n then ret None
     else text_next str))"

definition matchnode_cases :: "matcher \<Rightarrow> matcher" where
  "matchnode_cases rec node str next = bind (node_at node) (\<lambda>n.
     if ntype n = OP_GREEDY then match_greedy rec n str next
     else if ntype n = OP_OR then match_or rec n str
     else if ntype n = OP_EXPR \<or> ntype n = OP_NOCAPEXPR then match_expr rec n str next
     else if ntype n = OP_WB then match_wb n str
     else if ntype n = OP_BOL then bind (gets rx_bol) (\<lambda>bol. ret (if Some str = bol then Some str else None))
     else if ntype n = OP_EOL then bind (gets rx_eol) (\<lambda>eol. ret (if Some str = eol then Some str else None))
     else if ntype n = OP_DOT then text_next str
     else if ntype n = OP_NCLASS \<or> ntype n = OP_CLASS then
       bind (text_char str) (\<lambda>c. bind (trex_matchclass (nleft n) c) (\<lambda>b.
       if b = (ntype n = OP_CLASS) then text_next str else ret None))
     else if ntype n = OP_CCLASS then
       bind (text_char str) (\<lambda>c. if trex_matchcclass (nleft n) c then text_next str else ret None)
     else match_char n str)"

primrec trex_matchnode :: "nat \<Rightarrow> matcher" where
  "trex_matchnode 0 node str next = faults Out_Of_Fuel"
| "trex_matchnode (Suc n) node str next = matchnode_cases (trex_matchnode n) node str next"

section \<open>Matching and searching\<close>

definition trex_match :: "nat \<Rightarrow> string \<Rightarrow> (trex, bool) cfun" where
  "trex_match fuel txt =
     seq (modify (\<lambda>s. s\<lparr>rx_text := txt, rx_bol := Some 0, rx_eol := Some (length txt), rx_currsubexp := 0\<rparr>))
    (bind (trex_matchnode fuel 0 0 None) (\<lambda>res. ret (res = Some (length txt))))"

text \<open>The nodes behind \<open>_first\<close>, from a position on; then the loop over the positions. \<open>node\<close> keeps its value from one round to the next.\<close>

primrec search_nodes :: "nat \<Rightarrow> nat \<Rightarrow> int \<Rightarrow> nat \<Rightarrow> (trex, int \<times> nat option) cfun" where
  "search_nodes 0 fuel node cur = faults Out_Of_Fuel"
| "search_nodes (Suc k) fuel node cur =
     (if node \<noteq> - 1 then
        seq (modify (\<lambda>s. s\<lparr>rx_currsubexp := 0\<rparr>))
       (bind (trex_matchnode fuel node cur None) (\<lambda>r. case r of
          None \<Rightarrow> ret (node, None)
        | Some cur \<Rightarrow> bind (node_at node) (\<lambda>n. search_nodes k fuel (nnext n) cur)))
      else ret (node, Some cur))"

primrec search_loop :: "nat \<Rightarrow> nat \<Rightarrow> int \<Rightarrow> nat \<Rightarrow> nat \<Rightarrow> (trex, nat \<times> nat option) cfun" where
  "search_loop 0 fuel node text_begin text_end = faults Out_Of_Fuel"
| "search_loop (Suc k) fuel node text_begin text_end =
     bind (bind (gets (\<lambda>s. length (rx_nodes s) + 1)) (\<lambda>m. search_nodes m fuel node text_begin)) (\<lambda>(node, cur).
     if cur = None \<and> text_begin + 1 \<noteq> text_end then search_loop k fuel node (text_begin + 1) text_end
     else ret (text_begin + 1, cur))"

text \<open>The ends of the part that matches. The range is one of the text.\<close>

definition trex_searchrange :: "nat \<Rightarrow> string \<Rightarrow> nat \<Rightarrow> nat \<Rightarrow> (trex, (nat \<times> nat) option) cfun" where
  "trex_searchrange fuel txt text_begin text_end =
     (if text_begin \<ge> text_end then ret None
      else seq (modify (\<lambda>s. s\<lparr>rx_text := txt, rx_bol := Some text_begin, rx_eol := Some text_end\<rparr>))
          (bind (bind (gets rx_first) (\<lambda>node. search_loop (text_end - text_begin) fuel node text_begin text_end)) (\<lambda>(b, cur).
           ret (case cur of None \<Rightarrow> None | Some cur \<Rightarrow> Some (b - 1, cur)))))"

definition trex_search :: "nat \<Rightarrow> string \<Rightarrow> (trex, (nat \<times> nat) option) cfun" where
  "trex_search fuel txt = trex_searchrange fuel txt 0 (length txt)"

definition trex_getsubexpcount :: "(trex, int) cfun" where
  "trex_getsubexpcount = gets (\<lambda>s. int (rx_nsubexpr s))"

definition trex_getsubexp :: "int \<Rightarrow> (trex, trex_match option) cfun" where
  "trex_getsubexp n = gets (\<lambda>s. if n < 0 \<or> n \<ge> int (rx_nsubexpr s) then None else Some (rx_matches s ! nat n))"

section \<open>The entry and its functions\<close>

definition ARG_ERR_REGNOMATCH :: int where "ARG_ERR_REGNOMATCH = 7"

record privhdr =
  pattern :: string
  icase_flag :: bool

record arg_rex =
  rex_hdr :: arg_hdr
  rex_count :: nat
  rex_sval :: "string list"
  priv :: privhdr

definition arg_rex_resetfn :: "(arg_rex, unit) cfun" where
  "arg_rex_resetfn = modify (\<lambda>p. p\<lparr>rex_count := 0\<rparr>)"

text \<open>A pattern that does not compile gives a null pointer, which \<open>trex_match\<close> writes to.\<close>

definition rex_matches :: "nat \<Rightarrow> privhdr \<Rightarrow> string \<Rightarrow> (arg_rex, bool) cfun" where
  "rex_matches fuel h argval = (\<lambda>p. case trex_compile (pattern h) (icase_flag h) () of
      Returns (Compiled rex) _ \<Rightarrow> (case trex_match fuel argval rex of Returns b _ \<Rightarrow> Returns b p | Throws e _ \<Rightarrow> Throws e p | Faults f \<Rightarrow> Faults f)
    | Returns (Bad_pattern _) _ \<Rightarrow> Faults Undefined_Behaviour
    | Throws e _ \<Rightarrow> Throws e p
    | Faults f \<Rightarrow> Faults f)"

definition arg_rex_scanfn :: "nat \<Rightarrow> string option \<Rightarrow> (arg_rex, int) cfun" where
  "arg_rex_scanfn fuel argval = bind (gets id) (\<lambda>p.
     if rex_count p = maxcount (rex_hdr p) then ret ARG_ERR_MAXCOUNT
     else (case argval of
       None \<Rightarrow> seq (modify (\<lambda>p. p\<lparr>rex_count := rex_count p + 1\<rparr>)) (ret 0)
     | Some argval \<Rightarrow>
         bind (rex_matches fuel (priv p) argval) (\<lambda>is_match.
         if \<not> is_match then ret ARG_ERR_REGNOMATCH
         else seq (defined_if (rex_count p < length (rex_sval p)))
             (seq (modify (\<lambda>p. p\<lparr>rex_sval := (rex_sval p)[rex_count p := argval], rex_count := rex_count p + 1\<rparr>)) (ret 0)))))"

definition arg_rex_checkfn :: "(arg_rex, int) cfun" where
  "arg_rex_checkfn = gets (\<lambda>p. if rex_count p < mincount (rex_hdr p) then ARG_ERR_MINCOUNT else 0)"

definition arg_rex_errorfn :: "arg_rex \<Rightarrow> int \<Rightarrow> string option \<Rightarrow> string \<Rightarrow> string" where
  "arg_rex_errorfn p errorcode argval progname = (let h = rex_hdr p; argval = or_empty argval in progname @ '': '' @
     (if errorcode = ARG_ERR_MINCOUNT then
        ''missing option '' @ arg_print_option_ds (shortopts h) (longopts h) (datatype_text h) (Some newline)
      else if errorcode = ARG_ERR_MAXCOUNT then
        ''excess option '' @ arg_print_option_ds (shortopts h) (longopts h) (Some argval) (Some newline)
      else if errorcode = ARG_ERR_REGNOMATCH then
        ''illegal value  '' @ arg_print_option_ds (shortopts h) (longopts h) (Some argval) (Some newline)
      else ''''))"

text \<open>The pattern is compiled once, for the errors it may have; only the log tells them. Without a pattern there is no entry.\<close>

definition arg_rexn :: "string option \<Rightarrow> string option \<Rightarrow> string option \<Rightarrow> string option \<Rightarrow> nat \<Rightarrow> nat \<Rightarrow> bool \<Rightarrow> string option \<Rightarrow> (unit, arg_rex option) cfun" where
  "arg_rexn short long pat dt minc maxc flags gloss = (case pat of None \<Rightarrow> ret None | Some pat \<Rightarrow>
     let maxc = (if maxc < minc then minc else maxc);
         r = \<lparr>rex_hdr = \<lparr>is_terminator = False, has_value = True, has_opt_value = False, shortopts = short, longopts = long,
               datatype_text = (if dt = None then Some pat else dt), glossary = gloss, mincount = minc, maxcount = maxc\<rparr>,
             rex_count = 0, rex_sval = replicate maxc '''', priv = \<lparr>pattern = pat, icase_flag = flags\<rparr>\<rparr>
     in bind (trex_compile pat flags) (\<lambda>rex. ret (Some r)))"

definition arg_rex0 :: "string option \<Rightarrow> string option \<Rightarrow> string option \<Rightarrow> string option \<Rightarrow> bool \<Rightarrow> string option \<Rightarrow> (unit, arg_rex option) cfun" where
  "arg_rex0 short long pat dt flags gloss = arg_rexn short long pat dt 0 1 flags gloss"

definition arg_rex1 :: "string option \<Rightarrow> string option \<Rightarrow> string option \<Rightarrow> string option \<Rightarrow> bool \<Rightarrow> string option \<Rightarrow> (unit, arg_rex option) cfun" where
  "arg_rex1 short long pat dt flags gloss = arg_rexn short long pat dt 1 1 flags gloss"

section \<open>The contract of the option types\<close>

lemma rex_matches_pure: "(\<And>b. Q b p) \<Longrightarrow> E p \<Longrightarrow> wlp (rex_matches fuel h a) Q E p"
  by (simp add: rex_matches_def wlp_def split: outcome.splits compiled.splits)

interpretation rex_type: option_type rex_hdr rex_count arg_rex_resetfn "arg_rex_scanfn fuel" arg_rex_checkfn for fuel
proof (unfold_locales, goal_cases)
  case (2 a p)
  show ?case by (auto simp: arg_rex_scanfn_def ARG_ERR_REGNOMATCH_def ARG_ERR_MAXCOUNT_def wlp_simps Let_def split: option.splits intro!: rex_matches_pure)
qed (simp_all add: arg_rex_resetfn_def arg_rex_scanfn_def arg_rex_checkfn_def ret_def gets_def bind_def modify_def wlp_def)

end
