(* ===== verification/ArgRexProps.thy ===== *)
theory ArgRexProps
  imports ArgRex
begin

text \<open>
  The compiler of regular expressions comes to an end and stays inside of its array and of the pattern, unless the pattern is empty, ends in a
  backslash or has a repetition in braces; \<open>ArgRexUndefined\<close> shows that each of these can be undefined behaviour.
\<close>

section \<open>The compiler's state\<close>

text \<open>At position \<open>p\<close> of the pattern, with \<open>k\<close> nodes.\<close>

definition compiling :: "string \<Rightarrow> nat \<Rightarrow> nat \<Rightarrow> trex \<Rightarrow> bool" where
  "compiling pat p k t \<longleftrightarrow> rx_pattern t = pat \<and> rx_p t = p \<and> p \<le> length pat \<and> length (rx_nodes t) = k \<and> k \<le> rx_nallocated t \<and> 0 < rx_nallocated t"

definition safe_pattern :: "string \<Rightarrow> bool" where
  "safe_pattern pat \<longleftrightarrow> pat \<noteq> '''' \<and> last pat \<noteq> CHR 0x5C \<and> CHR ''{'' \<notin> set pat"

lemma newnode: "compiling pat p k s \<Longrightarrow> wp (trex_newnode type) (\<lambda>r t. r = int k \<and> compiling pat p (k + 1) t) E s"
  by (simp add: trex_newnode_def wp_simps compiling_def)

lemma wp_newnode:
  assumes "compiling pat p k s" and "\<And>t. compiling pat p (k + 1) t \<Longrightarrow> Q (int k) t"
  shows "wp (trex_newnode type) Q (\<lambda>_. True) s"
  by (rule wp_mono [OF newnode [OF assms(1)]]) (auto intro: assms(2))

lemma wp_node_at:
  assumes "compiling pat p k s" and "0 \<le> i" and "i < int k" and "compiling pat p k s \<Longrightarrow> Q (rx_nodes s ! nat i) s"
  shows "wp (node_at i) Q E s"
  using assms by (simp add: node_at_def wp_simps compiling_def)

lemma set_node: "compiling pat p k s \<Longrightarrow> 0 \<le> i \<Longrightarrow> i < int k \<Longrightarrow> wp (set_node i f) (\<lambda>_. compiling pat p k) E s"
  by (simp add: set_node_def node_at_def wp_simps compiling_def)

lemma wp_set_node:
  assumes "compiling pat p k s" and "0 \<le> i" and "i < int k" and "\<And>t. compiling pat p k t \<Longrightarrow> Q () t"
  shows "wp (set_node i f) Q (\<lambda>_. True) s"
  by (rule wp_mono [OF set_node [OF assms(1-3)]]) (auto intro: assms(4))

lemma wp_peek:
  assumes "compiling pat p k s" and "compiling pat p k s \<Longrightarrow> Q (text_at pat p) s"
  shows "wp peek Q E s"
  using assms by (simp add: peek_def wp_simps compiling_def)

lemma wp_advance:
  assumes "compiling pat p k s" and "p < length pat" and "\<And>t. compiling pat (p + 1) k t \<Longrightarrow> Q () t"
  shows "wp advance Q E s"
  unfolding advance_def wp_modify by (rule assms(3)) (use assms(1,2) in \<open>simp add: compiling_def\<close>)

lemma text_at_inside: "text_at pat p \<noteq> CHR 0x00 \<Longrightarrow> p < length pat"
  by (simp add: text_at_def split: if_splits)

lemma isprint_inside: "isprint (text_at pat p) \<Longrightarrow> p < length pat"
  by (rule text_at_inside) (auto simp: isprint_def code_of_def)

lemma escape_first: "safe_pattern pat \<Longrightarrow> text_at pat p = CHR 0x5C \<Longrightarrow> p < length pat"
  using text_at_inside by force

lemmas inside = text_at_inside isprint_inside

lemma wp_trex_error [wp_simps]: "wp (trex_error e) Q (\<lambda>_. True) s"
  by (simp add: trex_error_def wp_simps)

lemma wp_trex_expect:
  assumes "compiling pat p k s" and "c \<noteq> CHR 0x00" and "\<And>t. compiling pat (p + 1) k t \<Longrightarrow> Q () t"
  shows "wp (trex_expect c) Q (\<lambda>_. True) s"
  unfolding trex_expect_def wp_bind
proof (rule wp_peek [OF assms(1)])
  assume s: "compiling pat p k s"
  show "wp (if text_at pat p \<noteq> c then trex_error ''expected paren'' else advance) Q (\<lambda>_. True) s"
    using text_at_inside [of pat p] assms(2) by (auto simp: wp_simps intro!: wp_advance [OF s] intro: assms(3))
qed

lemma if_dest: "(b \<Longrightarrow> wp m Q E s) \<Longrightarrow> (\<not> b \<Longrightarrow> wp n Q E s) \<Longrightarrow> wp (if b then m else n) Q E s"
  by simp

lemma case_dest: "(x = None \<Longrightarrow> wp m Q E s) \<Longrightarrow> (\<And>a. x = Some a \<Longrightarrow> wp (f a) Q E s) \<Longrightarrow> wp (case x of None \<Rightarrow> m | Some a \<Rightarrow> f a) Q E s"
  by (cases x) auto

lemma pair_dest: "(\<And>a b. x = (a, b) \<Longrightarrow> wp (f a b) Q E s) \<Longrightarrow> wp (case x of (a, b) \<Rightarrow> f a b) Q E s"
  by (cases x) auto

lemma defined_dest: "b \<Longrightarrow> Q () s \<Longrightarrow> wp (defined_if b) Q E s"
  by (simp add: wp_defined_if)

text \<open>The rules that take a function apart, and those for the steps of the compiler.\<close>

lemmas vcg = wp_bind [THEN fun_cong, THEN iffD2] wp_seq [THEN fun_cong, THEN iffD2] wp_ret [THEN fun_cong, THEN iffD2] wp_gets [THEN iffD2] wp_modify [THEN iffD2]
  if_dest case_dest pair_dest defined_dest wp_trex_error

lemmas steps = wp_peek wp_advance wp_newnode wp_set_node wp_trex_expect

lemma escape_inside:
  assumes "safe_pattern pat" and "text_at pat p = CHR 0x5C"
  shows "p + 1 < length pat"
proof -
  have "p < length pat" using assms(2) text_at_inside by force
  moreover have "p \<noteq> length pat - 1" using assms by (auto simp: text_at_def last_conv_nth safe_pattern_def)
  ultimately show ?thesis by simp
qed

text \<open>A step that ends further on in the pattern, with the index of a node; there are more nodes than before.\<close>

definition makes_node :: "string \<Rightarrow> nat \<Rightarrow> nat \<Rightarrow> int \<Rightarrow> trex \<Rightarrow> bool" where
  "makes_node pat p k r t \<longleftrightarrow> (\<exists>p' k'. compiling pat p' k' t \<and> p < p' \<and> k < k' \<and> 0 \<le> r \<and> r < int k')"

lemma makes_nodeI: "compiling pat p' k' t \<Longrightarrow> p < p' \<Longrightarrow> k < k' \<Longrightarrow> 0 \<le> r \<Longrightarrow> r < int k' \<Longrightarrow> makes_node pat p k r t"
  by (auto simp: makes_node_def)

lemma wp_makes:
  assumes "wp m (makes_node pat p k) (\<lambda>_. True) s"
    and "\<And>r t p' k'. compiling pat p' k' t \<Longrightarrow> p < p' \<Longrightarrow> k < k' \<Longrightarrow> 0 \<le> r \<Longrightarrow> r < int k' \<Longrightarrow> Q r t"
  shows "wp m Q (\<lambda>_. True) s"
  by (rule wp_mono [OF assms(1)]) (auto simp: makes_node_def intro: assms(2))

lemma new_makes: "compiling pat p' k s \<Longrightarrow> p < p' \<Longrightarrow> wp (trex_newnode type) (makes_node pat p k) (\<lambda>_. True) s"
  by (erule wp_newnode, erule makes_nodeI) simp_all

section \<open>Characters and classes\<close>

lemma wp_escapechar:
  assumes "compiling pat p k s" and safe: "safe_pattern pat" and Q: "\<And>t p' r. compiling pat p' k t \<Longrightarrow> p < p' \<Longrightarrow> Q r t"
  shows "wp trex_escapechar Q (\<lambda>_. True) s"
  unfolding trex_escapechar_def using assms(1)
  by - (rule vcg | erule steps | fastforce intro: inside Q dest: escape_inside [OF safe])+

lemma charclass_makes: "compiling pat p' k s \<Longrightarrow> p < p' \<Longrightarrow> wp (trex_charclass c) (makes_node pat p k) (\<lambda>_. True) s"
  unfolding trex_charclass_def
  by (rule vcg | erule steps | erule makes_nodeI | simp)+

lemma charnode_makes:
  assumes "compiling pat p k s" and safe: "safe_pattern pat"
  shows "wp (trex_charnode isclass) (makes_node pat p k) (\<lambda>_. True) s"
  unfolding trex_charnode_def using assms(1)
  by - (rule vcg | erule new_makes charclass_makes steps | fastforce intro: inside makes_nodeI dest: escape_inside [OF safe])+

lemma wp_charnode:
  assumes "compiling pat p k s" and "safe_pattern pat"
    and "\<And>r t p' k'. compiling pat p' k' t \<Longrightarrow> p < p' \<Longrightarrow> k < k' \<Longrightarrow> 0 \<le> r \<Longrightarrow> r < int k' \<Longrightarrow> Q r t"
  shows "wp (trex_charnode isclass) Q (\<lambda>_. True) s"
  by (rule wp_makes [OF charnode_makes [OF assms(1,2)]]) (rule assms(3))

text \<open>A step that keeps or moves on the position, with the index of a node.\<close>

definition keeps_node :: "string \<Rightarrow> nat \<Rightarrow> nat \<Rightarrow> int \<Rightarrow> trex \<Rightarrow> bool" where
  "keeps_node pat p k r t \<longleftrightarrow> (\<exists>p' k'. compiling pat p' k' t \<and> p \<le> p' \<and> k \<le> k' \<and> 0 \<le> r \<and> r < int k')"

lemma keeps_nodeI: "compiling pat p' k' t \<Longrightarrow> p \<le> p' \<Longrightarrow> k \<le> k' \<Longrightarrow> 0 \<le> r \<Longrightarrow> r < int k' \<Longrightarrow> keeps_node pat p k r t"
  by (auto simp: keeps_node_def)

definition class_end :: "string \<Rightarrow> nat \<Rightarrow> nat \<Rightarrow> int \<times> int \<Rightarrow> trex \<Rightarrow> bool" where
  "class_end pat p k r t \<longleftrightarrow> (\<exists>p' k'. compiling pat p' k' t \<and> p \<le> p' \<and> k \<le> k' \<and> (fst r = - 1 \<or> 0 \<le> fst r \<and> fst r < int k') \<and> 0 \<le> snd r \<and> snd r < int k')"

lemma class_endI:
  "compiling pat p' k' t \<Longrightarrow> p \<le> p' \<Longrightarrow> k \<le> k' \<Longrightarrow> f = - 1 \<or> 0 \<le> f \<and> f < int k' \<Longrightarrow> 0 \<le> c \<Longrightarrow> c < int k' \<Longrightarrow> class_end pat p k (f, c) t"
  by (auto simp: class_end_def)

lemma class_loop_end:
  assumes safe: "safe_pattern pat"
  shows "compiling pat p k s \<Longrightarrow> p0 \<le> p \<Longrightarrow> k0 \<le> k \<Longrightarrow> f = - 1 \<or> 0 \<le> f \<and> f < int k \<Longrightarrow> 0 \<le> c \<Longrightarrow> c < int k \<Longrightarrow> length pat + 1 \<le> n + p \<Longrightarrow>
    wp (class_loop n f c) (class_end pat p0 k0) (\<lambda>_. True) s"
proof (induction n arbitrary: p k s f c)
  case 0
  then show ?case by (simp add: compiling_def)
next
  case (Suc n)
  show ?case
    unfolding class_loop.simps using Suc.prems
    by - (rule vcg | erule steps wp_node_at wp_escapechar [OF _ safe] wp_charnode [OF _ safe] Suc.IH | (rule class_endI; assumption)
      | (simp; fail) | fastforce intro: inside)+
qed

lemma wp_class_loop:
  assumes "compiling pat p k s" and "safe_pattern pat" and "0 \<le> c" and "c < int k"
    and "\<And>f c t p' k'. compiling pat p' k' t \<Longrightarrow> p \<le> p' \<Longrightarrow> k \<le> k' \<Longrightarrow> f = - 1 \<or> 0 \<le> f \<and> f < int k' \<Longrightarrow> 0 \<le> c \<Longrightarrow> c < int k' \<Longrightarrow> Q (f, c) t"
  shows "wp (bind (gets (\<lambda>s. length (rx_pattern s) + 2)) (\<lambda>n. class_loop n (- 1) c)) Q (\<lambda>_. True) s"
proof -
  have "rx_pattern s = pat" using assms(1) by (simp add: compiling_def)
  moreover have "wp (class_loop (length pat + 2) (- 1) c) (class_end pat p k) (\<lambda>_. True) s"
    by (rule class_loop_end [OF assms(2,1)]) (use assms(3,4) in simp_all)
  ultimately have "wp (class_loop (length (rx_pattern s) + 2) (- 1) c) (class_end pat p k) (\<lambda>_. True) s" by simp
  then have "wp (class_loop (length (rx_pattern s) + 2) (- 1) c) Q (\<lambda>_. True) s"
  proof (rule wp_mono)
    fix r t
    assume "class_end pat p k r t"
    then show "Q r t" unfolding class_end_def by (cases r) (auto simp only: fst_conv snd_conv intro: assms(5))
  qed simp
  then show ?thesis by (simp only: wp_bind wp_gets)
qed

lemma class_makes:
  assumes "compiling pat p k s" and safe: "safe_pattern pat" and "p0 < p"
  shows "wp trex_class (makes_node pat p0 k) (\<lambda>_. True) s"
  unfolding trex_class_def using assms(1,3)
  by - (erule wp_class_loop [OF _ safe] | rule vcg | erule steps | (simp only: case_prod_conv, (rule vcg | erule steps)) | erule makes_nodeI
     | (simp; fail) | fastforce intro: inside)+

section \<open>Elements and lists\<close>

lemma safe_no_brace: "safe_pattern pat \<Longrightarrow> text_at pat p \<noteq> CHR ''{''"
  by (auto simp: safe_pattern_def text_at_def dest: nth_mem)

lemma repetition:
  assumes "compiling pat p k s" and "safe_pattern pat"
  shows "wp trex_repetition (\<lambda>g t. (\<exists>p'. compiling pat p' k t \<and> p \<le> p') \<and> (\<forall>p0 p1. g = Some (p0, p1) \<longrightarrow> p0 * 65536 \<le> INT_MAX)) (\<lambda>_. True) s"
  unfolding trex_repetition_def using assms(1) safe_no_brace [OF assms(2), of p]
  by - (rule vcg | erule steps | (simp add: INT_MAX_def; fail) | fastforce intro: inside simp: INT_MAX_def)+

lemma wp_greedy:
  assumes "compiling pat p k s" and "safe_pattern pat" and "0 \<le> r" and "r < int k"
    and Q: "\<And>r t p' k'. compiling pat p' k' t \<Longrightarrow> p \<le> p' \<Longrightarrow> k \<le> k' \<Longrightarrow> 0 \<le> r \<Longrightarrow> r < int k' \<Longrightarrow> Q r t"
  shows "wp (trex_greedy r) Q (\<lambda>_. True) s"
  unfolding trex_greedy_def
proof (rule vcg, rule wp_mono [OF repetition [OF assms(1,2)]])
  fix g :: "(int \<times> int) option" and t
  assume g: "(\<exists>p'. compiling pat p' k t \<and> p \<le> p') \<and> (\<forall>p0 p1. g = Some (p0, p1) \<longrightarrow> p0 * 65536 \<le> INT_MAX)"
  then obtain p' where t: "compiling pat p' k t" "p \<le> p'" by blast
  show "wp (case g of None \<Rightarrow> ret r | Some (p0, p1) \<Rightarrow> bind (trex_newnode OP_GREEDY) (\<lambda>nnode.
      seq (set_node nnode (\<lambda>x. x\<lparr>nleft := r\<rparr>)) (seq (defined_if (p0 * 65536 \<le> INT_MAX))
     (seq (set_node nnode (\<lambda>x. x\<lparr>nright := p0 * 65536 + p1\<rparr>)) (ret nnode))))) Q (\<lambda>_. True) t"
    using t assms(3,4) g
    by - (rule vcg | erule steps | (simp; fail) | (erule Q; simp; fail))+
qed simp

lemma wp_class:
  assumes "compiling pat p k s" and "safe_pattern pat" and "0 < p"
    and "\<And>r t p' k'. compiling pat p' k' t \<Longrightarrow> p \<le> p' \<Longrightarrow> k < k' \<Longrightarrow> 0 \<le> r \<Longrightarrow> r < int k' \<Longrightarrow> Q r t"
  shows "wp trex_class Q (\<lambda>_. True) s"
  by (rule wp_makes [OF class_makes [OF assms(1,2), of "p - 1"]]) (use assms(3) in \<open>auto intro: assms(4)\<close>)

text \<open>With fuel for the rest of the pattern.\<close>

lemma list_and_element:
  assumes safe: "safe_pattern pat"
  shows "(compiling pat p k s \<longrightarrow> 2 * length pat + 2 \<le> n + 2 * p \<longrightarrow> wp (trex_list n) (makes_node pat p k) (\<lambda>_. True) s) \<and>
    (compiling pat p k s \<longrightarrow> 2 * length pat + 1 \<le> n + 2 * p \<longrightarrow> wp (trex_element n) (makes_node pat p k) (\<lambda>_. True) s)"
proof (induction n arbitrary: p k s)
  case 0
  then show ?case by (auto simp: compiling_def)
next
  case (Suc n)
  have list: "wp (trex_list n) Q (\<lambda>_. True) s"
    if "compiling pat p k s" and "\<And>r t p' k'. compiling pat p' k' t \<Longrightarrow> p < p' \<Longrightarrow> k < k' \<Longrightarrow> 0 \<le> r \<Longrightarrow> r < int k' \<Longrightarrow> Q r t"
      and "2 * length pat + 2 \<le> n + 2 * p" for p k s Q
    by (rule wp_makes [of "trex_list n" pat p k]) (use Suc.IH that(1,3) in blast, rule that(2))
  have element: "wp (trex_element n) Q (\<lambda>_. True) s"
    if "compiling pat p k s" and "\<And>r t p' k'. compiling pat p' k' t \<Longrightarrow> p < p' \<Longrightarrow> k < k' \<Longrightarrow> 0 \<le> r \<Longrightarrow> r < int k' \<Longrightarrow> Q r t"
      and "2 * length pat + 1 \<le> n + 2 * p" for p k s Q
    by (rule wp_makes [of "trex_element n" pat p k]) (use Suc.IH that(1,3) in blast, rule that(2))
  have l: "wp (trex_list (Suc n)) (makes_node pat p k) (\<lambda>_. True) s" if "compiling pat p k s" "2 * length pat + 2 \<le> Suc n + 2 * p"
    unfolding trex_list.simps using that
    by - (rule vcg | erule steps element list | erule makes_nodeI | (simp; fail) | fastforce intro: inside)+
  moreover have "wp (trex_element (Suc n)) (makes_node pat p k) (\<lambda>_. True) s" if "compiling pat p k s" "2 * length pat + 1 \<le> Suc n + 2 * p"
    unfolding trex_element.simps using that
    by - (rule vcg | erule steps element list wp_class [OF _ safe] wp_greedy [OF _ safe] wp_charnode [OF _ safe] | erule makes_nodeI | (simp; fail) | fastforce intro: inside)+
  ultimately show ?case by blast
qed

section \<open>The whole compilation\<close>

lemma compile_body_ok:
  assumes "safe_pattern pat"
  shows "wp compile_body (\<lambda>_ t. rx_pattern t = pat \<and> length (rx_nodes t) \<le> rx_nallocated t) (\<lambda>_. True) (new_trex pat icase)"
proof -
  let ?Q = "\<lambda>(_ :: unit) t. rx_pattern t = pat \<and> length (rx_nodes t) \<le> rx_nallocated t"
  have start: "compiling pat 0 0 (new_trex pat icase)" using assms by (simp add: compiling_def new_trex_def safe_pattern_def)
  have list: "wp (bind (gets (\<lambda>s. 2 * length (rx_pattern s) + 3)) trex_list) Q (\<lambda>_. True) s"
    if "compiling pat 0 k s" and "\<And>r t p' k'. compiling pat p' k' t \<Longrightarrow> k < k' \<Longrightarrow> 0 \<le> r \<Longrightarrow> r < int k' \<Longrightarrow> Q r t" for s k Q
  proof -
    have "rx_pattern s = pat" using that(1) by (simp add: compiling_def)
    then have "wp (trex_list (2 * length (rx_pattern s) + 3)) (makes_node pat 0 k) (\<lambda>_. True) s"
      using list_and_element [OF assms, of 0 k s] that(1) by simp
    then have "wp (trex_list (2 * length (rx_pattern s) + 3)) Q (\<lambda>_. True) s" by (rule wp_makes) (rule that(2))
    then show ?thesis by (simp only: wp_bind wp_gets)
  qed
  have first: "wp (modify (\<lambda>s. s\<lparr>rx_first := i\<rparr>)) Q (\<lambda>_. True) s"
    if "compiling pat p k s" and "\<And>t. compiling pat p k t \<Longrightarrow> Q () t" for i p k s Q
    unfolding wp_modify by (rule that(2)) (use that(1) in \<open>simp add: compiling_def\<close>)
  show ?thesis
    unfolding compile_body_def using start
    by - (erule list first | rule vcg | erule steps | (simp; fail) | (simp add: compiling_def; fail))+
qed

text \<open>C36: unless the pattern is empty, ends in a backslash or has an opening brace, \<open>trex_compile\<close> returns: it never writes behind the array of nodes it
  has allocated or reads behind the terminator of the pattern, and its recursion ends; the result is an expression whose nodes fit into the array, or an error.
  (\<open>isprint\<close> of a negative \<open>char\<close> is taken to be false, see \<open>Ctype\<close>; ISO C does not define it.)
\<close>

theorem trex_compile_returns:
  assumes "safe_pattern pat"
  shows "\<exists>r. trex_compile pat icase () = Returns r () \<and>
    (\<forall>e. r = Compiled e \<longrightarrow> rx_pattern e = pat \<and> length (rx_nodes e) \<le> rx_nallocated e)"
  using compile_body_ok [OF assms, of icase] by (auto simp: trex_compile_def wp_def split: outcome.splits)

theorem trex_compile_returns_witness:
  "\<exists>r. trex_compile ''(a|[b-d])*.$'' True () = Returns r () \<and>
    (\<forall>e. r = Compiled e \<longrightarrow> rx_pattern e = ''(a|[b-d])*.$'' \<and> length (rx_nodes e) \<le> rx_nallocated e)"
  by (rule trex_compile_returns) (simp add: safe_pattern_def)

end
