(* ===== verification/ArgRexMatch.thy ===== *)
theory ArgRexMatch
  imports ArgRexProps
begin

text \<open>
  A pattern of characters without a meaning of their own matches exactly itself; with the flag for it, in any case. Two arguments for which the
  scanner has undefined behaviour.
\<close>

section \<open>The nodes of a plain pattern\<close>

definition plain :: "char \<Rightarrow> bool" where
  "plain c \<longleftrightarrow> isprint c \<and> c \<notin> {CHR 0x5C, CHR ''('', CHR '')'', CHR ''['', CHR ''$'', CHR ''.'', CHR ''*'', CHR ''+'', CHR ''?'', CHR ''{'', CHR ''|'', CHR 0x5E}"

definition plain_node :: "string \<Rightarrow> nat \<Rightarrow> trex_node" where
  "plain_node pat i = \<lparr>ntype = schar (pat ! i), nleft = - 1, nright = - 1, nnext = (if i + 1 < length pat then int i + 2 else - 1)\<rparr>"

lemma plain_ascii: "plain c \<Longrightarrow> 32 \<le> code_of c \<and> code_of c < 127"
  by (simp add: plain_def isprint_def)

lemma plain_schar: "plain c \<Longrightarrow> schar c = int (code_of c)"
  using plain_ascii [of c] by (simp add: schar_def)

text \<open>One character and what follows it.\<close>

lemma wp_newnode_state:
  assumes "length (rx_nodes s) \<le> rx_nallocated s" and "0 < rx_nallocated s" and "type \<noteq> OP_EXPR"
    and Q: "\<And>a. length (rx_nodes s) + 1 \<le> a \<Longrightarrow>
      Q (int (length (rx_nodes s))) (s\<lparr>rx_nallocated := a, rx_nodes := rx_nodes s @ [\<lparr>ntype = type, nleft = - 1, nright = - 1, nnext = - 1\<rparr>]\<rparr>)"
  shows "wp (trex_newnode type) Q E s"
proof (cases "rx_nallocated s < length (rx_nodes s) + 1")
  case True
  then show ?thesis using assms(1-3) Q [of "rx_nallocated s * 2"] by (simp add: trex_newnode_def wp_simps)
next
  case False
  have "s\<lparr>rx_nallocated := rx_nallocated s, rx_nodes := ns\<rparr> = s\<lparr>rx_nodes := ns\<rparr>" for ns by simp
  then show ?thesis using False assms(1-3) Q [of "rx_nallocated s"] by (simp add: trex_newnode_def wp_simps)
qed

lemma plain_charnode:
  assumes "text_at (rx_pattern s) (rx_p s) = c" and "plain c" and "rx_p s < length (rx_pattern s)"
  shows "wp (trex_charnode False) Q E s = wp (trex_newnode (schar c)) Q E (s\<lparr>rx_p := rx_p s + 1\<rparr>)"
  using assms by (simp add: trex_charnode_def wp_simps peek_def advance_def plain_def)

lemma no_repetition:
  assumes "rx_p s \<le> length (rx_pattern s)" and "text_at (rx_pattern s) (rx_p s) \<notin> {CHR ''*'', CHR ''+'', CHR ''?'', CHR ''{''}"
  shows "wp (trex_greedy r) Q E s = Q r s"
  using assms by (simp add: trex_greedy_def trex_repetition_def wp_simps peek_def)

lemma peek_state: "rx_p s \<le> length (rx_pattern s) \<Longrightarrow> wp peek Q E s = Q (text_at (rx_pattern s) (rx_p s)) s"
  by (simp add: peek_def wp_simps)

lemma plain_element:
  assumes "list_all plain pat" and "p < length pat" and "length pat \<le> n + p"
    and "rx_pattern s = pat" and "rx_p s = p" and "length (rx_nodes s) = p + 1" and "p + 1 \<le> rx_nallocated s"
    and "\<And>a. length pat + 1 \<le> a \<Longrightarrow> Q (int p + 1) (s\<lparr>rx_p := length pat, rx_nallocated := a, rx_nodes := rx_nodes s @ map (plain_node pat) [p..<length pat]\<rparr>)"
  shows "wp (trex_element n) Q E s"
  using assms
proof (induction n arbitrary: p s Q)
  case (Suc n)
  let ?c = "pat ! p"
  let ?new = "\<lparr>ntype = schar ?c, nleft = - 1, nright = - 1, nnext = - 1\<rparr>"
  have c: "text_at pat p = ?c" "plain ?c" using Suc.prems(1,2) by (simp_all add: text_at_def list_all_length)
  then have nc: "?c \<noteq> CHR ''(''" "?c \<noteq> CHR ''[''" "?c \<noteq> CHR ''$''" "?c \<noteq> CHR ''.''" by (auto simp: plain_def)
  have type: "schar ?c \<noteq> OP_EXPR" using plain_schar [OF c(2)] plain_ascii [OF c(2)] by (simp add: op_defs)
  have elem: "wp (trex_element (Suc n)) Q E s = wp (trex_newnode (schar ?c)) (\<lambda>r. wp (trex_greedy r) (\<lambda>r. wp peek (\<lambda>c. wp (
      if \<not> ends_element c then bind (trex_element n) (\<lambda>nnode. seq (set_node r (\<lambda>x. x\<lparr>nnext := nnode\<rparr>)) (ret r)) else ret r) Q E) E) E) E (s\<lparr>rx_p := p + 1\<rparr>)"
    using Suc.prems(2,4,5) c nc by (simp add: trex_element.simps wp_bind peek_state plain_charnode)
  show ?case
  proof (cases "p + 1 = length pat")
    case True
    then have nul: "text_at pat (p + 1) = CHR 0x00" and len: "length pat = p + 1" by (simp_all add: text_at_def)
    have "map (plain_node pat) [p..<length pat] = [?new]" using True Suc.prems(2) by (simp add: plain_node_def upt_rec)
    then show ?thesis
      unfolding elem using Suc.prems(4-8) nul by (intro wp_newnode_state [OF _ _ type]) (simp_all add: len add.commute no_repetition peek_state ends_element_def wp_simps)
  next
    case False
    then have p1: "p + 1 < length pat" using Suc.prems(2) by simp
    then have d: "text_at pat (p + 1) = pat ! (p + 1)" "plain (pat ! (p + 1))" using Suc.prems(1) by (simp_all add: text_at_def list_all_length)
    then have nd: "pat ! (p + 1) \<notin> {CHR ''*'', CHR ''+'', CHR ''?'', CHR ''{''}" "\<not> ends_element (pat ! (p + 1))"
      using plain_ascii [OF d(2)] by (auto simp: plain_def ends_element_def code_of_def)
    have nodes: "map (plain_node pat) [p..<length pat] = ?new\<lparr>nnext := 2 + int p\<rparr> # map (plain_node pat) [p + 1..<length pat]"
      using p1 Suc.prems(2) by (subst upt_rec) (simp add: plain_node_def)
    have step: "wp (trex_element n) (\<lambda>r t. wp (set_node (int p + 1) (\<lambda>x. x\<lparr>nnext := r\<rparr>)) (\<lambda>_. Q (int p + 1)) E t) E
        (s\<lparr>rx_p := p + 1, rx_nallocated := a, rx_nodes := rx_nodes s @ [?new]\<rparr>)" if "p + 2 \<le> a" for a
    proof (rule Suc.IH [of "p + 1"])
      fix b
      assume b: "length pat + 1 \<le> b"
      have "(rx_nodes s @ ?new # ns)[p + 1 := ?new\<lparr>nnext := 2 + int p\<rparr>] = rx_nodes s @ ?new\<lparr>nnext := 2 + int p\<rparr> # ns" for ns
        using Suc.prems(6) by (simp add: list_update_append)
      moreover have "(rx_nodes s @ ?new # ns) ! (p + 1) = ?new" for ns using Suc.prems(6) by (simp add: nth_append)
      ultimately show "wp (set_node (int p + 1) (\<lambda>x. x\<lparr>nnext := int (p + 1) + 1\<rparr>)) (\<lambda>_. Q (int p + 1)) E
          (s\<lparr>rx_p := p + 1, rx_nallocated := a, rx_nodes := rx_nodes s @ [?new]\<rparr>\<lparr>rx_p := length pat, rx_nallocated := b,
             rx_nodes := rx_nodes (s\<lparr>rx_p := p + 1, rx_nallocated := a, rx_nodes := rx_nodes s @ [?new]\<rparr>) @ map (plain_node pat) [p + 1..<length pat]\<rparr>)"
        using Suc.prems(8) [OF b] Suc.prems(6) p1 unfolding nodes
        by (simp add: set_node_def node_at_def wp_simps nat_add_distrib del: upt_Suc)
    qed (use Suc.prems p1 that in simp_all)
    show ?thesis
      unfolding elem using Suc.prems(4-7) nd d(1) p1 step
      by (intro wp_newnode_state [OF _ _ type]) (simp_all add: no_repetition peek_state wp_simps add.commute)
  qed
qed simp

text \<open>The expression: its nodes are the one of the whole and those of the characters.\<close>

definition plain_nodes :: "string \<Rightarrow> trex_node list" where
  "plain_nodes pat = \<lparr>ntype = OP_EXPR, nleft = 1, nright = 0, nnext = - 1\<rparr> # map (plain_node pat) [0..<length pat]"

lemma plain_compile:
  assumes "list_all plain pat" and "pat \<noteq> ''''"
  shows "\<exists>e. trex_compile pat icase () = Returns (Compiled e) () \<and> rx_nodes e = plain_nodes pat \<and> rx_icase e = icase \<and> length (rx_matches e) = 1"
proof -
  let ?E = "\<lparr>ntype = OP_EXPR, nleft = - 1, nright = 0, nnext = - 1\<rparr>"
  let ?Q = "\<lambda>(_ :: unit) e. rx_nodes e = plain_nodes pat \<and> rx_icase e = icase \<and> length (rx_matches e) = 1"
  have c: "text_at pat 0 = pat ! 0" "plain (pat ! 0)" using assms by (simp_all add: text_at_def list_all_length)
  then have nc: "pat ! 0 \<noteq> CHR 0x5E" by (auto simp: plain_def)
  have end_: "text_at pat (length pat) = CHR 0x00" by (simp add: text_at_def)
  have list: "wp (trex_list m) Q E s"
    if m: "length pat + 1 \<le> m" and s: "rx_pattern s = pat" "rx_p s = 0" "rx_nodes s = [?E]" "1 \<le> rx_nallocated s"
      and Q: "\<And>a. Q 1 (s\<lparr>rx_p := length pat, rx_nallocated := a, rx_nodes := ?E # map (plain_node pat) [0..<length pat]\<rparr>)" for m Q E s
  proof -
    obtain n where n: "m = Suc n" "length pat \<le> n" using m by (cases m) auto
    have "wp (trex_element n) (\<lambda>r. wp peek (\<lambda>c. wp (if c = CHR ''|'' then
        seq advance (bind (trex_newnode OP_OR) (\<lambda>temp. seq (set_node temp (\<lambda>x. x\<lparr>nleft := r\<rparr>))
          (bind (trex_list n) (\<lambda>tright. seq (set_node temp (\<lambda>x. x\<lparr>nright := tright\<rparr>)) (ret temp))))) else ret r) Q E) E) E s"
      by (rule plain_element [OF assms(1), of 0]) (use s n assms(2) Q end_ in \<open>simp_all add: peek_state wp_simps\<close>)
    then show ?thesis unfolding n(1) using s nc c(1) by (simp add: wp_bind peek_state wp_ret)
  qed
  have "wp compile_body ?Q (\<lambda>_. False) (new_trex pat icase)"
    using assms(2) unfolding compile_body_def
    by (simp add: wp_simps trex_newnode_def new_trex_def)
      (rule list; simp add: set_node_def node_at_def peek_state wp_simps plain_nodes_def end_ Suc_le_eq)
  then show ?thesis by (auto simp: trex_compile_def wp_returns_iff)
qed

section \<open>Matching\<close>

declare trex_matchnode.simps [simp del]

definition same_char :: "bool \<Rightarrow> char \<Rightarrow> char \<Rightarrow> bool" where
  "same_char icase c d \<longleftrightarrow> (if icase then tolower c = tolower d else c = d)"

lemma schar_eq: "schar c = schar d \<longleftrightarrow> c = d"
proof -
  have "schar c = schar d \<Longrightarrow> code_of c = code_of d" using code_of_less [of c] code_of_less [of d] by (auto simp: schar_def split: if_splits)
  then show ?thesis by auto
qed

lemma schar_tolower: "plain d \<Longrightarrow> tolower_int (schar d) = schar (tolower d)"
  using plain_ascii [of d] by (auto simp: schar_def tolower_int_def tolower_def isupper_def)

lemma schar_toupper: "plain d \<Longrightarrow> toupper_int (schar d) = schar (toupper d)"
  using plain_ascii [of d] by (auto simp: schar_def toupper_int_def toupper_def islower_def)

lemma same_lower: "tolower c = tolower d \<longleftrightarrow> c = tolower d \<or> c = toupper d"
  using code_of_less [of c] code_of_less [of d]
  by (auto simp: tolower_def toupper_def isupper_def islower_def simp flip: code_of_eq)

lemma same_char_node:
  assumes "plain d"
  shows "(icase \<and> schar c \<noteq> tolower_int (schar d) \<and> schar c \<noteq> toupper_int (schar d) \<or> \<not> icase \<and> schar c \<noteq> schar d) \<longleftrightarrow> \<not> same_char icase c d"
  using assms by (auto simp: same_char_def schar_tolower schar_toupper schar_eq same_lower)

lemma same_char_inside:
  assumes "plain d" and "same_char icase (text_at txt j) d"
  shows "j < length txt"
proof (rule ccontr)
  assume "\<not> j < length txt"
  then have "same_char icase CHR 0x00 d" using assms(2) by (simp add: text_at_def)
  then have "code_of (tolower CHR 0x00) = code_of (tolower d)" by (auto simp: same_char_def split: if_splits)
  moreover have "code_of (tolower CHR 0x00) = 0" by (simp add: tolower_def isupper_def code_of_def)
  moreover have "code_of (tolower d) \<noteq> 0" using plain_ascii [OF assms(1)] by (simp add: tolower_def isupper_def)
  ultimately show False by simp
qed

primrec matches_from :: "bool \<Rightarrow> string \<Rightarrow> nat \<Rightarrow> string \<Rightarrow> bool" where
  "matches_from icase txt j [] = True"
| "matches_from icase txt j (c # cs) = (same_char icase (text_at txt j) c \<and> matches_from icase txt (j + 1) cs)"

lemma matches_all:
  assumes "list_all plain cs" and "j \<le> length txt"
  shows "matches_from icase txt j cs \<and> j + length cs = length txt \<longleftrightarrow> list_all2 (same_char icase) (drop j txt) cs"
  using assms
proof (induction cs arbitrary: j)
  case (Cons c cs)
  show ?case
  proof (cases "j < length txt")
    case True
    then show ?thesis
      using Cons.IH [of "j + 1"] Cons.prems by (subst Cons_nth_drop_Suc [symmetric]) (simp_all add: text_at_def)
  next
    case False
    then show ?thesis using Cons.prems same_char_inside [of c icase "txt" j] by auto
  qed
qed (simp add: eq_commute)

lemma wp_plain_node:
  assumes "list_all plain pat" and "rx_nodes s = plain_nodes pat" and "i < length pat" and "j \<le> length (rx_text s)"
  shows "wp (trex_matchnode (Suc m) (int i + 1) j nx) Q E s = Q (if same_char (rx_icase s) (text_at (rx_text s) j) (pat ! i) then Some (j + 1) else None) s"
proof -
  have d: "plain (pat ! i)" using assms(1,3) by (simp add: list_all_length)
  have n: "plain_nodes pat ! (i + 1) = plain_node pat i" "length (plain_nodes pat) = length pat + 1" using assms(3) by (simp_all add: plain_nodes_def)
  have at: "wp (node_at (int i + 1)) Q E s = Q (plain_node pat i) s" for Q E
    using assms(2,3) n by (simp add: node_at_def wp_simps nat_add_distrib)
  have t: "ntype (plain_node pat i) = schar (pat ! i)" by (simp add: plain_node_def)
  have ops: "schar (pat ! i) \<notin> {OP_GREEDY, OP_OR, OP_EXPR, OP_NOCAPEXPR, OP_DOT, OP_CLASS, OP_CCLASS, OP_NCLASS, OP_EOL, OP_BOL, OP_WB}"
    using plain_schar [OF d] plain_ascii [OF d] by (simp add: op_defs)
  show ?thesis
    using ops same_char_node [OF d] assms(4)
    by (simp add: trex_matchnode.simps matchnode_cases_def wp_bind at t match_char_def text_char_def text_next_def wp_simps)
qed

lemma wp_plain_loop:
  assumes "list_all plain pat" and "rx_nodes s = plain_nodes pat" and "i < length pat" and "j \<le> length (rx_text s)" and "length pat \<le> k + i"
    and "length (rx_matches s) = 1" and "cap \<in> {- 1, 0}"
    and "\<And>ms. length ms = 1 \<Longrightarrow> Q (if matches_from (rx_icase s) (rx_text s) j (drop i pat) then Some (j + (length pat - i)) else None) (s\<lparr>rx_matches := ms\<rparr>)"
  shows "wp (expr_loop k (trex_matchnode (Suc m)) (int i + 1) j nx cap) Q E s"
  using assms
proof (induction k arbitrary: i j)
  case (Suc k)
  have d: "drop i pat = pat ! i # drop (i + 1) pat" "plain (pat ! i)" using Suc.prems(1,3) by (simp_all add: Cons_nth_drop_Suc list_all_length)
  have at: "wp (node_at (int i + 1)) Q E s = Q (plain_node pat i) s" for Q E
    using Suc.prems(2,3) by (simp add: node_at_def wp_simps nat_add_distrib plain_nodes_def)
  have keep: "s\<lparr>rx_matches := rx_matches s\<rparr> = s" by simp
  show ?case
  proof (cases "same_char (rx_icase s) (text_at (rx_text s) j) (pat ! i)")
    case False
    then show ?thesis
      using Suc.prems(2,3,6,7) Suc.prems(8) [of "rx_matches s"] Suc.prems(8) [of "(rx_matches s)[0 := (rx_matches s ! 0)\<lparr>match_begin := None, match_len := 0\<rparr>]"] d
      by (auto simp: wp_bind at wp_plain_node [OF Suc.prems(1-4)] set_match_def wp_simps)
  next
    case True
    have j: "j < length (rx_text s)" using same_char_inside [OF d(2) True] .
    show ?thesis
    proof (cases "i + 1 < length pat")
      case False
      then have "j + (length pat - i) = Suc j" using Suc.prems(3) by simp
      then show ?thesis
        using False True Suc.prems(3,6) Suc.prems(8) [of "rx_matches s"] d
        by (simp add: wp_bind at wp_plain_node [OF Suc.prems(1-4)] plain_node_def wp_ret)
    next
      case next_: True
      have "wp (expr_loop k (trex_matchnode (Suc m)) (int (i + 1) + 1) (j + 1) nx cap) Q E s"
      proof (rule Suc.IH)
        fix ms :: "trex_match list"
        assume "length ms = 1"
        moreover have len: "j + 1 + (length pat - (i + 1)) = j + (length pat - i)" using next_ by simp
        ultimately show "Q (if matches_from (rx_icase s) (rx_text s) (j + 1) (drop (i + 1) pat) then Some (j + 1 + (length pat - (i + 1))) else None) (s\<lparr>rx_matches := ms\<rparr>)"
          using Suc.prems(8) [of ms] True unfolding d(1) len by (simp split del: if_split)
      qed (use Suc.prems(1,2,5-7) j next_ in simp_all)
      moreover have "int (i + 1) + 1 = int i + 2" by simp
      ultimately have "wp (expr_loop k (trex_matchnode (Suc m)) (int i + 2) (j + 1) nx cap) Q E s" by (simp only:)
      then show ?thesis
        using True next_ by (simp add: wp_bind at wp_plain_node [OF Suc.prems(1-4)] plain_node_def)
    qed
  qed
qed simp

lemma wp_plain_match:
  assumes "list_all plain pat" and "pat \<noteq> ''''" and "rx_nodes s = plain_nodes pat" and "length (rx_matches s) = 1"
  shows "wp (trex_match (m + 2) txt) (\<lambda>b _. b = list_all2 (same_char (rx_icase s)) txt pat) (\<lambda>_. False) s"
proof -
  let ?b = "matches_from (rx_icase s) txt 0 pat"
  have n0: "plain_nodes pat ! 0 = \<lparr>ntype = OP_EXPR, nleft = 1, nright = 0, nnext = - 1\<rparr>" "length (plain_nodes pat) = length pat + 1"
    by (simp_all add: plain_nodes_def)
  have b: "((if ?b then Some (length pat) else None) = Some (length txt)) \<longleftrightarrow> list_all2 (same_char (rx_icase s)) txt pat"
    using matches_all [OF assms(1), of 0 "txt" "rx_icase s"] by auto
  define v where "v = (if ?b then Some (length pat) else None)"
  have loop: "wp (expr_loop k (trex_matchnode (Suc m)) 1 0 None 0) Q E t"
    if "rx_nodes t = plain_nodes pat" "rx_text t = txt" "rx_icase t = rx_icase s" "length (rx_matches t) = 1" "length pat \<le> k"
      and "\<And>ms. length ms = 1 \<Longrightarrow> Q v (t\<lparr>rx_matches := ms\<rparr>)" for k t Q E
  proof -
    have "wp (expr_loop k (trex_matchnode (Suc m)) (int 0 + 1) 0 None 0) Q E t"
      by (rule wp_plain_loop [OF assms(1) that(1)]) (use that assms(2) in \<open>simp_all add: v_def split del: if_split cong: if_cong\<close>)
    then show ?thesis by simp
  qed
  have ne: "plain_nodes pat \<noteq> []" "rx_matches s \<noteq> []" using assms(4) by (auto simp: plain_nodes_def)
  have "wp (trex_match (m + 2) txt) (\<lambda>b _. b = (v = Some (length txt))) (\<lambda>_. False) s"
    using assms(3,4) n0 ne
    by (simp add: trex_match_def wp_simps trex_matchnode.simps(2) [of "Suc m"] matchnode_cases_def node_at_def match_expr_def op_defs Let_def set_match_def
        del: expr_loop.simps)
      (rule loop; cases v; auto simp: wp_simps set_match_def)
  then show ?thesis unfolding v_def b .
qed

text \<open>C38: an entry whose pattern is made of characters without a meaning accepts an argument exactly if it is the pattern, with the flag \<open>ARG_REX_ICASE\<close> up to
  the case of the letters; the argument is stored and counted, or the result is \<open>ARG_ERR_REGNOMATCH\<close> and the entry stays as it was.
\<close>

theorem arg_rex_plain_pattern:
  assumes "list_all plain pat" and "pat \<noteq> ''''" and "priv p = \<lparr>pattern = pat, icase_flag = icase\<rparr>" and "2 \<le> fuel"
    and "rex_count p < maxcount (rex_hdr p)" and "length (rex_sval p) = maxcount (rex_hdr p)"
  shows "arg_rex_scanfn fuel (Some a) p =
    (if list_all2 (same_char icase) a pat then Returns 0 (p\<lparr>rex_sval := (rex_sval p)[rex_count p := a], rex_count := rex_count p + 1\<rparr>)
     else Returns ARG_ERR_REGNOMATCH p)"
proof -
  obtain e where e: "trex_compile pat icase () = Returns (Compiled e) ()" "rx_nodes e = plain_nodes pat" "rx_icase e = icase" "length (rx_matches e) = 1"
    using plain_compile [OF assms(1,2)] by blast
  obtain m where m: "fuel = m + 2" using assms(4) by (metis add.commute le_Suc_ex)
  have "\<exists>t. trex_match fuel a e = Returns (list_all2 (same_char icase) a pat) t"
    using wp_plain_match [OF assms(1,2) e(2,4), of m a] e(3) by (auto simp: m wp_returns_iff)
  then have "rex_matches fuel (priv p) a p = Returns (list_all2 (same_char icase) a pat) p"
    using assms(3) e(1) by (auto simp: rex_matches_def)
  then show ?thesis
    using assms(5,6) by (simp add: arg_rex_scanfn_def bind_def gets_def seq_def defined_if_def ret_def modify_def)
qed

theorem arg_rex_plain_pattern_witness:
  "(case arg_rex1 None None (Some ''Yes'') None True None () of
     Returns (Some p) _ \<Rightarrow> arg_rex_scanfn 2 (Some ''yEs'') p = Returns 0 (p\<lparr>rex_sval := [''yEs''], rex_count := 1\<rparr>) | _ \<Rightarrow> False)"
proof -
  have "list_all plain ''Yes''" "list_all2 (same_char True) ''yEs'' ''Yes''" by code_simp+
  moreover obtain e where "trex_compile ''Yes'' True () = Returns (Compiled e) ()" using plain_compile [OF \<open>list_all plain ''Yes''\<close>] by blast
  ultimately show ?thesis
    using arg_rex_plain_pattern [of "''Yes''" _ True 2 "''yEs''"] by (simp add: arg_rex1_def arg_rexn_def bind_def ret_def)
qed

text \<open>An argument can bring about undefined behaviour: behind a dot the engine reads on after the end of the text, and an entry with a pattern that does
  not compile writes to the null pointer.
\<close>

theorem arg_rex_undefined:
  assumes "rex_count p < maxcount (rex_hdr p)"
  shows "(pattern (priv p) = ''.a'' \<longrightarrow> arg_rex_scanfn 9 (Some '''') p = Faults Undefined_Behaviour) \<and>
    (pattern (priv p) = ''('' \<longrightarrow> arg_rex_scanfn 9 (Some a) p = Faults Undefined_Behaviour)"
proof -
  have "rex_matches 9 \<lparr>pattern = ''.a'', icase_flag = f\<rparr> '''' q = Faults Undefined_Behaviour" for f q by code_simp
  moreover have "rex_matches 9 \<lparr>pattern = ''('', icase_flag = f\<rparr> a q = Faults Undefined_Behaviour" for f q by code_simp
  ultimately show ?thesis
    using assms by (cases "priv p") (auto simp: arg_rex_scanfn_def bind_def gets_def)
qed

theorem arg_rex_undefined_witness:
  "(case arg_rex1 None None (Some ''.a'') None False None () of
     Returns (Some p) _ \<Rightarrow> arg_rex_scanfn 9 (Some '''') p = Faults Undefined_Behaviour | _ \<Rightarrow> False)"
proof -
  have "\<exists>r. trex_compile ''.a'' False () = Returns r ()" using trex_compile_returns [of "''.a''" False] by (auto simp: safe_pattern_def)
  then show ?thesis
    using arg_rex_undefined by (auto simp: arg_rex1_def arg_rexn_def bind_def ret_def)
qed

end
