(* ===== verification/ArgRexUndefined.thy ===== *)
theory ArgRexUndefined
  imports ArgRexMatch
begin

text \<open>
  The exceptions of the theorem on \<open>trex_compile\<close> are real: the empty pattern, a backslash at the end and numbers of repetitions that overflow
  \<open>int\<close> are undefined behaviour, behind any characters without a meaning of their own.
\<close>

section \<open>Running into undefined behaviour\<close>





text \<open>At position \<open>p\<close> of the pattern.\<close>

definition at :: "string \<Rightarrow> nat \<Rightarrow> trex \<Rightarrow> bool" where
  "at pat p t \<longleftrightarrow> rx_pattern t = pat \<and> rx_p t = p"

lemma at_upd [simp]:
  "at pat p (t\<lparr>rx_nodes := ns\<rparr>) = at pat p t" "at pat p (t\<lparr>rx_nallocated := a\<rparr>) = at pat p t"
  "at pat p (t\<lparr>rx_nsubexpr := k\<rparr>) = at pat p t" "at pat p (t\<lparr>rx_first := i\<rparr>) = at pat p t"
  by (simp_all add: at_def)





section \<open>Behind plain characters\<close>








section \<open>A backslash at the end\<close>


section \<open>Numbers of repetitions\<close>

text \<open>The value of a string of digits.\<close>

definition decimal_from :: "int \<Rightarrow> string \<Rightarrow> int" where
  "decimal_from = foldl (\<lambda>r c. r * 10 + (schar c - 48))"


lemma decimal_from_simps [simp]:
  "decimal_from r [] = r" "decimal_from r (c # cs) = decimal_from (r * 10 + (schar c - 48)) cs"
  by (simp_all add: decimal_from_def)











section \<open>Properties\<close>



end
