(* ===== verification/ArgDate.thy ===== *)
theory ArgDate
  imports ArgOption "HOL-Library.Signed_Division"
begin

text \<open>
  Options with a date (\<open>arg_date\<close> and \<open>arg_strptime\<close> of \<^verbatim>\<open>cli/lib/argtable/argtable3.c\<close>). The state of the parser is the \<open>struct tm\<close> it fills; the
  pointer \<open>bp\<close> is the rest of the text. A call for a conversion that stands for others costs a unit of fuel; three are enough.
\<close>

section \<open>Comparing and reading numbers\<close>

primrec arg_strncasecmp :: "nat \<Rightarrow> string \<Rightarrow> string \<Rightarrow> int" where
  "arg_strncasecmp 0 s1 s2 = 0"
| "arg_strncasecmp (Suc n) s1 s2 =
     (let a = char0 s1; b = char0 s2 in
      if tolower a \<noteq> tolower b then int (code_of (tolower a)) - int (code_of (tolower b))
      else if a = CHR 0x00 then 0
      else arg_strncasecmp n (tl s1) (tl s2))"

fun arg_strcasecmp :: "string \<Rightarrow> string \<Rightarrow> int" where
  "arg_strcasecmp [] s2 = (if tolower (char0 s2) = tolower CHR 0x00 then 0 else int (code_of (tolower CHR 0x00)) - int (code_of (tolower (char0 s2))))"
| "arg_strcasecmp (a # s1) s2 =
     (if tolower a = tolower (char0 s2) then arg_strcasecmp s1 (tl s2) else int (code_of (tolower a)) - int (code_of (tolower (char0 s2))))"

text \<open>The loop of \<open>conv_num\<close>, at a digit; then the function with the value and the rest.\<close>

fun conv_digits :: "int \<Rightarrow> int \<Rightarrow> string \<Rightarrow> int \<Rightarrow> int \<times> string" where
  "conv_digits ulim rulim [] r = (r, [])"
| "conv_digits ulim rulim (c # buf) r =
     (let r = r * 10 + (int (code_of c) - 48); rulim = rulim div 10 in
      if r * 10 \<le> ulim \<and> rulim \<noteq> 0 \<and> isdigit (char0 buf) then conv_digits ulim rulim buf r else (r, buf))"

definition conv_num :: "string \<Rightarrow> int \<Rightarrow> int \<Rightarrow> (int \<times> string) option" where
  "conv_num buf llim ulim =
     (if \<not> isdigit (char0 buf) then None
      else (case conv_digits ulim ulim buf 0 of (r, buf) \<Rightarrow> if r < llim \<or> r > ulim then None else Some (r, buf)))"

section \<open>\<open>arg_strptime\<close>\<close>

record tm =
  tm_sec :: int
  tm_min :: int
  tm_hour :: int
  tm_mday :: int
  tm_mon :: int
  tm_year :: int
  tm_wday :: int
  tm_yday :: int
  tm_isdst :: int

definition ALT_E :: nat where "ALT_E = 1"
definition ALT_O :: nat where "ALT_O = 2"
definition TM_YEAR_BASE :: int where "TM_YEAR_BASE = 1900"

definition day_names :: "(string \<times> string) list" where
  "day_names = [(''Sunday'', ''Sun''), (''Monday'', ''Mon''), (''Tuesday'', ''Tue''), (''Wednesday'', ''Wed''), (''Thursday'', ''Thu''), (''Friday'', ''Fri''), (''Saturday'', ''Sat'')]"

definition month_names :: "(string \<times> string) list" where
  "month_names = [(''January'', ''Jan''), (''February'', ''Feb''), (''March'', ''Mar''), (''April'', ''Apr''), (''May'', ''May''), (''June'', ''Jun''),
     (''July'', ''Jul''), (''August'', ''Aug''), (''September'', ''Sep''), (''October'', ''Oct''), (''November'', ''Nov''), (''December'', ''Dec'')]"

text \<open>The first name that the text begins with, the full one before the abbreviation: its index and length.\<close>

fun find_name :: "(string \<times> string) list \<Rightarrow> string \<Rightarrow> int \<Rightarrow> (int \<times> nat) option" where
  "find_name [] bp i = None"
| "find_name ((full_name, abbr) # names) bp i =
     (if arg_strncasecmp (length full_name) full_name bp = 0 then Some (i, length full_name)
      else if arg_strncasecmp (length abbr) abbr bp = 0 then Some (i, length abbr)
      else find_name names bp (i + 1))"

text \<open>\<open>LEGAL_ALT\<close>: the modifiers the conversion does not allow end the function.\<close>

type_synonym converted = "(string \<times> bool) option"

definition LEGAL_ALT :: "nat list \<Rightarrow> nat \<Rightarrow> (tm, converted) cfun \<Rightarrow> (tm, converted) cfun" where
  "LEGAL_ALT xs alt m = (if alt = 0 \<or> alt \<in> set xs then m else ret None)"

definition number :: "string \<Rightarrow> int \<Rightarrow> int \<Rightarrow> bool \<Rightarrow> (int \<Rightarrow> tm \<Rightarrow> tm) \<Rightarrow> (tm, converted) cfun" where
  "number bp llim ulim split f = (case conv_num bp llim ulim of
      None \<Rightarrow> ret None
    | Some (i, bp) \<Rightarrow> seq (modify (f i)) (ret (Some (bp, split))))"

definition sub_format :: "(string \<Rightarrow> string \<Rightarrow> (tm, string option) cfun) \<Rightarrow> string \<Rightarrow> string \<Rightarrow> bool \<Rightarrow> (tm, converted) cfun" where
  "sub_format rec bp fmt split = bind (rec bp fmt) (\<lambda>r. ret (case r of None \<Rightarrow> None | Some bp \<Rightarrow> Some (bp, split)))"

definition conv_name :: "(string \<times> string) list \<Rightarrow> string \<Rightarrow> bool \<Rightarrow> (int \<Rightarrow> tm \<Rightarrow> tm) \<Rightarrow> (tm, converted) cfun" where
  "conv_name names bp split f = (case find_name names bp 0 of
      None \<Rightarrow> ret None
    | Some (i, len) \<Rightarrow> seq (modify (f i)) (ret (Some (drop len bp, split))))"

definition conv_am_pm :: "string \<Rightarrow> bool \<Rightarrow> (tm, converted) cfun" where
  "conv_am_pm bp split = bind (gets tm_hour) (\<lambda>hour.
     if arg_strcasecmp ''AM'' bp = 0 then (if hour > 11 then ret None else ret (Some (drop 2 bp, split)))
     else if arg_strcasecmp ''PM'' bp = 0 then
       (if hour > 11 then ret None else seq (modify (\<lambda>t. t\<lparr>tm_hour := hour + 12\<rparr>)) (ret (Some (drop 2 bp, split))))
     else ret None)"

definition conv_century :: "string \<Rightarrow> bool \<Rightarrow> (tm, converted) cfun" where
  "conv_century bp split = (case conv_num bp 0 99 of
      None \<Rightarrow> ret None
    | Some (i, bp) \<Rightarrow> seq (modify (\<lambda>t. t\<lparr>tm_year := (if split then tm_year t smod 100 + i * 100 else i * 100)\<rparr>)) (ret (Some (bp, True))))"

definition conv_year_of_century :: "string \<Rightarrow> bool \<Rightarrow> (tm, converted) cfun" where
  "conv_year_of_century bp split = (case conv_num bp 0 99 of
      None \<Rightarrow> ret None
    | Some (i, bp) \<Rightarrow>
        seq (modify (\<lambda>t. t\<lparr>tm_year :=
              (if split then (tm_year t sdiv 100) * 100 + i
               else if i \<le> 68 then i + 2000 - TM_YEAR_BASE else i + 1900 - TM_YEAR_BASE)\<rparr>))
            (ret (Some (bp, True))))"

text \<open>The conversions, given the function for the formats they stand for; \<open>split\<close> is \<open>split_year\<close>.\<close>

definition convert :: "(string \<Rightarrow> string \<Rightarrow> (tm, string option) cfun) \<Rightarrow> nat \<Rightarrow> char \<Rightarrow> string \<Rightarrow> bool \<Rightarrow> (tm, converted) cfun" where
  "convert rec alt c bp split =
     (if c = CHR ''c'' then LEGAL_ALT [ALT_E] alt (sub_format rec bp ''%x %X'' split)
      else if c = CHR ''D'' then LEGAL_ALT [] alt (sub_format rec bp ''%m/%d/%y'' split)
      else if c = CHR ''R'' then LEGAL_ALT [] alt (sub_format rec bp ''%H:%M'' split)
      else if c = CHR ''r'' then LEGAL_ALT [] alt (sub_format rec bp ''%I:%M:%S %p'' split)
      else if c = CHR ''T'' then LEGAL_ALT [] alt (sub_format rec bp ''%H:%M:%S'' split)
      else if c = CHR ''X'' then LEGAL_ALT [ALT_E] alt (sub_format rec bp ''%H:%M:%S'' split)
      else if c = CHR ''x'' then LEGAL_ALT [ALT_E] alt (sub_format rec bp ''%m/%d/%y'' split)
      else if c = CHR ''A'' \<or> c = CHR ''a'' then LEGAL_ALT [] alt (conv_name day_names bp split (\<lambda>i t. t\<lparr>tm_wday := i\<rparr>))
      else if c = CHR ''B'' \<or> c = CHR ''b'' \<or> c = CHR ''h'' then LEGAL_ALT [] alt (conv_name month_names bp split (\<lambda>i t. t\<lparr>tm_mon := i\<rparr>))
      else if c = CHR ''C'' then LEGAL_ALT [ALT_E] alt (conv_century bp split)
      else if c = CHR ''d'' \<or> c = CHR ''e'' then LEGAL_ALT [ALT_O] alt (number bp 1 31 split (\<lambda>i t. t\<lparr>tm_mday := i\<rparr>))
      else if c = CHR ''k'' then LEGAL_ALT [] alt (number bp 0 23 split (\<lambda>i t. t\<lparr>tm_hour := i\<rparr>))
      else if c = CHR ''H'' then LEGAL_ALT [ALT_O] alt (number bp 0 23 split (\<lambda>i t. t\<lparr>tm_hour := i\<rparr>))
      else if c = CHR ''l'' then LEGAL_ALT [] alt (number bp 1 12 split (\<lambda>i t. t\<lparr>tm_hour := (if i = 12 then 0 else i)\<rparr>))
      else if c = CHR ''I'' then LEGAL_ALT [ALT_O] alt (number bp 1 12 split (\<lambda>i t. t\<lparr>tm_hour := (if i = 12 then 0 else i)\<rparr>))
      else if c = CHR ''j'' then LEGAL_ALT [] alt (number bp 1 366 split (\<lambda>i t. t\<lparr>tm_yday := i - 1\<rparr>))
      else if c = CHR ''M'' then LEGAL_ALT [ALT_O] alt (number bp 0 59 split (\<lambda>i t. t\<lparr>tm_min := i\<rparr>))
      else if c = CHR ''m'' then LEGAL_ALT [ALT_O] alt (number bp 1 12 split (\<lambda>i t. t\<lparr>tm_mon := i - 1\<rparr>))
      else if c = CHR ''p'' then LEGAL_ALT [] alt (conv_am_pm bp split)
      else if c = CHR ''S'' then LEGAL_ALT [ALT_O] alt (number bp 0 61 split (\<lambda>i t. t\<lparr>tm_sec := i\<rparr>))
      else if c = CHR ''U'' \<or> c = CHR ''W'' then LEGAL_ALT [ALT_O] alt (number bp 0 53 split (\<lambda>i t. t))
      else if c = CHR ''w'' then LEGAL_ALT [ALT_O] alt (number bp 0 6 split (\<lambda>i t. t\<lparr>tm_wday := i\<rparr>))
      else if c = CHR ''Y'' then LEGAL_ALT [ALT_E] alt (number bp 0 9999 split (\<lambda>i t. t\<lparr>tm_year := i - TM_YEAR_BASE\<rparr>))
      else if c = CHR ''y'' then LEGAL_ALT [ALT_E, ALT_O] alt (conv_year_of_century bp split)
      else if c = CHR ''n'' \<or> c = CHR ''t'' then LEGAL_ALT [] alt (ret (Some (dropWhile isspace bp, split)))
      else ret None)"

text \<open>
  The loop over the format, and the part from \<open>again\<close> on, behind a percent sign. A literal character moves \<open>bp\<close> also when it does not match.
\<close>

fun strptime_loop :: "(string \<Rightarrow> string \<Rightarrow> (tm, string option) cfun) \<Rightarrow> string \<Rightarrow> string \<Rightarrow> bool \<Rightarrow> (tm, string option) cfun"
and strptime_again :: "(string \<Rightarrow> string \<Rightarrow> (tm, string option) cfun) \<Rightarrow> nat \<Rightarrow> string \<Rightarrow> string \<Rightarrow> bool \<Rightarrow> (tm, string option) cfun" where
  "strptime_loop rec [] bp split = ret (Some bp)"
| "strptime_loop rec (c # fmt) bp split =
     (if isspace c then strptime_loop rec fmt (dropWhile isspace bp) split
      else if c \<noteq> CHR ''%'' then (if c \<noteq> char0 bp then ret None else strptime_loop rec fmt (tl bp) split)
      else strptime_again rec 0 fmt bp split)"
| "strptime_again rec alt [] bp split = ret None"
| "strptime_again rec alt (c # fmt) bp split =
     (if c = CHR ''%'' then (if c \<noteq> char0 bp then ret None else strptime_loop rec fmt (tl bp) split)
      else if c = CHR ''E'' then (if alt \<noteq> 0 then ret None else strptime_again rec ALT_E fmt bp split)
      else if c = CHR ''O'' then (if alt \<noteq> 0 then ret None else strptime_again rec ALT_O fmt bp split)
      else bind (convert rec alt c bp split) (\<lambda>r. case r of
          None \<Rightarrow> ret None
        | Some (bp, split) \<Rightarrow> strptime_loop rec fmt bp split))"

primrec arg_strptime :: "nat \<Rightarrow> string \<Rightarrow> string \<Rightarrow> (tm, string option) cfun" where
  "arg_strptime 0 buf fmt = faults Out_Of_Fuel"
| "arg_strptime (Suc n) buf fmt = strptime_loop (arg_strptime n) fmt buf False"

section \<open>The entry and its functions\<close>

definition ARG_ERR_BADDATE :: int where "ARG_ERR_BADDATE = 6"

record arg_date =
  date_hdr :: arg_hdr
  date_format :: string
  date_count :: nat
  tmval :: "tm list"

definition arg_date_resetfn :: "(arg_date, unit) cfun" where
  "arg_date_resetfn = modify (\<lambda>p. p\<lparr>date_count := 0\<rparr>)"

text \<open>The local copy of the time is the state of the parser.\<close>

definition parse_date :: "string \<Rightarrow> string \<Rightarrow> tm \<Rightarrow> (arg_date, string option \<times> tm) cfun" where
  "parse_date argval fmt t = (\<lambda>p. case arg_strptime 3 argval fmt t of
      Returns r t \<Rightarrow> Returns (r, t) p | Throws e _ \<Rightarrow> Throws e p | Faults f \<Rightarrow> Faults f)"

definition arg_date_scanfn :: "string option \<Rightarrow> (arg_date, int) cfun" where
  "arg_date_scanfn argval = bind (gets id) (\<lambda>p.
     if date_count p = maxcount (date_hdr p) then ret ARG_ERR_MAXCOUNT
     else (case argval of
       None \<Rightarrow> seq (modify (\<lambda>p. p\<lparr>date_count := date_count p + 1\<rparr>)) (ret 0)
     | Some argval \<Rightarrow>
         seq (defined_if (date_count p < length (tmval p)))
        (bind (parse_date argval (date_format p) (tmval p ! date_count p)) (\<lambda>(pend, t).
         if pend = Some '''' then
           seq (modify (\<lambda>p. p\<lparr>tmval := (tmval p)[date_count p := t], date_count := date_count p + 1\<rparr>)) (ret 0)
         else ret ARG_ERR_BADDATE))))"

definition arg_date_checkfn :: "(arg_date, int) cfun" where
  "arg_date_checkfn = gets (\<lambda>p. if date_count p < mincount (date_hdr p) then ARG_ERR_MINCOUNT else 0)"

definition zero_tm :: tm where
  "zero_tm = \<lparr>tm_sec = 0, tm_min = 0, tm_hour = 0, tm_mday = 0, tm_mon = 0, tm_year = 0, tm_wday = 0, tm_yday = 0, tm_isdst = 0\<rparr>"

text \<open>The example in the error text is made by \<open>strftime\<close>; \<open>%F\<close> is no conversion of \<open>arg_strptime\<close>, so the time stays zero.\<close>

definition arg_date_errorfn :: "(string \<Rightarrow> tm \<Rightarrow> string) \<Rightarrow> arg_date \<Rightarrow> int \<Rightarrow> string option \<Rightarrow> string \<Rightarrow> string" where
  "arg_date_errorfn strftime p errorcode argval progname = (let h = date_hdr p; argval = or_empty argval in progname @ '': '' @
     (if errorcode = ARG_ERR_MINCOUNT then
        ''missing option '' @ arg_print_option_ds (shortopts h) (longopts h) (datatype_text h) (Some newline)
      else if errorcode = ARG_ERR_MAXCOUNT then
        ''excess option '' @ arg_print_option_ds (shortopts h) (longopts h) (Some argval) (Some newline)
      else if errorcode = ARG_ERR_BADDATE then
        ''illegal timestamp format '' @ quoted argval @ newline @
        (let t = (case arg_strptime 3 ''1999-12-31 23:59:59'' ''%F %H:%M:%S'' zero_tm of Returns r t \<Rightarrow> t | _ \<Rightarrow> zero_tm) in
         ''correct format is '' @ quoted (strftime (date_format p) t) @ newline)
      else ''''))"

definition arg_daten :: "string option \<Rightarrow> string option \<Rightarrow> string option \<Rightarrow> string option \<Rightarrow> nat \<Rightarrow> nat \<Rightarrow> string option \<Rightarrow> arg_date" where
  "arg_daten short long fmt dt minc maxc gloss =
     (let maxc = (if maxc < minc then minc else maxc); fmt = (case fmt of None \<Rightarrow> ''%x'' | Some f \<Rightarrow> f) in
      \<lparr>date_hdr = \<lparr>is_terminator = False, has_value = True, has_opt_value = False, shortopts = short, longopts = long,
         datatype_text = (if dt = None then Some fmt else dt), glossary = gloss, mincount = minc, maxcount = maxc\<rparr>,
       date_format = fmt, date_count = 0, tmval = replicate maxc zero_tm\<rparr>)"

definition arg_date0 :: "string option \<Rightarrow> string option \<Rightarrow> string option \<Rightarrow> string option \<Rightarrow> string option \<Rightarrow> arg_date" where
  "arg_date0 short long fmt dt gloss = arg_daten short long fmt dt 0 1 gloss"

definition arg_date1 :: "string option \<Rightarrow> string option \<Rightarrow> string option \<Rightarrow> string option \<Rightarrow> string option \<Rightarrow> arg_date" where
  "arg_date1 short long fmt dt gloss = arg_daten short long fmt dt 1 1 gloss"

section \<open>The contract of the option types\<close>

lemma parse_date_pure: "(\<And>r. Q r p) \<Longrightarrow> E p \<Longrightarrow> wlp (parse_date a fmt t) Q E p"
  by (simp add: parse_date_def wlp_def split: outcome.splits)

interpretation date_type: option_type date_hdr date_count arg_date_resetfn arg_date_scanfn arg_date_checkfn
proof (unfold_locales, goal_cases)
  case (2 a p)
  show ?case by (auto simp: arg_date_scanfn_def ARG_ERR_BADDATE_def ARG_ERR_MAXCOUNT_def wlp_simps Let_def split: option.splits prod.splits intro!: parse_date_pure)
qed (simp_all add: arg_date_resetfn_def arg_date_scanfn_def arg_date_checkfn_def ret_def gets_def bind_def modify_def wlp_def)

end
