(* ===== verification/ArgDateProps.thy ===== *)
theory ArgDateProps
  imports ArgDate
begin

text \<open>
  The date parser comes to an end with any format and any text and stores only times whose fields are in their ranges; it reads back dates that are
  written in the usual format.
\<close>

section \<open>The fields stay in their ranges\<close>

definition tm_ok :: "tm \<Rightarrow> bool" where
  "tm_ok t \<longleftrightarrow> tm_sec t \<in> {0..61} \<and> tm_min t \<in> {0..59} \<and> tm_hour t \<in> {0..23} \<and> tm_mday t \<in> {0..31} \<and> tm_mon t \<in> {0..11} \<and>
     tm_wday t \<in> {0..6} \<and> tm_yday t \<in> {0..365}"

lemma conv_num_range: "conv_num buf llim ulim = Some (i, b) \<Longrightarrow> llim \<le> i \<and> i \<le> ulim"
  by (auto simp: conv_num_def split: if_splits prod.splits)

lemma find_name_range: "find_name names bp i = Some (j, len) \<Longrightarrow> i \<le> j \<and> j < i + int (length names)"
  by (induction names bp i rule: find_name.induct) (auto split: if_splits)

text \<open>A conversion that ends without undefined behaviour and keeps the ranges.\<close>

abbreviation keeps_tm :: "(tm, 'a) cfun \<Rightarrow> tm \<Rightarrow> bool" where
  "keeps_tm m t \<equiv> wp m (\<lambda>_. tm_ok) (\<lambda>_. False) t"

lemma keeps_number: "tm_ok t \<Longrightarrow> (\<And>i. llim \<le> i \<Longrightarrow> i \<le> ulim \<Longrightarrow> tm_ok (f i t)) \<Longrightarrow> keeps_tm (number bp llim ulim split f) t"
  using conv_num_range by (fastforce simp: number_def wp_simps split: option.splits)

lemma keeps_name:
  "tm_ok t \<Longrightarrow> (\<And>i. 0 \<le> i \<Longrightarrow> i < int (length names) \<Longrightarrow> tm_ok (f i t)) \<Longrightarrow> keeps_tm (conv_name names bp split f) t"
  using find_name_range by (fastforce simp: conv_name_def wp_simps split: option.splits)

lemma keeps_am_pm: "tm_ok t \<Longrightarrow> keeps_tm (conv_am_pm bp split) t"
  by (simp add: conv_am_pm_def wp_simps tm_ok_def)

lemma keeps_century: "tm_ok t \<Longrightarrow> keeps_tm (conv_century bp split) t"
  by (auto simp: conv_century_def wp_simps tm_ok_def split: option.splits)

lemma keeps_year_of_century: "tm_ok t \<Longrightarrow> keeps_tm (conv_year_of_century bp split) t"
  by (auto simp: conv_year_of_century_def wp_simps tm_ok_def split: option.splits)

lemma keeps_sub_format: "keeps_tm (rec bp fmt) t \<Longrightarrow> keeps_tm (sub_format rec bp fmt split) t"
  by (simp add: sub_format_def wp_simps)

lemma keeps_LEGAL_ALT: "tm_ok t \<Longrightarrow> keeps_tm m t \<Longrightarrow> keeps_tm (LEGAL_ALT xs alt m) t"
  by (simp add: LEGAL_ALT_def wp_simps)

lemma range_if: "(b \<Longrightarrow> keeps_tm m t) \<Longrightarrow> keeps_tm n t \<Longrightarrow> keeps_tm (if b then m else n) t"
  by simp

lemma range_ret: "tm_ok t \<Longrightarrow> keeps_tm (ret a) t"
  by (simp add: wp_simps)

lemma tm_ok_updates:
  assumes "tm_ok t"
  shows "0 \<le> i \<Longrightarrow> i \<le> 61 \<Longrightarrow> tm_ok (t\<lparr>tm_sec := i\<rparr>)" "0 \<le> i \<Longrightarrow> i \<le> 59 \<Longrightarrow> tm_ok (t\<lparr>tm_min := i\<rparr>)"
    "0 \<le> i \<Longrightarrow> i \<le> 23 \<Longrightarrow> tm_ok (t\<lparr>tm_hour := i\<rparr>)" "0 \<le> i \<Longrightarrow> i \<le> 31 \<Longrightarrow> tm_ok (t\<lparr>tm_mday := i\<rparr>)"
    "0 \<le> i \<Longrightarrow> i \<le> 11 \<Longrightarrow> tm_ok (t\<lparr>tm_mon := i\<rparr>)" "0 \<le> i \<Longrightarrow> i \<le> 6 \<Longrightarrow> tm_ok (t\<lparr>tm_wday := i\<rparr>)"
    "0 \<le> i \<Longrightarrow> i \<le> 365 \<Longrightarrow> tm_ok (t\<lparr>tm_yday := i\<rparr>)" "tm_ok (t\<lparr>tm_year := i\<rparr>)"
  using assms by (auto simp: tm_ok_def)

text \<open>The formats that a conversion stands for.\<close>

definition sub_formats :: "char \<Rightarrow> string set" where
  "sub_formats c = (if c = CHR ''c'' then {''%x %X''}
     else if c \<in> set ''DRrTXx'' then {''%m/%d/%y'', ''%H:%M'', ''%I:%M:%S %p'', ''%H:%M:%S''} else {})"

lemma keeps_convert:
  assumes "tm_ok t" and "\<And>bp fmt. fmt \<in> sub_formats c \<Longrightarrow> keeps_tm (rec bp fmt) t"
  shows "keeps_tm (convert rec alt c bp split) t"
proof -
  have n: "length day_names = 7" "length month_names = 12" by (simp_all add: day_names_def month_names_def)
  show ?thesis
    unfolding convert_def
    by (intro range_if keeps_LEGAL_ALT keeps_sub_format keeps_number keeps_name keeps_am_pm keeps_century keeps_year_of_century range_ret assms
        tm_ok_updates [OF assms(1)]) (simp_all add: n sub_formats_def)
qed

lemma keeps_loop:
  fixes rec :: "string \<Rightarrow> string \<Rightarrow> (tm, string option) cfun"
  defines "good \<equiv> \<lambda>F rec. \<forall>c \<in> F. \<forall>alt bp split t. tm_ok t \<longrightarrow> keeps_tm (convert rec alt c bp split) t"
  shows "good F rec \<Longrightarrow> tm_ok t \<Longrightarrow> set fmt \<subseteq> F \<Longrightarrow> keeps_tm (strptime_loop rec fmt bp split) t"
    and "good F rec \<Longrightarrow> tm_ok t \<Longrightarrow> set fmt \<subseteq> F \<Longrightarrow> keeps_tm (strptime_again rec alt fmt bp split) t"
proof (induction rec fmt bp split and rec alt fmt bp split arbitrary: t and t rule: strptime_loop_strptime_again.induct)

  case (4 rec alt c fmt bp split)
  show ?case
  proof (cases "c = CHR ''%'' \<or> c = CHR ''E'' \<or> c = CHR ''O''")
    case True
    then show ?thesis using "4.IH"(1-3) "4.prems" by (auto simp: wp_simps)
  next
    case False
    have "keeps_tm (convert rec alt c bp split) t" using "4.prems" by (auto simp: good_def)
    then have "wp (convert rec alt c bp split) (\<lambda>r. wp (case r of None \<Rightarrow> ret None | Some (bp, split) \<Rightarrow> strptime_loop rec fmt bp split) (\<lambda>_. tm_ok) (\<lambda>_. False)) (\<lambda>_. False) t"
      by (rule wp_mono) (use False "4.IH"(4) "4.prems" in \<open>auto simp: wp_simps split: option.splits\<close>)
    then show ?thesis using False by (simp add: wp_bind)
  qed
qed (auto simp: wp_simps)

lemma keeps_strptime:
  assumes "\<And>c bp f t. c \<in> set fmt \<Longrightarrow> f \<in> sub_formats c \<Longrightarrow> tm_ok t \<Longrightarrow> keeps_tm (arg_strptime n bp f) t" and "tm_ok t"
  shows "keeps_tm (arg_strptime (Suc n) bp fmt) t"
  using keeps_loop(1) [of "set fmt" "arg_strptime n"] keeps_convert assms by simp

text \<open>Three levels of formats.\<close>

lemma strptime_keeps:
  assumes "tm_ok t"
  shows "keeps_tm (arg_strptime 3 bp fmt) t"
proof -
  have 1: "keeps_tm (arg_strptime (Suc 0) bp f) t" if "c \<in> set ''DRrTXx''" "f \<in> sub_formats c" "tm_ok t" for bp f t c
    by (rule keeps_strptime) (use that in \<open>auto simp: sub_formats_def\<close>)
  have 2: "keeps_tm (arg_strptime (Suc (Suc 0)) bp f) t" if "f \<in> sub_formats c" "tm_ok t" for bp f t c
    by (rule keeps_strptime, rule 1) (use that in \<open>auto simp: sub_formats_def split: if_splits\<close>)
  show ?thesis
    unfolding numeral_3_eq_3 by (rule keeps_strptime [OF _ assms]) (rule 2)
qed

definition times_ok :: "arg_date \<Rightarrow> bool" where
  "times_ok p \<longleftrightarrow> list_all tm_ok (tmval p) \<and> length (tmval p) = maxcount (date_hdr p) \<and> date_count p \<le> maxcount (date_hdr p)"

text \<open>Whatever the format and the argument are, \<open>arg_date_scanfn\<close> returns (its recursion is at most three deep), and every time of the entry has its
  seconds, minutes, hours, day, month, weekday and day of the year in their ranges, as they are in the entry that \<open>arg_daten\<close> makes.
\<close>

theorem arg_date_times_in_range:
  assumes "times_ok p"
  shows "\<exists>e p'. arg_date_scanfn argval p = Returns e p' \<and> times_ok p' \<and> (e = 0 \<or> p' = p)"
proof (cases "date_count p = maxcount (date_hdr p) \<or> argval = None")
  case True
  then show ?thesis
    using assms by (auto simp: arg_date_scanfn_def bind_def gets_def ret_def seq_def modify_def times_ok_def)
next
  case False
  then obtain a where a: "argval = Some a" by auto
  have n: "date_count p < length (tmval p)" using assms False by (auto simp: times_ok_def)
  then have "tm_ok (tmval p ! date_count p)" using assms by (auto simp: times_ok_def list_all_length)
  from strptime_keeps [OF this, of a "date_format p"]
  obtain r t where "arg_strptime 3 a (date_format p) (tmval p ! date_count p) = Returns r t" "tm_ok t" by (auto simp: wp_returns_iff)
  then show ?thesis
    using False n assms a
    by (auto simp: arg_date_scanfn_def parse_date_def bind_def gets_def ret_def seq_def modify_def defined_if_def times_ok_def list_all_length nth_list_update)
qed

theorem arg_date_times_in_range_witness:
  "\<exists>e p'. arg_date_scanfn (Some ''11:30 PM'') (arg_date1 None None (Some ''%I:%M %p'') None None) = Returns e p' \<and> times_ok p' \<and>
     (e = 0 \<or> p' = arg_date1 None None (Some ''%I:%M %p'') None None)"
  by (rule arg_date_times_in_range) (simp add: times_ok_def arg_date1_def arg_daten_def zero_tm_def tm_ok_def Let_def)

section \<open>Reading back a time\<close>

text \<open>A number with leading zeros, and the usual notation.\<close>

definition digit :: "nat \<Rightarrow> char" where
  "digit n = char_of (48 + n)"

definition two_digits :: "nat \<Rightarrow> string" where
  "two_digits n = [digit (n div 10), digit (n mod 10)]"

definition write_time :: "nat \<Rightarrow> nat \<Rightarrow> nat \<Rightarrow> nat \<Rightarrow> nat \<Rightarrow> nat \<Rightarrow> string" where
  "write_time Y m d H M S = two_digits (Y div 100) @ two_digits (Y mod 100) @ ''-'' @ two_digits m @ ''-'' @ two_digits d @ '' '' @
     two_digits H @ '':'' @ two_digits M @ '':'' @ two_digits S"

lemma digit_code [simp]: "n < 10 \<Longrightarrow> code_of (digit n) = 48 + n" "n < 10 \<Longrightarrow> isdigit (digit n)"
  by (simp_all add: digit_def isdigit_def)

lemma char0_Cons [simp]: "char0 (c # cs) = c"
  by (simp add: char0_def)

lemma conv_two_digits:
  assumes "n < 100" and "llim \<le> int n" and "int n \<le> ulim" and "10 \<le> ulim" and "ulim < 100"
  shows "conv_num (two_digits n @ rest) llim ulim = Some (int n, rest)"
proof -
  have d: "n div 10 < 10" "n mod 10 < 10" using assms(1) by simp_all
  have v: "int (n div 10) * 10 + int (n mod 10) = int n" by presburger
  have "ulim div 10 \<noteq> 0" "ulim div 10 div 10 = 0" using assms(4,5) by (simp add: zdiv_int zmod_int)+
  moreover have "int (n div 10) * 10 \<le> ulim" using v assms(3) by linarith
  ultimately show ?thesis
    using d v assms(2,3) by (simp add: conv_num_def two_digits_def)
qed

lemma conv_digits_four:
  assumes "a < 10" and "b < 10" and "c < 10" and "d < 10"
  shows "conv_num (digit a # digit b # digit c # digit d # rest) 0 9999 = Some (int (((a * 10 + b) * 10 + c) * 10 + d), rest)"
proof -
  have "int a * 10 \<le> 9999" "(int a * 10 + int b) * 10 \<le> 9999" "((int a * 10 + int b) * 10 + int c) * 10 \<le> 9999"
    "((int a * 10 + int b) * 10 + int c) * 10 + int d \<le> 9999"
  proof -
    have "int a \<le> 9" "int b \<le> 9" "int c \<le> 9" "int d \<le> 9" using assms by simp_all
    then show "int a * 10 \<le> 9999" "(int a * 10 + int b) * 10 \<le> 9999" "((int a * 10 + int b) * 10 + int c) * 10 \<le> 9999"
      "((int a * 10 + int b) * 10 + int c) * 10 + int d \<le> 9999" by (simp_all add: distrib_right)
  qed
  then show ?thesis using assms by (simp add: conv_num_def)
qed

lemma conv_four_digits:
  assumes "n < 10000"
  shows "conv_num (two_digits (n div 100) @ two_digits (n mod 100) @ rest) 0 9999 = Some (int n, rest)"
proof -
  have "n div 100 < 100" using assms by (simp add: less_mult_imp_div_less)
  then have "n div 100 div 10 < 10" "n div 100 mod 10 < 10" "n mod 100 div 10 < 10" "n mod 100 mod 10 < 10" by (simp_all add: less_mult_imp_div_less)
  moreover have "((n div 100 div 10 * 10 + n div 100 mod 10) * 10 + n mod 100 div 10) * 10 + n mod 100 mod 10 = n"
  proof -
    have "(n div 100 div 10 * 10 + n div 100 mod 10) = n div 100" by simp
    moreover have "(n div 100 * 10 + n mod 100 div 10) * 10 + n mod 100 mod 10 = n div 100 * 100 + (n mod 100 div 10 * 10 + n mod 100 mod 10)"
      by (simp add: add_mult_distrib)
    ultimately show ?thesis by (simp only: div_mult_mod_eq)
  qed
  ultimately show ?thesis using conv_digits_four [of "n div 100 div 10" "n div 100 mod 10" "n mod 100 div 10" "n mod 100 mod 10" rest]
    by (simp only: two_digits_def append_Cons append_Nil)
qed

lemma digit_no_space: "n < 10 \<Longrightarrow> \<not> isspace (digit n)"
  by (simp add: isspace_def code_of_def digit_def flip: code_of_eq) 

lemma convert_number:
  "convert rec 0 CHR ''Y'' bp split = number bp 0 9999 split (\<lambda>i t. t\<lparr>tm_year := i - TM_YEAR_BASE\<rparr>)"
  "convert rec 0 CHR ''m'' bp split = number bp 1 12 split (\<lambda>i t. t\<lparr>tm_mon := i - 1\<rparr>)"
  "convert rec 0 CHR ''d'' bp split = number bp 1 31 split (\<lambda>i t. t\<lparr>tm_mday := i\<rparr>)"
  "convert rec 0 CHR ''H'' bp split = number bp 0 23 split (\<lambda>i t. t\<lparr>tm_hour := i\<rparr>)"
  "convert rec 0 CHR ''M'' bp split = number bp 0 59 split (\<lambda>i t. t\<lparr>tm_min := i\<rparr>)"
  "convert rec 0 CHR ''S'' bp split = number bp 0 61 split (\<lambda>i t. t\<lparr>tm_sec := i\<rparr>)"
  by (simp_all add: convert_def LEGAL_ALT_def)

text \<open>C39: an entry with the format \<open>%Y-%m-%d %H:%M:%S\<close> stores for the notation of a time, with leading zeros, exactly its fields (the year counted from
  1900, the month from 0) and keeps the other fields.
\<close>

theorem arg_date_reads_back:
  assumes "Y < 10000" and "1 \<le> m" and "m \<le> 12" and "1 \<le> d" and "d \<le> 31" and "H \<le> 23" and "M \<le> 59" and "S \<le> 61"
    and "date_format p = ''%Y-%m-%d %H:%M:%S''" and "date_count p < maxcount (date_hdr p)" and "length (tmval p) = maxcount (date_hdr p)"
  shows "arg_date_scanfn (Some (write_time Y m d H M S)) p = Returns 0 (p\<lparr>date_count := date_count p + 1,
    tmval := (tmval p)[date_count p := (tmval p ! date_count p)\<lparr>tm_sec := int S, tm_min := int M, tm_hour := int H, tm_mday := int d,
      tm_mon := int m - 1, tm_year := int Y - 1900\<rparr>]\<rparr>)"
proof -
  have run: "bind (number bp l u split f) g t = g (Some (rest, split)) (f i t)" if "conv_num bp l u = Some (i, rest)" for bp l u split f i rest g t
    using that by (simp add: number_def bind_def seq_def modify_def ret_def)
  have sp: "isspace CHR '' ''" "\<not> isspace CHR ''%''" "\<not> isspace CHR ''-''" "\<not> isspace CHR '':''" by (simp_all add: isspace_def code_of_def)
  have skip: "dropWhile isspace (two_digits H @ rest) = two_digits H @ rest" for rest using assms(6) digit_no_space [of "H div 10"] by (simp add: two_digits_def)
  have "arg_strptime 3 (write_time Y m d H M S) ''%Y-%m-%d %H:%M:%S'' t =
      Returns (Some '''') (t\<lparr>tm_sec := int S, tm_min := int M, tm_hour := int H, tm_mday := int d, tm_mon := int m - 1, tm_year := int Y - 1900\<rparr>)" for t
    using assms(1-8)
    by (simp add: numeral_3_eq_3 write_time_def sp convert_number run conv_four_digits conv_two_digits conv_two_digits [where rest = "[]", simplified] skip TM_YEAR_BASE_def ret_def)
  then show ?thesis
    using assms(9-11) by (simp add: arg_date_scanfn_def parse_date_def bind_def gets_def seq_def defined_if_def ret_def modify_def)
qed

theorem arg_date_reads_back_witness:
  "\<exists>p. arg_date_scanfn (Some ''2024-02-29 07:05:00'') (arg_date1 None None (Some ''%Y-%m-%d %H:%M:%S'') None None) = Returns 0 p \<and>
     map tm_year (tmval p) = [124] \<and> map tm_mon (tmval p) = [1] \<and> map tm_mday (tmval p) = [29]"
proof -
  have "write_time 2024 2 29 7 5 0 = ''2024-02-29 07:05:00''" by code_simp
  then show ?thesis
    using arg_date_reads_back [of 2024 2 29 7 5 0 "arg_date1 None None (Some ''%Y-%m-%d %H:%M:%S'') None None"]
    by (simp add: arg_date1_def arg_daten_def Let_def)
qed

text \<open>The century is read as if \<open>tm_year\<close> were counted from the year 0: \<open>%C%y\<close> makes 1999 the year 3899. And the example in the error text of a
  date is not the last second of 1999: \<open>arg_strptime\<close> does not know \<open>%F\<close>, and the time stays zero.
\<close>

theorem arg_strptime_century:
  "(case arg_strptime 3 ''1999'' ''%C%y'' zero_tm of Returns r t \<Rightarrow> r = Some '''' \<and> tm_year t + 1900 = 3899 | _ \<Rightarrow> False) \<and>
   arg_strptime 3 ''1999-12-31 23:59:59'' ''%F %H:%M:%S'' zero_tm = Returns None zero_tm"
  by (intro conjI; code_simp)

end
