(* ===== verification/ArgTable.thy ===== *)
theory ArgTable
  imports ArgParse
begin

text \<open>
  Allocation of a table of arguments: the check for entries that could not be allocated and the release of the table
  (\<open>arg_nullcheck\<close>, \<open>arg_free\<close>, \<open>arg_freetable\<close> of \<^verbatim>\<open>cli/lib/argtable/argtable3.c\<close>). A slot of the table is a null pointer or the header of its entry.
\<close>

section \<open>The code\<close>

fun null_loop :: "arg_hdr option list \<Rightarrow> (unit, int) cfun" where
  "null_loop [] = faults Undefined_Behaviour"
| "null_loop (None # table) = ret 1"
| "null_loop (Some h # table) = (if is_terminator h then ret 0 else null_loop table)"

definition arg_nullcheck :: "arg_hdr option list option \<Rightarrow> (unit, int) cfun" where
  "arg_nullcheck table = (case table of None \<Rightarrow> ret 1 | Some t \<Rightarrow> null_loop t)"

text \<open>The table, and the entries given to \<open>xfree\<close> so far.\<close>

record arg_table =
  slots :: "arg_hdr option list"
  freed :: "arg_hdr list"

definition slot_at :: "nat \<Rightarrow> (arg_table, arg_hdr option) cfun" where
  "slot_at i = bind (gets slots) (\<lambda>t. seq (defined_if (i < length t)) (ret (t ! i)))"

definition xfree_slot :: "nat \<Rightarrow> arg_hdr \<Rightarrow> (arg_table, unit) cfun" where
  "xfree_slot i h = modify (\<lambda>s. s\<lparr>slots := (slots s)[i := None], freed := freed s @ [h]\<rparr>)"

text \<open>The loop of \<open>arg_free\<close>, with at most \<open>k\<close> rounds; it leaves the table after as many as there are slots.\<close>

primrec free_loop :: "nat \<Rightarrow> nat \<Rightarrow> (arg_table, unit) cfun" where
  "free_loop 0 i = faults Out_Of_Fuel"
| "free_loop (Suc k) i = bind (slot_at i) (\<lambda>e. case e of
       None \<Rightarrow> ret ()
     | Some h \<Rightarrow> seq (xfree_slot i h) (if is_terminator h then ret () else free_loop k (i + 1)))"

definition arg_free :: "(arg_table, unit) cfun" where
  "arg_free = bind (gets (\<lambda>s. length (slots s) + 1)) (\<lambda>k. free_loop k 0)"

definition arg_freetable :: "nat \<Rightarrow> (arg_table, unit) cfun" where
  "arg_freetable n = for_each [0..<n] (\<lambda>i. bind (slot_at i) (\<lambda>e. case e of None \<Rightarrow> ret () | Some h \<Rightarrow> xfree_slot i h))"

section \<open>What is checked and what is freed\<close>

text \<open>The entries of a list of slots, in order.\<close>

definition entries_of :: "arg_hdr option list \<Rightarrow> arg_hdr list" where
  "entries_of t = map the (filter (\<lambda>e. e \<noteq> None) t)"

lemma entries_of_simps [simp]:
  "entries_of [] = []" "entries_of (None # t) = entries_of t" "entries_of (Some h # t) = h # entries_of t"
  "entries_of (t @ u) = entries_of t @ entries_of u" "entries_of (map Some hs) = hs"
  by (simp_all add: entries_of_def comp_def)

lemma arg_nullcheck_complete:
  assumes "list_all (\<lambda>h. \<not> is_terminator h) hs" and "is_terminator z"
  shows "arg_nullcheck (Some (map Some hs @ Some z # rest)) () = Returns 0 ()"
    and "arg_nullcheck (Some (map Some hs @ None # rest)) () = Returns 1 ()"
  using assms by (induction hs) (simp_all add: arg_nullcheck_def ret_def)

lemma slot_at_returns: "i < length (slots s) \<Longrightarrow> slot_at i s = Returns (slots s ! i) s"
  by (simp add: slot_at_def bind_def gets_def seq_def defined_if_def ret_def)

text \<open>\<open>arg_free\<close> frees the entries in front of the first null pointer, also when entries follow it.\<close>

lemma free_loop_returns:
  assumes "slots s = replicate i None @ map Some hs @ e # rest" and "list_all (\<lambda>h. \<not> is_terminator h) hs"
    and "e = None \<or> (\<exists>z. e = Some z \<and> is_terminator z)" and "length hs < k"
  shows "free_loop k i s = Returns () (s\<lparr>slots := replicate (Suc (i + length hs)) None @ rest, freed := freed s @ hs @ entries_of [e]\<rparr>)"
  using assms
proof (induction hs arbitrary: i k s)
  case Nil
  then obtain m where "k = Suc m" by (cases k) auto
  moreover have "slot_at i s = Returns e s" using Nil by (simp add: slot_at_returns nth_append)
  ultimately show ?case using Nil
    by (auto simp: bind_def seq_def xfree_slot_def modify_def ret_def list_update_append replicate_app_Cons_same)
next
  case (Cons h hs)
  then obtain m where m: "k = Suc m" by (cases k) auto
  let ?s = "s\<lparr>slots := replicate (Suc i) None @ map Some hs @ e # rest, freed := freed s @ [h]\<rparr>"
  have "slot_at i s = Returns (Some h) s" using Cons by (simp add: slot_at_returns nth_append)
  moreover have "xfree_slot i h s = Returns () ?s"
    using Cons.prems(1) by (simp add: xfree_slot_def modify_def list_update_append replicate_app_Cons_same)
  moreover have "free_loop m (Suc i) ?s = Returns () (?s\<lparr>slots := replicate (Suc (Suc i + length hs)) None @ rest, freed := freed ?s @ hs @ entries_of [e]\<rparr>)"
    by (rule Cons.IH) (use Cons.prems m in auto)
  ultimately show ?case using m Cons.prems(2) by (simp add: bind_def seq_def)
qed

lemma arg_free_frees:
  assumes "slots s = map Some hs @ e # rest" and "list_all (\<lambda>h. \<not> is_terminator h) hs" and "e = None \<or> (\<exists>z. e = Some z \<and> is_terminator z)"
  shows "arg_free s = Returns () (s\<lparr>slots := replicate (Suc (length hs)) None @ rest, freed := freed s @ hs @ entries_of [e]\<rparr>)"
proof -
  have "free_loop (length (slots s) + 1) 0 s =
    Returns () (s\<lparr>slots := replicate (Suc (0 + length hs)) None @ rest, freed := freed s @ hs @ entries_of [e]\<rparr>)"
    by (rule free_loop_returns) (use assms in auto)
  then show ?thesis by (simp only: arg_free_def bind_def gets_def outcome.case add_0)
qed

lemma for_each_snoc: "for_each (xs @ [x]) f s = seq (for_each xs f) (f x) s"
  by (induction xs arbitrary: s) (auto simp: seq_def bind_def ret_def split: outcome.splits)

lemma arg_freetable_frees:
  assumes "n \<le> length (slots s)"
  shows "arg_freetable n s =
    Returns () (s\<lparr>slots := replicate n None @ drop n (slots s), freed := freed s @ entries_of (take n (slots s))\<rparr>)"
  using assms
proof (induction n)
  case (Suc n)
  let ?s = "s\<lparr>slots := replicate n None @ drop n (slots s), freed := freed s @ entries_of (take n (slots s))\<rparr>"
  have n: "n < length (slots s)" using Suc.prems by simp
  have d: "drop n (slots s) = slots s ! n # drop (Suc n) (slots s)" using n by (rule Cons_nth_drop_Suc [symmetric])
  have "slot_at n ?s = Returns (slots s ! n) ?s" using n by (simp add: slot_at_returns nth_append)
  then have "arg_freetable (Suc n) s = (case slots s ! n of None \<Rightarrow> Returns () ?s | Some h \<Rightarrow> xfree_slot n h ?s)"
    using Suc.IH n unfolding arg_freetable_def by (simp add: for_each_snoc seq_def bind_def ret_def split: option.splits)
  then show ?case
    by (cases "slots s ! n") (simp_all add: xfree_slot_def modify_def d take_Suc_conv_app_nth [OF n] list_update_append replicate_app_Cons_same)
qed (simp add: arg_freetable_def ret_def)

end
