(* ===== verification/ArgMgsort.thy ===== *)
theory ArgMgsort
  imports Prelude "HOL-Library.Multiset"
begin

text \<open>
  The merge sort of the argument parser (\<open>merge\<close> and \<open>arg_mgsort\<close> of \<^verbatim>\<open>cli/lib/argtable/argtable3.c\<close>). The array of \<open>esize\<close>-byte elements is the list
  of its elements; indices are \<open>int\<close>s, and so are the products with \<open>esize\<close> that the code computes. \<open>comparefn\<close> is an argument of the code.
  The lemmas show that it does what a functional merge sort does, and that one sorts.
\<close>

section \<open>The code\<close>

text \<open>An address inside the array: the index is in it and the product with \<open>esize\<close> is an \<open>int\<close>.\<close>

definition elem :: "int \<Rightarrow> int \<Rightarrow> ('a list, 'a) cfun" where
  "elem esize i = bind (gets id) (\<lambda>a. seq (defined_if (0 \<le> i \<and> nat i < length a \<and> i * esize < 2 ^ 31)) (ret (a ! nat i)))"

text \<open>Copying one element, at index \<open>p\<close>, behind the merged ones. There is room for \<open>cap\<close> elements.\<close>

definition append_elem :: "int \<Rightarrow> int \<Rightarrow> int \<Rightarrow> 'a list \<Rightarrow> ('a list, 'a list) cfun" where
  "append_elem esize cap p m =
     bind (elem esize p) (\<lambda>x. seq (defined_if (int (length m) < cap \<and> int (length m) * esize < 2 ^ 31)) (ret (m @ [x])))"

text \<open>The two loops for the rest of one division: from an index up to and including another.\<close>

function copy_rest :: "int \<Rightarrow> int \<Rightarrow> int \<Rightarrow> int \<Rightarrow> 'a list \<Rightarrow> ('a list, 'a list) cfun" where
  "copy_rest esize cap k p m =
     (if p \<le> k then bind (append_elem esize cap p m) (\<lambda>m. copy_rest esize cap k (p + 1) m) else ret m)"
  by pat_completeness auto
termination by (relation "measure (\<lambda>(_, _, k, p, _). nat (k + 1 - p))") auto

function merge_loop :: "('a \<Rightarrow> 'a \<Rightarrow> int) \<Rightarrow> int \<Rightarrow> int \<Rightarrow> int \<Rightarrow> int \<Rightarrow> int \<Rightarrow> int \<Rightarrow> 'a list \<Rightarrow> ('a list, 'a list) cfun" where
  "merge_loop comparefn esize cap j k ipos jpos m =
     (if ipos \<le> j \<or> jpos \<le> k then
        (if ipos > j then copy_rest esize cap k jpos m
         else if jpos > k then copy_rest esize cap j ipos m
         else bind (elem esize ipos) (\<lambda>x. bind (elem esize jpos) (\<lambda>y.
           if comparefn x y < 0 then bind (append_elem esize cap ipos m) (\<lambda>m. merge_loop comparefn esize cap j k (ipos + 1) jpos m)
           else bind (append_elem esize cap jpos m) (\<lambda>m. merge_loop comparefn esize cap j k ipos (jpos + 1) m))))
      else ret m)"
  by pat_completeness auto
termination by (relation "measure (\<lambda>(_, _, _, j, k, ipos, jpos, _). nat (j + 1 - ipos) + nat (k + 1 - jpos))") auto

declare copy_rest.simps [simp del] merge_loop.simps [simp del]

text \<open>Copying the merged elements back, over the ones they came from.\<close>

definition copy_back :: "int \<Rightarrow> 'a list \<Rightarrow> ('a list, unit) cfun" where
  "copy_back i m = bind (gets id) (\<lambda>a. seq (defined_if (0 \<le> i \<and> nat i + length m \<le> length a))
     (modify (\<lambda>a. take (nat i) a @ m @ drop (nat i + length m) a)))"

definition merge :: "('a \<Rightarrow> 'a \<Rightarrow> int) \<Rightarrow> int \<Rightarrow> int \<Rightarrow> int \<Rightarrow> int \<Rightarrow> ('a list, unit) cfun" where
  "merge comparefn esize i j k =
     seq (defined_if (esize * (k - i + 1) < 2 ^ 31))
    (bind (merge_loop comparefn esize (k - i + 1) j k i (j + 1) [])
    (\<lambda>m. seq (defined_if (int (length m) = k - i + 1)) (copy_back i m)))"

function arg_mgsort :: "('a \<Rightarrow> 'a \<Rightarrow> int) \<Rightarrow> int \<Rightarrow> int \<Rightarrow> int \<Rightarrow> ('a list, unit) cfun" where
  "arg_mgsort comparefn esize i k =
     (if i < k then
        seq (defined_if (i + k < 2 ^ 31))
       (let j = (i + k - 1) div 2 in
        seq (arg_mgsort comparefn esize i j)
       (seq (arg_mgsort comparefn esize (j + 1) k)
            (merge comparefn esize i j k)))
      else ret ())"
  by pat_completeness auto
termination by (relation "measure (\<lambda>(_, _, i, k). nat (k - i))") auto

declare arg_mgsort.simps [simp del]

section \<open>The sort as a function on lists\<close>

text \<open>Of two elements that compare as equal the second comes first.\<close>

fun merge_lists :: "('a \<Rightarrow> 'a \<Rightarrow> int) \<Rightarrow> 'a list \<Rightarrow> 'a list \<Rightarrow> 'a list" where
  "merge_lists cmp [] ys = ys"
| "merge_lists cmp xs [] = xs"
| "merge_lists cmp (x # xs) (y # ys) = (if cmp x y < 0 then x # merge_lists cmp xs (y # ys) else y # merge_lists cmp (x # xs) ys)"

fun msort :: "('a \<Rightarrow> 'a \<Rightarrow> int) \<Rightarrow> 'a list \<Rightarrow> 'a list" where
  "msort cmp xs = (let n = length xs in
     if n \<le> 1 then xs else merge_lists cmp (msort cmp (take (n div 2) xs)) (msort cmp (drop (n div 2) xs)))"

declare msort.simps [simp del]

text \<open>The elements from one index up to and including another.\<close>

definition seg :: "'a list \<Rightarrow> int \<Rightarrow> int \<Rightarrow> 'a list" where
  "seg a i k = take (nat (k + 1 - i)) (drop (nat i) a)"

lemma merge_lists_Nil [simp]: "merge_lists cmp xs [] = xs"
  by (cases xs) simp_all

lemma seg_empty [simp]: "k < i \<Longrightarrow> seg a i k = []"
  by (simp add: seg_def)

lemma seg_Cons:
  assumes "0 \<le> i" and "i \<le> k" and "nat k < length a"
  shows "seg a i k = a ! nat i # seg a (i + 1) k"
proof -
  have l: "nat i < length a" using assms by linarith
  have n: "nat (k + 1 - i) = Suc (nat (k - i))" "nat (i + 1) = Suc (nat i)" using assms by linarith+
  show ?thesis unfolding seg_def n using Cons_nth_drop_Suc [OF l, symmetric] by simp
qed

text \<open>What every call needs: the indices are inside the array and the byte offsets are \<open>int\<close>s.\<close>

definition in_array :: "int \<Rightarrow> int \<Rightarrow> 'a list \<Rightarrow> bool" where
  "in_array esize k a \<longleftrightarrow> 0 < esize \<and> nat k < length a \<and> esize * (k + 1) < 2 ^ 31"

lemma offset_fits:
  assumes "in_array esize k a" and "i \<le> k + 1"
  shows "i * esize < 2 ^ 31"
proof -
  have "esize * i \<le> esize * (k + 1)" using assms by (intro mult_left_mono) (auto simp: in_array_def)
  then show ?thesis using assms(1) unfolding in_array_def mult.commute [of i] by linarith
qed

lemma elem_returns:
  assumes "in_array esize k a" and "0 \<le> i" and "i \<le> k"
  shows "elem esize i a = Returns (a ! nat i) a"
proof -
  have "nat i < length a" using assms unfolding in_array_def by linarith
  then show ?thesis using assms(2) offset_fits [OF assms(1), of i] assms(3)
    by (simp add: elem_def bind_def gets_def seq_def defined_if_def ret_def)
qed

lemma append_elem_returns:
  assumes "in_array esize k a" and "0 \<le> i" and "i \<le> k" and "int (length m) < cap" and "cap \<le> k + 1"
  shows "append_elem esize cap i m a = Returns (m @ [a ! nat i]) a"
  using assms(4,5) offset_fits [OF assms(1), of "int (length m)"] elem_returns [OF assms(1-3)]
  by (simp add: append_elem_def bind_def seq_def defined_if_def ret_def)

lemma copy_rest_returns:
  assumes "in_array esize k a" and "0 \<le> p" and "e \<le> k" and "cap \<le> k + 1" and "int (length m) + (e + 1 - p) \<le> cap"
  shows "copy_rest esize cap e p m a = Returns (m @ seg a p e) a"
  using assms
proof (induction "nat (e + 1 - p)" arbitrary: p m)
  case (Suc n)
  have "append_elem esize cap p m a = Returns (m @ [a ! nat p]) a" using Suc.hyps(2) Suc.prems by (intro append_elem_returns) auto
  moreover have "copy_rest esize cap e (p + 1) (m @ [a ! nat p]) a = Returns ((m @ [a ! nat p]) @ seg a (p + 1) e) a"
    using Suc.hyps(2) Suc.prems by (intro Suc.hyps(1)) auto
  moreover have "seg a p e = a ! nat p # seg a (p + 1) e" using Suc.hyps(2) Suc.prems by (intro seg_Cons) (auto simp: in_array_def)
  moreover have "p \<le> e" using Suc.hyps(2) by linarith
  ultimately show ?case by (subst copy_rest.simps) (simp add: bind_def)
qed (subst copy_rest.simps, simp add: ret_def)

lemma merge_loop_returns:
  assumes "in_array esize k a" and "0 \<le> ipos" and "0 \<le> jpos" and "j \<le> k" and "cap \<le> k + 1"
    and "ipos \<le> j + 1" and "jpos \<le> k + 1" and "int (length m) + (j + 1 - ipos) + (k + 1 - jpos) \<le> cap"
  shows "merge_loop cmp esize cap j k ipos jpos m a = Returns (m @ merge_lists cmp (seg a ipos j) (seg a jpos k)) a"
  using assms
proof (induction "nat (j + 1 - ipos) + nat (k + 1 - jpos)" arbitrary: ipos jpos m rule: less_induct)
  case less
  note P = less.prems
  consider "j < ipos" "k < jpos" | "j < ipos" "jpos \<le> k" | "ipos \<le> j" "k < jpos" | "ipos \<le> j" "jpos \<le> k" by linarith
  then show ?case
  proof cases
    case 1
    then show ?thesis by (subst merge_loop.simps) (simp add: ret_def)
  next
    case 2
    then have "copy_rest esize cap k jpos m a = Returns (m @ seg a jpos k) a" using P by (intro copy_rest_returns) auto
    then show ?thesis using 2 by (subst merge_loop.simps) simp
  next
    case 3
    then have "copy_rest esize cap j ipos m a = Returns (m @ seg a ipos j) a" using P by (intro copy_rest_returns) auto
    then show ?thesis using 3 by (subst merge_loop.simps) simp
  next
    case 4
    let ?x = "a ! nat ipos" and ?y = "a ! nat jpos"
    have e: "elem esize ipos a = Returns ?x a" "elem esize jpos a = Returns ?y a" using 4 P by (auto intro: elem_returns)
    have ap: "append_elem esize cap ipos m a = Returns (m @ [?x]) a" "append_elem esize cap jpos m a = Returns (m @ [?y]) a"
      using 4 P by (auto intro!: append_elem_returns)
    have s: "seg a ipos j = ?x # seg a (ipos + 1) j" "seg a jpos k = ?y # seg a (jpos + 1) k" using 4 P by (auto simp: in_array_def intro: seg_Cons)
    have "merge_loop cmp esize cap j k (ipos + 1) jpos (m @ [?x]) a = Returns ((m @ [?x]) @ merge_lists cmp (seg a (ipos + 1) j) (seg a jpos k)) a"
      by (rule less.hyps) (use 4 P in simp_all)
    moreover have "merge_loop cmp esize cap j k ipos (jpos + 1) (m @ [?y]) a = Returns ((m @ [?y]) @ merge_lists cmp (seg a ipos j) (seg a (jpos + 1) k)) a"
      by (rule less.hyps) (use 4 P in simp_all)
    ultimately show ?thesis using 4 e ap s by (subst merge_loop.simps) (simp add: bind_def)
  qed
qed

lemma length_merge_lists [simp]: "length (merge_lists cmp xs ys) = length xs + length ys"
  by (induction cmp xs ys rule: merge_lists.induct) auto

lemma mset_merge_lists [simp]: "mset (merge_lists cmp xs ys) = mset xs + mset ys"
  by (induction cmp xs ys rule: merge_lists.induct) auto

lemma mset_msort: "mset (msort cmp xs) = mset xs"
proof (induction cmp xs rule: msort.induct)
  case (1 cmp xs)
  let ?n = "length xs"
  show ?case
  proof (cases "?n \<le> 1")
    case False
    then have "mset (msort cmp xs) = mset (take (?n div 2) xs @ drop (?n div 2) xs)"
      using 1 unfolding mset_append by (simp add: msort.simps [of cmp xs] Let_def del: append_take_drop_id)
    then show ?thesis by simp
  qed (simp add: msort.simps [of cmp xs])
qed

lemma set_merge_lists: "set (merge_lists cmp xs ys) = set xs \<union> set ys"
  by (induction cmp xs ys rule: merge_lists.induct) auto

lemma length_msort [simp]: "length (msort cmp xs) = length xs"
  using arg_cong [OF mset_msort, of size] by simp

lemma merge_returns:
  assumes "in_array esize k a" and "0 \<le> i" and "i \<le> j" and "j < k"
  shows "merge cmp esize i j k a =
    Returns () (take (nat i) a @ merge_lists cmp (seg a i j) (seg a (j + 1) k) @ drop (nat (k + 1)) a)"
proof -
  have l: "nat k < length a" using assms(1) by (simp add: in_array_def)
  have m: "merge_loop cmp esize (k - i + 1) j k i (j + 1) [] a = Returns (merge_lists cmp (seg a i j) (seg a (j + 1) k)) a"
    using merge_loop_returns [OF assms(1), of i "j + 1" j "k - i + 1" "[]" cmp] assms by simp
  have n: "length (seg a i j) = nat (j + 1 - i)" "length (seg a (j + 1) k) = nat (k - j)" using assms l by (auto simp: seg_def)
  have e: "nat i + (nat (j + 1 - i) + nat (k - j)) = nat (k + 1)" using assms by linarith
  have "esize * (k - i + 1) < 2 ^ 31" using offset_fits [OF assms(1), of "k - i + 1"] assms(2) by (simp add: mult.commute)
  moreover have "nat (k + 1) \<le> length a" using l by linarith
  ultimately show ?thesis using m n e l assms
    by (simp add: merge_def copy_back_def seq_def bind_def gets_def defined_if_def ret_def modify_def)
qed

text \<open>The two divisions are the halves of the segment.\<close>

lemma seg_halves:
  assumes "0 \<le> i" and "i < k" and "nat k < length a"
  shows "seg a i ((i + k - 1) div 2) = take (length (seg a i k) div 2) (seg a i k)"
    and "seg a ((i + k - 1) div 2 + 1) k = drop (length (seg a i k) div 2) (seg a i k)"
proof -
  have l: "length (seg a i k) = nat (k + 1 - i)" using assms by (simp add: seg_def)
  have h: "int (nat (k + 1 - i) div 2) = (i + k - 1) div 2 + 1 - i" using assms by (simp add: zdiv_int)
  have h': "nat ((i + k - 1) div 2 + 1 - i) = nat (k + 1 - i) div 2" by (simp flip: h)
  show "seg a i ((i + k - 1) div 2) = take (length (seg a i k) div 2) (seg a i k)"
    unfolding l unfolding seg_def h' by (simp add: min_def)
  have "nat ((i + k - 1) div 2 + 1) = nat i + nat (k + 1 - i) div 2" "nat (k + 1 - ((i + k - 1) div 2 + 1)) = nat (k + 1 - i) - nat (k + 1 - i) div 2"
    using h assms by linarith+
  then show "seg a ((i + k - 1) div 2 + 1) k = drop (length (seg a i k) div 2) (seg a i k)"
    unfolding l unfolding seg_def by (simp add: drop_take add.commute)
qed

text \<open>The code does what the function does, on the segment it is given, and leaves the rest of the array.\<close>

lemma seg_middle: "length A = nat i \<Longrightarrow> length L = nat (k + 1 - i) \<Longrightarrow> seg (A @ L @ Z) i k = L"
  by (simp add: seg_def)

lemma seg_split:
  assumes "0 \<le> i" and "i \<le> j" and "j < k" and "nat k < length a"
  obtains A L R Z where "a = A @ L @ R @ Z" and "length A = nat i" and "length L = nat (j + 1 - i)" and "length R = nat (k - j)"
proof
  let ?l = "nat (j + 1 - i)" and ?r = "nat (k - j)"
  show "a = take (nat i) a @ take ?l (drop (nat i) a) @ take ?r (drop ?l (drop (nat i) a)) @ drop ?r (drop ?l (drop (nat i) a))"
    by (simp only: append_take_drop_id)
qed (use assms in auto)

lemma arg_mgsort_returns:
  assumes "in_array esize k a" and "0 \<le> i" and "i \<le> k" and "k \<le> 2 ^ 30"
  shows "arg_mgsort cmp esize i k a = Returns () (take (nat i) a @ msort cmp (seg a i k) @ drop (nat (k + 1)) a)"
  using assms
proof (induction cmp esize i k arbitrary: a rule: arg_mgsort.induct)
  case (1 cmp esize i k)
  note P = "1.prems"
  have l: "nat k < length a" using P by (simp add: in_array_def)
  show ?case
  proof (cases "i < k")
    case False
    then have "i = k" using P by simp
    then have "seg a i k = [a ! nat i]" using P seg_Cons [of i k a] l by simp
    moreover have "nat (k + 1) = Suc (nat i)" using \<open>i = k\<close> P by simp
    ultimately show ?thesis using \<open>i = k\<close> l
      by (subst arg_mgsort.simps) (simp add: ret_def msort.simps id_take_nth_drop [of "nat k" a, symmetric])
  next
    case True
    define j where "j = (i + k - 1) div 2"
    have j: "i \<le> j" "j < k" unfolding j_def using True by linarith+
    have s: "i + k < 2 ^ 31" using True P(4) by simp
    obtain A L R Z where a: "a = A @ L @ R @ Z" and len: "length A = nat i" "length L = nat (j + 1 - i)" "length R = nat (k - j)"
      using seg_split [OF P(2) j l] .
    have n: "nat (j + 1) = length A + length L" "nat (k + 1) = length A + length L + length R" using j P(2) len by linarith+
    have sk: "seg a i k = L @ R" unfolding a using len j P(2) seg_middle [of A i "L @ R" k Z] by auto
    let ?l = "msort cmp L" and ?r = "msort cmp R"
    have ina: "in_array esize j a" "in_array esize k (A @ ?l @ R @ Z)" "in_array esize k (A @ ?l @ ?r @ Z)"
      using P(1) j offset_fits [OF P(1), of "j + 1"] by (auto simp: in_array_def mult.commute a)
    have "arg_mgsort cmp esize i j a = Returns () (A @ ?l @ R @ Z)"
    proof -
      have "seg a i j = L" unfolding a by (rule seg_middle) (use len in auto)
      then show ?thesis using "1.IH"(1) [OF True j_def ina(1)] j P by (simp add: n(1)) (simp add: a len)
    qed
    moreover have "arg_mgsort cmp esize (j + 1) k (A @ ?l @ R @ Z) = Returns () (A @ ?l @ ?r @ Z)"
    proof -
      have "seg ((A @ ?l) @ R @ Z) (j + 1) k = R" by (rule seg_middle) (use n len in auto)
      then show ?thesis using "1.IH"(2) [OF True j_def ina(2)] j P by (simp add: n)
    qed
    moreover have "merge cmp esize i j k (A @ ?l @ ?r @ Z) = Returns () (A @ merge_lists cmp ?l ?r @ Z)"
    proof -
      have "seg (A @ ?l @ ?r @ Z) i j = ?l" by (rule seg_middle) (use len in auto)
      moreover have "seg ((A @ ?l) @ ?r @ Z) (j + 1) k = ?r" by (rule seg_middle) (use n len in auto)
      ultimately show ?thesis using merge_returns [OF ina(3) P(2) j, of cmp] by (simp add: n(2)) (simp add: len)
    qed
    ultimately have "arg_mgsort cmp esize i k a = Returns () (A @ merge_lists cmp ?l ?r @ Z)"
      using True s by (subst arg_mgsort.simps) (simp add: seq_def bind_def defined_if_def ret_def Let_def j_def [symmetric])
    moreover have "seg a i j = L" "seg a (j + 1) k = R" using seg_middle [of A i L j] seg_middle [of "A @ L" "j + 1" R k Z] n len by (auto simp: a)
    then have h: "take (length (seg a i k) div 2) (seg a i k) = L" "drop (length (seg a i k) div 2) (seg a i k) = R"
      using seg_halves [OF P(2) True l] by (simp_all add: j_def)
    have "\<not> length (seg a i k) \<le> 1" using sk len j by simp
    then have "merge_lists cmp ?l ?r = msort cmp (seg a i k)" by (simp only: msort.simps [of cmp "seg a i k"] Let_def h if_False)
    moreover have "take (nat i) a = A" "drop (nat (k + 1)) a = Z" by (simp_all add: n(2)) (simp_all add: a len)
    ultimately show ?thesis by simp
  qed
qed

text \<open>The order in which the sort puts the elements.\<close>

definition not_after :: "('a \<Rightarrow> 'a \<Rightarrow> int) \<Rightarrow> 'a \<Rightarrow> 'a \<Rightarrow> bool" where
  "not_after cmp x y \<longleftrightarrow> \<not> cmp y x < 0"

definition comparison :: "('a \<Rightarrow> 'a \<Rightarrow> int) \<Rightarrow> bool" where
  "comparison cmp \<longleftrightarrow> (\<forall>x y. cmp x y < 0 \<longrightarrow> not_after cmp x y) \<and>
     (\<forall>x y z. not_after cmp x y \<longrightarrow> not_after cmp y z \<longrightarrow> not_after cmp x z)"

lemma sorted_merge_lists:
  assumes "comparison cmp"
  shows "sorted_wrt (not_after cmp) xs \<Longrightarrow> sorted_wrt (not_after cmp) ys \<Longrightarrow> sorted_wrt (not_after cmp) (merge_lists cmp xs ys)"
proof (induction xs arbitrary: ys)
  case (Cons x xs)
  have asym: "not_after cmp u v" if "cmp u v < 0" for u v using assms that by (simp add: comparison_def)
  have trans: "not_after cmp u w" if "not_after cmp u v" "not_after cmp v w" for u v w using assms that unfolding comparison_def by blast
  note outer = Cons.IH and xs = Cons.prems(1)
  show ?case using Cons.prems(2)
  proof (induction ys)
    case (Cons y ys)
    show ?case
    proof (cases "cmp x y < 0")
      case True
      then have "\<forall>z \<in> set (y # ys). not_after cmp x z" using asym trans Cons.prems by (metis set_ConsD sorted_wrt.simps(2))
      then show ?thesis using True outer [of "y # ys"] xs Cons.prems by (auto simp: set_merge_lists)
    next
      case False
      then have "not_after cmp y x" by (simp add: not_after_def)
      then have "\<forall>z \<in> set (x # xs). not_after cmp y z" using trans xs by (metis set_ConsD sorted_wrt.simps(2))
      then show ?thesis using False Cons by (auto simp: set_merge_lists)
    qed
  qed (use xs in simp)
qed simp

lemma sorted_msort:
  assumes "comparison cmp"
  shows "sorted_wrt (not_after cmp) (msort cmp xs)"
proof (induction "length xs" arbitrary: xs rule: less_induct)
  case less
  show ?case
  proof (cases "length xs \<le> 1")
    case True
    then show ?thesis by (cases xs) (simp_all add: msort.simps)
  next
    case False
    then show ?thesis by (subst msort.simps) (simp add: Let_def sorted_merge_lists [OF assms] less)
  qed
qed

text \<open>A comparison by a key with a linear order is one; \<open>strcmp\<close>-like functions are of this kind.\<close>

definition compare_by :: "('a \<Rightarrow> 'k :: linorder) \<Rightarrow> 'a \<Rightarrow> 'a \<Rightarrow> int" where
  "compare_by key x y = (if key x < key y then - 1 else if key x = key y then 0 else 1)"

lemma comparison_compare_by: "comparison (compare_by key)"
  by (auto simp: comparison_def compare_by_def not_after_def split: if_splits)

text \<open>Equal elements come out in reverse order: the sort is not stable.\<close>

lemma msort_reverses: "(\<And>x y. cmp x y = 0) \<Longrightarrow> msort cmp xs = rev xs"
proof (induction "length xs" arbitrary: xs rule: less_induct)
  case less
  have m: "merge_lists cmp ys zs = zs @ ys" for ys zs using less.prems
    by (induction cmp ys zs rule: merge_lists.induct) auto
  show ?case
  proof (cases "length xs \<le> 1")
    case True
    then show ?thesis by (cases xs) (simp_all add: msort.simps)
  next
    case False
    then have "msort cmp xs = rev (drop (length xs div 2) xs) @ rev (take (length xs div 2) xs)"
      by (subst msort.simps) (simp add: Let_def m less)
    then show ?thesis by (metis append_take_drop_id rev_append)
  qed
qed

text \<open>C40: the sort ends with the array in order, each element as often as before, without an access outside the array or an overflow, when the comparison is a
  total preorder and the array is not too long for the indices: below 2 GB, with at most $2^{30}$ elements.
\<close>

theorem arg_mgsort_sorts:
  assumes "0 < esize" and "esize * int (length a) < 2 ^ 31" and "length a \<le> 2 ^ 30"
    and "comparison cmp"
  shows "\<exists>b. arg_mgsort cmp esize 0 (int (length a) - 1) a = Returns () b \<and> mset b = mset a \<and> sorted_wrt (not_after cmp) b"
proof (cases "a = []")
  case True
  then show ?thesis by (simp add: arg_mgsort.simps ret_def)
next
  case False
  let ?k = "int (length a) - 1"
  have n: "nat (?k + 1) = length a" by simp
  have "arg_mgsort cmp esize 0 ?k a = Returns () (take (nat 0) a @ msort cmp (seg a 0 ?k) @ drop (nat (?k + 1)) a)"
  proof (rule arg_mgsort_returns)
    have "nat ?k < length a" using False by (cases a) auto
    then show "in_array esize ?k a" using assms(1,2) by (simp add: in_array_def)
  qed (use False assms(3) in \<open>simp_all add: Suc_le_eq\<close>)
  moreover have "seg a 0 ?k = a" by (simp add: seg_def)
  ultimately show ?thesis by (simp add: sorted_msort [OF assms(4)] mset_msort)
qed

theorem arg_mgsort_sorts_witness:
  "\<exists>b. arg_mgsort (compare_by (fst :: nat \<times> char \<Rightarrow> nat)) 16 0 2 [(2, CHR ''a''), (1, CHR ''b''), (2, CHR ''c'')] = Returns () b \<and>
     mset b = mset [(2, CHR ''a''), (1, CHR ''b''), (2, CHR ''c'')] \<and> sorted_wrt (not_after (compare_by fst)) b"
  using arg_mgsort_sorts [of 16 "[(2, CHR ''a''), (1, CHR ''b''), (2, CHR ''c'')]" "compare_by (fst :: nat \<times> char \<Rightarrow> nat)"]
  by (simp add: comparison_compare_by)

end
