(* ===== verification/ArgVsnprintf.thy ===== *)
theory ArgVsnprintf
  imports Prelude
begin

text \<open>
  The replacement for \<open>vsnprintf\<close> that \<^verbatim>\<open>cli/lib/argtable/argtable3.c\<close> has for compilers before C99 (\<open>arg_vsnprintf\<close>). \<open>vsprintf\<close> is the function of
  the C library: a parameter, the text it makes of the format and the arguments, or None when it fails; it writes the text and a terminator. The
  state is the buffer \<open>str\<close>, a list of bytes, or None for the null pointer.
\<close>

section \<open>The code\<close>

text \<open>\<open>vsprintf\<close> to a buffer of \<open>n\<close> bytes.\<close>

definition vsprintf_to :: "nat \<Rightarrow> string option \<Rightarrow> ('s, int) cfun" where
  "vsprintf_to n made = (case made of
      None \<Rightarrow> ret (- 1)
    | Some t \<Rightarrow> seq (defined_if (length t + 1 \<le> n)) (ret (int (length t))))"

text \<open>\<open>strncpy\<close> copies the text and fills up with zero bytes, at most \<open>n\<close> bytes in all.\<close>

definition strncpy_bytes :: "string \<Rightarrow> nat \<Rightarrow> string" where
  "strncpy_bytes t n = take n (t @ replicate n CHR 0x00)"

definition put_at :: "nat \<Rightarrow> string \<Rightarrow> (string option, unit) cfun" where
  "put_at i bytes = bind (gets id) (\<lambda>s. case s of
      None \<Rightarrow> faults Undefined_Behaviour
    | Some b \<Rightarrow> seq (defined_if (i + length bytes \<le> length b)) (modify (\<lambda>_. Some (take i b @ bytes @ drop (i + length bytes) b))))"

definition arg_vsnprintf :: "bool \<Rightarrow> nat \<Rightarrow> string option \<Rightarrow> (string option, int) cfun" where
  "arg_vsnprintf malloc_ok sz made = bind (gets id) (\<lambda>str.
     if str = None \<or> sz = 0 then (if \<not> malloc_ok then ret (- 1) else vsprintf_to 65536 made)
     else if sz = 1 then seq (put_at 0 [CHR 0x00]) (ret 0)
     else if \<not> malloc_ok then ret (- 1)
     else let temp_size = (if sz * 4 < 1024 then 1024 else sz * 4) in
       bind (vsprintf_to temp_size made) (\<lambda>result.
       if result < 0 then ret (- 1)
       else seq (put_at 0 (strncpy_bytes (case made of None \<Rightarrow> '''' | Some t \<Rightarrow> t) (sz - 1)))
           (seq (if int sz \<le> result then put_at (sz - 1) [CHR 0x00] else ret ())
                (ret result))))"

section \<open>What the buffer holds\<close>

text \<open>
  The result is the length of the whole text. The buffer has the text, or as much of it as fits, with a terminator, but for one case: a text of
  \<open>sz - 1\<close> characters gets none, and the last byte stays as it was.
\<close>

lemma length_strncpy_bytes [simp]: "length (strncpy_bytes t n) = n"
  by (simp add: strncpy_bytes_def min_def)

lemma arg_vsnprintf_copies:
  assumes "2 \<le> sz" and "sz \<le> length b" and "length t + 1 \<le> max 1024 (sz * 4)"
  shows "arg_vsnprintf True sz (Some t) (Some b) = Returns (int (length t)) (Some (
    if length t < sz then strncpy_bytes t (sz - 1) @ drop (sz - 1) b
    else take (sz - 1) t @ [CHR 0x00] @ drop sz b))"
proof -
  have n: "sz \<noteq> 0" "sz \<noteq> 1" "sz - 1 + 1 = sz" using assms(1) by auto
  have m: "length t + 1 \<le> (if sz * 4 < 1024 then 1024 else sz * 4)" using assms(3) by (auto split: if_splits)
  have "strncpy_bytes t (sz - 1) = take (sz - 1) t" if "\<not> length t < sz" using that by (simp add: strncpy_bytes_def)
  then show ?thesis using n m assms(2)
    by (simp add: arg_vsnprintf_def vsprintf_to_def put_at_def bind_def gets_def seq_def defined_if_def ret_def modify_def Let_def)
qed

lemma takeWhile_terminator: "z \<notin> set xs \<Longrightarrow> takeWhile (\<lambda>c. c \<noteq> z) (xs @ z # ys) = xs"
  by (induction xs) auto

lemma arg_vsnprintf_terminates:
  assumes "2 \<le> sz" and "sz \<le> length b" and "length t + 1 \<le> max 1024 (sz * 4)" and "length t + 1 \<noteq> sz" and "CHR 0x00 \<notin> set t"
  shows "\<exists>b'. arg_vsnprintf True sz (Some t) (Some b) = Returns (int (length t)) (Some b') \<and>
    takeWhile (\<lambda>c. c \<noteq> CHR 0x00) b' = take (sz - 1) t"
proof (cases "length t < sz")
  case True
  then have "sz - 1 = length t + Suc (sz - length t - 2)" using assms(4) by linarith
  then obtain k where k: "sz - 1 = length t + Suc k" by blast
  then have "strncpy_bytes t (sz - 1) = t @ CHR 0x00 # replicate k CHR 0x00" by (simp add: strncpy_bytes_def)
  then show ?thesis using arg_vsnprintf_copies [OF assms(1-3)] True takeWhile_terminator [OF assms(5)] k by simp
next
  case False
  have "CHR 0x00 \<notin> set (take (sz - 1) t)" using assms(5) set_take_subset by fast
  then show ?thesis using arg_vsnprintf_copies [OF assms(1-3)] False by (simp add: takeWhile_terminator)
qed

text \<open>The case without a terminator, on a buffer of four bytes.\<close>

lemma arg_vsnprintf_unterminated:
  "arg_vsnprintf True 4 (Some ''abc'') (Some ''wxyz'') = Returns 3 (Some ''abcz'')"
  by code_simp

end
