(* ===== verification/Spec2Isabelle.thy ===== *)
theory Spec2Isabelle
  imports CoreResume RamAreas UacpiGlue Pm QemuPrint ArgDstrProps CliOptions CliResources ArgPrintProps
    ArgIntProps ArgDbl ArgFile ArgRexMatch ArgRexUndefined ArgDateProps ArgTable ArgMgsort ArgVsnprintf
begin

text \<open>
  A verification development for SwitchOS, which switches between two operating systems by way of suspend (S3). The program has three parts that
  meet in \<open>g_core_header\<close>. The command line tool (\<^verbatim>\<open>cli/\<close>) runs in an operating system and writes an action through \<open>SetVariable\<close>. The UEFI
  application (\<^verbatim>\<open>uefi/\<close>) has put hooks into the firmware that take the action and the waking vector of the operating system, has loaded core and has
  patched the ACPI tables. Core (\<^verbatim>\<open>core/\<close>) is what the firmware wakes up: it stores the RAM on a virtio disk or exchanges it with a stored one,
  and returns to the kernel. \<^verbatim>\<open>shared/\<close> is code of all parts.

  \<^bold>\<open>Common ground.\<close> \<open>Prelude\<close> has the word types, the outcomes of a function (a result, an error \<open>err_t\<close>, or a fault: undefined behaviour or the end of
  the fuel), the statements of the C code in that monad, loops, and the rules of weakest preconditions (\<open>wp_simps\<close>); \<open>Frames\<close> the ones for partial
  correctness and for invariants (\<open>maintains_intros\<close>). \<open>Memory\<close> and \<open>MemUtils\<close> are the bytes of the memory and \<^verbatim>\<open>mem.h\<close>, \<open>Hw\<close> the ports and
  device registers (\<^verbatim>\<open>io.h\<close>), \<open>CoreHeader\<close> the header (\<^verbatim>\<open>core/header.h\<close>), \<open>QemuPrint\<close> the trace output.

  \<^bold>\<open>Core.\<close> \<open>Machine\<close> is its state. \<open>Alloc\<close> (\<^verbatim>\<open>alloc.c\<close>): allocation and release are inverse, a block is in the pool of its size, and the bug of adjacent
  pools. \<open>Pci\<close> (\<^verbatim>\<open>shared/src/pci/\<close>): enumeration, base addresses, capabilities. \<open>VirtQueue\<close> and \<open>VirtBlk\<close> (\<^verbatim>\<open>drivers/virtio/\<close>): queue and
  requests; \<open>FreeList\<close> is the contract of free lists, which allocators and descriptors interpret. \<open>BlockSpec\<close> is the contract of a block device, which
  \<open>BlockIO\<close> proves of the driver for a device that serves requests as the virtio specification says. \<open>Dump\<close> (\<^verbatim>\<open>dump.c\<close>) with \<open>DumpSpec\<close>,
  \<open>DumpProps\<close>, \<open>DumpSwitch\<close>: storing, loading and switching refine operations on RAM and disk. \<open>UacpiGlue\<close> is \<^verbatim>\<open>uacpi_glue.c\<close>, \<open>Pm\<close> the way into
  64-bit mode (\<^verbatim>\<open>pm/\<close>). \<open>CoreMain\<close> is \<open>core_main\<close>, which never ends with an error (\<open>CoreProps\<close>, any device) and with a device that keeps its
  specification always comes to the return to a kernel, with the vector, RAM and disk that the action asks for (\<open>CoreResume\<close>); \<open>DriverStart\<close> shows
  that the driver's start ends and changes nothing clients see, \<open>DiskDevice\<close> has a device on which it succeeds.

  \<^bold>\<open>UEFI application.\<close> \<open>UefiState\<close> is its state. \<open>AcpiTables\<close>, \<open>PkgLength\<close>, \<open>DsdtPatch\<close> (\<^verbatim>\<open>acpi/\<close>): the tables are found, the package lengths
  decoded, methods found, the DSDT extended. \<open>ServiceHooks\<close> and \<open>HookLoaders\<close> (\<^verbatim>\<open>services/\<close>): the hooks and their installation. \<open>CoreLoader\<close>
  (\<^verbatim>\<open>app.c\<close>, \<^verbatim>\<open>core_loader.c\<close>, \<^verbatim>\<open>core_header_utils.c\<close>): \<open>efi_main\<close>. \<open>HookProps\<close>, \<open>UefiProps\<close>, \<open>RamAreas\<close>: commands, the exact
  fate of the waking vector, the memory map with its marks, the application installs everything or nothing, the RAM areas.

  \<^bold>\<open>Command line tool.\<close> \<open>CliOs\<close> (\<^verbatim>\<open>osl/\<close>), \<open>ArgCmd\<close> (the subcommands of the parser) and \<open>Cli\<close> (\<^verbatim>\<open>commands/\<close>, \<^verbatim>\<open>app.c\<close>), with \<open>CliProps\<close> (a command
  reaches core's header, through the hook), \<open>CliResources\<close>, \<open>CliArgs\<close> and \<open>CliOptions\<close> (help, options, the hang). The handlers write text: \<open>add_to_res\<close> of
  \<open>ArgCmd\<close> is what \<open>arg_dstr_cat\<close> and \<open>arg_dstr_catf\<close> do to the text of a dynamic string, by \<open>ArgDstrProps\<close>.

  \<^bold>\<open>Argument parser\<close> (\<^verbatim>\<open>cli/lib/argtable/argtable3.c\<close>, which the repository brings along). \<open>ArgHashtable\<close> with \<open>ArgHashtableProps\<close>: the hash table is a map
  (\<open>dictionary\<close>). \<open>ArgDstr\<close> with \<open>ArgDstrProps\<close>: dynamic strings with their buffers are strings. \<open>GetOpt\<close>, \<open>GetOptSteps\<close>, \<open>GetOptProps\<close>: the
  embedded \<open>getopt_long\<close>. \<open>ArgParse\<close>, \<open>ArgParseProps\<close>: tables with the types of entries the tool has, and \<open>arg_parse\<close>. \<open>ArgPrint\<close>, \<open>ArgPrintProps\<close>:
  syntax, glossary, errors. \<open>ArgTable\<close>: the check and the release of tables. \<open>ArgMgsort\<close>: the merge sort. \<open>ArgVsnprintf\<close>: the
  replacement for \<open>vsnprintf\<close>. The types of options the tool does not use act on
  one entry: \<open>ArgInt\<close>, \<open>ArgDbl\<close>, \<open>ArgFile\<close>, \<open>ArgRex\<close>, \<open>ArgDate\<close>; each interprets \<open>option_type\<close> of \<open>ArgOption\<close>, the contract \<open>arg_parse\<close> relies on, by
  which the calls for an entry count what they accept and keep to \<open>maxcount\<close>. \<open>Ctype\<close> has the functions of the C library that they use. \<open>ArgIntProps\<close>:
  numbers are read with their value. \<open>ArgRexProps\<close>, \<open>ArgRexUndefined\<close>, \<open>ArgRexMatch\<close>: the compiler of regular expressions ends inside its arrays but
  for three kinds of patterns, for which it is shown to leave them, and plain patterns match themselves. \<open>ArgDateProps\<close>: the date parser ends, keeps the ranges and reads dates back.

  \<^bold>\<open>Faults and fuel.\<close> Undefined behaviour is an outcome, so a theorem that a function returns excludes it. Loops that need not end have fuel: polling
  of the device (the theorems assume that it answers within the fuel); the calls of \<open>getopt_long\<close> in \<open>arg_parse\<close> (\<open>arg_parse_terminates\<close> gives the
  number that is enough, and \<open>cli_hangs_on_trailing_dash\<close> the arguments for which none is); a handler called by \<open>help\<close>, two deep; the compiler of regular
  expressions, whose calls consume a character within two of them; repetitions, whose counter ends at 65536; \<open>arg_strptime\<close>, whose formats for formats are
  three deep. The matcher of regular expressions has its recursion depth as a parameter.

  \<^bold>\<open>Parameters.\<close> Hardware, firmware, uACPI, operating systems, \<open>strtod\<close>, \<open>strftime\<close>, addresses chosen by the linker, images made by the build. Hypotheses
  about them state their documented behaviour, and every theorem with a hypothesis has a witness.

  \<^bold>\<open>Not modelled.\<close> The assembly stubs of real mode and protected mode, which are no C code; the variants of the printing functions that write to a \<open>FILE\<close>,
  which create, print and destroy a dynamic string; the lists of options on the heap of \<open>arg_parse\<close>, and \<open>trex_free\<close>, which release what was allocated; the
  trace macros; \<open>DllMain\<close>; declarations and the documentation in headers; the panic handler, which ends the program when memory runs out.
\<close>

end
